(* ===== verification/Prelude.thy ===== *)
theory Prelude
  imports Complex_Main "HOL-Library.Sublist" "HOL-Library.Code_Target_Nat"
begin

text \<open>
  Shared vocabulary of the development: the collections that the component proofs put into
  the simplifier, Go's 64-bit integers and its \<open>time.Duration\<close>/\<open>time.Time\<close> as mathematical
  integers with the wrap-around written out, results of fallible calls as sums, and the few
  generic facts on lists, options and maps that several components use.
\<close>

named_theorems go_defs \<open>definitional equations unfolded together in evaluations\<close>
named_theorems inv_intros \<open>preservation lemmas of the component invariants\<close>

subsection \<open>Machine integers\<close>

text \<open>A Go \<open>int64\<close> (and \<open>int\<close> on the 64-bit targets) is an \<open>int\<close> in this range;
  arithmetic that can leave it is wrapped explicitly.\<close>

definition int64_max :: int where "int64_max = 9223372036854775807"
definition int64_min :: int where "int64_min = -9223372036854775808"

definition in_int64 :: "int \<Rightarrow> bool" where
  "in_int64 x \<longleftrightarrow> int64_min \<le> x \<and> x \<le> int64_max"

definition wrap64 :: "int \<Rightarrow> int" where
  "wrap64 x = (x + 9223372036854775808) mod 18446744073709551616 - 9223372036854775808"

lemma wrap64_id [simp]: "in_int64 x \<Longrightarrow> wrap64 x = x"
  by (simp add: wrap64_def in_int64_def int64_max_def int64_min_def)

lemma wrap64_in_int64 [simp]: "in_int64 (wrap64 x)"
proof -
  have "0 \<le> (x + 9223372036854775808) mod 18446744073709551616"
    and "(x + 9223372036854775808) mod 18446744073709551616 < 18446744073709551616"
    by simp_all
  then show ?thesis
    unfolding wrap64_def in_int64_def int64_max_def int64_min_def by linarith
qed

lemma wrap64_idem [simp]: "wrap64 (wrap64 x) = wrap64 x"
  by simp

text \<open>Go's integer division truncates towards zero.\<close>

definition tdiv :: "int \<Rightarrow> int \<Rightarrow> int" where
  "tdiv a b = sgn a * sgn b * (\<bar>a\<bar> div \<bar>b\<bar>)"

lemma tdiv_nonneg: "0 \<le> a \<Longrightarrow> 0 < b \<Longrightarrow> tdiv a b = a div b"
  by (cases "a = 0") (simp_all add: tdiv_def)

lemma tdiv_mult: "b \<noteq> 0 \<Longrightarrow> tdiv (a * b) b = a"
  by (simp add: tdiv_def abs_mult sgn_mult) (simp add: sgn_if split: if_splits)

subsection \<open>Durations and instants\<close>

text \<open>A \<open>time.Duration\<close> counts nanoseconds. A \<open>time.Time\<close> is modelled by its nanoseconds since
  the Unix epoch; Go's zero \<open>Time\<close> (January 1, year 1) is \<open>time_zero\<close>.\<close>

type_synonym duration = int
type_synonym instant = int

definition nanosecond :: duration where "nanosecond = 1"
definition millisecond :: duration where "millisecond = 1000000"
definition second :: duration where "second = 1000000000"
definition minute :: duration where "minute = 60000000000"
definition hour :: duration where "hour = 3600000000000"

definition time_zero :: instant where "time_zero = -62135596800000000000"

definition is_zero_time :: "instant \<Rightarrow> bool" where "is_zero_time t \<longleftrightarrow> t = time_zero"

text \<open>\<open>time.UnixMilli(ms)\<close> and \<open>Time.UnixMilli()\<close>; Go keeps whole seconds and a non-negative
  nanosecond remainder, so the reading rounds down.\<close>

definition unix_milli :: "int \<Rightarrow> instant" where "unix_milli ms = ms * 1000000"
definition to_milli :: "instant \<Rightarrow> int" where "to_milli t = t div 1000000"

lemma to_milli_unix_milli [simp]: "to_milli (unix_milli ms) = ms"
  by (simp add: to_milli_def unix_milli_def)

lemma to_milli_mono: "s \<le> t \<Longrightarrow> to_milli s \<le> to_milli t"
  by (simp add: to_milli_def zdiv_mono1)

subsection \<open>Results\<close>

definition is_err :: "'e + 'a \<Rightarrow> bool" where
  "is_err r = (case r of Inl _ \<Rightarrow> True | Inr _ \<Rightarrow> False)"

lemma is_err_simps [simp]: "is_err (Inl e)" "\<not> is_err (Inr x)"
  by (simp_all add: is_err_def)

definition bind_res :: "'e + 'a \<Rightarrow> ('a \<Rightarrow> 'e + 'b) \<Rightarrow> 'e + 'b" where
  "bind_res r f = (case r of Inl e \<Rightarrow> Inl e | Inr x \<Rightarrow> f x)"

lemma bind_res_simps [simp]: "bind_res (Inl e) f = Inl e" "bind_res (Inr x) f = f x"
  by (simp_all add: bind_res_def)

lemma bind_res_Inr_iff: "bind_res r f = Inr y \<longleftrightarrow> (\<exists>x. r = Inr x \<and> f x = Inr y)"
  by (cases r) simp_all

subsection \<open>Lists\<close>

fun find_index :: "('a \<Rightarrow> bool) \<Rightarrow> 'a list \<Rightarrow> nat option" where
  "find_index p [] = None"
| "find_index p (x # xs) = (if p x then Some 0 else map_option Suc (find_index p xs))"

lemma find_index_None: "find_index p xs = None \<longleftrightarrow> (\<forall>x \<in> set xs. \<not> p x)"
  by (induction xs) auto

lemma find_index_Some: "find_index p xs = Some i \<Longrightarrow> i < length xs \<and> p (xs ! i)"
  by (induction xs arbitrary: i) (auto split: if_splits)

text \<open>Go's \<open>append(xs[:i], xs[i+1:]...)\<close>.\<close>

definition remove_nth :: "nat \<Rightarrow> 'a list \<Rightarrow> 'a list" where
  "remove_nth i xs = take i xs @ drop (Suc i) xs"

lemma set_remove_nth_subset: "set (remove_nth i xs) \<subseteq> set xs"
  by (auto simp: remove_nth_def dest: in_set_takeD in_set_dropD)

lemma length_remove_nth: "i < length xs \<Longrightarrow> length (remove_nth i xs) = length xs - 1"
  by (simp add: remove_nth_def)

lemma map_remove_nth: "map f (remove_nth i xs) = remove_nth i (map f xs)"
  by (simp add: remove_nth_def take_map drop_map)

lemma distinct_remove_nth: "distinct xs \<Longrightarrow> distinct (remove_nth i xs)"
  by (auto simp: remove_nth_def distinct_take distinct_drop
      dest: set_take_disj_set_drop_if_distinct [of xs i "Suc i"])

lemma remove_nth_split: "i < length xs \<Longrightarrow> set xs = insert (xs ! i) (set (remove_nth i xs))"
  by (subst id_take_nth_drop [of i xs]) (auto simp: remove_nth_def)

lemma nth_notin_remove_nth:
  assumes "distinct xs" and "i < length xs"
  shows "xs ! i \<notin> set (remove_nth i xs)"
proof -
  have "distinct (take i xs @ xs ! i # drop (Suc i) xs)"
    using assms by (metis id_take_nth_drop)
  then show ?thesis by (simp add: remove_nth_def)
qed

end
