(* ===== verification/GoStrings.thy ===== *)
theory GoStrings
  imports Prelude Unicode_Case
begin

text \<open>
  The parts of Go's \<open>strings\<close>, \<open>unicode/utf8\<close> and \<open>strconv\<close> that the modelled code calls. A Go
  string is a sequence of bytes, so it is an Isabelle \<open>string\<close> whose characters are bytes; a rune
  is a \<open>nat\<close>. Decoding follows \<open>utf8.DecodeRuneInString\<close>: an invalid sequence is the replacement
  rune of width one.
\<close>

subsection \<open>UTF-8\<close>

definition byte_of :: "char \<Rightarrow> nat" where "byte_of c = of_char c"
definition chr_of :: "nat \<Rightarrow> char" where "chr_of n = char_of n"

lemma byte_of_lt [simp]: "byte_of c < 256"
  by (simp add: byte_of_def)

lemma chr_of_byte_of [simp]: "chr_of (byte_of c) = c"
  by (simp add: byte_of_def chr_of_def)

lemma byte_of_chr_of [simp]: "n < 256 \<Longrightarrow> byte_of (chr_of n) = n"
  by (simp add: byte_of_def chr_of_def of_char_of)

lemma byte_of_inj: "byte_of c = byte_of d \<Longrightarrow> c = d"
  by (metis chr_of_byte_of)

definition rune_error :: nat where "rune_error = 65533"

definition is_cont :: "nat \<Rightarrow> bool" where "is_cont b \<longleftrightarrow> 128 \<le> b \<and> b \<le> 191"

text \<open>\<open>utf8.RuneStart\<close>.\<close>
definition rune_start :: "char \<Rightarrow> bool" where "rune_start c \<longleftrightarrow> \<not> is_cont (byte_of c)"

definition ok2 :: "nat \<Rightarrow> nat \<Rightarrow> bool" where
  "ok2 b0 b1 \<longleftrightarrow> 194 \<le> b0 \<and> b0 \<le> 223 \<and> is_cont b1"

definition ok3 :: "nat \<Rightarrow> nat \<Rightarrow> nat \<Rightarrow> bool" where
  "ok3 b0 b1 b2 \<longleftrightarrow> 224 \<le> b0 \<and> b0 \<le> 239 \<and> is_cont b1 \<and> is_cont b2
     \<and> (b0 = 224 \<longrightarrow> 160 \<le> b1) \<and> (b0 = 237 \<longrightarrow> b1 \<le> 159)"

definition ok4 :: "nat \<Rightarrow> nat \<Rightarrow> nat \<Rightarrow> nat \<Rightarrow> bool" where
  "ok4 b0 b1 b2 b3 \<longleftrightarrow> 240 \<le> b0 \<and> b0 \<le> 244 \<and> is_cont b1 \<and> is_cont b2 \<and> is_cont b3
     \<and> (b0 = 240 \<longrightarrow> 144 \<le> b1) \<and> (b0 = 244 \<longrightarrow> b1 \<le> 143)"

fun decode_rune :: "string \<Rightarrow> nat \<times> nat" where
  "decode_rune [] = (rune_error, 0)"
| "decode_rune [a] = (if byte_of a < 128 then (byte_of a, 1) else (rune_error, 1))"
| "decode_rune [a, b] =
     (if byte_of a < 128 then (byte_of a, 1)
      else if ok2 (byte_of a) (byte_of b) then ((byte_of a - 192) * 64 + (byte_of b - 128), 2)
      else (rune_error, 1))"
| "decode_rune [a, b, c] =
     (if byte_of a < 128 then (byte_of a, 1)
      else if ok2 (byte_of a) (byte_of b) then ((byte_of a - 192) * 64 + (byte_of b - 128), 2)
      else if ok3 (byte_of a) (byte_of b) (byte_of c)
      then ((byte_of a - 224) * 4096 + (byte_of b - 128) * 64 + (byte_of c - 128), 3)
      else (rune_error, 1))"
| "decode_rune (a # b # c # d # s) =
     (if byte_of a < 128 then (byte_of a, 1)
      else if ok2 (byte_of a) (byte_of b) then ((byte_of a - 192) * 64 + (byte_of b - 128), 2)
      else if ok3 (byte_of a) (byte_of b) (byte_of c)
      then ((byte_of a - 224) * 4096 + (byte_of b - 128) * 64 + (byte_of c - 128), 3)
      else if ok4 (byte_of a) (byte_of b) (byte_of c) (byte_of d)
      then ((byte_of a - 240) * 262144 + (byte_of b - 128) * 4096 + (byte_of c - 128) * 64
            + (byte_of d - 128), 4)
      else (rune_error, 1))"

definition rune_width :: "string \<Rightarrow> nat" where "rune_width s = snd (decode_rune s)"
definition first_rune :: "string \<Rightarrow> nat" where "first_rune s = fst (decode_rune s)"

lemma rune_width_pos: "s \<noteq> [] \<Longrightarrow> 0 < rune_width s"
  by (induction s rule: decode_rune.induct) (auto simp: rune_width_def)

lemma rune_width_le: "rune_width s \<le> length s"
  by (induction s rule: decode_rune.induct) (auto simp: rune_width_def)

lemma rune_width_le4: "rune_width s \<le> 4"
  by (induction s rule: decode_rune.induct) (auto simp: rune_width_def)

lemma decode_ascii: "byte_of c < 128 \<Longrightarrow> decode_rune (c # s) = (byte_of c, 1)"
  by (cases s rule: decode_rune.cases; cases "tl s"; cases "tl (tl s)"; cases "tl (tl (tl s))") auto

text \<open>The string cut into its runes' bytes, and \<open>[]rune(s)\<close>.\<close>

function rune_chunks :: "string \<Rightarrow> string list" where
  "rune_chunks s =
     (if s = [] then [] else take (rune_width s) s # rune_chunks (drop (rune_width s) s))"
  by pat_completeness auto
termination
  by (relation "measure length") (auto simp: rune_width_pos)

declare rune_chunks.simps [simp del]

lemma rune_chunks_Nil [simp]: "rune_chunks [] = []"
  by (simp add: rune_chunks.simps)

lemma rune_chunks_ne: "s \<noteq> [] \<Longrightarrow>
    rune_chunks s = take (rune_width s) s # rune_chunks (drop (rune_width s) s)"
  by (simp add: rune_chunks.simps [of s])

lemma concat_rune_chunks [simp]: "concat (rune_chunks s) = s"
  by (induction s rule: rune_chunks.induct) (subst rune_chunks.simps, auto)

lemma rune_chunks_nonempty: "c \<in> set (rune_chunks s) \<Longrightarrow> c \<noteq> []"
proof (induction s rule: rune_chunks.induct)
  case (1 s)
  show ?case
  proof (cases "s = []")
    case True
    with "1.prems" show ?thesis by simp
  next
    case False
    with "1" rune_width_pos [OF False] show ?thesis by (auto simp: rune_chunks_ne)
  qed
qed

definition runes :: "string \<Rightarrow> nat list" where "runes s = map first_rune (rune_chunks s)"

definition rune_count :: "string \<Rightarrow> nat" where "rune_count s = length (rune_chunks s)"

text \<open>\<open>string(rune)\<close>: surrogates and values beyond U+10FFFF encode as the replacement rune.\<close>

definition valid_rune :: "nat \<Rightarrow> bool" where
  "valid_rune r \<longleftrightarrow> r < 55296 \<or> (57344 \<le> r \<and> r < 1114112)"

definition encode_rune :: "nat \<Rightarrow> string" where
  "encode_rune r0 =
     (let r = (if valid_rune r0 then r0 else rune_error) in
      if r < 128 then [chr_of r]
      else if r < 2048 then [chr_of (192 + r div 64), chr_of (128 + r mod 64)]
      else if r < 65536 then
        [chr_of (224 + r div 4096), chr_of (128 + r div 64 mod 64), chr_of (128 + r mod 64)]
      else [chr_of (240 + r div 262144), chr_of (128 + r div 4096 mod 64),
            chr_of (128 + r div 64 mod 64), chr_of (128 + r mod 64)])"

text \<open>\<open>utf8.RuneLen\<close>.\<close>
definition rune_len :: "nat \<Rightarrow> nat" where
  "rune_len r = (if r < 128 then 1 else if r < 2048 then 2 else if r < 65536 then 3 else 4)"

text \<open>\<open>utf8.ValidString\<close>: no rune of the string is a decoding error.\<close>
definition valid_utf8 :: "string \<Rightarrow> bool" where
  "valid_utf8 s \<longleftrightarrow> (\<forall>c \<in> set (rune_chunks s). \<not> (first_rune c = rune_error \<and> length c = 1))"

lemma decode_prefix: "decode_rune (take (rune_width s) s) = decode_rune s"
  by (induction s rule: decode_rune.induct) (auto simp: rune_width_def)

lemma first_rune_prefix [simp]: "first_rune (take (rune_width s) s) = first_rune s"
  by (simp add: first_rune_def decode_prefix)

text \<open>A non-empty string begins with a one- to four-byte sequence or with an invalid byte.\<close>

definition seq_ascii :: "string \<Rightarrow> bool" where
  "seq_ascii s \<longleftrightarrow> (\<exists>a t. s = a # t \<and> byte_of a < 128 \<and> decode_rune s = (byte_of a, 1))"
definition seq_two :: "string \<Rightarrow> bool" where
  "seq_two s \<longleftrightarrow> (\<exists>a b t. s = a # b # t \<and> ok2 (byte_of a) (byte_of b)
     \<and> decode_rune s = ((byte_of a - 192) * 64 + (byte_of b - 128), 2))"
definition seq_three :: "string \<Rightarrow> bool" where
  "seq_three s \<longleftrightarrow> (\<exists>a b c t. s = a # b # c # t \<and> ok3 (byte_of a) (byte_of b) (byte_of c)
     \<and> decode_rune s = ((byte_of a - 224) * 4096 + (byte_of b - 128) * 64 + (byte_of c - 128), 3))"
definition seq_four :: "string \<Rightarrow> bool" where
  "seq_four s \<longleftrightarrow> (\<exists>a b c d t. s = a # b # c # d # t
     \<and> ok4 (byte_of a) (byte_of b) (byte_of c) (byte_of d)
     \<and> decode_rune s = ((byte_of a - 240) * 262144 + (byte_of b - 128) * 4096
         + (byte_of c - 128) * 64 + (byte_of d - 128), 4))"
definition seq_bad :: "string \<Rightarrow> bool" where
  "seq_bad s \<longleftrightarrow> (\<exists>a t. s = a # t \<and> 128 \<le> byte_of a \<and> decode_rune s = (rune_error, 1))"

lemma ok_not_ascii: "ok2 a b \<Longrightarrow> \<not> a < 128" "ok3 a b c \<Longrightarrow> \<not> a < 128" "ok4 a b c d \<Longrightarrow> \<not> a < 128"
  "ok3 a b c \<Longrightarrow> \<not> ok2 a b" "ok4 a b c d \<Longrightarrow> \<not> ok2 a b" "ok4 a b c d \<Longrightarrow> \<not> ok3 a b c"
  by (auto simp: ok2_def ok3_def ok4_def)

lemma decode_cases:
  "s \<noteq> [] \<Longrightarrow> seq_ascii s \<or> seq_two s \<or> seq_three s \<or> seq_four s \<or> seq_bad s"
proof (induction s rule: decode_rune.induct)
  case 1
  then show ?case by simp
next
  case (2 a)
  show ?case by (simp add: seq_ascii_def seq_bad_def not_less)
next
  case (3 a b)
  show ?case
    by (cases "byte_of a < 128"; cases "ok2 (byte_of a) (byte_of b)")
       (simp_all add: seq_ascii_def seq_two_def seq_bad_def not_less)
next
  case (4 a b c)
  show ?case
    by (cases "byte_of a < 128"; cases "ok2 (byte_of a) (byte_of b)";
        cases "ok3 (byte_of a) (byte_of b) (byte_of c)")
       (simp_all add: seq_ascii_def seq_two_def seq_three_def seq_bad_def not_less)
next
  case (5 a b c d s)
  show ?case
    by (cases "byte_of a < 128"; cases "ok2 (byte_of a) (byte_of b)";
        cases "ok3 (byte_of a) (byte_of b) (byte_of c)";
        cases "ok4 (byte_of a) (byte_of b) (byte_of c) (byte_of d)")
       (simp_all add: seq_ascii_def seq_two_def seq_three_def seq_four_def seq_bad_def not_less)
qed

text \<open>The payload bits of each form.\<close>

lemma ok2_bits: "ok2 a b \<Longrightarrow> \<exists>x y. a = 192 + x \<and> b = 128 + y \<and> 2 \<le> x \<and> x < 32 \<and> y < 64"
  by (rule exI [of _ "a - 192"], rule exI [of _ "b - 128"]) (auto simp: ok2_def is_cont_def)

lemma ok3_bits: "ok3 a b c \<Longrightarrow> \<exists>x y z. a = 224 + x \<and> b = 128 + y \<and> c = 128 + z \<and> x < 16 \<and> y < 64
    \<and> z < 64 \<and> (x = 0 \<longrightarrow> 32 \<le> y) \<and> (x = 13 \<longrightarrow> y < 32)"
  by (rule exI [of _ "a - 224"], rule exI [of _ "b - 128"], rule exI [of _ "c - 128"])
     (auto simp: ok3_def is_cont_def)

lemma ok4_bits: "ok4 a b c d \<Longrightarrow> \<exists>x y z w. a = 240 + x \<and> b = 128 + y \<and> c = 128 + z \<and> d = 128 + w
    \<and> x < 5 \<and> y < 64 \<and> z < 64 \<and> w < 64 \<and> (x = 0 \<longrightarrow> 16 \<le> y) \<and> (x = 4 \<longrightarrow> y < 16)"
  by (rule exI [of _ "a - 240"], rule exI [of _ "b - 128"], rule exI [of _ "c - 128"],
      rule exI [of _ "d - 128"]) (auto simp: ok4_def is_cont_def)

text \<open>A decoded rune re-encodes to the bytes it was read from, unless these were invalid.\<close>

definition decodes_well :: "string \<Rightarrow> bool" where
  "decodes_well s \<longleftrightarrow> valid_rune (first_rune s) \<and> rune_width s \<le> rune_len (first_rune s)
     \<and> (first_rune s = rune_error \<and> rune_width s = 1
        \<or> encode_rune (first_rune s) = take (rune_width s) s)"

lemma bits2: "y < 64 \<Longrightarrow> (x * 64 + y) div 64 = x \<and> (x * 64 + y) mod 64 = (y::nat)"
  by simp

lemma bits3:
  assumes "y < 64" "z < (64::nat)"
  shows "(x * 4096 + y * 64 + z) div 4096 = x \<and> (x * 4096 + y * 64 + z) div 64 mod 64 = y
    \<and> (x * 4096 + y * 64 + z) mod 64 = z"
proof -
  have e: "x * 4096 + y * 64 + z = (x * 64 + y) * 64 + z" by simp
  have d: "(x * 4096 + y * 64 + z) div 64 = x * 64 + y" unfolding e using assms by simp
  have "(x * 4096 + y * 64 + z) div 4096 = (x * 4096 + y * 64 + z) div 64 div 64"
    by (simp add: div_mult2_eq [symmetric])
  moreover have "(x * 4096 + y * 64 + z) mod 64 = z"
    using bits2 [OF assms(2), of "x * 64 + y"] by (simp only: e)
  ultimately show ?thesis using d assms by simp
qed

lemma bits4:
  assumes "y < 64" "z < 64" "w < (64::nat)"
  shows "(x * 262144 + y * 4096 + z * 64 + w) div 262144 = x
    \<and> (x * 262144 + y * 4096 + z * 64 + w) div 4096 mod 64 = y
    \<and> (x * 262144 + y * 4096 + z * 64 + w) div 64 mod 64 = z
    \<and> (x * 262144 + y * 4096 + z * 64 + w) mod 64 = w"
proof -
  let ?r = "x * 262144 + y * 4096 + z * 64 + w"
  have e: "?r = (x * 4096 + y * 64 + z) * 64 + w" by simp
  have d: "?r div 64 = x * 4096 + y * 64 + z" unfolding e using assms by simp
  have d2: "?r div 4096 = ?r div 64 div 64" by (simp add: div_mult2_eq [symmetric])
  have d3: "?r div 262144 = ?r div 64 div 4096" by (simp add: div_mult2_eq [symmetric])
  have d4: "?r div 64 div 64 = x * 64 + y"
  proof -
    have "x * 4096 + y * 64 + z = (x * 64 + y) * 64 + z" by simp
    then show ?thesis unfolding d using assms by simp
  qed
  have m: "?r mod 64 = w"
    using bits2 [OF assms(3), of "x * 4096 + y * 64 + z"] by (simp only: e)
  have m1: "?r div 64 mod 64 = z" unfolding d using bits3 [OF assms(1,2), of x] by simp
  have m2: "?r div 4096 mod 64 = y" unfolding d2 d4 using assms by simp
  have m3: "?r div 262144 = x" unfolding d3 d using bits3 [OF assms(1,2), of x] by simp
  show ?thesis using m m1 m2 m3 by blast
qed

lemma encode_rune_three: "valid_rune r \<Longrightarrow> \<not> r < 2048 \<Longrightarrow> r < 65536 \<Longrightarrow> encode_rune r =
    [chr_of (224 + r div 4096), chr_of (128 + r div 64 mod 64), chr_of (128 + r mod 64)]"
  by (simp add: encode_rune_def Let_def)

lemma encode_rune_four: "valid_rune r \<Longrightarrow> \<not> r < 65536 \<Longrightarrow> encode_rune r =
    [chr_of (240 + r div 262144), chr_of (128 + r div 4096 mod 64),
     chr_of (128 + r div 64 mod 64), chr_of (128 + r mod 64)]"
  by (simp add: encode_rune_def Let_def)

lemma decodes_well_two: "seq_two s \<Longrightarrow> decodes_well s"
proof -
  assume "seq_two s"
  then obtain a b t where s: "s = a # b # t" "ok2 (byte_of a) (byte_of b)"
    and d: "decode_rune s = ((byte_of a - 192) * 64 + (byte_of b - 128), 2)"
    by (auto simp: seq_two_def)
  from ok2_bits [OF s(2)] obtain x y
    where b: "byte_of a = 192 + x" "byte_of b = 128 + y" "2 \<le> x" "x < 32" "y < 64" by blast
  then have "chr_of (192 + x) = a" "chr_of (128 + y) = b" by (metis chr_of_byte_of)+
  with s(1) d b show ?thesis
    by (simp add: decodes_well_def first_rune_def rune_width_def valid_rune_def rune_len_def
        encode_rune_def bits2)
qed

lemma decodes_well_three: "seq_three s \<Longrightarrow> decodes_well s"
proof -
  assume "seq_three s"
  then obtain a b c t where s: "s = a # b # c # t" "ok3 (byte_of a) (byte_of b) (byte_of c)"
    and d: "decode_rune s = ((byte_of a - 224) * 4096 + (byte_of b - 128) * 64
      + (byte_of c - 128), 3)"
    by (auto simp: seq_three_def)
  from ok3_bits [OF s(2)] obtain x y z
    where b: "byte_of a = 224 + x" "byte_of b = 128 + y" "byte_of c = 128 + z" "x < 16" "y < 64"
      "z < 64" "x = 0 \<longrightarrow> 32 \<le> y" "x = 13 \<longrightarrow> y < 32" by blast
  let ?r = "x * 4096 + y * 64 + z"
  from b have c: "chr_of (224 + x) = a" "chr_of (128 + y) = b" "chr_of (128 + z) = c"
    by (metis chr_of_byte_of)+
  have v: "valid_rune ?r"
  proof (cases "x < 13")
    case True
    with b(5,6) show ?thesis by (simp add: valid_rune_def)
  next
    case False
    with b(4-8) show ?thesis by (cases "x = 13") (simp_all add: valid_rune_def)
  qed
  have r: "\<not> ?r < 128" "\<not> ?r < 2048" using b(5-7) by (cases "x = 0"; simp)+
  have r3: "?r < 65536" using b(4-6) by simp
  have fr: "first_rune s = ?r" "rune_width s = 3"
    using d b by (simp_all add: first_rune_def rune_width_def)
  have "encode_rune ?r = [a, b, c]"
    unfolding encode_rune_three [OF v r(2) r3] using c bits3 [OF b(5,6), of x] by simp
  moreover have "rune_len ?r = 3" using r r3 unfolding rune_len_def by simp
  ultimately show ?thesis using s(1) v unfolding decodes_well_def fr by simp
qed

lemma decodes_well_four: "seq_four s \<Longrightarrow> decodes_well s"
proof -
  assume "seq_four s"
  then obtain a b c d t where s: "s = a # b # c # d # t"
      "ok4 (byte_of a) (byte_of b) (byte_of c) (byte_of d)"
    and dec: "decode_rune s = ((byte_of a - 240) * 262144 + (byte_of b - 128) * 4096
       + (byte_of c - 128) * 64 + (byte_of d - 128), 4)"
    by (auto simp: seq_four_def)
  from ok4_bits [OF s(2)] obtain x y z w
    where b: "byte_of a = 240 + x" "byte_of b = 128 + y" "byte_of c = 128 + z" "byte_of d = 128 + w"
      "x < 5" "y < 64" "z < 64" "w < 64" "x = 0 \<longrightarrow> 16 \<le> y" "x = 4 \<longrightarrow> y < 16" by blast
  let ?r = "x * 262144 + y * 4096 + z * 64 + w"
  from b have c: "chr_of (240 + x) = a" "chr_of (128 + y) = b" "chr_of (128 + z) = c"
    "chr_of (128 + w) = d" by (metis chr_of_byte_of)+
  have r: "\<not> ?r < 65536" using b(6-9) by (cases "x = 0") simp_all
  have "?r < 1114112" using b(5-8,10) by (cases "x = 4") simp_all
  with r have v: "valid_rune ?r" unfolding valid_rune_def by simp
  have fr: "first_rune s = ?r" "rune_width s = 4"
    using dec b by (simp_all add: first_rune_def rune_width_def)
  have "encode_rune ?r = [a, b, c, d]"
    unfolding encode_rune_four [OF v r] using c bits4 [OF b(6,7,8), of x] by simp
  moreover have "rune_len ?r = 4" using r unfolding rune_len_def by simp
  ultimately show ?thesis using s(1) v unfolding decodes_well_def fr by simp
qed

lemma decodes_well: "s \<noteq> [] \<Longrightarrow> decodes_well s"
proof -
  assume ne: "s \<noteq> []"
  have "seq_ascii s \<Longrightarrow> decodes_well s"
    by (auto simp: seq_ascii_def decodes_well_def first_rune_def rune_width_def valid_rune_def
        rune_len_def encode_rune_def)
  moreover have "seq_bad s \<Longrightarrow> decodes_well s"
    by (auto simp: seq_bad_def decodes_well_def first_rune_def rune_width_def valid_rune_def
        rune_len_def rune_error_def)
  ultimately show ?thesis
    using decode_cases [OF ne] decodes_well_two decodes_well_three decodes_well_four by blast
qed

lemma width_le_rune_len: "s \<noteq> [] \<Longrightarrow> rune_width s \<le> rune_len (first_rune s)"
  using decodes_well by (simp add: decodes_well_def)

lemma first_rune_valid: "s \<noteq> [] \<Longrightarrow> valid_rune (first_rune s)"
  using decodes_well by (simp add: decodes_well_def)

lemma encode_first_rune:
  "s \<noteq> [] \<Longrightarrow> \<not> (first_rune s = rune_error \<and> rune_width s = 1) \<Longrightarrow>
   encode_rune (first_rune s) = take (rune_width s) s"
  using decodes_well by (auto simp: decodes_well_def)

lemma length_encode_rune: "valid_rune r \<Longrightarrow> length (encode_rune r) = rune_len r"
  by (simp add: encode_rune_def rune_len_def)

subsection \<open>White space and trimming\<close>

text \<open>\<open>unicode.IsSpace\<close>, and the UTF-8 encodings of its 25 code points.\<close>

definition space_points :: "nat list" where
  "space_points = [9, 10, 11, 12, 13, 32, 133, 160, 5760, 8192, 8193, 8194, 8195, 8196, 8197,
     8198, 8199, 8200, 8201, 8202, 8232, 8233, 8239, 8287, 12288]"

definition is_space_rune :: "nat \<Rightarrow> bool" where "is_space_rune r \<longleftrightarrow> r \<in> set space_points"

definition space_seqs :: "string list" where "space_seqs = map encode_rune space_points"

text \<open>Remove leading occurrences of the given byte sequences as long as there are any.\<close>

function strip :: "string list \<Rightarrow> string \<Rightarrow> string" where
  "strip ps s = (case find (\<lambda>p. p \<noteq> [] \<and> prefix p s) ps of
       None \<Rightarrow> s
     | Some p \<Rightarrow> strip ps (drop (length p) s))"
  by pat_completeness auto
termination
  by (relation "measure (\<lambda>(_, s). length s)") (auto simp: find_Some_iff prefix_def)

declare strip.simps [simp del]

definition strip_free :: "string list \<Rightarrow> string \<Rightarrow> bool" where
  "strip_free ps s \<longleftrightarrow> (\<forall>p \<in> set ps. p \<noteq> [] \<longrightarrow> \<not> prefix p s)"

lemma strip_free_strip: "strip_free ps (strip ps s)"
proof (induction ps s rule: strip.induct)
  case (1 ps s)
  show ?case
  proof (cases "find (\<lambda>p. p \<noteq> [] \<and> prefix p s) ps")
    case None
    then have "strip ps s = s" by (simp add: strip.simps [of ps s])
    with None show ?thesis by (auto simp: strip_free_def find_None_iff)
  next
    case (Some p)
    with "1.IH" show ?thesis by (simp add: strip.simps [of ps s])
  qed
qed

lemma strip_id: "strip_free ps s \<Longrightarrow> strip ps s = s"
proof -
  assume "strip_free ps s"
  then have "find (\<lambda>p. p \<noteq> [] \<and> prefix p s) ps = None"
    by (auto simp: strip_free_def find_None_iff)
  then show ?thesis by (simp add: strip.simps [of ps s])
qed

lemma strip_suffix: "suffix (strip ps s) s"
proof (induction ps s rule: strip.induct)
  case (1 ps s)
  show ?case
  proof (cases "find (\<lambda>p. p \<noteq> [] \<and> prefix p s) ps")
    case None
    then show ?thesis by (simp add: strip.simps [of ps s])
  next
    case (Some p)
    with "1.IH" have "suffix (strip ps s) (drop (length p) s)" by (simp add: strip.simps [of ps s])
    then show ?thesis using suffix_drop suffix_order.trans by blast
  qed
qed

lemma strip_free_prefix: "strip_free ps s \<Longrightarrow> prefix t s \<Longrightarrow> strip_free ps t"
  by (meson strip_free_def prefix_order.trans)

definition trim_left :: "string \<Rightarrow> string" where "trim_left s = strip space_seqs s"
definition trim_right :: "string \<Rightarrow> string" where
  "trim_right s = rev (strip (map rev space_seqs) (rev s))"

text \<open>\<open>strings.TrimSpace\<close>.\<close>
definition trim_space :: "string \<Rightarrow> string" where "trim_space s = trim_right (trim_left s)"

lemma trim_right_prefix: "prefix (trim_right s) s"
  using strip_suffix [of "map rev space_seqs" "rev s"]
  by (simp add: trim_right_def suffix_to_prefix)

definition trimmed :: "string \<Rightarrow> bool" where
  "trimmed s \<longleftrightarrow> strip_free space_seqs s \<and> strip_free (map rev space_seqs) (rev s)"

lemma trimmed_trim_space [simp]: "trimmed (trim_space s)"
  unfolding trimmed_def trim_space_def
  using strip_free_prefix [OF strip_free_strip trim_right_prefix, of space_seqs s]
  by (simp add: trim_left_def trim_right_def strip_free_strip)

lemma trim_space_trimmed: "trimmed s \<Longrightarrow> trim_space s = s"
  by (simp add: trimmed_def trim_space_def trim_left_def trim_right_def strip_id)

lemma trimmed_iff: "trimmed s \<longleftrightarrow> trim_space s = s"
  by (metis trim_space_trimmed trimmed_trim_space)

lemma trim_space_idem [simp]: "trim_space (trim_space s) = trim_space s"
  by (simp add: trim_space_trimmed)

lemma trimmed_Nil [simp]: "trimmed []"
  by (auto simp: trimmed_def strip_free_def)

lemma trim_space_Nil [simp]: "trim_space [] = []"
  by (simp add: trim_space_trimmed)

lemma trim_space_sublist: "\<exists>u v. s = u @ trim_space s @ v"
proof -
  obtain u where u: "s = u @ trim_left s"
    using strip_suffix [of space_seqs s] by (auto simp: trim_left_def suffix_def)
  obtain v where "trim_left s = trim_space s @ v"
    using trim_right_prefix [of "trim_left s"] by (auto simp: trim_space_def prefix_def)
  with u show ?thesis by metis
qed

lemma length_trim_space: "length (trim_space s) \<le> length s"
  using trim_space_sublist [of s] by (metis length_append le_add1 le_add2 order_trans)

text \<open>Visible ASCII at both ends: nothing to trim.\<close>

definition visible :: "char \<Rightarrow> bool" where "visible c \<longleftrightarrow> 33 \<le> byte_of c \<and> byte_of c \<le> 126"

lemma space_seqs_ends:
  assumes "p \<in> set space_seqs"
  shows "p \<noteq> []" "\<not> visible (hd p)" "\<not> visible (last p)"
proof -
  have "list_all (\<lambda>p. p \<noteq> [] \<and> \<not> visible (hd p) \<and> \<not> visible (last p)) space_seqs"
    by (simp add: space_seqs_def space_points_def encode_rune_def valid_rune_def visible_def)
  with assms show "p \<noteq> []" "\<not> visible (hd p)" "\<not> visible (last p)"
    by (auto simp: list_all_iff)
qed

lemma trimmed_visible:
  assumes "visible (hd s)" and "visible (last s)" and "s \<noteq> []"
  shows "trimmed s"
proof -
  have "\<not> prefix p s" if "p \<in> set space_seqs" for p
    using space_seqs_ends [OF that] assms(1) by (auto simp: prefix_def hd_append)
  moreover have "\<not> prefix (rev p) (rev s)" if "p \<in> set space_seqs" for p
  proof
    assume "prefix (rev p) (rev s)"
    then have "suffix p s" by (simp add: suffix_to_prefix)
    then show False using space_seqs_ends [OF that] assms(2) by (auto simp: suffix_def)
  qed
  ultimately show ?thesis by (auto simp: trimmed_def strip_free_def)
qed

lemma trim_space_visible:
  "s \<noteq> [] \<Longrightarrow> visible (hd s) \<Longrightarrow> visible (last s) \<Longrightarrow> trim_space s = s"
  by (simp add: trim_space_trimmed trimmed_visible)

lemma trimmed_append_visible: "trimmed s \<Longrightarrow> s \<noteq> [] \<Longrightarrow> u \<noteq> [] \<Longrightarrow> visible (last u) \<Longrightarrow>
   strip_free space_seqs (s @ u) \<Longrightarrow> trimmed (s @ u)"
proof -
  assume a: "trimmed s" "s \<noteq> []" "u \<noteq> []" "visible (last u)" "strip_free space_seqs (s @ u)"
  have "\<not> prefix (rev p) (rev (s @ u))" if "p \<in> set space_seqs" for p
  proof
    assume "prefix (rev p) (rev (s @ u))"
    then have "suffix p (s @ u)" by (simp add: suffix_to_prefix)
    then obtain zs where "s @ u = zs @ p" by (auto simp: suffix_def)
    then have "last u = last p" using a(3) space_seqs_ends(1) [OF that] by (metis last_appendR)
    then show False using space_seqs_ends(3) [OF that] a(4) by simp
  qed
  with a(5) show ?thesis by (auto simp: trimmed_def strip_free_def)
qed

text \<open>\<open>strings.TrimLeft\<close>/\<open>TrimRight\<close> with an ASCII cut set.\<close>

definition trim_left_set :: "string \<Rightarrow> string \<Rightarrow> string" where
  "trim_left_set cs s = dropWhile (\<lambda>c. c \<in> set cs) s"
definition trim_right_set :: "string \<Rightarrow> string \<Rightarrow> string" where
  "trim_right_set cs s = rev (dropWhile (\<lambda>c. c \<in> set cs) (rev s))"

text \<open>\<open>strings.Fields\<close>: the maximal runs of runes that are not white space.\<close>

fun fields_acc :: "string \<Rightarrow> string list \<Rightarrow> string list" where
  "fields_acc cur [] = (if cur = [] then [] else [cur])"
| "fields_acc cur (c # cs) =
     (if is_space_rune (first_rune c)
      then (if cur = [] then fields_acc [] cs else cur # fields_acc [] cs)
      else fields_acc (cur @ c) cs)"

definition fields :: "string \<Rightarrow> string list" where "fields s = fields_acc [] (rune_chunks s)"

subsection \<open>Searching, cutting and splitting\<close>

text \<open>\<open>strings.Index\<close> (\<open>None\<close> for -1), \<open>Contains\<close>, \<open>Cut\<close>, \<open>TrimPrefix\<close>, \<open>TrimSuffix\<close>.\<close>

fun index_of :: "string \<Rightarrow> string \<Rightarrow> nat option" where
  "index_of sub [] = (if sub = [] then Some 0 else None)"
| "index_of sub (c # s) =
     (if prefix sub (c # s) then Some 0 else map_option Suc (index_of sub s))"

lemma index_of_Some: "index_of sub s = Some i \<Longrightarrow> i + length sub \<le> length s \<and> prefix sub (drop i s)"
proof (induction s arbitrary: i)
  case Nil
  then show ?case by (auto split: if_splits)
next
  case (Cons c s)
  show ?case
  proof (cases "prefix sub (c # s)")
    case True
    with Cons.prems show ?thesis by (auto dest: prefix_length_le)
  next
    case False
    with Cons.prems obtain j where "index_of sub s = Some j" "i = Suc j" by auto
    with Cons.IH [of j] show ?thesis by simp
  qed
qed

lemma index_of_split: "index_of sub s = Some i \<Longrightarrow> s = take i s @ sub @ drop (i + length sub) s"
proof -
  assume "index_of sub s = Some i"
  then have "prefix sub (drop i s)" by (simp add: index_of_Some)
  then obtain t where t: "drop i s = sub @ t" by (auto simp: prefix_def)
  then have "drop (i + length sub) s = t"
    by (metis add.commute append_eq_conv_conj drop_drop)
  with t show ?thesis by (metis append_take_drop_id)
qed

lemma index_of_None: "index_of sub s = None \<longleftrightarrow> \<not> (\<exists>u v. s = u @ sub @ v)"
proof (induction s)
  case Nil
  then show ?case by auto
next
  case (Cons c s)
  have "(\<exists>u v. c # s = u @ sub @ v) \<longleftrightarrow> prefix sub (c # s) \<or> (\<exists>u v. s = u @ sub @ v)"
    by (auto simp: prefix_def Cons_eq_append_conv)
  with Cons.IH show ?case by auto
qed

lemma index_of_first: "index_of sub s = Some i \<Longrightarrow> j < i \<Longrightarrow> \<not> prefix sub (drop j s)"
proof (induction s arbitrary: i j)
  case Nil
  then show ?case by (auto split: if_splits)
next
  case (Cons c s)
  show ?case
  proof (cases "prefix sub (c # s)")
    case True
    with Cons.prems show ?thesis by simp
  next
    case False
    with Cons.prems obtain k where k: "index_of sub s = Some k" "i = Suc k" by auto
    show ?thesis
    proof (cases j)
      case 0
      with False show ?thesis by simp
    next
      case (Suc j')
      with Cons.IH [OF k(1), of j'] k(2) Cons.prems(2) show ?thesis by simp
    qed
  qed
qed

definition contains :: "string \<Rightarrow> string \<Rightarrow> bool" where "contains s sub \<longleftrightarrow> index_of sub s \<noteq> None"

definition cut :: "string \<Rightarrow> string \<Rightarrow> string \<times> string \<times> bool" where
  "cut s sep = (case index_of sep s of
       None \<Rightarrow> (s, [], False)
     | Some i \<Rightarrow> (take i s, drop (i + length sep) s, True))"

definition trim_prefix :: "string \<Rightarrow> string \<Rightarrow> string" where
  "trim_prefix s p = (if prefix p s then drop (length p) s else s)"
definition trim_suffix :: "string \<Rightarrow> string \<Rightarrow> string" where
  "trim_suffix s p = (if suffix p s then take (length s - length p) s else s)"

lemma prefix_same_self [simp]: "prefix sub (sub @ t)"
  by (simp add: prefix_def)

text \<open>\<open>strings.LastIndex\<close> of a single byte, \<open>Split\<close> on a single byte, \<open>Join\<close>.\<close>

fun last_index :: "char \<Rightarrow> string \<Rightarrow> nat option" where
  "last_index c [] = None"
| "last_index c (d # s) = (case last_index c s of
     Some i \<Rightarrow> Some (Suc i) | None \<Rightarrow> (if d = c then Some 0 else None))"

lemma last_index_Some: "last_index c s = Some i \<Longrightarrow> i < length s \<and> s ! i = c"
  by (induction s arbitrary: i) (auto split: option.splits if_splits)

fun split_char :: "char \<Rightarrow> string \<Rightarrow> string list" where
  "split_char c [] = [[]]"
| "split_char c (d # s) =
     (if d = c then [] # split_char c s
      else (case split_char c s of [] \<Rightarrow> [[d]] | x # xs \<Rightarrow> (d # x) # xs))"

fun join :: "string \<Rightarrow> string list \<Rightarrow> string" where
  "join sep [] = []"
| "join sep [x] = x"
| "join sep (x # y # ys) = x @ sep @ join sep (y # ys)"

lemma split_char_nonempty [simp]: "split_char c s \<noteq> []"
  by (induction s) (auto split: list.splits)

lemma join_split_char: "join [c] (split_char c s) = s"
proof (induction s)
  case Nil
  then show ?case by simp
next
  case (Cons d s)
  obtain x xs where e: "split_char c s = x # xs" by (cases "split_char c s") auto
  with Cons.IH show ?case by (cases xs) auto
qed

text \<open>\<open>strings.ReplaceAll\<close> for a non-empty pattern.\<close>

function replace_all :: "string \<Rightarrow> string \<Rightarrow> string \<Rightarrow> string" where
  "replace_all s old new =
     (if s = [] \<or> old = [] then s
      else if prefix old s then new @ replace_all (drop (length old) s) old new
      else hd s # replace_all (tl s) old new)"
  by pat_completeness auto
termination
  by (relation "measure (\<lambda>(s, _, _). length s)") auto

declare replace_all.simps [simp del]

lemma replace_all_Nil [simp]: "replace_all [] old new = []"
  by (simp add: replace_all.simps)

lemma replace_all_char:
  "replace_all s [c] new = concat (map (\<lambda>d. if d = c then new else [d]) s)"
  by (induction s) (auto simp: replace_all.simps [of "_ # _"])

subsection \<open>Case mapping\<close>

definition ascii_lower :: "nat \<Rightarrow> nat" where
  "ascii_lower b = (if 65 \<le> b \<and> b \<le> 90 then b + 32 else b)"

definition lower_rune :: "nat \<Rightarrow> nat" where
  "lower_rune r = (if r < 128 then ascii_lower r else unicode_lower r)"

definition is_ascii :: "string \<Rightarrow> bool" where "is_ascii s \<longleftrightarrow> list_all (\<lambda>c. byte_of c < 128) s"

text \<open>\<open>strings.ToLower\<close>.\<close>
definition to_lower :: "string \<Rightarrow> string" where
  "to_lower s = (if is_ascii s then map (\<lambda>c. chr_of (ascii_lower (byte_of c))) s
     else concat (map (\<lambda>r. encode_rune (lower_rune r)) (runes s)))"

lemma to_lower_Nil [simp]: "to_lower [] = []"
  by (simp add: to_lower_def is_ascii_def)

lemma ascii_lower_idem: "ascii_lower (ascii_lower b) = ascii_lower b"
  by (simp add: ascii_lower_def)

lemma ascii_lower_lt: "b < 128 \<Longrightarrow> ascii_lower b < 128"
  by (simp add: ascii_lower_def)

lemma to_lower_idem_ascii: "is_ascii s \<Longrightarrow> to_lower (to_lower s) = to_lower s"
  by (auto simp: to_lower_def is_ascii_def list_all_iff ascii_lower_idem ascii_lower_lt
      less_trans [of _ 128 256])

text \<open>\<open>strings.EqualFold\<close> where one side is ASCII, as in every call of the modelled code: beside
  ASCII letters only the Kelvin sign and the long s fold to an ASCII letter.\<close>

definition fold_key :: "nat \<Rightarrow> nat" where
  "fold_key r = (if r = 8490 then 107 else if r = 383 then 115 else ascii_lower r)"

definition equal_fold :: "string \<Rightarrow> string \<Rightarrow> bool" where
  "equal_fold s t \<longleftrightarrow> map fold_key (runes s) = map fold_key (runes t)"

lemma equal_fold_refl [simp]: "equal_fold s s"
  by (simp add: equal_fold_def)

subsection \<open>Decimal numbers\<close>

definition digit_char :: "nat \<Rightarrow> char" where "digit_char d = chr_of (48 + d)"
definition is_digit :: "char \<Rightarrow> bool" where "is_digit c \<longleftrightarrow> 48 \<le> byte_of c \<and> byte_of c \<le> 57"

fun show_nat :: "nat \<Rightarrow> string" where
  "show_nat n = (if n < 10 then [digit_char n] else show_nat (n div 10) @ [digit_char (n mod 10)])"

declare show_nat.simps [simp del]

text \<open>\<open>strconv.FormatInt(n, 10)\<close>.\<close>
definition show_int :: "int \<Rightarrow> string" where
  "show_int n = (if n < 0 then CHR ''-'' # show_nat (nat (- n)) else show_nat (nat n))"

fun digits_val :: "nat \<Rightarrow> string \<Rightarrow> nat option" where
  "digits_val acc [] = Some acc"
| "digits_val acc (c # s) =
     (if is_digit c then digits_val (acc * 10 + (byte_of c - 48)) s else None)"

text \<open>\<open>strconv.ParseInt(s, 10, 64)\<close>; \<open>None\<close> for a syntax or a range error.\<close>
definition parse_int :: "string \<Rightarrow> int option" where
  "parse_int s =
     (let (neg, ds) = (case s of [] \<Rightarrow> (False, [])
                       | c # cs \<Rightarrow> if c = CHR ''-'' then (True, cs)
                                   else if c = CHR ''+'' then (False, cs) else (False, c # cs))
      in if ds = [] then None
         else case digits_val 0 ds of
             None \<Rightarrow> None
           | Some n \<Rightarrow> let v = (if neg then - int n else int n)
                       in if in_int64 v then Some v else None)"

lemma digits_val_append:
  "digits_val acc (xs @ ys) = (case digits_val acc xs of None \<Rightarrow> None | Some a \<Rightarrow> digits_val a ys)"
  by (induction xs arbitrary: acc) auto

lemma digit_char_digit: "d < 10 \<Longrightarrow> is_digit (digit_char d) \<and> byte_of (digit_char d) = 48 + d"
  by (simp add: is_digit_def digit_char_def)

lemma digits_val_show_nat: "digits_val 0 (show_nat n) = Some n"
proof (induction n rule: show_nat.induct)
  case (1 n)
  show ?case
  proof (cases "n < 10")
    case True
    then show ?thesis using digit_char_digit [of n] by (simp add: show_nat.simps [of n])
  next
    case False
    with "1.IH" show ?thesis using digit_char_digit [of "n mod 10"]
      by (simp add: show_nat.simps [of n] digits_val_append)
  qed
qed

lemma show_nat_digits: "c \<in> set (show_nat n) \<Longrightarrow> is_digit c"
proof (induction n rule: show_nat.induct)
  case (1 n)
  then show ?case
    by (cases "n < 10") (auto simp: show_nat.simps [of n] digit_char_digit)
qed

lemma show_nat_nonempty [simp]: "show_nat n \<noteq> []"
  by (subst show_nat.simps) simp

lemma digit_not_sign: "is_digit c \<Longrightarrow> c \<noteq> CHR ''-'' \<and> c \<noteq> CHR ''+''"
  by (auto simp: is_digit_def byte_of_def)

lemma parse_show_int: "in_int64 n \<Longrightarrow> parse_int (show_int n) = Some n"
proof (cases "n < 0")
  case True
  assume "in_int64 n"
  with True show ?thesis by (simp add: show_int_def parse_int_def digits_val_show_nat)
next
  case False
  assume r: "in_int64 n"
  obtain c cs where e: "show_nat (nat n) = c # cs" by (cases "show_nat (nat n)") auto
  then have "is_digit c" using show_nat_digits [of c "nat n"] by simp
  then have "c \<noteq> CHR ''-''" "c \<noteq> CHR ''+''" by (simp_all add: digit_not_sign)
  with e False r digits_val_show_nat [of "nat n"] show ?thesis
    by (simp add: show_int_def parse_int_def del: digits_val.simps)
qed

lemma is_digit_visible: "is_digit c \<Longrightarrow> visible c"
  by (simp add: is_digit_def visible_def)

lemma show_int_visible: "c \<in> set (show_int n) \<Longrightarrow> visible c"
  by (auto simp: show_int_def visible_def byte_of_def dest: show_nat_digits is_digit_visible
      split: if_splits)
     (auto dest!: show_nat_digits simp: is_digit_def byte_of_def)

lemma show_int_nonempty [simp]: "show_int n \<noteq> []"
  by (simp add: show_int_def)

end
