(* ===== verification/VoiceVad.thy ===== *)
theory VoiceVad
  imports GoStrings
begin

text \<open>
  \<open>internal/kernel/voice/vad.go\<close>: voice activity detection, and \<open>emitAlignedPCM\<close> of \<open>transforms.go\<close>.
  \<open>float64\<close> is a type \<open>'f\<close> with the operations the code uses (\<open>fp_ops\<close>), so that nothing is assumed of
  rounding.
\<close>

subsection \<open>Floating point\<close>

record 'f fp_ops =
  fp_add :: "'f \<Rightarrow> 'f \<Rightarrow> 'f"
  fp_sub :: "'f \<Rightarrow> 'f \<Rightarrow> 'f"
  fp_mul :: "'f \<Rightarrow> 'f \<Rightarrow> 'f"
  fp_div :: "'f \<Rightarrow> 'f \<Rightarrow> 'f"
  fp_sqrt :: "'f \<Rightarrow> 'f"
  fp_ge :: "'f \<Rightarrow> 'f \<Rightarrow> bool"
  fp_of_int :: "int \<Rightarrow> 'f"
  fp_round :: "'f \<Rightarrow> int"
  fp_default_threshold :: 'f
  fp_default_smoothing :: 'f

definition fp_zero :: "'f fp_ops \<Rightarrow> 'f" where "fp_zero fp = fp_of_int fp 0"

definition sample_of :: "char \<Rightarrow> char \<Rightarrow> int" where
  "sample_of lo hi =
     (let u = int (byte_of lo) + 256 * int (byte_of hi) in if u \<ge> 32768 then u - 65536 else u)"

fun rms_sum :: "'f fp_ops \<Rightarrow> 'f \<Rightarrow> string \<Rightarrow> 'f" where
  "rms_sum fp acc (lo # hi # pcm) =
     (let x = fp_div fp (fp_of_int fp (sample_of lo hi)) (fp_of_int fp 32768) in
      rms_sum fp (fp_add fp acc (fp_mul fp x x)) pcm)"
| "rms_sum fp acc pcm = acc"

definition rms :: "'f fp_ops \<Rightarrow> string \<Rightarrow> 'f" where
  "rms fp pcm =
     (let samples = length pcm div 2 in
      if samples = 0 then fp_zero fp
      else fp_sqrt fp (fp_div fp (rms_sum fp (fp_zero fp) pcm) (fp_of_int fp (int samples))))"

subsection \<open>The detector\<close>

datatype edge = EdgeNone | SpeechStartEdge | SpeechStopEdge

datatype vad_state = VadQuiet | VadStarting | VadSpeaking | VadStopping

record 'f vad =
  vd_detector :: "(string \<Rightarrow> 'f) option"
  vd_sample_rate :: int
  vd_frame_ms :: int
  vd_start_hold :: duration
  vd_stop_hold :: duration
  vd_threshold :: 'f
  vd_smoothing :: 'f
  vd_buf :: string
  vd_smoothed :: 'f
  vd_state :: vad_state
  vd_start_count :: int
  vd_stop_count :: int

definition detector :: "'f fp_ops \<Rightarrow> 'f vad \<Rightarrow> string \<Rightarrow> 'f" where
  "detector fp v = (case vd_detector v of None \<Rightarrow> rms fp | Some d \<Rightarrow> d)"

definition sample_rate :: "'f vad \<Rightarrow> int" where
  "sample_rate v = (if vd_sample_rate v = 0 then 16000 else vd_sample_rate v)"

definition frame_ms :: "'f vad \<Rightarrow> int" where
  "frame_ms v = (if vd_frame_ms v = 0 then 20 else vd_frame_ms v)"

definition frame_bytes :: "'f vad \<Rightarrow> int" where
  "frame_bytes v = wrap64 (tdiv (wrap64 (sample_rate v * frame_ms v)) 1000 * 2)"

definition start_hold :: "'f vad \<Rightarrow> duration" where
  "start_hold v = (if vd_start_hold v = 0 then 120 * millisecond else vd_start_hold v)"

definition stop_hold :: "'f vad \<Rightarrow> duration" where
  "stop_hold v = (if vd_stop_hold v = 0 then 250 * millisecond else vd_stop_hold v)"

definition threshold :: "'f fp_ops \<Rightarrow> 'f vad \<Rightarrow> 'f" where
  "threshold fp v = (if vd_threshold v = fp_zero fp then fp_default_threshold fp else vd_threshold v)"

definition smoothing :: "'f fp_ops \<Rightarrow> 'f vad \<Rightarrow> 'f" where
  "smoothing fp v = (if vd_smoothing v = fp_zero fp then fp_default_smoothing fp else vd_smoothing v)"

definition hold_frames :: "'f fp_ops \<Rightarrow> duration \<Rightarrow> int \<Rightarrow> int" where
  "hold_frames fp hold ms =
     (let n = fp_round fp (fp_div fp (fp_div fp (fp_of_int fp hold) (fp_of_int fp millisecond)) (fp_of_int fp ms)) in
      if n < 1 then 1 else n)"

definition start_frames :: "'f fp_ops \<Rightarrow> 'f vad \<Rightarrow> int" where
  "start_frames fp v = hold_frames fp (start_hold v) (frame_ms v)"

definition stop_frames :: "'f fp_ops \<Rightarrow> 'f vad \<Rightarrow> int" where
  "stop_frames fp v = hold_frames fp (stop_hold v) (frame_ms v)"

text \<open>The switch of \<open>processFrame\<close> on the state and the two counters.\<close>

definition vad_switch :: "bool \<Rightarrow> bool \<Rightarrow> int \<Rightarrow> int \<Rightarrow> vad_state \<times> int \<times> int \<Rightarrow> (vad_state \<times> int \<times> int) \<times> edge" where
  "vad_switch speaking energetic startFrames stopFrames m =
     (case m of (st, starts, stops) \<Rightarrow>
      (case st of
        VadQuiet \<Rightarrow> (if speaking then ((VadStarting, 1, stops), EdgeNone) else (m, EdgeNone))
      | VadStarting \<Rightarrow>
          (if \<not> speaking then ((VadQuiet, 0, stops), EdgeNone)
           else if energetic then
             (if starts + 1 \<ge> startFrames then ((VadSpeaking, 0, stops), SpeechStartEdge)
              else ((VadStarting, starts + 1, stops), EdgeNone))
           else (m, EdgeNone))
      | VadSpeaking \<Rightarrow> (if \<not> speaking then ((VadStopping, starts, 1), EdgeNone) else (m, EdgeNone))
      | VadStopping \<Rightarrow>
          (if speaking then ((VadSpeaking, starts, 0), EdgeNone)
           else if stops + 1 \<ge> stopFrames then ((VadQuiet, starts, 0), SpeechStopEdge)
           else ((VadStopping, starts, stops + 1), EdgeNone))))"

definition smooth :: "'f fp_ops \<Rightarrow> 'f vad \<Rightarrow> 'f \<Rightarrow> 'f" where
  "smooth fp v raw = fp_add fp (vd_smoothed v) (fp_mul fp (smoothing fp v) (fp_sub fp raw (vd_smoothed v)))"

definition machine :: "'f vad \<Rightarrow> vad_state \<times> int \<times> int" where
  "machine v = (vd_state v, vd_start_count v, vd_stop_count v)"

definition frame_outcome :: "'f fp_ops \<Rightarrow> 'f vad \<Rightarrow> string \<Rightarrow> (vad_state \<times> int \<times> int) \<times> edge" where
  "frame_outcome fp v frame =
     (let raw = detector fp v frame in
      vad_switch (fp_ge fp (smooth fp v raw) (threshold fp v)) (fp_ge fp raw (threshold fp v))
        (start_frames fp v) (stop_frames fp v) (machine v))"

definition process_frame :: "'f fp_ops \<Rightarrow> 'f vad \<Rightarrow> string \<Rightarrow> 'f vad \<times> edge" where
  "process_frame fp v frame =
     (case frame_outcome fp v frame of ((st, starts, stops), e) \<Rightarrow>
        (v\<lparr>vd_smoothed := smooth fp v (detector fp v frame), vd_state := st, vd_start_count := starts,
           vd_stop_count := stops\<rparr>, e))"

text \<open>The loop of \<open>Push\<close>: \<open>None\<close> is a loop that never ends (a frame of no bytes). A negative frame length
  panics.\<close>

partial_function (option) vad_loop :: "'f fp_ops \<Rightarrow> nat \<Rightarrow> 'f vad \<Rightarrow> edge \<Rightarrow> ('f vad \<times> edge) option" where
  "vad_loop fp n v e =
     (if length (vd_buf v) < n then Some (v, e)
      else vad_loop fp n (fst (process_frame fp (v\<lparr>vd_buf := drop n (vd_buf v)\<rparr>) (take n (vd_buf v))))
        (if e = EdgeNone then snd (process_frame fp (v\<lparr>vd_buf := drop n (vd_buf v)\<rparr>) (take n (vd_buf v))) else e))"

datatype 'a push_result = Pushed 'a | PushPanics

definition vad_push :: "'f fp_ops \<Rightarrow> 'f vad \<Rightarrow> string \<Rightarrow> ('f vad \<times> edge) push_result option" where
  "vad_push fp v pcm =
     (if frame_bytes v < 0 then Some PushPanics
      else map_option Pushed (vad_loop fp (nat (frame_bytes v)) (v\<lparr>vd_buf := vd_buf v @ pcm\<rparr>) EdgeNone))"

subsection \<open>Termination and chunking\<close>

lemma process_frame_buf:
  "vd_buf (fst (process_frame fp v f)) = vd_buf v" "frame_bytes (fst (process_frame fp v f)) = frame_bytes v"
  by (simp_all add: process_frame_def frame_bytes_def sample_rate_def frame_ms_def split: prod.split)

text \<open>Detection never looks at the buffer.\<close>

lemma process_frame_frame:
  "process_frame fp (v\<lparr>vd_buf := b\<rparr>) f = ((fst (process_frame fp v f))\<lparr>vd_buf := b\<rparr>, snd (process_frame fp v f))"
proof -
  have "detector fp (v\<lparr>vd_buf := b\<rparr>) = detector fp v" "smooth fp (v\<lparr>vd_buf := b\<rparr>) = smooth fp v"
    "threshold fp (v\<lparr>vd_buf := b\<rparr>) = threshold fp v" "start_frames fp (v\<lparr>vd_buf := b\<rparr>) = start_frames fp v"
    "stop_frames fp (v\<lparr>vd_buf := b\<rparr>) = stop_frames fp v" "machine (v\<lparr>vd_buf := b\<rparr>) = machine v"
    by (simp_all add: detector_def smooth_def fun_eq_iff smoothing_def threshold_def start_frames_def stop_frames_def
        frame_ms_def start_hold_def stop_hold_def machine_def)
  then show ?thesis by (simp add: process_frame_def frame_outcome_def split: prod.split)
qed

function vad_run :: "'f fp_ops \<Rightarrow> nat \<Rightarrow> 'f vad \<Rightarrow> edge list \<Rightarrow> 'f vad \<times> edge list" where
  "vad_run fp n v es =
     (if n = 0 \<or> length (vd_buf v) < n then (v, es)
      else vad_run fp n (fst (process_frame fp (v\<lparr>vd_buf := drop n (vd_buf v)\<rparr>) (take n (vd_buf v))))
        (es @ [snd (process_frame fp (v\<lparr>vd_buf := drop n (vd_buf v)\<rparr>) (take n (vd_buf v)))]))"
  by pat_completeness auto
termination
  by (relation "measure (\<lambda>(_, n, v, _). length (vd_buf v))") (auto simp: process_frame_buf)

declare vad_run.simps [simp del]

definition first_edge :: "edge list \<Rightarrow> edge" where
  "first_edge es = (case filter (\<lambda>e. e \<noteq> EdgeNone) es of [] \<Rightarrow> EdgeNone | e # _ \<Rightarrow> e)"

lemma first_edge_append: "first_edge (es @ fs) = (if first_edge es = EdgeNone then first_edge fs else first_edge es)"
proof (cases "filter (\<lambda>e. e \<noteq> EdgeNone) es")
  case (Cons e r)
  then have "e \<noteq> EdgeNone" by (metis (mono_tags, lifting) filter_eq_Cons_iff)
  with Cons show ?thesis by (simp add: first_edge_def)
qed (simp add: first_edge_def)

lemma vad_run_append: "vad_run fp n v (es @ fs) = (fst (vad_run fp n v fs), es @ snd (vad_run fp n v fs))"
proof (induction fp n v fs arbitrary: es rule: vad_run.induct)
  case (1 fp n v fs)
  show ?case
  proof (cases "n = 0 \<or> length (vd_buf v) < n")
    case True
    then show ?thesis by (subst (1 2 3) vad_run.simps) simp
  next
    case False
    with "1.IH" [OF False, of es] show ?thesis by (subst (1 2 3) vad_run.simps) simp
  qed
qed

lemma vad_loop_run:
  "0 < n \<Longrightarrow> vad_loop fp n v (first_edge es) = Some (fst (vad_run fp n v es), first_edge (snd (vad_run fp n v es)))"
proof (induction fp n v es rule: vad_run.induct)
  case (1 fp n v es)
  show ?case
  proof (cases "length (vd_buf v) < n")
    case True
    then show ?thesis by (simp add: vad_loop.simps [of fp n v] vad_run.simps [of fp n v])
  next
    case False
    let ?p = "process_frame fp (v\<lparr>vd_buf := drop n (vd_buf v)\<rparr>) (take n (vd_buf v))"
    have e: "first_edge (es @ [snd ?p]) = (if first_edge es = EdgeNone then snd ?p else first_edge es)"
      by (simp add: first_edge_append) (simp add: first_edge_def)
    have "vad_loop fp n v (first_edge es) = vad_loop fp n (fst ?p) (first_edge (es @ [snd ?p]))"
      using False unfolding e by (subst vad_loop.simps) simp
    also have "\<dots> = Some (fst (vad_run fp n (fst ?p) (es @ [snd ?p])), first_edge (snd (vad_run fp n (fst ?p) (es @ [snd ?p]))))"
      using "1.IH" False "1.prems" by simp
    also have "vad_run fp n (fst ?p) (es @ [snd ?p]) = vad_run fp n v es"
      using False "1.prems" by (simp add: vad_run.simps [of fp n v])
    finally show ?thesis .
  qed
qed

lemma vad_run_buf: "0 < n \<Longrightarrow> length (vd_buf (fst (vad_run fp n v es))) < n"
proof (induction fp n v es rule: vad_run.induct)
  case (1 fp n v es)
  then show ?case by (cases "length (vd_buf v) < n") (simp_all add: vad_run.simps [of fp n v es])
qed

text \<open>Appending bytes behind the buffer does not change the frames in front of them.\<close>

lemma vad_run_more:
  "0 < n \<Longrightarrow> vad_run fp n (v\<lparr>vd_buf := vd_buf v @ b\<rparr>) es =
     (let r = vad_run fp n v es in vad_run fp n ((fst r)\<lparr>vd_buf := vd_buf (fst r) @ b\<rparr>) (snd r))"
proof (induction fp n v es rule: vad_run.induct)
  case (1 fp n v es)
  show ?case
  proof (cases "length (vd_buf v) < n")
    case True
    then show ?thesis by (simp add: vad_run.simps [of fp n v es])
  next
    case False
    let ?v = "v\<lparr>vd_buf := drop n (vd_buf v)\<rparr>"
    let ?p = "process_frame fp ?v (take n (vd_buf v))"
    have p: "process_frame fp (v\<lparr>vd_buf := drop n (vd_buf v) @ b\<rparr>) (take n (vd_buf v))
        = ((fst ?p)\<lparr>vd_buf := vd_buf (fst ?p) @ b\<rparr>, snd ?p)"
      using process_frame_frame [of fp "drop n (vd_buf v) @ b" v "take n (vd_buf v)"]
        process_frame_frame [of fp "drop n (vd_buf v)" v "take n (vd_buf v)"] by simp
    have "vad_run fp n (v\<lparr>vd_buf := vd_buf v @ b\<rparr>) es = vad_run fp n ((fst ?p)\<lparr>vd_buf := vd_buf (fst ?p) @ b\<rparr>) (es @ [snd ?p])"
      using False "1.prems" p by (subst vad_run.simps) simp
    also have "\<dots> = (let r = vad_run fp n (fst ?p) (es @ [snd ?p]) in vad_run fp n ((fst r)\<lparr>vd_buf := vd_buf (fst r) @ b\<rparr>) (snd r))"
      using "1.IH" False "1.prems" by simp
    also have "vad_run fp n (fst ?p) (es @ [snd ?p]) = vad_run fp n v es"
      using False "1.prems" by (simp add: vad_run.simps [of fp n v])
    finally show ?thesis .
  qed
qed

lemma vad_push_run:
  assumes "0 < frame_bytes v"
  shows "vad_push fp v pcm = Some (Pushed
    (let r = vad_run fp (nat (frame_bytes v)) (v\<lparr>vd_buf := vd_buf v @ pcm\<rparr>) [] in (fst r, first_edge (snd r))))"
proof -
  have "first_edge [] = EdgeNone" by (simp add: first_edge_def)
  with vad_loop_run [of "nat (frame_bytes v)" fp "v\<lparr>vd_buf := vd_buf v @ pcm\<rparr>" "[]"] assms
  show ?thesis by (simp add: vad_push_def Let_def)
qed

text \<open>C36: \<open>Push\<close> ends: with a frame of at least one byte it returns for every input, and what it keeps back is
  less than a frame.\<close>

theorem vad_push_returns:
  assumes "0 < frame_bytes v"
  shows "\<exists>v' e. vad_push fp v pcm = Some (Pushed (v', e)) \<and> int (length (vd_buf v')) < frame_bytes v"
proof -
  let ?r = "vad_run fp (nat (frame_bytes v)) (v\<lparr>vd_buf := vd_buf v @ pcm\<rparr>) []"
  have "length (vd_buf (fst ?r)) < nat (frame_bytes v)" by (rule vad_run_buf) (use assms in simp)
  with vad_push_run [OF assms, of fp pcm] show ?thesis by (auto simp: Let_def)
qed

text \<open>A sample rate and a frame duration that give no whole sample (say 20 ms at 49 Hz) make it spin for
  ever; that value is the undefined one of the loop.\<close>

lemma vad_loop_positive: "vad_loop fp n v e = Some y \<Longrightarrow> 0 < n"
  by (erule vad_loop.raw_induct [rotated]) (auto split: if_splits)

lemma vad_push_no_frame: "frame_bytes v = 0 \<Longrightarrow> vad_push fp v pcm = None"
  using vad_loop_positive [of fp 0 "v\<lparr>vd_buf := vd_buf v @ pcm\<rparr>" EdgeNone]
  by (cases "vad_loop fp 0 (v\<lparr>vd_buf := vd_buf v @ pcm\<rparr>) EdgeNone") (auto simp: vad_push_def)

lemma frame_bytes_buf: "frame_bytes (w\<lparr>vd_buf := x\<rparr>) = frame_bytes w"
  by (simp add: frame_bytes_def sample_rate_def frame_ms_def)

lemma vad_run_frame_bytes: "frame_bytes (fst (vad_run fp n v es)) = frame_bytes v"
proof (induction fp n v es rule: vad_run.induct)
  case (1 fp n v es)
  show ?case
  proof (cases "n = 0 \<or> length (vd_buf v) < n")
    case False
    with "1.IH" show ?thesis by (simp add: vad_run.simps [of fp n v es] process_frame_buf frame_bytes_buf)
  qed (simp add: vad_run.simps [of fp n v es])
qed

text \<open>C37: how audio is cut into chunks does not matter: pushing two chunks one after the other leaves the same
  detector as pushing them joined, and the joined push reports the first edge that the two report.\<close>

theorem vad_chunking:
  assumes "0 < frame_bytes v"
  shows "\<exists>v1 e1 v2 e2. vad_push fp v a = Some (Pushed (v1, e1)) \<and> vad_push fp v1 b = Some (Pushed (v2, e2))
    \<and> vad_push fp v (a @ b) = Some (Pushed (v2, if e1 = EdgeNone then e2 else e1))"
proof -
  let ?n = "nat (frame_bytes v)"
  let ?r1 = "vad_run fp ?n (v\<lparr>vd_buf := vd_buf v @ a\<rparr>) []"
  let ?w = "(fst ?r1)\<lparr>vd_buf := vd_buf (fst ?r1) @ b\<rparr>"
  let ?r2 = "vad_run fp ?n ?w []"
  have fb: "frame_bytes (fst ?r1) = frame_bytes v" by (simp only: vad_run_frame_bytes frame_bytes_buf)
  have "vad_run fp ?n (v\<lparr>vd_buf := vd_buf v @ a @ b\<rparr>) [] = vad_run fp ?n ?w (snd ?r1)"
    using vad_run_more [of ?n fp "v\<lparr>vd_buf := vd_buf v @ a\<rparr>" b "[]"] assms by (simp add: Let_def)
  also have "\<dots> = (fst ?r2, snd ?r1 @ snd ?r2)" using vad_run_append [of fp ?n ?w "snd ?r1" "[]"] by simp
  finally have j: "vad_run fp ?n (v\<lparr>vd_buf := vd_buf v @ a @ b\<rparr>) [] = (fst ?r2, snd ?r1 @ snd ?r2)" .
  have p: "vad_push fp v a = Some (Pushed (fst ?r1, first_edge (snd ?r1)))"
    using vad_push_run [OF assms, of fp a] by (simp add: Let_def)
  have q: "vad_push fp (fst ?r1) b = Some (Pushed (fst ?r2, first_edge (snd ?r2)))"
    using vad_push_run [of "fst ?r1" fp b] assms fb by (simp add: Let_def)
  have "vad_push fp v (a @ b) = Some (Pushed (fst ?r2, if first_edge (snd ?r1) = EdgeNone then first_edge (snd ?r2)
      else first_edge (snd ?r1)))"
    using vad_push_run [OF assms, of fp "a @ b"] j by (simp add: Let_def first_edge_append)
  with p q show ?thesis by blast
qed

subsection \<open>Edges alternate\<close>

fun alternates :: "bool \<Rightarrow> edge list \<Rightarrow> bool" where
  "alternates speaking [] = True"
| "alternates speaking (EdgeNone # es) = alternates speaking es"
| "alternates speaking (SpeechStartEdge # es) = (\<not> speaking \<and> alternates True es)"
| "alternates speaking (SpeechStopEdge # es) = (speaking \<and> alternates False es)"

definition in_speech :: "vad_state \<Rightarrow> bool" where
  "in_speech st \<longleftrightarrow> st = VadSpeaking \<or> st = VadStopping"

fun vad_frames :: "'f fp_ops \<Rightarrow> 'f vad \<Rightarrow> string list \<Rightarrow> 'f vad \<times> edge list" where
  "vad_frames fp v [] = (v, [])"
| "vad_frames fp v (f # fs) =
     (case process_frame fp v f of (v', e) \<Rightarrow> (case vad_frames fp v' fs of (w, es) \<Rightarrow> (w, e # es)))"

lemma vad_switch_edge:
  assumes "vad_switch sp en m n (st, a, b) = ((st', a', b'), e)"
  shows "case e of EdgeNone \<Rightarrow> in_speech st' = in_speech st
    | SpeechStartEdge \<Rightarrow> \<not> in_speech st \<and> in_speech st' \<and> st = VadStarting \<and> sp \<and> en \<and> m \<le> a + 1
    | SpeechStopEdge \<Rightarrow> in_speech st \<and> \<not> in_speech st' \<and> st = VadStopping \<and> \<not> sp \<and> n \<le> b + 1"
  using assms by (cases st) (auto simp: vad_switch_def in_speech_def split: if_splits)

lemma process_frame_edge:
  assumes "process_frame fp v f = (v', e)"
  shows "case e of EdgeNone \<Rightarrow> in_speech (vd_state v') = in_speech (vd_state v)
    | SpeechStartEdge \<Rightarrow> \<not> in_speech (vd_state v) \<and> in_speech (vd_state v')
    | SpeechStopEdge \<Rightarrow> in_speech (vd_state v) \<and> \<not> in_speech (vd_state v')"
proof -
  obtain st a b where o: "frame_outcome fp v f = ((st, a, b), e)" and s: "vd_state v' = st"
    using assms by (auto simp: process_frame_def split: prod.splits)
  obtain sp en m n where "vad_switch sp en m n (vd_state v, vd_start_count v, vd_stop_count v) = ((st, a, b), e)"
    using o by (auto simp: frame_outcome_def machine_def Let_def)
  from vad_switch_edge [OF this] s show ?thesis by (cases e) auto
qed

text \<open>Speech starts and stops alternate, beginning with a start, whatever the detector answers and however
  floats round; and the machine is in a speaking state exactly after an unmatched start.\<close>

theorem vad_edges_alternate:
  "alternates (in_speech (vd_state v)) (snd (vad_frames fp v fs))
    \<and> (in_speech (vd_state (fst (vad_frames fp v fs))) =
        (case rev (filter (\<lambda>e. e \<noteq> EdgeNone) (snd (vad_frames fp v fs))) of
           [] \<Rightarrow> in_speech (vd_state v) | e # _ \<Rightarrow> e = SpeechStartEdge))"
proof (induction fs arbitrary: v)
  case (Cons f fs)
  obtain v' e where p: "process_frame fp v f = (v', e)" by (cases "process_frame fp v f")
  obtain w es where r: "vad_frames fp v' fs = (w, es)" by (cases "vad_frames fp v' fs")
  have ih: "alternates (in_speech (vd_state v')) es" "in_speech (vd_state w) =
      (case rev (filter (\<lambda>e. e \<noteq> EdgeNone) es) of [] \<Rightarrow> in_speech (vd_state v') | e # _ \<Rightarrow> e = SpeechStartEdge)"
    using Cons.IH [of v'] r by simp_all
  show ?case using process_frame_edge [OF p] ih p r
    by (cases e; cases "rev (filter (\<lambda>e. e \<noteq> EdgeNone) es)") auto
qed simp

text \<open>An edge can be lost all the same: \<open>Push\<close> reports only the first edge of a chunk, so a chunk that holds a
  stop and the next start reports the stop, and the start, which should interrupt the reply, is never seen.\<close>

definition rat_fp :: "rat fp_ops" where
  "rat_fp = \<lparr>fp_add = (+), fp_sub = (-), fp_mul = (*), fp_div = (/), fp_sqrt = id, fp_ge = (\<ge>), fp_of_int = of_int,
     fp_round = (\<lambda>x. \<lfloor>x + 1/2\<rfloor>), fp_default_threshold = 1/100, fp_default_smoothing = 1/5\<rparr>"

definition sample_vad :: "rat vad" where
  "sample_vad = \<lparr>vd_detector = Some (\<lambda>f. if f = ''xx'' then 1 else 0), vd_sample_rate = 1000, vd_frame_ms = 1,
     vd_start_hold = millisecond, vd_stop_hold = millisecond, vd_threshold = 1/2, vd_smoothing = 1, vd_buf = [],
     vd_smoothed = 0, vd_state = VadSpeaking, vd_start_count = 0, vd_stop_count = 0\<rparr>"

lemma push_loses_start:
  "snd (vad_frames rat_fp sample_vad [''..'', ''..'', ''xx'', ''xx'']) = [EdgeNone, SpeechStopEdge, EdgeNone, SpeechStartEdge]"
  "snd (vad_run rat_fp 2 (sample_vad\<lparr>vd_buf := ''....xxxx''\<rparr>) []) = [EdgeNone, SpeechStopEdge, EdgeNone, SpeechStartEdge]"
  "frame_bytes sample_vad = 2"
  by code_simp+

theorem vad_push_returns_witness:
  "\<exists>v' e. vad_push rat_fp sample_vad ''abc'' = Some (Pushed (v', e)) \<and> length (vd_buf v') \<le> 1"
proof -
  have fb: "frame_bytes sample_vad = 2" by code_simp
  from vad_push_returns [of sample_vad rat_fp "''abc''"] fb obtain v' e where
    "vad_push rat_fp sample_vad ''abc'' = Some (Pushed (v', e))" "int (length (vd_buf v')) < 2" by auto
  then show ?thesis by auto
qed

theorem vad_chunking_witness:
  "\<exists>v2. vad_push rat_fp sample_vad (''....'' @ ''xxxx'') = Some (Pushed (v2, SpeechStopEdge))"
proof -
  have fb: "0 < frame_bytes sample_vad" "frame_bytes sample_vad = 2" by code_simp+
  have r: "first_edge (snd (vad_run rat_fp 2 (sample_vad\<lparr>vd_buf := vd_buf sample_vad @ ''....''\<rparr>) [])) = SpeechStopEdge"
    by code_simp
  from vad_chunking [OF fb(1), of rat_fp "''....''" "''xxxx''"] obtain v1 e1 v2 e2 where
    e: "vad_push rat_fp sample_vad ''....'' = Some (Pushed (v1, e1))"
    and j: "vad_push rat_fp sample_vad (''....'' @ ''xxxx'') = Some (Pushed (v2, if e1 = EdgeNone then e2 else e1))" by blast
  have "e1 = SpeechStopEdge" using e vad_push_run [OF fb(1), of rat_fp "''....''"] r fb(2) by (simp add: Let_def)
  with j show ?thesis by auto
qed

subsection \<open>Aligned PCM\<close>

text \<open>\<open>emitAlignedPCM\<close>, until its input closes: the chunks it emits and the byte it still holds.\<close>

fun emit_aligned :: "string \<Rightarrow> string list \<Rightarrow> string list \<times> string" where
  "emit_aligned pending [] = ([], pending)"
| "emit_aligned pending (chunk0 # chunks) =
     (if chunk0 = [] then emit_aligned pending chunks
      else
        let chunk = pending @ chunk0;
            pending' = (if odd (length chunk) then [last chunk] else []);
            chunk' = (if odd (length chunk) then butlast chunk else chunk) in
        if chunk' = [] then emit_aligned pending' chunks
        else (case emit_aligned pending' chunks of (outs, p) \<Rightarrow> (chunk' # outs, p)))"

lemma emit_aligned_step:
  assumes "chunk0 \<noteq> []" and "c = pending @ chunk0"
  shows "\<exists>d q. c = d @ q \<and> length q \<le> 1 \<and> even (length d)
    \<and> emit_aligned pending (chunk0 # chunks) =
        (if d = [] then emit_aligned q chunks else (d # fst (emit_aligned q chunks), snd (emit_aligned q chunks)))"
proof (cases "odd (length c)")
  case True
  then have "c \<noteq> []" by auto
  then obtain d x where c: "pending @ chunk0 = d @ [x]" using assms(2) by (metis rev_exhaust)
  with True assms show ?thesis
    by - (rule exI [of _ d], rule exI [of _ "[x]"], simp add: Let_def split: prod.split)
next
  case False
  with assms show ?thesis by - (rule exI [of _ c], rule exI [of _ "[]"], simp add: Let_def split: prod.split)
qed

lemma emit_aligned_spec:
  "length pending \<le> 1 \<Longrightarrow> concat (fst (emit_aligned pending chunks)) @ snd (emit_aligned pending chunks) = pending @ concat chunks
    \<and> length (snd (emit_aligned pending chunks)) \<le> 1 \<and> (\<forall>c \<in> set (fst (emit_aligned pending chunks)). c \<noteq> [] \<and> even (length c))"
proof (induction chunks arbitrary: pending)
  case (Cons chunk0 chunks)
  show ?case
  proof (cases "chunk0 = []")
    case True
    with Cons show ?thesis by simp
  next
    case False
    obtain d q where dq: "pending @ chunk0 = d @ q" "length q \<le> 1" "even (length d)"
      and e: "emit_aligned pending (chunk0 # chunks) =
        (if d = [] then emit_aligned q chunks else (d # fst (emit_aligned q chunks), snd (emit_aligned q chunks)))"
      using emit_aligned_step [OF False refl, of pending chunks] by blast
    have "pending @ concat (chunk0 # chunks) = d @ q @ concat chunks" using dq(1) by (metis append_assoc concat.simps(2))
    with Cons.IH [OF dq(2)] dq(3) show ?thesis unfolding e by (cases "d = []") simp_all
  qed
qed simp

text \<open>The PCM that is passed on is the provider's audio cut to whole 16-bit samples: the emitted chunks are
  non-empty, of even length, and joined are all the bytes received but a last odd one.\<close>

theorem aligned_pcm:
  assumes "emit_aligned [] chunks = (outs, p)"
  shows "concat outs @ p = concat chunks \<and> length p = length (concat chunks) mod 2
    \<and> (\<forall>c \<in> set outs. c \<noteq> [] \<and> even (length c))"
proof -
  have c: "concat outs @ p = concat chunks" "length p \<le> 1" "\<forall>c \<in> set outs. c \<noteq> [] \<and> even (length c)"
    using emit_aligned_spec [of "[]" chunks] assms by simp_all
  have "even (length (concat outs))" using c(3) by (induction outs) auto
  moreover have "length (concat chunks) = length (concat outs) + length p" using c(1) by (metis length_append)
  ultimately have "length (concat chunks) mod 2 = length p" using c(2) by presburger
  with c show ?thesis by simp
qed

theorem aligned_pcm_witness: "concat (fst (emit_aligned [] [''abc'', ''d'', ''e''])) = ''abcd''"
proof -
  have e: "snd (emit_aligned [] [''abc'', ''d'', ''e'']) = ''e''" by code_simp
  from aligned_pcm [of "[''abc'', ''d'', ''e'']" "fst (emit_aligned [] [''abc'', ''d'', ''e''])" "snd (emit_aligned [] [''abc'', ''d'', ''e''])"] e
  show ?thesis by simp
qed

end
