(* ===== verification/StringUtil.thy ===== *)
theory StringUtil
  imports GoStrings
begin

text \<open>
  \<open>internal/kernel/stringutil/truncate.go\<close>: the byte- and rune-bounded truncations and the chunking
  of long messages. Lengths are bytes (\<open>len\<close>) or runes, as in the source; \<open>None\<close> is the panic of a
  negative slice bound.
\<close>

subsection \<open>The functions\<close>

definition truncate_str :: "string \<Rightarrow> int \<Rightarrow> string option" where
  "truncate_str s n =
     (if int (length s) \<le> n then Some s
      else if n < 0 then None
      else Some (take (nat n) s @ ''...''))"

definition rune_len_go :: "nat \<Rightarrow> int" where
  "rune_len_go r = (if valid_rune r then int (rune_len r) else -1)"

text \<open>The loop of \<open>TruncateBytes\<close>: the runes before the one that would exceed the budget, or
  \<open>None\<close> when the loop runs to its end.\<close>

fun truncate_bytes_loop :: "int \<Rightarrow> int \<Rightarrow> nat list \<Rightarrow> nat list \<Rightarrow> nat list option" where
  "truncate_bytes_loop maxBytes bytesCount seen [] = None"
| "truncate_bytes_loop maxBytes bytesCount seen (r # rs) =
     (let runeBytes = (if rune_len_go r < 0 then 1 else rune_len_go r) in
      if bytesCount + runeBytes > maxBytes then Some seen
      else truncate_bytes_loop maxBytes (bytesCount + runeBytes) (seen @ [r]) rs)"

definition of_runes :: "nat list \<Rightarrow> string" where "of_runes rs = concat (map encode_rune rs)"

definition truncate_bytes :: "string \<Rightarrow> int \<Rightarrow> string" where
  "truncate_bytes s maxBytes =
     (if maxBytes \<le> 0 \<or> int (length s) \<le> maxBytes then s
      else case truncate_bytes_loop maxBytes 0 [] (runes s) of
          Some rs \<Rightarrow> of_runes rs
        | None \<Rightarrow> s)"

fun truncate_runes_loop :: "int \<Rightarrow> int \<Rightarrow> nat \<Rightarrow> string list \<Rightarrow> nat option" where
  "truncate_runes_loop maxRunes n i [] = None"
| "truncate_runes_loop maxRunes n i (c # cs) =
     (if n = maxRunes then Some i else truncate_runes_loop maxRunes (n + 1) (i + length c) cs)"

definition truncate_runes :: "string \<Rightarrow> int \<Rightarrow> string" where
  "truncate_runes s maxRunes =
     (if maxRunes \<le> 0 then s
      else case truncate_runes_loop maxRunes 0 0 (rune_chunks s) of
          Some i \<Rightarrow> take i s
        | None \<Rightarrow> s)"

definition truncate_runes_tail :: "string \<Rightarrow> int \<Rightarrow> string \<Rightarrow> string" where
  "truncate_runes_tail s maxRunes marker =
     (if maxRunes \<le> 0 then s
      else let rs = runes s in
        if int (length rs) \<le> maxRunes then s
        else let markerRunes = length (runes marker) in
          if int markerRunes \<ge> maxRunes
          then of_runes (drop (length rs - nat maxRunes) rs)
          else marker @ of_runes (drop (length rs - nat maxRunes + markerRunes) rs))"

fun rune_aligned_loop :: "string \<Rightarrow> nat \<Rightarrow> nat \<Rightarrow> nat" where
  "rune_aligned_loop s maxBytes 0 = maxBytes"
| "rune_aligned_loop s maxBytes (Suc i) =
     (if rune_start (s ! Suc i) then Suc i else rune_aligned_loop s maxBytes i)"

definition rune_aligned_cut :: "string \<Rightarrow> nat \<Rightarrow> nat" where
  "rune_aligned_cut s maxBytes =
     (if maxBytes \<ge> length s then length s else rune_aligned_loop s maxBytes maxBytes)"

definition newline :: char where "newline = CHR 0x0A"

text \<open>Where the loop of \<open>ChunkBytes\<close> cuts: the last newline, else a rune boundary.\<close>

definition chunk_split :: "string \<Rightarrow> nat \<Rightarrow> nat" where
  "chunk_split s maxBytes =
     (case last_index newline (take maxBytes s) of
        Some i \<Rightarrow> if i > 0 then i else rune_aligned_cut s maxBytes
      | None \<Rightarrow> rune_aligned_cut s maxBytes)"

lemma rune_aligned_loop_pos: "0 < m \<Longrightarrow> 0 < rune_aligned_loop s m i"
  by (induction i) auto

lemma rune_aligned_cut_pos: "0 < m \<Longrightarrow> s \<noteq> [] \<Longrightarrow> 0 < rune_aligned_cut s m"
  by (simp add: rune_aligned_cut_def rune_aligned_loop_pos)

lemma chunk_split_pos: "0 < m \<Longrightarrow> s \<noteq> [] \<Longrightarrow> 0 < chunk_split s m"
  by (simp add: chunk_split_def rune_aligned_cut_pos split: option.splits)

function chunk_loop :: "nat \<Rightarrow> string \<Rightarrow> string list" where
  "chunk_loop m s =
     (if m = 0 \<or> length s \<le> m then (if s \<noteq> [] then [s] else [])
      else take (chunk_split s m) s # chunk_loop m (drop (chunk_split s m) s))"
  by pat_completeness auto
termination
  by (relation "measure (\<lambda>(m, s). length s)") (auto intro!: diff_less chunk_split_pos)

declare chunk_loop.simps [simp del]

definition chunk_bytes :: "string \<Rightarrow> int \<Rightarrow> string list" where
  "chunk_bytes s maxBytes =
     (if maxBytes \<le> 0 \<or> int (length s) \<le> maxBytes then [s] else chunk_loop (nat maxBytes) s)"

subsection \<open>Round trip between runes and bytes\<close>

lemma decode_two: "ok2 (byte_of a) (byte_of b) \<Longrightarrow>
    decode_rune (a # b # t) = ((byte_of a - 192) * 64 + (byte_of b - 128), 2)"
  by (cases t rule: decode_rune.cases; cases t) (auto simp: ok_not_ascii split: list.splits)

lemma decode_three: "ok3 (byte_of a) (byte_of b) (byte_of c) \<Longrightarrow> decode_rune (a # b # c # t) =
    ((byte_of a - 224) * 4096 + (byte_of b - 128) * 64 + (byte_of c - 128), 3)"
  by (cases t) (auto simp: ok_not_ascii)

lemma decode_four: "ok4 (byte_of a) (byte_of b) (byte_of c) (byte_of d) \<Longrightarrow>
    decode_rune (a # b # c # d # t) = ((byte_of a - 240) * 262144 + (byte_of b - 128) * 4096
      + (byte_of c - 128) * 64 + (byte_of d - 128), 4)"
  by (auto simp: ok_not_ascii)

lemma split64: "\<exists>q z. (r::nat) = q * 64 + z \<and> z < 64"
  by (rule exI [of _ "r div 64"], rule exI [of _ "r mod 64"]) simp

lemma decode_encode_three:
  assumes v: "valid_rune r" and r: "2048 \<le> r" "r < 65536"
  shows "decode_rune (encode_rune r @ t) = (r, 3)"
proof -
  obtain q z where q: "r = q * 64 + z" "z < 64" using split64 by blast
  obtain x y where x: "q = x * 64 + y" "y < 64" using split64 by blast
  have rx: "r = x * 4096 + y * 64 + z" using q x by simp
  have bs: "x < 16" "x = 0 \<longrightarrow> 32 \<le> y" using r q(2) x(2) unfolding rx by auto
  have c: "x = 13 \<longrightarrow> y < 32" using v q(2) x(2) unfolding rx valid_rune_def by auto
  note d = bits3 [OF x(2) q(2), of x, folded rx]
  have "ok3 (224 + x) (128 + y) (128 + z)"
    using bs c q(2) x(2) by (auto simp: ok3_def is_cont_def)
  then have "decode_rune (chr_of (224 + x) # chr_of (128 + y) # chr_of (128 + z) # t) = (r, 3)"
    using decode_three [of "chr_of (224 + x)" "chr_of (128 + y)" "chr_of (128 + z)" t] bs q(2) x(2)
    by (simp add: rx)
  then show ?thesis using d r by (simp add: encode_rune_three [OF v])
qed

lemma decode_encode_four:
  assumes v: "valid_rune r" and r: "65536 \<le> r"
  shows "decode_rune (encode_rune r @ t) = (r, 4)"
proof -
  obtain p w where p: "r = p * 64 + w" "w < 64" using split64 by blast
  obtain q z where q: "p = q * 64 + z" "z < 64" using split64 by blast
  obtain x y where x: "q = x * 64 + y" "y < 64" using split64 by blast
  have rx: "r = x * 262144 + y * 4096 + z * 64 + w" using p q x by simp
  have "r < 1114112" using v r by (auto simp: valid_rune_def)
  then have bs: "x < 5" "x = 0 \<longrightarrow> 16 \<le> y" "x = 4 \<longrightarrow> y < 16"
    using r p(2) q(2) x(2) unfolding rx by auto
  note d = bits4 [OF x(2) q(2) p(2), of x, folded rx]
  have "ok4 (240 + x) (128 + y) (128 + z) (128 + w)"
    using bs p(2) q(2) x(2) by (auto simp: ok4_def is_cont_def)
  then have "decode_rune (chr_of (240 + x) # chr_of (128 + y) # chr_of (128 + z)
      # chr_of (128 + w) # t) = (r, 4)"
    using decode_four [of "chr_of (240 + x)" "chr_of (128 + y)" "chr_of (128 + z)"
        "chr_of (128 + w)" t] bs p(2) q(2) x(2)
    by (simp add: rx)
  then show ?thesis using d r by (simp add: encode_rune_four [OF v])
qed

lemma decode_encode: "valid_rune r \<Longrightarrow> decode_rune (encode_rune r @ t) = (r, rune_len r)"
proof -
  assume v: "valid_rune r"
  consider "r < 128" | "128 \<le> r" "r < 2048" | "2048 \<le> r" "r < 65536" | "65536 \<le> r" by linarith
  then show ?thesis
  proof cases
    case 1
    then show ?thesis using v by (simp add: encode_rune_def decode_ascii rune_len_def)
  next
    case 2
    have "ok2 (192 + r div 64) (128 + r mod 64)" using 2 by (auto simp: ok2_def is_cont_def)
    with decode_two [of "chr_of (192 + r div 64)" "chr_of (128 + r mod 64)" t] 2 v show ?thesis
      by (simp add: encode_rune_def rune_len_def)
  next
    case 3
    with v decode_encode_three [of r t] show ?thesis by (simp add: rune_len_def)
  next
    case 4
    with v decode_encode_four [of r t] show ?thesis by (simp add: rune_len_def)
  qed
qed

lemma encode_rune_nonempty: "valid_rune r \<Longrightarrow> encode_rune r \<noteq> []"
  by (simp add: encode_rune_def Let_def)

lemma rune_chunks_of_runes:
  "\<forall>r \<in> set rs. valid_rune r \<Longrightarrow> rune_chunks (of_runes rs) = map encode_rune rs"
proof (induction rs)
  case Nil
  then show ?case by (simp add: of_runes_def)
next
  case (Cons r rs)
  then have v: "valid_rune r" by simp
  let ?s = "encode_rune r @ of_runes rs"
  have w: "rune_width ?s = length (encode_rune r)"
    using decode_encode [OF v] by (simp add: rune_width_def length_encode_rune [OF v])
  have "of_runes (r # rs) = ?s" by (simp add: of_runes_def)
  with Cons w encode_rune_nonempty [OF v] show ?case by (simp add: rune_chunks_ne)
qed

lemma first_rune_encode: "valid_rune r \<Longrightarrow> first_rune (encode_rune r) = r"
  using decode_encode [of r "[]"] by (simp add: first_rune_def)

lemma runes_of_runes: "\<forall>r \<in> set rs. valid_rune r \<Longrightarrow> runes (of_runes rs) = rs"
  by (simp add: runes_def rune_chunks_of_runes map_idI first_rune_encode)

lemma rune_chunks_valid: "c \<in> set (rune_chunks s) \<Longrightarrow> c \<noteq> [] \<and> length c = rune_width c
    \<and> rune_width c \<le> rune_len (first_rune c) \<and> valid_rune (first_rune c)"
proof (induction s rule: rune_chunks.induct)
  case (1 s)
  show ?case
  proof (cases "s = []")
    case True
    with "1.prems" show ?thesis by simp
  next
    case False
    let ?c = "take (rune_width s) s"
    have "rune_width ?c = rune_width s" by (simp add: rune_width_def decode_prefix [unfolded rune_width_def])
    then have "?c \<noteq> [] \<and> length ?c = rune_width ?c \<and> rune_width ?c \<le> rune_len (first_rune ?c)
        \<and> valid_rune (first_rune ?c)"
      using False rune_width_pos [OF False] rune_width_le [of s] width_le_rune_len [OF False]
        first_rune_valid [OF False] by simp
    with "1" False show ?thesis by (auto simp: rune_chunks_ne)
  qed
qed

lemma runes_valid: "r \<in> set (runes s) \<Longrightarrow> valid_rune r"
  by (auto simp: runes_def dest: rune_chunks_valid)

lemma length_of_runes_runes: "length s \<le> length (of_runes (runes s))"
proof -
  have "length (concat cs) \<le> length (of_runes (map first_rune cs))"
    if "\<forall>c \<in> set cs. c \<in> set (rune_chunks s)" for cs
    using that
  proof (induction cs)
    case Nil
    then show ?case by simp
  next
    case (Cons c cs)
    then show ?case using rune_chunks_valid [of c s]
      by (auto simp: of_runes_def length_encode_rune add_mono)
  qed
  from this [of "rune_chunks s"] show ?thesis by (simp add: runes_def)
qed

text \<open>On valid UTF-8, decoding and encoding is the identity.\<close>

lemma of_runes_runes: "valid_utf8 s \<Longrightarrow> of_runes (runes s) = s"
proof -
  assume v: "valid_utf8 s"
  have "encode_rune (first_rune c) = c" if c: "c \<in> set (rune_chunks s)" for c
    using rune_chunks_valid [OF c] encode_first_rune [of c] v c by (auto simp: valid_utf8_def)
  then have "map (encode_rune \<circ> first_rune) (rune_chunks s) = rune_chunks s" by (simp add: map_idI)
  then show ?thesis unfolding of_runes_def runes_def map_map by simp
qed

subsection \<open>Cutting valid UTF-8\<close>

lemma decode_append:
  assumes "s \<noteq> []" and "\<not> (first_rune s = rune_error \<and> rune_width s = 1)"
  shows "decode_rune (take (rune_width s) s @ u) = decode_rune s"
  using decode_encode [OF first_rune_valid [OF assms(1)], of u] encode_first_rune [OF assms]
    length_encode_rune [OF first_rune_valid [OF assms(1)]] rune_width_le [of s]
  by (simp add: first_rune_def rune_width_def prod_eq_iff)

lemma valid_utf8_ne: "s \<noteq> [] \<Longrightarrow> valid_utf8 s \<longleftrightarrow>
    \<not> (first_rune s = rune_error \<and> rune_width s = 1) \<and> valid_utf8 (drop (rune_width s) s)"
  using rune_width_le [of s] by (auto simp: valid_utf8_def rune_chunks_ne)

lemma valid_utf8_Nil [simp]: "valid_utf8 []"
  by (simp add: valid_utf8_def)

lemma valid_utf8_prepend:
  assumes "s \<noteq> []" and "\<not> (first_rune s = rune_error \<and> rune_width s = 1)" and "valid_utf8 u"
  shows "valid_utf8 (take (rune_width s) s @ u)"
proof -
  let ?t = "take (rune_width s) s @ u"
  have d: "decode_rune ?t = decode_rune s" using decode_append [OF assms(1,2)] .
  then have "rune_width ?t = rune_width s" "first_rune ?t = first_rune s"
    by (simp_all add: rune_width_def first_rune_def)
  moreover have "?t \<noteq> []" using assms(1) rune_width_pos [OF assms(1)] by simp
  ultimately show ?thesis using assms(2,3) rune_width_le [of s] by (simp add: valid_utf8_ne)
qed

lemma inner_bytes_cont:
  assumes "s \<noteq> []" and "\<not> (first_rune s = rune_error \<and> rune_width s = 1)"
    and "0 < j" and "j < rune_width s"
  shows "\<not> rune_start (s ! j)"
proof -
  have j: "j = 1 \<or> j = 2 \<or> j = 3" using assms(3,4) rune_width_le4 [of s] by linarith
  show ?thesis using decode_cases [OF assms(1)] assms(2-4) j
    by (auto simp: seq_ascii_def seq_two_def seq_three_def seq_four_def seq_bad_def rune_width_def
        first_rune_def rune_start_def ok2_def ok3_def ok4_def)
qed

lemma valid_utf8_cut:
  "valid_utf8 s \<Longrightarrow> i < length s \<Longrightarrow> rune_start (s ! i) \<Longrightarrow>
   valid_utf8 (take i s) \<and> valid_utf8 (drop i s)"
proof (induction s arbitrary: i rule: rune_chunks.induct)
  case (1 s)
  show ?case
  proof (cases "i = 0")
    case True
    with "1.prems" show ?thesis by simp
  next
    case False
    let ?w = "rune_width s"
    have ne: "s \<noteq> []" using "1.prems"(2) by auto
    with "1.prems"(1) have ok: "\<not> (first_rune s = rune_error \<and> ?w = 1)"
      and vd: "valid_utf8 (drop ?w s)" by (simp_all add: valid_utf8_ne)
    have w: "?w \<le> i"
      using inner_bytes_cont [OF ne ok, of i] False "1.prems"(3) by (meson gr0I not_less)
    have "drop ?w s ! (i - ?w) = s ! i" using w "1.prems"(2) by simp
    with "1.IH" [OF ne vd, of "i - ?w"] "1.prems"(2,3) w
    have ih: "valid_utf8 (take (i - ?w) (drop ?w s))" "valid_utf8 (drop (i - ?w) (drop ?w s))"
      by simp_all
    have "take i s = take ?w s @ take (i - ?w) (drop ?w s)"
      using w by (metis le_add_diff_inverse take_add)
    moreover have "drop i s = drop (i - ?w) (drop ?w s)" using w by simp
    ultimately show ?thesis using ih valid_utf8_prepend [OF ne ok ih(1)] by simp
  qed
qed

subsection \<open>Correctness\<close>

lemma rune_aligned_loop_le: "i \<le> m \<Longrightarrow> rune_aligned_loop s m i \<le> m"
  by (induction i) auto

lemma rune_aligned_cut_le: "rune_aligned_cut s m \<le> m \<and> rune_aligned_cut s m \<le> length s"
proof (cases "m \<ge> length s")
  case False
  then show ?thesis using rune_aligned_loop_le [of m m s] by (simp add: rune_aligned_cut_def)
qed (simp add: rune_aligned_cut_def)

lemma chunk_split_le: "chunk_split s m \<le> m"
  using rune_aligned_cut_le [of s m]
  by (auto simp: chunk_split_def split: option.splits dest: last_index_Some)

lemma chunk_loop_concat: "concat (chunk_loop m s) = s"
  by (induction m s rule: chunk_loop.induct) (subst chunk_loop.simps, auto)

lemma chunk_loop_bounds: "0 < m \<Longrightarrow> c \<in> set (chunk_loop m s) \<Longrightarrow> c \<noteq> [] \<and> length c \<le> m"
proof (induction m s rule: chunk_loop.induct)
  case (1 m s)
  show ?case
  proof (cases "length s \<le> m")
    case True
    with "1.prems" show ?thesis by (auto simp: chunk_loop.simps [of m s] split: if_splits)
  next
    case False
    then have ne: "s \<noteq> []" by auto
    have "chunk_loop m s = take (chunk_split s m) s # chunk_loop m (drop (chunk_split s m) s)"
      using False "1.prems"(1) by (simp add: chunk_loop.simps [of m s])
    with "1" False ne show ?thesis
      using chunk_split_le [of s m] chunk_split_pos [OF "1.prems"(1) ne] by auto
  qed
qed

lemma last_index_newline_start: "last_index newline s = Some i \<Longrightarrow> rune_start (s ! i)"
  by (auto dest: last_index_Some simp: rune_start_def newline_def is_cont_def byte_of_def)

lemma rune_aligned_loop_start:
  "\<exists>j. 0 < j \<and> j \<le> i \<and> rune_start (s ! j) \<Longrightarrow> rune_start (s ! rune_aligned_loop s m i)"
  by (induction i) (auto simp: le_Suc_eq)

lemma valid_utf8_starts:
  assumes "valid_utf8 s" and "s \<noteq> []"
  shows "rune_start (s ! 0)"
  using decode_cases [OF assms(2)] assms
  by (auto simp: valid_utf8_ne seq_ascii_def seq_two_def seq_three_def seq_four_def seq_bad_def
      rune_start_def is_cont_def ok2_def ok3_def ok4_def first_rune_def rune_width_def)

lemma rune_aligned_cut_start:
  assumes "valid_utf8 s" and "4 \<le> m" and "m < length s"
  shows "rune_start (s ! rune_aligned_cut s m)"
proof -
  have ne: "s \<noteq> []" using assms(3) by auto
  let ?w = "rune_width s"
  have v: "valid_utf8 (drop ?w s)" using assms(1) ne by (simp add: valid_utf8_ne)
  have w: "0 < ?w" "?w \<le> 4" using rune_width_pos [OF ne] rune_width_le4 by auto
  then have ne2: "drop ?w s \<noteq> []" using assms(2,3) by auto
  have "rune_start (s ! ?w)" using valid_utf8_starts [OF v ne2] ne2 by simp
  then have "\<exists>j. 0 < j \<and> j \<le> m \<and> rune_start (s ! j)"
    using w assms(2) by (intro exI [of _ ?w] conjI) simp_all
  with rune_aligned_loop_start [of m s m] assms(3) show ?thesis by (simp add: rune_aligned_cut_def)
qed

lemma chunk_split_start:
  assumes "valid_utf8 s" and "4 \<le> m" and "m < length s"
  shows "rune_start (s ! chunk_split s m)"
proof (cases "last_index newline (take m s)")
  case None
  with rune_aligned_cut_start [OF assms] show ?thesis by (simp add: chunk_split_def)
next
  case (Some i)
  have "i < m" using last_index_Some [OF Some] by simp
  then have "rune_start (s ! i)" using last_index_newline_start [OF Some] by simp
  with Some rune_aligned_cut_start [OF assms] show ?thesis by (simp add: chunk_split_def)
qed

lemma chunk_loop_valid:
  "valid_utf8 s \<Longrightarrow> 4 \<le> m \<Longrightarrow> c \<in> set (chunk_loop m s) \<Longrightarrow> valid_utf8 c"
proof (induction m s rule: chunk_loop.induct)
  case (1 m s)
  show ?case
  proof (cases "length s \<le> m")
    case True
    with "1.prems" show ?thesis by (auto simp: chunk_loop.simps [of m s] split: if_splits)
  next
    case False
    let ?k = "chunk_split s m"
    have "?k < length s" using chunk_split_le [of s m] False by simp
    then have v: "valid_utf8 (take ?k s)" "valid_utf8 (drop ?k s)"
      using valid_utf8_cut [OF "1.prems"(1), of ?k] chunk_split_start [OF "1.prems"(1,2)] False
      by auto
    have "chunk_loop m s = take ?k s # chunk_loop m (drop ?k s)"
      using False "1.prems"(2) by (simp add: chunk_loop.simps [of m s])
    with "1" False v show ?thesis by auto
  qed
qed

lemma truncate_bytes_loop_sound:
  "truncate_bytes_loop m b seen rs = Some out \<Longrightarrow> b = int (length (of_runes seen)) \<Longrightarrow> b \<le> m \<Longrightarrow>
   \<forall>r \<in> set (seen @ rs). valid_rune r \<Longrightarrow>
   prefix out (seen @ rs) \<and> int (length (of_runes out)) \<le> m"
proof (induction m b seen rs rule: truncate_bytes_loop.induct)
  case (1 m b seen)
  then show ?case by simp
next
  case (2 m b seen r rs)
  then have v: "valid_rune r" by simp
  have l: "int (length (of_runes (seen @ [r]))) = b + rune_len_go r"
    using "2.prems"(2) v by (simp add: of_runes_def length_encode_rune rune_len_go_def)
  have nn: "0 \<le> rune_len_go r" using v by (simp add: rune_len_go_def)
  show ?case
  proof (cases "b + rune_len_go r > m")
    case True
    with "2.prems" nn show ?thesis by (auto simp: Let_def)
  next
    case False
    have e: "truncate_bytes_loop m (b + rune_len_go r) (seen @ [r]) rs = Some out"
      using "2.prems"(1) nn False by (simp add: Let_def)
    have "prefix out ((seen @ [r]) @ rs) \<and> int (length (of_runes out)) \<le> m"
      by (rule "2.IH" [OF _ _ e]) (use False nn l "2.prems"(4) in auto)
    then show ?thesis by simp
  qed
qed

lemma truncate_bytes_loop_None:
  "truncate_bytes_loop m b seen rs = None \<Longrightarrow> \<forall>r \<in> set rs. valid_rune r \<Longrightarrow> b \<le> m \<Longrightarrow>
   b + int (length (of_runes rs)) \<le> m"
proof (induction m b seen rs rule: truncate_bytes_loop.induct)
  case (1 m b seen)
  then show ?case by (simp add: of_runes_def)
next
  case (2 m b seen r rs)
  then have v: "valid_rune r" by simp
  have nn: "0 \<le> rune_len_go r" using v by (simp add: rune_len_go_def)
  with "2.prems"(1) have le: "\<not> b + rune_len_go r > m"
    and "truncate_bytes_loop m (b + rune_len_go r) (seen @ [r]) rs = None"
    by (auto simp: Let_def split: if_splits)
  with "2.IH" [of "rune_len_go r"] "2.prems"(2) nn v show ?case
    by (simp add: of_runes_def length_encode_rune rune_len_go_def)
qed

lemma truncate_bytes_cut:
  assumes "0 < m" and "m < int (length s)"
  obtains rs where "truncate_bytes s m = of_runes rs" and "prefix rs (runes s)"
    and "int (length (of_runes rs)) \<le> m"
proof -
  have v: "\<forall>r \<in> set (runes s). valid_rune r" by (simp add: runes_valid)
  have "truncate_bytes_loop m 0 [] (runes s) \<noteq> None"
    using truncate_bytes_loop_None [of m 0 "[]" "runes s"] v assms length_of_runes_runes [of s]
    by auto
  then obtain rs where rs: "truncate_bytes_loop m 0 [] (runes s) = Some rs" by blast
  have "prefix rs (runes s) \<and> int (length (of_runes rs)) \<le> m"
    using truncate_bytes_loop_sound [OF rs] v assms by (simp add: of_runes_def)
  with rs assms that show thesis by (simp add: truncate_bytes_def)
qed

lemma of_runes_prefix: "prefix rs ts \<Longrightarrow> prefix (of_runes rs) (of_runes ts)"
  by (auto simp: prefix_def of_runes_def)

lemma rune_count_of_runes: "\<forall>r \<in> set rs. valid_rune r \<Longrightarrow> rune_count (of_runes rs) = length rs"
  by (simp add: rune_count_def rune_chunks_of_runes)

lemma truncate_runes_tail_long:
  assumes "0 < m" and "m < int (length (runes s))" and "valid_utf8 marker"
  shows "int (rune_count (truncate_runes_tail s m marker)) = m"
proof -
  let ?n = "length (runes s)" and ?k = "length (runes marker)"
  have v: "\<forall>r \<in> set (runes s). valid_rune r" "\<forall>r \<in> set (runes marker). valid_rune r"
    by (simp_all add: runes_valid)
  show ?thesis
  proof (cases "int ?k \<ge> m")
    case True
    have "rune_count (of_runes (drop (?n - nat m) (runes s))) = nat m"
      using v(1) assms by (subst rune_count_of_runes) (auto dest: in_set_dropD)
    with True assms show ?thesis by (simp add: truncate_runes_tail_def Let_def)
  next
    case False
    let ?d = "drop (?n - nat m + ?k) (runes s)"
    have "truncate_runes_tail s m marker = of_runes (runes marker @ ?d)"
      using False assms of_runes_runes [OF assms(3)]
      by (simp add: truncate_runes_tail_def Let_def) (simp add: of_runes_def)
    moreover have "\<forall>r \<in> set (runes marker @ ?d). valid_rune r"
      using v by (auto dest: in_set_dropD)
    ultimately have "rune_count (truncate_runes_tail s m marker) = length (runes marker @ ?d)"
      by (metis rune_count_of_runes)
    with False assms show ?thesis by simp
  qed
qed

text \<open>Encoded runes are valid UTF-8: an encoded U+FFFD is three bytes wide, never one.\<close>

lemma valid_utf8_of_runes: "\<forall>r \<in> set rs. valid_rune r \<Longrightarrow> valid_utf8 (of_runes rs)"
proof -
  assume v: "\<forall>r \<in> set rs. valid_rune r"
  have "\<not> (first_rune (encode_rune r) = rune_error \<and> rune_width (encode_rune r) = 1)"
    if "r \<in> set rs" for r
    using decode_encode [of r "[]"] v that
    by (auto simp: first_rune_def rune_width_def rune_len_def rune_error_def)
  moreover have "length (encode_rune r) = rune_width (encode_rune r)" if "r \<in> set rs" for r
    using decode_encode [of r "[]"] v that by (simp add: rune_width_def length_encode_rune)
  ultimately show ?thesis using v by (simp add: valid_utf8_def rune_chunks_of_runes)
qed

subsection \<open>Properties\<close>

text \<open>\<open>ChunkBytes\<close> loses nothing: for a positive bound the chunks concatenate to the message,
  no chunk is longer than the bound, a non-empty message has no empty chunk, and when the message
  is valid UTF-8 and the bound is at least four bytes no chunk splits a rune.\<close>

theorem chunk_bytes_correct:
  assumes "0 < m"
  shows "concat (chunk_bytes s m) = s
    \<and> (\<forall>c \<in> set (chunk_bytes s m). int (length c) \<le> m \<and> (s \<noteq> [] \<longrightarrow> c \<noteq> []))
    \<and> (valid_utf8 s \<and> 4 \<le> m \<longrightarrow> (\<forall>c \<in> set (chunk_bytes s m). valid_utf8 c))"
proof (cases "int (length s) \<le> m")
  case True
  then show ?thesis by (simp add: chunk_bytes_def)
next
  case False
  then have e: "chunk_bytes s m = chunk_loop (nat m) s" using assms by (simp add: chunk_bytes_def)
  have b: "0 < nat m" using assms by simp
  have "int (length c) \<le> m \<and> c \<noteq> []" if "c \<in> set (chunk_loop (nat m) s)" for c
    using chunk_loop_bounds [OF b that] assms by (simp add: le_nat_iff)
  moreover have "valid_utf8 c" if "valid_utf8 s \<and> 4 \<le> m" "c \<in> set (chunk_loop (nat m) s)" for c
    using chunk_loop_valid [of s "nat m" c] that by (simp add: le_nat_iff)
  ultimately show ?thesis unfolding e by (simp add: chunk_loop_concat)
qed

theorem chunk_bytes_correct_witness:
  "concat (chunk_bytes ''ab cd'' 4) = ''ab cd'' \<and> chunk_bytes ''ab cd'' 4 = [''ab c'', ''d'']"
proof -
  have "concat (chunk_bytes ''ab cd'' 4) = ''ab cd''"
    using chunk_bytes_correct [of 4 "''ab cd''"] by simp
  moreover have "chunk_bytes ''ab cd'' 4 = [''ab c'', ''d'']" by code_simp
  ultimately show ?thesis by simp
qed

text \<open>\<open>TruncateBytes\<close> with a positive budget returns at most that many bytes, returns the
  string itself when it fits, and on valid UTF-8 cuts at a rune boundary: the result is a prefix
  that is valid UTF-8 again.\<close>

theorem truncate_bytes_correct:
  assumes "0 < m"
  shows "int (length (truncate_bytes s m)) \<le> m
    \<and> (int (length s) \<le> m \<longrightarrow> truncate_bytes s m = s)
    \<and> (valid_utf8 s \<longrightarrow> prefix (truncate_bytes s m) s \<and> valid_utf8 (truncate_bytes s m))"
proof (cases "int (length s) \<le> m")
  case True
  then show ?thesis using assms by (simp add: truncate_bytes_def)
next
  case False
  then obtain rs where rs: "truncate_bytes s m = of_runes rs" "prefix rs (runes s)"
      "int (length (of_runes rs)) \<le> m"
    using truncate_bytes_cut [OF assms, of s] by force
  have "\<forall>r \<in> set rs. valid_rune r" using rs(2) runes_valid by (auto dest: set_mono_prefix)
  then show ?thesis
    using rs False of_runes_prefix [OF rs(2)] of_runes_runes [of s] valid_utf8_of_runes [of rs]
    by auto
qed

theorem truncate_bytes_correct_witness:
  "prefix (truncate_bytes [chr_of 195, chr_of 169, CHR ''x''] 2) [chr_of 195, chr_of 169, CHR ''x'']
   \<and> truncate_bytes [chr_of 195, chr_of 169, CHR ''x''] 2 = [chr_of 195, chr_of 169]"
proof -
  have "valid_utf8 [chr_of 195, chr_of 169, CHR ''x'']" by code_simp
  then have "prefix (truncate_bytes [chr_of 195, chr_of 169, CHR ''x''] 2)
      [chr_of 195, chr_of 169, CHR ''x'']"
    using truncate_bytes_correct [of 2 "[chr_of 195, chr_of 169, CHR ''x'']"] by simp
  moreover have "truncate_bytes [chr_of 195, chr_of 169, CHR ''x''] 2 = [chr_of 195, chr_of 169]"
    by code_simp
  ultimately show ?thesis by simp
qed

end
