(* ===== verification/Speech.thy ===== *)
theory Speech
  imports StringUtil
begin

text \<open>
  \<open>internal/kernel/voice/sentence.go\<close> and \<open>Sentencize\<close> of \<open>transforms.go\<close>: cutting a streamed reply into the
  fragments that are spoken.
\<close>

subsection \<open>Cutting\<close>

definition is_end_mark :: "nat \<Rightarrow> bool" where "is_end_mark r \<longleftrightarrow> r = 46 \<or> r = 33 \<or> r = 63"

text \<open>\<open>findSentenceEndIndex\<close> on the runes from byte \<open>i\<close> on.\<close>

fun sentence_end_loop :: "nat \<Rightarrow> string list \<Rightarrow> nat option" where
  "sentence_end_loop i [] = None"
| "sentence_end_loop i (c # cs) =
     (if is_end_mark (first_rune c) \<and> (cs = [] \<or> is_space_rune (first_rune (hd cs))) then Some (i + length c)
      else sentence_end_loop (i + length c) cs)"

definition find_sentence_end :: "string \<Rightarrow> nat option" where
  "find_sentence_end s = sentence_end_loop 0 (rune_chunks s)"

text \<open>\<open>truncateToMaxRunes\<close>: past \<open>max\<close> runes, through the next white space.\<close>

fun to_next_space :: "nat \<Rightarrow> string list \<Rightarrow> nat" where
  "to_next_space i [] = i"
| "to_next_space i (c # cs) = (if is_space_rune (first_rune c) then i + length c else to_next_space (i + length c) cs)"

definition truncate_to_max_runes :: "string \<Rightarrow> nat \<Rightarrow> nat" where
  "truncate_to_max_runes s m =
     (let cs = rune_chunks s in to_next_space (length (concat (take m cs))) (drop m cs))"

definition max_fragment :: nat where "max_fragment = 800"

lemma sentence_end_bounds:
  "sentence_end_loop i cs = Some e \<Longrightarrow> \<forall>c \<in> set cs. c \<noteq> [] \<Longrightarrow> i < e \<and> e \<le> i + length (concat cs)"
proof (induction i cs rule: sentence_end_loop.induct)
  case (2 i c cs)
  show ?case
  proof (cases "is_end_mark (first_rune c) \<and> (cs = [] \<or> is_space_rune (first_rune (hd cs)))")
    case True
    with 2 show ?thesis by auto
  next
    case False
    then have "sentence_end_loop (i + length c) cs = Some e" using "2.prems"(1) unfolding sentence_end_loop.simps by (simp only: if_False)
    from "2.IH" [OF False this] "2.prems"(2) show ?thesis by auto
  qed
qed simp

lemma find_sentence_end_bounds: "find_sentence_end s = Some e \<Longrightarrow> 0 < e \<and> e \<le> length s"
  using sentence_end_bounds [of 0 "rune_chunks s" e] rune_chunks_nonempty by (simp add: find_sentence_end_def)

function take_sentences :: "string \<Rightarrow> string list \<times> string" where
  "take_sentences s =
     (case find_sentence_end s of
        None \<Rightarrow> ([], s)
      | Some e \<Rightarrow>
          (case take_sentences (drop e s) of (out, r) \<Rightarrow>
             (if trim_space (take e s) = [] then out else trim_space (take e s) # out, r)))"
  by pat_completeness auto
termination
  by (relation "measure length") (auto dest: find_sentence_end_bounds)

declare take_sentences.simps [simp del]

definition space_cut_set :: string where "space_cut_set = [CHR 0x20, CHR 0x09, CHR 0x0A, CHR 0x0D]"

definition take_complete_sentences :: "string \<Rightarrow> string list \<times> string" where
  "take_complete_sentences buf =
     (case take_sentences buf of (out, s) \<Rightarrow>
        (if rune_count s \<ge> max_fragment then
           (let c = truncate_to_max_runes s max_fragment; sent = trim_space (take c s);
                s' = trim_left_set space_cut_set (drop c s) in
            (if sent \<noteq> [] then out @ [sent] else out, s'))
         else (out, s)))"

definition flush_remainder :: "string \<Rightarrow> string" where "flush_remainder buf = trim_space buf"

text \<open>\<open>Sentencize\<close> on a whole stream of deltas that closes.\<close>

fun sentencize :: "string \<Rightarrow> string list \<Rightarrow> string list" where
  "sentencize buf [] = (if flush_remainder buf \<noteq> [] then [flush_remainder buf] else [])"
| "sentencize buf (d # ds) =
     (case take_complete_sentences (buf @ d) of (out, buf') \<Rightarrow> out @ sentencize buf' ds)"

subsection \<open>Nothing but white space is dropped\<close>

text \<open>White space is what \<open>strings.TrimSpace\<close> removes: a run of the encodings of space code points.\<close>

definition blank_run :: "string \<Rightarrow> bool" where
  "blank_run g \<longleftrightarrow> (\<exists>ps. set ps \<subseteq> set space_seqs \<and> g = concat ps)"

inductive laid_out :: "string \<Rightarrow> string list \<Rightarrow> string \<Rightarrow> bool" where
  lo_rest: "blank_run g \<Longrightarrow> laid_out (g @ r) [] r"
| lo_part: "blank_run g \<Longrightarrow> laid_out s outs r \<Longrightarrow> laid_out (g @ x @ s) (x # outs) r"

lemma blank_Nil [simp]: "blank_run []"
  unfolding blank_run_def by (rule exI [of _ "[]"]) simp

lemma blank_append: "blank_run g \<Longrightarrow> blank_run h \<Longrightarrow> blank_run (g @ h)"
proof -
  assume "blank_run g" "blank_run h"
  then obtain ps qs where "set ps \<subseteq> set space_seqs" "g = concat ps" "set qs \<subseteq> set space_seqs" "h = concat qs"
    by (auto simp: blank_run_def)
  then show ?thesis unfolding blank_run_def by (intro exI [of _ "ps @ qs"]) simp
qed

lemma strip_blank: "set ps \<subseteq> set space_seqs \<Longrightarrow> \<exists>g. blank_run g \<and> s = g @ strip ps s"
proof (induction ps s rule: strip.induct)
  case (1 ps s)
  show ?case
  proof (cases "find (\<lambda>p. p \<noteq> [] \<and> prefix p s) ps")
    case None
    then show ?thesis by (intro exI [of _ "[]"]) (simp add: strip.simps [of ps s])
  next
    case (Some p)
    then have p: "p \<in> set ps" "prefix p s" by (auto simp: find_Some_iff)
    obtain g where g: "blank_run g" "drop (length p) s = g @ strip ps (drop (length p) s)"
      using "1.IH" [OF Some "1.prems"] by blast
    have "blank_run p" unfolding blank_run_def using p(1) "1.prems" by (intro exI [of _ "[p]"]) auto
    moreover have "s = p @ drop (length p) s" using p(2) by (auto simp: prefix_def)
    ultimately show ?thesis using g Some blank_append [of p g]
      by (intro exI [of _ "p @ g"]) (simp add: strip.simps [of ps s])
  qed
qed

lemma strip_rev_blank: "set ps \<subseteq> set space_seqs \<Longrightarrow> \<exists>g. blank_run g \<and> s = rev (strip (map rev ps) (rev s)) @ g"
proof (induction "length s" arbitrary: s rule: less_induct)
  case less
  show ?case
  proof (cases "find (\<lambda>p. p \<noteq> [] \<and> prefix p (rev s)) (map rev ps)")
    case None
    then show ?thesis by (intro exI [of _ "[]"]) (simp add: strip.simps [of "map rev ps" "rev s"])
  next
    case (Some q)
    then obtain p where p: "q = rev p" "p \<in> set ps" "p \<noteq> []" "prefix (rev p) (rev s)" by (auto simp: find_Some_iff)
    then obtain t where t: "s = t @ p" by (auto simp: suffix_to_prefix [symmetric] suffix_def)
    have "length t < length s" using t p(3) by simp
    then obtain g where g: "blank_run g" "t = rev (strip (map rev ps) (rev t)) @ g" using less by blast
    have "blank_run p" unfolding blank_run_def using p(2) less.prems by (intro exI [of _ "[p]"]) auto
    moreover have "strip (map rev ps) (rev s) = strip (map rev ps) (rev t)"
      using Some p(1) unfolding t by (subst strip.simps) simp
    ultimately show ?thesis using g t blank_append [of g p] by (intro exI [of _ "g @ p"]) (metis append_assoc)
  qed
qed

lemma trim_space_blank: "\<exists>g h. blank_run g \<and> blank_run h \<and> s = g @ trim_space s @ h"
proof -
  obtain g where g: "blank_run g" "s = g @ trim_left s" using strip_blank [of space_seqs s] by (auto simp: trim_left_def)
  obtain h where "blank_run h" "trim_left s = trim_space s @ h"
    using strip_rev_blank [of space_seqs "trim_left s"] by (auto simp: trim_space_def trim_right_def)
  with g show ?thesis by metis
qed

lemma laid_out_blank: "laid_out s outs r \<Longrightarrow> blank_run g \<Longrightarrow> laid_out (g @ s) outs r"
proof (induction rule: laid_out.induct)
  case (lo_rest g' r)
  then show ?case using laid_out.lo_rest [OF blank_append [of g g'], of r] by simp
next
  case (lo_part g' s outs r x)
  then show ?case using laid_out.lo_part [OF blank_append [of g g'], of s outs r x] by simp
qed

lemma laid_out_piece:
  assumes "laid_out s outs r"
  shows "laid_out (t @ s) (if trim_space t = [] then outs else trim_space t # outs) r"
proof -
  obtain g h where g: "blank_run g" "blank_run h" "t = g @ trim_space t @ h" using trim_space_blank by blast
  show ?thesis
  proof (cases "trim_space t = []")
    case True
    then have "t = g @ h" using g(3) by simp
    then show ?thesis using True laid_out_blank [OF assms blank_append [OF g(1,2)]] by simp
  next
    case False
    have "laid_out (g @ trim_space t @ h @ s) (trim_space t # outs) r"
      by (rule lo_part [OF g(1) laid_out_blank [OF assms g(2)]])
    moreover have "t @ s = g @ trim_space t @ h @ s" using arg_cong [OF g(3), of "\<lambda>x. x @ s"] by (simp only: append_assoc)
    ultimately show ?thesis using False by (simp only: if_False)
  qed
qed

lemma take_sentences_laid: "laid_out s (fst (take_sentences s)) (snd (take_sentences s))"
proof (induction s rule: take_sentences.induct)
  case (1 s)
  show ?case
  proof (cases "find_sentence_end s")
    case None
    then show ?thesis using lo_rest [of "[]" s] by (simp add: take_sentences.simps [of s])
  next
    case (Some e)
    obtain outs r where o: "take_sentences (drop e s) = (outs, r)" by (cases "take_sentences (drop e s)")
    from laid_out_piece [OF "1.IH" [OF Some], of "take e s"] Some show ?thesis
      by (cases "trim_space (take e s) = []") (simp_all add: take_sentences.simps [of s] o)
  qed
qed

lemma cut_set_blank: "\<exists>g. blank_run g \<and> s = g @ trim_left_set space_cut_set s"
proof (induction s)
  case (Cons c s)
  show ?case
  proof (cases "c \<in> set space_cut_set")
    case True
    moreover have "\<forall>c \<in> set space_cut_set. [c] \<in> set space_seqs" by code_simp
    ultimately have "[c] \<in> set space_seqs" by blast
    then have b: "blank_run [c]" unfolding blank_run_def by (intro exI [of _ "[[c]]"]) simp
    obtain g where "blank_run g" "s = g @ trim_left_set space_cut_set s" using Cons by blast
    with True blank_append [OF b, of g] show ?thesis
      by (intro exI [of _ "c # g"]) (simp add: trim_left_set_def)
  next
    case False
    then show ?thesis by (intro exI [of _ "[]"]) (simp add: trim_left_set_def)
  qed
qed (simp add: trim_left_set_def)

lemma laid_out_trans: "laid_out s outs r \<Longrightarrow> laid_out r outs' r' \<Longrightarrow> laid_out s (outs @ outs') r'"
proof (induction rule: laid_out.induct)
  case (lo_rest g r)
  then show ?case by (simp add: laid_out_blank)
next
  case (lo_part g s outs r x)
  then show ?case using laid_out.lo_part by simp
qed

lemma laid_out_append: "laid_out s outs r \<Longrightarrow> laid_out (s @ t) outs (r @ t)"
proof (induction rule: laid_out.induct)
  case (lo_rest g r)
  then show ?case using laid_out.lo_rest [of g "r @ t"] by simp
next
  case (lo_part g s outs r x)
  then show ?case using laid_out.lo_part [of g "s @ t" outs "r @ t" x] by simp
qed

lemma take_complete_laid:
  "laid_out s (fst (take_complete_sentences s)) (snd (take_complete_sentences s))"
proof -
  obtain out r where t: "take_sentences s = (out, r)" by (cases "take_sentences s")
  have l: "laid_out s out r" using take_sentences_laid [of s] t by simp
  show ?thesis
  proof (cases "rune_count r \<ge> max_fragment")
    case False
    with l t show ?thesis by (simp add: take_complete_sentences_def)
  next
    case True
    let ?c = "truncate_to_max_runes r max_fragment"
    obtain g where g: "blank_run g" "drop ?c r = g @ trim_left_set space_cut_set (drop ?c r)"
      using cut_set_blank by blast
    have "laid_out (drop ?c r) [] (trim_left_set space_cut_set (drop ?c r))" using lo_rest [OF g(1)] g(2) by metis
    from laid_out_trans [OF l laid_out_piece [OF this, of "take ?c r", simplified]] True t
    show ?thesis by (cases "trim_space (take ?c r) = []") (simp_all add: take_complete_sentences_def Let_def)
  qed
qed

text \<open>Nothing of a reply is lost, repeated or reordered on its way to speech: whatever deltas the text arrives
  in, the spoken fragments are the whole text in order with only white space left out between them.\<close>

theorem sentencize_keeps_text:
  "laid_out (buf @ concat deltas) (sentencize buf deltas) []"
proof (induction deltas arbitrary: buf)
  case Nil
  have e: "laid_out [] [] []" using lo_rest [of "[]" "[]"] by simp
  from laid_out_piece [OF e, of buf] show ?case
    by (cases "trim_space buf = []") (simp_all add: flush_remainder_def)
next
  case (Cons d ds)
  obtain out r where t: "take_complete_sentences (buf @ d) = (out, r)" by (cases "take_complete_sentences (buf @ d)")
  have "laid_out (buf @ d) out r" using take_complete_laid [of "buf @ d"] t by simp
  from laid_out_trans [OF laid_out_append [OF this, of "concat ds"] Cons.IH [of r]] t show ?case by simp
qed

lemma take_sentences_rest: "find_sentence_end (snd (take_sentences s)) = None"
proof (induction s rule: take_sentences.induct)
  case (1 s)
  show ?case
  proof (cases "find_sentence_end s")
    case None
    then show ?thesis by (simp add: take_sentences.simps [of s])
  next
    case (Some e)
    obtain outs r where o: "take_sentences (drop e s) = (outs, r)" by (cases "take_sentences (drop e s)")
    with "1.IH" [OF Some] Some show ?thesis by (simp add: take_sentences.simps [of s])
  qed
qed

text \<open>The end of a delta is taken for the end of the text: a number or a name with a dot that is split between
  two deltas after the dot is spoken as two sentences.\<close>

lemma delta_splits_number: "sentencize [] [''pi is 3.'', ''14''] = [''pi is 3.'', ''14'']"
  by code_simp

lemma whole_number: "sentencize [] [''pi is 3.14''] = [''pi is 3.14'']"
  by code_simp

end
