(* ===== verification/WakeGate.thy ===== *)
theory WakeGate
  imports GoStrings
begin

text \<open>
  \<open>internal/kernel/voice/wake.go\<close> and \<open>internal/kernel/converse\<close>: the wake gate in front of the microphone, the
  serialized turn loop with barge-in, and the sink that tells the gate when a reply has been played.
  \<open>unicode.IsLetter\<close> or \<open>IsDigit\<close> is the argument \<open>letter\<close>.
\<close>

subsection \<open>Matching the phrase\<close>

definition normalize_token :: "(nat \<Rightarrow> bool) \<Rightarrow> string \<Rightarrow> string" where
  "normalize_token letter s = concat (map encode_rune (filter letter (runes (to_lower s))))"

definition normalize_wake :: "(nat \<Rightarrow> bool) \<Rightarrow> string \<Rightarrow> string" where
  "normalize_wake letter s = join '' '' (filter (\<lambda>n. n \<noteq> []) (map (normalize_token letter) (fields s)))"

definition match_wake :: "(nat \<Rightarrow> bool) \<Rightarrow> string \<Rightarrow> string \<Rightarrow> string option" where
  "match_wake letter utterance phrase =
     (let phraseTokens = fields phrase; origTokens = fields utterance in
      if phraseTokens = [] then None
      else if length origTokens < length phraseTokens then None
      else if map (normalize_token letter) (take (length phraseTokens) origTokens) \<noteq> phraseTokens then None
      else Some (trim_space (join '' '' (drop (length phraseTokens) origTokens))))"

subsection \<open>The gate\<close>

datatype voice_event = SpeechStart | Utterance string

record wake_gate =
  wg_phrase :: string
  wg_active :: bool
  wg_awaiting :: bool
  wg_armed :: bool

text \<open>\<open>NewWakeGate\<close>: \<open>None\<close> is the source itself, without a gate. The window's length does not matter here: the
  timer fires at some time after it has been armed.\<close>

definition new_wake_gate :: "(nat \<Rightarrow> bool) \<Rightarrow> string \<Rightarrow> wake_gate option" where
  "new_wake_gate letter phrase =
     (if normalize_wake letter phrase = [] then None
      else Some \<lparr>wg_phrase = normalize_wake letter phrase, wg_active = False, wg_awaiting = False, wg_armed = False\<rparr>)"

definition gate_timer :: "wake_gate \<Rightarrow> wake_gate option" where
  "gate_timer g = (if wg_armed g then Some (g\<lparr>wg_active := False, wg_awaiting := False, wg_armed := False\<rparr>) else None)"

definition gate_reply_done :: "wake_gate \<Rightarrow> wake_gate" where
  "gate_reply_done g = (if wg_active g then g\<lparr>wg_awaiting := False, wg_armed := True\<rparr> else g)"

text \<open>\<open>step\<close>: the events it forwards.\<close>

definition gate_step :: "(nat \<Rightarrow> bool) \<Rightarrow> wake_gate \<Rightarrow> voice_event \<Rightarrow> wake_gate \<times> voice_event list" where
  "gate_step letter g ev =
     (case ev of
        SpeechStart \<Rightarrow> (if \<not> wg_active g then (g, []) else (g, [ev]))
      | Utterance t \<Rightarrow>
          (if wg_active g then (g\<lparr>wg_awaiting := True, wg_armed := False\<rparr>, [ev])
           else case match_wake letter t (wg_phrase g) of
               None \<Rightarrow> (g, [])
             | Some remainder \<Rightarrow> (g\<lparr>wg_active := True, wg_awaiting := True, wg_armed := False\<rparr>,
                 [Utterance (if remainder = [] then trim_space t else remainder)])))"

datatype gate_input = GTimer | GReplyDone | GEvent voice_event

fun gate_run :: "(nat \<Rightarrow> bool) \<Rightarrow> wake_gate \<Rightarrow> gate_input list \<Rightarrow> (wake_gate \<times> voice_event list) option" where
  "gate_run letter g [] = Some (g, [])"
| "gate_run letter g (GTimer # ins) = (case gate_timer g of None \<Rightarrow> None | Some g' \<Rightarrow> gate_run letter g' ins)"
| "gate_run letter g (GReplyDone # ins) = gate_run letter (gate_reply_done g) ins"
| "gate_run letter g (GEvent ev # ins) =
     (case gate_step letter g ev of (g', out) \<Rightarrow> map_option (\<lambda>(h, o'). (h, out @ o')) (gate_run letter g' ins))"

definition dormant :: "wake_gate \<Rightarrow> bool" where
  "dormant g \<longleftrightarrow> \<not> wg_active g \<and> \<not> wg_awaiting g \<and> \<not> wg_armed g"

definition wakes :: "(nat \<Rightarrow> bool) \<Rightarrow> string \<Rightarrow> gate_input \<Rightarrow> bool" where
  "wakes letter phrase i = (case i of GEvent (Utterance t) \<Rightarrow> match_wake letter t phrase \<noteq> None | _ \<Rightarrow> False)"

lemma gate_step_phrase: "wg_phrase (fst (gate_step letter g ev)) = wg_phrase g"
  by (auto simp: gate_step_def split: voice_event.split option.split)

lemma gate_run_dormant:
  "dormant g \<Longrightarrow> \<forall>i \<in> set ins. \<not> wakes letter (wg_phrase g) i \<Longrightarrow> gate_run letter g ins = Some (h, out) \<Longrightarrow>
    out = [] \<and> h = g"
proof (induction ins arbitrary: h out)
  case (Cons i ins)
  show ?case
  proof (cases i)
    case (GEvent ev)
    with Cons show ?thesis by (cases ev) (auto simp: gate_step_def dormant_def wakes_def)
  qed (use Cons in \<open>auto simp: gate_timer_def gate_reply_done_def dormant_def\<close>)
qed simp

text \<open>The first thing that a dormant gate forwards.\<close>

lemma gate_run_first:
  "dormant g \<Longrightarrow> gate_run letter g ins = Some (h, out) \<Longrightarrow> out \<noteq> [] \<Longrightarrow>
   \<exists>us t vs rem. ins = us @ GEvent (Utterance t) # vs \<and> (\<forall>i \<in> set us. \<not> wakes letter (wg_phrase g) i)
     \<and> match_wake letter t (wg_phrase g) = Some rem \<and> hd out = Utterance (if rem = [] then trim_space t else rem)"
proof (induction ins arbitrary: h out)
  case (Cons i ins)
  show ?case
  proof (cases "\<exists>t rem. i = GEvent (Utterance t) \<and> match_wake letter t (wg_phrase g) = Some rem")
    case True
    then obtain t rem where t: "i = GEvent (Utterance t)" "match_wake letter t (wg_phrase g) = Some rem" by blast
    then have "hd out = Utterance (if rem = [] then trim_space t else rem)"
      using Cons.prems by (auto simp: gate_step_def dormant_def)
    with t show ?thesis
      by - (rule exI [of _ "[]"], rule exI [of _ t], rule exI [of _ ins], rule exI [of _ rem], simp)
  next
    case False
    then have n: "\<not> wakes letter (wg_phrase g) i" by (auto simp: wakes_def split: gate_input.splits voice_event.splits)
    have "gate_run letter g ins = Some (h, out)"
    proof (cases i)
      case (GEvent ev)
      with Cons.prems n show ?thesis
        by (cases ev) (auto simp: gate_step_def dormant_def wakes_def)
    qed (use Cons.prems in \<open>auto simp: gate_timer_def gate_reply_done_def dormant_def\<close>)
    from Cons.IH [OF Cons.prems(1) this Cons.prems(3)] obtain us t vs rem where
      "ins = us @ GEvent (Utterance t) # vs" "\<forall>i \<in> set us. \<not> wakes letter (wg_phrase g) i"
      "match_wake letter t (wg_phrase g) = Some rem" "hd out = Utterance (if rem = [] then trim_space t else rem)" by blast
    with n show ?thesis
      by - (rule exI [of _ "i # us"], rule exI [of _ t], rule exI [of _ vs], rule exI [of _ rem], simp)
  qed
qed simp

text \<open>What is said before the wake phrase, or after its window has closed, stays in the gate: from a dormant
  gate nothing is forwarded as long as no utterance begins with the phrase; the first thing forwarded
  is an utterance that does, without the phrase; and a window that closes leaves the gate dormant.\<close>

theorem dormant_gate_is_silent:
  assumes "dormant g" and "gate_run letter g ins = Some (h, out)"
  shows "((\<forall>i \<in> set ins. \<not> wakes letter (wg_phrase g) i) \<longrightarrow> out = [] \<and> dormant h)
    \<and> (out \<noteq> [] \<longrightarrow> (\<exists>us t vs rem. ins = us @ GEvent (Utterance t) # vs \<and> (\<forall>i \<in> set us. \<not> wakes letter (wg_phrase g) i)
        \<and> match_wake letter t (wg_phrase g) = Some rem \<and> hd out = Utterance (if rem = [] then trim_space t else rem)))
    \<and> (\<forall>g'. gate_timer h = Some g' \<longrightarrow> dormant g')"
  using gate_run_dormant [OF assms(1) _ assms(2)] gate_run_first [OF assms] assms(1)
  by (auto simp: gate_timer_def dormant_def)

definition ascii_letter :: "nat \<Rightarrow> bool" where
  "ascii_letter r \<longleftrightarrow> (97 \<le> r \<and> r \<le> 122) \<or> (65 \<le> r \<and> r \<le> 90) \<or> (48 \<le> r \<and> r \<le> 57)"

definition maven_gate :: wake_gate where
  "maven_gate = \<lparr>wg_phrase = ''hey maven'', wg_active = False, wg_awaiting = False, wg_armed = False\<rparr>"

lemma maven_gate_new: "new_wake_gate ascii_letter ''Hey, Maven!'' = Some maven_gate"
  by code_simp

theorem dormant_gate_is_silent_witness:
  "map_option snd (gate_run ascii_letter maven_gate
     [GEvent SpeechStart, GEvent (Utterance ''what time is it''), GReplyDone]) = Some []"
proof -
  let ?ins = "[GEvent SpeechStart, GEvent (Utterance ''what time is it''), GReplyDone]"
  have d: "dormant maven_gate" "\<forall>i \<in> set ?ins. \<not> wakes ascii_letter (wg_phrase maven_gate) i"
    "gate_run ascii_letter maven_gate ?ins \<noteq> None"
    by code_simp+
  then obtain h out where r: "gate_run ascii_letter maven_gate ?ins = Some (h, out)" by auto
  have "out = []" using dormant_gate_is_silent [OF d(1) r] d(2) by blast
  with r show ?thesis by simp
qed

lemma wake_keeps_case:
  "map_option snd (gate_run ascii_letter maven_gate [GEvent (Utterance ''Hey Maven, email Bob'')])
     = Some [Utterance ''email Bob'']"
  by code_simp

text \<open>A stray punctuation mark that the recogniser sets apart keeps the phrase from matching, although
  \<open>normalizeWake\<close> would drop it.\<close>

lemma lone_punctuation_blocks_wake:
  "match_wake ascii_letter ''Hey - Maven, stop'' ''hey maven'' = None"
  "normalize_wake ascii_letter ''Hey - Maven'' = ''hey maven''"
  by code_simp+

subsection \<open>The turn loop\<close>

text \<open>\<open>Converse\<close> holds an event while it cancels the turn and waits for its renders. A render is a turn's number
  and a sink's; sink 0 is the voice sink, wrapped by \<open>NotifyOnDone\<close>.\<close>

record voice_session =
  vs_gate :: wake_gate
  vs_queue :: "voice_event list"
  vs_held :: "voice_event option"
  vs_cancelled :: bool
  vs_renders :: "(nat \<times> nat) list"
  vs_done :: bool
  vs_turns :: "string list"
  vs_forwarded :: "voice_event list"

definition new_session :: "wake_gate \<Rightarrow> voice_session" where
  "new_session g = \<lparr>vs_gate = g, vs_queue = [], vs_held = None, vs_cancelled = False, vs_renders = [], vs_done = False,
     vs_turns = [], vs_forwarded = []\<rparr>"

definition session_hear :: "(nat \<Rightarrow> bool) \<Rightarrow> voice_event \<Rightarrow> voice_session \<Rightarrow> voice_session" where
  "session_hear letter ev s =
     (case gate_step letter (vs_gate s) ev of (g, out) \<Rightarrow>
        s\<lparr>vs_gate := g, vs_queue := vs_queue s @ out, vs_forwarded := vs_forwarded s @ out\<rparr>)"

definition session_take :: "voice_session \<Rightarrow> voice_session option" where
  "session_take s =
     (case (vs_held s, vs_queue s) of
        (None, ev # q) \<Rightarrow> Some (s\<lparr>vs_held := Some ev, vs_queue := q, vs_cancelled := True\<rparr>)
      | _ \<Rightarrow> None)"

definition session_next :: "nat \<Rightarrow> voice_session \<Rightarrow> voice_session option" where
  "session_next sinks s =
     (case vs_held s of
        None \<Rightarrow> None
      | Some ev \<Rightarrow>
          (if vs_renders s \<noteq> [] then None
           else case ev of
               SpeechStart \<Rightarrow> Some (s\<lparr>vs_held := None\<rparr>)
             | Utterance t \<Rightarrow> Some (s\<lparr>vs_held := None, vs_cancelled := False,
                   vs_renders := map (\<lambda>i. (length (vs_turns s), i)) [0..<sinks], vs_turns := vs_turns s @ [t]\<rparr>)))"

text \<open>A render returns: with no error when it is complete and not cancelled, else with one.\<close>

definition render_end :: "nat \<Rightarrow> bool \<Rightarrow> voice_session \<Rightarrow> voice_session option" where
  "render_end k whole s =
     (if k < length (vs_renders s) then
        (let ok = (whole \<and> \<not> vs_cancelled s) in
         Some (s\<lparr>vs_renders := remove_nth k (vs_renders s),
                vs_done := (vs_done s \<or> (ok \<and> snd (vs_renders s ! k) = 0))\<rparr>))
      else None)"

definition session_done :: "voice_session \<Rightarrow> voice_session option" where
  "session_done s = (if vs_done s then Some (s\<lparr>vs_done := False, vs_gate := gate_reply_done (vs_gate s)\<rparr>) else None)"

definition session_timer :: "voice_session \<Rightarrow> voice_session option" where
  "session_timer s = map_option (\<lambda>g. s\<lparr>vs_gate := g\<rparr>) (gate_timer (vs_gate s))"

inductive session_step :: "(nat \<Rightarrow> bool) \<Rightarrow> nat \<Rightarrow> voice_session \<Rightarrow> voice_session \<Rightarrow> bool" for letter sinks where
  hears: "session_step letter sinks s (session_hear letter ev s)"
| takes: "session_take s = Some s' \<Longrightarrow> session_step letter sinks s s'"
| begins: "session_next sinks s = Some s' \<Longrightarrow> session_step letter sinks s s'"
| renders: "render_end k whole s = Some s' \<Longrightarrow> session_step letter sinks s s'"
| replies: "session_done s = Some s' \<Longrightarrow> session_step letter sinks s s'"
| expires: "session_timer s = Some s' \<Longrightarrow> session_step letter sinks s s'"

inductive session_steps :: "(nat \<Rightarrow> bool) \<Rightarrow> nat \<Rightarrow> voice_session \<Rightarrow> voice_session \<Rightarrow> bool" for letter sinks where
  session_none: "session_steps letter sinks s s"
| session_more: "session_steps letter sinks a b \<Longrightarrow> session_step letter sinks b c \<Longrightarrow> session_steps letter sinks a c"

inductive_cases session_stepE: "session_step letter sinks s s'"

definition utterances :: "voice_event list \<Rightarrow> string list" where
  "utterances evs = concat (map (\<lambda>ev. case ev of Utterance t \<Rightarrow> [t] | SpeechStart \<Rightarrow> []) evs)"

definition session_inv :: "nat \<Rightarrow> voice_session \<Rightarrow> bool" where
  "session_inv sinks s \<longleftrightarrow> distinct (vs_renders s)
     \<and> (\<forall>(t, i) \<in> set (vs_renders s). Suc t = length (vs_turns s) \<and> i < sinks)
     \<and> utterances (vs_forwarded s)
        = vs_turns s @ utterances ((case vs_held s of None \<Rightarrow> [] | Some ev \<Rightarrow> [ev]) @ vs_queue s)"

lemma utterances_append [simp]: "utterances (a @ b) = utterances a @ utterances b" "utterances [] = []"
  "utterances (Utterance t # evs) = t # utterances evs" "utterances (SpeechStart # evs) = utterances evs"
  by (simp_all add: utterances_def)

lemma render_end_inv: "session_inv sinks s \<Longrightarrow> render_end k c s = Some s' \<Longrightarrow> session_inv sinks s'"
  using set_remove_nth_subset [of k "vs_renders s"] distinct_remove_nth [of "vs_renders s" k]
  by (fastforce simp: render_end_def session_inv_def Let_def split: if_splits option.splits)

lemma session_step_inv: "session_step letter sinks s s' \<Longrightarrow> session_inv sinks s \<Longrightarrow> session_inv sinks s'"
proof (induction rule: session_step.induct)
  case (hears s ev)
  then show ?case by (simp add: session_hear_def session_inv_def split: prod.split)
next
  case (takes s s')
  then obtain ev q where e: "vs_held s = None" "vs_queue s = ev # q"
      "s' = s\<lparr>vs_held := Some ev, vs_queue := q, vs_cancelled := True\<rparr>"
    by (auto simp: session_take_def split: option.splits list.splits)
  then show ?case using takes(2) by (cases ev) (simp_all add: session_inv_def)
next
  case (begins s s')
  then show ?case
    by (auto simp: session_next_def session_inv_def distinct_map inj_on_def split: option.splits voice_event.splits if_splits)
next
  case (renders k c s s')
  then show ?case using render_end_inv by blast
next
  case (replies s s')
  then show ?case by (auto simp: session_done_def session_inv_def split: if_splits)
next
  case (expires s s')
  then show ?case by (auto simp: session_timer_def session_inv_def)
qed

lemma session_steps_inv: "session_steps letter sinks s s' \<Longrightarrow> session_inv sinks s \<Longrightarrow> session_inv sinks s'"
  by (induction rule: session_steps.induct) (auto dest: session_step_inv)

text \<open>C39: one turn at a time: in every reachable state of a voice session all running renders belong to the last
  turn, at most one per sink, and every utterance the gate let through becomes exactly one turn, in the
  order they were spoken.\<close>

theorem one_voice_turn:
  assumes "session_steps letter sinks (new_session g) s"
  shows "distinct (vs_renders s) \<and> (\<forall>(t, i) \<in> set (vs_renders s). Suc t = length (vs_turns s) \<and> i < sinks)
    \<and> prefix (vs_turns s) (utterances (vs_forwarded s))
    \<and> (vs_queue s = [] \<and> vs_held s = None \<longrightarrow> vs_turns s = utterances (vs_forwarded s))"
proof -
  have "session_inv sinks s"
    by (rule session_steps_inv [OF assms]) (simp add: session_inv_def new_session_def)
  then show ?thesis by (auto simp: session_inv_def)
qed

definition woken :: voice_session where
  "woken = session_hear ascii_letter (Utterance ''Hey Maven, sing'') (new_session maven_gate)"

definition singing :: voice_session where "singing = the (session_next 1 (the (session_take woken)))"

text \<open>Barge-in by a noise: the reply is cancelled and no utterance follows.\<close>

definition barged :: voice_session where
  "barged = the (session_next 1 (the (render_end 0 False (the (session_take (session_hear ascii_letter SpeechStart singing))))))"

lemma singing_steps: "session_steps ascii_letter 1 (new_session maven_gate) singing"
proof -
  have "session_take woken \<noteq> None" "session_next 1 (the (session_take woken)) \<noteq> None" by code_simp+
  then have e: "session_take woken = Some (the (session_take woken))" "session_next 1 (the (session_take woken)) = Some singing"
    by (auto simp: singing_def)
  have w: "session_step ascii_letter 1 (new_session maven_gate) woken" unfolding woken_def by (rule hears)
  show ?thesis
    by (rule session_more [OF session_more [OF session_more [OF session_none w] takes [OF e(1)]] begins [OF e(2)]])
qed

theorem one_voice_turn_witness: "vs_renders singing = [(0, 0)] \<and> vs_turns singing = [''sing'']"
proof -
  have "vs_queue singing = [] \<and> vs_held singing = None \<and> utterances (vs_forwarded singing) = [''sing''] \<and> length (vs_renders singing) = 1"
    by code_simp
  then have q: "vs_queue singing = []" "vs_held singing = None" "utterances (vs_forwarded singing) = [''sing'']"
    "length (vs_renders singing) = 1" by simp_all
  note t = one_voice_turn [OF singing_steps]
  have turns: "vs_turns singing = [''sing'']" using t q by simp
  obtain r where "vs_renders singing = [r]" using q(4) by (cases "vs_renders singing") auto
  with t turns show ?thesis by (cases r) simp
qed

text \<open>After that barge-in the window never closes: the gate is active and its timer not armed, no render is left to
  report that it is done, and no step but a new sound changes anything.\<close>

lemma window_stays_open:
  "session_steps ascii_letter 1 (new_session maven_gate) barged"
  "wg_active (vs_gate barged) \<and> \<not> wg_armed (vs_gate barged) \<and> vs_renders barged = []"
  "session_step ascii_letter 1 barged s \<Longrightarrow> \<exists>ev. s = session_hear ascii_letter ev barged"
proof -
  let ?a = "session_hear ascii_letter SpeechStart singing"
  let ?b = "the (session_take ?a)"
  let ?c = "the (render_end 0 False ?b)"
  have n: "session_take ?a \<noteq> None" "render_end 0 False ?b \<noteq> None" "session_next 1 ?c \<noteq> None" by code_simp+
  then have e: "session_take ?a = Some ?b" "render_end 0 False ?b = Some ?c" "session_next 1 ?c = Some barged"
    by (auto simp: barged_def)
  show "session_steps ascii_letter 1 (new_session maven_gate) barged"
    by (rule session_more [OF session_more [OF session_more [OF session_more [OF singing_steps hears] takes [OF e(1)]]
            renders [OF e(2)]] begins [OF e(3)]])
  have b: "wg_active (vs_gate barged) \<and> \<not> wg_armed (vs_gate barged) \<and> vs_renders barged = []
    \<and> vs_queue barged = [] \<and> vs_held barged = None \<and> \<not> vs_done barged" by code_simp
  then show "wg_active (vs_gate barged) \<and> \<not> wg_armed (vs_gate barged) \<and> vs_renders barged = []" by simp
  assume "session_step ascii_letter 1 barged s"
  then show "\<exists>ev. s = session_hear ascii_letter ev barged"
    using b by cases (auto simp: session_take_def session_next_def render_end_def session_done_def session_timer_def gate_timer_def)
qed

end
