(* ===== verification/SessionId.thy ===== *)
theory SessionId
  imports StringUtil
begin

text \<open>
  \<open>internal/kernel/sessionid/sessionid.go\<close>: the identifiers under which conversations are kept.
  \<open>uuid.NewString\<close>, \<open>time.Now().UnixNano()\<close>, \<open>sha256.Sum256\<close> and the validity test \<open>uuid.Parse\<close>
  are arguments; everything else is the source's string work.
\<close>

subsection \<open>The identifiers\<close>

datatype kind = KindChat | KindCron | KindHeartbeat | KindIsolated | KindRotated | KindTask

record session_id =
  sid_kind :: kind
  sid_owner :: string
  sid_token :: string

definition mk_sid :: "kind \<Rightarrow> string \<Rightarrow> string \<Rightarrow> session_id" where
  "mk_sid k o' t = \<lparr>sid_kind = k, sid_owner = o', sid_token = t\<rparr>"

datatype sid_error = EmptySessionId | InvalidSessionId kind string

definition chat_session_id :: "string \<Rightarrow> string \<Rightarrow> string" where
  "chat_session_id channel0 peer0 =
     (let channel = trim_space channel0; peer = trim_space peer0 in
      if channel = [] then peer
      else let pre = channel @ ''-'' in
        if prefix pre peer then peer else pre @ peer)"

definition from_route_key :: "string \<Rightarrow> string" where
  "from_route_key routeKey0 =
     (let routeKey = trim_space routeKey0 in
      case index_of '':'' routeKey of
        Some i \<Rightarrow> (if 0 < i \<and> i < length routeKey - 1
                   then chat_session_id (take i routeKey) (drop (i + 1) routeKey)
                   else routeKey)
      | None \<Rightarrow> routeKey)"

definition hex_digit :: "nat \<Rightarrow> char" where
  "hex_digit d = (if d < 10 then chr_of (48 + d) else chr_of (87 + d))"

definition hex_bytes :: "string \<Rightarrow> string" where
  "hex_bytes bs = concat (map (\<lambda>c. [hex_digit (byte_of c div 16), hex_digit (byte_of c mod 16)]) bs)"

text \<open>\<open>New\<close>: the fresh uuid, the clock's nanoseconds and SHA-256 are its last arguments.\<close>

definition new_sid :: "kind \<Rightarrow> string \<Rightarrow> string \<Rightarrow> int \<Rightarrow> (string \<Rightarrow> string) \<Rightarrow> session_id" where
  "new_sid k seed0 uuid nanos sha =
     (let seed = trim_space seed0;
          named = (if seed = [] then ''session'' else seed) in
      case k of
        KindCron \<Rightarrow> mk_sid KindCron seed uuid
      | KindHeartbeat \<Rightarrow> mk_sid KindHeartbeat [] uuid
      | KindIsolated \<Rightarrow> mk_sid KindIsolated named (show_int nanos)
      | KindRotated \<Rightarrow>
          mk_sid KindRotated
            (if length named > 80 then ''r'' @ hex_bytes (take 8 (sha named)) else named)
            (show_int nanos)
      | KindTask \<Rightarrow> mk_sid KindTask [] uuid
      | KindChat \<Rightarrow> mk_sid KindChat seed [])"

definition sid_string :: "session_id \<Rightarrow> string" where
  "sid_string sid =
     (case sid_kind sid of
        KindCron \<Rightarrow> ''cron:'' @ sid_owner sid @ '':'' @ sid_token sid
      | KindHeartbeat \<Rightarrow> ''heartbeat:'' @ sid_token sid
      | KindTask \<Rightarrow> ''task:'' @ sid_token sid
      | KindIsolated \<Rightarrow> sid_owner sid @ '':isolated:'' @ sid_token sid
      | KindRotated \<Rightarrow> sid_owner sid @ '':rotated:'' @ sid_token sid
      | KindChat \<Rightarrow> sid_owner sid)"

text \<open>The two branches of \<open>Parse\<close> that look for a marker inside the string.\<close>

definition parse_marked :: "kind \<Rightarrow> string \<Rightarrow> string \<Rightarrow> (sid_error + session_id) option" where
  "parse_marked k marker s =
     (let (base, rest, found) = cut s marker in
      if \<not> found then None
      else if parse_int rest = None then Some (Inl (InvalidSessionId k s))
      else Some (Inr (mk_sid k base rest)))"

definition parse_sid :: "(string \<Rightarrow> bool) \<Rightarrow> string \<Rightarrow> sid_error + session_id" where
  "parse_sid uuid_ok s0 =
     (let s = trim_space s0 in
      if s = [] then Inl EmptySessionId
      else if prefix ''cron:'' s then
        (let (jobID, token, ok) = cut (trim_prefix s ''cron:'') '':'' in
         if \<not> ok \<or> jobID = [] then Inl (InvalidSessionId KindCron s)
         else if \<not> uuid_ok token then Inl (InvalidSessionId KindCron s)
         else Inr (mk_sid KindCron jobID token))
      else if prefix ''heartbeat:'' s then
        (let token = trim_prefix s ''heartbeat:'' in
         if \<not> uuid_ok token then Inl (InvalidSessionId KindHeartbeat s)
         else Inr (mk_sid KindHeartbeat [] token))
      else if prefix ''task:'' s then
        (let token = trim_prefix s ''task:'' in
         if \<not> uuid_ok token then Inl (InvalidSessionId KindTask s)
         else Inr (mk_sid KindTask [] token))
      else case parse_marked KindIsolated '':isolated:'' s of
          Some r \<Rightarrow> r
        | None \<Rightarrow> (case parse_marked KindRotated '':rotated:'' s of
              Some r \<Rightarrow> r
            | None \<Rightarrow> Inr (mk_sid KindChat s [])))"

definition matches_task :: "(string \<Rightarrow> bool) \<Rightarrow> string \<Rightarrow> bool" where
  "matches_task uuid_ok s =
     (case parse_sid uuid_ok s of Inl _ \<Rightarrow> False | Inr sid \<Rightarrow> sid_kind sid = KindTask)"

subsection \<open>First occurrences and trimming\<close>

lemma index_of_append:
  assumes "\<not> contains (u @ butlast sub) sub" and "sub \<noteq> []"
  shows "index_of sub (u @ sub @ t) = Some (length u)"
proof -
  obtain i where i: "index_of sub (u @ sub @ t) = Some i"
    using index_of_None [of sub "u @ sub @ t"] by blast
  have "i \<le> length u" using index_of_first [OF i, of "length u"] by (force simp: not_le [symmetric])
  moreover have "\<not> i < length u"
  proof
    assume lt: "i < length u"
    let ?z = "drop i (u @ butlast sub)"
    have "prefix sub (drop i (u @ sub @ t))" using index_of_Some [OF i] by simp
    moreover have "drop i (u @ sub @ t) = ?z @ last sub # t"
      using lt assms(2) append_butlast_last_id [of sub] by (simp flip: append_assoc) simp
    moreover have "length sub \<le> length ?z" using lt assms(2) by simp
    ultimately have "prefix sub ?z" by (metis prefix_length_prefix prefixI)
    then have "\<exists>x y. u @ butlast sub = x @ sub @ y"
      by (metis append_take_drop_id prefixE)
    then show False using assms(1) by (metis contains_def index_of_None)
  qed
  ultimately show ?thesis using i by simp
qed

lemma cut_append:
  "\<not> contains (u @ butlast sub) sub \<Longrightarrow> sub \<noteq> [] \<Longrightarrow> cut (u @ sub @ t) sub = (u, t, True)"
  by (simp add: cut_def index_of_append)

lemma cut_none: "\<not> contains s sub \<Longrightarrow> cut s sub = (s, [], False)"
  by (simp add: cut_def contains_def)

lemma not_contains_char: "hd sub \<notin> set s \<Longrightarrow> sub \<noteq> [] \<Longrightarrow> \<not> contains s sub"
  by (auto simp: contains_def index_of_None)

lemma space_seqs_invisible: "p \<in> set space_seqs \<Longrightarrow> c \<in> set p \<Longrightarrow> \<not> visible c"
proof -
  have "list_all (\<lambda>p. list_all (\<lambda>c. \<not> visible c) p) space_seqs"
    by (simp add: space_seqs_def space_points_def encode_rune_def valid_rune_def visible_def)
  then show "p \<in> set space_seqs \<Longrightarrow> c \<in> set p \<Longrightarrow> \<not> visible c" by (auto simp: list_all_iff)
qed

lemma strip_free_append:
  assumes "strip_free ps s" and "\<And>p c. p \<in> set ps \<Longrightarrow> c \<in> set p \<Longrightarrow> \<not> visible c"
    and "visible v"
  shows "strip_free ps (s @ v # u)"
  unfolding strip_free_def
proof (intro ballI impI notI)
  fix p assume p: "p \<in> set ps" "p \<noteq> []" "prefix p (s @ v # u)"
  then have "prefix p s \<or> v \<in> set p" by (auto simp: prefix_append prefix_Cons)
  then show False using assms p by (auto simp: strip_free_def)
qed

lemma trimmed_join:
  assumes "trimmed a" and "trimmed b" and "visible v"
  shows "trimmed (a @ v # b)"
proof -
  have "strip_free space_seqs (a @ v # b)"
    using assms space_seqs_invisible by (auto simp: trimmed_def intro: strip_free_append)
  moreover have "strip_free (map rev space_seqs) (rev b @ v # rev a)"
    using assms space_seqs_invisible by (intro strip_free_append) (auto simp: trimmed_def)
  ultimately show ?thesis by (simp add: trimmed_def)
qed

lemma visible_marker [simp]:
  "visible CHR '':''" "visible CHR ''-''" "visible CHR ''c''" "visible CHR ''h''" "visible CHR ''t''"
  "visible CHR ''i''" "visible CHR ''r''"
  by (simp_all add: visible_def byte_of_def)

lemma digits_val_digits: "digits_val a ds = Some n \<Longrightarrow> c \<in> set ds \<Longrightarrow> is_digit c"
  by (induction ds arbitrary: a) (auto split: if_splits)

lemma digits_val_last: "digits_val a ds = Some n \<Longrightarrow> ds \<noteq> [] \<Longrightarrow> visible (last ds)"
  using digits_val_digits [of a ds n "last ds"] by (simp add: is_digit_visible)

lemma parse_int_chars:
  assumes "parse_int t = Some n"
  shows "t \<noteq> [] \<and> visible (last t) \<and> (\<forall>c \<in> set t. is_digit c \<or> c = CHR ''-'' \<or> c = CHR ''+'')"
proof (cases t)
  case Nil
  with assms show ?thesis by (simp add: parse_int_def)
next
  case (Cons c cs)
  let ?ds = "if c = CHR ''-'' \<or> c = CHR ''+'' then cs else t"
  have d: "?ds \<noteq> []" and "digits_val 0 ?ds \<noteq> None"
    using assms Cons by (auto simp: parse_int_def Let_def split: if_splits option.splits)
  then obtain k where k: "digits_val 0 ?ds = Some k" by blast
  have "last t = last ?ds" using d Cons by auto
  with digits_val_last [OF k d] digits_val_digits [OF k] Cons show ?thesis
    by (auto split: if_splits)
qed

subsection \<open>Round trip\<close>

definition kind_prefixed :: "string \<Rightarrow> bool" where
  "kind_prefixed s \<longleftrightarrow> prefix ''cron:'' s \<or> prefix ''heartbeat:'' s \<or> prefix ''task:'' s"

text \<open>The identifiers that survive \<open>Parse (String id)\<close>: the owner has no marker of its own.\<close>

definition fresh_token :: "(string \<Rightarrow> bool) \<Rightarrow> string \<Rightarrow> bool" where
  "fresh_token uuid_ok token \<longleftrightarrow> uuid_ok token \<and> token \<noteq> [] \<and> visible (last token)"

definition sid_wf :: "(string \<Rightarrow> bool) \<Rightarrow> session_id \<Rightarrow> bool" where
  "sid_wf uuid_ok sid =
     (case sid_kind sid of
        KindCron \<Rightarrow> sid_owner sid \<noteq> [] \<and> CHR '':'' \<notin> set (sid_owner sid) \<and> fresh_token uuid_ok (sid_token sid)
      | KindHeartbeat \<Rightarrow> sid_owner sid = [] \<and> fresh_token uuid_ok (sid_token sid)
      | KindTask \<Rightarrow> sid_owner sid = [] \<and> fresh_token uuid_ok (sid_token sid)
      | KindIsolated \<Rightarrow> trimmed (sid_owner sid) \<and> \<not> kind_prefixed (sid_string sid)
          \<and> parse_int (sid_token sid) \<noteq> None
          \<and> \<not> contains (sid_owner sid @ '':isolated'') '':isolated:''
      | KindRotated \<Rightarrow> trimmed (sid_owner sid) \<and> \<not> kind_prefixed (sid_string sid)
          \<and> parse_int (sid_token sid) \<noteq> None
          \<and> \<not> contains (sid_string sid) '':isolated:''
          \<and> \<not> contains (sid_owner sid @ '':rotated'') '':rotated:''
      | KindChat \<Rightarrow> sid_owner sid \<noteq> [] \<and> trimmed (sid_owner sid) \<and> sid_token sid = []
          \<and> \<not> kind_prefixed (sid_string sid)
          \<and> \<not> contains (sid_string sid) '':isolated:'' \<and> \<not> contains (sid_string sid) '':rotated:'')"

lemma sid_wf_trimmed: "sid_wf uuid_ok sid \<Longrightarrow> sid_string sid \<noteq> [] \<and> trim_space (sid_string sid) = sid_string sid"
proof -
  assume wf: "sid_wf uuid_ok sid"
  have marked: "trimmed (sid_owner sid @ CHR '':'' # u @ sid_token sid)"
    if "trimmed (sid_owner sid)" "parse_int (sid_token sid) \<noteq> None" "u \<noteq> []" "visible (hd u)" for u
    using that parse_int_chars [of "sid_token sid"]
    by (intro trimmed_join) (auto intro!: trimmed_visible)
  show ?thesis
  proof (cases "sid_kind sid")
    case KindIsolated
    with wf marked [of "''isolated:''"] show ?thesis
      by (auto simp: sid_wf_def sid_string_def trim_space_trimmed)
  next
    case KindRotated
    with wf marked [of "''rotated:''"] show ?thesis
      by (auto simp: sid_wf_def sid_string_def trim_space_trimmed)
  next
    case KindChat
    with wf show ?thesis by (auto simp: sid_wf_def sid_string_def trim_space_trimmed)
  qed (use wf in \<open>auto simp: sid_wf_def sid_string_def fresh_token_def intro!: trim_space_visible\<close>)
qed

lemma trim_prefix_append [simp]: "trim_prefix (p @ s) p = s"
  by (simp add: trim_prefix_def)

lemma parse_marked_append: "\<not> contains (u @ butlast m) m \<Longrightarrow> m \<noteq> [] \<Longrightarrow>
    parse_marked k m (u @ m @ t) =
      Some (if parse_int t = None then Inl (InvalidSessionId k (u @ m @ t)) else Inr (mk_sid k u t))"
  by (simp add: parse_marked_def cut_append)

lemma parse_marked_none: "\<not> contains s m \<Longrightarrow> parse_marked k m s = None"
  by (simp add: parse_marked_def cut_none)

lemma mk_sid_eta [simp]: "mk_sid (sid_kind sid) (sid_owner sid) (sid_token sid) = sid"
  by (simp add: mk_sid_def)

lemma parse_sid_unprefixed:
  assumes "trim_space s = s" and "s \<noteq> []" and "\<not> kind_prefixed s"
  shows "parse_sid uuid_ok s =
    (case parse_marked KindIsolated '':isolated:'' s of Some r \<Rightarrow> r
     | None \<Rightarrow> (case parse_marked KindRotated '':rotated:'' s of Some r \<Rightarrow> r
        | None \<Rightarrow> Inr (mk_sid KindChat s [])))"
  using assms by (simp add: parse_sid_def kind_prefixed_def)

text \<open>C27: every well-formed identifier - a cron, heartbeat or task id with a fresh uuid, an isolated,
  rotated or chat id whose owner carries no marker - is read back by \<open>Parse\<close> from its string.\<close>

theorem parse_sid_string:
  assumes "sid_wf uuid_ok sid"
  shows "parse_sid uuid_ok (sid_string sid) = Inr sid"
proof -
  note t = sid_wf_trimmed [OF assms]
  note e = mk_sid_eta [of sid]
  show ?thesis
  proof (cases "sid_kind sid")
    case KindIsolated
    with assms t e show ?thesis
      using parse_marked_append [of "sid_owner sid" "'':isolated:''" KindIsolated "sid_token sid"]
      by (auto simp: sid_wf_def parse_sid_unprefixed sid_string_def)
  next
    case KindRotated
    with assms t e show ?thesis
      using parse_marked_append [of "sid_owner sid" "'':rotated:''" KindRotated "sid_token sid"]
      by (auto simp: sid_wf_def parse_sid_unprefixed parse_marked_none sid_string_def)
  next
    case KindChat
    with assms t e show ?thesis
      by (auto simp: sid_wf_def parse_sid_unprefixed parse_marked_none sid_string_def)
  next
    case KindCron
    with assms have "\<not> contains (sid_owner sid @ butlast '':'') '':''"
      by (auto simp: sid_wf_def fresh_token_def not_contains_char)
    with KindCron assms t e show ?thesis
      using cut_append [of "sid_owner sid" "'':''" "sid_token sid"]
      by (auto simp: sid_wf_def fresh_token_def parse_sid_def sid_string_def trim_prefix_def)
  qed (use assms t e in \<open>auto simp: sid_wf_def fresh_token_def parse_sid_def sid_string_def trim_prefix_def\<close>)
qed

theorem parse_sid_string_witness:
  "parse_sid (\<lambda>t. length t = 4) (sid_string (mk_sid KindCron ''job1'' ''ab12''))
     = Inr (mk_sid KindCron ''job1'' ''ab12'')
   \<and> parse_sid (\<lambda>t. length t = 4) ''telegram-7:isolated:42'' = Inr (mk_sid KindIsolated ''telegram-7'' ''42'')"
proof -
  have "sid_wf (\<lambda>t. length t = 4) (mk_sid KindCron ''job1'' ''ab12'')" by code_simp
  moreover have "sid_wf (\<lambda>t. length t = 4) (mk_sid KindIsolated ''telegram-7'' ''42'')" by code_simp
  moreover have "sid_string (mk_sid KindIsolated ''telegram-7'' ''42'') = ''telegram-7:isolated:42''"
    by code_simp
  ultimately show ?thesis
    using parse_sid_string [of "\<lambda>t. length t = 4" "mk_sid KindCron ''job1'' ''ab12''"]
      parse_sid_string [of "\<lambda>t. length t = 4" "mk_sid KindIsolated ''telegram-7'' ''42''"]
    by simp
qed

subsection \<open>Chat ids\<close>

lemma chat_session_id_trimmed [simp]: "trim_space (chat_session_id c p) = chat_session_id c p"
  using trimmed_join [of "trim_space c" "trim_space p" "CHR ''-''"]
  by (simp add: chat_session_id_def Let_def trim_space_trimmed)

lemma chat_session_id_prefix: "trim_space c \<noteq> [] \<Longrightarrow> prefix (trim_space c @ ''-'') (chat_session_id c p)"
  by (simp add: chat_session_id_def Let_def)

lemma chat_session_id_empty: "trim_space c = [] \<Longrightarrow> chat_session_id c p = trim_space p"
  by (simp add: chat_session_id_def)

text \<open>Building the chat id of a channel is idempotent - a peer that already carries its
  channel's prefix keeps its id - and the id of the route key \<open>channel:peer\<close> is the chat id of its two
  halves, when the channel has no colon.\<close>

theorem chat_session_id_stable:
  "chat_session_id c (chat_session_id c p) = chat_session_id c p
   \<and> (trim_space c = c \<and> c \<noteq> [] \<and> CHR '':'' \<notin> set c \<and> trim_space p = p \<and> p \<noteq> []
      \<longrightarrow> from_route_key (c @ '':'' @ p) = chat_session_id c p)"
proof -
  have "chat_session_id c (chat_session_id c p) = chat_session_id c p"
    using chat_session_id_prefix [of c p] by (subst chat_session_id_def) (simp add: chat_session_id_empty Let_def)
  moreover have "from_route_key (c @ '':'' @ p) = chat_session_id c p"
    if "trim_space c = c" "c \<noteq> []" "CHR '':'' \<notin> set c" "trim_space p = p" "p \<noteq> []"
  proof -
    have "trimmed (c @ '':'' @ p)" using trimmed_join [of c p] that by (simp add: trimmed_iff)
    moreover have "index_of '':'' (c @ '':'' @ p) = Some (length c)"
      using that by (intro index_of_append) (auto simp: not_contains_char)
    ultimately show ?thesis using that by (simp add: from_route_key_def trim_space_trimmed)
  qed
  ultimately show ?thesis by blast
qed

theorem chat_session_id_stable_witness:
  "from_route_key ''telegram:12'' = chat_session_id ''telegram'' ''12''
   \<and> chat_session_id ''telegram'' ''12'' = ''telegram-12''"
proof -
  have "trim_space ''telegram'' = ''telegram''" "trim_space ''12'' = ''12''"
    "chat_session_id ''telegram'' ''12'' = ''telegram-12''"
    by code_simp+
  then show ?thesis using chat_session_id_stable [of "''telegram''" "''12''"] by simp
qed

subsection \<open>Rotating twice\<close>

text \<open>The id of a session rotated twice is not readable: \<open>New\<close> keeps the old id, marker and all,
  as the owner of the new one, and \<open>Parse\<close> cuts at the first marker and rejects the rest.\<close>

theorem rotate_twice_unparsable:
  assumes "s1 = sid_string (new_sid KindRotated s0 u1 n1 sha)"
    and "s2 = sid_string (new_sid KindRotated s1 u2 n2 sha)"
    and "trimmed s0" and "s0 \<noteq> []" and "length s0 \<le> 80" and "length s1 \<le> 80" and "\<not> kind_prefixed s2"
    and "\<not> contains s2 '':isolated:''" and "\<not> contains (s0 @ '':rotated'') '':rotated:''"
  shows "parse_sid uuid_ok s2 = Inl (InvalidSessionId KindRotated s2)"
proof -
  have num: "visible (last (show_int n))" for n
    using show_int_visible [of "last (show_int n)" n] by simp
  have tr: "trimmed (s @ '':rotated:'' @ show_int n)" if "trimmed s" for s n
    using trimmed_join [OF that, of "''rotated:'' @ show_int n" "CHR '':''"] num
    by (simp add: trimmed_visible)
  have e1: "s1 = s0 @ '':rotated:'' @ show_int n1"
    using assms(1,3-5) by (auto simp: new_sid_def sid_string_def mk_sid_def trim_space_trimmed Let_def split: if_splits)
  have t1: "trimmed s1" using tr [OF assms(3), of n1] e1 by simp
  have e2: "s2 = s1 @ '':rotated:'' @ show_int n2"
    using assms(2,6) t1 e1 by (simp add: new_sid_def sid_string_def mk_sid_def trim_space_trimmed Let_def)
  have t2: "trim_space s2 = s2" "s2 \<noteq> []" using tr [OF t1, of n2] e1 e2 by (simp_all add: trim_space_trimmed)
  let ?rest = "show_int n1 @ '':rotated:'' @ show_int n2"
  have "parse_int ?rest = None"
  proof (rule ccontr)
    assume "parse_int ?rest \<noteq> None"
    then obtain k where "parse_int ?rest = Some k" by blast
    from parse_int_chars [OF this] have "is_digit CHR '':''" by auto
    then show False by (simp add: is_digit_def byte_of_def)
  qed
  then show ?thesis
    using parse_sid_unprefixed [OF t2 assms(7)] parse_marked_none [OF assms(8)]
      parse_marked_append [of s0 "'':rotated:''" KindRotated ?rest] assms(9) e1 e2
    by simp
qed

theorem rotate_twice_unparsable_witness:
  "parse_sid (\<lambda>t. False)
     (sid_string (new_sid KindRotated (sid_string (new_sid KindRotated ''web-1'' [] 5 id)) [] 9 id))
   = Inl (InvalidSessionId KindRotated ''web-1:rotated:5:rotated:9'')"
proof -
  let ?s1 = "sid_string (new_sid KindRotated ''web-1'' [] 5 id)"
  let ?s2 = "sid_string (new_sid KindRotated ?s1 [] 9 id)"
  have e: "?s2 = ''web-1:rotated:5:rotated:9''" by code_simp
  have "trimmed ''web-1''" "length ''web-1'' \<le> 80" "length ?s1 \<le> 80" "\<not> kind_prefixed ?s2" "\<not> contains ?s2 '':isolated:''"
    "\<not> contains (''web-1'' @ '':rotated'') '':rotated:''"
    by code_simp+
  then show ?thesis
    using rotate_twice_unparsable [of ?s1 "''web-1''" "[]" 5 id ?s2 "[]" 9 "\<lambda>t. False"] e by simp
qed

end
