(* ===== verification/SessionRouter.thy ===== *)
theory SessionRouter
  imports SessionId "HOL-Library.AList"
begin

text \<open>
  \<open>internal/kernel/session\<close>: the router that overrides a route's session (\<open>router.go\<close>), the session
  mode (\<open>mode.go\<close>), the resolver the pipeline calls (\<open>resolver.go\<close>) and the JSONL history store with
  its wrapper that keeps isolated sessions off the disk (\<open>jsonl.go\<close>, \<open>no_isolated_store.go\<close>). The
  router's file is modelled by the map it encodes; what the file system answers is an argument.
\<close>

subsection \<open>Modes\<close>

datatype session_mode = SessionModeCurrent | SessionModeIsolated | SessionModeOther nat

definition session_mode_string :: "session_mode \<Rightarrow> string" where
  "session_mode_string m = (case m of
       SessionModeCurrent \<Rightarrow> ''current''
     | SessionModeIsolated \<Rightarrow> ''isolated''
     | SessionModeOther n \<Rightarrow> ''SessionMode('' @ show_nat n @ '')'')"

definition session_mode_parse :: "string \<Rightarrow> string + session_mode" where
  "session_mode_parse text =
     (let t = to_lower (trim_space text) in
      if t = [] \<or> t = ''current'' then Inr SessionModeCurrent
      else if t = ''isolated'' then Inr SessionModeIsolated
      else Inl text)"

subsection \<open>The router\<close>

text \<open>What reading the router's file finds, and what writing it does.\<close>

datatype router_file =
    FileAbsent
  | FileUnreadable
  | FileEmpty
  | FileMalformed
  | FileSessions "(string \<times> string) list"

datatype disk_io = IoOk | IoMkdirErr | IoWriteErr router_file

datatype router_error =
    ReadRouterErr | DecodeRouterErr | SessionKeyEmpty | MkdirRouterErr | WriteRouterErr

record router =
  r_path :: string
  r_sessions :: "(string \<times> string) list"

text \<open>The \<open>map[string]string\<close> as an association list without duplicate keys.\<close>

definition map_get :: "string \<Rightarrow> (string \<times> string) list \<Rightarrow> string" where
  "map_get k m = (case map_of m k of None \<Rightarrow> [] | Some v \<Rightarrow> v)"

definition map_put :: "'k \<Rightarrow> 'v \<Rightarrow> ('k \<times> 'v) list \<Rightarrow> ('k \<times> 'v) list" where
  "map_put k v m = AList.update k v m"

definition map_del :: "'k \<Rightarrow> ('k \<times> 'v) list \<Rightarrow> ('k \<times> 'v) list" where
  "map_del k m = AList.delete k m"

definition new_router :: "string \<Rightarrow> router_file \<Rightarrow> router_error + router" where
  "new_router path0 file =
     (let path = trim_space path0; r = \<lparr>r_path = path, r_sessions = []\<rparr> in
      if path = [] then Inr r
      else case file of
          FileAbsent \<Rightarrow> Inr r
        | FileUnreadable \<Rightarrow> Inl ReadRouterErr
        | FileEmpty \<Rightarrow> Inr r
        | FileMalformed \<Rightarrow> Inl DecodeRouterErr
        | FileSessions m \<Rightarrow> Inr (r\<lparr>r_sessions := m\<rparr>))"

definition resolve :: "router \<Rightarrow> string \<Rightarrow> string \<Rightarrow> string" where
  "resolve r key0 fallback0 =
     (let key = trim_space key0; fallback = trim_space fallback0;
          sessionID = trim_space (map_get key (r_sessions r)) in
      if sessionID \<noteq> [] then sessionID
      else if fallback \<noteq> [] then fallback
      else from_route_key key)"

definition current :: "router \<Rightarrow> string \<Rightarrow> string" where
  "current r key = resolve r key (from_route_key key)"

definition persist :: "router \<Rightarrow> router_file \<Rightarrow> disk_io \<Rightarrow> router_file \<times> router_error option" where
  "persist r file io =
     (if r_path r = [] then (file, None)
      else case io of
          IoMkdirErr \<Rightarrow> (file, Some MkdirRouterErr)
        | IoWriteErr left \<Rightarrow> (left, Some WriteRouterErr)
        | IoOk \<Rightarrow> (FileSessions (r_sessions r), None))"

definition rotate ::
  "router \<Rightarrow> router_file \<Rightarrow> string \<Rightarrow> int \<Rightarrow> (string \<Rightarrow> string) \<Rightarrow> disk_io
    \<Rightarrow> router \<times> router_file \<times> (router_error + string \<times> string)" where
  "rotate r file key0 nanos sha io =
     (let key = trim_space key0 in
      if key = [] then (r, file, Inl SessionKeyEmpty)
      else
        let defaultID = from_route_key key;
            stored = trim_space (map_get key (r_sessions r));
            old = (if stored = [] then defaultID else stored);
            new = sid_string (new_sid KindRotated old [] nanos sha);
            r' = r\<lparr>r_sessions := map_put key new (r_sessions r)\<rparr>;
            (file', err) = persist r' file io in
        case err of
            Some e \<Rightarrow> (r', file', Inl e)
          | None \<Rightarrow> (r', file', Inr (old, new)))"

definition set_session ::
  "router \<Rightarrow> router_file \<Rightarrow> string \<Rightarrow> string \<Rightarrow> disk_io \<Rightarrow> router \<times> router_file \<times> router_error option" where
  "set_session r file key0 sessionID0 io =
     (let key = trim_space key0; sessionID = trim_space sessionID0 in
      if key = [] then (r, file, None)
      else
        let r' = (if sessionID = [] \<or> sessionID = from_route_key key
                  then r\<lparr>r_sessions := map_del key (r_sessions r)\<rparr>
                  else r\<lparr>r_sessions := map_put key sessionID (r_sessions r)\<rparr>);
            (file', err) = persist r' file io in
        (r', file', err))"

definition reset_session ::
  "router \<Rightarrow> router_file \<Rightarrow> string \<Rightarrow> disk_io \<Rightarrow> router \<times> router_file \<times> router_error option" where
  "reset_session r file key0 io =
     (let key = trim_space key0 in
      if key = [] then (r, file, None)
      else
        let r' = r\<lparr>r_sessions := map_del key (r_sessions r)\<rparr>;
            (file', err) = persist r' file io in
        (r', file', err))"

subsection \<open>The resolver\<close>

text \<open>\<open>None\<close> is a nil resolver or a nil router.\<close>

definition resolve_sdk_session_id ::
  "router option \<Rightarrow> string \<Rightarrow> string \<Rightarrow> string \<Rightarrow> session_mode \<Rightarrow> int \<Rightarrow> string" where
  "resolve_sdk_session_id router channel chatID routeKey mode nanos =
     (let base = chat_session_id channel chatID in
      if mode = SessionModeIsolated then sid_string (new_sid KindIsolated base [] nanos id)
      else case router of
          None \<Rightarrow> base
        | Some r \<Rightarrow> resolve r routeKey base)"

subsection \<open>The history store\<close>

datatype store_error = SessionOpenErr | ScanTooLong | SessionCreateErr | SessionWriteErr

definition safe_char :: "char \<Rightarrow> char" where
  "safe_char c = (if c = CHR ''/'' \<or> c = CHR 0x5C \<or> c = CHR '':'' then CHR ''_'' else c)"

fun safe_name :: "string \<Rightarrow> string" where
  "safe_name [] = []"
| "safe_name [c] = [safe_char c]"
| "safe_name (c # d # s) =
     (if c = CHR ''.'' \<and> d = CHR ''.'' then CHR ''_'' # safe_name s
      else safe_char c # safe_name (d # s))"

text \<open>The file of a session inside the store's directory.\<close>

definition store_path :: "string \<Rightarrow> string" where "store_path sessionID = safe_name sessionID @ ''.jsonl''"

definition scan_limit :: nat where "scan_limit = 1048576"

definition drop_cr :: "string \<Rightarrow> string" where
  "drop_cr l = (if l \<noteq> [] \<and> last l = CHR 0x0D then butlast l else l)"

text \<open>\<open>bufio.Scanner\<close> with \<open>ScanLines\<close> and a buffer of \<open>scan_limit\<close> bytes: the lines, and whether a
  line was too long.\<close>

function scan_lines :: "nat \<Rightarrow> string \<Rightarrow> string list \<times> bool" where
  "scan_lines limit s =
     (if s = [] then ([], False)
      else case index_of [newline] s of
          Some i \<Rightarrow>
            (if limit \<le> i then ([], True)
             else let (ls, e) = scan_lines limit (drop (i + 1) s) in (drop_cr (take i s) # ls, e))
        | None \<Rightarrow> (if limit \<le> length s then ([], True) else ([drop_cr s], False)))"
  by pat_completeness auto
termination
  by (relation "measure (\<lambda>(l, s). length s)") auto

declare scan_lines.simps [simp del]

fun decode_lines :: "(string \<Rightarrow> 'm option) \<Rightarrow> string list \<Rightarrow> 'm list" where
  "decode_lines dec [] = []"
| "decode_lines dec (l # ls) =
     (let line = trim_space l in
      if line = [] then decode_lines dec ls
      else case dec line of
          None \<Rightarrow> decode_lines dec ls
        | Some m \<Rightarrow> m # decode_lines dec ls)"

type_synonym store = "string \<rightharpoonup> string"

definition load_session ::
  "(string \<Rightarrow> 'm option) \<Rightarrow> store \<Rightarrow> bool \<Rightarrow> string \<Rightarrow> 'm list \<times> store_error option" where
  "load_session dec files openFails sessionID0 =
     (let sessionID = trim_space sessionID0 in
      if sessionID = [] then ([], None)
      else case files (store_path sessionID) of
          None \<Rightarrow> ([], None)
        | Some content \<Rightarrow>
            (if openFails then ([], Some SessionOpenErr)
             else let (ls, tooLong) = scan_lines scan_limit content in
               (decode_lines dec ls, if tooLong then Some ScanTooLong else None)))"

fun encode_lines :: "('m \<Rightarrow> string option) \<Rightarrow> 'm list \<Rightarrow> string" where
  "encode_lines enc [] = []"
| "encode_lines enc (m # ms) =
     (case enc m of None \<Rightarrow> encode_lines enc ms
      | Some b \<Rightarrow> b @ newline # encode_lines enc ms)"

text \<open>\<open>SaveWriteErr n\<close>: the write fails after \<open>n\<close> bytes have reached the truncated file.\<close>

datatype save_io = SaveOk | SaveCreateErr | SaveWriteErr nat

definition save_session ::
  "('m \<Rightarrow> string option) \<Rightarrow> store \<Rightarrow> save_io \<Rightarrow> string \<Rightarrow> 'm list \<Rightarrow> store \<times> store_error option" where
  "save_session enc files io sessionID0 msgs =
     (let sessionID = trim_space sessionID0 in
      if sessionID = [] \<or> msgs = [] then (files, None)
      else
        let path = store_path sessionID; content = encode_lines enc msgs in
        case io of
            SaveCreateErr \<Rightarrow> (files, Some SessionCreateErr)
          | SaveWriteErr n \<Rightarrow> (files(path \<mapsto> take n content), Some SessionWriteErr)
          | SaveOk \<Rightarrow> (files(path \<mapsto> content), None))"

definition is_isolated :: "(string \<Rightarrow> bool) \<Rightarrow> string \<Rightarrow> bool" where
  "is_isolated uuid_ok sid =
     (case parse_sid uuid_ok sid of Inl _ \<Rightarrow> False | Inr s \<Rightarrow> sid_kind s = KindIsolated)"

definition noiso_load ::
  "(string \<Rightarrow> bool) \<Rightarrow> (string \<Rightarrow> 'm option) \<Rightarrow> store \<Rightarrow> bool \<Rightarrow> string \<Rightarrow> 'm list \<times> store_error option" where
  "noiso_load uuid_ok dec files openFails sid =
     (if is_isolated uuid_ok sid then ([], None) else load_session dec files openFails sid)"

definition noiso_save ::
  "(string \<Rightarrow> bool) \<Rightarrow> ('m \<Rightarrow> string option) \<Rightarrow> store \<Rightarrow> save_io \<Rightarrow> string \<Rightarrow> 'm list
    \<Rightarrow> store \<times> store_error option" where
  "noiso_save uuid_ok enc files io sid msgs =
     (if is_isolated uuid_ok sid then (files, None) else save_session enc files io sid msgs)"

subsection \<open>Facts about the router\<close>

lemma map_get_put: "map_get k (map_put k' v m) = (if k = k' then v else map_get k m)"
  by (simp add: map_get_def map_put_def AList.update_conv')

lemma map_get_del: "map_get k (map_del k' m) = (if k = k' then [] else map_get k m)"
  by (simp add: map_get_def map_del_def AList.delete_conv')

lemmas map_get_simps [simp] = map_get_put map_get_del

lemma from_route_key_trimmed [simp]: "trim_space (from_route_key k) = from_route_key k"
  by (simp add: from_route_key_def Let_def split: option.splits)

lemma from_route_key_trim [simp]: "from_route_key (trim_space k) = from_route_key k"
  by (simp add: from_route_key_def)

lemma trimmed_marked_number:
  assumes "trimmed u" and "visible v" and "m \<noteq> []" and "visible (hd m)"
  shows "trimmed (u @ v # m @ show_int n)"
  using assms show_int_visible [of "last (show_int n)" n]
  by (intro trimmed_join) (auto intro!: trimmed_visible)

lemma hex_digit_visible: "d < 16 \<Longrightarrow> visible (hex_digit d)"
  by (simp add: hex_digit_def visible_def)

lemma hex_bytes_visible: "c \<in> set (hex_bytes s) \<Longrightarrow> visible c"
  by (auto simp: hex_bytes_def byte_of_def less_mult_imp_div_less intro!: hex_digit_visible)

lemma rotated_string:
  "\<exists>u. trimmed u \<and> sid_string (new_sid KindRotated s t n sha) = u @ '':rotated:'' @ show_int n"
proof -
  have "trimmed (CHR ''r'' # hex_bytes t)" for t
    using hex_bytes_visible [of "last (hex_bytes t)" t] by (intro trimmed_visible) auto
  moreover have "trimmed ''session''" by code_simp
  ultimately show ?thesis by (simp add: new_sid_def sid_string_def mk_sid_def Let_def)
qed

lemma rotated_trimmed [simp]:
  "trim_space (sid_string (new_sid KindRotated s t n sha)) = sid_string (new_sid KindRotated s t n sha)"
proof -
  obtain u where "trimmed u" "sid_string (new_sid KindRotated s t n sha) = u @ '':rotated:'' @ show_int n"
    using rotated_string by blast
  then show ?thesis
    using trimmed_marked_number [of u "CHR '':''" "''rotated:''" n] by (simp add: trim_space_trimmed)
qed

lemma rotated_nonempty [simp]: "sid_string (new_sid KindRotated s u n sha) \<noteq> []"
  by (simp add: new_sid_def sid_string_def mk_sid_def Let_def)

lemma rotate_ok:
  assumes "rotate r file key nanos sha io = (r', file', Inr (old, new))"
  shows "r' = r\<lparr>r_sessions := map_put (trim_space key) new (r_sessions r)\<rparr>"
    and "trim_space new = new" and "new \<noteq> []" and "old = current r key"
    and "r_path r \<noteq> [] \<Longrightarrow> file' = FileSessions (r_sessions r')" and "trim_space key \<noteq> []"
  using assms rotated_trimmed
  by (auto simp: rotate_def Let_def persist_def current_def resolve_def
      split: if_splits disk_io.splits option.splits prod.splits)

lemma rotate_sessions:
  "r_sessions (fst (rotate r file key nanos sha io)) = r_sessions r \<or>
   (\<exists>v. r_sessions (fst (rotate r file key nanos sha io)) = map_put (trim_space key) v (r_sessions r))"
  by (auto simp: rotate_def Let_def split: option.splits prod.splits)

lemma resolve_other:
  "trim_space k \<noteq> trim_space key \<Longrightarrow> resolve (fst (rotate r file key nanos sha io)) k fb = resolve r k fb"
  by (rule disjE [OF rotate_sessions [of r "file" key nanos sha io]]) (auto simp: resolve_def)

subsection \<open>The contract of a route override\<close>

text \<open>What a client of the router relies on: a successful rotation decides every later lookup of its
  key and reports the session it replaced; no rotation, failed ones included, touches another key.\<close>

locale route_override =
  fixes look :: "'r \<Rightarrow> string \<Rightarrow> string \<Rightarrow> string"
    and rot :: "'r \<Rightarrow> string \<Rightarrow> 'e \<Rightarrow> 'r \<times> ('err + string \<times> string)"
  assumes look_rot: "rot r k e = (r', Inr (old, new)) \<Longrightarrow> look r' k fb = new"
    and look_rot_other: "trim_space k' \<noteq> trim_space k \<Longrightarrow> look (fst (rot r k e)) k' fb = look r k' fb"
begin

primrec run :: "'r \<Rightarrow> (string \<times> 'e) list \<Rightarrow> 'r" where
  "run r [] = r"
| "run r (op # ops) = run (fst (rot r (fst op) (snd op))) ops"

lemma run_append: "run r (xs @ ys) = run (run r xs) ys"
  by (induction xs arbitrary: r) auto

lemma run_frame: "\<forall>op \<in> set ops. trim_space (fst op) \<noteq> trim_space k \<Longrightarrow> look (run r ops) k fb = look r k fb"
  by (induction ops arbitrary: r) (auto simp: look_rot_other)

lemma run_last:
  "rot (run r xs) k e = (r', Inr (old, new)) \<Longrightarrow>
   \<forall>op \<in> set ys. trim_space (fst op) \<noteq> trim_space k \<Longrightarrow> look (run r (xs @ (k, e) # ys)) k fb = new"
  by (simp add: run_append run_frame look_rot)

end

type_synonym rotation_env = "int \<times> (string \<Rightarrow> string) \<times> disk_io"

definition router_look :: "router \<times> router_file \<Rightarrow> string \<Rightarrow> string \<Rightarrow> string" where
  "router_look s key fb = resolve (fst s) key fb"

definition router_rotate ::
  "router \<times> router_file \<Rightarrow> string \<Rightarrow> rotation_env
    \<Rightarrow> (router \<times> router_file) \<times> (router_error + string \<times> string)" where
  "router_rotate s key e =
     (case rotate (fst s) (snd s) key (fst e) (fst (snd e)) (snd (snd e)) of (r', f', res) \<Rightarrow> ((r', f'), res))"

interpretation routes: route_override router_look router_rotate
proof
  fix s k e s' old new fb
  assume "router_rotate s k e = (s', Inr (old, new))"
  then obtain r' f' where "rotate (fst s) (snd s) k (fst e) (fst (snd e)) (snd (snd e)) = (r', f', Inr (old, new))"
      "s' = (r', f')"
    by (auto simp: router_rotate_def split: prod.splits)
  with rotate_ok [OF this(1)] show "router_look s' k fb = new"
    by (simp add: router_look_def resolve_def)
next
  fix k' k s e fb
  assume "trim_space k' \<noteq> trim_space k"
  then show "router_look (fst (router_rotate s k e)) k' fb = router_look s k' fb"
    using resolve_other [of k' k "fst s" "snd s" "fst e" "fst (snd e)" "snd (snd e)" fb]
    by (auto simp: router_look_def router_rotate_def split: prod.splits)
qed

subsection \<open>Properties of the router\<close>

text \<open>C4: after a successful \<open>Rotate(key)\<close> every \<open>Resolve\<close> of the key, whatever its fallback, answers
  the new session; \<open>Rotate\<close> reports the session that \<open>Current\<close> answered before; and no other key's
  session changes.\<close>

theorem rotate_then_resolve:
  assumes "rotate r f key nanos sha io = (r', f', Inr (old, new))"
  shows "resolve r' key fb = new \<and> old = current r key
    \<and> (\<forall>k g. trim_space k \<noteq> trim_space key \<longrightarrow> resolve r' k g = resolve r k g)"
proof -
  have r': "r' = fst (rotate r f key nanos sha io)" using assms by simp
  show ?thesis
    using rotate_ok [OF assms] resolve_other [of _ key r f nanos sha io] r'
    by (simp add: resolve_def)
qed

theorem rotate_then_resolve_witness:
  "\<exists>r' f'. rotate \<lparr>r_path = ''/s'', r_sessions = []\<rparr> FileAbsent ''tg:1'' 7 id IoOk
        = (r', f', Inr (''tg-1'', ''tg-1:rotated:7''))
      \<and> resolve r' ''tg:1'' ''x'' = ''tg-1:rotated:7''"
proof -
  let ?r = "\<lparr>r_path = ''/s'', r_sessions = [(''tg:1'', ''tg-1:rotated:7'')]\<rparr>"
  have e: "rotate \<lparr>r_path = ''/s'', r_sessions = []\<rparr> FileAbsent ''tg:1'' 7 id IoOk
      = (?r, FileSessions [(''tg:1'', ''tg-1:rotated:7'')], Inr (''tg-1'', ''tg-1:rotated:7''))"
    by code_simp
  from rotate_then_resolve [OF e, of "''x''"] e show ?thesis by blast
qed

text \<open>In any sequence of rotations, failed ones included, the last successful rotation of a key
  decides its session: if no later rotation is of that key, \<open>Resolve\<close> still answers its new session.\<close>

theorem last_rotation_wins:
  assumes "router_rotate (routes.run s xs) key e = (s', Inr (old, new))"
    and "\<forall>op \<in> set ys. trim_space (fst op) \<noteq> trim_space key"
  shows "router_look (routes.run s (xs @ (key, e) # ys)) key fb = new"
  by (rule routes.run_last [OF assms])

theorem last_rotation_wins_witness:
  "router_look (routes.run (\<lparr>r_path = [], r_sessions = []\<rparr>, FileAbsent)
     ([(''a:1'', 3, id, IoOk)] @ (''a:1'', 5, id, IoOk) # [(''b:1'', 8, id, IoOk)])) ''a:1'' ''x''
   = ''a-1:rotated:3:rotated:5''"
proof -
  let ?s = "(\<lparr>r_path = [], r_sessions = []\<rparr>, FileAbsent)"
  have "router_rotate (routes.run ?s [(''a:1'', 3, id, IoOk)]) ''a:1'' (5, id, IoOk)
      = ((\<lparr>r_path = [], r_sessions = [(''a:1'', ''a-1:rotated:3:rotated:5'')]\<rparr>, FileAbsent),
         Inr (''a-1:rotated:3'', ''a-1:rotated:3:rotated:5''))"
    unfolding routes.run.simps fst_conv snd_conv by code_simp
  moreover have "\<forall>op \<in> set [(''b:1'', 8::int, id, IoOk)]. trim_space (fst op) \<noteq> trim_space ''a:1''"
    by (simp add: trim_space_visible visible_def byte_of_def)
  ultimately show ?thesis by (rule last_rotation_wins)
qed

text \<open>A restart loses nothing: when the router has a file and the write succeeds, creating a router
  on that file after \<open>Rotate\<close>, \<open>Set\<close> or \<open>Reset\<close> of a non-empty key gives exactly the state in memory;
  when the write fails the operation reports it and the memory is ahead of the file.\<close>

theorem router_restart:
  assumes "trim_space (r_path r) = r_path r" and "r_path r \<noteq> []" and "trim_space key \<noteq> []"
  shows "(case rotate r f key nanos sha IoOk of (r', f', res) \<Rightarrow> new_router (r_path r) f' = Inr r' \<and> \<not> is_err res)
    \<and> (case set_session r f key sid IoOk of (r', f', e) \<Rightarrow> new_router (r_path r) f' = Inr r' \<and> e = None)
    \<and> (case reset_session r f key IoOk of (r', f', e) \<Rightarrow> new_router (r_path r) f' = Inr r' \<and> e = None)
    \<and> (case rotate r f key nanos sha IoMkdirErr of (r', f', res) \<Rightarrow>
         res = Inl MkdirRouterErr \<and> f' = f \<and> current r' key \<noteq> [] \<and>
         current r' key = sid_string (new_sid KindRotated (current r key) [] nanos sha))"
  using assms
  by (simp add: rotate_def set_session_def reset_session_def Let_def persist_def new_router_def
      current_def resolve_def)

theorem router_restart_witness:
  "case rotate \<lparr>r_path = ''/s'', r_sessions = []\<rparr> FileAbsent ''tg:1'' 7 id IoOk of (r', f', res) \<Rightarrow>
     new_router ''/s'' f' = Inr r' \<and> \<not> is_err res"
proof -
  have "trim_space ''/s'' = ''/s''" "trim_space ''tg:1'' \<noteq> []" by code_simp+
  then show ?thesis
    using router_restart [of "\<lparr>r_path = ''/s'', r_sessions = []\<rparr>" "''tg:1''" FileAbsent 7 id "[]"]
    by (simp add: case_prod_beta)
qed

subsection \<open>Properties of the history store\<close>

lemma safe_char_safe: "safe_char c \<noteq> CHR ''/'' \<and> safe_char c \<noteq> CHR 0x5C \<and> safe_char c \<noteq> CHR '':''"
  by (simp add: safe_char_def)

lemma safe_name_chars: "c \<in> set (safe_name s) \<Longrightarrow> c \<noteq> CHR ''/'' \<and> c \<noteq> CHR 0x5C \<and> c \<noteq> CHR '':''"
  by (induction s rule: safe_name.induct) (auto simp: safe_char_safe split: if_splits)

lemma safe_char_dot: "safe_char c = CHR ''.'' \<longleftrightarrow> c = CHR ''.''"
  by (simp add: safe_char_def)

lemma safe_name_hd: "hd (safe_name (d # s)) = CHR ''.'' \<Longrightarrow> d = CHR ''.''"
  by (cases s) (auto simp: safe_char_dot split: if_splits)

lemma safe_name_no_dots: "\<not> sublist ''..'' (safe_name s)"
proof (induction s rule: safe_name.induct)
  case (3 c d s)
  show ?case
  proof (cases "c = CHR ''.'' \<and> d = CHR ''.''")
    case True
    with 3 show ?thesis by (simp add: sublist_Cons_right)
  next
    case False
    have "\<not> prefix ''..'' (safe_char c # safe_name (d # s))"
    proof
      assume "prefix ''..'' (safe_char c # safe_name (d # s))"
      then have "c = CHR ''.''" and "hd (safe_name (d # s)) = CHR ''.''"
        by (auto simp: safe_char_dot prefix_def simp del: safe_name.simps)
      with False safe_name_hd show False by blast
    qed
    with False 3 show ?thesis by (auto simp: sublist_Cons_right)
  qed
qed (simp_all add: sublist_Cons_right)

lemma index_of_newline: "newline \<notin> set b \<Longrightarrow> index_of [newline] (b @ newline # t) = Some (length b)"
  using index_of_append [of b "[newline]" t] by (simp add: not_contains_char)

definition line_ok :: "nat \<Rightarrow> string \<Rightarrow> bool" where
  "line_ok limit b \<longleftrightarrow> b \<noteq> [] \<and> trimmed b \<and> newline \<notin> set b \<and> length b < limit"

lemma trim_space_drop_cr: "trimmed b \<Longrightarrow> b \<noteq> [] \<Longrightarrow> drop_cr b = b"
proof -
  assume b: "trimmed b" "b \<noteq> []"
  have "[CHR 0x0D] \<in> set (map rev space_seqs)"
    by code_simp
  then have "\<not> prefix [CHR 0x0D] (rev b)" using b by (auto simp: trimmed_def strip_free_def)
  then have "last b \<noteq> CHR 0x0D" using b(2) by (cases b rule: rev_cases) (auto simp: prefix_def)
  then show "drop_cr b = b" by (simp add: drop_cr_def)
qed

lemma scan_lines_cons:
  "line_ok limit b \<Longrightarrow> scan_lines limit (b @ newline # t) =
     (let (ls, e) = scan_lines limit t in (b # ls, e))"
  by (subst scan_lines.simps) (auto simp: line_ok_def index_of_newline trim_space_drop_cr)

lemma scan_encoded:
  "\<forall>m \<in> set ms. \<exists>b. enc m = Some b \<and> line_ok limit b \<Longrightarrow>
   scan_lines limit (encode_lines enc ms) = (map (\<lambda>m. the (enc m)) ms, False)"
  by (induction ms) (auto simp: scan_lines.simps [of limit "[]"] scan_lines_cons)

lemma decode_encoded:
  "\<forall>m \<in> set ms. \<exists>b. enc m = Some b \<and> line_ok limit b \<and> dec b = Some m \<Longrightarrow>
   decode_lines dec (map (\<lambda>m. the (enc m)) ms) = ms"
  by (induction ms) (auto simp: line_ok_def trim_space_trimmed)

text \<open>C31: a history that \<open>Save\<close> wrote is the history \<open>Load\<close> returns, for every session whose id names
  the same file and for messages that encode to one decodable line of less than a mebibyte; the
  histories of sessions with another file name do not change.\<close>

theorem save_then_load:
  assumes "\<forall>m \<in> set ms. \<exists>b. enc m = Some b \<and> line_ok scan_limit b \<and> dec b = Some m"
    and "ms \<noteq> []" and "trim_space sid \<noteq> []"
    and "save_session enc files SaveOk sid ms = (files', e)"
  shows "e = None
    \<and> (trim_space sid' \<noteq> [] \<and> store_path (trim_space sid') = store_path (trim_space sid) \<longrightarrow>
        load_session dec files' False sid' = (ms, None))
    \<and> (store_path (trim_space sid') \<noteq> store_path (trim_space sid) \<longrightarrow>
        load_session dec files' openFails sid' = load_session dec files openFails sid')"
proof -
  have f: "files' = files(store_path (trim_space sid) \<mapsto> encode_lines enc ms)" "e = None"
    using assms by (auto simp: save_session_def Let_def)
  have "scan_lines scan_limit (encode_lines enc ms) = (map (\<lambda>m. the (enc m)) ms, False)"
    using assms(1) by (intro scan_encoded) blast
  moreover have "decode_lines dec (map (\<lambda>m. the (enc m)) ms) = ms"
    using assms(1) by (rule decode_encoded)
  ultimately show ?thesis using f by (simp add: load_session_def Let_def)
qed

theorem save_then_load_witness:
  "load_session Some (fst (save_session Some Map.empty SaveOk ''web:1'' [''{1}'', ''{2}''])) False ''web_1''
     = ([''{1}'', ''{2}''], None)"
proof -
  let ?ms = "[''{1}'', ''{2}'']"
  have m: "\<forall>m \<in> set ?ms. \<exists>b. Some m = Some b \<and> line_ok scan_limit b \<and> Some b = Some m"
    by (simp add: line_ok_def scan_limit_def newline_def trimmed_visible visible_def byte_of_def)
  have t: "trim_space ''web:1'' = ''web:1''" "trim_space ''web_1'' = ''web_1''"
    "store_path ''web:1'' = ''web_1.jsonl''" "store_path ''web_1'' = ''web_1.jsonl''"
    by code_simp+
  show ?thesis
    using save_then_load [OF m, of "''web:1''" Map.empty _ _ "''web_1''"] t
    by (auto simp: prod_eq_iff)
qed

text \<open>No session id, whatever its bytes, names a file outside the store's directory: the file name
  has no path separator, no colon and no \<open>..\<close>, and is not empty.\<close>

theorem store_path_safe:
  "CHR ''/'' \<notin> set (store_path s) \<and> CHR 0x5C \<notin> set (store_path s) \<and> CHR '':'' \<notin> set (store_path s)
   \<and> store_path s \<noteq> ''..'' \<and> store_path s \<noteq> ''.'' \<and> \<not> sublist ''..'' (safe_name s)"
proof -
  have "length (store_path s) \<ge> 6" by (simp add: store_path_def)
  then have "store_path s \<noteq> ''..''" "store_path s \<noteq> ''.''" by (auto simp del: length_append)
  then show ?thesis using safe_name_no_dots [of s] safe_name_chars [of _ s] by (auto simp: store_path_def)
qed

text \<open>Isolated sessions leave no trace: whatever the router holds, the id that the resolver makes
  for an isolated turn on an ordinary chat is one the store recognises, so saving under it changes no
  file and loading it finds no history; all other sessions go to the store.\<close>

theorem isolated_never_persisted:
  assumes "sid = resolve_sdk_session_id router channel chatID routeKey SessionModeIsolated nanos"
    and "base = chat_session_id channel chatID" and "base \<noteq> []" and "in_int64 nanos"
    and "\<not> kind_prefixed sid" and "\<not> contains (base @ '':isolated'') '':isolated:''"
  shows "noiso_save uuid_ok enc files io sid ms = (files, None)
    \<and> noiso_load uuid_ok dec files openFails sid = ([], None)"
proof -
  have s: "sid = sid_string (mk_sid KindIsolated base (show_int nanos))"
    using assms(1-3) by (simp add: resolve_sdk_session_id_def new_sid_def)
  have "sid_wf uuid_ok (mk_sid KindIsolated base (show_int nanos))"
    using assms s by (simp add: sid_wf_def mk_sid_def parse_show_int trimmed_iff)
  from parse_sid_string [OF this] s show ?thesis
    by (simp add: noiso_save_def noiso_load_def is_isolated_def mk_sid_def)
qed

theorem isolated_never_persisted_witness:
  "noiso_save (\<lambda>t. False) Some Map.empty SaveOk ''web-1:isolated:5'' [''{1}''] = (Map.empty, None)"
proof -
  have "resolve_sdk_session_id None ''web'' ''1'' ''web:1'' SessionModeIsolated 5 = ''web-1:isolated:5''"
    "chat_session_id ''web'' ''1'' = ''web-1''" "in_int64 5"
    "\<not> kind_prefixed ''web-1:isolated:5''" "\<not> contains (''web-1'' @ '':isolated'') '':isolated:''"
    by code_simp+
  then show ?thesis
    using isolated_never_persisted [of "''web-1:isolated:5''" None "''web''" "''1''" "''web:1''" 5 "''web-1''"
        "\<lambda>t. False" Some Map.empty SaveOk "[''{1}'']" Some False]
    by simp
qed

end
