(* ===== verification/TurnCtx.thy ===== *)
theory TurnCtx
  imports SessionRouter
begin

text \<open>
  \<open>internal/kernel/turnctx/turn.go\<close>: the routing identity of a turn that travels on the context. A
  context is modelled by the snapshot under the package's key, \<open>None\<close> when there is none; a Go map by
  the association list of its entries in iteration order (the order is arbitrary in Go, so the
  theorems hold for every list).
\<close>

subsection \<open>Dynamic values\<close>

text \<open>A value of type \<open>any\<close>: the cases that the program's type switches name; everything else is
  \<open>AnyOther\<close> with some tag. A \<open>float64\<close> is a rational (neither NaN nor an infinity).\<close>

datatype any =
    AnyNil
  | AnyStr string
  | AnyBool bool
  | AnyInt int
  | AnyInt32 int
  | AnyInt64 int
  | AnyFloat rat
  | AnyNumber string
  | AnyOther nat

text \<open>The conversion \<open>int(x)\<close> of a float truncates; out of range it is what the 64-bit hardware gives.\<close>

definition float_to_int :: "rat \<Rightarrow> int" where
  "float_to_int x =
     (let n = (if x < 0 then - \<lfloor>- x\<rfloor> else \<lfloor>x\<rfloor>) in if in_int64 n then n else int64_min)"

definition int_from_any :: "any \<Rightarrow> int" where
  "int_from_any v = (case v of
       AnyInt x \<Rightarrow> x
     | AnyInt32 x \<Rightarrow> x
     | AnyInt64 x \<Rightarrow> x
     | AnyFloat x \<Rightarrow> float_to_int x
     | _ \<Rightarrow> 0)"

subsection \<open>The snapshot\<close>

type_synonym metadata = "(string \<times> any) list"

record turn_context =
  tc_channel :: string
  tc_chat_id :: string
  tc_metadata :: "metadata option"

type_synonym ctx = "turn_context option"

definition empty_turn :: turn_context where
  "empty_turn = \<lparr>tc_channel = [], tc_chat_id = [], tc_metadata = None\<rparr>"

definition merge_preserve :: "turn_context \<Rightarrow> turn_context \<Rightarrow> turn_context" where
  "merge_preserve prev next' =
     \<lparr>tc_channel = tc_channel next', tc_chat_id = tc_chat_id next',
      tc_metadata = (case tc_metadata next' of Some m \<Rightarrow> Some m | None \<Rightarrow> tc_metadata prev)\<rparr>"

text \<open>The loop over a map that stores under the trimmed key and skips keys that trim to nothing.\<close>

fun put_trimmed :: "metadata \<Rightarrow> metadata \<Rightarrow> metadata" where
  "put_trimmed acc [] = acc"
| "put_trimmed acc ((k, v) # kvs) =
     (let nk = trim_space k in
      if nk = [] then put_trimmed acc kvs else put_trimmed (map_put nk v acc) kvs)"

definition normalize_turn :: "turn_context \<Rightarrow> turn_context" where
  "normalize_turn tc =
     \<lparr>tc_channel = trim_space (tc_channel tc), tc_chat_id = trim_space (tc_chat_id tc),
      tc_metadata = (case tc_metadata tc of
          None \<Rightarrow> None
        | Some m \<Rightarrow> (let meta = put_trimmed [] m in if meta \<noteq> [] then Some meta else None))\<rparr>"

definition len_map :: "metadata option \<Rightarrow> nat" where
  "len_map m = (case m of None \<Rightarrow> 0 | Some kvs \<Rightarrow> length kvs)"

definition entries :: "metadata option \<Rightarrow> metadata" where
  "entries m = (case m of None \<Rightarrow> [] | Some kvs \<Rightarrow> kvs)"

definition overlay_metadata :: "metadata option \<Rightarrow> metadata \<Rightarrow> metadata option" where
  "overlay_metadata meta overlay =
     (if len_map meta > 0 then Some (put_trimmed (entries meta) overlay)
      else if length overlay > 0 then Some (put_trimmed [] overlay)
      else None)"

definition with_turn :: "ctx \<Rightarrow> turn_context \<Rightarrow> ctx" where
  "with_turn parent tc =
     (let prev = (case parent of None \<Rightarrow> empty_turn | Some p \<Rightarrow> p) in
      Some (normalize_turn (merge_preserve prev tc)))"

definition with_inbound :: "ctx \<Rightarrow> string \<Rightarrow> string \<Rightarrow> ctx" where
  "with_inbound parent channel chatID =
     with_turn parent \<lparr>tc_channel = channel, tc_chat_id = chatID, tc_metadata = None\<rparr>"

definition with_metadata :: "ctx \<Rightarrow> metadata option \<Rightarrow> ctx" where
  "with_metadata parent overlay =
     (case overlay of
        None \<Rightarrow> parent
      | Some m \<Rightarrow>
          (let prev = (case parent of None \<Rightarrow> empty_turn | Some p \<Rightarrow> p) in
           Some (normalize_turn (prev\<lparr>tc_metadata := overlay_metadata (tc_metadata prev) m\<rparr>))))"

definition turn_from :: "ctx \<Rightarrow> turn_context option" where
  "turn_from ctx =
     (case ctx of
        None \<Rightarrow> None
      | Some tc0 \<Rightarrow>
          (let tc = normalize_turn tc0 in
           if tc_channel tc = [] \<or> tc_chat_id tc = [] then None else Some tc))"

definition turn_channel :: "ctx \<Rightarrow> string option" where
  "turn_channel ctx = map_option tc_channel (turn_from ctx)"

definition turn_chat_id :: "ctx \<Rightarrow> string option" where
  "turn_chat_id ctx = map_option tc_chat_id (turn_from ctx)"

subsection \<open>Normal snapshots\<close>

definition normal_metadata :: "metadata \<Rightarrow> bool" where
  "normal_metadata m \<longleftrightarrow> distinct (map fst m) \<and> (\<forall>k \<in> fst ` set m. k \<noteq> [] \<and> trim_space k = k)"

definition normal_turn :: "turn_context \<Rightarrow> bool" where
  "normal_turn tc \<longleftrightarrow> trim_space (tc_channel tc) = tc_channel tc
     \<and> trim_space (tc_chat_id tc) = tc_chat_id tc
     \<and> (case tc_metadata tc of None \<Rightarrow> True | Some m \<Rightarrow> m \<noteq> [] \<and> normal_metadata m)"

definition normal_ctx :: "ctx \<Rightarrow> bool" where
  "normal_ctx ctx = (case ctx of None \<Rightarrow> True | Some tc \<Rightarrow> normal_turn tc)"

lemma normal_metadata_put:
  "normal_metadata m \<Longrightarrow> k \<noteq> [] \<Longrightarrow> trim_space k = k \<Longrightarrow> normal_metadata (map_put k v m)"
  by (simp add: normal_metadata_def map_put_def distinct_update dom_update)

lemma normal_put_trimmed: "normal_metadata acc \<Longrightarrow> normal_metadata (put_trimmed acc m)"
  by (induction acc m rule: put_trimmed.induct) (simp_all add: Let_def normal_metadata_put)

lemma normal_turn_normalize [inv_intros]: "normal_turn (normalize_turn tc)"
proof -
  have "normal_metadata []" by (simp add: normal_metadata_def)
  then show ?thesis
    by (auto simp: normal_turn_def normalize_turn_def Let_def normal_put_trimmed split: option.splits)
qed

lemma map_put_new: "k \<notin> fst ` set m \<Longrightarrow> map_put k v m = m @ [(k, v)]"
  by (induction m) (auto simp: map_put_def)

lemma put_trimmed_normal:
  "normal_metadata m \<Longrightarrow> fst ` set acc \<inter> fst ` set m = {} \<Longrightarrow> put_trimmed acc m = acc @ m"
proof (induction acc m rule: put_trimmed.induct)
  case (2 acc k v kvs)
  then show ?case by (auto simp: normal_metadata_def map_put_new Let_def)
qed simp

lemma normalize_turn_id: "normal_turn tc \<Longrightarrow> normalize_turn tc = tc"
  using put_trimmed_normal [of _ "[]"]
  by (cases tc) (auto simp: normal_turn_def normalize_turn_def split: option.splits)

lemma with_turn_normal [inv_intros]: "normal_ctx (with_turn ctx tc)"
  by (simp add: with_turn_def normal_ctx_def normal_turn_normalize)

lemma with_inbound_normal [inv_intros]: "normal_ctx (with_inbound ctx c p)"
  by (simp add: with_inbound_def with_turn_normal)

lemma with_metadata_normal [inv_intros]: "normal_ctx ctx \<Longrightarrow> normal_ctx (with_metadata ctx m)"
  by (simp add: with_metadata_def normal_ctx_def normal_turn_normalize split: option.splits)

text \<open>What a lookup finds after the loop: the last entry whose key trims to the key looked up.\<close>

lemma put_trimmed_get:
  "k \<noteq> [] \<Longrightarrow> map_of (put_trimmed acc m) k =
     (case find (\<lambda>e. trim_space (fst e) = k) (rev m) of Some e \<Rightarrow> Some (snd e) | None \<Rightarrow> map_of acc k)"
proof (induction acc m rule: put_trimmed.induct)
  case (2 acc k' v kvs)
  have f: "find p (xs @ [x]) = (case find p xs of None \<Rightarrow> if p x then Some x else None | Some y \<Rightarrow> Some y)"
    for p :: "string \<times> any \<Rightarrow> bool" and xs x
    by (induction xs) auto
  show ?case using 2 by (auto simp: Let_def f map_put_def AList.update_conv' split: option.splits)
qed simp

text \<open>The routing identity of a turn: after \<open>WithInbound\<close>, with any metadata overlaid afterwards, and
  whatever snapshot was there before, \<open>From\<close> answers exactly the trimmed channel and chat id, answers
  nothing when either is blank, and keeps the metadata that the context had.\<close>

theorem inbound_identity:
  "turn_from (with_metadata (with_inbound ctx c p) m) =
     (if trim_space c = [] \<or> trim_space p = [] then None
      else Some \<lparr>tc_channel = trim_space c, tc_chat_id = trim_space p,
        tc_metadata = tc_metadata (the (with_metadata (with_inbound ctx c p) m))\<rparr>)
   \<and> (normal_ctx ctx \<longrightarrow> tc_metadata (the (with_inbound ctx c p)) =
        (case ctx of None \<Rightarrow> None | Some tc \<Rightarrow> tc_metadata tc))"
proof -
  let ?i = "with_inbound ctx c p"
  obtain t where t: "with_metadata ?i m = Some t" "tc_channel t = trim_space c" "tc_chat_id t = trim_space p"
    by (cases m) (simp_all add: with_metadata_def with_inbound_def with_turn_def merge_preserve_def
        normalize_turn_def Let_def)
  have "normal_turn t" using with_metadata_normal [OF with_inbound_normal, of ctx c p m] t by (simp add: normal_ctx_def)
  then have "turn_from (with_metadata ?i m) = (if trim_space c = [] \<or> trim_space p = [] then None else Some t)"
    using t by (simp add: turn_from_def normalize_turn_id)
  moreover have "tc_metadata (the ?i) = (case ctx of None \<Rightarrow> None | Some tc \<Rightarrow> tc_metadata tc)" if "normal_ctx ctx"
    using that put_trimmed_normal [of _ "[]"]
    by (auto simp: with_inbound_def with_turn_def merge_preserve_def normalize_turn_def normal_ctx_def normal_turn_def
        empty_turn_def split: option.splits)
  ultimately show ?thesis using t by (cases t) auto
qed

theorem inbound_identity_witness:
  "turn_from (with_metadata (with_inbound None ''web'' ''7'') None) =
     Some \<lparr>tc_channel = ''web'', tc_chat_id = ''7'', tc_metadata = None\<rparr>"
proof -
  have "trim_space ''web'' = ''web''" "trim_space ''7'' = ''7''" by code_simp+
  then show ?thesis using inbound_identity [of None "''web''" "''7''" None]
    by (simp add: normal_ctx_def with_metadata_def)
qed

end
