(* ===== verification/TaskTool.thy ===== *)
theory TaskTool
  imports TurnCtx
begin

text \<open>
  \<open>internal/kernel/task\<close>: the tool that delegates a goal to an in-process subagent. The agent
  runtime (\<open>rt.Run\<close>), the table of builtin subagents and \<open>fmt.Sprint\<close> are arguments; the guards of
  \<open>Execute\<close> and the request it builds are the source's.
\<close>

record subagent_def =
  sub_name :: string
  sub_whitelist :: "string list"

record task_request =
  treq_prompt :: string
  treq_session :: string
  treq_target :: string
  treq_whitelist :: "string list"
  treq_parent :: string
  treq_model :: string

text \<open>What \<open>rt.Run\<close> gives: an error, no result at all, or the text of the result.\<close>

datatype run_result = RunFailed string | RunNoResult | RunOutput string

datatype task_error =
    NameAndGoalRequired
  | UnknownSubagent string
  | NestedTask
  | TaskRuntimeNotReady
  | TaskRunFailed string

definition string_param :: "(any \<Rightarrow> string) \<Rightarrow> metadata \<Rightarrow> string \<Rightarrow> string" where
  "string_param sprint m key =
     (case map_of m key of
        None \<Rightarrow> []
      | Some v \<Rightarrow> (case v of
            AnyNil \<Rightarrow> []
          | AnyStr s \<Rightarrow> trim_space s
          | _ \<Rightarrow> trim_space (sprint v)))"

definition parse_model_tier :: "string \<Rightarrow> string" where
  "parse_model_tier raw =
     (let r = to_lower (trim_space raw) in
      if r = ''haiku'' \<or> r = ''low'' then ''low''
      else if r = ''sonnet'' \<or> r = ''mid'' \<or> r = ''medium'' then ''mid''
      else if r = ''opus'' \<or> r = ''high'' then ''high''
      else [])"

definition parent_session_id :: "ctx \<Rightarrow> string" where
  "parent_session_id ctx =
     (case turn_from ctx of
        None \<Rightarrow> []
      | Some tc \<Rightarrow> (case tc_metadata tc of
            None \<Rightarrow> []
          | Some m \<Rightarrow> (case map_of m ''session_id'' of
                Some (AnyStr s) \<Rightarrow> trim_space s
              | _ \<Rightarrow> [])))"

definition child_session_id :: "string \<Rightarrow> string" where
  "child_session_id uuid = sid_string (new_sid KindTask [] uuid 0 id)"

definition is_nested_task_session :: "(string \<Rightarrow> bool) \<Rightarrow> string \<Rightarrow> bool" where
  "is_nested_task_session uuid_ok sessionID =
     (case parse_sid uuid_ok sessionID of Inl _ \<Rightarrow> False | Inr sid \<Rightarrow> sid_kind sid = KindTask)"

text \<open>\<open>Execute\<close>: the request it runs, if it runs one, and its result. \<open>runtime = None\<close> is a holder
  without a runtime.\<close>

definition task_execute ::
  "(any \<Rightarrow> string) \<Rightarrow> (string \<Rightarrow> subagent_def option) \<Rightarrow> (string \<Rightarrow> bool) \<Rightarrow> (task_request \<Rightarrow> run_result) option
    \<Rightarrow> string \<Rightarrow> ctx \<Rightarrow> metadata \<Rightarrow> task_request option \<times> (task_error + string)" where
  "task_execute sprint builtin uuid_ok runtime uuid ctx params =
     (let name = to_lower (trim_space (string_param sprint params ''name''));
          goal = trim_space (string_param sprint params ''goal'') in
      if name = [] \<or> goal = [] then (None, Inl NameAndGoalRequired)
      else case builtin name of
          None \<Rightarrow> (None, Inl (UnknownSubagent name))
        | Some d \<Rightarrow>
            (let parentSession = parent_session_id ctx in
             if is_nested_task_session uuid_ok parentSession then (None, Inl NestedTask)
             else case runtime of
                 None \<Rightarrow> (None, Inl TaskRuntimeNotReady)
               | Some rt \<Rightarrow>
                   (let req = \<lparr>treq_prompt = goal, treq_session = child_session_id uuid,
                          treq_target = sub_name d, treq_whitelist = sub_whitelist d,
                          treq_parent = parentSession,
                          treq_model = parse_model_tier (string_param sprint params ''model'')\<rparr> in
                    case rt req of
                        RunFailed e \<Rightarrow> (Some req, Inl (TaskRunFailed e))
                      | r \<Rightarrow>
                          (let output = (case r of RunOutput o' \<Rightarrow> trim_space o' | _ \<Rightarrow> []) in
                           (Some req, Inr (if output = []
                             then ''(subagent completed with no text output)'' else output))))))"

lemma child_session_parses:
  assumes "fresh_token uuid_ok uuid"
  shows "parse_sid uuid_ok (child_session_id uuid) = Inr (mk_sid KindTask [] uuid)"
proof -
  have "sid_wf uuid_ok (mk_sid KindTask [] uuid)" using assms by (simp add: sid_wf_def mk_sid_def)
  from parse_sid_string [OF this] show ?thesis
    by (simp add: child_session_id_def new_sid_def)
qed

lemma put_trimmed_session:
  "map_of (put_trimmed acc [(''session_id'', v)]) ''session_id'' = Some v"
proof -
  have "trim_space ''session_id'' = ''session_id''" by code_simp
  then show ?thesis by (simp add: map_put_def AList.update_conv')
qed

lemma normal_put_trimmed_id: "normal_metadata m \<Longrightarrow> put_trimmed [] m = m"
  using put_trimmed_normal [of m "[]"] by simp

lemma parent_session_of_metadata:
  assumes "normal_ctx ctx" and "turn_from ctx \<noteq> None"
  shows "parent_session_id (with_metadata ctx (Some [(''session_id'', AnyStr s)])) = trim_space s"
proof -
  obtain t where t: "ctx = Some t" "normal_turn t" "tc_channel t \<noteq> []" "tc_chat_id t \<noteq> []"
    using assms by (auto simp: turn_from_def normal_ctx_def normalize_turn_id Let_def split: option.splits if_splits)
  define m where "m = put_trimmed (entries (tc_metadata t)) [(''session_id'', AnyStr s)]"
  have "normal_metadata (entries (tc_metadata t))"
    using t(2) by (auto simp: normal_turn_def entries_def normal_metadata_def split: option.splits)
  then have n: "normal_metadata m" by (simp add: m_def normal_put_trimmed del: put_trimmed.simps)
  have g: "map_of m ''session_id'' = Some (AnyStr s)" by (simp only: m_def put_trimmed_session)
  then have "m \<noteq> []" by auto
  have o: "overlay_metadata (tc_metadata t) [(''session_id'', AnyStr s)] = Some m"
    by (auto simp: overlay_metadata_def m_def len_map_def entries_def split: option.splits simp del: put_trimmed.simps)
  have w: "with_metadata ctx (Some [(''session_id'', AnyStr s)]) = Some (t\<lparr>tc_metadata := Some m\<rparr>)"
    using t n \<open>m \<noteq> []\<close>
    by (simp add: with_metadata_def o normalize_turn_id normal_turn_def)
  have "normal_turn (t\<lparr>tc_metadata := Some m\<rparr>)" using t n \<open>m \<noteq> []\<close> by (simp add: normal_turn_def)
  with w t g show ?thesis by (simp add: parent_session_id_def turn_from_def normalize_turn_id)
qed

text \<open>Subagents do not delegate further: in a turn whose context carries, as \<open>session_id\<close>, a child
  session that the tool itself made, \<open>Execute\<close> never starts a run, whatever its parameters, and a call
  that names a goal and a builtin subagent is refused as nested.\<close>

theorem task_never_nests:
  assumes "fresh_token uuid_ok uuid" and "normal_ctx ctx" and "turn_from ctx \<noteq> None"
    and "ctx' = with_metadata ctx (Some [(''session_id'', AnyStr (child_session_id uuid))])"
  shows "fst (task_execute sprint builtin uuid_ok rt uuid' ctx' params) = None
    \<and> (trim_space (string_param sprint params ''goal'') \<noteq> []
       \<and> to_lower (trim_space (string_param sprint params ''name'')) \<noteq> []
       \<and> builtin (to_lower (trim_space (string_param sprint params ''name''))) \<noteq> None
       \<longrightarrow> snd (task_execute sprint builtin uuid_ok rt uuid' ctx' params) = Inl NestedTask)"
proof -
  have wf: "sid_wf uuid_ok (mk_sid KindTask [] uuid)" using assms(1) by (simp add: sid_wf_def mk_sid_def)
  have "trim_space (child_session_id uuid) = child_session_id uuid"
    using sid_wf_trimmed [OF wf] by (simp add: child_session_id_def new_sid_def)
  then have "is_nested_task_session uuid_ok (parent_session_id ctx')"
    using parent_session_of_metadata [OF assms(2,3)] child_session_parses [OF assms(1)]
    by (simp add: assms(4) is_nested_task_session_def mk_sid_def)
  then show ?thesis by (auto simp: task_execute_def Let_def split: option.splits)
qed

theorem task_never_nests_witness:
  "snd (task_execute (\<lambda>_. []) (\<lambda>n. Some \<lparr>sub_name = n, sub_whitelist = []\<rparr>) (\<lambda>t. length t = 4) None ''ab13''
      (with_metadata (with_inbound None ''tg'' ''1'') (Some [(''session_id'', AnyStr (child_session_id ''ab12''))]))
      [(''name'', AnyStr ''explore''), (''goal'', AnyStr ''find'')])
   = Inl NestedTask"
proof -
  have f: "fresh_token (\<lambda>t. length t = 4) ''ab12''" by code_simp
  have t: "turn_from (with_inbound None ''tg'' ''1'') \<noteq> None" by code_simp
  have p: "trim_space (string_param (\<lambda>_. []) [(''name'', AnyStr ''explore''), (''goal'', AnyStr ''find'')] ''goal'') \<noteq> []"
    "to_lower (trim_space (string_param (\<lambda>_. []) [(''name'', AnyStr ''explore''), (''goal'', AnyStr ''find'')] ''name'')) \<noteq> []"
    by code_simp+
  show ?thesis
    using task_never_nests [OF f with_inbound_normal t refl] p by simp
qed

end
