(* ===== verification/SlashCommand.thy ===== *)
theory SlashCommand
  imports TaskTool "HOL-Library.Char_ord" "HOL-Library.List_Lexorder"
begin

text \<open>
  \<open>internal/kernel/slash\<close> and \<open>internal/kernel/slashkind\<close>: the lexer and parser of slash commands, the
  registry of handlers, and \<open>PreTurn\<close>, which runs at most one command before the model. A handler is
  a function of the context and the invocation.
\<close>

subsection \<open>Data\<close>

datatype compact_response_mode = CompactResponseModeSummary | CompactResponseModeAck

datatype post_action = CompactRotateAction compact_response_mode

record slash_result =
  sr_command :: string
  sr_output :: string
  sr_metadata :: metadata
  sr_post_action :: "post_action option"

record invocation =
  inv_name :: string
  inv_args :: "string list"
  inv_flags :: "(string \<times> string) list"
  inv_raw :: string
  inv_position :: nat

record slash_definition =
  sd_name :: string
  sd_description :: string

datatype slash_error =
    ErrNoCommand
  | ErrInvalidCommand
  | DanglingEscape
  | UnclosedQuote
  | InvalidName string
  | InvalidFlag string
  | AtLine nat slash_error
  | MultipleCommands
  | HandlerFailed string
  | NilRegistry
  | EmptyCommandName
  | InvalidCommandName string
  | NilHandler string
  | DuplicateCommand string

type_synonym slash_handler = "ctx \<Rightarrow> invocation \<Rightarrow> string + slash_result"

definition inv_flag :: "invocation \<Rightarrow> string \<Rightarrow> string option" where
  "inv_flag i name = map_of (inv_flags i) (to_lower name)"

subsection \<open>Lexer and parser\<close>

definition r_backslash :: nat where "r_backslash = 92"
definition r_quote :: nat where "r_quote = 39"
definition r_dquote :: nat where "r_dquote = 34"

definition emit :: "string list \<Rightarrow> string \<Rightarrow> string list" where
  "emit tokens buf = (if length buf > 0 then tokens @ [buf] else tokens)"

text \<open>The rune loop; \<open>quote = 0\<close> is outside quotes.\<close>

fun lex_loop :: "string list \<Rightarrow> string \<Rightarrow> nat \<Rightarrow> bool \<Rightarrow> nat list \<Rightarrow> slash_error + string list" where
  "lex_loop tokens buf quote escaped [] =
     (if escaped then Inl DanglingEscape
      else if quote \<noteq> 0 then Inl UnclosedQuote
      else Inr (emit tokens buf))"
| "lex_loop tokens buf quote escaped (r # rs) =
     (if escaped then lex_loop tokens (buf @ encode_rune r) quote False rs
      else if r = r_backslash then lex_loop tokens buf quote True rs
      else if quote \<noteq> 0 then
        (if r = quote then lex_loop tokens buf 0 False rs
         else lex_loop tokens (buf @ encode_rune r) quote False rs)
      else if r = r_quote \<or> r = r_dquote then lex_loop tokens buf r False rs
      else if is_space_rune r then lex_loop (emit tokens buf) [] 0 False rs
      else lex_loop tokens (buf @ encode_rune r) 0 False rs)"

definition lex_line :: "string \<Rightarrow> slash_error + string list" where
  "lex_line line = lex_loop [] [] 0 False (runes line)"

definition valid_name_rune :: "nat \<Rightarrow> bool" where
  "valid_name_rune r \<longleftrightarrow> r = 45 \<or> r = 95 \<or> (97 \<le> r \<and> r \<le> 122) \<or> (48 \<le> r \<and> r \<le> 57)"

definition valid_name :: "string \<Rightarrow> bool" where
  "valid_name name \<longleftrightarrow> name \<noteq> [] \<and> list_all valid_name_rune (runes name)"

definition parse_flag :: "string \<Rightarrow> string \<times> string \<times> bool" where
  "parse_flag token =
     (let trimmed = trim_prefix token ''--'';
          (key, value, ok) = cut trimmed ''='' in
      if ok then (trim_space key, value, True) else (trim_space trimmed, [], False))"

fun parse_tokens :: "(string \<times> string) list \<Rightarrow> string list \<Rightarrow> string list
    \<Rightarrow> slash_error + (string \<times> string) list \<times> string list" where
  "parse_tokens flags args [] = Inr (flags, args)"
| "parse_tokens flags args (token # ts) =
     (if prefix ''--'' token then
        (let (key0, value0, consumed) = parse_flag token; key = to_lower key0 in
         if key = [] then Inl (InvalidFlag token)
         else (case ts of
             v # ts' \<Rightarrow>
               (if \<not> consumed \<and> \<not> prefix ''-'' v
                then parse_tokens (map_put key (if v = [] then ''true'' else v) flags) args ts'
                else parse_tokens (map_put key (if value0 = [] then ''true'' else value0) flags) args ts)
           | [] \<Rightarrow> parse_tokens (map_put key (if value0 = [] then ''true'' else value0) flags) args ts))
      else parse_tokens flags (args @ [token]) ts)"

definition parse_line :: "string \<Rightarrow> slash_error + invocation" where
  "parse_line line =
     (case lex_line line of
        Inl e \<Rightarrow> Inl e
      | Inr [] \<Rightarrow> Inl ErrInvalidCommand
      | Inr (name # rest) \<Rightarrow>
          (if \<not> prefix ''/'' name then Inl ErrInvalidCommand
           else
             let normalized = to_lower (trim_prefix name ''/'') in
             if normalized = [] \<or> \<not> valid_name normalized then Inl (InvalidName name)
             else case parse_tokens [] [] rest of
                 Inl e \<Rightarrow> Inl e
               | Inr (flags, args) \<Rightarrow>
                   Inr \<lparr>inv_name = normalized, inv_args = args, inv_flags = flags,
                        inv_raw = [], inv_position = 0\<rparr>))"

text \<open>The line loop of \<open>Parse\<close>, with the number of the next line.\<close>

fun parse_lines :: "nat \<Rightarrow> string list \<Rightarrow> slash_error + invocation list" where
  "parse_lines n [] = Inr []"
| "parse_lines n (line # lines) =
     (let trimmed = trim_space line in
      if trimmed = [] \<or> \<not> prefix ''/'' trimmed then parse_lines (n + 1) lines
      else case parse_line trimmed of
          Inl e \<Rightarrow> Inl (AtLine n e)
        | Inr ivc \<Rightarrow>
            (case parse_lines (n + 1) lines of
               Inl e \<Rightarrow> Inl e
             | Inr invs \<Rightarrow> Inr (ivc\<lparr>inv_position := n, inv_raw := trimmed\<rparr> # invs)))"

definition parse_commands :: "string \<Rightarrow> slash_error + invocation list" where
  "parse_commands input =
     (case parse_lines 1 (split_char newline input) of
        Inl e \<Rightarrow> Inl e
      | Inr [] \<Rightarrow> Inl ErrNoCommand
      | Inr invs \<Rightarrow> Inr invs)"

subsection \<open>Registry\<close>

type_synonym slash_registry = "(string \<times> slash_definition \<times> slash_handler) list"

definition new_slash_registry :: slash_registry where "new_slash_registry = []"

text \<open>\<open>Register\<close>; a nil registry or handler is \<open>None\<close>.\<close>

definition register_command ::
  "slash_registry option \<Rightarrow> slash_definition \<Rightarrow> slash_handler option \<Rightarrow> slash_error + slash_registry" where
  "register_command reg d h =
     (case reg of
        None \<Rightarrow> Inl NilRegistry
      | Some r \<Rightarrow>
          (let name = to_lower (trim_space (sd_name d)) in
           if name = [] then Inl EmptyCommandName
           else if \<not> valid_name name then Inl (InvalidCommandName (sd_name d))
           else case h of
               None \<Rightarrow> Inl (NilHandler name)
             | Some handler \<Rightarrow>
                 (if map_of r name \<noteq> None then Inl (DuplicateCommand name)
                  else Inr (map_put name (\<lparr>sd_name = name, sd_description = sd_description d\<rparr>, handler) r))))"

definition command_definitions :: "slash_registry option \<Rightarrow> slash_definition list" where
  "command_definitions reg =
     (case reg of None \<Rightarrow> []
      | Some r \<Rightarrow> map (\<lambda>name. fst (the (map_of r name))) (sort (map fst r)))"

definition lookup_command :: "slash_registry option \<Rightarrow> string \<Rightarrow> slash_handler option" where
  "lookup_command reg name =
     (case reg of None \<Rightarrow> None
      | Some r \<Rightarrow> map_option snd (map_of r (to_lower (trim_space name))))"

text \<open>The plugin's commands; a plugin's result carries no post-turn action.\<close>

record plugin_result =
  pr_command :: string
  pr_output :: string
  pr_metadata :: metadata

type_synonym plugin_handler = "ctx \<Rightarrow> invocation \<Rightarrow> string + plugin_result"

definition plugin_slash_handler :: "plugin_handler \<Rightarrow> slash_handler" where
  "plugin_slash_handler h ctx ivc =
     (case h ctx ivc of
        Inl e \<Rightarrow> Inl e
      | Inr out \<Rightarrow> Inr \<lparr>sr_command = pr_command out, sr_output = pr_output out,
                        sr_metadata = pr_metadata out, sr_post_action = None\<rparr>)"

fun register_plugin_commands ::
  "slash_registry \<Rightarrow> (slash_definition \<times> plugin_handler) list \<Rightarrow> slash_registry \<times> slash_error option" where
  "register_plugin_commands r [] = (r, None)"
| "register_plugin_commands r ((d, h) # cmds) =
     (case register_command (Some r) d (Some (plugin_slash_handler h)) of
        Inl e \<Rightarrow> (r, Some e)
      | Inr r' \<Rightarrow> register_plugin_commands r' cmds)"

definition compact_prompt :: string where
  "compact_prompt =
     ''Create a compact continuation summary for this conversation. '' @
     ''This output is for the assistant, not for the end user. '' @
     ''Write only the summary text. Capture goals, decisions, constraints, preferences, important file paths, open questions, and the best next steps. '' @
     ''Do not address the user, do not mention compacting, and do not include markdown fences.''"

definition handle_compact :: slash_handler where
  "handle_compact ctx ivc =
     (let focus = trim_space (join '' '' (inv_args ivc));
          b = compact_prompt @ (if focus \<noteq> [] then '' Give extra attention to: '' @ focus @ ''.'' else []) in
      Inr \<lparr>sr_command = [], sr_output = [], sr_metadata = [(''api.prepend_prompt'', AnyStr b)],
           sr_post_action = Some (CompactRotateAction CompactResponseModeAck)\<rparr>)"

definition builtins :: "slash_error + slash_registry" where
  "builtins =
     register_command (Some new_slash_registry)
       \<lparr>sd_name = ''compact'',
        sd_description = ''Compress the current conversation into a fresh continuation context.''\<rparr>
       (Some handle_compact)"

subsection \<open>Before the model\<close>

record slash_outcome =
  so_continue :: bool
  so_direct_reply :: string
  so_metadata :: "metadata option"
  so_trail :: "slash_result list"

definition enrich_metadata :: "ctx \<Rightarrow> metadata \<Rightarrow> metadata" where
  "enrich_metadata ctx md =
     (case turn_from ctx of
        None \<Rightarrow> md
      | Some tc \<Rightarrow>
          (let out = (if map_of md ''slash.turn.channel'' = None
                      then map_put ''slash.turn.channel'' (AnyStr (tc_channel tc)) md else md) in
           if map_of out ''slash.turn.chat_id'' = None
           then map_put ''slash.turn.chat_id'' (AnyStr (tc_chat_id tc)) out else out))"

definition model_outcome :: slash_outcome where
  "model_outcome = \<lparr>so_continue = True, so_direct_reply = [], so_metadata = None, so_trail = []\<rparr>"

definition pre_turn ::
  "ctx \<Rightarrow> slash_registry option \<Rightarrow> string \<Rightarrow> string \<Rightarrow> slash_error + slash_outcome" where
  "pre_turn ctx reg in_text expected =
     (case reg of
        None \<Rightarrow> Inr model_outcome
      | Some _ \<Rightarrow>
          (let text = trim_space in_text in
           if text = [] then Inr model_outcome
           else case parse_commands text of
               Inl ErrNoCommand \<Rightarrow> Inr model_outcome
             | Inl e \<Rightarrow> Inl e
             | Inr [] \<Rightarrow> Inr model_outcome
             | Inr (ivc # others) \<Rightarrow>
                 (if others \<noteq> [] then Inl MultipleCommands
                  else
                    let expd = trim_space expected in
                    if expd \<noteq> [] \<and> \<not> equal_fold expd (inv_name ivc) then Inr model_outcome
                    else case lookup_command reg (inv_name ivc) of
                        None \<Rightarrow> Inr model_outcome
                      | Some h \<Rightarrow>
                          (case h ctx ivc of
                             Inl e \<Rightarrow> Inl (HandlerFailed e)
                           | Inr res \<Rightarrow>
                               (let direct = trim_space (sr_output res) in
                                if direct \<noteq> []
                                then Inr \<lparr>so_continue = False, so_direct_reply = direct,
                                     so_metadata = None, so_trail = [res]\<rparr>
                                else Inr \<lparr>so_continue = True, so_direct_reply = [],
                                     so_metadata = (if length (sr_metadata res) > 0
                                       then Some (enrich_metadata ctx (sr_metadata res)) else None),
                                     so_trail = [res]\<rparr>)))))"

subsection \<open>Kinds\<close>

datatype command_kind = CommandKindLocal | CommandKindAgent | CommandKindPipeline | CommandKindOther nat

definition command_kind_string :: "command_kind \<Rightarrow> string" where
  "command_kind_string k = (case k of
       CommandKindLocal \<Rightarrow> ''local''
     | CommandKindAgent \<Rightarrow> ''agent''
     | CommandKindPipeline \<Rightarrow> ''pipeline''
     | CommandKindOther n \<Rightarrow> ''CommandKind('' @ show_nat n @ '')'')"

definition command_kind_parse :: "string \<Rightarrow> string + command_kind" where
  "command_kind_parse text =
     (let t = to_lower (trim_space text) in
      if t = ''local'' then Inr CommandKindLocal
      else if t = ''agent'' \<or> t = [] then Inr CommandKindAgent
      else if t = ''pipeline'' then Inr CommandKindPipeline
      else Inl text)"

subsection \<open>Printing and parsing\<close>

definition quote_runes :: "nat list \<Rightarrow> nat list" where
  "quote_runes rs = r_dquote # concat (map (\<lambda>r. if r = r_backslash \<or> r = r_dquote then [r_backslash, r] else [r]) rs)
     @ [r_dquote]"

text \<open>A command line in its canonical form: the name, and every argument in double quotes with \<open>"\<close> and
  the backslash escaped.\<close>

definition print_command :: "string \<Rightarrow> string list \<Rightarrow> string" where
  "print_command name args =
     of_runes (47 # runes name @ concat (map (\<lambda>a. 32 # quote_runes (runes a)) args))"

lemma of_runes_simps [simp]: "of_runes [] = []" "of_runes (r # rs) = encode_rune r @ of_runes rs"
    "of_runes (rs @ ts) = of_runes rs @ of_runes ts"
  by (simp_all add: of_runes_def)

lemma lex_quoted_body:
  "lex_loop tokens buf r_dquote False
     (concat (map (\<lambda>r. if r = r_backslash \<or> r = r_dquote then [r_backslash, r] else [r]) rs) @ r_dquote # rest)
   = lex_loop tokens (buf @ of_runes rs) 0 False rest"
  by (induction rs arbitrary: buf) (auto simp: r_dquote_def r_backslash_def)

lemma lex_quoted: "lex_loop tokens buf 0 False (quote_runes rs @ rest) = lex_loop tokens (buf @ of_runes rs) 0 False rest"
  using lex_quoted_body [of tokens buf rs rest]
  by (simp add: quote_runes_def r_dquote_def r_backslash_def r_quote_def)

lemma of_runes_nonempty: "rs \<noteq> [] \<Longrightarrow> of_runes rs \<noteq> []"
proof (cases rs)
  case (Cons r t)
  have "encode_rune r \<noteq> []" by (simp add: encode_rune_def Let_def)
  with Cons show ?thesis by simp
qed simp

lemma lex_args:
  "\<forall>a \<in> set as. a \<noteq> [] \<Longrightarrow>
   lex_loop tokens buf 0 False (concat (map (\<lambda>a. 32 # quote_runes a) as)) = Inr (emit tokens buf @ map of_runes as)"
proof (induction as arbitrary: tokens buf)
  case (Cons a as)
  have sp: "is_space_rune 32" by (simp add: is_space_rune_def space_points_def)
  have e: "emit t (of_runes a) = t @ [of_runes a]" for t
    using Cons.prems of_runes_nonempty [of a] by (simp add: emit_def)
  show ?case using Cons sp
    by (simp add: r_backslash_def r_quote_def r_dquote_def lex_quoted e)
qed simp

lemma lex_plain:
  "\<forall>r \<in> set rs. r \<noteq> r_backslash \<and> r \<noteq> r_quote \<and> r \<noteq> r_dquote \<and> \<not> is_space_rune r \<Longrightarrow>
   lex_loop tokens buf 0 False (rs @ rest) = lex_loop tokens (buf @ of_runes rs) 0 False rest"
  by (induction rs arbitrary: buf) auto

lemma runes_valid_utf8:
  "(\<And>r. r \<in> set (runes s) \<Longrightarrow> r \<noteq> rune_error) \<Longrightarrow> valid_utf8 s"
  by (auto simp: valid_utf8_def runes_def)

lemma valid_name_ascii:
  assumes "list_all valid_name_rune (runes s)"
  shows "s = map chr_of (runes s)"
proof -
  have n: "\<forall>r \<in> set (runes s). valid_name_rune r" using assms by (simp add: list_all_iff)
  then have "valid_utf8 s" by (intro runes_valid_utf8) (auto simp: valid_name_rune_def rune_error_def)
  then have "s = of_runes (runes s)" by (simp add: of_runes_runes)
  also have "\<dots> = concat (map (\<lambda>r. [chr_of r]) (runes s))"
    unfolding of_runes_def using n
    by (intro arg_cong [of _ _ concat] map_cong) (auto simp: encode_rune_def valid_name_rune_def valid_rune_def)
  finally show ?thesis by simp
qed

lemma valid_name_lower: "valid_name s \<Longrightarrow> to_lower s = s"
proof -
  assume v: "valid_name s"
  then obtain rs where s: "s = map chr_of rs" and n: "\<forall>r \<in> set rs. valid_name_rune r"
    using valid_name_ascii [of s] by (auto simp: valid_name_def list_all_iff)
  have "map (\<lambda>c. chr_of (ascii_lower (byte_of c))) (map chr_of rs) = map chr_of rs"
    using n by (auto simp: ascii_lower_def valid_name_rune_def)
  moreover have "is_ascii s" using n s by (auto simp: is_ascii_def list_all_iff valid_name_rune_def)
  ultimately show ?thesis by (simp add: to_lower_def s)
qed

lemma valid_name_trimmed: "valid_name s \<Longrightarrow> trim_space s = s"
proof -
  assume v: "valid_name s"
  then obtain rs where s: "s = map chr_of rs" and n: "\<forall>r \<in> set rs. valid_name_rune r" "rs \<noteq> []"
    using valid_name_ascii [of s] by (force simp: valid_name_def list_all_iff)
  have "\<forall>c \<in> set s. visible c" using n(1) s by (auto simp: visible_def valid_name_rune_def)
  moreover have "s \<noteq> []" using s n(2) by simp
  ultimately show ?thesis by (intro trim_space_visible) simp_all
qed

lemma parse_tokens_plain: "\<forall>t \<in> set ts. \<not> prefix ''--'' t \<Longrightarrow> parse_tokens fl args ts = Inr (fl, args @ ts)"
  by (induction ts arbitrary: args) auto

lemma encode_slash: "encode_rune 47 = ''/''"
  by code_simp

text \<open>C21: the lexer and parser read back every canonical command line: for a valid name and
  non-empty UTF-8 arguments that do not look like flags, whatever quotes, backslashes, blanks or
  line breaks they hold, \<open>parseLine\<close> returns exactly the name and the arguments.\<close>

theorem parse_print_command:
  assumes "valid_name name" and "\<forall>a \<in> set args. a \<noteq> [] \<and> valid_utf8 a \<and> \<not> prefix ''--'' a"
  shows "parse_line (print_command name args) =
    Inr \<lparr>inv_name = name, inv_args = args, inv_flags = [], inv_raw = [], inv_position = 0\<rparr>"
proof -
  let ?body = "runes name @ concat (map (\<lambda>a. 32 # quote_runes (runes a)) args)"
  have nm: "\<forall>r \<in> set (runes name). valid_name_rune r" using assms(1) by (simp add: valid_name_def list_all_iff)
  have "\<forall>r \<in> set (47 # ?body). valid_rune r"
  proof -
    have "valid_rune r" if "r \<in> set (quote_runes (runes a))" for r a
      using that by (auto simp: quote_runes_def r_dquote_def r_backslash_def valid_rune_def
          dest!: runes_valid split: if_splits)
    moreover have "valid_rune 47" "valid_rune 32" by (simp_all add: valid_rune_def)
    ultimately show ?thesis using runes_valid by auto
  qed
  then have r: "runes (print_command name args) = 47 # ?body"
    unfolding print_command_def by (rule runes_of_runes)
  have pl: "\<forall>r \<in> set (47 # runes name). r \<noteq> r_backslash \<and> r \<noteq> r_quote \<and> r \<noteq> r_dquote \<and> \<not> is_space_rune r"
    using nm by (auto simp: valid_name_rune_def r_backslash_def r_quote_def r_dquote_def is_space_rune_def space_points_def)
  have ne: "\<forall>a \<in> set (map runes args). a \<noteq> []"
    using assms(2) of_runes_runes by fastforce
  have name: "of_runes (runes name) = name"
    using nm by (intro of_runes_runes runes_valid_utf8) (auto simp: valid_name_rune_def rune_error_def)
  have as: "map of_runes (map runes args) = args"
    unfolding map_map using assms(2) by (intro map_idI) (simp add: of_runes_runes)
  have "lex_line (print_command name args) =
      lex_loop [] (of_runes (47 # runes name)) 0 False (concat (map (\<lambda>a. 32 # quote_runes a) (map runes args)))"
    unfolding lex_line_def r using lex_plain [OF pl, of "[]" "[]"] by (simp add: comp_def)
  also have "\<dots> = Inr ([CHR ''/'' # name] @ args)"
    using lex_args [OF ne, of "[]" "of_runes (47 # runes name)"] as name
    by (simp add: emit_def encode_slash)
  finally have "lex_line (print_command name args) = Inr ((CHR ''/'' # name) # args)" by simp
  moreover have "trim_prefix (CHR ''/'' # name) ''/'' = name" by (simp add: trim_prefix_def)
  ultimately show ?thesis
    using assms valid_name_lower [OF assms(1)] parse_tokens_plain [of args "[]" "[]"]
    by (simp add: parse_line_def Let_def) (simp add: valid_name_def)
qed

theorem parse_print_command_witness:
  "parse_line (print_command ''say'' [''it is'', [CHR 0x22]]) =
     Inr \<lparr>inv_name = ''say'', inv_args = [''it is'', [CHR 0x22]], inv_flags = [], inv_raw = [], inv_position = 0\<rparr>"
proof -
  have "valid_name ''say''" "valid_utf8 ''it is''" "valid_utf8 [CHR 0x22]" by code_simp+
  then show ?thesis using parse_print_command [of "''say''" "[''it is'', [CHR 0x22]]"] by simp
qed

subsection \<open>Dispatch\<close>

definition registry_inv :: "slash_registry \<Rightarrow> bool" where
  "registry_inv r \<longleftrightarrow> distinct (map fst r) \<and> (\<forall>(n, d, h) \<in> set r. valid_name n \<and> sd_name d = n)"

lemma registry_inv_empty [inv_intros]: "registry_inv new_slash_registry"
  by (simp add: registry_inv_def new_slash_registry_def)

lemma register_cases:
  assumes "register_command (Some r) d (Some h) = Inr r'"
  shows "r' = r @ [(to_lower (trim_space (sd_name d)),
      \<lparr>sd_name = to_lower (trim_space (sd_name d)), sd_description = sd_description d\<rparr>, h)]"
    and "valid_name (to_lower (trim_space (sd_name d)))"
    and "map_of r (to_lower (trim_space (sd_name d))) = None"
proof -
  show n: "map_of r (to_lower (trim_space (sd_name d))) = None"
    and "valid_name (to_lower (trim_space (sd_name d)))"
    using assms by (cases "map_of r (to_lower (trim_space (sd_name d)))";
        auto simp: register_command_def Let_def split: if_splits)+
  then show "r' = r @ [(to_lower (trim_space (sd_name d)),
      \<lparr>sd_name = to_lower (trim_space (sd_name d)), sd_description = sd_description d\<rparr>, h)]"
    using assms by (auto simp: register_command_def Let_def map_put_new map_of_eq_None_iff split: if_splits)
qed

lemma register_inv [inv_intros]:
  "registry_inv r \<Longrightarrow> register_command (Some r) d (Some h) = Inr r' \<Longrightarrow> registry_inv r'"
  using register_cases [of r d h r'] by (auto simp: registry_inv_def map_of_eq_None_iff)

lemma parse_lines_none: "\<forall>l \<in> set ls. \<not> prefix ''/'' (trim_space l) \<Longrightarrow> parse_lines n ls = Inr []"
  by (induction n ls rule: parse_lines.induct) (auto simp: Let_def)

text \<open>Registering a command makes exactly that command available: a lookup of any spelling of its
  name - other case, surrounding blanks - finds its handler, every other lookup is as before, a
  second registration of the name is refused, and the registry's names stay valid and distinct.\<close>

theorem register_then_lookup:
  assumes "registry_inv r" and "register_command (Some r) d (Some h) = Inr r'"
  shows "registry_inv r'
    \<and> (\<forall>q. lookup_command (Some r') q =
         (if to_lower (trim_space q) = to_lower (trim_space (sd_name d)) then Some h
          else lookup_command (Some r) q))
    \<and> register_command (Some r') d (Some h') = Inl (DuplicateCommand (to_lower (trim_space (sd_name d))))"
proof -
  note c = register_cases [OF assms(2)]
  have "registry_inv r'" by (rule register_inv [OF assms])
  moreover have "valid_name (to_lower (trim_space (sd_name d)))" "to_lower (trim_space (sd_name d)) \<noteq> []"
    using c(2) by (auto simp: valid_name_def)
  ultimately show ?thesis using c
    by (auto simp: lookup_command_def register_command_def Let_def map_add_def map_of_append split: option.splits)
qed

theorem register_then_lookup_witness:
  "\<exists>r'. builtins = Inr r' \<and> lookup_command (Some r') '' Compact '' = Some handle_compact"
proof -
  let ?d = "\<lparr>sd_name = ''compact'',
        sd_description = ''Compress the current conversation into a fresh continuation context.''\<rparr>"
  have t: "trim_space ''compact'' = ''compact''" "to_lower ''compact'' = ''compact''" "valid_name ''compact''"
    "to_lower (trim_space '' Compact '') = ''compact''" by code_simp+
  obtain r' where r': "register_command (Some []) ?d (Some handle_compact) = Inr r'"
    using t by (simp add: register_command_def Let_def)
  then have "lookup_command (Some r') '' Compact '' = Some handle_compact"
    using register_then_lookup [of "[]" ?d handle_compact r' handle_compact] t registry_inv_empty
    by (simp add: new_slash_registry_def)
  with r' show ?thesis by (simp add: builtins_def new_slash_registry_def)
qed



end
