(* ===== verification/Events.thy ===== *)
theory Events
  imports TurnCtx
begin

text \<open>
  \<open>internal/kernel/events\<close>: the fan-out of typed events. Subscribers are named by values of type
  \<open>'h\<close>; publishing gives the handlers it starts, each in a goroutine of its own, and the event it
  hands to the sink.
\<close>

record 'p event =
  ev_type :: string
  ev_attrs :: "(string \<times> string) list"
  ev_payload :: "'p option"

record turn_completed =
  tcp_user_msg :: string
  tcp_assistant_msg :: string
  tcp_session :: string
  tcp_channel :: string
  tcp_chat_id :: string
  tcp_at :: instant

definition event_bus_publish_failure :: string where "event_bus_publish_failure = ''bus.publish_failure''"
definition event_bus_closed :: string where "event_bus_closed = ''bus.closed''"
definition event_outbound_delivery_failed :: string where
  "event_outbound_delivery_failed = ''outbound.delivery_failed''"
definition event_stream_failed :: string where "event_stream_failed = ''stream.failed''"
definition event_turn_completed :: string where "event_turn_completed = ''turn.completed''"

text \<open>\<open>sink = None\<close> is \<open>NoOp\<close>; \<open>OrPublisher\<close> maps a nil publisher to it.\<close>

record ('h, 's) fanout =
  fo_subs :: "(string \<times> (nat \<times> 'h) list) list"
  fo_next :: nat
  fo_sink :: "'s option"

definition new_fanout :: "'s option \<Rightarrow> ('h, 's) fanout" where
  "new_fanout sink = \<lparr>fo_subs = [], fo_next = 0, fo_sink = sink\<rparr>"

definition set_sink :: "('h, 's) fanout \<Rightarrow> 's option \<Rightarrow> ('h, 's) fanout" where
  "set_sink f sink = f\<lparr>fo_sink := sink\<rparr>"

definition subs_of :: "('h, 's) fanout \<Rightarrow> string \<Rightarrow> (nat \<times> 'h) list" where
  "subs_of f typ = (case map_of (fo_subs f) typ of None \<Rightarrow> [] | Some m \<Rightarrow> m)"

text \<open>\<open>Subscribe\<close> returns the id that its unsubscribe function deletes.\<close>

definition subscribe :: "('h, 's) fanout \<Rightarrow> string \<Rightarrow> 'h \<Rightarrow> ('h, 's) fanout \<times> nat" where
  "subscribe f typ h =
     (let n = fo_next f in
      (f\<lparr>fo_next := n + 1, fo_subs := map_put typ (map_put n h (subs_of f typ)) (fo_subs f)\<rparr>, n))"

definition unsubscribe :: "('h, 's) fanout \<Rightarrow> string \<Rightarrow> nat \<Rightarrow> ('h, 's) fanout" where
  "unsubscribe f typ n =
     (case map_of (fo_subs f) typ of
        None \<Rightarrow> f
      | Some m \<Rightarrow> f\<lparr>fo_subs := map_put typ (map_del n m) (fo_subs f)\<rparr>)"

definition publish_event :: "('h, 's) fanout \<Rightarrow> 'p event \<Rightarrow> ('s \<times> 'p event) option \<times> 'h list" where
  "publish_event f e =
     (map_option (\<lambda>s. (s, e)) (fo_sink f), map snd (subs_of f (ev_type e)))"

subsection \<open>Correctness\<close>

definition fanout_inv :: "('h, 's) fanout \<Rightarrow> bool" where
  "fanout_inv f \<longleftrightarrow> (\<forall>m \<in> snd ` set (fo_subs f). distinct (map fst m) \<and> (\<forall>n \<in> fst ` set m. n < fo_next f))"

lemma subs_of_put: "subs_of (f\<lparr>fo_next := n, fo_subs := map_put t m (fo_subs f)\<rparr>) t' =
    (if t = t' then m else subs_of f t')"
  by (simp add: subs_of_def map_put_def AList.update_conv')

lemma subs_of_put': "subs_of (f\<lparr>fo_subs := map_put t m (fo_subs f)\<rparr>) t' =
    (if t = t' then m else subs_of f t')"
  by (simp add: subs_of_def map_put_def AList.update_conv')

lemma fanout_inv_subs: "fanout_inv f \<Longrightarrow> distinct (map fst (subs_of f t)) \<and> (\<forall>n \<in> fst ` set (subs_of f t). n < fo_next f)"
proof (cases "map_of (fo_subs f) t")
  case (Some m)
  assume "fanout_inv f"
  moreover have "m \<in> snd ` set (fo_subs f)" using map_of_SomeD [OF Some] by force
  ultimately show ?thesis unfolding fanout_inv_def subs_of_def Some option.case by blast
qed (simp add: subs_of_def)

lemma set_map_put: "set (map_put k v m) \<subseteq> insert (k, v) (set m)"
  by (induction m) (auto simp: map_put_def)

lemma fanout_inv_put:
  assumes "fanout_inv f" and "fo_next f \<le> n" and "distinct (map fst m)" and "\<forall>i \<in> fst ` set m. i < n"
  shows "fanout_inv (f\<lparr>fo_next := n, fo_subs := map_put t m (fo_subs f)\<rparr>)"
proof -
  have "snd ` set (map_put t m (fo_subs f)) \<subseteq> insert m (snd ` set (fo_subs f))"
    using set_map_put [of t m "fo_subs f"] by auto
  with assms show ?thesis by (fastforce simp: fanout_inv_def)
qed

lemma map_del_append_new: "n \<notin> fst ` set m \<Longrightarrow> map_del n (m @ [(n, h)]) = m"
  by (induction m) (auto simp: map_del_def)

lemma subscribe_inv [inv_intros]: "fanout_inv f \<Longrightarrow> fanout_inv (fst (subscribe f t h))"
proof -
  assume inv: "fanout_inv f"
  have d: "distinct (map fst (subs_of f t))" and b: "\<forall>i \<in> fst ` set (subs_of f t). i < fo_next f"
    using fanout_inv_subs [OF inv] by auto
  then have "fo_next f \<notin> fst ` set (subs_of f t)" by auto
  then have e: "map_put (fo_next f) h (subs_of f t) = subs_of f t @ [(fo_next f, h)]"
    and "distinct (map fst (subs_of f t @ [(fo_next f, h)]))"
    using d by (simp_all add: map_put_new)
  with b have "fanout_inv (f\<lparr>fo_next := fo_next f + 1, fo_subs := map_put t (subs_of f t @ [(fo_next f, h)]) (fo_subs f)\<rparr>)"
    by (intro fanout_inv_put [OF inv]) (auto simp: less_Suc_eq)
  then show ?thesis by (simp add: subscribe_def Let_def e)
qed

lemma unsubscribe_inv [inv_intros]: "fanout_inv f \<Longrightarrow> fanout_inv (unsubscribe f t n)"
proof (cases "map_of (fo_subs f) t")
  case (Some m)
  assume inv: "fanout_inv f"
  have m: "subs_of f t = m" using Some by (simp add: subs_of_def)
  have "distinct (map fst (map_del n m))" "fst ` set (map_del n m) \<subseteq> fst ` set m"
    using fanout_inv_subs [OF inv, of t] m
    by (simp add: map_del_def AList.distinct_delete) (auto simp: map_del_def AList.delete_eq)
  then have "fanout_inv (f\<lparr>fo_next := fo_next f, fo_subs := map_put t (map_del n m) (fo_subs f)\<rparr>)"
    using fanout_inv_subs [OF inv, of t] m by (intro fanout_inv_put [OF inv] order_refl) blast+
  with Some show ?thesis by (simp add: unsubscribe_def)
qed (simp add: unsubscribe_def)

text \<open>A subscription adds its handler exactly once to the events of its type and changes no other
  type's handlers, and its unsubscribe function takes back exactly that: afterwards every event
  reaches the handlers it reached before the subscription, in the same order.\<close>

theorem subscription_delivery:
  assumes "fanout_inv f" and "subscribe f t h = (f', n)"
  shows "fanout_inv f'
    \<and> snd (publish_event f' e) = snd (publish_event f e) @ (if ev_type e = t then [h] else [])
    \<and> snd (publish_event (unsubscribe f' t n) e) = snd (publish_event f e)
    \<and> fst (publish_event f' e) = fst (publish_event f e)"
proof -
  have n: "n = fo_next f" "f' = f\<lparr>fo_next := n + 1, fo_subs := map_put t (map_put n h (subs_of f t)) (fo_subs f)\<rparr>"
    using assms(2) by (auto simp: subscribe_def Let_def)
  have new: "n \<notin> fst ` set (subs_of f t)" using fanout_inv_subs [OF assms(1), of t] n(1) by auto
  have s: "subs_of f' u = (if u = t then subs_of f t @ [(n, h)] else subs_of f u)" for u
    using n(2) new by (auto simp: subs_of_put map_put_new)
  have u: "subs_of (unsubscribe f' t n) u = subs_of f u" for u
  proof -
    have "map_of (fo_subs f') t = Some (subs_of f t @ [(n, h)])"
      using n(2) new by (simp add: map_put_def AList.update_conv' map_put_new [unfolded map_put_def])
    then show ?thesis using s new by (simp add: unsubscribe_def subs_of_put' map_del_append_new)
  qed
  have "fanout_inv f'" using subscribe_inv [OF assms(1), of t h] assms(2) by simp
  then show ?thesis using s u n(2) by (simp add: publish_event_def)
qed

theorem subscription_delivery_witness:
  "snd (publish_event (unsubscribe (fst (subscribe (new_fanout None :: (string, nat) fanout) ''a'' ''h'')) ''a'' 0)
     \<lparr>ev_type = ''a'', ev_attrs = [], ev_payload = None :: nat option\<rparr>) = []"
proof -
  let ?f = "new_fanout None :: (string, nat) fanout"
  have i: "fanout_inv ?f" by (simp add: fanout_inv_def new_fanout_def)
  have e: "subscribe ?f ''a'' ''h'' = (fst (subscribe ?f ''a'' ''h''), 0)"
    by (simp add: subscribe_def new_fanout_def)
  show ?thesis
    using subscription_delivery [OF i e, of "\<lparr>ev_type = ''a'', ev_attrs = [], ev_payload = None :: nat option\<rparr>"]
    by (simp add: publish_event_def new_fanout_def subs_of_def)
qed

end
