(* ===== verification/MessageBus.thy ===== *)
theory MessageBus
  imports SlashCommand Events
begin

text \<open>
  \<open>internal/kernel/bus\<close>: the message bus between channels and the pipeline. A publisher that is inside
  the \<open>select\<close> of \<open>publishEnqueue\<close> is an entry of \<open>b_pending\<close> (it holds the wait group); which branch of
  the \<open>select\<close> it takes, and how publishers, readers and \<open>Close\<close> interleave, is the choice of the next
  step. \<open>b_accepted\<close>, \<open>b_received\<close> and \<open>b_results\<close> record the history for the theorems.
\<close>

subsection \<open>Messages\<close>

text \<open>A content block of the agent library: text, or anything else, opaque.\<close>

datatype content_block = TextBlock string | OtherBlock string

record routing_hints =
  rh_session_mode :: session_mode
  rh_force_sync :: bool
  rh_builtin_command :: string
  rh_slash_command :: string
  rh_slash_type :: string
  rh_slash_args :: string
  rh_message_id :: int

record inbound_message =
  im_channel :: string
  im_sender_id :: string
  im_chat_id :: string
  im_content :: string
  im_timestamp :: instant
  im_media :: "string list"
  im_hints :: routing_hints
  im_transport_meta :: "metadata option"
  im_content_blocks :: "content_block list"

record outbound_message =
  om_channel :: string
  om_chat_id :: string
  om_content :: string
  om_reply_to :: string
  om_media :: "string list"
  om_metadata :: "metadata option"
  om_content_blocks :: "content_block list"

datatype bus_error = ErrBusClosed | CtxErr string | ErrInvalidInbound | ErrInvalidOutbound

definition bus_error_text :: "bus_error \<Rightarrow> string" where
  "bus_error_text e = (case e of
       ErrBusClosed \<Rightarrow> ''bus closed''
     | CtxErr t \<Rightarrow> t
     | ErrInvalidInbound \<Rightarrow> ''bus: inbound message has empty channel''
     | ErrInvalidOutbound \<Rightarrow> ''bus: outbound message has empty channel'')"

definition normalize_inbound :: "inbound_message \<Rightarrow> bus_error + inbound_message" where
  "normalize_inbound m0 =
     (let m = m0\<lparr>im_channel := trim_space (im_channel m0), im_chat_id := trim_space (im_chat_id m0),
                 im_sender_id := trim_space (im_sender_id m0)\<rparr> in
      if im_channel m = [] then Inl ErrInvalidInbound else Inr m)"

definition normalize_outbound :: "outbound_message \<Rightarrow> bus_error + outbound_message" where
  "normalize_outbound m0 =
     (let m = m0\<lparr>om_channel := trim_space (om_channel m0), om_chat_id := trim_space (om_chat_id m0),
                 om_reply_to := trim_space (om_reply_to m0)\<rparr> in
      if om_channel m = [] then Inl ErrInvalidOutbound else Inr m)"

definition stable_route_key :: "inbound_message \<Rightarrow> string" where
  "stable_route_key m = im_channel m @ '':'' @ im_chat_id m"

text \<open>The two queues; a queued item names the queue it is for.\<close>

datatype bus_stream = StreamInbound | StreamOutbound

datatype bus_item = InItem inbound_message | OutItem outbound_message

definition item_stream :: "bus_item \<Rightarrow> bus_stream" where
  "item_stream it = (case it of InItem _ \<Rightarrow> StreamInbound | OutItem _ \<Rightarrow> StreamOutbound)"

definition stream_name :: "bus_stream \<Rightarrow> string" where
  "stream_name st = (case st of StreamInbound \<Rightarrow> ''inbound'' | StreamOutbound \<Rightarrow> ''outbound'')"

definition item_channel :: "bus_item \<Rightarrow> string" where
  "item_channel it = (case it of InItem m \<Rightarrow> im_channel m | OutItem m \<Rightarrow> om_channel m)"

definition normalize_item :: "bus_item \<Rightarrow> bus_error + bus_item" where
  "normalize_item it = (case it of
       InItem m \<Rightarrow> (case normalize_inbound m of Inl e \<Rightarrow> Inl e | Inr m' \<Rightarrow> Inr (InItem m'))
     | OutItem m \<Rightarrow> (case normalize_outbound m of Inl e \<Rightarrow> Inl e | Inr m' \<Rightarrow> Inr (OutItem m')))"

subsection \<open>The bus\<close>

record 'h bus =
  b_cap :: nat
  b_inbound :: "bus_item list"
  b_outbound :: "bus_item list"
  b_closed :: bool
  b_chans_closed :: bool
  b_pending :: "(nat \<times> bus_item) list"
  b_subs :: "(string \<times> 'h) list"
  b_events :: "unit event list"
  b_pulses :: "string list"
  b_results :: "(nat \<times> bus_error option) list"
  b_accepted :: "(nat \<times> bus_item) list"
  b_received :: "bus_item list"
  b_delivered :: "('h \<times> outbound_message) list"
  b_dropped :: "outbound_message list"

definition new_bus :: "int \<Rightarrow> 'h bus" where
  "new_bus bufSize =
     \<lparr>b_cap = (if bufSize \<le> 0 then 100 else nat bufSize), b_inbound = [], b_outbound = [],
      b_closed = False, b_chans_closed = False, b_pending = [], b_subs = [], b_events = [],
      b_pulses = [], b_results = [], b_accepted = [], b_received = [], b_delivered = [], b_dropped = []\<rparr>"

definition b_queue :: "'h bus \<Rightarrow> bus_stream \<Rightarrow> bus_item list" where
  "b_queue b st = (case st of StreamInbound \<Rightarrow> b_inbound b | StreamOutbound \<Rightarrow> b_outbound b)"

definition publish_failure_event :: "string \<Rightarrow> string \<Rightarrow> bus_error \<Rightarrow> unit event" where
  "publish_failure_event stream key err =
     \<lparr>ev_type = event_bus_publish_failure,
      ev_attrs = [(''stream'', stream), (''channel'', key), (''error'', bus_error_text err)],
      ev_payload = None\<rparr>"

definition bus_closed_event :: "unit event" where
  "bus_closed_event = \<lparr>ev_type = event_bus_closed, ev_attrs = [], ev_payload = None\<rparr>"

definition delivery_failed_event :: "string \<Rightarrow> string \<Rightarrow> string \<Rightarrow> unit event" where
  "delivery_failed_event channel chatID err =
     \<lparr>ev_type = event_outbound_delivery_failed,
      ev_attrs = [(''channel'', channel), (''error'', err)] @ (if chatID \<noteq> [] then [(''chat_id'', chatID)] else []),
      ev_payload = None\<rparr>"

definition report_publish_failure :: "bus_item \<Rightarrow> bus_error \<Rightarrow> 'h bus \<Rightarrow> 'h bus" where
  "report_publish_failure it err b =
     b\<lparr>b_events := b_events b @
        [publish_failure_event (stream_name (item_stream it)) (item_channel it) err]\<rparr>"

definition report_delivery_failure :: "outbound_message \<Rightarrow> string \<Rightarrow> 'h bus \<Rightarrow> 'h bus" where
  "report_delivery_failure m err b =
     b\<lparr>b_events := b_events b @ [delivery_failed_event (om_channel m) (om_chat_id m) err],
       b_pulses := b_pulses b @ [''delivery_failed'']\<rparr>"

definition publish_return :: "nat \<Rightarrow> bus_error option \<Rightarrow> 'h bus \<Rightarrow> 'h bus" where
  "publish_return pid e b = b\<lparr>b_results := b_results b @ [(pid, e)]\<rparr>"

text \<open>\<open>PublishInbound\<close>/\<open>PublishOutbound\<close> up to the \<open>select\<close>: normalisation, the closed check under the
  lock, and the entry into the wait group.\<close>

definition publish_start :: "nat \<Rightarrow> bus_item \<Rightarrow> 'h bus \<Rightarrow> 'h bus" where
  "publish_start pid it0 b =
     (case normalize_item it0 of
        Inl e \<Rightarrow> publish_return pid (Some e) b
      | Inr it \<Rightarrow>
          (if b_closed b
           then publish_return pid (Some ErrBusClosed) (report_publish_failure it ErrBusClosed b)
           else b\<lparr>b_pending := b_pending b @ [(pid, it)]\<rparr>))"

definition leave_select :: "nat \<Rightarrow> 'h bus \<Rightarrow> 'h bus" where
  "leave_select pid b = b\<lparr>b_pending := filter (\<lambda>p. fst p \<noteq> pid) (b_pending b)\<rparr>"

text \<open>The three branches of the \<open>select\<close>: \<open>None\<close> when the branch is not ready.\<close>

definition select_ctx_done :: "nat \<Rightarrow> string \<Rightarrow> 'h bus \<Rightarrow> 'h bus option" where
  "select_ctx_done pid err b =
     (case map_of (b_pending b) pid of
        None \<Rightarrow> None
      | Some it \<Rightarrow> Some (publish_return pid (Some (CtxErr err))
                    (report_publish_failure it (CtxErr err) (leave_select pid b))))"

definition select_bus_done :: "nat \<Rightarrow> 'h bus \<Rightarrow> 'h bus option" where
  "select_bus_done pid b =
     (case map_of (b_pending b) pid of
        None \<Rightarrow> None
      | Some it \<Rightarrow>
          (if \<not> b_closed b then None
           else Some (publish_return pid (Some ErrBusClosed)
                  (report_publish_failure it ErrBusClosed (leave_select pid b)))))"

definition enqueue :: "bus_item \<Rightarrow> 'h bus \<Rightarrow> 'h bus" where
  "enqueue it b = (case item_stream it of
       StreamInbound \<Rightarrow> b\<lparr>b_inbound := b_inbound b @ [it]\<rparr>
     | StreamOutbound \<Rightarrow> b\<lparr>b_outbound := b_outbound b @ [it]\<rparr>)"

definition select_send :: "nat \<Rightarrow> 'h bus \<Rightarrow> 'h bus option" where
  "select_send pid b =
     (case map_of (b_pending b) pid of
        None \<Rightarrow> None
      | Some it \<Rightarrow>
          (if length (b_queue b (item_stream it)) < b_cap b
           then Some (publish_return pid None (leave_select pid
                  (enqueue it b)\<lparr>b_accepted := b_accepted b @ [(pid, it)]\<rparr>))
           else None))"

text \<open>\<open>Close\<close> up to \<open>wg.Wait\<close>, and after it: \<open>closeOnce\<close> makes a second call do nothing.\<close>

definition close_start :: "'h bus \<Rightarrow> 'h bus" where
  "close_start b = b\<lparr>b_closed := True\<rparr>"

definition close_finish :: "'h bus \<Rightarrow> 'h bus option" where
  "close_finish b =
     (if b_closed b \<and> \<not> b_chans_closed b \<and> b_pending b = []
      then Some (b\<lparr>b_chans_closed := True, b_events := b_events b @ [bus_closed_event]\<rparr>)
      else None)"

definition set_outbound_subscriber :: "string \<Rightarrow> 'h option \<Rightarrow> 'h bus \<Rightarrow> 'h bus" where
  "set_outbound_subscriber channel0 fn b =
     (let channel = trim_space channel0 in
      case fn of
        None \<Rightarrow> b\<lparr>b_subs := map_del channel (b_subs b)\<rparr>
      | Some h \<Rightarrow> b\<lparr>b_subs := map_put channel h (b_subs b)\<rparr>)"

text \<open>A reader of \<open>InboundChan\<close>.\<close>

definition receive_inbound :: "'h bus \<Rightarrow> (bus_item \<times> 'h bus) option" where
  "receive_inbound b =
     (case b_inbound b of
        [] \<Rightarrow> None
      | it # rest \<Rightarrow> Some (it, b\<lparr>b_inbound := rest, b_received := b_received b @ [it]\<rparr>))"

text \<open>One round of \<open>DispatchOutbound\<close>; what the subscriber's callback does is an argument.\<close>

datatype callback_result = CallbackOk | CallbackErr string | CallbackPanic

definition dispatch_outbound :: "callback_result \<Rightarrow> 'h bus \<Rightarrow> 'h bus option" where
  "dispatch_outbound res b =
     (case b_outbound b of
        [] \<Rightarrow> None
      | it # rest \<Rightarrow>
          (let b' = b\<lparr>b_outbound := rest, b_received := b_received b @ [it]\<rparr> in
           case it of
             InItem _ \<Rightarrow> Some b'
           | OutItem m \<Rightarrow>
               (case map_of (b_subs b) (om_channel m) of
                  None \<Rightarrow> Some (b'\<lparr>b_dropped := b_dropped b @ [m]\<rparr>)
                | Some h \<Rightarrow>
                    (let b'' = b'\<lparr>b_delivered := b_delivered b @ [(h, m)]\<rparr> in
                     case res of
                       CallbackErr e \<Rightarrow> Some (report_delivery_failure m e b'')
                     | _ \<Rightarrow> Some b''))))"

subsection \<open>Interleavings\<close>

definition pid_used :: "nat \<Rightarrow> 'h bus \<Rightarrow> bool" where
  "pid_used pid b \<longleftrightarrow> pid \<in> fst ` set (b_pending b) \<or> pid \<in> fst ` set (b_results b)"

inductive bus_step :: "'h bus \<Rightarrow> 'h bus \<Rightarrow> bool" where
  start: "\<not> pid_used pid b \<Longrightarrow> bus_step b (publish_start pid it b)"
| ctx: "select_ctx_done pid err b = Some b' \<Longrightarrow> bus_step b b'"
| bus_done: "select_bus_done pid b = Some b' \<Longrightarrow> bus_step b b'"
| send: "select_send pid b = Some b' \<Longrightarrow> bus_step b b'"
| close_begin: "bus_step b (close_start b)"
| close_end: "close_finish b = Some b' \<Longrightarrow> bus_step b b'"
| subscribe: "bus_step b (set_outbound_subscriber channel fn b)"
| receive: "receive_inbound b = Some (it, b') \<Longrightarrow> bus_step b b'"
| dispatch: "dispatch_outbound res b = Some b' \<Longrightarrow> bus_step b b'"

inductive bus_steps :: "'h bus \<Rightarrow> 'h bus \<Rightarrow> bool" where
  bus_refl: "bus_steps b b"
| bus_then: "bus_steps a b \<Longrightarrow> bus_step b c \<Longrightarrow> bus_steps a c"

inductive_cases bus_stepE: "bus_step b c"

subsection \<open>The invariant\<close>

definition of_stream :: "bus_stream \<Rightarrow> bus_item list \<Rightarrow> bus_item list" where
  "of_stream st its = filter (\<lambda>it. item_stream it = st) its"

lemma of_stream_simps [simp]: "of_stream st [] = []" "of_stream st (xs @ ys) = of_stream st xs @ of_stream st ys"
    "of_stream st (it # its) = (if item_stream it = st then it # of_stream st its else of_stream st its)"
  by (simp_all add: of_stream_def)

definition fifo_inv :: "'h bus \<Rightarrow> bus_stream \<Rightarrow> bool" where
  "fifo_inv b st \<longleftrightarrow>
     of_stream st (b_received b) @ b_queue b st = of_stream st (map snd (b_accepted b))
     \<and> length (b_queue b st) \<le> b_cap b \<and> (\<forall>it \<in> set (b_queue b st). item_stream it = st)"

definition call_inv :: "'h bus \<Rightarrow> bool" where
  "call_inv b \<longleftrightarrow>
     distinct (map fst (b_pending b) @ map fst (b_results b))
     \<and> map fst (filter (\<lambda>r. snd r = None) (b_results b)) = map fst (b_accepted b)
     \<and> (b_chans_closed b \<longrightarrow> b_closed b \<and> b_pending b = [])"

definition bus_inv :: "'h bus \<Rightarrow> bool" where
  "bus_inv b \<longleftrightarrow> (\<forall>st. fifo_inv b st) \<and> call_inv b"

lemmas bus_ops = publish_return_def report_publish_failure_def report_delivery_failure_def leave_select_def

lemma fifo_frame:
  "b_received c = b_received b \<Longrightarrow> b_inbound c = b_inbound b \<Longrightarrow> b_outbound c = b_outbound b \<Longrightarrow>
   b_accepted c = b_accepted b \<Longrightarrow> b_cap c = b_cap b \<Longrightarrow> fifo_inv c st = fifo_inv b st"
  by (simp add: fifo_inv_def b_queue_def split: bus_stream.splits)

lemma call_frame:
  "b_pending c = b_pending b \<Longrightarrow> b_results c = b_results b \<Longrightarrow> b_accepted c = b_accepted b \<Longrightarrow>
   b_closed c = b_closed b \<Longrightarrow> b_chans_closed c = b_chans_closed b \<Longrightarrow> call_inv c = call_inv b"
  by (simp add: call_inv_def)

lemma fst_filter_ne: "fst ` set (filter (\<lambda>p. fst p \<noteq> pid) xs) = fst ` set xs - {pid}"
  by auto

lemma new_bus_inv [inv_intros]: "bus_inv (new_bus n)"
  by (simp add: bus_inv_def new_bus_def fifo_inv_def call_inv_def b_queue_def split: bus_stream.splits)

lemma leave_call:
  assumes "call_inv b" and "map_of (b_pending b) pid = Some it"
  shows "distinct (map fst (filter (\<lambda>p. fst p \<noteq> pid) (b_pending b)) @ map fst (b_results b) @ [pid])"
proof -
  have "pid \<in> fst ` set (b_pending b)" using map_of_SomeD [OF assms(2)] by force
  with assms(1) show ?thesis by (auto simp: call_inv_def distinct_map_filter)
qed

lemma not_chans_closed: "call_inv b \<Longrightarrow> map_of (b_pending b) pid = Some it \<Longrightarrow> \<not> b_chans_closed b"
  by (auto simp: call_inv_def)

lemma start_inv [inv_intros]: "bus_inv b \<Longrightarrow> \<not> pid_used pid b \<Longrightarrow> bus_inv (publish_start pid it b)"
  by (auto simp: bus_inv_def publish_start_def bus_ops fifo_inv_def call_inv_def b_queue_def pid_used_def
      split: sum.splits bus_stream.splits)

text \<open>A publisher that leaves the \<open>select\<close> with an error.\<close>

lemma failed_publish_inv:
  assumes "bus_inv b" and "map_of (b_pending b) pid = Some it"
  shows "bus_inv (publish_return pid (Some e) (report_publish_failure it e (leave_select pid b)))"
proof -
  have c: "call_inv b" and f: "\<And>st. fifo_inv b st" using assms(1) by (simp_all add: bus_inv_def)
  let ?b = "publish_return pid (Some e) (report_publish_failure it e (leave_select pid b))"
  have "fifo_inv ?b st = fifo_inv b st" for st by (rule fifo_frame) (simp_all add: bus_ops)
  moreover have "call_inv ?b"
    using c leave_call [OF c assms(2)] not_chans_closed [OF c assms(2)]
    unfolding call_inv_def by (simp add: bus_ops)
  ultimately show ?thesis using f by (simp add: bus_inv_def)
qed

lemma ctx_inv [inv_intros]: "bus_inv b \<Longrightarrow> select_ctx_done pid err b = Some b' \<Longrightarrow> bus_inv b'"
  by (auto simp: select_ctx_done_def failed_publish_inv split: option.splits)

lemma bus_done_inv [inv_intros]: "bus_inv b \<Longrightarrow> select_bus_done pid b = Some b' \<Longrightarrow> bus_inv b'"
  by (auto simp: select_bus_done_def failed_publish_inv split: option.splits if_splits)

lemma enqueue_fifo:
  assumes "fifo_inv b st" and "length (b_queue b (item_stream it)) < b_cap b"
    and "b_received c = b_received b" and "b_inbound c = b_inbound (enqueue it b)"
    and "b_outbound c = b_outbound (enqueue it b)" and "b_accepted c = b_accepted b @ [(pid, it)]"
    and "b_cap c = b_cap b"
  shows "fifo_inv c st"
proof -
  have q: "b_queue c st = (if item_stream it = st then b_queue b st @ [it] else b_queue b st)"
    using assms(4,5) by (cases st; cases "item_stream it") (simp_all add: b_queue_def enqueue_def)
  with assms show ?thesis unfolding fifo_inv_def by (simp flip: append_assoc) auto
qed

lemma send_inv [inv_intros]:
  assumes "bus_inv b" and "select_send pid b = Some b'"
  shows "bus_inv b'"
proof -
  have c: "call_inv b" and f: "\<And>st. fifo_inv b st" using assms(1) by (simp_all add: bus_inv_def)
  obtain it where it: "map_of (b_pending b) pid = Some it" "length (b_queue b (item_stream it)) < b_cap b"
    and b': "b' = publish_return pid None (leave_select pid (enqueue it b)\<lparr>b_accepted := b_accepted b @ [(pid, it)]\<rparr>)"
    using assms(2) by (auto simp: select_send_def split: option.splits if_splits)
  have fr: "b_pending (enqueue it b) = b_pending b" "b_results (enqueue it b) = b_results b"
    "b_received (enqueue it b) = b_received b" "b_cap (enqueue it b) = b_cap b"
    "b_chans_closed (enqueue it b) = b_chans_closed b"
    by (simp_all add: enqueue_def split: bus_stream.splits)
  have "fifo_inv b' st" for st
    by (rule enqueue_fifo [OF f it(2)]) (simp_all add: b' bus_ops fr)
  moreover have "call_inv b'"
    using c leave_call [OF c it(1)] not_chans_closed [OF c it(1)]
    unfolding call_inv_def by (simp add: b' bus_ops fr)
  ultimately show ?thesis by (simp add: bus_inv_def)
qed

lemma close_inv [inv_intros]: "bus_inv b \<Longrightarrow> bus_inv (close_start b)"
  by (auto simp: bus_inv_def close_start_def fifo_inv_def call_inv_def b_queue_def split: bus_stream.splits)

lemma close_end_parts:
  "fifo_inv b st \<Longrightarrow> fifo_inv (b\<lparr>b_chans_closed := True, b_events := es\<rparr>) st"
  "call_inv b \<Longrightarrow> b_closed b \<Longrightarrow> b_pending b = [] \<Longrightarrow> call_inv (b\<lparr>b_chans_closed := True, b_events := es\<rparr>)"
  by (cases st; simp add: fifo_inv_def b_queue_def) (simp add: call_inv_def)

lemma close_end_inv [inv_intros]: "bus_inv b \<Longrightarrow> close_finish b = Some b' \<Longrightarrow> bus_inv b'"
  by (auto simp: close_finish_def bus_inv_def intro: close_end_parts split: if_splits)

lemma subscriber_inv [inv_intros]: "bus_inv b \<Longrightarrow> bus_inv (set_outbound_subscriber ch fn b)"
  by (auto simp: bus_inv_def set_outbound_subscriber_def fifo_inv_def call_inv_def b_queue_def Let_def
      split: bus_stream.splits option.splits)

lemma receive_inv [inv_intros]:
  assumes "bus_inv b" and "receive_inbound b = Some (it, b')"
  shows "bus_inv b'"
proof -
  have c: "call_inv b" and f: "\<And>st. fifo_inv b st" using assms(1) by (simp_all add: bus_inv_def)
  obtain rest where o: "b_inbound b = it # rest"
    and b': "b' = b\<lparr>b_inbound := rest, b_received := b_received b @ [it]\<rparr>"
    using assms(2) by (auto simp: receive_inbound_def split: list.splits)
  have "item_stream it = StreamInbound" using f [of StreamInbound] o by (simp add: fifo_inv_def b_queue_def)
  then have "fifo_inv b' st" for st
    using f [of st] o by (cases st) (simp_all add: b' fifo_inv_def b_queue_def)
  moreover have "call_inv b'" using c by (simp add: b' call_inv_def)
  ultimately show ?thesis by (simp add: bus_inv_def)
qed

lemma dispatch_frame:
  assumes "dispatch_outbound res b = Some b'" and "b_outbound b = it # rest"
  shows "\<exists>d x e p. b' = b\<lparr>b_outbound := rest, b_received := b_received b @ [it],
    b_delivered := d, b_dropped := x, b_events := e, b_pulses := p\<rparr>"
proof -
  let ?b = "b\<lparr>b_outbound := rest, b_received := b_received b @ [it]\<rparr>"
  have "(\<exists>m. it = InItem m) \<or> (\<exists>m. it = OutItem m \<and> map_of (b_subs b) (om_channel m) = None)
      \<or> (\<exists>m h. it = OutItem m \<and> map_of (b_subs b) (om_channel m) = Some h)"
    by (metis bus_item.exhaust option.exhaust)
  then consider (inb) m where "it = InItem m"
    | (drp) m where "it = OutItem m" "map_of (b_subs b) (om_channel m) = None"
    | (err) m h e where "it = OutItem m" "map_of (b_subs b) (om_channel m) = Some h" "res = CallbackErr e"
    | (ok) m h where "it = OutItem m" "map_of (b_subs b) (om_channel m) = Some h" "\<forall>e. res \<noteq> CallbackErr e"
    by blast
  then show ?thesis
  proof cases
    case inb
    with assms have "b' = ?b" by (simp add: dispatch_outbound_def)
    then show ?thesis by (intro exI [of _ "b_delivered b"] exI [of _ "b_dropped b"] exI [of _ "b_events b"]
          exI [of _ "b_pulses b"]) simp
  next
    case drp
    with assms have "b' = ?b\<lparr>b_dropped := b_dropped b @ [m]\<rparr>" by (simp add: dispatch_outbound_def)
    then show ?thesis by (intro exI [of _ "b_delivered b"] exI [of _ "b_dropped b @ [m]"] exI [of _ "b_events b"]
          exI [of _ "b_pulses b"]) simp
  next
    case err
    with assms have "b' = report_delivery_failure m e (?b\<lparr>b_delivered := b_delivered b @ [(h, m)]\<rparr>)"
      by (simp add: dispatch_outbound_def Let_def)
    then show ?thesis unfolding report_delivery_failure_def
      by (intro exI [of _ "b_delivered b @ [(h, m)]"] exI [of _ "b_dropped b"]) auto
  next
    case ok
    with assms have "b' = ?b\<lparr>b_delivered := b_delivered b @ [(h, m)]\<rparr>"
      by (cases res) (simp_all add: dispatch_outbound_def Let_def)
    then show ?thesis by (intro exI [of _ "b_delivered b @ [(h, m)]"] exI [of _ "b_dropped b"] exI [of _ "b_events b"]
          exI [of _ "b_pulses b"]) simp
  qed
qed

lemma dispatch_inv [inv_intros]:
  assumes "bus_inv b" and "dispatch_outbound res b = Some b'"
  shows "bus_inv b'"
proof -
  have c: "call_inv b" and f: "\<And>st. fifo_inv b st" using assms(1) by (simp_all add: bus_inv_def)
  obtain it rest where o: "b_outbound b = it # rest"
    using assms(2) by (auto simp: dispatch_outbound_def split: list.splits)
  have b': "b_outbound b' = rest" "b_received b' = b_received b @ [it]" "b_inbound b' = b_inbound b"
    "b_accepted b' = b_accepted b" "b_cap b' = b_cap b" "b_pending b' = b_pending b"
    "b_results b' = b_results b" "b_closed b' = b_closed b" "b_chans_closed b' = b_chans_closed b"
    using dispatch_frame [OF assms(2) o] by (elim exE, simp)+
  have "item_stream it = StreamOutbound" using f [of StreamOutbound] o by (simp add: fifo_inv_def b_queue_def)
  then have "fifo_inv b' st" for st
    using f [of st] o b' by (cases st) (simp_all add: fifo_inv_def b_queue_def)
  moreover have "call_inv b'" using c b' by (simp add: call_inv_def)
  ultimately show ?thesis by (simp add: bus_inv_def)
qed

lemma bus_step_inv: "bus_step b c \<Longrightarrow> bus_inv b \<Longrightarrow> bus_inv c"
  by (induction rule: bus_step.induct) (auto intro: inv_intros)

lemma bus_steps_inv: "bus_steps a b \<Longrightarrow> bus_inv a \<Longrightarrow> bus_inv b"
  by (induction rule: bus_steps.induct) (auto dest: bus_step_inv)

lemma bus_reachable_inv: "bus_steps (new_bus n) b \<Longrightarrow> bus_inv b"
  by (rule bus_steps_inv [OF _ new_bus_inv])

subsection \<open>Properties of the bus\<close>

text \<open>C1: nothing is lost, duplicated or reordered between an accepted publication and its reader: in
  every reachable state what the readers of a queue took, followed by what still waits in it, is
  exactly the sequence of messages accepted for it; a queue never exceeds its capacity; and the calls
  that returned success are exactly the ones whose message was accepted.\<close>

theorem bus_fifo:
  assumes "bus_steps (new_bus n) b"
  shows "of_stream st (b_received b) @ b_queue b st = of_stream st (map snd (b_accepted b))
    \<and> length (b_queue b st) \<le> b_cap b
    \<and> map fst (filter (\<lambda>r. snd r = None) (b_results b)) = map fst (b_accepted b)
    \<and> distinct (map fst (b_results b))"
  using bus_reachable_inv [OF assms] by (simp add: bus_inv_def fifo_inv_def call_inv_def)

definition sample_out :: outbound_message where
  "sample_out = \<lparr>om_channel = ''web'', om_chat_id = ''1'', om_content = ''hi'', om_reply_to = [], om_media = [],
     om_metadata = None, om_content_blocks = []\<rparr>"

definition sample_bus :: "string bus" where
  "sample_bus = publish_start 7 (OutItem sample_out) (new_bus 1)"

definition sample_sent :: "string bus" where
  "sample_sent = the (select_send 7 sample_bus)"

lemma sample_send: "select_send 7 sample_bus = Some sample_sent"
proof -
  have "select_send 7 sample_bus \<noteq> None" by code_simp
  then show ?thesis by (auto simp: sample_sent_def)
qed

lemma sample_steps: "bus_steps (new_bus 1) sample_bus" "bus_steps (new_bus 1) sample_sent"
proof -
  have "bus_step (new_bus 1) sample_bus"
    unfolding sample_bus_def by (rule bus_step.start) (simp add: pid_used_def new_bus_def)
  then show *: "bus_steps (new_bus 1) sample_bus" by (rule bus_steps.bus_then [OF bus_steps.bus_refl])
  show "bus_steps (new_bus 1) sample_sent" by (rule bus_steps.bus_then [OF * bus_step.send [OF sample_send]])
qed

theorem bus_fifo_witness:
  "of_stream StreamOutbound (b_received sample_sent) @ b_queue sample_sent StreamOutbound
     = of_stream StreamOutbound (map snd (b_accepted sample_sent))
   \<and> map snd (b_accepted sample_sent) = [OutItem sample_out]"
proof -
  have "map snd (b_accepted sample_sent) = [OutItem sample_out]" by code_simp
  then show ?thesis using bus_fifo [OF sample_steps(2), of StreamOutbound] by simp
qed

lemma closed_step:
  "bus_step b c \<Longrightarrow> bus_inv b \<Longrightarrow>
    (b_closed b \<longrightarrow> b_closed c) \<and> (b_chans_closed b \<longrightarrow> b_chans_closed c \<and> b_accepted c = b_accepted b)"
proof (induction rule: bus_step.induct)
  case (send pid b b')
  then have "b_chans_closed b \<Longrightarrow> False"
    by (auto simp: bus_inv_def call_inv_def select_send_def split: option.splits)
  moreover have "b_closed b \<longrightarrow> b_closed b'"
    using send by (auto simp: select_send_def bus_ops enqueue_def split: option.splits if_splits bus_stream.splits)
  ultimately show ?case by blast
next
  case (dispatch res b b')
  then obtain it rest where "b_outbound b = it # rest"
    by (auto simp: dispatch_outbound_def split: list.splits)
  from dispatch_frame [OF dispatch(1) this] show ?case by (elim exE) simp
next
  case (start pid b it)
  then show ?case by (auto simp: publish_start_def bus_ops split: sum.splits)
next
  case (ctx pid err b b')
  then show ?case by (auto simp: select_ctx_done_def bus_ops split: option.splits)
next
  case (bus_done pid b b')
  then show ?case by (auto simp: select_bus_done_def bus_ops split: option.splits if_splits)
next
  case (close_begin b)
  then show ?case by (simp add: close_start_def)
next
  case (close_end b b')
  then show ?case by (auto simp: close_finish_def split: if_splits)
next
  case (subscribe b channel fn)
  then show ?case by (simp add: set_outbound_subscriber_def Let_def split: option.splits)
next
  case (receive b it b')
  then show ?case by (auto simp: receive_inbound_def split: list.splits)
qed

lemma closed_steps:
  "bus_steps b c \<Longrightarrow> bus_inv b \<Longrightarrow> b_chans_closed b \<Longrightarrow>
    b_closed c \<and> b_chans_closed c \<and> b_accepted c = b_accepted b \<and> bus_inv c"
proof (induction rule: bus_steps.induct)
  case (bus_refl b)
  then show ?case by (simp add: bus_inv_def call_inv_def)
next
  case (bus_then a b c)
  then have "bus_inv b" "b_chans_closed b" "b_closed b" "b_accepted b = b_accepted a" by blast+
  with closed_step [OF bus_then(2)] bus_step_inv [OF bus_then(2)] show ?case by simp
qed

text \<open>C5: after \<open>Close\<close> has returned, whatever publishers and readers do next, no message is accepted any
  more - so no publisher ever sends on a closed channel - and a publication of a message with a channel
  returns \<open>ErrBusClosed\<close> at once and reports it.\<close>

theorem closed_bus_accepts_nothing:
  assumes "bus_steps (new_bus n) b" and "b_chans_closed b" and "bus_steps b c"
  shows "b_accepted c = b_accepted b \<and> select_send pid c = None
    \<and> (\<forall>it'. normalize_item it = Inr it' \<longrightarrow>
        publish_start pid it c = publish_return pid (Some ErrBusClosed) (report_publish_failure it' ErrBusClosed c))"
proof -
  have c: "b_closed c" "b_chans_closed c" "b_accepted c = b_accepted b" "bus_inv c"
    using closed_steps [OF assms(3) bus_reachable_inv [OF assms(1)] assms(2)] by simp_all
  then have "b_pending c = []" by (simp add: bus_inv_def call_inv_def)
  with c show ?thesis by (simp add: publish_start_def select_send_def)
qed

theorem closed_bus_accepts_nothing_witness:
  "select_send 3 (the (close_finish (close_start (new_bus 1 :: string bus)))) = None"
proof -
  let ?b = "close_start (new_bus 1) :: string bus"
  have f: "close_finish ?b = Some (the (close_finish ?b))"
    by (simp add: close_finish_def close_start_def new_bus_def)
  have "bus_steps (new_bus 1) (the (close_finish ?b))"
    by (rule bus_steps.bus_then [OF bus_steps.bus_then [OF bus_steps.bus_refl bus_step.close_begin] bus_step.close_end [OF f]])
  moreover have "b_chans_closed (the (close_finish ?b))"
    by (simp add: close_finish_def close_start_def new_bus_def)
  ultimately show ?thesis using closed_bus_accepts_nothing bus_steps.bus_refl by blast
qed

lemma drain_pending:
  "bus_inv b \<Longrightarrow> b_closed b \<Longrightarrow> length (b_pending b) = k \<Longrightarrow>
   \<exists>c. bus_steps b c \<and> b_closed c \<and> bus_inv c \<and> b_pending c = [] \<and> b_received c = b_received b
     \<and> b_accepted c = b_accepted b \<and> b_chans_closed c = b_chans_closed b"
proof (induction k arbitrary: b)
  case 0
  then show ?case using bus_steps.bus_refl [of b] by auto
next
  case (Suc k)
  then obtain pid it rest where p: "b_pending b = (pid, it) # rest" by (cases "b_pending b") auto
  define b' where "b' = publish_return pid (Some ErrBusClosed) (report_publish_failure it ErrBusClosed (leave_select pid b))"
  have s: "select_bus_done pid b = Some b'" using p Suc.prems(2) by (simp add: select_bus_done_def b'_def)
  have "pid \<notin> fst ` set rest" using Suc.prems(1) p by (auto simp: bus_inv_def call_inv_def)
  then have "filter (\<lambda>p. fst p \<noteq> pid) rest = rest" by (auto simp: filter_id_conv)
  then have b': "b_pending b' = rest" "b_received b' = b_received b" "b_accepted b' = b_accepted b"
    "b_chans_closed b' = b_chans_closed b" "b_closed b'"
    using p Suc.prems(2) by (simp_all add: b'_def bus_ops)
  have i: "bus_inv b'" by (rule bus_done_inv [OF Suc.prems(1) s])
  obtain c where c: "bus_steps b' c" "b_closed c" "bus_inv c" "b_pending c = []" "b_received c = b_received b'"
      "b_accepted c = b_accepted b'" "b_chans_closed c = b_chans_closed b'"
    using Suc.IH [OF i b'(5)] b'(1) p Suc.prems(3) by auto
  have "bus_steps b c"
    using c(1) bus_step.bus_done [OF s]
  proof (induction rule: bus_steps.induct)
    case (bus_refl x)
    then show ?case by (rule bus_steps.bus_then [OF bus_steps.bus_refl])
  next
    case (bus_then x y z)
    then show ?case using bus_steps.bus_then by blast
  qed
  with c b' show ?case by auto
qed



subsection \<open>The publishing interface\<close>

text \<open>\<open>OutboundPublisher\<close>, what triggers and plugins see of the bus. The last argument is the branch that
  the \<open>select\<close> takes when the bus is open; \<open>PublishBlocked\<close> is a call that has not returned.\<close>

datatype select_choice = TakeSend | TakeCtx string

datatype publish_result = PublishOk | PublishErr bus_error | PublishBlocked

definition publish_outbound ::
  "'h bus option \<Rightarrow> nat \<Rightarrow> select_choice \<Rightarrow> string \<Rightarrow> string \<Rightarrow> string \<Rightarrow> 'h bus option \<times> publish_result" where
  "publish_outbound bus pid choice channel chatID content =
     (case bus of
        None \<Rightarrow> (None, PublishErr ErrBusClosed)
      | Some b \<Rightarrow>
          (let m = \<lparr>om_channel = channel, om_chat_id = chatID, om_content = content, om_reply_to = [],
                    om_media = [], om_metadata = None, om_content_blocks = []\<rparr>;
               b' = publish_start pid (OutItem m) b in
           case normalize_outbound m of
             Inl e \<Rightarrow> (Some b', PublishErr e)
           | Inr _ \<Rightarrow>
               (if b_closed b then (Some b', PublishErr ErrBusClosed)
                else case choice of
                    TakeCtx e \<Rightarrow> (select_ctx_done pid e b', PublishErr (CtxErr e))
                  | TakeSend \<Rightarrow> (case select_send pid b' of
                        Some b'' \<Rightarrow> (Some b'', PublishOk)
                      | None \<Rightarrow> (Some b', PublishBlocked)))))"

definition sent_texts :: "'h bus option \<Rightarrow> (string \<times> string \<times> string) list" where
  "sent_texts bus = (case bus of None \<Rightarrow> []
     | Some b \<Rightarrow> concat (map (\<lambda>a. case snd a of InItem _ \<Rightarrow> []
         | OutItem m \<Rightarrow> [(om_channel m, om_chat_id m, om_content m)]) (b_accepted b)))"

locale outbound_publisher =
  fixes publish :: "'s \<Rightarrow> 'e \<Rightarrow> string \<Rightarrow> string \<Rightarrow> string \<Rightarrow> 's \<times> publish_result"
    and sent :: "'s \<Rightarrow> (string \<times> string \<times> string) list"
    and good :: "'s \<Rightarrow> 'e \<Rightarrow> bool"
  assumes publish_ok: "good s e \<Longrightarrow> publish s e c p t = (s', PublishOk) \<Longrightarrow>
      sent s' = sent s @ [(trim_space c, trim_space p, t)] \<and> trim_space c \<noteq> []"
    and publish_other: "good s e \<Longrightarrow> publish s e c p t = (s', r) \<Longrightarrow> r \<noteq> PublishOk \<Longrightarrow> sent s' = sent s"
begin

lemma publish_sent:
  "good s e \<Longrightarrow> sent (fst (publish s e c p t)) =
     sent s @ (if snd (publish s e c p t) = PublishOk then [(trim_space c, trim_space p, t)] else [])"
  using publish_ok [of s e c p t] publish_other [of s e c p t] by (cases "publish s e c p t") auto

lemma blank_channel: "good s e \<Longrightarrow> trim_space c = [] \<Longrightarrow> snd (publish s e c p t) \<noteq> PublishOk"
  using publish_ok [of s e c p t] by (cases "publish s e c p t") auto

end

definition bus_publish ::
  "'h bus option \<Rightarrow> nat \<times> select_choice \<Rightarrow> string \<Rightarrow> string \<Rightarrow> string \<Rightarrow> 'h bus option \<times> publish_result" where
  "bus_publish s e c p t = publish_outbound s (fst e) (snd e) c p t"

definition bus_good :: "'h bus option \<Rightarrow> nat \<times> select_choice \<Rightarrow> bool" where
  "bus_good s e = (case s of None \<Rightarrow> True | Some b \<Rightarrow> \<not> pid_used (fst e) b)"

lemma map_of_append_new: "k \<notin> fst ` set m \<Longrightarrow> map_of (m @ [(k, v)]) k = Some v"
  by (induction m) auto

lemma publish_outbound_sent:
  assumes "bus_good s e" and "bus_publish s e c p t = (s', r)"
  shows "sent_texts s' = sent_texts s @ (if r = PublishOk then [(trim_space c, trim_space p, t)] else [])
    \<and> (r = PublishOk \<longrightarrow> trim_space c \<noteq> [])"
proof (cases s)
  case None
  with assms show ?thesis by (auto simp: bus_publish_def publish_outbound_def)
next
  case (Some b)
  then have new: "fst e \<notin> fst ` set (b_pending b)" using assms(1) by (auto simp: bus_good_def pid_used_def)
  show ?thesis
    using assms(2) Some map_of_append_new [OF new]
    by (auto simp: bus_publish_def publish_outbound_def publish_start_def normalize_item_def normalize_outbound_def
        Let_def select_ctx_done_def select_send_def bus_ops sent_texts_def item_stream_def enqueue_def
        split: if_splits select_choice.splits option.splits)
qed

interpretation buspub: outbound_publisher bus_publish sent_texts bus_good
proof
  fix s e c p t s'
  assume "bus_good s e" "bus_publish s e c p t = (s', PublishOk)"
  then show "sent_texts s' = sent_texts s @ [(trim_space c, trim_space p, t)] \<and> trim_space c \<noteq> []"
    using publish_outbound_sent [of s e c p t s' PublishOk] by simp
next
  fix s e c p t s' r
  assume "bus_good s e" "bus_publish s e c p t = (s', r)" "r \<noteq> PublishOk"
  then show "sent_texts s' = sent_texts s" using publish_outbound_sent [of s e c p t s' r] by simp
qed

end
