(* ===== verification/PostAction.thy ===== *)
theory PostAction
  imports MessageBus
begin

text \<open>
  \<open>internal/kernel/agent/postaction/postaction.go\<close>: what the gateway does after a turn - the builtin
  \<open>/new\<close> and the rotation that follows a compaction. The seed file of a compaction is kept in a map from
  paths to contents; its JSON encoding and what the disk answers are arguments.
\<close>

subsection \<open>Paths\<close>

text \<open>\<open>filepath.Clean\<close> and \<open>filepath.Join\<close> on Unix; \<open>stk\<close> holds the kept components, last first.\<close>

fun clean_components :: "bool \<Rightarrow> string list \<Rightarrow> string list \<Rightarrow> string list" where
  "clean_components rooted stk [] = rev stk"
| "clean_components rooted stk (c # cs) =
     (if c = [] \<or> c = ''.'' then clean_components rooted stk cs
      else if c = ''..'' then
        (case stk of
           [] \<Rightarrow> (if rooted then clean_components rooted [] cs else clean_components rooted [''..''] cs)
         | d # ds \<Rightarrow> (if d = ''..'' then clean_components rooted (''..'' # stk) cs
                     else clean_components rooted ds cs))
      else clean_components rooted (c # stk) cs)"

definition clean_path :: "string \<Rightarrow> string" where
  "clean_path p =
     (if p = [] then ''.''
      else
        let rooted = prefix ''/'' p;
            body = join ''/'' (clean_components rooted [] (split_char CHR ''/'' p)) in
        if rooted then CHR ''/'' # body else if body = [] then ''.'' else body)"

definition join_path :: "string list \<Rightarrow> string" where
  "join_path elems =
     (let es = filter (\<lambda>e. e \<noteq> []) elems in
      if es = [] then [] else clean_path (join ''/'' es))"

subsection \<open>The handler\<close>

record post_state =
  ps_router :: router
  ps_file :: router_file
  ps_workspace :: string
  ps_flush_hook :: bool
  ps_flushed :: "string list"
  ps_seeds :: "string \<rightharpoonup> string"

datatype post_error =
    PostRotateErr router_error
  | CompactSummaryEmpty
  | InvalidSeedPayload
  | MkdirHistoryErr
  | WriteSeedErr

datatype seed_io = SeedOk | SeedMkdirErr | SeedWriteErr "string option"

definition set_workspace :: "post_state \<Rightarrow> string \<Rightarrow> post_state" where
  "set_workspace s w = s\<lparr>ps_workspace := w\<rparr>"

definition set_pre_compact_flush :: "post_state \<Rightarrow> bool \<Rightarrow> post_state" where
  "set_pre_compact_flush s present = s\<lparr>ps_flush_hook := present\<rparr>"

definition handle_builtin ::
  "post_state \<Rightarrow> inbound_message \<Rightarrow> int \<Rightarrow> (string \<Rightarrow> string) \<Rightarrow> disk_io
    \<Rightarrow> post_state \<times> bool \<times> post_error option" where
  "handle_builtin s msg nanos sha io =
     (if trim_space (rh_builtin_command (im_hints msg)) = ''new'' then
        (case rotate (ps_router s) (ps_file s) (stable_route_key msg) nanos sha io of (r', f', res) \<Rightarrow>
           (s\<lparr>ps_router := r', ps_file := f'\<rparr>, True,
            case res of Inl e \<Rightarrow> Some (PostRotateErr e) | Inr _ \<Rightarrow> None))
      else (s, False, None))"

fun extract_post_action :: "slash_result list \<Rightarrow> post_action option" where
  "extract_post_action [] = None"
| "extract_post_action (ex # trail) =
     (case sr_post_action ex of Some a \<Rightarrow> Some a | None \<Rightarrow> extract_post_action trail)"

text \<open>\<open>None\<close> is a nil response, \<open>Some None\<close> a response without a result.\<close>

definition result_output :: "string option option \<Rightarrow> string" where
  "result_output resp = (case resp of Some (Some o') \<Rightarrow> o' | _ \<Rightarrow> [])"

definition seed_path :: "string \<Rightarrow> string \<Rightarrow> string" where
  "seed_path workspace sessionID =
     join_path [join_path [workspace, ''.maven'', ''history''], sessionID @ ''.json'']"

definition seed_session_summary ::
  "(string \<Rightarrow> string) \<Rightarrow> (string \<rightharpoonup> string) \<Rightarrow> seed_io \<Rightarrow> string \<Rightarrow> string \<Rightarrow> string
    \<Rightarrow> (string \<rightharpoonup> string) \<times> post_error option" where
  "seed_session_summary encode seeds io workspace0 sessionID0 summary0 =
     (let workspace = trim_space workspace0; sessionID = trim_space sessionID0;
          summary = trim_space summary0 in
      if workspace = [] \<or> sessionID = [] \<or> summary = [] then (seeds, Some InvalidSeedPayload)
      else
        let path = seed_path workspace sessionID;
            data = encode (''Previous conversation summary:'' @ newline # summary) in
        case io of
            SeedMkdirErr \<Rightarrow> (seeds, Some MkdirHistoryErr)
          | SeedWriteErr left \<Rightarrow> (seeds(path := left), Some WriteSeedErr)
          | SeedOk \<Rightarrow> (seeds(path \<mapsto> data), None))"

definition compact_ack :: string where
  "compact_ack = [CHR 0xE2, CHR 0x9C, CHR 0x85] @ '' Conversation compacted and continued in a fresh session.''"

text \<open>The disk's answers, in the order they are needed: the rotation's write, the seed, and the write of
  the roll-back.\<close>

record post_env =
  pe_nanos :: int
  pe_sha :: "string \<Rightarrow> string"
  pe_rotate_io :: disk_io
  pe_seed_io :: seed_io
  pe_set_io :: disk_io
  pe_encode :: "string \<Rightarrow> string"

definition handle_post_response ::
  "post_env \<Rightarrow> post_state \<Rightarrow> string \<Rightarrow> string option option \<Rightarrow> slash_result list
    \<Rightarrow> post_state \<times> string \<times> bool \<times> post_error option" where
  "handle_post_response e s chatRouteKey resp trail =
     (case extract_post_action trail of
        None \<Rightarrow> (s, [], False, None)
      | Some (CompactRotateAction mode) \<Rightarrow>
          (let summary = trim_space (result_output resp) in
           if summary = [] then (s, [], True, Some CompactSummaryEmpty)
           else
             let s1 = (if ps_flush_hook s
                       then s\<lparr>ps_flushed := ps_flushed s @ [current (ps_router s) chatRouteKey]\<rparr> else s) in
             case rotate (ps_router s1) (ps_file s1) chatRouteKey (pe_nanos e) (pe_sha e) (pe_rotate_io e) of
               (r', f', res) \<Rightarrow>
                 (let s2 = s1\<lparr>ps_router := r', ps_file := f'\<rparr> in
                  case res of
                    Inl err \<Rightarrow> (s2, [], True, Some (PostRotateErr err))
                  | Inr (old, new) \<Rightarrow>
                      (case seed_session_summary (pe_encode e) (ps_seeds s2) (pe_seed_io e) (ps_workspace s2) new summary of
                         (seeds', seedErr) \<Rightarrow>
                           (let s3 = s2\<lparr>ps_seeds := seeds'\<rparr> in
                            case seedErr of
                              Some err \<Rightarrow>
                                (case set_session (ps_router s3) (ps_file s3) chatRouteKey old (pe_set_io e) of
                                   (r'', f'', _) \<Rightarrow>
                                     (s3\<lparr>ps_router := r'', ps_file := f''\<rparr>, [], True, Some err))
                            | None \<Rightarrow>
                                (if mode = CompactResponseModeAck then (s3, compact_ack, True, None)
                                 else (s3, summary, True, None)))))))"

subsection \<open>Properties\<close>

lemma current_trimmed: "trim_space (current r key) = current r key"
  by (simp add: current_def resolve_def Let_def)

lemma set_after_rotate:
  assumes "rotate r f key nanos sha io = (r', f', Inr (old, new))"
  shows "current (fst (set_session r' f' key old sio)) k = current r k"
proof -
  note ok = rotate_ok [OF assms]
  have o: "trim_space old = old" using ok(4) current_trimmed by simp
  let ?m = "map_get (trim_space key) (r_sessions r)"
  have old: "old = (if trim_space ?m = [] then from_route_key key else trim_space ?m)"
    using ok(4) by (simp add: current_def resolve_def Let_def)
  have s: "fst (set_session r' f' key old sio) =
      (if old = [] \<or> old = from_route_key key then r'\<lparr>r_sessions := map_del (trim_space key) (r_sessions r')\<rparr>
       else r'\<lparr>r_sessions := map_put (trim_space key) old (r_sessions r')\<rparr>)"
    using ok(6) o by (simp add: set_session_def Let_def split: prod.splits)
  have g: "map_get x (r_sessions (fst (set_session r' f' key old sio))) =
      (if x = trim_space key then (if old = [] \<or> old = from_route_key key then [] else old)
       else map_get x (r_sessions r))" for x
    unfolding s using ok(1) by auto
  have c: "current r0 k = (if trim_space (map_get (trim_space k) (r_sessions r0)) \<noteq> []
      then trim_space (map_get (trim_space k) (r_sessions r0)) else from_route_key k)" for r0
    by (simp add: current_def resolve_def Let_def)
  show ?thesis
    unfolding c [of "fst (set_session r' f' key old sio)"] g c [of r]
    using old o from_route_key_trim [of key] from_route_key_trim [of k]
    by (cases "trim_space k = trim_space key") (auto split: if_splits)
qed



text \<open>The seed file of a compaction is not confined to the history directory: unlike the history
  store, \<open>seedSessionSummary\<close> joins the session id to the path as it is, so the id of a chat whose
  name holds parent references names a file outside the workspace.\<close>

theorem seed_path_escapes:
  "seed_path ''/home/u/ws'' (sid_string (new_sid KindRotated (chat_session_id ''web'' ''a/../../../../x'') [] 5 id))
     = ''/home/u/x:rotated:5.json''"
  by code_simp
end
