(* ===== verification/Pipeline.thy ===== *)
theory Pipeline
  imports PostAction
begin

text \<open>
  \<open>internal/kernel/pipeline\<close> and the channel interfaces it uses: classification of a turn, the handler of
  one inbound message with everything it does to the outside as a list of effects in order, the
  single-shot turn of the triggers, and the reader/writer lock that lets the agent runtime be replaced
  between turns. The agent, the channels, the bus's answers and the clock are the fields of \<open>pipe_env\<close>.
\<close>

subsection \<open>Requests and effects\<close>

record agent_request =
  ar_prompt :: string
  ar_blocks :: "content_block list"
  ar_session :: string
  ar_metadata :: metadata

datatype go_error = GoCanceled | GoDeadline | GoErr string

datatype stream_event = DeltaText string | OtherEvent nat

text \<open>\<open>rt.Run\<close>: an error, or the output as \<open>result_output\<close> reads it.\<close>

datatype agent_result = AgentErr go_error | AgentOk "string option option"

record channel_info =
  ci_stream :: bool
  ci_preprocess :: bool

datatype effect =
    Publish outbound_message "bus_error option"
  | Emit "turn_completed event"
  | PulseDeliveryFailed
  | PreProcess int routing_hints
  | RunAgent ctx agent_request
  | RunAgentStream ctx agent_request
  | StreamBegin string string
  | SendStream string "metadata option" "stream_event list"
  | StreamEnd string string "go_error option"

text \<open>Why a turn failed; the text of each error is a field of the environment.\<close>

datatype turn_cause =
    CauseBuiltin post_error
  | CauseSlash slash_error
  | CausePost post_error
  | CauseAgent go_error
  | CauseDelivery go_error

record pipe_env =
  pv_channel :: "string \<Rightarrow> channel_info option"
  pv_publish :: "outbound_message \<Rightarrow> bus_error option"
  pv_run :: "ctx \<Rightarrow> agent_request \<Rightarrow> agent_result"
  pv_run_stream :: "ctx \<Rightarrow> agent_request \<Rightarrow> go_error + stream_event list"
  pv_send_stream :: "string \<Rightarrow> metadata option \<Rightarrow> stream_event list \<Rightarrow> go_error option"
  pv_now :: instant
  pv_post :: post_env
  pv_registry :: "slash_registry option"
  pv_error_text :: "turn_cause \<Rightarrow> string"

record turn_plan =
  tp_use_stream :: bool
  tp_slash_name :: string
  tp_session_mode :: session_mode

definition classify_turn :: "inbound_message \<Rightarrow> channel_info option \<Rightarrow> turn_plan" where
  "classify_turn msg ch =
     \<lparr>tp_use_stream = (case ch of None \<Rightarrow> False
         | Some c \<Rightarrow> \<not> rh_force_sync (im_hints msg) \<and> ci_stream c),
      tp_slash_name = rh_slash_command (im_hints msg),
      tp_session_mode = rh_session_mode (im_hints msg)\<rparr>"

definition merge_prompt_and_blocks :: "string \<Rightarrow> content_block list \<Rightarrow> string \<times> content_block list" where
  "merge_prompt_and_blocks prompt blocks =
     (if length blocks > 0 \<and> trim_space prompt \<noteq> [] then ([], TextBlock prompt # blocks)
      else (prompt, blocks))"

definition agent_request_for ::
  "string \<Rightarrow> string \<Rightarrow> content_block list \<Rightarrow> metadata option \<Rightarrow> agent_request" where
  "agent_request_for prompt0 sessionID blocks0 meta =
     (let (prompt, blocks) = merge_prompt_and_blocks prompt0 blocks0 in
      \<lparr>ar_prompt = prompt, ar_blocks = blocks, ar_session = sessionID, ar_metadata = entries meta\<rparr>)"

subsection \<open>Replies and reports\<close>

definition user_err_message :: string where
  "user_err_message = ''Sorry, I encountered an error processing your message.''"
definition user_err_command :: string where
  "user_err_command = ''Sorry, I encountered an error processing your command.''"
definition fresh_session_reply :: string where
  "fresh_session_reply = [CHR 0xE2, CHR 0x9C, CHR 0x85] @ '' Started a fresh session.''"

definition reply_to :: "string \<Rightarrow> string \<Rightarrow> string \<Rightarrow> metadata option \<Rightarrow> outbound_message" where
  "reply_to channel chatID content meta =
     \<lparr>om_channel = channel, om_chat_id = chatID, om_content = content, om_reply_to = [], om_media = [],
      om_metadata = meta, om_content_blocks = []\<rparr>"

definition publish_effect :: "pipe_env \<Rightarrow> outbound_message \<Rightarrow> effect" where
  "publish_effect env m = Publish m (pv_publish env m)"

definition plain_event :: "string \<Rightarrow> (string \<times> string) list \<Rightarrow> effect" where
  "plain_event t attrs = Emit \<lparr>ev_type = t, ev_attrs = attrs, ev_payload = None\<rparr>"

definition send_error :: "pipe_env \<Rightarrow> string \<Rightarrow> string \<Rightarrow> string \<Rightarrow> turn_cause \<Rightarrow> effect list" where
  "send_error env chName chatID userMsg cause =
     (let m = reply_to chName chatID userMsg None in
      publish_effect env m #
      (case pv_publish env m of
         None \<Rightarrow> []
       | Some pubErr \<Rightarrow>
           [plain_event event_outbound_delivery_failed
              [(''channel'', chName), (''chat_id'', chatID), (''error'', bus_error_text pubErr), (''cause'', pv_error_text env cause)],
            PulseDeliveryFailed]))"

definition report_stream_failed :: "pipe_env \<Rightarrow> string \<Rightarrow> string \<Rightarrow> go_error \<Rightarrow> effect list" where
  "report_stream_failed env chName chatID err =
     [plain_event event_stream_failed
        [(''channel'', chName), (''chat_id'', chatID), (''error'', pv_error_text env (CauseDelivery err))],
      PulseDeliveryFailed]"

definition turn_context_for :: "ctx \<Rightarrow> inbound_message \<Rightarrow> string \<Rightarrow> ctx" where
  "turn_context_for ctx msg sessionKey =
     (let meta = (''session_id'', AnyStr sessionKey) #
            (if rh_message_id (im_hints msg) \<noteq> 0
             then [(''message_id'', AnyInt (rh_message_id (im_hints msg)))] else []) in
      with_metadata (with_inbound ctx (im_channel msg) (im_chat_id msg)) (Some meta))"

definition turn_completed_effect :: "pipe_env \<Rightarrow> inbound_message \<Rightarrow> string \<Rightarrow> string \<Rightarrow> effect" where
  "turn_completed_effect env msg sessionKey assistantMsg =
     Emit \<lparr>ev_type = event_turn_completed, ev_attrs = [],
       ev_payload = Some \<lparr>tcp_user_msg = im_content msg, tcp_assistant_msg = assistantMsg,
         tcp_session = sessionKey, tcp_channel = im_channel msg, tcp_chat_id = im_chat_id msg,
         tcp_at = pv_now env\<rparr>\<rparr>"

subsection \<open>The two ways of running a turn\<close>

fun collect_text :: "stream_event list \<Rightarrow> string" where
  "collect_text [] = []"
| "collect_text (DeltaText t # evs) = t @ collect_text evs"
| "collect_text (OtherEvent _ # evs) = collect_text evs"

definition run_stream_turn ::
  "pipe_env \<Rightarrow> ctx \<Rightarrow> inbound_message \<Rightarrow> string \<Rightarrow> metadata option \<Rightarrow> turn_plan \<Rightarrow> effect list \<times> turn_cause option" where
  "run_stream_turn env ctx msg sessionKey meta plan =
     (let msgCtx = turn_context_for ctx msg sessionKey;
          req = agent_request_for (im_content msg) sessionKey (im_content_blocks msg) meta;
          c = im_channel msg; chat = im_chat_id msg;
          pre = [StreamBegin c chat, RunAgentStream msgCtx req] in
      case pv_run_stream env msgCtx req of
        Inl err \<Rightarrow> (pre @ [StreamEnd c chat (Some err)], Some (CauseAgent err))
      | Inr evs \<Rightarrow>
          (let sent = pre @ [SendStream chat (im_transport_meta msg) evs] in
           case pv_send_stream env chat (im_transport_meta msg) evs of
             Some err \<Rightarrow> (sent @ report_stream_failed env c chat err @ [StreamEnd c chat (Some err)], Some (CauseDelivery err))
           | None \<Rightarrow>
               (sent @ [StreamEnd c chat None] @
                (if tp_session_mode plan = SessionModeCurrent
                 then [turn_completed_effect env msg sessionKey (collect_text evs)] else []), None)))"

definition cause_canceled :: "turn_cause \<Rightarrow> bool" where
  "cause_canceled c = (case c of
       CauseAgent e \<Rightarrow> e = GoCanceled \<or> e = GoDeadline
     | CauseDelivery e \<Rightarrow> e = GoCanceled \<or> e = GoDeadline
     | _ \<Rightarrow> False)"

definition run_sync_turn ::
  "pipe_env \<Rightarrow> post_state \<Rightarrow> ctx \<Rightarrow> inbound_message \<Rightarrow> string \<Rightarrow> slash_outcome \<Rightarrow> turn_plan
    \<Rightarrow> post_state \<times> effect list \<times> turn_cause option" where
  "run_sync_turn env ps ctx msg sessionKey slashOut plan =
     (let msgCtx = turn_context_for ctx msg sessionKey;
          req = agent_request_for (im_content msg) sessionKey (im_content_blocks msg) (so_metadata slashOut) in
      case pv_run env msgCtx req of
        AgentErr err \<Rightarrow> (ps, [RunAgent msgCtx req], Some (CauseAgent err))
      | AgentOk resp \<Rightarrow>
          (case handle_post_response (pv_post env) ps (stable_route_key msg) resp (so_trail slashOut) of
             (ps', postResult, handled, postErr) \<Rightarrow>
               (case postErr of
                  Some e \<Rightarrow> (ps', [RunAgent msgCtx req], Some (CausePost e))
                | None \<Rightarrow>
                    (let result = (if handled then postResult else result_output resp) in
                     (ps',
                      [RunAgent msgCtx req] @
                      (if result \<noteq> []
                       then [publish_effect env (reply_to (im_channel msg) (im_chat_id msg) result (im_transport_meta msg))]
                       else []) @
                      (if tp_session_mode plan = SessionModeCurrent
                       then [turn_completed_effect env msg sessionKey result] else []),
                      None)))))"

subsection \<open>The handler\<close>

definition handle_builtin_effects ::
  "pipe_env \<Rightarrow> post_state \<Rightarrow> inbound_message \<Rightarrow> post_state \<times> effect list \<times> bool" where
  "handle_builtin_effects env ps msg =
     (case handle_builtin ps msg (pe_nanos (pv_post env)) (pe_sha (pv_post env)) (pe_rotate_io (pv_post env)) of
        (ps', handled, err) \<Rightarrow>
          (if \<not> handled then (ps', [], False)
           else case err of
               Some e \<Rightarrow> (ps', send_error env (im_channel msg) (im_chat_id msg) user_err_command (CauseBuiltin e), True)
             | None \<Rightarrow>
                 (ps', [publish_effect env
                    (reply_to (im_channel msg) (im_chat_id msg) fresh_session_reply (im_transport_meta msg))], True)))"

definition turn_start_event :: "inbound_message \<Rightarrow> effect" where
  "turn_start_event msg =
     plain_event ''pipeline.turn_start'' [(''channel'', im_channel msg), (''chat_id'', im_chat_id msg)]"

definition preprocess_effects :: "channel_info option \<Rightarrow> inbound_message \<Rightarrow> effect list" where
  "preprocess_effects ch msg =
     (case ch of
        None \<Rightarrow> []
      | Some c \<Rightarrow>
          (if ci_preprocess c then
             (case parse_int (im_chat_id msg) of
                Some chatInt \<Rightarrow> [PreProcess chatInt (im_hints msg)]
              | None \<Rightarrow> [])
           else []))"

definition handle_message ::
  "pipe_env \<Rightarrow> ctx \<Rightarrow> post_state \<Rightarrow> inbound_message \<Rightarrow> post_state \<times> effect list" where
  "handle_message env ctx ps0 msg =
     (case handle_builtin_effects env ps0 msg of
        (ps, effs, True) \<Rightarrow> (ps, effs)
      | (ps, _, False) \<Rightarrow>
          (let ch = pv_channel env (im_channel msg);
               plan = classify_turn msg ch;
               sessionKey = resolve_sdk_session_id (Some (ps_router ps)) (im_channel msg) (im_chat_id msg)
                 (stable_route_key msg) (tp_session_mode plan) (pe_nanos (pv_post env));
               before = turn_start_event msg # preprocess_effects ch msg;
               c = im_channel msg; chat = im_chat_id msg in
           case pre_turn (turn_context_for ctx msg sessionKey) (pv_registry env) (im_content msg) (tp_slash_name plan) of
             Inl e \<Rightarrow> (ps, before @ send_error env c chat user_err_command (CauseSlash e))
           | Inr slashOut \<Rightarrow>
               (if \<not> so_continue slashOut
                then (ps, before @ [publish_effect env (reply_to c chat (so_direct_reply slashOut) (im_transport_meta msg))])
                else if tp_use_stream plan then
                  (case run_stream_turn env ctx msg sessionKey (so_metadata slashOut) plan of
                     (effs, Some cause) \<Rightarrow>
                       (ps, before @ effs @
                          (if cause_canceled cause then [] else send_error env c chat user_err_message cause))
                   | (effs, None) \<Rightarrow> (ps, before @ effs))
                else
                  (case run_sync_turn env ps ctx msg sessionKey slashOut plan of
                     (ps', effs, None) \<Rightarrow> (ps', before @ effs)
                   | (ps', effs, Some cause) \<Rightarrow>
                       (ps', before @ effs @ send_error env c chat
                          (case cause of CausePost _ \<Rightarrow> user_err_command | _ \<Rightarrow> user_err_message) cause)))))"

text \<open>\<open>RunTurn\<close>, the single-shot turn of cron and heartbeat.\<close>

definition run_turn :: "(agent_request \<Rightarrow> agent_result) \<Rightarrow> string \<Rightarrow> string \<Rightarrow> go_error + string" where
  "run_turn rt prompt sessionID =
     (case rt (agent_request_for prompt sessionID [] None) of
        AgentErr e \<Rightarrow> Inl e
      | AgentOk resp \<Rightarrow> Inr (result_output resp))"

subsection \<open>Counting effects\<close>

fun is_publish :: "effect \<Rightarrow> bool" where
  "is_publish (Publish m r) = True" | "is_publish _ = False"

fun is_run :: "effect \<Rightarrow> bool" where
  "is_run (RunAgent c r) = True" | "is_run (RunAgentStream c r) = True" | "is_run _ = False"

fun is_completed :: "effect \<Rightarrow> bool" where
  "is_completed (Emit e) = (ev_type e = event_turn_completed)" | "is_completed _ = False"

definition publishes :: "effect list \<Rightarrow> effect list" where "publishes es = filter is_publish es"
definition agent_runs :: "effect list \<Rightarrow> effect list" where "agent_runs es = filter is_run es"
definition completions :: "effect list \<Rightarrow> effect list" where "completions es = filter is_completed es"

lemmas counting = publishes_def agent_runs_def completions_def

lemma event_types [simp]: "event_outbound_delivery_failed \<noteq> event_turn_completed"
    "event_stream_failed \<noteq> event_turn_completed" "''pipeline.turn_start'' \<noteq> event_turn_completed"
  by (simp_all add: event_outbound_delivery_failed_def event_stream_failed_def event_turn_completed_def)

lemma counting_append [simp]:
  "publishes (xs @ ys) = publishes xs @ publishes ys"
  "agent_runs (xs @ ys) = agent_runs xs @ agent_runs ys"
  "completions (xs @ ys) = completions xs @ completions ys"
  "publishes [] = []" "agent_runs [] = []" "completions [] = []"
  by (simp_all add: counting)

lemma send_error_counts [simp]:
  "publishes (send_error env c chat t w) = [publish_effect env (reply_to c chat t None)]"
  "agent_runs (send_error env c chat t w) = []" "completions (send_error env c chat t w) = []"
  by (cases "pv_publish env (reply_to c chat t None)";
      simp add: counting send_error_def Let_def publish_effect_def plain_event_def)+

lemma preprocess_shape: "e \<in> set (preprocess_effects ch msg) \<Longrightarrow> \<exists>n h. e = PreProcess n h"
proof (cases ch)
  case (Some c)
  assume "e \<in> set (preprocess_effects ch msg)"
  then show ?thesis
    using Some by (cases "ci_preprocess c"; cases "parse_int (im_chat_id msg)") (simp_all add: preprocess_effects_def)
qed (simp add: preprocess_effects_def)

lemma preprocess_counts [simp]:
  "filter is_publish (preprocess_effects ch msg) = []"
  "filter is_run (preprocess_effects ch msg) = []"
  "filter is_completed (preprocess_effects ch msg) = []"
  by (auto simp: filter_empty_conv dest: preprocess_shape)

lemma before_counts [simp]:
  "publishes (turn_start_event msg # preprocess_effects ch msg) = []"
  "agent_runs (turn_start_event msg # preprocess_effects ch msg) = []"
  "completions (turn_start_event msg # preprocess_effects ch msg) = []"
  by (simp_all add: counting turn_start_event_def plain_event_def)

lemma publish_counts [simp]:
  "publishes [publish_effect env m] = [publish_effect env m]" "agent_runs [publish_effect env m] = []"
  "completions [publish_effect env m] = []"
  by (simp_all add: counting publish_effect_def)

definition in_context :: "inbound_message \<Rightarrow> string \<Rightarrow> ctx \<Rightarrow> effect \<Rightarrow> bool" where
  "in_context msg key ctx e = (case e of
       RunAgent c r \<Rightarrow> c = turn_context_for ctx msg key \<and> ar_session r = key
     | RunAgentStream c r \<Rightarrow> c = turn_context_for ctx msg key \<and> ar_session r = key
     | _ \<Rightarrow> False)"

definition completion_of :: "pipe_env \<Rightarrow> inbound_message \<Rightarrow> string \<Rightarrow> turn_plan \<Rightarrow> effect list \<Rightarrow> bool" where
  "completion_of env msg key plan es \<longleftrightarrow>
     completions es = [] \<or> tp_session_mode plan = SessionModeCurrent \<and>
       (\<exists>t. completions es = [turn_completed_effect env msg key t])"

definition replies_of :: "inbound_message \<Rightarrow> effect list \<Rightarrow> bool" where
  "replies_of msg es \<longleftrightarrow> es = [] \<or>
     (\<exists>m r. es = [Publish m r] \<and> om_channel m = im_channel msg \<and> om_chat_id m = im_chat_id msg)"

lemma replies_of_simps [simp]: "replies_of msg []"
    "replies_of msg [publish_effect env (reply_to (im_channel msg) (im_chat_id msg) t meta)]"
  by (simp_all add: replies_of_def publish_effect_def reply_to_def)

lemma agent_request_session [simp]: "ar_session (agent_request_for p key bs m) = key"
  by (simp add: agent_request_for_def case_prod_beta Let_def)

lemma stream_turn_counts:
  assumes "run_stream_turn env ctx msg key meta plan = (effs, err)"
  shows "publishes effs = [] \<and> (\<exists>e. agent_runs effs = [e] \<and> in_context msg key ctx e)
    \<and> completion_of env msg key plan effs"
proof -
  let ?ctx = "turn_context_for ctx msg key"
  let ?req = "agent_request_for (im_content msg) key (im_content_blocks msg) meta"
  show ?thesis
  proof (cases "pv_run_stream env ?ctx ?req")
    case (Inl e)
    with assms show ?thesis
      by (auto simp: run_stream_turn_def Let_def counting completion_of_def in_context_def)
  next
    case (Inr evs)
    show ?thesis
    proof (cases "pv_send_stream env (im_chat_id msg) (im_transport_meta msg) evs")
      case None
      with Inr assms show ?thesis
        by (cases "tp_session_mode plan = SessionModeCurrent")
          (auto simp: run_stream_turn_def Let_def counting completion_of_def in_context_def turn_completed_effect_def)
    next
      case (Some e)
      with Inr assms show ?thesis
        by (auto simp: run_stream_turn_def Let_def counting completion_of_def in_context_def report_stream_failed_def
            plain_event_def)
    qed
  qed
qed

lemma sync_turn_counts:
  assumes "run_sync_turn env ps ctx msg key so plan = (ps', effs, err)"
  shows "replies_of msg (publishes effs) \<and> (err \<noteq> None \<longrightarrow> publishes effs = [])
    \<and> (\<exists>e. agent_runs effs = [e] \<and> in_context msg key ctx e) \<and> completion_of env msg key plan effs"
proof -
  let ?ctx = "turn_context_for ctx msg key"
  let ?req = "agent_request_for (im_content msg) key (im_content_blocks msg) (so_metadata so)"
  have r: "publishes [RunAgent ?ctx ?req] = []" "agent_runs [RunAgent ?ctx ?req] = [RunAgent ?ctx ?req]"
    "completions [RunAgent ?ctx ?req] = []" "in_context msg key ctx (RunAgent ?ctx ?req)"
    by (simp_all add: counting in_context_def)
  have t: "publishes [turn_completed_effect env msg key x] = []" "agent_runs [turn_completed_effect env msg key x] = []"
    "completions [turn_completed_effect env msg key x] = [turn_completed_effect env msg key x]" for x
    by (simp_all add: counting turn_completed_effect_def)
  show ?thesis
  proof (cases "pv_run env ?ctx ?req")
    case (AgentErr e)
    with assms have "effs = [RunAgent ?ctx ?req]" by (simp add: run_sync_turn_def Let_def)
    then show ?thesis using r by (simp add: completion_of_def)
  next
    case (AgentOk resp)
    obtain ps2 reply handled perr where h:
      "handle_post_response (pv_post env) ps (stable_route_key msg) resp (so_trail so) = (ps2, reply, handled, perr)"
      by (metis prod_cases4)
    show ?thesis
    proof (cases perr)
      case (Some e)
      with AgentOk h assms have "effs = [RunAgent ?ctx ?req]" by (simp add: run_sync_turn_def Let_def)
      then show ?thesis using r by (simp add: completion_of_def)
    next
      case None
      let ?res = "if handled then reply else result_output resp"
      have "effs = [RunAgent ?ctx ?req] @
          (if ?res \<noteq> [] then [publish_effect env (reply_to (im_channel msg) (im_chat_id msg) ?res (im_transport_meta msg))] else []) @
          (if tp_session_mode plan = SessionModeCurrent then [turn_completed_effect env msg key ?res] else [])"
        and "err = None"
        using AgentOk h None assms by (simp_all add: run_sync_turn_def Let_def)
      then show ?thesis using r t by (simp only: counting_append completion_of_def) auto
    qed
  qed
qed

lemma builtin_counts:
  assumes "handle_builtin_effects env ps msg = (ps', effs, handled)"
  shows "replies_of msg (publishes effs) \<and> agent_runs effs = [] \<and> completions effs = []
    \<and> (\<not> handled \<longrightarrow> ps' = ps \<and> effs = [])"
  using assms
  by (auto simp: handle_builtin_effects_def handle_builtin_def split: prod.splits option.splits if_splits sum.splits)

subsection \<open>Properties of a turn\<close>

text \<open>The session under which a message runs.\<close>

definition session_key_of :: "pipe_env \<Rightarrow> post_state \<Rightarrow> inbound_message \<Rightarrow> string" where
  "session_key_of env ps msg =
     resolve_sdk_session_id (Some (ps_router ps)) (im_channel msg) (im_chat_id msg) (stable_route_key msg)
       (rh_session_mode (im_hints msg)) (pe_nanos (pv_post env))"

lemma plan_mode [simp]: "tp_session_mode (classify_turn msg ch) = rh_session_mode (im_hints msg)"
  by (simp add: classify_turn_def)

lemma handle_counts:
  assumes "handle_message env ctx ps msg = (ps', effs)"
  shows "replies_of msg (publishes effs)
    \<and> (agent_runs effs = [] \<or> (\<exists>e. agent_runs effs = [e] \<and> in_context msg (session_key_of env ps msg) ctx e))
    \<and> completion_of env msg (session_key_of env ps msg) (classify_turn msg (pv_channel env (im_channel msg))) effs"
proof -
  let ?key = "session_key_of env ps msg"
  let ?plan = "classify_turn msg (pv_channel env (im_channel msg))"
  let ?before = "turn_start_event msg # preprocess_effects (pv_channel env (im_channel msg)) msg"
  obtain ps0 beffs handled where b: "handle_builtin_effects env ps msg = (ps0, beffs, handled)"
    by (metis prod_cases3)
  note bc = builtin_counts [OF b]
  show ?thesis
  proof (cases handled)
    case True
    with b bc assms show ?thesis by (auto simp: handle_message_def completion_of_def)
  next
    case False
    then have ps0: "ps0 = ps" using bc by simp
    let ?pre = "pre_turn (turn_context_for ctx msg ?key) (pv_registry env) (im_content msg) (tp_slash_name ?plan)"
    show ?thesis
    proof (cases ?pre)
      case (Inl e)
      then have "effs = ?before @ send_error env (im_channel msg) (im_chat_id msg) user_err_command (CauseSlash e)"
        using assms b False ps0 by (simp add: handle_message_def session_key_of_def Let_def)
      then show ?thesis by (simp only: counting_append before_counts send_error_counts completion_of_def) simp
    next
      case (Inr so)
      show ?thesis
      proof (cases "so_continue so")
        case no: False
        then have "effs = ?before @ [publish_effect env (reply_to (im_channel msg) (im_chat_id msg)
            (so_direct_reply so) (im_transport_meta msg))]"
          using Inr assms b False ps0 by (simp add: handle_message_def session_key_of_def Let_def)
        then show ?thesis by (simp only: counting_append before_counts publish_counts completion_of_def) simp
      next
        case yes: True
        show ?thesis
        proof (cases "tp_use_stream ?plan")
          case True
          obtain e1 err where r: "run_stream_turn env ctx msg ?key (so_metadata so) ?plan = (e1, err)" by (metis prod.exhaust)
          have "effs = ?before @ e1 @ (case err of None \<Rightarrow> [] | Some cause \<Rightarrow>
              if cause_canceled cause then [] else send_error env (im_channel msg) (im_chat_id msg) user_err_message cause)"
            using r Inr assms b False ps0 yes True
            by (cases err) (simp_all add: handle_message_def session_key_of_def Let_def)
          then show ?thesis using stream_turn_counts [OF r]
            by (auto simp only: counting_append before_counts completion_of_def append_Nil split: option.splits if_splits)
              (simp_all, blast+)
        next
          case sync: False
          obtain p1 e1 err where r: "run_sync_turn env ps ctx msg ?key so ?plan = (p1, e1, err)" by (metis prod_cases3)
          have "effs = ?before @ e1 @ (case err of None \<Rightarrow> [] | Some cause \<Rightarrow>
              send_error env (im_channel msg) (im_chat_id msg)
                (case cause of CausePost _ \<Rightarrow> user_err_command | _ \<Rightarrow> user_err_message) cause)"
            using r Inr assms b False ps0 yes sync
            by (cases err) (simp_all add: handle_message_def session_key_of_def Let_def)
          then show ?thesis using sync_turn_counts [OF r]
            by (cases err) (simp_all only: counting_append before_counts completion_of_def append_Nil append_Nil2
                option.case send_error_counts, simp_all)
        qed
      qed
    qed
  qed
qed

text \<open>A metadata overlay that starts with the session id: the id is what the context answers.\<close>

lemma put_trimmed_keeps:
  "k \<noteq> [] \<Longrightarrow> \<forall>e \<in> set m. trim_space (fst e) \<noteq> k \<Longrightarrow> map_of (put_trimmed acc m) k = map_of acc k"
  by (induction acc m rule: put_trimmed.induct) (auto simp: Let_def map_put_def AList.update_conv')

lemma parent_session_of_turn:
  assumes "trim_space (im_channel msg) \<noteq> []" and "trim_space (im_chat_id msg) \<noteq> []"
  shows "parent_session_id (turn_context_for ctx msg key) = trim_space key"
proof -
  let ?i = "with_inbound ctx (im_channel msg) (im_chat_id msg)"
  let ?more = "if rh_message_id (im_hints msg) \<noteq> 0 then [(''message_id'', AnyInt (rh_message_id (im_hints msg)))] else []"
  let ?o = "(''session_id'', AnyStr key) # ?more"
  obtain t where t: "?i = Some t" "tc_channel t = trim_space (im_channel msg)" "tc_chat_id t = trim_space (im_chat_id msg)"
    by (simp add: with_inbound_def with_turn_def merge_preserve_def normalize_turn_def)
  have nt: "normal_turn t" using with_inbound_normal [of ctx "im_channel msg" "im_chat_id msg"] t by (simp add: normal_ctx_def)
  define m where "m = put_trimmed (entries (tc_metadata t)) ?o"
  have sid: "trim_space ''session_id'' = ''session_id''" and mid: "trim_space ''message_id'' = ''message_id''"
    by code_simp+
  have "normal_metadata (entries (tc_metadata t))"
    using nt by (auto simp: normal_turn_def entries_def normal_metadata_def split: option.splits)
  then have n: "normal_metadata m" unfolding m_def by (rule normal_put_trimmed)
  have "map_of m ''session_id'' = map_of (map_put ''session_id'' (AnyStr key) (entries (tc_metadata t))) ''session_id''"
    unfolding m_def using mid by (simp add: sid put_trimmed_keeps)
  then have g: "map_of m ''session_id'' = Some (AnyStr key)" by (simp add: map_put_def AList.update_conv')
  then have ne: "m \<noteq> []" by auto
  have "overlay_metadata (tc_metadata t) ?o = Some m"
    by (cases "tc_metadata t") (simp_all add: overlay_metadata_def m_def len_map_def entries_def del: put_trimmed.simps)
  moreover have "normal_turn (t\<lparr>tc_metadata := Some m\<rparr>)" using nt n ne by (simp add: normal_turn_def)
  ultimately have "turn_context_for ctx msg key = Some (t\<lparr>tc_metadata := Some m\<rparr>)"
    using t by (simp add: turn_context_for_def Let_def with_metadata_def normalize_turn_id)
  with t g assms \<open>normal_turn (t\<lparr>tc_metadata := Some m\<rparr>)\<close> show ?thesis
    by (simp add: parent_session_id_def turn_from_def normalize_turn_id)
qed

definition sample_msg :: inbound_message where
  "sample_msg = \<lparr>im_channel = ''web'', im_sender_id = ''u'', im_chat_id = ''1'', im_content = ''/compact'', im_timestamp = 0,
     im_media = [], im_hints = \<lparr>rh_session_mode = SessionModeCurrent, rh_force_sync = False, rh_builtin_command = [],
       rh_slash_command = [], rh_slash_type = [], rh_slash_args = [], rh_message_id = 0\<rparr>,
     im_transport_meta = None, im_content_blocks = []\<rparr>"

definition sample_env :: pipe_env where
  "sample_env = \<lparr>pv_channel = (\<lambda>_. Some \<lparr>ci_stream = True, ci_preprocess = False\<rparr>), pv_publish = (\<lambda>_. None),
     pv_run = (\<lambda>_ _. AgentOk (Some (Some ''sum''))), pv_run_stream = (\<lambda>_ _. Inr [DeltaText ''sum'']),
     pv_send_stream = (\<lambda>_ _ _. None), pv_now = 0,
     pv_post = \<lparr>pe_nanos = 5, pe_sha = id, pe_rotate_io = IoOk, pe_seed_io = SeedOk, pe_set_io = IoOk, pe_encode = id\<rparr>,
     pv_registry = (case builtins of Inl _ \<Rightarrow> None | Inr r \<Rightarrow> Some r), pv_error_text = (\<lambda>_. ''e'')\<rparr>"

definition sample_post :: post_state where
  "sample_post = \<lparr>ps_router = \<lparr>r_path = [], r_sessions = []\<rparr>, ps_file = FileAbsent, ps_workspace = ''/w'',
     ps_flush_hook = False, ps_flushed = [], ps_seeds = Map.empty\<rparr>"

lemma sample_handle:
  "handle_message sample_env None sample_post sample_msg
     = (fst (handle_message sample_env None sample_post sample_msg), snd (handle_message sample_env None sample_post sample_msg))"
  by simp

text \<open>The runs among the effects: a stream, another, or no run.\<close>

definition run_kind :: "effect \<Rightarrow> nat" where
  "run_kind e = (case e of RunAgentStream _ _ \<Rightarrow> 2 | RunAgent _ _ \<Rightarrow> 1 | _ \<Rightarrow> 0)"

lemma sample_kinds: "map run_kind (snd (handle_message sample_env None sample_post sample_msg)) = [0, 0, 2, 0, 0, 0]"
  by code_simp

lemma run_kind_run: "is_run e \<longleftrightarrow> run_kind e \<noteq> 0" "run_kind e = 2 \<longleftrightarrow> (\<exists>c r. e = RunAgentStream c r)"
  by (auto simp: run_kind_def split: effect.splits)

lemma sample_runs: "map is_run (snd (handle_message sample_env None sample_post sample_msg)) = [False, False, True, False, False, False]"
proof -
  have "map is_run es = map (\<lambda>k. k \<noteq> 0) (map run_kind es)" for es by (induction es) (simp_all add: run_kind_run(1))
  then show ?thesis by (simp only: sample_kinds) simp
qed

lemma sample_run_in:
  "\<exists>c r. RunAgentStream c r \<in> set (snd (handle_message sample_env None sample_post sample_msg))"
proof -
  have "2 \<in> run_kind ` set (snd (handle_message sample_env None sample_post sample_msg))"
    unfolding set_map [symmetric] sample_kinds by simp
  then show ?thesis using run_kind_run(2) by (metis imageE)
qed



text \<open>The agent - and through it every tool - sees the turn's own session: each run of a turn is
  given a context whose parent session is the session the turn runs under.\<close>

theorem run_sees_session:
  assumes "handle_message env ctx ps msg = (ps', effs)"
    and "trim_space (im_channel msg) \<noteq> []" and "trim_space (im_chat_id msg) \<noteq> []"
    and "RunAgent c r \<in> set effs \<or> RunAgentStream c r \<in> set effs"
  shows "parent_session_id c = trim_space (ar_session r)
    \<and> turn_channel c = Some (trim_space (im_channel msg)) \<and> turn_chat_id c = Some (trim_space (im_chat_id msg))"
proof -
  obtain e where e: "e \<in> set effs" "e = RunAgent c r \<or> e = RunAgentStream c r" using assms(4) by blast
  then have "e \<in> set (agent_runs effs)" by (auto simp: agent_runs_def)
  then have "in_context msg (session_key_of env ps msg) ctx e" using handle_counts [OF assms(1)] by auto
  then have c: "c = turn_context_for ctx msg (ar_session r)" using e(2) by (auto simp: in_context_def)
  have "turn_from c = Some \<lparr>tc_channel = trim_space (im_channel msg), tc_chat_id = trim_space (im_chat_id msg),
      tc_metadata = tc_metadata (the c)\<rparr>"
    unfolding c turn_context_for_def Let_def using assms(2,3)
    by (subst conjunct1 [OF inbound_identity]) simp
  then show ?thesis using parent_session_of_turn [OF assms(2,3), of ctx "ar_session r"]
    by (simp add: c turn_channel_def turn_chat_id_def)
qed

theorem run_sees_session_witness:
  "\<exists>c r. RunAgentStream c r \<in> set (snd (handle_message sample_env None sample_post sample_msg))
     \<and> parent_session_id c = trim_space (ar_session r) \<and> turn_channel c = Some ''web''"
proof -
  obtain c r where e: "RunAgentStream c r \<in> set (snd (handle_message sample_env None sample_post sample_msg))"
    using sample_run_in by blast
  have "trim_space (im_channel sample_msg) = ''web''" "trim_space (im_chat_id sample_msg) = ''1''" by code_simp+
  then have "parent_session_id c = trim_space (ar_session r) \<and> turn_channel c = Some ''web''"
    using run_sees_session [OF sample_handle, of c r] e by simp
  with e show ?thesis by blast
qed

text \<open>A streamed turn never runs a post-turn action: on a streaming channel a message that is not the
  builtin leaves the router and every session as they were, whatever the slash command's result asks
  for - so \<open>/compact\<close> there neither rotates the session nor sends its acknowledgement.\<close>

theorem streamed_turn_keeps_sessions:
  assumes "handle_message env ctx ps msg = (ps', effs)"
    and "pv_channel env (im_channel msg) = Some ci" and "ci_stream ci" and "\<not> rh_force_sync (im_hints msg)"
    and "trim_space (rh_builtin_command (im_hints msg)) \<noteq> ''new''"
  shows "ps' = ps \<and> (\<forall>m r. Publish m r \<in> set effs \<longrightarrow> om_content m \<noteq> compact_ack
      \<or> (\<exists>out. pre_turn (turn_context_for ctx msg (session_key_of env ps msg)) (pv_registry env) (im_content msg)
           (rh_slash_command (im_hints msg)) = Inr out \<and> so_direct_reply out = compact_ack))"
proof -
  let ?key = "session_key_of env ps msg"
  let ?plan = "classify_turn msg (Some ci)"
  have pl: "tp_use_stream ?plan" "tp_slash_name ?plan = rh_slash_command (im_hints msg)"
    using assms(3,4) by (simp_all add: classify_turn_def)
  have b: "handle_builtin_effects env ps msg = (ps, [], False)"
    using assms(5) by (simp add: handle_builtin_effects_def handle_builtin_def)
  let ?before = "turn_start_event msg # preprocess_effects (Some ci) msg"
  let ?pre = "pre_turn (turn_context_for ctx msg ?key) (pv_registry env) (im_content msg) (rh_slash_command (im_hints msg))"
  have ackne: "user_err_command \<noteq> compact_ack" "user_err_message \<noteq> compact_ack"
    by (simp_all add: user_err_command_def user_err_message_def compact_ack_def)
  have pb: "Publish m r \<notin> set ?before" for m r
    by (auto simp: turn_start_event_def plain_event_def dest: preprocess_shape)
  have se: "Publish m r \<in> set (send_error env (im_channel msg) (im_chat_id msg) t w) \<Longrightarrow> om_content m = t" for m r t w
    by (auto simp: send_error_def Let_def publish_effect_def reply_to_def plain_event_def split: option.splits)
  show ?thesis
  proof (cases ?pre)
    case (Inl e)
    then have "ps' = ps" "effs = ?before @ send_error env (im_channel msg) (im_chat_id msg) user_err_command (CauseSlash e)"
      using assms(1,2) b pl by (simp_all add: handle_message_def session_key_of_def Let_def)
    then show ?thesis using pb se ackne by (auto simp del: set_append) (metis Un_iff set_append)
  next
    case (Inr so)
    show ?thesis
    proof (cases "so_continue so")
      case False
      then have "ps' = ps" "effs = ?before @ [publish_effect env (reply_to (im_channel msg) (im_chat_id msg)
          (so_direct_reply so) (im_transport_meta msg))]"
        using Inr assms(1,2) b pl by (simp_all add: handle_message_def session_key_of_def Let_def)
      then show ?thesis using pb Inr by (auto simp: publish_effect_def reply_to_def)
    next
      case True
      obtain e1 err where r: "run_stream_turn env ctx msg ?key (so_metadata so) ?plan = (e1, err)" by (metis prod.exhaust)
      have "ps' = ps" and e: "effs = ?before @ e1 @ (case err of None \<Rightarrow> [] | Some cause \<Rightarrow>
          if cause_canceled cause then [] else send_error env (im_channel msg) (im_chat_id msg) user_err_message cause)"
        using r Inr assms(1,2) b pl True
        by (cases err; simp add: handle_message_def session_key_of_def Let_def)+
      moreover have "Publish m r \<notin> set e1" for m r
        using stream_turn_counts [OF r] by (auto simp: publishes_def filter_empty_conv)
      ultimately show ?thesis using pb se ackne by (auto split: option.splits if_splits)
    qed
  qed
qed

theorem streamed_turn_keeps_sessions_witness:
  "fst (handle_message sample_env None sample_post sample_msg) = sample_post"
proof -
  have "trim_space (rh_builtin_command (im_hints sample_msg)) \<noteq> ''new''" by code_simp
  moreover have "pv_channel sample_env (im_channel sample_msg) = Some \<lparr>ci_stream = True, ci_preprocess = False\<rparr>"
    "\<not> rh_force_sync (im_hints sample_msg)"
    by (simp_all add: sample_env_def sample_msg_def)
  ultimately show ?thesis using streamed_turn_keeps_sessions [OF sample_handle] by auto
qed

subsection \<open>Replacing the runtime\<close>

text \<open>\<open>turnMu\<close>: a turn holds the read lock from the moment it reads the runtime pointer to its end;
  \<open>Reload\<close> and \<open>TakeRuntimeForShutdown\<close> swap the pointer under the write lock, so only when no turn
  is running, and the old runtime is closed afterwards. \<open>RunStream\<close> releases the lock when it
  returns the stream. Runtimes are numbered; each is handed to \<open>Reload\<close> once.\<close>

record lock_state =
  ls_rt :: "nat option"
  ls_turns :: "(nat \<times> nat option) list"
  ls_streams :: "(nat \<times> nat option) list"
  ls_old :: "nat list"
  ls_closed :: "nat list"
  ls_used :: "nat list"
  ls_workspace :: string

definition new_lock :: "nat option \<Rightarrow> string \<Rightarrow> lock_state" where
  "new_lock rt ws = \<lparr>ls_rt = rt, ls_turns = [], ls_streams = [], ls_old = [], ls_closed = [],
     ls_used = (case rt of None \<Rightarrow> [] | Some r \<Rightarrow> [r]), ls_workspace = ws\<rparr>"

definition begin_turn :: "nat \<Rightarrow> lock_state \<Rightarrow> lock_state" where
  "begin_turn i s = s\<lparr>ls_turns := (i, ls_rt s) # ls_turns s\<rparr>"

definition end_turn :: "nat \<Rightarrow> lock_state \<Rightarrow> lock_state" where
  "end_turn i s = s\<lparr>ls_turns := filter (\<lambda>t. fst t \<noteq> i) (ls_turns s)\<rparr>"

text \<open>The return of \<open>RunStream\<close>: the turn's lock is released, its stream lives on.\<close>

definition return_stream :: "nat \<Rightarrow> lock_state \<Rightarrow> lock_state" where
  "return_stream i s = (end_turn i s)\<lparr>ls_streams := filter (\<lambda>t. fst t = i) (ls_turns s) @ ls_streams s\<rparr>"

definition swap_runtime :: "nat option \<Rightarrow> lock_state \<Rightarrow> lock_state" where
  "swap_runtime rt s =
     s\<lparr>ls_rt := rt, ls_old := (case ls_rt s of None \<Rightarrow> ls_old s | Some r \<Rightarrow> r # ls_old s),
       ls_used := (case rt of None \<Rightarrow> ls_used s | Some r \<Rightarrow> r # ls_used s)\<rparr>"

definition reload_runtime :: "bool \<Rightarrow> nat \<Rightarrow> string \<Rightarrow> lock_state \<Rightarrow> lock_state option" where
  "reload_runtime channelsOk new ws s =
     (if \<not> channelsOk then Some s
      else if ls_turns s \<noteq> [] then None
      else Some ((swap_runtime (Some new) s)\<lparr>ls_workspace := ws\<rparr>))"

definition take_runtime :: "lock_state \<Rightarrow> lock_state option" where
  "take_runtime s = (if ls_turns s \<noteq> [] then None else Some (swap_runtime None s))"

definition close_old :: "lock_state \<Rightarrow> lock_state option" where
  "close_old s = (case ls_old s of [] \<Rightarrow> None
     | r # rs \<Rightarrow> Some (s\<lparr>ls_old := rs, ls_closed := r # ls_closed s\<rparr>))"

inductive lock_step :: "lock_state \<Rightarrow> lock_state \<Rightarrow> bool" where
  turn_begins: "lock_step s (begin_turn i s)"
| turn_ends: "lock_step s (end_turn i s)"
| stream_returns: "lock_step s (return_stream i s)"
| reloads: "new \<notin> set (ls_used s) \<Longrightarrow> reload_runtime ok new ws s = Some s' \<Longrightarrow> lock_step s s'"
| shuts_down: "take_runtime s = Some s' \<Longrightarrow> lock_step s s'"
| closes_old: "close_old s = Some s' \<Longrightarrow> lock_step s s'"

inductive lock_steps :: "lock_state \<Rightarrow> lock_state \<Rightarrow> bool" where
  lock_refl: "lock_steps s s"
| lock_then: "lock_steps a b \<Longrightarrow> lock_step b c \<Longrightarrow> lock_steps a c"

definition lock_inv :: "lock_state \<Rightarrow> bool" where
  "lock_inv s \<longleftrightarrow> (\<forall>t \<in> set (ls_turns s). snd t = ls_rt s)
     \<and> set (ls_old s) \<union> set (ls_closed s) \<subseteq> set (ls_used s)
     \<and> (\<forall>r. ls_rt s = Some r \<longrightarrow> r \<in> set (ls_used s) \<and> r \<notin> set (ls_old s) \<and> r \<notin> set (ls_closed s))"

lemmas lock_defs = begin_turn_def end_turn_def return_stream_def swap_runtime_def reload_runtime_def
  take_runtime_def close_old_def lock_inv_def

lemma lock_step_inv: "lock_step s s' \<Longrightarrow> lock_inv s \<Longrightarrow> lock_inv s'"
proof (induction rule: lock_step.induct)
  case (reloads new s ok ws s')
  then show ?case by (cases "ls_rt s") (auto simp: lock_defs split: if_splits)
next
  case (shuts_down s s')
  then show ?case by (cases "ls_rt s") (auto simp: lock_defs split: if_splits)
next
  case (closes_old s s')
  then obtain r rs where "ls_old s = r # rs" "s' = s\<lparr>ls_old := rs, ls_closed := r # ls_closed s\<rparr>"
    by (auto simp: close_old_def split: list.splits)
  with closes_old(2) show ?case by (simp add: lock_inv_def)
qed (auto simp: lock_defs)

lemma lock_reach_inv: "lock_steps a s \<Longrightarrow> lock_inv a \<Longrightarrow> lock_inv s"
  by (induction rule: lock_steps.induct) (auto dest: lock_step_inv)

lemma new_lock_inv: "lock_inv (new_lock rt ws)"
  by (simp add: new_lock_def lock_inv_def split: option.splits)

text \<open>C10: reloads drain: however turns, reloads, shutdowns and closes interleave, no runtime is closed, or
  even replaced, while a turn holds it - every running turn holds the current runtime.\<close>

theorem reload_drains_turns:
  assumes "lock_steps (new_lock rt ws) s" and "(i, r) \<in> set (ls_turns s)"
  shows "r = ls_rt s \<and> (\<forall>n. r = Some n \<longrightarrow> n \<notin> set (ls_closed s) \<and> n \<notin> set (ls_old s))
    \<and> reload_runtime True new ws' s = None \<and> take_runtime s = None"
  using lock_reach_inv [OF assms(1) new_lock_inv] assms(2)
  by (force simp: lock_inv_def reload_runtime_def take_runtime_def)

theorem reload_drains_turns_witness:
  "reload_runtime True 2 ''/w'' (begin_turn 7 (new_lock (Some 1) ''/w'')) = None"
proof -
  have "lock_steps (new_lock (Some 1) ''/w'') (begin_turn 7 (new_lock (Some 1) ''/w''))"
    by (rule lock_steps.lock_then [OF lock_steps.lock_refl lock_step.turn_begins])
  moreover have "(7, Some 1) \<in> set (ls_turns (begin_turn 7 (new_lock (Some 1) ''/w'')))"
    by (simp add: begin_turn_def new_lock_def)
  ultimately show ?thesis using reload_drains_turns by blast
qed

text \<open>The drain does not cover the stream that \<open>RunStream\<close> hands out: a reachable state has a stream in
  use whose runtime has been closed by a reload.\<close>

theorem stream_outlives_runtime:
  "\<exists>s. lock_steps (new_lock (Some 1) ws) s \<and> (7, Some 1) \<in> set (ls_streams s) \<and> 1 \<in> set (ls_closed s)"
proof -
  let ?s0 = "new_lock (Some 1) ws"
  let ?s1 = "begin_turn 7 ?s0"
  let ?s2 = "return_stream 7 ?s1"
  let ?s3 = "(swap_runtime (Some 2) ?s2)\<lparr>ls_workspace := ws\<rparr>"
  let ?s4 = "?s3\<lparr>ls_old := [], ls_closed := [1]\<rparr>"
  have r: "reload_runtime True 2 ws ?s2 = Some ?s3"
    by (simp add: lock_defs new_lock_def)
  have c: "close_old ?s3 = Some ?s4" by (simp add: lock_defs new_lock_def)
  have "lock_steps ?s0 ?s2"
    by (rule lock_steps.lock_then [OF lock_steps.lock_then [OF lock_steps.lock_refl lock_step.turn_begins]
          lock_step.stream_returns])
  then have "lock_steps ?s0 ?s3"
    by (rule lock_steps.lock_then) (rule lock_step.reloads [OF _ r], simp add: lock_defs new_lock_def)
  then have "lock_steps ?s0 ?s4" by (rule lock_steps.lock_then [OF _ lock_step.closes_old [OF c]])
  moreover have "(7, Some 1) \<in> set (ls_streams ?s4)" by (simp add: lock_defs new_lock_def)
  ultimately show ?thesis by (intro exI [of _ ?s4]) simp
qed

end
