(* ===== verification/CronSchedule.thy ===== *)
theory CronSchedule
  imports Pipeline
begin

text \<open>
  \<open>internal/plugins/trigger/cron/schedule.go\<close>, \<open>types.go\<close> and \<open>payload_validate.go\<close>: schedules, their JSON
  form, payloads and jobs. The cron-expression library \<open>gronx\<close> is the argument \<open>gronx\<close>; an error of its
  \<open>NextTickAfter\<close> is \<open>None\<close>.
\<close>

subsection \<open>Schedules\<close>

text \<open>\<open>NilSched\<close> is the nil interface that a job keeps when its schedule could not be decoded. Asking it for
  the next time panics, written as the error \<open>NilSchedule\<close>.\<close>

datatype schedule = CronSched string | EverySched duration | AtSched instant | NilSched

record gronx =
  gx_next :: "string \<Rightarrow> instant \<Rightarrow> instant option"
  gx_valid :: "string \<Rightarrow> bool"

datatype cron_error =
    NilSchedule
  | ExprRequired
  | ExprInvalid string
  | IntervalNotPositive
  | AtTimeRequired
  | NextTickFailed string
  | ScheduleRequired
  | UnknownKind string
  | RecipientWithoutDeliver
  | DeliverWithoutRecipient
  | ReservedRecipient
  | SaveFailed
  | JobNotFound string
  | NameRequired
  | MessageRequired
  | OneScheduleRequired
  | InDurationInvalid string
  | DeliverNeedsTarget
  | AtMsInvalid
  | ToolBothDeliveries
  | ToolTargetWithIncoming
  | ToolNoConversation
  | ToolDeliverNeedsTarget
  | ToolReservedRecipient string
  | ToolTargetWithoutDeliver string string
  | SlashNameRequired
  | SlashMessageRequired
  | SlashOneSchedule
  | SlashDeliverNeedsTarget
  | SlashAtMs
  | IdRequired
  | NoJobWithId string
  | ExecutorRequired

text \<open>\<open>time.Time{}\<close> is \<open>time_zero\<close>.\<close>

definition sched_next :: "gronx \<Rightarrow> schedule \<Rightarrow> instant \<Rightarrow> cron_error + instant" where
  "sched_next gx s after =
     (case s of
        CronSched e \<Rightarrow> (case gx_next gx e after of None \<Rightarrow> Inl (NextTickFailed e) | Some t \<Rightarrow> Inr t)
      | EverySched d \<Rightarrow> Inr (if d \<le> 0 then time_zero else after + d)
      | AtSched t \<Rightarrow> Inr (if to_milli t \<ge> to_milli after then t else time_zero)
      | NilSched \<Rightarrow> Inl NilSchedule)"

definition sched_validate :: "gronx \<Rightarrow> schedule \<Rightarrow> cron_error option" where
  "sched_validate gx s =
     (case s of
        CronSched e \<Rightarrow>
          (if trim_space e = [] then Some ExprRequired
           else if \<not> gx_valid gx (trim_space e) then Some (ExprInvalid e) else None)
      | EverySched d \<Rightarrow> (if d \<le> 0 then Some IntervalNotPositive else None)
      | AtSched t \<Rightarrow> (if is_zero_time t then Some AtTimeRequired else None)
      | NilSched \<Rightarrow> Some NilSchedule)"

definition is_at :: "schedule \<Rightarrow> bool" where
  "is_at s = (case s of AtSched _ \<Rightarrow> True | _ \<Rightarrow> False)"

record schedule_json =
  sj_kind :: string
  sj_expr :: string
  sj_every_ms :: int
  sj_at_ms :: int

text \<open>\<open>Duration.Milliseconds()\<close> divides towards zero; a product of a duration wraps.\<close>

definition marshal_schedule :: "schedule \<Rightarrow> schedule_json option" where
  "marshal_schedule s =
     (case s of
        CronSched e \<Rightarrow> Some \<lparr>sj_kind = ''cron'', sj_expr = e, sj_every_ms = 0, sj_at_ms = 0\<rparr>
      | EverySched d \<Rightarrow> Some \<lparr>sj_kind = ''every'', sj_expr = [], sj_every_ms = tdiv d millisecond, sj_at_ms = 0\<rparr>
      | AtSched t \<Rightarrow> Some \<lparr>sj_kind = ''at'', sj_expr = [], sj_every_ms = 0, sj_at_ms = to_milli t\<rparr>
      | NilSched \<Rightarrow> None)"

text \<open>\<open>None\<close> is an absent or null schedule.\<close>

definition unmarshal_schedule :: "schedule_json option \<Rightarrow> cron_error + schedule" where
  "unmarshal_schedule data =
     (case data of
        None \<Rightarrow> Inl ScheduleRequired
      | Some raw \<Rightarrow>
          (if sj_kind raw = ''cron'' then Inr (CronSched (sj_expr raw))
           else if sj_kind raw = ''every'' then Inr (EverySched (wrap64 (sj_every_ms raw * millisecond)))
           else if sj_kind raw = ''at'' then Inr (AtSched (unix_milli (sj_at_ms raw)))
           else Inl (UnknownKind (sj_kind raw))))"

subsection \<open>Payloads and jobs\<close>

record payload =
  pl_message :: string
  pl_deliver :: bool
  pl_channel :: string
  pl_to :: string

definition is_reserved_recipient :: "string \<Rightarrow> bool" where
  "is_reserved_recipient to' \<longleftrightarrow> to_lower (trim_space to') = ''deliver_to_incoming_chat''"

definition payload_validate :: "payload \<Rightarrow> cron_error option" where
  "payload_validate p =
     (let ch = trim_space (pl_channel p); to' = trim_space (pl_to p) in
      if \<not> pl_deliver p then (if ch \<noteq> [] \<or> to' \<noteq> [] then Some RecipientWithoutDeliver else None)
      else if ch = [] \<or> to' = [] then Some DeliverWithoutRecipient
      else if is_reserved_recipient to' then Some ReservedRecipient
      else None)"

datatype job_status = StatusNone | StatusOk | StatusError

record job_state =
  js_next_run :: int
  js_last_run :: int
  js_last_status :: job_status
  js_last_error :: string

record cron_job =
  cj_id :: string
  cj_name :: string
  cj_enabled :: bool
  cj_schedule :: schedule
  cj_payload :: payload
  cj_state :: job_state
  cj_delete_after_run :: bool

text \<open>A job as its file keeps it.\<close>

record job_json =
  jj_id :: string
  jj_name :: string
  jj_enabled :: bool
  jj_schedule :: "schedule_json option"
  jj_payload :: payload
  jj_state :: job_state
  jj_delete_after_run :: bool

definition marshal_job :: "cron_job \<Rightarrow> job_json" where
  "marshal_job j = \<lparr>jj_id = cj_id j, jj_name = cj_name j, jj_enabled = cj_enabled j,
     jj_schedule = marshal_schedule (cj_schedule j), jj_payload = cj_payload j,
     jj_state = cj_state j, jj_delete_after_run = cj_delete_after_run j\<rparr>"

text \<open>What \<open>UnmarshalJSON\<close> leaves in the element: an undecodable schedule leaves every other field filled.\<close>

definition job_of :: "job_json \<Rightarrow> schedule \<Rightarrow> cron_job" where
  "job_of d sch = \<lparr>cj_id = jj_id d, cj_name = jj_name d, cj_enabled = jj_enabled d, cj_schedule = sch,
     cj_payload = jj_payload d, cj_state = jj_state d, cj_delete_after_run = jj_delete_after_run d\<rparr>"

definition unmarshal_job :: "job_json \<Rightarrow> cron_job \<times> cron_error option" where
  "unmarshal_job d =
     (case unmarshal_schedule (jj_schedule d) of
        Inl e \<Rightarrow> (job_of d NilSched, Some e)
      | Inr sch \<Rightarrow> (job_of d sch, None))"

definition new_cron_job :: "string \<Rightarrow> string \<Rightarrow> schedule \<Rightarrow> payload \<Rightarrow> cron_job" where
  "new_cron_job uuid name sch p =
     \<lparr>cj_id = uuid, cj_name = name, cj_enabled = True, cj_schedule = sch, cj_payload = p,
      cj_state = \<lparr>js_next_run = 0, js_last_run = 0, js_last_status = StatusNone, js_last_error = []\<rparr>,
      cj_delete_after_run = False\<rparr>"

subsection \<open>Round trip\<close>

text \<open>The schedules that JSON keeps: whole milliseconds, and an interval a \<open>Duration\<close> can hold.\<close>

definition whole_millis :: "schedule \<Rightarrow> bool" where
  "whole_millis s = (case s of
       CronSched _ \<Rightarrow> True
     | EverySched d \<Rightarrow> in_int64 d \<and> d mod millisecond = 0
     | AtSched t \<Rightarrow> t mod millisecond = 0
     | NilSched \<Rightarrow> False)"

lemma unmarshal_marshal_schedule:
  assumes "whole_millis s"
  shows "unmarshal_schedule (marshal_schedule s) = Inr s"
proof (cases s)
  case (EverySched d)
  define q where "q = d div millisecond"
  have q: "d = q * millisecond" "in_int64 d"
    using assms EverySched div_mult_mod_eq [of d millisecond] by (simp_all add: whole_millis_def q_def)
  then have "tdiv d millisecond = q" by (simp add: tdiv_mult millisecond_def)
  then show ?thesis using EverySched q by (simp add: marshal_schedule_def unmarshal_schedule_def)
next
  case (AtSched t)
  have "t = t div 1000000 * 1000000"
    using assms AtSched div_mult_mod_eq [of t 1000000] by (simp add: whole_millis_def millisecond_def)
  then show ?thesis using AtSched
    by (simp add: marshal_schedule_def unmarshal_schedule_def to_milli_def unix_milli_def)
next
  case NilSched
  with assms show ?thesis by (simp add: whole_millis_def)
qed (simp add: marshal_schedule_def unmarshal_schedule_def)

lemma unmarshal_marshal_job: "whole_millis (cj_schedule j) \<Longrightarrow> unmarshal_job (marshal_job j) = (j, None)"
  by (simp add: unmarshal_job_def marshal_job_def job_of_def unmarshal_marshal_schedule)

end
