(* ===== verification/CronService.thy ===== *)
theory CronService
  imports CronSchedule "HOL-Library.Multiset"
begin

text \<open>
  \<open>internal/plugins/trigger/cron/service.go\<close> and \<open>deliver.go\<close>: the scheduler. One definition per method,
  the state explicit; the clock, fresh ids and what the disk answers are arguments. A fired job lives
  in \<open>cv_waiting\<close> until its goroutine holds a slot of the lane and in \<open>cv_active\<close> while the agent runs;
  \<open>cron_step\<close> interleaves those goroutines with the timer and the callers.
\<close>

subsection \<open>State\<close>

text \<open>The job file. \<open>CronBad js\<close> is a file that is not a list of jobs, after which the decoder has left \<open>js\<close> in
  memory.\<close>

datatype cron_file = CronAbsent | CronUnreadable | CronBad "cron_job list" | CronFile "job_json list"

record cron_state =
  cv_jobs :: "cron_job list"
  cv_file :: cron_file
  cv_cap :: nat
  cv_wake :: bool
  cv_stopped :: bool
  cv_waiting :: "cron_job list"
  cv_active :: "(cron_job \<times> string) list"
  cv_runs :: "(string \<times> string \<times> string) list"
  cv_deliveries :: "(string \<times> string \<times> string) list"

text \<open>\<open>NewService\<close> with \<open>NewLane\<close>; \<open>hasExec\<close> is a non-nil executor.\<close>

definition lane_size :: "int \<Rightarrow> int" where "lane_size n = (if n < 1 then 1 else n)"

definition new_service :: "bool \<Rightarrow> int \<Rightarrow> cron_file \<Rightarrow> cron_error + cron_state" where
  "new_service hasExec maxConcurrent f =
     (if \<not> hasExec then Inl ExecutorRequired
      else Inr \<lparr>cv_jobs = [], cv_file = f, cv_cap = nat (lane_size maxConcurrent), cv_wake = False,
        cv_stopped = False, cv_waiting = [], cv_active = [], cv_runs = [], cv_deliveries = []\<rparr>)"

definition notify :: "cron_state \<Rightarrow> cron_state" where "notify s = s\<lparr>cv_wake := True\<rparr>"

definition job_by_id :: "string \<Rightarrow> cron_state \<Rightarrow> cron_job option" where
  "job_by_id i s = find (\<lambda>j. cj_id j = i) (cv_jobs s)"

definition find_job_index :: "string \<Rightarrow> cron_state \<Rightarrow> nat option" where
  "find_job_index i s = find_index (\<lambda>j. cj_id j = i) (cv_jobs s)"

definition list_jobs :: "cron_state \<Rightarrow> cron_job list" where "list_jobs s = cv_jobs s"

subsection \<open>The file\<close>

datatype atomic_io = AtomicOk | AtomicMkdirErr | AtomicTempErr | AtomicWriteErr | AtomicRenameErr

text \<open>\<open>writeAtomic\<close>: only the final rename changes the file.\<close>

definition write_atomic :: "atomic_io \<Rightarrow> job_json list \<Rightarrow> cron_file \<Rightarrow> cron_file \<times> cron_error option" where
  "write_atomic io d f = (case io of
       AtomicMkdirErr \<Rightarrow> (f, Some SaveFailed)
     | AtomicTempErr \<Rightarrow> (f, Some SaveFailed)
     | AtomicWriteErr \<Rightarrow> (f, Some SaveFailed)
     | AtomicRenameErr \<Rightarrow> (f, Some SaveFailed)
     | AtomicOk \<Rightarrow> (CronFile d, None))"

definition save_atomic :: "atomic_io \<Rightarrow> cron_state \<Rightarrow> cron_state \<times> cron_error option" where
  "save_atomic io s =
     (case write_atomic io (map marshal_job (cv_jobs s)) (cv_file s) of (f', e) \<Rightarrow> (s\<lparr>cv_file := f'\<rparr>, e))"

definition save_logged :: "atomic_io \<Rightarrow> cron_state \<Rightarrow> cron_state" where
  "save_logged io s = fst (save_atomic io s)"

text \<open>The decoder stops at the first element that fails and keeps that element too.\<close>

fun decode_jobs :: "job_json list \<Rightarrow> cron_job list \<times> cron_error option" where
  "decode_jobs [] = ([], None)"
| "decode_jobs (d # ds) =
     (case unmarshal_job d of
        (j, Some e) \<Rightarrow> ([j], Some e)
      | (j, None) \<Rightarrow> (case decode_jobs ds of (js, e) \<Rightarrow> (j # js, e)))"

text \<open>\<open>load\<close>: the jobs in memory after it, and whether it reports an error.\<close>

definition load_jobs :: "cron_state \<Rightarrow> cron_state \<times> bool" where
  "load_jobs s =
     (case cv_file s of
        CronAbsent \<Rightarrow> (s, False)
      | CronUnreadable \<Rightarrow> (s, True)
      | CronBad js \<Rightarrow> (s\<lparr>cv_jobs := js\<rparr>, True)
      | CronFile ds \<Rightarrow> (case decode_jobs ds of (js, e) \<Rightarrow> (s\<lparr>cv_jobs := js\<rparr>, e \<noteq> None)))"

subsection \<open>Scheduling\<close>

definition compute_next_run :: "gronx \<Rightarrow> schedule \<Rightarrow> int \<Rightarrow> cron_error + int" where
  "compute_next_run gx sch fromMs =
     (case sched_next gx sch (unix_milli fromMs) of
        Inl e \<Rightarrow> Inl e
      | Inr next' \<Rightarrow> Inr (if is_zero_time next' then 0 else to_milli next'))"

definition set_next :: "int \<Rightarrow> cron_job \<Rightarrow> cron_job" where
  "set_next n j = j\<lparr>cj_state := (cj_state j)\<lparr>js_next_run := n\<rparr>\<rparr>"

definition next_of :: "cron_job \<Rightarrow> int" where "next_of j = js_next_run (cj_state j)"
definition last_of :: "cron_job \<Rightarrow> int" where "last_of j = js_last_run (cj_state j)"

definition from_ms :: "int \<Rightarrow> cron_job \<Rightarrow> int" where
  "from_ms now j = (if last_of j = 0 then now else last_of j)"

definition ensure_next_run :: "gronx \<Rightarrow> int \<Rightarrow> cron_job \<Rightarrow> cron_job" where
  "ensure_next_run gx now j =
     (if \<not> cj_enabled j \<or> next_of j > 0 then j
      else case compute_next_run gx (cj_schedule j) (from_ms now j) of
          Inl _ \<Rightarrow> j
        | Inr n \<Rightarrow> set_next n j)"

text \<open>\<open>nextDelayLocked\<close>: the loop keeps the least remaining time, \<open>-1\<close> when there is none.\<close>

fun min_remaining :: "int \<Rightarrow> int \<Rightarrow> cron_job list \<Rightarrow> int" where
  "min_remaining now m [] = m"
| "min_remaining now m (j # js) =
     (if \<not> cj_enabled j \<or> next_of j \<le> 0 then min_remaining now m js
      else
        let rem0 = wrap64 (next_of j - now); rem' = (if rem0 < 0 then 0 else rem0) in
        if m < 0 \<or> rem' < m then min_remaining now rem' js else min_remaining now m js)"

definition next_delay :: "int \<Rightarrow> cron_job list \<Rightarrow> duration" where
  "next_delay now js =
     (let m = min_remaining now (-1) js in
      if m < 0 then hour
      else if m = 0 then millisecond
      else wrap64 (m * millisecond))"

definition is_due :: "int \<Rightarrow> cron_job \<Rightarrow> bool" where
  "is_due now j \<longleftrightarrow> cj_enabled j \<and> next_of j > 0 \<and> now \<ge> next_of j"

text \<open>The loop of \<open>checkAndFire\<close>: the snapshot that is fired is taken after an at-job has been disabled
  and before its next run is cleared.\<close>

definition fire_snapshot :: "cron_job \<Rightarrow> cron_job" where
  "fire_snapshot j = (if is_at (cj_schedule j) then j\<lparr>cj_enabled := False\<rparr> else j)"

fun take_due :: "int \<Rightarrow> cron_job list \<Rightarrow> cron_job list \<times> cron_job list" where
  "take_due now [] = ([], [])"
| "take_due now (j # js) =
     (case take_due now js of (js', due) \<Rightarrow>
        if is_due now j then (set_next 0 (fire_snapshot j) # js', fire_snapshot j # due)
        else (j # js', due))"

definition check_and_fire :: "int \<Rightarrow> atomic_io \<Rightarrow> cron_state \<Rightarrow> cron_state" where
  "check_and_fire now io s =
     (case take_due now (cv_jobs s) of (js, due) \<Rightarrow>
        (save_logged io (s\<lparr>cv_jobs := js\<rparr>))\<lparr>cv_waiting := cv_waiting s @ due\<rparr>)"

definition update_job :: "nat \<Rightarrow> (cron_job \<Rightarrow> cron_job) \<Rightarrow> cron_job list \<Rightarrow> cron_job list" where
  "update_job i f js = js[i := f (js ! i)]"

definition set_failure :: "gronx \<Rightarrow> int \<Rightarrow> string \<Rightarrow> cron_job \<Rightarrow> cron_job" where
  "set_failure gx now msg j =
     (let j1 = j\<lparr>cj_state := (cj_state j)\<lparr>js_last_status := StatusError, js_last_error := msg\<rparr>\<rparr> in
      case compute_next_run gx (cj_schedule j) now of Inl _ \<Rightarrow> j1 | Inr n \<Rightarrow> set_next n j1)"

definition apply_validation_failure :: "gronx \<Rightarrow> string \<Rightarrow> int \<Rightarrow> string \<Rightarrow> cron_job list \<Rightarrow> cron_job list" where
  "apply_validation_failure gx i now msg js =
     (case find_index (\<lambda>j. cj_id j = i) js of
        None \<Rightarrow> js
      | Some idx \<Rightarrow> update_job idx (set_failure gx now msg) js)"

text \<open>\<open>fire\<close>, first half. A goroutine whose payload is invalid records the failure; a valid one acquires
  the lane, or gives up when the context ends first.\<close>

definition fire_invalid :: "gronx \<Rightarrow> nat \<Rightarrow> int \<Rightarrow> string \<Rightarrow> atomic_io \<Rightarrow> cron_state \<Rightarrow> cron_state option" where
  "fire_invalid gx k now msg io s =
     (if k < length (cv_waiting s) \<and> payload_validate (cj_payload (cv_waiting s ! k)) \<noteq> None
      then Some (save_logged io (s\<lparr>cv_waiting := remove_nth k (cv_waiting s),
             cv_jobs := apply_validation_failure gx (cj_id (cv_waiting s ! k)) now msg (cv_jobs s)\<rparr>))
      else None)"

definition fire_acquire :: "nat \<Rightarrow> string \<Rightarrow> cron_state \<Rightarrow> cron_state option" where
  "fire_acquire k uuid s =
     (if k < length (cv_waiting s) \<and> payload_validate (cj_payload (cv_waiting s ! k)) = None
         \<and> length (cv_active s) < cv_cap s
      then
        let job = cv_waiting s ! k;
            sessionID = sid_string (new_sid KindCron (cj_id job) uuid 0 id) in
        Some (s\<lparr>cv_waiting := remove_nth k (cv_waiting s), cv_active := cv_active s @ [(job, sessionID)],
                cv_runs := cv_runs s @ [(cj_id job, pl_message (cj_payload job), sessionID)]\<rparr>)
      else None)"

definition fire_cancel :: "nat \<Rightarrow> cron_state \<Rightarrow> cron_state option" where
  "fire_cancel k s =
     (if k < length (cv_waiting s) \<and> payload_validate (cj_payload (cv_waiting s ! k)) = None
      then Some (s\<lparr>cv_waiting := remove_nth k (cv_waiting s)\<rparr>) else None)"

text \<open>What a job becomes when its run has ended at \<open>doneMs\<close>; \<open>err\<close> is the text of the run's error.\<close>

definition run_recorded :: "gronx \<Rightarrow> int \<Rightarrow> string option \<Rightarrow> cron_job \<Rightarrow> cron_job" where
  "run_recorded gx doneMs err j =
     (let st = (cj_state j)\<lparr>js_last_run := doneMs,
                 js_last_status := (case err of None \<Rightarrow> StatusOk | Some _ \<Rightarrow> StatusError),
                 js_last_error := (case err of None \<Rightarrow> [] | Some e \<Rightarrow> e)\<rparr>;
          j1 = j\<lparr>cj_state := st\<rparr> in
      if is_at (cj_schedule j) then set_next 0 (j1\<lparr>cj_enabled := False\<rparr>)
      else if cj_delete_after_run j then j1
      else case compute_next_run gx (cj_schedule j) doneMs of Inl _ \<Rightarrow> j1 | Inr n \<Rightarrow> set_next n j1)"

text \<open>\<open>AfterSuccessfulRun\<close>: the publication it attempts. \<open>reactive\<close> is \<open>None\<close> without a channel lookup,
  \<open>Some f\<close> where \<open>f ch\<close> tells whether the channel exists and is reactive-only.\<close>

definition after_successful_run ::
  "bool \<Rightarrow> (string \<Rightarrow> bool) option \<Rightarrow> cron_job \<Rightarrow> string \<Rightarrow> (string \<times> string \<times> string) list" where
  "after_successful_run hasPub reactive job output =
     (let p = cj_payload job in
      if \<not> hasPub then []
      else if \<not> pl_deliver p then []
      else if (case reactive of None \<Rightarrow> False | Some f \<Rightarrow> f (pl_channel p)) then []
      else [(pl_channel p, pl_to p, output)])"

text \<open>\<open>fire\<close>, second half: the run \<open>k\<close> has returned an error or an output.\<close>

definition fire_done ::
  "gronx \<Rightarrow> bool \<Rightarrow> (string \<Rightarrow> bool) option \<Rightarrow> nat \<Rightarrow> int \<Rightarrow> string + string \<Rightarrow> atomic_io
    \<Rightarrow> cron_state \<Rightarrow> cron_state option" where
  "fire_done gx hasPub reactive k doneMs res io s =
     (if k \<ge> length (cv_active s) then None
      else
        let job = fst (cv_active s ! k);
            s1 = s\<lparr>cv_active := remove_nth k (cv_active s)\<rparr> in
        case find_job_index (cj_id job) s1 of
          None \<Rightarrow> Some (save_logged io s1)
        | Some idx \<Rightarrow>
            (let err = (case res of Inl e \<Rightarrow> Some e | Inr _ \<Rightarrow> None);
                 js1 = update_job idx (run_recorded gx doneMs err) (cv_jobs s1);
                 js2 = (if cj_delete_after_run (cv_jobs s1 ! idx) then remove_nth idx js1 else js1);
                 s2 = save_logged io (s1\<lparr>cv_jobs := js2\<rparr>) in
             Some (case res of
                 Inl _ \<Rightarrow> s2
               | Inr out \<Rightarrow> s2\<lparr>cv_deliveries := cv_deliveries s2 @ after_successful_run hasPub reactive job out\<rparr>)))"

subsection \<open>The callers\<close>

text \<open>\<open>Start\<close>; \<open>None\<close> is the panic of an enabled job without a schedule and without a next run.\<close>

definition start_service :: "gronx \<Rightarrow> int \<Rightarrow> atomic_io \<Rightarrow> cron_state \<Rightarrow> cron_state option" where
  "start_service gx now io s0 =
     (let s = fst (load_jobs s0) in
      if (\<exists>j \<in> set (cv_jobs s). cj_enabled j \<and> next_of j \<le> 0 \<and> cj_schedule j = NilSched) then None
      else Some (save_logged io (s\<lparr>cv_jobs := map (ensure_next_run gx now) (cv_jobs s)\<rparr>)))"

definition stop_service :: "cron_state \<Rightarrow> cron_state option" where
  "stop_service s = (if cv_waiting s = [] \<and> cv_active s = [] then Some (s\<lparr>cv_stopped := True\<rparr>) else None)"

definition add_job ::
  "gronx \<Rightarrow> string \<Rightarrow> int \<Rightarrow> atomic_io \<Rightarrow> string \<Rightarrow> schedule \<Rightarrow> payload \<Rightarrow> cron_state
    \<Rightarrow> cron_state \<times> (cron_error + cron_job)" where
  "add_job gx uuid now io name sch p s =
     (case sched_validate gx sch of
        Some e \<Rightarrow> (s, Inl e)
      | None \<Rightarrow>
          (let job = new_cron_job uuid name sch p in
           case compute_next_run gx sch (from_ms now job) of
             Inl e \<Rightarrow> (s, Inl e)
           | Inr n \<Rightarrow>
               (let job' = set_next n job in
                case save_atomic io (s\<lparr>cv_jobs := cv_jobs s @ [job']\<rparr>) of
                  (s', Some e) \<Rightarrow> (s', Inl e)
                | (s', None) \<Rightarrow> (notify s', Inr job'))))"

definition remove_job :: "atomic_io \<Rightarrow> string \<Rightarrow> cron_state \<Rightarrow> cron_state \<times> bool" where
  "remove_job io i s =
     (case find_job_index i s of
        None \<Rightarrow> (s, False)
      | Some idx \<Rightarrow> (notify (save_logged io (s\<lparr>cv_jobs := remove_nth idx (cv_jobs s)\<rparr>)), True))"

definition enabled_job :: "gronx \<Rightarrow> int \<Rightarrow> bool \<Rightarrow> cron_job \<Rightarrow> cron_job" where
  "enabled_job gx now on j0 =
     (let j = j0\<lparr>cj_enabled := on\<rparr> in
      if \<not> on then set_next 0 j
      else if next_of j = 0 then
        (case compute_next_run gx (cj_schedule j) (from_ms now j) of Inl _ \<Rightarrow> j | Inr n \<Rightarrow> set_next n j)
      else j)"

definition enable_job ::
  "gronx \<Rightarrow> int \<Rightarrow> atomic_io \<Rightarrow> string \<Rightarrow> bool \<Rightarrow> cron_state \<Rightarrow> cron_state \<times> (cron_error + cron_job)" where
  "enable_job gx now io i on s =
     (case find_job_index i s of
        None \<Rightarrow> (s, Inl (JobNotFound i))
      | Some idx \<Rightarrow>
          (let js = update_job idx (enabled_job gx now on) (cv_jobs s) in
           (notify (save_logged io (s\<lparr>cv_jobs := js\<rparr>)), Inr (js ! idx))))"

subsection \<open>Interleavings\<close>

datatype cron_label = LAdd | LRemove string | LEnable string bool | LTick | LFire | LRun string | LDone string

inductive cron_step :: "gronx \<Rightarrow> cron_state \<Rightarrow> cron_label \<Rightarrow> cron_state \<Rightarrow> bool" for gx where
  adds: "uuid \<notin> cj_id ` set (cv_jobs s) \<Longrightarrow> uuid \<notin> cj_id ` set (cv_waiting s) \<Longrightarrow>
    uuid \<notin> (cj_id \<circ> fst) ` set (cv_active s) \<Longrightarrow>
    cron_step gx s LAdd (fst (add_job gx uuid now io name sch p s))"
| removes: "cron_step gx s (LRemove i) (fst (remove_job io i s))"
| enables: "cron_step gx s (LEnable i on) (fst (enable_job gx now io i on s))"
| ticks: "cron_step gx s LTick (check_and_fire now io s)"
| fails: "fire_invalid gx k now msg io s = Some s' \<Longrightarrow> cron_step gx s LFire s'"
| gives_up: "fire_cancel k s = Some s' \<Longrightarrow> cron_step gx s LFire s'"
| runs: "fire_acquire k uuid s = Some s' \<Longrightarrow> cron_step gx s (LRun (cj_id (cv_waiting s ! k))) s'"
| finishes: "fire_done gx hasPub reactive k doneMs res io s = Some s' \<Longrightarrow>
    cron_step gx s (LDone (cj_id (fst (cv_active s ! k)))) s'"

inductive cron_steps :: "gronx \<Rightarrow> cron_state \<Rightarrow> cron_label list \<Rightarrow> cron_state \<Rightarrow> bool" for gx where
  cron_none: "cron_steps gx s [] s"
| cron_more: "cron_steps gx a ls b \<Longrightarrow> cron_step gx b l c \<Longrightarrow> cron_steps gx a (ls @ [l]) c"

subsection \<open>One tick\<close>

lemma take_due_eq:
  "take_due now js = (map (\<lambda>j. if is_due now j then set_next 0 (fire_snapshot j) else j) js,
     map fire_snapshot (filter (is_due now) js))"
  by (induction js) auto

lemma snapshot_simps [simp]:
  "cj_id (fire_snapshot j) = cj_id j" "cj_schedule (fire_snapshot j) = cj_schedule j"
  "cj_id (set_next n j) = cj_id j" "cj_schedule (set_next n j) = cj_schedule j"
  "cj_enabled (set_next n j) = cj_enabled j" "next_of (set_next n j) = n"
  "cj_payload (fire_snapshot j) = cj_payload j" "cj_payload (set_next n j) = cj_payload j"
  by (simp_all add: fire_snapshot_def set_next_def next_of_def)

lemma not_due_zero: "next_of j \<le> 0 \<Longrightarrow> \<not> is_due t j"
  by (simp add: is_due_def)

lemma save_logged_simps [simp]:
  "cv_jobs (save_logged io s) = cv_jobs s" "cv_waiting (save_logged io s) = cv_waiting s"
  "cv_active (save_logged io s) = cv_active s" "cv_cap (save_logged io s) = cv_cap s"
  "cv_runs (save_logged io s) = cv_runs s" "cv_deliveries (save_logged io s) = cv_deliveries s"
  "cv_wake (save_logged io s) = cv_wake s"
  by (simp_all add: save_logged_def save_atomic_def split: prod.splits)

lemma save_ok: "save_atomic AtomicOk s = (s\<lparr>cv_file := CronFile (map marshal_job (cv_jobs s))\<rparr>, None)"
  by (simp add: save_atomic_def write_atomic_def)

lemma save_fail: "io \<noteq> AtomicOk \<Longrightarrow> save_atomic io s = (s, Some SaveFailed)"
  by (cases io) (simp_all add: save_atomic_def write_atomic_def)

text \<open>C29: a tick fires exactly the jobs that are due, each once and in the order of the list; afterwards no
  fired job is due at any time until something schedules it again, a fired at-job is disabled for
  good, and every other job is untouched.\<close>

theorem tick_fires_due:
  assumes "s' = check_and_fire now io s"
  shows "map cj_id (cv_waiting s') = map cj_id (cv_waiting s) @ map cj_id (filter (is_due now) (cv_jobs s))
    \<and> map cj_id (cv_jobs s') = map cj_id (cv_jobs s)
    \<and> (\<forall>i < length (cv_jobs s). if is_due now (cv_jobs s ! i)
         then (\<forall>t. \<not> is_due t (cv_jobs s' ! i)) \<and> (is_at (cj_schedule (cv_jobs s ! i)) \<longrightarrow> \<not> cj_enabled (cv_jobs s' ! i))
         else cv_jobs s' ! i = cv_jobs s ! i)"
proof -
  let ?g = "\<lambda>j. if is_due now j then set_next 0 (fire_snapshot j) else j"
  have j: "cv_jobs s' = map ?g (cv_jobs s)"
    and w: "cv_waiting s' = cv_waiting s @ map fire_snapshot (filter (is_due now) (cv_jobs s))"
    using assms by (simp_all add: check_and_fire_def take_due_eq)
  have "map cj_id (cv_jobs s') = map cj_id (cv_jobs s)" unfolding j by simp
  then show ?thesis using w by (simp add: j comp_def not_due_zero) (simp add: fire_snapshot_def)
qed

definition sample_job :: "string \<Rightarrow> schedule \<Rightarrow> int \<Rightarrow> cron_job" where
  "sample_job i sch n = set_next n (new_cron_job i ''n'' sch
     \<lparr>pl_message = ''m'', pl_deliver = False, pl_channel = [], pl_to = []\<rparr>)"

definition sample_cron :: cron_state where
  "sample_cron = \<lparr>cv_jobs = [sample_job ''a'' (AtSched 5000000) 5, sample_job ''b'' (EverySched 60000000000) 90],
     cv_file = CronAbsent, cv_cap = 1, cv_wake = False, cv_stopped = False, cv_waiting = [], cv_active = [],
     cv_runs = [], cv_deliveries = []\<rparr>"

theorem tick_fires_due_witness:
  "map cj_id (cv_waiting (check_and_fire 7 AtomicOk sample_cron)) = [''a'']"
proof -
  have "map cj_id (filter (is_due 7) (cv_jobs sample_cron)) = [''a'']" "cv_waiting sample_cron = []" by code_simp+
  then show ?thesis using tick_fires_due [OF refl, of 7 AtomicOk sample_cron] by simp
qed

subsection \<open>No overlapping runs\<close>

definition in_flight :: "cron_state \<Rightarrow> string list" where
  "in_flight s = map cj_id (cv_waiting s) @ map (cj_id \<circ> fst) (cv_active s)"

definition flight_inv :: "cron_state \<Rightarrow> bool" where
  "flight_inv s \<longleftrightarrow> distinct (map cj_id (cv_jobs s)) \<and> distinct (in_flight s)
     \<and> (\<forall>j \<in> set (cv_jobs s). cj_id j \<in> set (in_flight s) \<longrightarrow> next_of j \<le> 0)
     \<and> length (cv_active s) \<le> cv_cap s"

lemma mset_remove_nth: "k < length xs \<Longrightarrow> mset xs = add_mset (xs ! k) (mset (remove_nth k xs))"
  by (subst id_take_nth_drop [of k xs]) (auto simp: remove_nth_def)

lemma ids_update_job: "(\<And>j. cj_id (f j) = cj_id j) \<Longrightarrow> i < length js \<Longrightarrow> map cj_id (update_job i f js) = map cj_id js"
  by (auto simp: update_job_def map_update list_update_id intro: nth_equalityI) (metis list_update_id nth_map)

lemma update_job_set: "i < length js \<Longrightarrow> distinct (map cj_id js) \<Longrightarrow> (\<And>j. cj_id (f j) = cj_id j) \<Longrightarrow>
    j \<in> set (update_job i f js) \<Longrightarrow> j \<in> set js \<and> cj_id j \<noteq> cj_id (js ! i) \<or> j = f (js ! i)"
proof -
  assume a: "i < length js" "distinct (map cj_id js)" "\<And>j. cj_id (f j) = cj_id j" "j \<in> set (update_job i f js)"
  obtain n where n: "n < length js" "j = update_job i f js ! n"
    using a(4) by (auto simp: in_set_conv_nth update_job_def)
  show ?thesis
  proof (cases "n = i")
    case True
    with n a(1) show ?thesis by (simp add: update_job_def)
  next
    case False
    then have "cj_id (js ! n) \<noteq> cj_id (js ! i)"
      using a(1,2) n(1) by (metis distinct_conv_nth length_map nth_map)
    with n False show ?thesis by (simp add: update_job_def)
  qed
qed

lemma find_id_Some: "find_index (\<lambda>j. cj_id j = i) js = Some n \<Longrightarrow> n < length js \<and> cj_id (js ! n) = i"
  using find_index_Some by fastforce

lemma set_failure_id [simp]: "cj_id (set_failure gx now msg j) = cj_id j"
  by (simp add: set_failure_def Let_def split: sum.splits)

lemma run_recorded_id [simp]: "cj_id (run_recorded gx d e j) = cj_id j"
  by (simp add: run_recorded_def Let_def split: sum.splits)

lemma enabled_job_id [simp]: "cj_id (enabled_job gx now on j) = cj_id j"
  by (simp add: enabled_job_def Let_def split: sum.splits)

lemma in_flight_remove_waiting:
  assumes "k < length (cv_waiting s)" and "distinct (in_flight s)"
  shows "distinct (in_flight (s\<lparr>cv_waiting := remove_nth k (cv_waiting s)\<rparr>))"
    and "set (in_flight (s\<lparr>cv_waiting := remove_nth k (cv_waiting s)\<rparr>)) = set (in_flight s) - {cj_id (cv_waiting s ! k)}"
proof -
  let ?w = "map cj_id (cv_waiting s)" and ?a = "map (cj_id \<circ> fst) (cv_active s)"
  have k: "k < length ?w" using assms(1) by simp
  have d: "distinct ?w" "distinct ?a" "set ?w \<inter> set ?a = {}" using assms(2) by (simp_all add: in_flight_def)
  have r: "map cj_id (remove_nth k (cv_waiting s)) = remove_nth k ?w" by (simp add: map_remove_nth)
  have "set ?w = insert (?w ! k) (set (remove_nth k ?w))" by (rule remove_nth_split [OF k])
  moreover have "?w ! k \<notin> set (remove_nth k ?w)" by (rule nth_notin_remove_nth [OF d(1) k])
  moreover have "?w ! k \<in> set ?w" using k by (rule nth_mem)
  ultimately have st: "set (remove_nth k ?w) = set ?w - {?w ! k}" "?w ! k \<notin> set ?a" using d(3) by auto
  show "distinct (in_flight (s\<lparr>cv_waiting := remove_nth k (cv_waiting s)\<rparr>))"
    using d st distinct_remove_nth [OF d(1), of k] by (auto simp: in_flight_def r)
  show "set (in_flight (s\<lparr>cv_waiting := remove_nth k (cv_waiting s)\<rparr>)) = set (in_flight s) - {cj_id (cv_waiting s ! k)}"
    using st k by (auto simp: in_flight_def r)
qed

lemma in_flight_remove_active:
  assumes "k < length (cv_active s)" and "distinct (in_flight s)"
  shows "distinct (in_flight (s\<lparr>cv_active := remove_nth k (cv_active s)\<rparr>))"
    and "set (in_flight (s\<lparr>cv_active := remove_nth k (cv_active s)\<rparr>)) = set (in_flight s) - {cj_id (fst (cv_active s ! k))}"
proof -
  let ?w = "map cj_id (cv_waiting s)" and ?a = "map (cj_id \<circ> fst) (cv_active s)"
  have k: "k < length ?a" using assms(1) by simp
  have d: "distinct ?w" "distinct ?a" "set ?w \<inter> set ?a = {}" using assms(2) by (simp_all add: in_flight_def)
  have e: "in_flight (s\<lparr>cv_active := remove_nth k (cv_active s)\<rparr>) = ?w @ remove_nth k ?a"
    by (simp add: in_flight_def map_remove_nth)
  have "set ?a = insert (?a ! k) (set (remove_nth k ?a))" by (rule remove_nth_split [OF k])
  moreover have "?a ! k \<notin> set (remove_nth k ?a)" by (rule nth_notin_remove_nth [OF d(2) k])
  moreover have "?a ! k \<in> set ?a" using k by (rule nth_mem)
  ultimately have st: "set (remove_nth k ?a) = set ?a - {?a ! k}" "?a ! k \<notin> set ?w" using d(3) by auto
  show "distinct (in_flight (s\<lparr>cv_active := remove_nth k (cv_active s)\<rparr>))"
    unfolding e using d st distinct_remove_nth [OF d(2), of k] by auto
  show "set (in_flight (s\<lparr>cv_active := remove_nth k (cv_active s)\<rparr>)) = set (in_flight s) - {cj_id (fst (cv_active s ! k))}"
    unfolding e using st k by (auto simp: in_flight_def)
qed

lemma flight_frame:
  "in_flight t = in_flight s \<Longrightarrow> cv_jobs t = cv_jobs s \<Longrightarrow> cv_active t = cv_active s \<Longrightarrow> cv_cap t = cv_cap s \<Longrightarrow>
   flight_inv t = flight_inv s"
  by (simp add: flight_inv_def)

lemma in_flight_frame [simp]:
  "in_flight (save_logged io s) = in_flight s" "in_flight (notify s) = in_flight s"
  "in_flight (s\<lparr>cv_jobs := js\<rparr>) = in_flight s" "in_flight (s\<lparr>cv_runs := r\<rparr>) = in_flight s"
  "in_flight (s\<lparr>cv_deliveries := d\<rparr>) = in_flight s"
  by (simp_all add: in_flight_def notify_def)

lemma notify_simps [simp]:
  "cv_jobs (notify s) = cv_jobs s" "cv_waiting (notify s) = cv_waiting s" "cv_active (notify s) = cv_active s"
  "cv_cap (notify s) = cv_cap s"
  by (simp_all add: notify_def)

text \<open>Changing one job: the invariant asks only for the ids and for the next run of jobs in flight.\<close>

lemma flight_jobs:
  assumes "flight_inv s" and "map cj_id js = map cj_id (cv_jobs s)"
    and "\<forall>j \<in> set js. cj_id j \<in> set (in_flight t) \<longrightarrow> next_of j \<le> 0"
    and "distinct (in_flight t)" and "length (cv_active t) \<le> cv_cap t" and "cv_jobs t = js"
  shows "flight_inv t"
  using assms by (simp add: flight_inv_def)

lemma add_flight [inv_intros]:
  assumes "flight_inv s" and "uuid \<notin> cj_id ` set (cv_jobs s)" and "uuid \<notin> set (in_flight s)"
  shows "flight_inv (fst (add_job gx uuid now io name sch p s))"
proof -
  have "flight_inv (s\<lparr>cv_jobs := cv_jobs s @ [set_next n (new_cron_job uuid name sch p)]\<rparr>)" for n
    using assms by (auto simp: flight_inv_def new_cron_job_def in_flight_def)
  then show ?thesis using assms(1)
    by (cases io) (auto simp: add_job_def Let_def save_ok save_fail flight_inv_def in_flight_def notify_def
        split: option.splits sum.splits)
qed

lemma remove_flight [inv_intros]: "flight_inv s \<Longrightarrow> flight_inv (fst (remove_job io i s))"
  using set_remove_nth_subset
  by (fastforce simp: remove_job_def flight_inv_def map_remove_nth distinct_remove_nth split: option.splits)

lemma tick_flight [inv_intros]:
  assumes "flight_inv s"
  shows "flight_inv (check_and_fire now io s)"
proof -
  let ?g = "\<lambda>j. if is_due now j then set_next 0 (fire_snapshot j) else j"
  let ?due = "filter (is_due now) (cv_jobs s)"
  have w: "in_flight (check_and_fire now io s) = map cj_id (cv_waiting s) @ map cj_id ?due @ map (cj_id \<circ> fst) (cv_active s)"
    by (simp add: check_and_fire_def take_due_eq in_flight_def comp_def)
  have nd: "cj_id j \<notin> set (in_flight s)" if "j \<in> set ?due" for j
    using assms that by (fastforce simp: flight_inv_def is_due_def)
  have disj: "cj_id ` set ?due \<inter> set (in_flight s) = {}" using nd by blast
  have "distinct (map cj_id ?due)" using assms by (simp add: flight_inv_def distinct_map_filter)
  then have dist: "distinct (in_flight (check_and_fire now io s))"
    unfolding w using assms disj by (simp add: flight_inv_def in_flight_def) blast
  have nx: "next_of j \<le> 0" if j: "j \<in> set (map ?g (cv_jobs s))" "cj_id j \<in> set (in_flight (check_and_fire now io s))" for j
  proof -
    obtain j0 where j0: "j0 \<in> set (cv_jobs s)" "j = ?g j0" using j(1) by auto
    show ?thesis
    proof (cases "is_due now j0")
      case False
      then have i: "cj_id j0 \<in> set (in_flight s) \<or> cj_id j0 \<in> cj_id ` set ?due"
        using j0 j(2) unfolding w by (auto simp: in_flight_def)
      have "cj_id j0 \<notin> cj_id ` set ?due"
      proof
        assume "cj_id j0 \<in> cj_id ` set ?due"
        then obtain d where "d \<in> set (cv_jobs s)" "is_due now d" "cj_id d = cj_id j0" by auto
        then have "d = j0" using assms j0(1) by (auto simp: flight_inv_def distinct_map dest: inj_onD)
        with False \<open>is_due now d\<close> show False by simp
      qed
      with i have "cj_id j0 \<in> set (in_flight s)" by simp
      with assms j0 False show ?thesis by (auto simp: flight_inv_def)
    qed (use j0 in simp)
  qed
  have t: "cv_jobs (check_and_fire now io s) = map ?g (cv_jobs s)" "cv_active (check_and_fire now io s) = cv_active s"
    "cv_cap (check_and_fire now io s) = cv_cap s" "map cj_id (map ?g (cv_jobs s)) = map cj_id (cv_jobs s)"
    by (simp_all add: check_and_fire_def take_due_eq)
  have "distinct (map cj_id (cv_jobs s))" "length (cv_active s) \<le> cv_cap s"
    using assms by (simp_all add: flight_inv_def)
  then show ?thesis unfolding flight_inv_def t using dist nx by blast
qed

lemma disable_flight [inv_intros]: "flight_inv s \<Longrightarrow> flight_inv (fst (enable_job gx now io i False s))"
proof (cases "find_job_index i s")
  case (Some n)
  assume inv: "flight_inv s"
  let ?js = "update_job n (enabled_job gx now False) (cv_jobs s)"
  have n: "n < length (cv_jobs s)" using find_id_Some [of i "cv_jobs s" n] Some by (simp add: find_job_index_def)
  have "next_of j \<le> 0" if "j \<in> set ?js" "cj_id j \<in> set (in_flight s)" for j
    using update_job_set [OF n _ _ that(1)] inv that(2) by (auto simp: flight_inv_def enabled_job_def)
  then have "flight_inv (notify (save_logged io (s\<lparr>cv_jobs := ?js\<rparr>)))"
    using inv ids_update_job [of "enabled_job gx now False" n "cv_jobs s"] n
    by (intro flight_jobs [OF inv, of ?js]) (auto simp: flight_inv_def)
  with Some show ?thesis by (simp add: enable_job_def Let_def)
qed (simp add: enable_job_def)

lemma remove_waiting_flight:
  assumes "flight_inv s" and "k < length (cv_waiting s)"
  shows "flight_inv (s\<lparr>cv_waiting := remove_nth k (cv_waiting s)\<rparr>)"
  using assms in_flight_remove_waiting [OF assms(2)] unfolding flight_inv_def by auto

text \<open>A job that has just left the flight may get a new next run.\<close>

lemma reschedule_flight:
  assumes inv: "flight_inv s" and n: "n < length (cv_jobs s)" and out: "cj_id (cv_jobs s ! n) \<notin> set (in_flight s)"
    and f: "\<And>j. cj_id (f j) = cj_id j"
  shows "flight_inv (s\<lparr>cv_jobs := update_job n f (cv_jobs s)\<rparr>)"
proof (rule flight_jobs [OF inv])
  show "map cj_id (update_job n f (cv_jobs s)) = map cj_id (cv_jobs s)" by (rule ids_update_job [OF f n])
  show "\<forall>j \<in> set (update_job n f (cv_jobs s)). cj_id j \<in> set (in_flight (s\<lparr>cv_jobs := update_job n f (cv_jobs s)\<rparr>)) \<longrightarrow> next_of j \<le> 0"
  proof (intro ballI impI)
    fix j assume j: "j \<in> set (update_job n f (cv_jobs s))"
      "cj_id j \<in> set (in_flight (s\<lparr>cv_jobs := update_job n f (cv_jobs s)\<rparr>))"
    have "distinct (map cj_id (cv_jobs s))" using inv by (simp add: flight_inv_def)
    from update_job_set [OF n this f j(1)] show "next_of j \<le> 0"
      using j(2) inv out f by (auto simp: flight_inv_def)
  qed
qed (use inv in \<open>simp_all add: flight_inv_def\<close>)

lemma saved_flight: "flight_inv (save_logged io s) = flight_inv s"
  by (rule flight_frame) simp_all

lemma invalid_flight [inv_intros]:
  assumes "flight_inv s" and "fire_invalid gx k now msg io s = Some s'"
  shows "flight_inv s'"
proof -
  let ?j = "cv_waiting s ! k"
  let ?s = "s\<lparr>cv_waiting := remove_nth k (cv_waiting s)\<rparr>"
  have k: "k < length (cv_waiting s)"
    and s': "s' = save_logged io (?s\<lparr>cv_jobs := apply_validation_failure gx (cj_id ?j) now msg (cv_jobs s)\<rparr>)"
    using assms(2) by (auto simp: fire_invalid_def split: if_splits)
  have i: "flight_inv ?s" by (rule remove_waiting_flight [OF assms(1) k])
  have "cj_id ?j \<notin> set (in_flight ?s)" using in_flight_remove_waiting(2) [OF k] assms(1) by (simp add: flight_inv_def)
  then have "flight_inv (?s\<lparr>cv_jobs := apply_validation_failure gx (cj_id ?j) now msg (cv_jobs s)\<rparr>)"
    using i reschedule_flight [OF i, of _ "set_failure gx now msg"] find_id_Some [of "cj_id ?j" "cv_jobs s"]
    by (cases "find_index (\<lambda>j. cj_id j = cj_id ?j) (cv_jobs s)") (auto simp: apply_validation_failure_def)
  then show ?thesis by (simp add: s' saved_flight)
qed

lemma cancel_flight [inv_intros]: "flight_inv s \<Longrightarrow> fire_cancel k s = Some s' \<Longrightarrow> flight_inv s'"
  by (auto simp: fire_cancel_def remove_waiting_flight split: if_splits)

lemma acquire_in_flight:
  assumes "flight_inv s" and "fire_acquire k uuid s = Some s'"
  shows "flight_inv s'" and "set (map (cj_id \<circ> fst) (cv_active s')) = insert (cj_id (cv_waiting s ! k)) (set (map (cj_id \<circ> fst) (cv_active s)))"
    and "cj_id (cv_waiting s ! k) \<notin> set (map (cj_id \<circ> fst) (cv_active s))"
proof -
  let ?j = "cv_waiting s ! k"
  let ?s = "s\<lparr>cv_waiting := remove_nth k (cv_waiting s)\<rparr>"
  have k: "k < length (cv_waiting s)" "length (cv_active s) < cv_cap s"
    and s': "cv_waiting s' = remove_nth k (cv_waiting s)" "cv_jobs s' = cv_jobs s" "cv_cap s' = cv_cap s"
      "map (cj_id \<circ> fst) (cv_active s') = map (cj_id \<circ> fst) (cv_active s) @ [cj_id ?j]"
      "length (cv_active s') = length (cv_active s) + 1"
    using assms(2) by (auto simp: fire_acquire_def Let_def split: if_splits)
  have d: "distinct (in_flight s)" using assms(1) by (simp add: flight_inv_def)
  note r = in_flight_remove_waiting [OF k(1) d]
  have in': "cj_id ?j \<in> set (in_flight s)" using k(1) by (simp add: in_flight_def)
  have fl: "in_flight s' = in_flight ?s @ [cj_id ?j]" by (simp add: in_flight_def s')
  then have "distinct (in_flight s')" "set (in_flight s') = set (in_flight s)" using r in' by auto
  then show "flight_inv s'" using assms(1) k(2) s' by (simp add: flight_inv_def)
  show "set (map (cj_id \<circ> fst) (cv_active s')) = insert (cj_id ?j) (set (map (cj_id \<circ> fst) (cv_active s)))"
    unfolding s' by simp
  have "set (map (cj_id \<circ> fst) (cv_active s)) \<subseteq> set (in_flight ?s)" by (auto simp: in_flight_def)
  then show "cj_id ?j \<notin> set (map (cj_id \<circ> fst) (cv_active s))" using r(2) by blast
qed

lemma done_in_flight:
  assumes "flight_inv s" and "fire_done gx hp re k d res io s = Some s'"
  shows "flight_inv s'" and "cv_active s' = remove_nth k (cv_active s)" and "k < length (cv_active s)"
proof -
  let ?j = "fst (cv_active s ! k)"
  let ?s = "s\<lparr>cv_active := remove_nth k (cv_active s)\<rparr>"
  show k: "k < length (cv_active s)" using assms(2) by (auto simp: fire_done_def split: if_splits)
  have dist: "distinct (in_flight s)" using assms(1) by (simp add: flight_inv_def)
  note r = in_flight_remove_active [OF k dist]
  have i: "flight_inv ?s"
    using assms(1) r k unfolding flight_inv_def by (auto simp: length_remove_nth)
  have out: "cj_id ?j \<notin> set (in_flight ?s)" using r(2) by simp
  have "\<exists>js del. s' = (save_logged io (?s\<lparr>cv_jobs := js\<rparr>))\<lparr>cv_deliveries := del\<rparr> \<and> flight_inv (?s\<lparr>cv_jobs := js\<rparr>)"
  proof (cases "find_job_index (cj_id ?j) ?s")
    case None
    with assms(2) k have "s' = save_logged io ?s" by (simp add: fire_done_def Let_def)
    then show ?thesis using i by (intro exI [of _ "cv_jobs s"] exI [of _ "cv_deliveries s'"]) simp
  next
    case (Some n)
    then have n: "n < length (cv_jobs s)" "cj_id (cv_jobs s ! n) = cj_id ?j"
      using find_id_Some [of "cj_id ?j" "cv_jobs s" n] by (simp_all add: find_job_index_def)
    let ?err = "case res of Inl e \<Rightarrow> Some e | Inr _ \<Rightarrow> None"
    let ?js1 = "update_job n (run_recorded gx d ?err) (cv_jobs s)"
    let ?js2 = "if cj_delete_after_run (cv_jobs s ! n) then remove_nth n ?js1 else ?js1"
    have "flight_inv (?s\<lparr>cv_jobs := ?js1\<rparr>)"
      using reschedule_flight [OF i, of n "run_recorded gx d ?err"] n out by simp
    then have "flight_inv (?s\<lparr>cv_jobs := ?js2\<rparr>)"
      using set_remove_nth_subset [of n ?js1]
      by (auto simp: flight_inv_def map_remove_nth distinct_remove_nth)
    moreover have "\<exists>del. s' = (save_logged io (?s\<lparr>cv_jobs := ?js2\<rparr>))\<lparr>cv_deliveries := del\<rparr>"
      using assms(2) k Some
      by (cases res) (auto simp: fire_done_def Let_def intro: exI [of _ "cv_deliveries s'"])
    ultimately show ?thesis by blast
  qed
  then obtain js del where s': "s' = (save_logged io (?s\<lparr>cv_jobs := js\<rparr>))\<lparr>cv_deliveries := del\<rparr>"
    and f: "flight_inv (?s\<lparr>cv_jobs := js\<rparr>)" by blast
  have "flight_inv s' = flight_inv (?s\<lparr>cv_jobs := js\<rparr>)" by (rule flight_frame) (simp_all add: s' in_flight_def)
  with f show "flight_inv s'" by simp
  show "cv_active s' = remove_nth k (cv_active s)" by (simp add: s')
qed

lemma other_steps_active:
  "cv_active (fst (add_job gx uuid now io name sch p s)) = cv_active s"
  "cv_cap (fst (add_job gx uuid now io name sch p s)) = cv_cap s"
  "cv_active (fst (remove_job io i s)) = cv_active s" "cv_cap (fst (remove_job io i s)) = cv_cap s"
  "cv_active (fst (enable_job gx now io i on s)) = cv_active s" "cv_cap (fst (enable_job gx now io i on s)) = cv_cap s"
  "cv_active (check_and_fire now io s) = cv_active s" "cv_cap (check_and_fire now io s) = cv_cap s"
  by (cases io; simp add: add_job_def Let_def save_ok save_fail split: option.split sum.split;
      simp add: remove_job_def enable_job_def Let_def check_and_fire_def take_due_eq split: option.split)+

lemma fire_steps_active:
  "fire_invalid gx k now msg io s = Some s' \<Longrightarrow> cv_active s' = cv_active s \<and> cv_cap s' = cv_cap s"
  "fire_cancel k s = Some s' \<Longrightarrow> cv_active s' = cv_active s \<and> cv_cap s' = cv_cap s"
  by (auto simp: fire_invalid_def fire_cancel_def split: if_splits)

lemma fire_caps:
  "fire_acquire k uuid s = Some s' \<Longrightarrow> cv_cap s' = cv_cap s"
  "fire_done gx hp re k d res io s = Some s' \<Longrightarrow> cv_cap s' = cv_cap s"
  by (auto simp: fire_acquire_def fire_done_def Let_def split: if_splits option.splits sum.splits)

definition running_ids :: "cron_state \<Rightarrow> string set" where
  "running_ids s = set (map (cj_id \<circ> fst) (cv_active s))"

definition label_effect :: "cron_label \<Rightarrow> string set \<Rightarrow> string set \<Rightarrow> bool" where
  "label_effect l a b = (case l of
       LRun i \<Rightarrow> i \<notin> a \<and> b = insert i a
     | LDone i \<Rightarrow> i \<in> a \<and> b = a - {i}
     | _ \<Rightarrow> b = a)"

lemma cron_step_flight:
  assumes "cron_step gx s l s'" and "flight_inv s" and "\<forall>i. l \<noteq> LEnable i True"
  shows "flight_inv s' \<and> cv_cap s' = cv_cap s \<and> label_effect l (running_ids s) (running_ids s')"
  using assms
proof (induction rule: cron_step.induct)
  case (adds uuid s now io name sch p)
  then have "uuid \<notin> set (in_flight s)" by (auto simp: in_flight_def)
  with adds show ?case using add_flight by (simp add: other_steps_active running_ids_def label_effect_def)
next
  case (enables s i on now io)
  then have "on = False" by (cases on) auto
  with enables show ?case using disable_flight by (simp add: other_steps_active running_ids_def label_effect_def)
next
  case (runs k uuid s s')
  then show ?case using acquire_in_flight [OF runs(2,1)] fire_caps(1) by (simp add: running_ids_def label_effect_def)
next
  case (finishes hp re k d res io s s')
  note d = done_in_flight [OF finishes(2,1)]
  let ?a = "map (cj_id \<circ> fst) (cv_active s)"
  have k: "k < length ?a" using d(3) by simp
  have "distinct ?a" using finishes(2) by (simp add: flight_inv_def in_flight_def)
  then have "?a ! k \<notin> set (remove_nth k ?a)" by (rule nth_notin_remove_nth [OF _ k])
  moreover have "set ?a = insert (?a ! k) (set (remove_nth k ?a))" by (rule remove_nth_split [OF k])
  ultimately have "?a ! k \<in> set ?a \<and> set (remove_nth k ?a) = set ?a - {?a ! k}" by auto
  then show ?case using d k fire_caps(2) [OF finishes(1)]
    by (simp add: running_ids_def label_effect_def map_remove_nth)
next
  case (removes s i io)
  then show ?case by (simp add: remove_flight other_steps_active running_ids_def label_effect_def)
next
  case (ticks s now io)
  then show ?case by (simp add: tick_flight other_steps_active running_ids_def label_effect_def)
next
  case (fails k now msg io s s')
  from invalid_flight [OF fails(2,1)] fire_steps_active(1) [OF fails(1)] show ?case
    by (simp add: running_ids_def label_effect_def)
next
  case (gives_up k s s')
  from cancel_flight [OF gives_up(2,1)] fire_steps_active(2) [OF gives_up(1)] show ?case
    by (simp add: running_ids_def label_effect_def)
qed

lemma cron_steps_flight:
  "cron_steps gx s ls s' \<Longrightarrow> flight_inv s \<Longrightarrow> \<forall>i. LEnable i True \<notin> set ls \<Longrightarrow> running_ids s = {} \<Longrightarrow>
   flight_inv s' \<and> cv_cap s' = cv_cap s
   \<and> (\<forall>i. count_list ls (LRun i) = count_list ls (LDone i) + (if i \<in> running_ids s' then 1 else 0))"
proof (induction rule: cron_steps.induct)
  case (cron_more a ls b l c)
  then have ih: "flight_inv b" "cv_cap b = cv_cap a"
    "\<And>i. count_list ls (LRun i) = count_list ls (LDone i) + (if i \<in> running_ids b then 1 else 0)" by auto
  have "\<forall>i. l \<noteq> LEnable i True" using cron_more by auto
  from cron_step_flight [OF cron_more(2) ih(1) this] ih show ?case
    by (cases l) (auto simp: label_effect_def)
qed simp

text \<open>C15: runs of one job never overlap: starting from an idle scheduler with distinct job ids, whatever
  the order of ticks, additions, removals, disablings, failures, cancellations, starts and ends of
  runs, as long as no job is switched on meanwhile, at most \<open>maxConcurrent\<close> runs are active at once,
  and the starts of a job exceed its ends by one exactly while its run is active, else by none.\<close>

theorem no_overlapping_runs:
  assumes "cron_steps gx s ls s'" and "cv_waiting s = []" and "cv_active s = []"
    and "distinct (map cj_id (cv_jobs s))" and "\<forall>i. LEnable i True \<notin> set ls"
  shows "length (cv_active s') \<le> cv_cap s
    \<and> (\<forall>i. count_list ls (LRun i) = count_list ls (LDone i) + (if i \<in> cj_id ` fst ` set (cv_active s') then 1 else 0))"
proof -
  have "flight_inv s" using assms by (simp add: flight_inv_def in_flight_def)
  then have "flight_inv s'" "cv_cap s' = cv_cap s"
    "\<forall>i. count_list ls (LRun i) = count_list ls (LDone i) + (if i \<in> running_ids s' then 1 else 0)"
    using cron_steps_flight [OF assms(1) _ assms(5)] assms(3) by (simp_all add: running_ids_def)
  then show ?thesis by (simp add: flight_inv_def running_ids_def image_comp)
qed

definition cron_ticked :: cron_state where "cron_ticked = check_and_fire 7 AtomicOk sample_cron"
definition cron_running :: cron_state where "cron_running = the (fire_acquire 0 ''u'' cron_ticked)"

lemma cron_running_steps: "cron_steps gx sample_cron [LTick, LRun ''a''] cron_running"
proof -
  have "cj_id (cv_waiting cron_ticked ! 0) = ''a'' \<and> fire_acquire 0 ''u'' cron_ticked \<noteq> None" by code_simp
  then have r: "fire_acquire 0 ''u'' cron_ticked = Some cron_running" "cj_id (cv_waiting cron_ticked ! 0) = ''a''"
    by (auto simp: cron_running_def)
  have "cron_step gx cron_ticked (LRun ''a'') cron_running" using cron_step.runs [OF r(1)] r(2) by simp
  moreover have "cron_step gx sample_cron LTick cron_ticked" unfolding cron_ticked_def by (rule cron_step.ticks)
  ultimately show ?thesis using cron_steps.cron_none cron_steps.cron_more
    by (metis append_Cons append_Nil)
qed

theorem no_overlapping_runs_witness:
  "length (cv_active cron_running) \<le> 1 \<and> map (cj_id \<circ> fst) (cv_active cron_running) = [''a'']"
proof -
  have "cv_waiting sample_cron = [] \<and> cv_active sample_cron = [] \<and> distinct (map cj_id (cv_jobs sample_cron))
    \<and> cv_cap sample_cron = 1 \<and> map (cj_id \<circ> fst) (cv_active cron_running) = [''a'']" by code_simp
  then show ?thesis using no_overlapping_runs [OF cron_running_steps] by simp
qed

end
