(* ===== verification/CronRuns.thy ===== *)
theory CronRuns
  imports CronService
begin

text \<open>
  What the scheduler of \<open>CronService\<close> promises around one run: the delivery of its output through the
  bus, when the timer wakes up next, and what survives a restart.
\<close>

subsection \<open>What a finished run does\<close>

lemma remove_nth_nth_below: "i < n \<Longrightarrow> n < length xs \<Longrightarrow> remove_nth n xs ! i = xs ! i"
  by (simp add: remove_nth_def nth_append)

lemma fire_done_found:
  assumes "fire_done gx hp re k d res io s = Some s'" and "find_job_index (cj_id (fst (cv_active s ! k))) s = Some n"
  shows "cv_deliveries s' = cv_deliveries s @
      (case res of Inl _ \<Rightarrow> [] | Inr out \<Rightarrow> after_successful_run hp re (fst (cv_active s ! k)) out)"
    and "cv_jobs s' = (let js = update_job n (run_recorded gx d (case res of Inl e \<Rightarrow> Some e | Inr _ \<Rightarrow> None)) (cv_jobs s)
      in if cj_delete_after_run (cv_jobs s ! n) then remove_nth n js else js)"
proof -
  have "find_job_index (cj_id (fst (cv_active s ! k))) (s\<lparr>cv_active := remove_nth k (cv_active s)\<rparr>) = Some n"
    using assms(2) by (simp add: find_job_index_def)
  then show "cv_deliveries s' = cv_deliveries s @
      (case res of Inl _ \<Rightarrow> [] | Inr out \<Rightarrow> after_successful_run hp re (fst (cv_active s ! k)) out)"
    and "cv_jobs s' = (let js = update_job n (run_recorded gx d (case res of Inl e \<Rightarrow> Some e | Inr _ \<Rightarrow> None)) (cv_jobs s)
      in if cj_delete_after_run (cv_jobs s ! n) then remove_nth n js else js)"
    using assms(1) by (auto simp: fire_done_def Let_def split: if_splits sum.splits)
qed

lemma fire_done_gone:
  assumes "fire_done gx hp re k d res io s = Some s'" and "find_job_index (cj_id (fst (cv_active s ! k))) s = None"
  shows "cv_deliveries s' = cv_deliveries s \<and> cv_jobs s' = cv_jobs s"
proof -
  have "find_job_index (cj_id (fst (cv_active s ! k))) (s\<lparr>cv_active := remove_nth k (cv_active s)\<rparr>) = None"
    using assms(2) by (simp add: find_job_index_def)
  then show ?thesis using assms(1) by (auto simp: fire_done_def Let_def split: if_splits)
qed

definition delivers_to :: "bool \<Rightarrow> (string \<Rightarrow> bool) option \<Rightarrow> payload \<Rightarrow> bool" where
  "delivers_to hasPub reactive p \<longleftrightarrow> hasPub \<and> pl_deliver p \<and>
     (case reactive of None \<Rightarrow> True | Some f \<Rightarrow> \<not> f (pl_channel p))"

lemma after_successful_run_eq:
  "after_successful_run hp re job out =
    (if delivers_to hp re (cj_payload job) then [(pl_channel (cj_payload job), pl_to (cj_payload job), out)] else [])"
  by (simp add: after_successful_run_def delivers_to_def Let_def split: option.split)

lemma valid_recipient:
  "payload_validate p = None \<Longrightarrow> pl_deliver p \<Longrightarrow> trim_space (pl_channel p) \<noteq> [] \<and> trim_space (pl_to p) \<noteq> []"
  by (simp add: payload_validate_def Let_def split: if_splits)

text \<open>The output of a run reaches the bus exactly when the run succeeded, its job still exists, asks for
  delivery and its channel takes unsolicited messages; then it is one publication to the payload's
  channel and recipient, whose channel is never blank, and the bus gains that one message or, when it
  refuses, none.\<close>

theorem run_output_delivered:
  assumes "fire_done gx hp re k d res io s = Some s'" and "job = fst (cv_active s ! k)"
    and "payload_validate (cj_payload job) = None"
  shows "\<exists>ds. cv_deliveries s' = cv_deliveries s @ ds
    \<and> ((\<exists>out. res = Inr out) \<and> cj_id job \<in> cj_id ` set (cv_jobs s) \<and> delivers_to hp re (cj_payload job)
        \<longleftrightarrow> length ds = 1)
    \<and> length ds \<le> 1
    \<and> (\<forall>(ch, to', out) \<in> set ds. res = Inr out \<and> ch = pl_channel (cj_payload job) \<and> to' = pl_to (cj_payload job)
        \<and> trim_space ch \<noteq> [] \<and> trim_space to' \<noteq> []
        \<and> (\<forall>bus e. bus_good bus e \<longrightarrow> sent_texts (fst (bus_publish bus e ch to' out)) = sent_texts bus
            @ (if snd (bus_publish bus e ch to' out) = PublishOk then [(trim_space ch, trim_space to', out)] else [])))"
proof (cases "find_job_index (cj_id job) s")
  case None
  then have "cj_id job \<notin> cj_id ` set (cv_jobs s)" by (auto simp: find_job_index_def find_index_None)
  with fire_done_gone [OF assms(1)] None assms(2) show ?thesis by (intro exI [of _ "[]"]) simp
next
  case (Some n)
  then have i: "cj_id job \<in> cj_id ` set (cv_jobs s)"
    using find_id_Some [of "cj_id job" "cv_jobs s" n] by (metis find_job_index_def imageI nth_mem)
  have d: "cv_deliveries s' = cv_deliveries s @ (case res of Inl _ \<Rightarrow> [] | Inr out \<Rightarrow> after_successful_run hp re job out)"
    using fire_done_found(1) [OF assms(1) Some [unfolded assms(2)]] unfolding assms(2) .
  show ?thesis
  proof (cases "(\<exists>out. res = Inr out) \<and> delivers_to hp re (cj_payload job)")
    case True
    then obtain out where r: "res = Inr out" by blast
    have v: "trim_space (pl_channel (cj_payload job)) \<noteq> []" "trim_space (pl_to (cj_payload job)) \<noteq> []"
      using valid_recipient [OF assms(3)] True by (simp_all add: delivers_to_def)
    show ?thesis using d True i v
      by (intro exI [of _ "[(pl_channel (cj_payload job), pl_to (cj_payload job), out)]"])
        (simp add: r after_successful_run_eq buspub.publish_sent)
  next
    case False
    with d i show ?thesis by (intro exI [of _ "[]"]) (cases res; simp add: after_successful_run_eq)
  qed
qed

definition mailed_cron :: cron_state where
  "mailed_cron = (let j = (sample_job ''a'' (EverySched 60000000000) 0)\<lparr>cj_payload :=
       \<lparr>pl_message = ''m'', pl_deliver = True, pl_channel = ''web'', pl_to = ''1''\<rparr>\<rparr> in
     sample_cron\<lparr>cv_jobs := [j], cv_active := [(j, ''s'')]\<rparr>)"

definition plain_gronx :: gronx where "plain_gronx = \<lparr>gx_next = (\<lambda>_ _. None), gx_valid = (\<lambda>_. True)\<rparr>"

theorem run_output_delivered_witness:
  "cv_deliveries (the (fire_done plain_gronx True None 0 9 (Inr ''out'') AtomicOk mailed_cron)) = [(''web'', ''1'', ''out'')]"
proof -
  let ?gx = plain_gronx
  have p: "payload_validate (cj_payload (fst (cv_active mailed_cron ! 0))) = None \<and>
      cj_id (fst (cv_active mailed_cron ! 0)) \<in> cj_id ` set (cv_jobs mailed_cron) \<and>
      cj_payload (fst (cv_active mailed_cron ! 0)) = \<lparr>pl_message = ''m'', pl_deliver = True, pl_channel = ''web'', pl_to = ''1''\<rparr> \<and>
      cv_deliveries mailed_cron = [] \<and> length (cv_active mailed_cron) = 1 \<and> find_job_index ''a'' mailed_cron = Some 0"
    by code_simp
  have "fire_done ?gx True None 0 9 (Inr ''out'') AtomicOk mailed_cron \<noteq> None"
    using p by (auto simp: fire_done_def Let_def split: option.split)
  then obtain s' where s': "fire_done ?gx True None 0 9 (Inr ''out'') AtomicOk mailed_cron = Some s'" by blast
  from run_output_delivered [OF s' refl] p obtain ds where
    "cv_deliveries s' = ds" "length ds = 1" "\<forall>(ch, to', out) \<in> set ds. out = ''out'' \<and> ch = ''web'' \<and> to' = ''1''"
    by (fastforce simp: delivers_to_def)
  then show ?thesis using s' by (cases ds) auto
qed

subsection \<open>When the timer wakes up\<close>

definition pending :: "cron_job \<Rightarrow> bool" where "pending j \<longleftrightarrow> cj_enabled j \<and> next_of j > 0"

definition remaining :: "int \<Rightarrow> cron_job \<Rightarrow> int" where "remaining now j = max 0 (next_of j - now)"

definition near :: "int \<Rightarrow> cron_job \<Rightarrow> bool" where
  "near now j \<longleftrightarrow> 0 \<le> now \<and> now \<le> int64_max \<and> next_of j \<le> int64_max \<and> next_of j - now \<le> 9223372036854"

lemma min_remaining_step:
  "near now j \<Longrightarrow> min_remaining now m (j # js) =
     (if pending j \<and> (m < 0 \<or> remaining now j < m) then min_remaining now (remaining now j) js else min_remaining now m js)"
proof -
  assume n: "near now j"
  show ?thesis
  proof (cases "pending j")
    case True
    with n have "in_int64 (next_of j - now)"
      by (simp add: near_def pending_def in_int64_def int64_max_def int64_min_def)
    with True show ?thesis by (simp add: pending_def remaining_def Let_def max_def not_le not_less)
  qed (auto simp: pending_def not_less)
qed

lemma min_remaining_spec:
  assumes "\<forall>j \<in> set js. near now j"
  shows "(min_remaining now m js < 0 \<longleftrightarrow> m < 0 \<and> (\<forall>j \<in> set js. \<not> pending j))
    \<and> (\<forall>j \<in> set js. pending j \<longrightarrow> min_remaining now m js \<le> remaining now j)
    \<and> (0 \<le> m \<longrightarrow> min_remaining now m js \<le> m)
    \<and> (min_remaining now m js = m \<or> (\<exists>j \<in> set js. pending j \<and> min_remaining now m js = remaining now j))"
  using assms
proof (induction js arbitrary: m)
  case (Cons j js)
  have r: "0 \<le> remaining now j" by (simp add: remaining_def)
  have n: "near now j" "\<forall>j \<in> set js. near now j" using Cons.prems by simp_all
  show ?case
  proof (cases "pending j \<and> (m < 0 \<or> remaining now j < m)")
    case True
    from Cons.IH [OF n(2), of "remaining now j"] True r show ?thesis
      by (simp del: min_remaining.simps add: min_remaining_step [OF n(1)]) linarith
  next
    case False
    from Cons.IH [OF n(2), of m] False show ?thesis
      by (simp del: min_remaining.simps add: min_remaining_step [OF n(1)]) linarith
  qed
qed simp

text \<open>The timer neither spins nor oversleeps: for jobs due within the range of a \<open>Duration\<close> the delay
  is positive, it never exceeds the time left to any pending job (rounded up to one millisecond), and
  when it has passed a pending job is due; without pending jobs it is an hour.\<close>

theorem timer_wakes_in_time:
  assumes "\<forall>j \<in> set js. near now j"
  shows "0 < next_delay now js
    \<and> (\<forall>j \<in> set js. pending j \<longrightarrow> next_delay now js \<le> max millisecond (remaining now j * millisecond))
    \<and> (if \<exists>j \<in> set js. pending j
       then \<exists>j \<in> set js. is_due (now + next_delay now js div millisecond) j
       else next_delay now js = hour)"
proof -
  let ?m = "min_remaining now (-1) js"
  note spec = min_remaining_spec [OF assms, of "-1"]
  show ?thesis
  proof (cases "\<exists>j \<in> set js. pending j")
    case False
    with spec show ?thesis by (simp add: next_delay_def Let_def hour_def)
  next
    case True
    with spec obtain j where j: "j \<in> set js" "pending j" "?m = remaining now j" by force
    have m: "0 \<le> ?m" "\<forall>j \<in> set js. pending j \<longrightarrow> ?m \<le> remaining now j" using spec j by (simp_all add: remaining_def)
    have "?m \<le> 9223372036854" using assms j by (auto simp: near_def remaining_def)
    then have "in_int64 (?m * millisecond)" using m(1)
      by (simp add: in_int64_def int64_max_def int64_min_def millisecond_def)
    then have d: "next_delay now js = max millisecond (?m * millisecond)"
      using m(1) by (auto simp: next_delay_def Let_def millisecond_def max_def)
    have "next_of j \<le> now + max millisecond (?m * millisecond) div millisecond"
      using j(3) by (auto simp: remaining_def millisecond_def max_def)
    moreover have "cj_enabled j" "0 < next_of j" using j(2) by (simp_all add: pending_def)
    ultimately have "is_due (now + next_delay now js div millisecond) j" by (simp add: is_due_def d)
    with j(1) True m show ?thesis by (auto simp: d millisecond_def max_def)
  qed
qed

theorem timer_wakes_in_time_witness: "next_delay 7 (cv_jobs sample_cron) = millisecond"
proof -
  have n: "\<forall>j \<in> set (cv_jobs sample_cron). near 7 j" by code_simp
  have p: "sample_job ''a'' (AtSched 5000000) 5 \<in> set (cv_jobs sample_cron)
    \<and> pending (sample_job ''a'' (AtSched 5000000) 5) \<and> remaining 7 (sample_job ''a'' (AtSched 5000000) 5) = 0" by code_simp
  have "next_delay 7 (cv_jobs sample_cron) \<le> millisecond" "0 < next_delay 7 (cv_jobs sample_cron)"
    using timer_wakes_in_time [OF n] p by (force simp: millisecond_def)+
  moreover have "next_delay 7 (cv_jobs sample_cron) \<in> {hour, millisecond}" by code_simp
  ultimately show ?thesis by (auto simp: hour_def millisecond_def)
qed

text \<open>Beyond that range \<open>time.Duration(minRem) * time.Millisecond\<close> overflows: a job 300 years ahead makes the
  delay negative, so the timer fires at once, for ever, and every time rewrites the job file.\<close>

lemma far_job_spins: "next_delay 0 [sample_job ''a'' (EverySched 1) 9467280000000] < 0"
  by code_simp

subsection \<open>Restarts\<close>

lemma decode_marshalled:
  "\<forall>j \<in> set js. whole_millis (cj_schedule j) \<Longrightarrow> decode_jobs (map marshal_job js) = (js, None)"
  by (induction js) (simp_all add: unmarshal_marshal_job)



text \<open>Without the successful load the file is lost: a start that could not read or decode the file writes
  the jobs it has (none, or those decoded before the error) over it; an enabled job of an unknown kind
  without a next run panics instead.\<close>

lemma start_overwrites_unreadable:
  "cv_file s = CronUnreadable \<Longrightarrow> cv_jobs s = [] \<Longrightarrow>
    map_option cv_file (start_service gx now AtomicOk s) = Some (CronFile [])"
  by (simp add: start_service_def Let_def load_jobs_def save_logged_def save_ok)

lemma unknown_kind_panics:
  assumes "cv_file s = CronFile [d]" and "jj_schedule d = None" and "jj_enabled d" and "js_next_run (jj_state d) = 0"
  shows "start_service gx now io s = None"
  using assms by (simp add: start_service_def Let_def load_jobs_def unmarshal_job_def unmarshal_schedule_def job_of_def next_of_def)

text \<open>An \<open>AddJob\<close> whose save fails reports the error, yet the job stays scheduled in memory.\<close>

lemma add_job_save_failure:
  assumes "sched_validate gx sch = None" and "compute_next_run gx sch now = Inr n" and "io \<noteq> AtomicOk"
  shows "add_job gx uuid now io name sch p s =
    (s\<lparr>cv_jobs := cv_jobs s @ [set_next n (new_cron_job uuid name sch p)]\<rparr>, Inl SaveFailed)"
  using assms by (simp add: add_job_def from_ms_def last_of_def new_cron_job_def save_fail)

text \<open>A one-shot time in the past is accepted and never fires.\<close>

lemma past_at_never_fires:
  assumes "to_milli t < now" and "\<not> is_zero_time t"
  shows "\<exists>s' j. add_job gx uuid now AtomicOk name (AtSched t) p s = (s', Inr j) \<and> (\<forall>u. \<not> is_due u j)"
  using assms by (auto simp: add_job_def sched_validate_def compute_next_run_def sched_next_def from_ms_def last_of_def
      new_cron_job_def save_ok is_due_def is_zero_time_def Let_def)

text \<open>Switching a job on while it runs gives it a next run from its previous one: it can be fired again at once.\<close>

lemma enabled_while_running:
  assumes "cj_schedule j = EverySched d" and "0 < d" and "next_of j = 0" and "d mod millisecond = 0"
    and "0 < last_of j" and "last_of j + d div millisecond \<le> t"
  shows "is_due t (enabled_job gx now True j)"
proof -
  have "d = d div 1000000 * 1000000" using assms(4) div_mult_mod_eq [of d 1000000] by (simp add: millisecond_def)
  then have e: "to_milli (unix_milli (last_of j) + d) = last_of j + d div millisecond"
    by (simp add: to_milli_def unix_milli_def millisecond_def)
  have "0 \<le> unix_milli (last_of j) + d" using assms by (simp add: unix_milli_def)
  then have "\<not> is_zero_time (unix_milli (last_of j) + d)" by (simp add: is_zero_time_def time_zero_def)
  moreover have "0 \<le> d div millisecond" using assms(2) by (simp add: millisecond_def pos_imp_zdiv_nonneg_iff)
  ultimately show ?thesis using assms e
    by (simp add: enabled_job_def compute_next_run_def sched_next_def from_ms_def is_due_def next_of_def last_of_def set_next_def)
qed

end
