(* ===== verification/CronCommands.thy ===== *)
theory CronCommands
  imports CronRuns
begin

text \<open>
  \<open>internal/plugins/trigger/cron/\<close>: \<open>input.go\<close>, \<open>add.go\<close>, \<open>slash_commands.go\<close>, \<open>format.go\<close> and \<open>sdk.go\<close>, the ways
  a job is added, listed and removed: by the agent's tools and by slash commands. \<open>fmt\<close>'s \<open>%q\<close>, the
  RFC 3339 format, \<open>fmt.Sprint\<close> of composite values and the float product of \<open>time.ParseDuration\<close> are
  arguments.
\<close>

subsection \<open>\<open>time.ParseDuration\<close> and \<open>Duration.Round\<close>\<close>

definition unit_of :: "string \<Rightarrow> nat option" where
  "unit_of u = map_of [(''ns'', 1), (''us'', 1000), ([CHR 0xC2, CHR 0xB5, CHR ''s''], 1000),
     ([CHR 0xCE, CHR 0xBC, CHR ''s''], 1000), (''ms'', 1000000), (''s'', 1000000000),
     (''m'', 60000000000), (''h'', 3600000000000)] u"

definition two63 :: nat where "two63 = 9223372036854775808"

text \<open>\<open>leadingInt\<close>: \<open>None\<close> when the number overflows.\<close>

fun leading_int :: "nat \<Rightarrow> string \<Rightarrow> (nat \<times> string) option" where
  "leading_int x [] = Some (x, [])"
| "leading_int x (c # s) =
     (if \<not> is_digit c then Some (x, c # s)
      else if x > two63 div 10 then None
      else let y = x * 10 + (byte_of c - 48) in if y > two63 then None else leading_int y s)"

text \<open>\<open>leadingFraction\<close>: the digits it can keep, the scale they have, and the rest.\<close>

fun leading_fraction :: "nat \<Rightarrow> nat \<Rightarrow> bool \<Rightarrow> string \<Rightarrow> nat \<times> nat \<times> string" where
  "leading_fraction x scale over [] = (x, scale, [])"
| "leading_fraction x scale over (c # s) =
     (if \<not> is_digit c then (x, scale, c # s)
      else if over \<or> x > (two63 - 1) div 10 then leading_fraction x scale True s
      else let y = x * 10 + (byte_of c - 48) in
        if y > two63 then leading_fraction x scale True s else leading_fraction y (scale * 10) False s)"

definition unit_char :: "char \<Rightarrow> bool" where "unit_char c \<longleftrightarrow> c \<noteq> CHR ''.'' \<and> \<not> is_digit c"

text \<open>One number with its unit: the nanoseconds and the rest. \<open>fprod f unit scale\<close> is
  \<open>uint64(float64(f) * (float64(unit) / scale))\<close>.\<close>

definition duration_term :: "(nat \<Rightarrow> nat \<Rightarrow> nat \<Rightarrow> nat) \<Rightarrow> string \<Rightarrow> (nat \<times> string) option" where
  "duration_term fprod s =
     (if s = [] \<or> \<not> (hd s = CHR ''.'' \<or> is_digit (hd s)) then None
      else case leading_int 0 s of
          None \<Rightarrow> None
        | Some (v, s1) \<Rightarrow>
            (let pre = length s1 \<noteq> length s;
                 (f, scale, s2) = (if s1 \<noteq> [] \<and> hd s1 = CHR ''.'' then leading_fraction 0 1 False (tl s1) else (0, 1, s1));
                 post = (s1 \<noteq> [] \<and> hd s1 = CHR ''.'' \<and> length s2 \<noteq> length (tl s1));
                 u = takeWhile unit_char s2; s3 = dropWhile unit_char s2 in
             if \<not> pre \<and> \<not> post then None
             else if u = [] then None
             else case unit_of u of
                 None \<Rightarrow> None
               | Some n \<Rightarrow>
                   (if v > two63 div n then None
                    else let w = v * n + (if f > 0 then fprod f n scale else 0) in
                      if f > 0 \<and> w > two63 then None else Some (w, s3))))"

lemma leading_int_length: "leading_int x s = Some (v, r) \<Longrightarrow> length r \<le> length s"
  by (induction x s rule: leading_int.induct) (auto simp: Let_def le_SucI split: if_splits)

lemma leading_fraction_length: "leading_fraction x sc ov s = (f, c, r) \<Longrightarrow> length r \<le> length s"
  by (induction x sc ov s rule: leading_fraction.induct) (auto simp: Let_def le_SucI split: if_splits)

lemma duration_term_shorter: "duration_term fprod s = Some (w, r) \<Longrightarrow> length r < length s"
proof -
  assume a: "duration_term fprod s = Some (w, r)"
  then obtain v s1 where v: "leading_int 0 s = Some (v, s1)" and ne: "s \<noteq> []"
    by (auto simp: duration_term_def split: if_splits option.splits)
  define s2 where "s2 = (if s1 \<noteq> [] \<and> hd s1 = CHR ''.'' then snd (snd (leading_fraction 0 1 False (tl s1))) else s1)"
  have l2: "length s2 \<le> length s1"
  proof (cases "s1 \<noteq> [] \<and> hd s1 = CHR ''.''")
    case True
    obtain f c q where q: "leading_fraction 0 1 False (tl s1) = (f, c, q)" by (cases "leading_fraction 0 1 False (tl s1)") auto
    with True leading_fraction_length [OF q] show ?thesis by (simp add: s2_def)
  qed (auto simp: s2_def)
  have u: "takeWhile unit_char s2 \<noteq> []" "r = dropWhile unit_char s2"
    using a v ne by (auto simp: duration_term_def s2_def Let_def split: if_splits option.splits prod.splits)
  have "length s2 = length (takeWhile unit_char s2) + length (dropWhile unit_char s2)"
    by (metis length_append takeWhile_dropWhile_id)
  with u l2 leading_int_length [OF v] show ?thesis by (cases "takeWhile unit_char s2") auto
qed

function duration_terms :: "(nat \<Rightarrow> nat \<Rightarrow> nat \<Rightarrow> nat) \<Rightarrow> nat \<Rightarrow> string \<Rightarrow> nat option" where
  "duration_terms fprod d s =
     (if s = [] then Some d
      else case duration_term fprod s of
          None \<Rightarrow> None
        | Some (w, r) \<Rightarrow> if d + w > two63 then None else duration_terms fprod (d + w) r)"
  by pat_completeness auto
termination
  by (relation "measure (\<lambda>(_, _, s). length s)") (auto dest: duration_term_shorter)

declare duration_terms.simps [simp del]

definition parse_duration :: "(nat \<Rightarrow> nat \<Rightarrow> nat \<Rightarrow> nat) \<Rightarrow> string \<Rightarrow> duration option" where
  "parse_duration fprod orig =
     (let neg = (orig \<noteq> [] \<and> hd orig = CHR ''-'');
          s = (if orig \<noteq> [] \<and> (hd orig = CHR ''-'' \<or> hd orig = CHR ''+'') then tl orig else orig) in
      if s = ''0'' then Some 0
      else if s = [] then None
      else case duration_terms fprod 0 s of
          None \<Rightarrow> None
        | Some d \<Rightarrow> (if neg then Some (wrap64 (- int d)) else if d > two63 - 1 then None else Some (int d)))"

text \<open>Half away from zero; saturates at the ends of the range. \<open>%\<close> is the remainder of \<open>tdiv\<close>.\<close>

definition round_duration :: "duration \<Rightarrow> duration \<Rightarrow> duration" where
  "round_duration d m =
     (if m \<le> 0 then d
      else let r = d - tdiv d m * m in
        if d < 0 then
          (if - r + - r < m then d + - r
           else let d1 = wrap64 (d - m + - r) in if d1 < d then d1 else int64_min)
        else if r + r < m then d - r
        else let d1 = wrap64 (d + m - r) in if d1 > d then d1 else int64_max)"

subsection \<open>Adding a job\<close>

text \<open>\<open>fmt.Sprint\<close>; \<open>sprint\<close> formats the values that are not strings, booleans or integers.\<close>

definition go_sprint :: "(any \<Rightarrow> string) \<Rightarrow> any \<Rightarrow> string" where
  "go_sprint sprint v = (case v of
       AnyStr s \<Rightarrow> s
     | AnyNumber s \<Rightarrow> s
     | AnyBool b \<Rightarrow> if b then ''true'' else ''false''
     | AnyInt n \<Rightarrow> show_int n
     | AnyInt32 n \<Rightarrow> show_int n
     | AnyInt64 n \<Rightarrow> show_int n
     | _ \<Rightarrow> sprint v)"

definition string_from_map :: "(any \<Rightarrow> string) \<Rightarrow> metadata \<Rightarrow> string \<Rightarrow> string" where
  "string_from_map sprint m key =
     (case map_of m key of
        None \<Rightarrow> []
      | Some v \<Rightarrow> (if v = AnyNil then [] else trim_space (go_sprint sprint v)))"

definition truthy_map :: "(any \<Rightarrow> string) \<Rightarrow> any \<Rightarrow> bool" where
  "truthy_map sprint vi =
     (if vi = AnyNil then False
      else case vi of
          AnyBool b \<Rightarrow> b
        | _ \<Rightarrow> (let s = to_lower (trim_space (go_sprint sprint vi)) in s = ''true'' \<or> s = ''1'' \<or> s = ''yes''))"

definition number_to_int64 :: "(any \<Rightarrow> string) \<Rightarrow> any \<Rightarrow> int option" where
  "number_to_int64 sprint v = (case v of
       AnyInt64 n \<Rightarrow> Some n
     | AnyInt n \<Rightarrow> Some n
     | AnyFloat x \<Rightarrow> Some (float_to_int x)
     | AnyNumber s \<Rightarrow> parse_int s
     | _ \<Rightarrow> parse_int (trim_space (go_sprint sprint v)))"

record cron_tool_input =
  ti_name :: string
  ti_message :: string
  ti_expr :: string
  ti_in :: string
  ti_at_ms :: int
  ti_has_at_ms :: bool
  ti_deliver :: bool
  ti_deliver_key_present :: bool
  ti_deliver_to_incoming :: bool
  ti_channel :: string
  ti_to :: string

definition map_value :: "metadata \<Rightarrow> string \<Rightarrow> any" where
  "map_value m k = (case map_of m k of None \<Rightarrow> AnyNil | Some v \<Rightarrow> v)"

definition parse_cron_tool_input :: "(any \<Rightarrow> string) \<Rightarrow> metadata \<Rightarrow> cron_error + cron_tool_input" where
  "parse_cron_tool_input sprint m =
     (let base = \<lparr>ti_name = string_from_map sprint m ''name'', ti_message = string_from_map sprint m ''message'',
            ti_expr = string_from_map sprint m ''expr'', ti_in = string_from_map sprint m ''in'',
            ti_at_ms = 0, ti_has_at_ms = False,
            ti_deliver = truthy_map sprint (map_value m ''deliver''),
            ti_deliver_key_present = (map_of m ''deliver'' \<noteq> None),
            ti_deliver_to_incoming = truthy_map sprint (map_value m ''deliver_to_incoming_chat''),
            ti_channel = string_from_map sprint m ''channel'', ti_to = string_from_map sprint m ''to''\<rparr> in
      if map_value m ''at_ms'' \<noteq> AnyNil
      then (case number_to_int64 sprint (map_value m ''at_ms'') of
              None \<Rightarrow> Inl AtMsInvalid
            | Some x \<Rightarrow> Inr (base\<lparr>ti_at_ms := x, ti_has_at_ms := True\<rparr>))
      else Inr base)"

definition apply_gateway_defaults :: "ctx \<Rightarrow> cron_tool_input \<Rightarrow> cron_tool_input" where
  "apply_gateway_defaults ctx ti =
     (if ti_deliver_key_present ti then ti
      else if ti_deliver_to_incoming ti then ti
      else if ti_channel ti \<noteq> [] \<or> ti_to ti \<noteq> [] then ti
      else if turn_from ctx = None then ti
      else ti\<lparr>ti_deliver_to_incoming := True\<rparr>)"

definition validate_delivery_policy :: "ctx \<Rightarrow> cron_tool_input \<Rightarrow> cron_error option" where
  "validate_delivery_policy ctx ti =
     (let ch = trim_space (ti_channel ti); to' = trim_space (ti_to ti) in
      if ti_deliver_to_incoming ti \<and> ti_deliver ti then Some ToolBothDeliveries
      else if ti_deliver_to_incoming ti then
        (if ch \<noteq> [] \<or> to' \<noteq> [] then Some ToolTargetWithIncoming
         else if turn_from ctx = None then Some ToolNoConversation else None)
      else if ti_deliver ti then
        (if ch = [] \<or> to' = [] then Some ToolDeliverNeedsTarget
         else if is_reserved_recipient to' then Some (ToolReservedRecipient to') else None)
      else if ch \<noteq> [] \<or> to' \<noteq> [] then Some (ToolTargetWithoutDeliver ch to')
      else None)"

record add_params =
  ap_name :: string
  ap_message :: string
  ap_expr :: string
  ap_in :: string
  ap_at_ms :: int
  ap_has_at_ms :: bool
  ap_deliver :: bool
  ap_channel :: string
  ap_to :: string
  ap_deliver_to_incoming :: bool
  ap_message_id :: int

definition to_add_params :: "ctx \<Rightarrow> cron_tool_input \<Rightarrow> add_params" where
  "to_add_params ctx ti =
     (let p = \<lparr>ap_name = ti_name ti, ap_message = ti_message ti, ap_expr = ti_expr ti, ap_in = ti_in ti,
            ap_at_ms = ti_at_ms ti, ap_has_at_ms = ti_has_at_ms ti, ap_deliver = ti_deliver ti,
            ap_channel = ti_channel ti, ap_to = ti_to ti, ap_deliver_to_incoming = ti_deliver_to_incoming ti,
            ap_message_id = 0\<rparr> in
      if ti_deliver_to_incoming ti then
        (case turn_from ctx of
           None \<Rightarrow> p
         | Some tc \<Rightarrow> p\<lparr>ap_channel := tc_channel tc, ap_to := tc_chat_id tc,
               ap_message_id := (case map_of (entries (tc_metadata tc)) ''message_id'' of
                   None \<Rightarrow> 0 | Some mid \<Rightarrow> int_from_any mid)\<rparr>)
      else p)"

text \<open>What a command sees of the world: the clock in nanoseconds, the id drawn, the disk's answer.\<close>

record cron_env =
  ce_gronx :: gronx
  ce_fprod :: "nat \<Rightarrow> nat \<Rightarrow> nat \<Rightarrow> nat"
  ce_uuid :: string
  ce_now :: instant
  ce_io :: atomic_io

definition bool_nat :: "bool \<Rightarrow> nat" where "bool_nat b = (if b then 1 else 0)"

definition choose_schedule :: "cron_env \<Rightarrow> string \<Rightarrow> string \<Rightarrow> int \<Rightarrow> cron_error + schedule" where
  "choose_schedule env expr in' atMs =
     (if expr \<noteq> [] then Inr (CronSched expr)
      else if in' \<noteq> [] then
        (case parse_duration (ce_fprod env) in' of
           None \<Rightarrow> Inl (InDurationInvalid in')
         | Some d \<Rightarrow> Inr (AtSched (ce_now env + round_duration d millisecond)))
      else Inr (AtSched (unix_milli atMs)))"

definition cron_add :: "cron_env \<Rightarrow> add_params \<Rightarrow> cron_state \<Rightarrow> cron_state \<times> (cron_error + cron_job)" where
  "cron_add env p s =
     (let name = trim_space (ap_name p); message = trim_space (ap_message p); expr = trim_space (ap_expr p);
          in' = trim_space (ap_in p); channel = trim_space (ap_channel p); to' = trim_space (ap_to p) in
      if name = [] then (s, Inl NameRequired)
      else if message = [] then (s, Inl MessageRequired)
      else
        let deliver = (ap_deliver_to_incoming p \<or> ap_deliver p) in
        if bool_nat (expr \<noteq> []) + bool_nat (in' \<noteq> []) + bool_nat (ap_has_at_ms p) \<noteq> 1 then (s, Inl OneScheduleRequired)
        else case choose_schedule env expr in' (ap_at_ms p) of
            Inl e \<Rightarrow> (s, Inl e)
          | Inr sch \<Rightarrow>
              (if deliver \<and> (channel = [] \<or> to' = []) then (s, Inl DeliverNeedsTarget)
               else
                 let pl = \<lparr>pl_message = message, pl_deliver = deliver, pl_channel = channel, pl_to = to'\<rparr> in
                 case payload_validate pl of
                   Some e \<Rightarrow> (s, Inl e)
                 | None \<Rightarrow> add_job (ce_gronx env) (ce_uuid env) (to_milli (ce_now env)) (ce_io env) name sch pl s))"

definition add_from_tool_map ::
  "(any \<Rightarrow> string) \<Rightarrow> cron_env \<Rightarrow> ctx \<Rightarrow> metadata \<Rightarrow> cron_state \<Rightarrow> cron_state \<times> (cron_error + cron_job)" where
  "add_from_tool_map sprint env ctx m s =
     (case parse_cron_tool_input sprint m of
        Inl e \<Rightarrow> (s, Inl e)
      | Inr ti0 \<Rightarrow>
          (let ti = apply_gateway_defaults ctx ti0 in
           case validate_delivery_policy ctx ti of
             Some e \<Rightarrow> (s, Inl e)
           | None \<Rightarrow> cron_add env (to_add_params ctx ti) s))"

subsection \<open>Texts\<close>

definition arrow :: string where "arrow = [CHR 0xE2, CHR 0x86, CHR 0x92]"

definition format_schedule :: "(string \<Rightarrow> string) \<Rightarrow> (instant \<Rightarrow> string) \<Rightarrow> schedule \<Rightarrow> string" where
  "format_schedule quote rfc3339 s = (case s of
       CronSched e \<Rightarrow> ''cron expr='' @ quote e
     | AtSched t \<Rightarrow> ''at ms='' @ show_int (to_milli t) @ '' ('' @ rfc3339 t @ '')''
     | EverySched d \<Rightarrow> ''every '' @ show_int (tdiv d millisecond) @ '' ms''
     | NilSched \<Rightarrow> ''schedule=<nil>'')"

definition format_schedule_line :: "(string \<Rightarrow> string) \<Rightarrow> (instant \<Rightarrow> string) \<Rightarrow> schedule \<Rightarrow> string" where
  "format_schedule_line quote rfc3339 s = (case s of
       CronSched e \<Rightarrow> ''expr='' @ quote e
     | AtSched t \<Rightarrow> ''at='' @ rfc3339 t
     | EverySched d \<Rightarrow> ''everyMs='' @ show_int (tdiv d millisecond)
     | NilSched \<Rightarrow> ''schedule=<nil>'')"

definition format_job_added :: "(string \<Rightarrow> string) \<Rightarrow> (instant \<Rightarrow> string) \<Rightarrow> cron_job option \<Rightarrow> string" where
  "format_job_added quote rfc3339 job = (case job of
       None \<Rightarrow> []
     | Some j \<Rightarrow>
         (let del = (if pl_deliver (cj_payload j)
                then '' deliver'' @ arrow @ '' '' @ pl_channel (cj_payload j) @ '':'' @ pl_to (cj_payload j) else []) in
          ''Added job id='' @ cj_id j @ '' name='' @ quote (cj_name j) @ '' ''
          @ format_schedule quote rfc3339 (cj_schedule j) @ del))"

definition format_job_line :: "(string \<Rightarrow> string) \<Rightarrow> (instant \<Rightarrow> string) \<Rightarrow> cron_job \<Rightarrow> string" where
  "format_job_line quote rfc3339 j =
     (let d = (if pl_deliver (cj_payload j)
            then '' '' @ arrow @ pl_channel (cj_payload j) @ '':'' @ pl_to (cj_payload j) else []) in
      cj_id j @ '' name='' @ quote (cj_name j) @ '' enabled='' @ (if cj_enabled j then ''on'' else ''off'') @ '' ''
      @ format_schedule_line quote rfc3339 (cj_schedule j) @ '' msg='' @ quote (pl_message (cj_payload j)) @ d)"

definition format_list :: "(string \<Rightarrow> string) \<Rightarrow> (instant \<Rightarrow> string) \<Rightarrow> cron_job list \<Rightarrow> string" where
  "format_list quote rfc3339 jobs =
     (if jobs = [] then ''No cron jobs.''
      else trim_suffix (concat (map (\<lambda>j. format_job_line quote rfc3339 j @ [newline]) jobs)) [newline])"

subsection \<open>Slash commands\<close>

definition slash_flag :: "invocation \<Rightarrow> string \<Rightarrow> string option" where
  "slash_flag ivc name = map_of (inv_flags ivc) (to_lower name)"

definition flag_text :: "invocation \<Rightarrow> string \<Rightarrow> string" where
  "flag_text ivc name = (case slash_flag ivc name of None \<Rightarrow> [] | Some v \<Rightarrow> v)"

definition flag_true :: "invocation \<Rightarrow> string \<Rightarrow> bool" where
  "flag_true ivc name = (case slash_flag ivc name of
       None \<Rightarrow> False
     | Some v \<Rightarrow> v = ''true'' \<or> v = ''1'' \<or> equal_fold v ''yes'')"

definition slash_cron_add ::
  "(string \<Rightarrow> string) \<Rightarrow> (instant \<Rightarrow> string) \<Rightarrow> cron_env \<Rightarrow> invocation \<Rightarrow> cron_state
    \<Rightarrow> cron_state \<times> (cron_error + plugin_result)" where
  "slash_cron_add quote rfc3339 env ivc s =
     (if trim_space (flag_text ivc ''name'') = [] then (s, Inl SlashNameRequired)
      else if trim_space (flag_text ivc ''message'') = [] then (s, Inl SlashMessageRequired)
      else
        let expr = trim_space (flag_text ivc ''expr''); in' = trim_space (flag_text ivc ''in'');
            atMsStr = trim_space (flag_text ivc ''at-ms'');
            deliverIncoming = flag_true ivc ''deliver_to_incoming_chat''; deliver = flag_true ivc ''deliver'';
            chv = trim_space (flag_text ivc ''channel''); to' = trim_space (flag_text ivc ''to'') in
        if bool_nat (expr \<noteq> []) + bool_nat (in' \<noteq> []) + bool_nat (atMsStr \<noteq> []) \<noteq> 1 then (s, Inl SlashOneSchedule)
        else if deliver \<and> (chv = [] \<or> to' = []) then (s, Inl SlashDeliverNeedsTarget)
        else
          let p = \<lparr>ap_name = trim_space (flag_text ivc ''name''), ap_message = trim_space (flag_text ivc ''message''),
                ap_expr = expr, ap_in = in', ap_at_ms = 0, ap_has_at_ms = False, ap_deliver = deliver, ap_channel = chv,
                ap_to = to', ap_deliver_to_incoming = deliverIncoming, ap_message_id = 0\<rparr> in
          case (if atMsStr = [] then Some p
                else map_option (\<lambda>n. p\<lparr>ap_at_ms := n, ap_has_at_ms := True\<rparr>) (parse_int atMsStr)) of
            None \<Rightarrow> (s, Inl SlashAtMs)
          | Some p' \<Rightarrow> (case cron_add env p' s of
                (s', Inl e) \<Rightarrow> (s', Inl e)
              | (s', Inr job) \<Rightarrow> (s', Inr \<lparr>pr_command = ''cron-add'',
                    pr_output = format_job_added quote rfc3339 (Some job), pr_metadata = []\<rparr>)))"

definition slash_cron_list :: "(string \<Rightarrow> string) \<Rightarrow> (instant \<Rightarrow> string) \<Rightarrow> cron_state \<Rightarrow> plugin_result" where
  "slash_cron_list quote rfc3339 s =
     \<lparr>pr_command = ''cron-list'', pr_output = format_list quote rfc3339 (list_jobs s), pr_metadata = []\<rparr>"

definition slash_cron_remove ::
  "(string \<Rightarrow> string) \<Rightarrow> cron_env \<Rightarrow> invocation \<Rightarrow> cron_state \<Rightarrow> cron_state \<times> (cron_error + plugin_result)" where
  "slash_cron_remove quote env ivc s =
     (let i = trim_space (flag_text ivc ''id'') in
      if i = [] then (s, Inl IdRequired)
      else case remove_job (ce_io env) i s of
          (s', False) \<Rightarrow> (s', Inl (NoJobWithId i))
        | (s', True) \<Rightarrow> (s', Inr \<lparr>pr_command = ''cron-remove'', pr_output = ''Removed job '' @ quote i @ ''.'',
              pr_metadata = []\<rparr>))"

subsection \<open>Tools\<close>

record tool_result =
  tr_success :: bool
  tr_output :: string

definition not_ready :: tool_result where
  "not_ready = \<lparr>tr_success = False, tr_output = ''cron service not ready''\<rparr>"

text \<open>The service is \<open>None\<close> until the trigger has started; \<open>errtext\<close> is \<open>err.Error()\<close>.\<close>

definition schedule_tool_execute ::
  "(string \<Rightarrow> string) \<Rightarrow> (instant \<Rightarrow> string) \<Rightarrow> (cron_error \<Rightarrow> string) \<Rightarrow> (any \<Rightarrow> string) \<Rightarrow> cron_env \<Rightarrow> ctx \<Rightarrow> metadata
    \<Rightarrow> cron_state option \<Rightarrow> cron_state option \<times> tool_result" where
  "schedule_tool_execute quote rfc3339 errtext sprint env ctx params svc =
     (case svc of
        None \<Rightarrow> (None, not_ready)
      | Some s \<Rightarrow> (case add_from_tool_map sprint env ctx params s of
            (s', Inl e) \<Rightarrow> (Some s', \<lparr>tr_success = False, tr_output = errtext e\<rparr>)
          | (s', Inr job) \<Rightarrow> (Some s', \<lparr>tr_success = True, tr_output = format_job_added quote rfc3339 (Some job)\<rparr>)))"

definition list_tool_execute ::
  "(string \<Rightarrow> string) \<Rightarrow> (instant \<Rightarrow> string) \<Rightarrow> cron_state option \<Rightarrow> tool_result" where
  "list_tool_execute quote rfc3339 svc =
     (case svc of
        None \<Rightarrow> not_ready
      | Some s \<Rightarrow> \<lparr>tr_success = True, tr_output = format_list quote rfc3339 (list_jobs s)\<rparr>)"

definition remove_tool_execute ::
  "(string \<Rightarrow> string) \<Rightarrow> (any \<Rightarrow> string) \<Rightarrow> atomic_io \<Rightarrow> metadata \<Rightarrow> cron_state option
    \<Rightarrow> cron_state option \<times> (cron_error + tool_result)" where
  "remove_tool_execute quote sprint io params svc =
     (case svc of
        None \<Rightarrow> (None, Inr not_ready)
      | Some s \<Rightarrow>
          (let i = string_from_map sprint params ''id'' in
           if i = [] then (Some s, Inl IdRequired)
           else case remove_job io i s of
               (s', False) \<Rightarrow> (Some s', Inl (NoJobWithId i))
             | (s', True) \<Rightarrow> (Some s', Inr \<lparr>tr_success = True, tr_output = ''Removed job '' @ quote i @ ''.''\<rparr>)))"

subsection \<open>What an added job is\<close>

lemma add_job_Inr:
  assumes "add_job gx uuid now io name sch p s = (s', Inr job)"
  shows "cv_jobs s' = cv_jobs s @ [job] \<and> cj_id job = uuid \<and> cj_name job = name \<and> cj_schedule job = sch
    \<and> cj_payload job = p \<and> cj_enabled job \<and> sched_validate gx sch = None
    \<and> compute_next_run gx sch now = Inr (next_of job) \<and> cv_file s' = CronFile (map marshal_job (cv_jobs s'))"
  using assms
  by (cases io) (auto simp: add_job_def Let_def save_ok save_fail from_ms_def last_of_def new_cron_job_def notify_def
      set_next_def next_of_def split: option.splits sum.splits)

lemma cron_add_Inr:
  assumes "cron_add env p s = (s', Inr job)"
  shows "cv_jobs s' = cv_jobs s @ [job] \<and> cj_name job \<noteq> [] \<and> pl_message (cj_payload job) \<noteq> []
    \<and> cj_enabled job \<and> payload_validate (cj_payload job) = None
    \<and> pl_deliver (cj_payload job) = (ap_deliver_to_incoming p \<or> ap_deliver p)
    \<and> pl_channel (cj_payload job) = trim_space (ap_channel p) \<and> pl_to (cj_payload job) = trim_space (ap_to p)
    \<and> choose_schedule env (trim_space (ap_expr p)) (trim_space (ap_in p)) (ap_at_ms p) = Inr (cj_schedule job)
    \<and> compute_next_run (ce_gronx env) (cj_schedule job) (to_milli (ce_now env)) = Inr (next_of job)"
proof -
  let ?pl = "\<lparr>pl_message = trim_space (ap_message p), pl_deliver = ap_deliver_to_incoming p \<or> ap_deliver p,
    pl_channel = trim_space (ap_channel p), pl_to = trim_space (ap_to p)\<rparr>"
  obtain sch where sch: "choose_schedule env (trim_space (ap_expr p)) (trim_space (ap_in p)) (ap_at_ms p) = Inr sch"
    and v: "payload_validate ?pl = None" and n: "trim_space (ap_name p) \<noteq> []" "trim_space (ap_message p) \<noteq> []"
    and a: "add_job (ce_gronx env) (ce_uuid env) (to_milli (ce_now env)) (ce_io env) (trim_space (ap_name p)) sch ?pl s = (s', Inr job)"
    using assms by (auto simp: cron_add_def Let_def split: if_splits sum.splits option.splits)
  from add_job_Inr [OF a] sch v n show ?thesis by simp
qed

lemma cron_add_Inl: "cron_add env p s = (s', Inl e) \<Longrightarrow> ce_io env = AtomicOk \<Longrightarrow> s' = s"
  by (auto simp: cron_add_def add_job_def Let_def save_ok split: if_splits sum.splits option.splits)

subsection \<open>Durations in commands\<close>

lemma digits_val_ge: "digits_val x ds = Some n \<Longrightarrow> x \<le> n"
  by (induction x ds rule: digits_val.induct) (auto split: if_splits)

lemma leading_int_digits:
  "digits_val x ds = Some n \<Longrightarrow> n \<le> two63 \<Longrightarrow> rest = [] \<or> \<not> is_digit (hd rest) \<Longrightarrow> leading_int x (ds @ rest) = Some (n, rest)"
proof (induction x ds rule: digits_val.induct)
  case (1 acc)
  then show ?case by (cases rest) auto
next
  case (2 acc c s)
  have c: "is_digit c" using "2.prems"(1) by (simp split: if_splits)
  then have "acc * 10 + (byte_of c - 48) \<le> n" using "2.prems"(1) digits_val_ge by auto
  then have "acc * 10 + (byte_of c - 48) \<le> two63" "acc \<le> two63 div 10" using "2.prems"(2) by (auto simp: two63_def)
  with 2 c show ?case by (simp add: Let_def)
qed

definition duration_text :: "(nat \<times> string) list \<Rightarrow> string" where
  "duration_text ts = concat (map (\<lambda>(n, u). show_nat n @ u) ts)"

definition duration_total :: "(nat \<times> string) list \<Rightarrow> nat" where
  "duration_total ts = (\<Sum>(n, u) \<leftarrow> ts. n * the (unit_of u))"

lemma unit_of_cases:
  "unit_of u = Some k \<Longrightarrow> 0 < k \<and> u \<noteq> [] \<and> (\<forall>c \<in> set u. unit_char c)"
  by (auto simp: unit_of_def unit_char_def is_digit_def byte_of_def split: if_splits)

lemma duration_text_head: "duration_text ts = [] \<or> is_digit (hd (duration_text ts))"
proof (cases ts)
  case (Cons t ts')
  obtain n u where "t = (n, u)" by (cases t)
  moreover obtain c cs where "show_nat n = c # cs" by (cases "show_nat n") auto
  moreover have "is_digit c" using show_nat_digits [of c n] calculation(2) by simp
  ultimately show ?thesis using Cons by (simp add: duration_text_def)
qed (simp add: duration_text_def)

lemma duration_term_text:
  assumes u: "unit_of u = Some k" and le: "n * k \<le> two63"
  shows "duration_term fp (show_nat n @ u @ duration_text ts) = Some (n * k, duration_text ts)"
proof -
  let ?r = "duration_text ts"
  note k = unit_of_cases [OF u]
  have n: "n \<le> two63 div k" using le k by (simp add: less_eq_div_iff_mult_less_eq)
  then have n2: "n \<le> two63" using div_le_dividend le_trans by blast
  have h: "\<not> is_digit (hd (u @ ?r))" "hd (u @ ?r) \<noteq> CHR ''.''" "u @ ?r \<noteq> []"
    using k by (cases u; simp add: unit_char_def)+
  have li: "leading_int 0 (show_nat n @ u @ ?r) = Some (n, u @ ?r)"
    using leading_int_digits [OF digits_val_show_nat n2] h by simp
  obtain c cs where e: "show_nat n = c # cs" by (cases "show_nat n") auto
  then have c: "is_digit c" using show_nat_digits [of c n] by simp
  have t: "takeWhile unit_char (u @ ?r) = u" "dropWhile unit_char (u @ ?r) = ?r"
    using k duration_text_head [of ts] by (cases ?r; auto simp: unit_char_def)+
  have "\<not> two63 div k < n" using n by simp
  with li h e c t k u show ?thesis by (simp add: duration_term_def Let_def del: leading_int.simps)
qed

lemma duration_terms_text:
  "\<forall>(n, u) \<in> set ts. unit_of u \<noteq> None \<Longrightarrow> d + duration_total ts \<le> two63 \<Longrightarrow>
   duration_terms fp d (duration_text ts) = Some (d + duration_total ts)"
proof (induction ts arbitrary: d)
  case Nil
  then show ?case by (simp add: duration_text_def duration_total_def duration_terms.simps)
next
  case (Cons t ts)
  obtain n u k where t: "t = (n, u)" "unit_of u = Some k" using Cons.prems(1) by (cases t) auto
  have tot: "duration_total (t # ts) = n * k + duration_total ts" by (simp add: duration_total_def t)
  have txt': "duration_text (t # ts) = show_nat n @ u @ duration_text ts" by (simp add: duration_text_def t)
  have le: "n * k \<le> two63" "d + n * k \<le> two63" "d + n * k + duration_total ts \<le> two63" using Cons.prems(2) tot by simp_all
  have "duration_terms fp d (duration_text (t # ts)) = duration_terms fp (d + n * k) (duration_text ts)"
    unfolding txt' using duration_term_text [OF t(2) le(1), of fp ts] le by (simp add: duration_terms.simps [of fp d])
  also have "\<dots> = Some (d + n * k + duration_total ts)" using Cons le by simp
  finally show ?case using tot by simp
qed

lemma parse_duration_text:
  assumes "ts \<noteq> []" and "\<forall>(n, u) \<in> set ts. unit_of u \<noteq> None" and "duration_total ts < two63"
  shows "parse_duration fp (duration_text ts) = Some (int (duration_total ts))"
proof -
  obtain n u k ts' where t: "ts = (n, u) # ts'" "unit_of u = Some k" using assms(1,2) by (cases ts) auto
  have e: "duration_text ts = show_nat n @ u @ duration_text ts'" by (simp add: duration_text_def t)
  obtain c cs where c: "show_nat n = c # cs" by (cases "show_nat n") auto
  have d: "is_digit c" using show_nat_digits [of c n] c by simp
  then have nc: "c \<noteq> CHR ''-''" "c \<noteq> CHR ''+''" by (simp_all add: digit_not_sign)
  have "u \<noteq> []" "\<forall>c \<in> set u. \<not> is_digit c" using unit_of_cases [OF t(2)] by (simp_all add: unit_char_def)
  then have n0: "duration_text ts \<noteq> ''0''" "duration_text ts \<noteq> []" using e c by auto
  have r: "duration_terms fp 0 (duration_text ts) = Some (duration_total ts)"
    using duration_terms_text [OF assms(2), of 0 fp] assms(3) by simp
  have h: "hd (duration_text ts) = c" using e c by simp
  show ?thesis using assms(3) n0 nc by (simp add: parse_duration_def Let_def h r two63_def)
qed

lemma round_duration_near:
  assumes "0 \<le> d" and "d \<le> 9223372036853775807"
  shows "2 * \<bar>round_duration d millisecond - d\<bar> \<le> millisecond"
proof -
  define r where "r = d mod 1000000"
  have r: "0 \<le> r" "r < 1000000" "tdiv d millisecond * millisecond = d - r"
    using assms by (simp_all add: tdiv_nonneg r_def millisecond_def minus_mod_eq_div_mult)
  have w: "wrap64 (d + 1000000 - r) = d + 1000000 - r" using assms r
    by (intro wrap64_id) (simp add: in_int64_def int64_max_def int64_min_def)
  have e: "round_duration d millisecond = (if 2 * r < 1000000 then d - r else d + 1000000 - r)"
    using r assms w by (simp add: round_duration_def Let_def millisecond_def)
  show "2 * \<bar>round_duration d millisecond - d\<bar> \<le> millisecond" unfolding e using r by (simp add: millisecond_def)
qed

text \<open>A written delay means what it says: a list of numbers with units, such as 1h30m, given as \<open>in\<close>
  schedules one run at now plus their sum, to the nearest millisecond and exactly when the sum is a
  whole number of milliseconds.\<close>

theorem delay_text_schedules:
  assumes "ts \<noteq> []" and "\<forall>(n, u) \<in> set ts. unit_of u \<noteq> None" and "duration_total ts \<le> 9223372036853775807"
  shows "\<exists>t. choose_schedule env [] (duration_text ts) atMs = Inr (AtSched t)
    \<and> 2 * \<bar>t - (ce_now env + int (duration_total ts))\<bar> \<le> millisecond
    \<and> (duration_total ts mod 1000000 = 0 \<longrightarrow> t = ce_now env + int (duration_total ts))"
proof -
  have p: "parse_duration fp (duration_text ts) = Some (int (duration_total ts))" for fp
    using parse_duration_text [OF assms(1,2)] assms(3) by (simp add: two63_def)
  have "duration_text ts \<noteq> []" using assms(1) by (cases ts) (auto simp: duration_text_def)
  moreover have "round_duration (int d) millisecond = int d" if "d mod 1000000 = 0" "d \<le> 9223372036853775807" for d
  proof -
    have "int d mod 1000000 = 0" using that(1) by (metis of_nat_0 of_nat_mod of_nat_numeral)
    moreover have "int d = int d div 1000000 * 1000000 + int d mod 1000000" by simp
    ultimately have "tdiv (int d) millisecond * millisecond = int d" by (simp add: tdiv_nonneg millisecond_def)
    then show ?thesis by (simp add: round_duration_def Let_def millisecond_def)
  qed
  ultimately show ?thesis using p round_duration_near [of "int (duration_total ts)"] assms(3)
    by (simp add: choose_schedule_def)
qed

definition cron_sample_env :: cron_env where
  "cron_sample_env = \<lparr>ce_gronx = plain_gronx, ce_fprod = (\<lambda>_ _ _. 0), ce_uuid = ''u'',
     ce_now = 1000000000, ce_io = AtomicOk\<rparr>"

theorem delay_text_schedules_witness:
  "choose_schedule cron_sample_env [] ''1h30m'' 0 = Inr (AtSched 5401000000000)"
proof -
  have t: "duration_text [(1, ''h''), (30, ''m'')] = ''1h30m''" "duration_total [(1, ''h''), (30, ''m'')] = 5400000000000"
    "\<forall>(n, u) \<in> set [(1 :: nat, ''h''), (30, ''m'')]. unit_of u \<noteq> None"
    by code_simp+
  moreover have "ce_now cron_sample_env = 1000000000" by (simp add: cron_sample_env_def)
  ultimately show ?thesis using delay_text_schedules [of "[(1, ''h''), (30, ''m'')]" cron_sample_env 0] by auto
qed

subsection \<open>Where an added job delivers\<close>

lemma turn_from_trimmed:
  "turn_from ctx = Some tc \<Longrightarrow> trim_space (tc_channel tc) = tc_channel tc \<and> trim_space (tc_chat_id tc) = tc_chat_id tc
    \<and> tc_channel tc \<noteq> [] \<and> tc_chat_id tc \<noteq> []"
  by (auto simp: turn_from_def normalize_turn_def Let_def split: option.splits if_splits)

lemma string_from_map_trimmed [simp]: "trim_space (string_from_map sp m k) = string_from_map sp m k"
  by (simp add: string_from_map_def split: option.split)

definition wants_incoming :: "(any \<Rightarrow> string) \<Rightarrow> ctx \<Rightarrow> metadata \<Rightarrow> bool" where
  "wants_incoming sprint ctx m \<longleftrightarrow> truthy_map sprint (map_value m ''deliver_to_incoming_chat'') \<or>
     (map_of m ''deliver'' = None \<and> string_from_map sprint m ''channel'' = [] \<and> string_from_map sprint m ''to'' = []
      \<and> turn_from ctx \<noteq> None)"

lemma parsed_input:
  assumes "parse_cron_tool_input sprint m = Inr ti"
  shows "ti_deliver ti = truthy_map sprint (map_value m ''deliver'')"
    and "ti_deliver_key_present ti = (map_of m ''deliver'' \<noteq> None)"
    and "ti_deliver_to_incoming ti = truthy_map sprint (map_value m ''deliver_to_incoming_chat'')"
    and "ti_channel ti = string_from_map sprint m ''channel''" and "ti_to ti = string_from_map sprint m ''to''"
  using assms by (auto simp: parse_cron_tool_input_def Let_def split: if_splits option.splits)

lemma defaults_applied:
  "ti_deliver (apply_gateway_defaults ctx ti) = ti_deliver ti"
  "ti_channel (apply_gateway_defaults ctx ti) = ti_channel ti"
  "ti_to (apply_gateway_defaults ctx ti) = ti_to ti"
  "ti_deliver_to_incoming (apply_gateway_defaults ctx ti) =
     (ti_deliver_to_incoming ti \<or> (\<not> ti_deliver_key_present ti \<and> ti_channel ti = [] \<and> ti_to ti = [] \<and> turn_from ctx \<noteq> None))"
  by (auto simp: apply_gateway_defaults_def)

text \<open>A job that the agent's tool adds is stored last, has a valid payload, and delivers to no chat but
  the one meant: to the chat of the current conversation when asked to or, without any delivery
  field, by default; to the given channel and recipient when \<open>deliver\<close> is set; else nowhere.\<close>

theorem tool_job_delivery:
  assumes "add_from_tool_map sprint env ctx m s = (s', Inr job)"
  shows "cv_jobs s' = cv_jobs s @ [job] \<and> payload_validate (cj_payload job) = None
    \<and> (if wants_incoming sprint ctx m
       then pl_deliver (cj_payload job) \<and> turn_channel ctx = Some (pl_channel (cj_payload job))
          \<and> turn_chat_id ctx = Some (pl_to (cj_payload job))
       else pl_deliver (cj_payload job) = truthy_map sprint (map_value m ''deliver'')
          \<and> pl_channel (cj_payload job) = string_from_map sprint m ''channel''
          \<and> pl_to (cj_payload job) = string_from_map sprint m ''to''
          \<and> (\<not> pl_deliver (cj_payload job) \<longrightarrow> pl_channel (cj_payload job) = [] \<and> pl_to (cj_payload job) = []))"
proof -
  obtain ti0 where t0: "parse_cron_tool_input sprint m = Inr ti0"
    using assms by (auto simp: add_from_tool_map_def split: sum.splits)
  define ti where "ti = apply_gateway_defaults ctx ti0"
  have v: "validate_delivery_policy ctx ti = None" and a: "cron_add env (to_add_params ctx ti) s = (s', Inr job)"
    using assms t0 by (auto simp: add_from_tool_map_def ti_def Let_def split: option.splits)
  note c = cron_add_Inr [OF a]
  have d: "ti_deliver ti = truthy_map sprint (map_value m ''deliver'')" "ti_channel ti = string_from_map sprint m ''channel''"
    "ti_to ti = string_from_map sprint m ''to''" "ti_deliver_to_incoming ti = wants_incoming sprint ctx m"
    by (auto simp: ti_def defaults_applied parsed_input [OF t0] wants_incoming_def)
  show ?thesis
  proof (cases "wants_incoming sprint ctx m")
    case True
    then obtain tc where tc: "turn_from ctx = Some tc"
      using v d by (auto simp: validate_delivery_policy_def Let_def split: if_splits)
    with True d c turn_from_trimmed [OF tc] show ?thesis
      by (simp add: to_add_params_def Let_def turn_channel_def turn_chat_id_def)
  next
    case False
    with d c v show ?thesis by (simp add: to_add_params_def Let_def validate_delivery_policy_def split: if_splits)
  qed
qed

definition sample_params :: metadata where
  "sample_params = [(''name'', AnyStr ''n''), (''message'', AnyStr ''m''), (''in'', AnyStr ''5s'')]"

definition sample_turn :: ctx where "sample_turn = with_inbound None ''web'' ''7''"

definition sample_added :: "cron_state \<times> (cron_error + cron_job)" where
  "sample_added = add_from_tool_map (\<lambda>_. []) cron_sample_env sample_turn sample_params (sample_cron\<lparr>cv_jobs := []\<rparr>)"

lemma not_err_pair: "\<not> is_err (snd x) \<Longrightarrow> \<exists>y. x = (fst x, Inr y)"
  by (cases x) (auto simp: is_err_def split: sum.splits)

theorem tool_job_delivery_witness:
  "map (\<lambda>j. (pl_channel (cj_payload j), pl_to (cj_payload j))) (cv_jobs (fst sample_added)) = [(''web'', ''7'')]"
proof -
  have e: "\<not> is_err (snd sample_added)" by code_simp
  have w: "wants_incoming (\<lambda>_. []) sample_turn sample_params" "turn_channel sample_turn = Some ''web''"
    "turn_chat_id sample_turn = Some ''7''" by code_simp+
  obtain job where r: "sample_added = (fst sample_added, Inr job)" using not_err_pair [OF e] by blast
  from tool_job_delivery [OF trans [OF sample_added_def [symmetric] r]] w show ?thesis by simp
qed

text \<open>The slash command promises the same with \<open>--deliver_to_incoming_chat true\<close> and "no --channel or --to
  needed", but it drops the context: without them the command is always refused.\<close>

lemma slash_incoming_refused:
  assumes "flag_true ivc ''deliver_to_incoming_chat''" and "trim_space (flag_text ivc ''channel'') = []"
  shows "fst (slash_cron_add quote rfc env ivc s) = s \<and> is_err (snd (slash_cron_add quote rfc env ivc s))"
proof -
  have "\<exists>e. cron_add env p s = (s, Inl e)" if "ap_deliver_to_incoming p" "trim_space (ap_channel p) = []" for p
    using that by (auto simp: cron_add_def Let_def split: sum.split)
  then obtain refusal where "\<And>p. ap_deliver_to_incoming p \<Longrightarrow> trim_space (ap_channel p) = [] \<Longrightarrow>
      cron_add env p s = (s, Inl (refusal p))" by metis
  with assms show ?thesis by (auto simp: slash_cron_add_def Let_def split: option.split)
qed

end
