(* ===== verification/Config.thy ===== *)
theory Config
  imports PostAction
begin

text \<open>
  \<open>internal/kernel/config/config.go\<close>: the configuration and its JSON form. \<open>encoding/json\<close> is modelled on
  syntax trees: decoding merges an object into an existing value, field by field, with names compared by
  case folding, and remembers whether some value had the wrong type; \<open>null\<close> leaves a value alone. A nil and
  an empty slice are both the empty list, a Go map is the list of its entries.
\<close>

subsection \<open>JSON\<close>

datatype json =
    JNull
  | JBool bool
  | JNum string
  | JStr string
  | JArr "json list"
  | JObj "(string \<times> json) list"

type_synonym 'a decoder = "json \<Rightarrow> 'a \<Rightarrow> 'a \<times> bool"

definition dec_string :: "string decoder" where
  "dec_string j old = (case j of JNull \<Rightarrow> (old, False) | JStr s \<Rightarrow> (s, False) | _ \<Rightarrow> (old, True))"

definition dec_bool :: "bool decoder" where
  "dec_bool j old = (case j of JNull \<Rightarrow> (old, False) | JBool b \<Rightarrow> (b, False) | _ \<Rightarrow> (old, True))"

definition dec_int :: "int decoder" where
  "dec_int j old =
     (case j of JNull \<Rightarrow> (old, False)
      | JNum t \<Rightarrow> (case parse_int t of Some n \<Rightarrow> (n, False) | None \<Rightarrow> (old, True))
      | _ \<Rightarrow> (old, True))"

text \<open>\<open>pf\<close> is \<open>strconv.ParseFloat\<close>; a \<open>float64\<close> is the rational it stands for.\<close>

definition dec_float :: "(string \<Rightarrow> rat option) \<Rightarrow> rat decoder" where
  "dec_float pf j old =
     (case j of JNull \<Rightarrow> (old, False)
      | JNum t \<Rightarrow> (case pf t of Some q \<Rightarrow> (q, False) | None \<Rightarrow> (old, True))
      | _ \<Rightarrow> (old, True))"

definition dec_strings :: "string list decoder" where
  "dec_strings j old =
     (case j of JNull \<Rightarrow> ([], False)
      | JArr xs \<Rightarrow> (map (\<lambda>x. fst (dec_string x [])) xs, list_ex (\<lambda>x. snd (dec_string x [])) xs)
      | _ \<Rightarrow> (old, True))"

type_synonym 'r field_table = "(string \<times> 'r decoder) list"

definition fld :: "('r \<Rightarrow> 'a) \<Rightarrow> (('a \<Rightarrow> 'a) \<Rightarrow> 'r \<Rightarrow> 'r) \<Rightarrow> 'a decoder \<Rightarrow> 'r decoder" where
  "fld sel upd d j r = (case d j (sel r) of (x, e) \<Rightarrow> (upd (\<lambda>_. x) r, e))"

definition look_field :: "'r field_table \<Rightarrow> string \<Rightarrow> 'r decoder option" where
  "look_field fs k =
     (case map_of fs k of Some d \<Rightarrow> Some d
      | None \<Rightarrow> map_option snd (find (\<lambda>f. equal_fold (fst f) k) fs))"

definition dec_entry :: "'r field_table \<Rightarrow> 'r \<times> bool \<Rightarrow> string \<times> json \<Rightarrow> 'r \<times> bool" where
  "dec_entry fs st kv =
     (case look_field fs (fst kv) of None \<Rightarrow> st
      | Some d \<Rightarrow> (case d (snd kv) (fst st) of (r, e) \<Rightarrow> (r, snd st \<or> e)))"

definition dec_struct :: "'r field_table \<Rightarrow> 'r decoder" where
  "dec_struct fs j old =
     (case j of JNull \<Rightarrow> (old, False)
      | JObj kvs \<Rightarrow> foldl (dec_entry fs) (old, False) kvs
      | _ \<Rightarrow> (old, True))"

text \<open>A map is merged key by key; each value is decoded afresh.\<close>

definition dec_map :: "'a \<Rightarrow> 'a decoder \<Rightarrow> (string \<times> 'a) list decoder" where
  "dec_map zero d j old =
     (case j of JNull \<Rightarrow> ([], False)
      | JObj kvs \<Rightarrow>
          foldl (\<lambda>(m, e) (k, v). (case d v zero of (x, e') \<Rightarrow> (map_put k x m, e \<or> e'))) (old, False) kvs
      | _ \<Rightarrow> (old, True))"

subsection \<open>The configuration\<close>

record agent_config =
  ac_workspace :: string
  ac_model :: string
  ac_max_tokens :: int
  ac_max_tool_iterations :: int

record provider_config =
  pc_type :: string
  pc_api_key :: string
  pc_base_url :: string

record telegram_config =
  tg_enabled :: bool
  tg_token :: string
  tg_allow_from :: "string list"
  tg_proxy :: string
  tg_root_dir :: string
  tg_feedback :: string
  tg_streaming :: bool

record feishu_config =
  fs_enabled :: bool
  fs_app_id :: string
  fs_app_secret :: string
  fs_verification_token :: string
  fs_encrypt_key :: string
  fs_port :: int
  fs_allow_from :: "string list"
  fs_proxy :: string

record wecom_config =
  wc_enabled :: bool
  wc_token :: string
  wc_aes_key :: string
  wc_receive_id :: string
  wc_port :: int
  wc_allow_from :: "string list"
  wc_proxy :: string

record whatsapp_config =
  wa_enabled :: bool
  wa_jid :: string
  wa_store_path :: string
  wa_allow_from :: "string list"

record matrix_config =
  mx_enabled :: bool
  mx_homeserver :: string
  mx_access_token :: string
  mx_user_id :: string
  mx_device_id :: string
  mx_allow_from :: "string list"
  mx_allow_rooms :: "string list"

record web_config =
  wb_enabled :: bool
  wb_allow_from :: "string list"
  wb_voice_enabled :: bool

record channels_config =
  ch_telegram :: telegram_config
  ch_feishu :: feishu_config
  ch_wecom :: wecom_config
  ch_whatsapp :: whatsapp_config
  ch_matrix :: matrix_config
  ch_web :: web_config

record acp_agent =
  aa_command :: string
  aa_args :: "string list"
  aa_env :: "string list"

record tools_config =
  tc_exec_timeout :: int
  tc_restrict :: bool
  tc_acp_enabled :: bool
  tc_acp_agents :: "(string \<times> acp_agent) list"
  tc_task_enabled :: bool

record gateway_config =
  gc_host :: string
  gc_port :: int
  gc_hot_reload :: bool
  gc_debounce_ms :: int
  gc_max_runs :: int

record skills_config =
  sc_enabled :: bool
  sc_dir :: string

record speech_config =
  sp_stt :: string
  sp_tts :: string
  sp_echo_cancel :: string
  sp_capture_command :: string
  sp_capture_args :: "string list"
  sp_playback_command :: string
  sp_playback_args :: "string list"
  sp_cartesia_key :: string
  sp_cartesia_voice :: string
  sp_cartesia_model :: string
  sp_cartesia_version :: string
  sp_cartesia_proxy :: string
  sp_eleven_key :: string
  sp_eleven_voice :: string
  sp_eleven_proxy :: string
  sp_deepgram_key :: string
  sp_deepgram_proxy :: string
  sp_openai_key :: string
  sp_openai_proxy :: string
  sp_wake_phrase :: string
  sp_wake_timeout_ms :: int

record auto_compact_config =
  au_enabled :: bool
  au_threshold :: rat
  au_preserve :: int

record mem_consolidate_config =
  mc_enabled :: bool
  mc_interval_hours :: int

record shadow_journal_config =
  sj_enabled :: bool
  sj_model :: string

record config =
  c_agent :: agent_config
  c_channels :: channels_config
  c_provider :: provider_config
  c_tools :: tools_config
  c_skills :: skills_config
  c_mcp_servers :: "string list"
  c_auto_compact :: auto_compact_config
  c_mem_consolidate :: mem_consolidate_config
  c_shadow_journal :: shadow_journal_config
  c_gateway :: gateway_config
  c_speech :: speech_config
  c_log_level :: string

subsection \<open>Field tables\<close>

definition agent_fields :: "agent_config field_table" where
  "agent_fields =
     [(''workspace'', fld ac_workspace ac_workspace_update dec_string),
      (''model'', fld ac_model ac_model_update dec_string),
      (''maxTokens'', fld ac_max_tokens ac_max_tokens_update dec_int),
      (''maxToolIterations'', fld ac_max_tool_iterations ac_max_tool_iterations_update dec_int)]"

definition provider_fields :: "provider_config field_table" where
  "provider_fields =
     [(''type'', fld pc_type pc_type_update dec_string),
      (''apiKey'', fld pc_api_key pc_api_key_update dec_string),
      (''baseUrl'', fld pc_base_url pc_base_url_update dec_string)]"

definition telegram_fields :: "telegram_config field_table" where
  "telegram_fields =
     [(''enabled'', fld tg_enabled tg_enabled_update dec_bool),
      (''token'', fld tg_token tg_token_update dec_string),
      (''allowFrom'', fld tg_allow_from tg_allow_from_update dec_strings),
      (''proxy'', fld tg_proxy tg_proxy_update dec_string),
      (''rootDir'', fld tg_root_dir tg_root_dir_update dec_string),
      (''feedback'', fld tg_feedback tg_feedback_update dec_string),
      (''streaming'', fld tg_streaming tg_streaming_update dec_bool)]"

definition feishu_fields :: "feishu_config field_table" where
  "feishu_fields =
     [(''enabled'', fld fs_enabled fs_enabled_update dec_bool),
      (''appId'', fld fs_app_id fs_app_id_update dec_string),
      (''appSecret'', fld fs_app_secret fs_app_secret_update dec_string),
      (''verificationToken'', fld fs_verification_token fs_verification_token_update dec_string),
      (''encryptKey'', fld fs_encrypt_key fs_encrypt_key_update dec_string),
      (''port'', fld fs_port fs_port_update dec_int),
      (''allowFrom'', fld fs_allow_from fs_allow_from_update dec_strings),
      (''proxy'', fld fs_proxy fs_proxy_update dec_string)]"

definition wecom_fields :: "wecom_config field_table" where
  "wecom_fields =
     [(''enabled'', fld wc_enabled wc_enabled_update dec_bool),
      (''token'', fld wc_token wc_token_update dec_string),
      (''encodingAESKey'', fld wc_aes_key wc_aes_key_update dec_string),
      (''receiveId'', fld wc_receive_id wc_receive_id_update dec_string),
      (''port'', fld wc_port wc_port_update dec_int),
      (''allowFrom'', fld wc_allow_from wc_allow_from_update dec_strings),
      (''proxy'', fld wc_proxy wc_proxy_update dec_string)]"

definition whatsapp_fields :: "whatsapp_config field_table" where
  "whatsapp_fields =
     [(''enabled'', fld wa_enabled wa_enabled_update dec_bool),
      (''jid'', fld wa_jid wa_jid_update dec_string),
      (''storePath'', fld wa_store_path wa_store_path_update dec_string),
      (''allowFrom'', fld wa_allow_from wa_allow_from_update dec_strings)]"

definition matrix_fields :: "matrix_config field_table" where
  "matrix_fields =
     [(''enabled'', fld mx_enabled mx_enabled_update dec_bool),
      (''homeserver'', fld mx_homeserver mx_homeserver_update dec_string),
      (''accessToken'', fld mx_access_token mx_access_token_update dec_string),
      (''userId'', fld mx_user_id mx_user_id_update dec_string),
      (''deviceId'', fld mx_device_id mx_device_id_update dec_string),
      (''allowFrom'', fld mx_allow_from mx_allow_from_update dec_strings),
      (''allowRooms'', fld mx_allow_rooms mx_allow_rooms_update dec_strings)]"

text \<open>A nested struct that is flattened in the record keeps its object in the JSON form.\<close>

definition web_voice_fields :: "web_config field_table" where
  "web_voice_fields = [(''enabled'', fld wb_voice_enabled wb_voice_enabled_update dec_bool)]"

definition web_fields :: "web_config field_table" where
  "web_fields =
     [(''enabled'', fld wb_enabled wb_enabled_update dec_bool),
      (''allowFrom'', fld wb_allow_from wb_allow_from_update dec_strings),
      (''voice'', dec_struct web_voice_fields)]"

definition channels_fields :: "channels_config field_table" where
  "channels_fields =
     [(''telegram'', fld ch_telegram ch_telegram_update (dec_struct telegram_fields)),
      (''feishu'', fld ch_feishu ch_feishu_update (dec_struct feishu_fields)),
      (''wecom'', fld ch_wecom ch_wecom_update (dec_struct wecom_fields)),
      (''whatsapp'', fld ch_whatsapp ch_whatsapp_update (dec_struct whatsapp_fields)),
      (''matrix'', fld ch_matrix ch_matrix_update (dec_struct matrix_fields)),
      (''web'', fld ch_web ch_web_update (dec_struct web_fields))]"

definition acp_agent_fields :: "acp_agent field_table" where
  "acp_agent_fields =
     [(''command'', fld aa_command aa_command_update dec_string),
      (''args'', fld aa_args aa_args_update dec_strings),
      (''env'', fld aa_env aa_env_update dec_strings)]"

definition zero_agent :: acp_agent where
  "zero_agent = \<lparr>aa_command = [], aa_args = [], aa_env = []\<rparr>"

definition acp_fields :: "tools_config field_table" where
  "acp_fields =
     [(''enabled'', fld tc_acp_enabled tc_acp_enabled_update dec_bool),
      (''agents'', fld tc_acp_agents tc_acp_agents_update (dec_map zero_agent (dec_struct acp_agent_fields)))]"

definition task_fields :: "tools_config field_table" where
  "task_fields = [(''enabled'', fld tc_task_enabled tc_task_enabled_update dec_bool)]"

definition tools_fields :: "tools_config field_table" where
  "tools_fields =
     [(''execTimeout'', fld tc_exec_timeout tc_exec_timeout_update dec_int),
      (''restrictToWorkspace'', fld tc_restrict tc_restrict_update dec_bool),
      (''acp'', dec_struct acp_fields),
      (''task'', dec_struct task_fields)]"

definition cron_fields :: "gateway_config field_table" where
  "cron_fields = [(''maxConcurrentRuns'', fld gc_max_runs gc_max_runs_update dec_int)]"

definition gateway_fields :: "gateway_config field_table" where
  "gateway_fields =
     [(''host'', fld gc_host gc_host_update dec_string),
      (''port'', fld gc_port gc_port_update dec_int),
      (''hotReload'', fld gc_hot_reload gc_hot_reload_update dec_bool),
      (''reloadDebounceMs'', fld gc_debounce_ms gc_debounce_ms_update dec_int),
      (''cron'', dec_struct cron_fields)]"

definition skills_fields :: "skills_config field_table" where
  "skills_fields =
     [(''enabled'', fld sc_enabled sc_enabled_update dec_bool),
      (''dir'', fld sc_dir sc_dir_update dec_string)]"

definition capture_fields :: "speech_config field_table" where
  "capture_fields =
     [(''command'', fld sp_capture_command sp_capture_command_update dec_string),
      (''args'', fld sp_capture_args sp_capture_args_update dec_strings)]"

definition playback_fields :: "speech_config field_table" where
  "playback_fields =
     [(''command'', fld sp_playback_command sp_playback_command_update dec_string),
      (''args'', fld sp_playback_args sp_playback_args_update dec_strings)]"

definition cartesia_fields :: "speech_config field_table" where
  "cartesia_fields =
     [(''apiKey'', fld sp_cartesia_key sp_cartesia_key_update dec_string),
      (''voiceId'', fld sp_cartesia_voice sp_cartesia_voice_update dec_string),
      (''modelId'', fld sp_cartesia_model sp_cartesia_model_update dec_string),
      (''apiVersion'', fld sp_cartesia_version sp_cartesia_version_update dec_string),
      (''proxy'', fld sp_cartesia_proxy sp_cartesia_proxy_update dec_string)]"

definition elevenlabs_fields :: "speech_config field_table" where
  "elevenlabs_fields =
     [(''apiKey'', fld sp_eleven_key sp_eleven_key_update dec_string),
      (''voiceId'', fld sp_eleven_voice sp_eleven_voice_update dec_string),
      (''proxy'', fld sp_eleven_proxy sp_eleven_proxy_update dec_string)]"

definition deepgram_fields :: "speech_config field_table" where
  "deepgram_fields =
     [(''apiKey'', fld sp_deepgram_key sp_deepgram_key_update dec_string),
      (''proxy'', fld sp_deepgram_proxy sp_deepgram_proxy_update dec_string)]"

definition openai_speech_fields :: "speech_config field_table" where
  "openai_speech_fields =
     [(''apiKey'', fld sp_openai_key sp_openai_key_update dec_string),
      (''proxy'', fld sp_openai_proxy sp_openai_proxy_update dec_string)]"

definition wake_fields :: "speech_config field_table" where
  "wake_fields =
     [(''phrase'', fld sp_wake_phrase sp_wake_phrase_update dec_string),
      (''timeoutMs'', fld sp_wake_timeout_ms sp_wake_timeout_ms_update dec_int)]"

definition speech_fields :: "speech_config field_table" where
  "speech_fields =
     [(''sttProvider'', fld sp_stt sp_stt_update dec_string),
      (''ttsProvider'', fld sp_tts sp_tts_update dec_string),
      (''echoCancel'', fld sp_echo_cancel sp_echo_cancel_update dec_string),
      (''capture'', dec_struct capture_fields),
      (''playback'', dec_struct playback_fields),
      (''cartesia'', dec_struct cartesia_fields),
      (''elevenlabs'', dec_struct elevenlabs_fields),
      (''deepgram'', dec_struct deepgram_fields),
      (''openai'', dec_struct openai_speech_fields),
      (''wake'', dec_struct wake_fields)]"

definition auto_compact_fields :: "(string \<Rightarrow> rat option) \<Rightarrow> auto_compact_config field_table" where
  "auto_compact_fields pf =
     [(''enabled'', fld au_enabled au_enabled_update dec_bool),
      (''threshold'', fld au_threshold au_threshold_update (dec_float pf)),
      (''preserveCount'', fld au_preserve au_preserve_update dec_int)]"

definition mem_consolidate_fields :: "mem_consolidate_config field_table" where
  "mem_consolidate_fields =
     [(''enabled'', fld mc_enabled mc_enabled_update dec_bool),
      (''intervalHours'', fld mc_interval_hours mc_interval_hours_update dec_int)]"

definition shadow_journal_fields :: "shadow_journal_config field_table" where
  "shadow_journal_fields =
     [(''enabled'', fld sj_enabled sj_enabled_update dec_bool),
      (''model'', fld sj_model sj_model_update dec_string)]"

definition mcp_fields :: "config field_table" where
  "mcp_fields = [(''servers'', fld c_mcp_servers c_mcp_servers_update dec_strings)]"

definition logging_fields :: "config field_table" where
  "logging_fields = [(''level'', fld c_log_level c_log_level_update dec_string)]"

definition config_fields :: "(string \<Rightarrow> rat option) \<Rightarrow> config field_table" where
  "config_fields pf =
     [(''agent'', fld c_agent c_agent_update (dec_struct agent_fields)),
      (''channels'', fld c_channels c_channels_update (dec_struct channels_fields)),
      (''provider'', fld c_provider c_provider_update (dec_struct provider_fields)),
      (''tools'', fld c_tools c_tools_update (dec_struct tools_fields)),
      (''skills'', fld c_skills c_skills_update (dec_struct skills_fields)),
      (''mcp'', dec_struct mcp_fields),
      (''autoCompact'', fld c_auto_compact c_auto_compact_update (dec_struct (auto_compact_fields pf))),
      (''memConsolidate'', fld c_mem_consolidate c_mem_consolidate_update (dec_struct mem_consolidate_fields)),
      (''shadowJournal'', fld c_shadow_journal c_shadow_journal_update (dec_struct shadow_journal_fields)),
      (''gateway'', fld c_gateway c_gateway_update (dec_struct gateway_fields)),
      (''speech'', fld c_speech c_speech_update (dec_struct speech_fields)),
      (''logging'', dec_struct logging_fields)]"

end
