(* ===== verification/ConfigLoad.thy ===== *)
theory ConfigLoad
  imports Config
begin

text \<open>
  \<open>internal/kernel/config\<close> (\<open>config.go\<close>, \<open>env.go\<close>, \<open>logging.go\<close>): defaults, loading, environment, validation and
  saving. The home directory, the environment and the file are arguments; a nil or blank variable is the empty string.
\<close>

subsection \<open>Defaults\<close>

definition default_model :: string where "default_model = ''claude-sonnet-4-5-20250929''"

text \<open>The \<open>float64\<close> nearest to 0.8.\<close>

definition default_threshold :: rat where "default_threshold = 3602879701896397 / 4503599627370496"

definition default_workspace :: "string \<Rightarrow> string" where
  "default_workspace home = join_path [home, ''.maven'', ''workspace'']"

definition default_config :: "string \<Rightarrow> config" where
  "default_config home =
     \<lparr>c_agent = \<lparr>ac_workspace = default_workspace home, ac_model = default_model, ac_max_tokens = 8192,
        ac_max_tool_iterations = 20\<rparr>,
      c_channels = \<lparr>
        ch_telegram = \<lparr>tg_enabled = False, tg_token = [], tg_allow_from = [], tg_proxy = [], tg_root_dir = [],
          tg_feedback = [], tg_streaming = False\<rparr>,
        ch_feishu = \<lparr>fs_enabled = False, fs_app_id = [], fs_app_secret = [], fs_verification_token = [],
          fs_encrypt_key = [], fs_port = 0, fs_allow_from = [], fs_proxy = []\<rparr>,
        ch_wecom = \<lparr>wc_enabled = False, wc_token = [], wc_aes_key = [], wc_receive_id = [], wc_port = 0,
          wc_allow_from = [], wc_proxy = []\<rparr>,
        ch_whatsapp = \<lparr>wa_enabled = False, wa_jid = [], wa_store_path = [], wa_allow_from = []\<rparr>,
        ch_matrix = \<lparr>mx_enabled = False, mx_homeserver = [], mx_access_token = [], mx_user_id = [],
          mx_device_id = [], mx_allow_from = [], mx_allow_rooms = []\<rparr>,
        ch_web = \<lparr>wb_enabled = False, wb_allow_from = [], wb_voice_enabled = False\<rparr>\<rparr>,
      c_provider = \<lparr>pc_type = [], pc_api_key = [], pc_base_url = []\<rparr>,
      c_tools = \<lparr>tc_exec_timeout = 60, tc_restrict = True, tc_acp_enabled = False, tc_acp_agents = [],
        tc_task_enabled = False\<rparr>,
      c_skills = \<lparr>sc_enabled = True, sc_dir = []\<rparr>,
      c_mcp_servers = [],
      c_auto_compact = \<lparr>au_enabled = False, au_threshold = default_threshold, au_preserve = 5\<rparr>,
      c_mem_consolidate = \<lparr>mc_enabled = False, mc_interval_hours = 24\<rparr>,
      c_shadow_journal = \<lparr>sj_enabled = False, sj_model = []\<rparr>,
      c_gateway = \<lparr>gc_host = ''0.0.0.0'', gc_port = 18790, gc_hot_reload = False, gc_debounce_ms = 0, gc_max_runs = 0\<rparr>,
      c_speech = \<lparr>sp_stt = [], sp_tts = [], sp_echo_cancel = [], sp_capture_command = [], sp_capture_args = [],
        sp_playback_command = [], sp_playback_args = [], sp_cartesia_key = [], sp_cartesia_voice = [],
        sp_cartesia_model = [], sp_cartesia_version = [], sp_cartesia_proxy = [], sp_eleven_key = [],
        sp_eleven_voice = [], sp_eleven_proxy = [], sp_deepgram_key = [], sp_deepgram_proxy = [],
        sp_openai_key = [], sp_openai_proxy = [], sp_wake_phrase = [], sp_wake_timeout_ms = 0\<rparr>,
      c_log_level = []\<rparr>"

subsection \<open>Speech commands\<close>

definition echo_cancel_disabled :: "speech_config \<Rightarrow> bool" where
  "echo_cancel_disabled s \<longleftrightarrow> equal_fold (trim_space (sp_echo_cancel s)) ''off''"

definition capture_command :: "speech_config \<Rightarrow> string \<times> string list" where
  "capture_command s =
     (let cmd = trim_space (sp_capture_command s) in
      if cmd \<noteq> [] then (cmd, sp_capture_args s)
      else (''parec'', [''--format=s16le'', ''--rate=16000'', ''--channels=1'', ''--latency-msec=50'']))"

definition playback_command :: "speech_config \<Rightarrow> string \<times> string list" where
  "playback_command s =
     (let cmd = trim_space (sp_playback_command s) in
      if cmd \<noteq> [] then (cmd, sp_playback_args s)
      else (''pacat'', [''--format=s16le'', ''--rate=24000'', ''--channels=1'', ''--latency-msec=100'']))"

definition wake_window :: "speech_config \<Rightarrow> duration" where
  "wake_window s =
     (if sp_wake_timeout_ms s \<le> 0 then 8000 * millisecond else wrap64 (sp_wake_timeout_ms s * millisecond))"

subsection \<open>Validation\<close>

datatype log_level = LevelInfo | LevelDebug | LevelWarn | LevelError

datatype config_error =
    ReadConfigErr
  | ParseConfigErr
  | UnknownLogLevel string
  | EchoCancelMode string
  | WakeTimeoutNegative
  | ApiKeyRequired
  | WorkspaceRequired
  | MaxTokensPositive
  | MaxToolIterationsPositive
  | HostRequired
  | PortRange int
  | DebounceNegative
  | MaxRunsNegative
  | TelegramTokenRequired
  | TelegramTokenForm
  | FeishuAppIdRequired
  | FeishuAppSecretRequired
  | WecomTokenRequired
  | WecomKeyRequired
  | WecomKeyLength nat
  | MatrixHomeserverRequired
  | MatrixHomeserverUrl
  | MatrixAccessTokenRequired
  | MatrixUserIdRequired
  | MatrixUserIdForm
  | ThresholdRange
  | PreserveNegative

definition parse_log_level :: "string \<Rightarrow> config_error + log_level" where
  "parse_log_level raw =
     (let l = to_lower (trim_space raw) in
      if l = [] \<or> l = ''info'' then Inr LevelInfo
      else if l = ''debug'' then Inr LevelDebug
      else if l = ''warn'' \<or> l = ''warning'' then Inr LevelWarn
      else if l = ''error'' then Inr LevelError
      else Inl (UnknownLogLevel raw))"

definition unless :: "bool \<Rightarrow> config_error \<Rightarrow> config_error list" where
  "unless ok e = (if ok then [] else [e])"

definition validate_speech :: "speech_config \<Rightarrow> config_error list" where
  "validate_speech s =
     (if to_lower (trim_space (sp_echo_cancel s)) \<notin> {[], ''pulse'', ''off''} then [EchoCancelMode (sp_echo_cancel s)]
      else unless (sp_wake_timeout_ms s \<ge> 0) WakeTimeoutNegative)"

definition validate_logging :: "string \<Rightarrow> config_error list" where
  "validate_logging level =
     (if trim_space level = [] then [] else case parse_log_level level of Inl e \<Rightarrow> [e] | Inr _ \<Rightarrow> [])"

definition validate_provider :: "provider_config \<Rightarrow> config_error list" where
  "validate_provider p = unless (trim_space (pc_api_key p) \<noteq> []) ApiKeyRequired"

definition validate_agent :: "agent_config \<Rightarrow> config_error list" where
  "validate_agent a =
     unless (trim_space (ac_workspace a) \<noteq> []) WorkspaceRequired
     @ unless (ac_max_tokens a > 0) MaxTokensPositive
     @ unless (ac_max_tool_iterations a \<ge> 1) MaxToolIterationsPositive"

definition validate_gateway :: "gateway_config \<Rightarrow> config_error list" where
  "validate_gateway g =
     unless (trim_space (gc_host g) \<noteq> []) HostRequired
     @ unless (1 \<le> gc_port g \<and> gc_port g \<le> 65535) (PortRange (gc_port g))
     @ unless (gc_debounce_ms g \<ge> 0) DebounceNegative
     @ unless (gc_max_runs g \<ge> 0) MaxRunsNegative"

text \<open>The regular expression \<open>^\d+:[A-Za-z0-9_-]+$\<close>.\<close>

definition token_char :: "char \<Rightarrow> bool" where
  "token_char c \<longleftrightarrow> is_digit c \<or> (65 \<le> byte_of c \<and> byte_of c \<le> 90) \<or> (97 \<le> byte_of c \<and> byte_of c \<le> 122)
     \<or> c = CHR ''_'' \<or> c = CHR ''-''"

definition telegram_token_ok :: "string \<Rightarrow> bool" where
  "telegram_token_ok s \<longleftrightarrow>
     takeWhile is_digit s \<noteq> []
     \<and> (case dropWhile is_digit s of [] \<Rightarrow> False | c # r \<Rightarrow> c = CHR '':'' \<and> r \<noteq> [] \<and> list_all token_char r)"

definition validate_telegram :: "telegram_config \<Rightarrow> config_error list" where
  "validate_telegram c =
     (if \<not> tg_enabled c then []
      else let token = trim_space (tg_token c) in
        if token = [] then [TelegramTokenRequired] else unless (telegram_token_ok token) TelegramTokenForm)"

definition validate_feishu :: "feishu_config \<Rightarrow> config_error list" where
  "validate_feishu c =
     (if \<not> fs_enabled c then []
      else if trim_space (fs_app_id c) = [] then [FeishuAppIdRequired]
      else unless (trim_space (fs_app_secret c) \<noteq> []) FeishuAppSecretRequired)"

definition validate_wecom :: "wecom_config \<Rightarrow> config_error list" where
  "validate_wecom c =
     (if \<not> wc_enabled c then []
      else if trim_space (wc_token c) = [] then [WecomTokenRequired]
      else let key = trim_space (wc_aes_key c) in
        if key = [] then [WecomKeyRequired] else unless (length key = 43) (WecomKeyLength (length key)))"

text \<open>\<open>up\<close> is \<open>url.Parse\<close>, reduced to scheme and host.\<close>

definition validate_matrix :: "(string \<Rightarrow> (string \<times> string) option) \<Rightarrow> matrix_config \<Rightarrow> config_error list" where
  "validate_matrix up c =
     (if \<not> mx_enabled c then []
      else let homeserver = trim_space (mx_homeserver c); userID = trim_space (mx_user_id c) in
        if homeserver = [] then [MatrixHomeserverRequired]
        else if (case up homeserver of None \<Rightarrow> True | Some (scheme, host) \<Rightarrow> scheme = [] \<or> host = []) then [MatrixHomeserverUrl]
        else if trim_space (mx_access_token c) = [] then [MatrixAccessTokenRequired]
        else if userID = [] then [MatrixUserIdRequired]
        else unless (prefix ''@'' userID) MatrixUserIdForm)"

definition validate_channels :: "(string \<Rightarrow> (string \<times> string) option) \<Rightarrow> channels_config \<Rightarrow> config_error list" where
  "validate_channels up c =
     validate_telegram (ch_telegram c) @ validate_feishu (ch_feishu c) @ validate_wecom (ch_wecom c)
     @ validate_matrix up (ch_matrix c)"

definition validate_auto_compact :: "auto_compact_config \<Rightarrow> config_error list" where
  "validate_auto_compact c =
     (if \<not> au_enabled c then []
      else unless (0 < au_threshold c \<and> au_threshold c \<le> 1) ThresholdRange
        @ unless (au_preserve c \<ge> 0) PreserveNegative)"

definition validate_config :: "(string \<Rightarrow> (string \<times> string) option) \<Rightarrow> config \<Rightarrow> config_error list" where
  "validate_config up c =
     validate_provider (c_provider c) @ validate_agent (c_agent c) @ validate_gateway (c_gateway c)
     @ validate_channels up (c_channels c) @ validate_auto_compact (c_auto_compact c)
     @ validate_logging (c_log_level c) @ validate_speech (c_speech c)"

subsection \<open>Loading and saving\<close>

type_synonym environ = "string \<Rightarrow> string"

definition config_dir :: "string \<Rightarrow> string" where "config_dir home = join_path [home, ''.maven'']"

definition config_path :: "string \<Rightarrow> environ \<Rightarrow> string" where
  "config_path home env =
     (let p = trim_space (env ''MAVEN_CONFIG'') in
      if p \<noteq> [] then p else join_path [config_dir home, ''config.json''])"

definition set_from_env :: "((string \<Rightarrow> string) \<Rightarrow> 'r \<Rightarrow> 'r) \<Rightarrow> string \<Rightarrow> 'r \<Rightarrow> 'r" where
  "set_from_env upd v r = (let t = trim_space v in if t \<noteq> [] then upd (\<lambda>_. t) r else r)"

definition provider_env :: "environ \<Rightarrow> provider_config \<Rightarrow> provider_config" where
  "provider_env env p =
     set_from_env pc_api_key_update (if pc_type p = ''openai'' then env ''OPENAI_API_KEY'' else env ''ANTHROPIC_API_KEY'') p"

definition speech_env :: "environ \<Rightarrow> speech_config \<Rightarrow> speech_config" where
  "speech_env env s =
     set_from_env sp_cartesia_voice_update (env ''CARTESIA_VOICE_ID'')
     (set_from_env sp_cartesia_key_update (env ''CARTESIA_API_KEY'')
     (set_from_env sp_eleven_voice_update (env ''ELEVENLABS_VOICE_ID'')
     (set_from_env sp_eleven_key_update (env ''ELEVENLABS_API_KEY'')
     (set_from_env sp_deepgram_key_update (env ''DEEPGRAM_API_KEY'')
     (set_from_env sp_openai_key_update (env ''OPENAI_API_KEY'') s)))))"

definition apply_env :: "environ \<Rightarrow> config \<Rightarrow> config" where
  "apply_env env c =
     set_from_env c_log_level_update (env ''MAVEN_LOG_LEVEL'')
       (c\<lparr>c_provider := provider_env env (c_provider c), c_speech := speech_env env (c_speech c)\<rparr>)"

text \<open>The configuration file: it may be missing, unreadable, no JSON at all, or a JSON value.\<close>

datatype config_file = CfgMissing | CfgUnreadable | CfgSyntax | CfgJson json

definition decode_config :: "(string \<Rightarrow> rat option) \<Rightarrow> string \<Rightarrow> config_file \<Rightarrow> config_error + config" where
  "decode_config pf home file =
     (case file of
        CfgMissing \<Rightarrow> Inr (default_config home)
      | CfgUnreadable \<Rightarrow> Inl ReadConfigErr
      | CfgSyntax \<Rightarrow> Inl ParseConfigErr
      | CfgJson j \<Rightarrow> (case dec_struct (config_fields pf) j (default_config home) of
            (c, e) \<Rightarrow> if e then Inl ParseConfigErr else Inr c))"

definition default_if_empty :: "string \<Rightarrow> config \<Rightarrow> config" where
  "default_if_empty home c =
     (if ac_workspace (c_agent c) = [] then c\<lparr>c_agent := (c_agent c)\<lparr>ac_workspace := default_workspace home\<rparr>\<rparr> else c)"

definition load_config ::
  "(string \<Rightarrow> rat option) \<Rightarrow> string \<Rightarrow> environ \<Rightarrow> config_file \<Rightarrow> config_error + config" where
  "load_config pf home env file =
     bind_res (decode_config pf home file) (\<lambda>c. Inr (default_if_empty home (apply_env env c)))"

definition bootstrap_log_level ::
  "(string \<Rightarrow> rat option) \<Rightarrow> string \<Rightarrow> environ \<Rightarrow> config_file \<Rightarrow> config_error + log_level" where
  "bootstrap_log_level pf home env file =
     (let v = trim_space (env ''MAVEN_LOG_LEVEL'') in
      if v \<noteq> [] then parse_log_level v
      else case load_config pf home env file of
          Inl _ \<Rightarrow> Inr LevelInfo
        | Inr c \<Rightarrow> parse_log_level (c_log_level c))"

end
