(* ===== verification/PluginHost.thy ===== *)
theory PluginHost
  imports CronRuns CronCommands ConfigLoad
begin

text \<open>
  \<open>internal/kernel/plugin/registry.go\<close> and \<open>internal/plugins/trigger/cron/{plugin,trigger}.go\<close>: the plugins of the
  gateway, and the cron plugin with the schedulers it makes. A plugin that lacks a capability has \<open>None\<close> there; tools,
  skills, voices and other triggers are handles. The registry is \<open>None\<close> when nil.
\<close>

subsection \<open>The registry\<close>

datatype trigger = CronTrigger | OtherTrigger nat

record plugin =
  pl_name :: string
  pl_channels :: "(config \<Rightarrow> (string \<times> nat) option list) option"
  pl_tools :: "(config \<Rightarrow> nat list) option"
  pl_skills :: "(config \<Rightarrow> nat list) option"
  pl_triggers :: "(config \<Rightarrow> trigger list) option"
  pl_slashes :: "(config \<Rightarrow> (slash_definition \<times> plugin_handler) list) option"
  pl_tts :: "(config \<Rightarrow> nat option) option"
  pl_stt :: "(config \<Rightarrow> nat option) option"
  pl_events :: bool
  pl_journal :: bool
  pl_memory :: bool

type_synonym registry = "plugin list option"

definition find_by_name :: "registry \<Rightarrow> string \<Rightarrow> plugin option" where
  "find_by_name r name = (case r of None \<Rightarrow> None | Some ps \<Rightarrow> find (\<lambda>p. pl_name p = name) ps)"

definition collect :: "(plugin \<Rightarrow> (config \<Rightarrow> 'x list) option) \<Rightarrow> registry \<Rightarrow> config option \<Rightarrow> 'x list" where
  "collect cap r cfg =
     (case (r, cfg) of
        (Some ps, Some c) \<Rightarrow> concat (map (\<lambda>p. case cap p of None \<Rightarrow> [] | Some f \<Rightarrow> f c) ps)
      | _ \<Rightarrow> [])"

definition registry_channels :: "registry \<Rightarrow> config option \<Rightarrow> (string \<times> nat) option list" where
  "registry_channels = collect pl_channels"

definition registry_tools :: "registry \<Rightarrow> config option \<Rightarrow> nat list" where "registry_tools = collect pl_tools"

definition registry_skills :: "registry \<Rightarrow> config option \<Rightarrow> nat list" where "registry_skills = collect pl_skills"

definition registry_triggers :: "registry \<Rightarrow> config option \<Rightarrow> trigger list" where "registry_triggers = collect pl_triggers"

definition registry_slashes :: "registry \<Rightarrow> config option \<Rightarrow> (slash_definition \<times> plugin_handler) list" where
  "registry_slashes = collect pl_slashes"

text \<open>The first provider that some plugin has for the configuration.\<close>

fun first_provider :: "(plugin \<Rightarrow> (config \<Rightarrow> nat option) option) \<Rightarrow> config \<Rightarrow> plugin list \<Rightarrow> nat option" where
  "first_provider cap c [] = None"
| "first_provider cap c (p # ps) =
     (case cap p of None \<Rightarrow> first_provider cap c ps
      | Some f \<Rightarrow> (case f c of Some v \<Rightarrow> Some v | None \<Rightarrow> first_provider cap c ps))"

definition tts_provider :: "registry \<Rightarrow> config option \<Rightarrow> nat option" where
  "tts_provider r cfg = (case (r, cfg) of (Some ps, Some c) \<Rightarrow> first_provider pl_tts c ps | _ \<Rightarrow> None)"

definition stt_provider :: "registry \<Rightarrow> config option \<Rightarrow> nat option" where
  "stt_provider r cfg = (case (r, cfg) of (Some ps, Some c) \<Rightarrow> first_provider pl_stt c ps | _ \<Rightarrow> None)"

text \<open>The plugins that are given the event bus, configured for journaling, or hold memory.\<close>

definition set_event_bus :: "bool \<Rightarrow> registry \<Rightarrow> string list" where
  "set_event_bus hasBus r = (case r of Some ps \<Rightarrow> if hasBus then map pl_name (filter pl_events ps) else [] | None \<Rightarrow> [])"

definition configure_journals :: "registry \<Rightarrow> config option \<Rightarrow> string list" where
  "configure_journals r cfg =
     (case (r, cfg) of (Some ps, Some _) \<Rightarrow> map pl_name (filter pl_journal ps) | _ \<Rightarrow> [])"

definition memory_plugins :: "registry \<Rightarrow> plugin list" where
  "memory_plugins r = (case r of None \<Rightarrow> [] | Some ps \<Rightarrow> filter pl_memory ps)"

text \<open>\<open>Start\<close> and \<open>Stop\<close> go through the plugins and return at the first error: the names called, and the one that
  failed.\<close>

fun call_plugins :: "(string \<Rightarrow> bool) \<Rightarrow> plugin list \<Rightarrow> string list \<times> string option" where
  "call_plugins ok [] = ([], None)"
| "call_plugins ok (p # ps) =
     (if ok (pl_name p) then (case call_plugins ok ps of (called, e) \<Rightarrow> (pl_name p # called, e))
      else ([pl_name p], Some (pl_name p)))"

definition registry_start :: "(string \<Rightarrow> bool) \<Rightarrow> registry \<Rightarrow> string list \<times> string option" where
  "registry_start ok r = (case r of None \<Rightarrow> ([], None) | Some ps \<Rightarrow> call_plugins ok ps)"

definition registry_stop :: "(string \<Rightarrow> bool) \<Rightarrow> registry \<Rightarrow> string list \<times> string option" where
  "registry_stop ok r = (case r of None \<Rightarrow> ([], None) | Some ps \<Rightarrow> call_plugins ok ps)"

lemma call_plugins_prefix:
  "call_plugins ok ps = (called, e) \<Longrightarrow> prefix called (map pl_name ps)
    \<and> (e = None \<longrightarrow> called = map pl_name ps) \<and> (\<forall>n. e = Some n \<longrightarrow> \<not> ok n \<and> called \<noteq> [] \<and> last called = n)"
  by (induction ps arbitrary: called e) (fastforce split: if_splits prod.splits)+

subsection \<open>The cron plugin\<close>

text \<open>All schedulers the plugin has made, the current one, and the job file they share.\<close>

record cron_plugin =
  cp_services :: "cron_state list"
  cp_svc :: "nat option"
  cp_file :: cron_file
  cp_max :: int

definition new_cron_plugin :: "int \<Rightarrow> cron_file \<Rightarrow> cron_plugin" where
  "new_cron_plugin maxConcurrent f = \<lparr>cp_services = [], cp_svc = None, cp_file = f, cp_max = maxConcurrent\<rparr>"

text \<open>An operation of one scheduler, on the file as it is on disk.\<close>

definition on_service :: "nat \<Rightarrow> (cron_state \<Rightarrow> cron_state \<times> 'x) \<Rightarrow> cron_plugin \<Rightarrow> cron_plugin \<times> 'x" where
  "on_service i f p =
     (case f ((cp_services p ! i)\<lparr>cv_file := cp_file p\<rparr>) of
        (s, x) \<Rightarrow> (p\<lparr>cp_services := (cp_services p)[i := s], cp_file := cv_file s\<rparr>, x))"

definition add_service :: "cron_state \<Rightarrow> cron_plugin \<Rightarrow> cron_plugin" where
  "add_service s p = p\<lparr>cp_services := cp_services p @ [s], cp_svc := Some (length (cp_services p)), cp_file := cv_file s\<rparr>"

definition ensure_service :: "bool \<Rightarrow> cron_plugin \<Rightarrow> cron_plugin \<times> cron_error option" where
  "ensure_service hasExec p =
     (case cp_svc p of
        Some _ \<Rightarrow> (p, None)
      | None \<Rightarrow> (case new_service hasExec (cp_max p) (cp_file p) of
            Inl e \<Rightarrow> (p, Some e)
          | Inr s \<Rightarrow> (add_service s p, None)))"

text \<open>\<open>stopLoop\<close>; \<open>None\<close> while it waits for the runs of the scheduler.\<close>

definition stop_loop :: "cron_plugin \<Rightarrow> cron_plugin option" where
  "stop_loop p =
     (case cp_svc p of
        None \<Rightarrow> Some p
      | Some i \<Rightarrow> (case stop_service (cp_services p ! i) of
            None \<Rightarrow> None
          | Some s \<Rightarrow> Some (p\<lparr>cp_services := (cp_services p)[i := s], cp_svc := None\<rparr>)))"

text \<open>\<open>startLoop\<close>; \<open>None\<close> also for the panic of \<open>Start\<close>.\<close>

definition start_loop :: "gronx \<Rightarrow> int \<Rightarrow> atomic_io \<Rightarrow> bool \<Rightarrow> cron_plugin \<Rightarrow> (cron_plugin \<times> cron_error option) option" where
  "start_loop gx now io hasExec p =
     (case stop_loop p of
        None \<Rightarrow> None
      | Some p1 \<Rightarrow> (case new_service hasExec (cp_max p1) (cp_file p1) of
            Inl e \<Rightarrow> Some (p1, Some e)
          | Inr s \<Rightarrow> map_option (\<lambda>s'. (add_service s' p1, None)) (start_service gx now io s)))"

definition current_service :: "cron_plugin \<Rightarrow> cron_state option" where
  "current_service p = map_option (\<lambda>i. (cp_services p ! i)\<lparr>cv_file := cp_file p\<rparr>) (cp_svc p)"

text \<open>\<open>SlashCommands\<close>: the handlers are closed over the scheduler that is current when they are made.\<close>

definition slash_service :: "cron_plugin \<Rightarrow> nat option" where
  "slash_service p = cp_svc p"

definition cron_slash_names :: "nat option \<Rightarrow> string list" where
  "cron_slash_names svc = (case svc of None \<Rightarrow> [] | Some _ \<Rightarrow> [''cron-add'', ''cron-list'', ''jobs'', ''cron-remove''])"

definition handle_cron_add ::
  "nat \<Rightarrow> (string \<Rightarrow> string) \<Rightarrow> (instant \<Rightarrow> string) \<Rightarrow> cron_env \<Rightarrow> invocation \<Rightarrow> cron_plugin
    \<Rightarrow> cron_plugin \<times> (cron_error + plugin_result)" where
  "handle_cron_add i quote rfc3339 env ivc = on_service i (slash_cron_add quote rfc3339 env ivc)"

definition handle_cron_list ::
  "nat \<Rightarrow> (string \<Rightarrow> string) \<Rightarrow> (instant \<Rightarrow> string) \<Rightarrow> cron_plugin \<Rightarrow> plugin_result" where
  "handle_cron_list i quote rfc3339 p = slash_cron_list quote rfc3339 (cp_services p ! i)"

definition handle_cron_remove ::
  "nat \<Rightarrow> (string \<Rightarrow> string) \<Rightarrow> cron_env \<Rightarrow> invocation \<Rightarrow> cron_plugin \<Rightarrow> cron_plugin \<times> (cron_error + plugin_result)" where
  "handle_cron_remove i quote env ivc = on_service i (slash_cron_remove quote env ivc)"

subsection \<open>Slash commands and the scheduler\<close>

text \<open>What \<open>Apply\<close> does to the cron plugin: the triggers are stopped, a scheduler is made for the slash commands,
  and starting the trigger replaces it.\<close>

definition cron_apply :: "gronx \<Rightarrow> int \<Rightarrow> atomic_io \<Rightarrow> cron_plugin \<Rightarrow> (cron_plugin \<times> nat option) option" where
  "cron_apply gx now io p =
     (case stop_loop p of
        None \<Rightarrow> None
      | Some p1 \<Rightarrow> (case ensure_service True p1 of
            (p2, _) \<Rightarrow> map_option (\<lambda>(p3, _). (p3, slash_service p2)) (start_loop gx now io True p2)))"

lemma slash_cron_add_Inr:
  assumes "slash_cron_add quote rfc3339 env ivc s = (s', Inr r)"
  shows "\<exists>job. cv_jobs s' = cv_jobs s @ [job] \<and> cv_file s' = CronFile (map marshal_job (cv_jobs s'))"
proof -
  obtain p job where c: "cron_add env p s = (s', Inr job)"
    using assms by (auto simp: slash_cron_add_def Let_def split: if_splits option.splits prod.splits sum.splits)
  then obtain uuid now io name sch pl where "add_job (ce_gronx env) uuid now io name sch pl s = (s', Inr job)"
    by (auto simp: cron_add_def Let_def split: if_splits sum.splits option.splits)
  then show ?thesis using add_job_Inr by blast
qed

lemma cron_apply_shape:
  assumes "cron_apply gx now io p = Some (p', captured)"
  shows "\<exists>i b. captured = Some i \<and> cp_svc p' = Some b \<and> i < b \<and> b < length (cp_services p')
    \<and> cv_jobs (cp_services p' ! i) = [] \<and> cv_stopped (cp_services p' ! i)
    \<and> start_service gx now io \<lparr>cv_jobs = [], cv_file = cp_file p, cv_cap = nat (lane_size (cp_max p)), cv_wake = False,
        cv_stopped = False, cv_waiting = [], cv_active = [], cv_runs = [], cv_deliveries = []\<rparr> = Some (cp_services p' ! b)"
proof -
  obtain p1 where p1: "stop_loop p = Some p1" using assms by (auto simp: cron_apply_def split: option.splits)
  then have 1: "cp_svc p1 = None" "cp_file p1 = cp_file p" "cp_max p1 = cp_max p"
    by (auto simp: stop_loop_def split: option.splits)
  let ?s = "\<lparr>cv_jobs = [], cv_file = cp_file p, cv_cap = nat (lane_size (cp_max p)), cv_wake = False,
        cv_stopped = False, cv_waiting = [], cv_active = [], cv_runs = [], cv_deliveries = []\<rparr>"
  have n: "new_service True (cp_max p) (cp_file p) = Inr ?s" by (simp add: new_service_def)
  let ?p2 = "add_service ?s p1"
  have 2: "ensure_service True p1 = (?p2, None)" using 1 n by (simp add: ensure_service_def)
  let ?p3 = "?p2\<lparr>cp_services := (cp_services ?p2)[length (cp_services p1) := ?s\<lparr>cv_stopped := True\<rparr>], cp_svc := None\<rparr>"
  have 3: "stop_loop ?p2 = Some ?p3" by (simp add: stop_loop_def stop_service_def add_service_def)
  obtain s' where s': "start_service gx now io ?s = Some s'" "p' = add_service s' ?p3" "captured = Some (length (cp_services p1))"
    using assms p1 2 3 n 1 by (auto simp: cron_apply_def start_loop_def slash_service_def add_service_def)
  then show ?thesis using 1 by (simp add: add_service_def nth_append)
qed

text \<open>After a reload the cron slash commands act on a scheduler that is not running: \<open>/cron-list\<close> says there are no
  jobs whatever the running scheduler has, and a successful \<open>/cron-add\<close> leaves the running scheduler as it was and
  overwrites the shared job file with the new job alone.\<close>

theorem cron_slash_is_stale:
  assumes "cron_apply gx now io p = Some (p', captured)"
  shows "\<exists>i b. captured = Some i \<and> cp_svc p' = Some b \<and> i \<noteq> b
    \<and> pr_output (handle_cron_list i quote rfc3339 p') = ''No cron jobs.''
    \<and> (\<forall>env ivc p2 r. handle_cron_add i quote rfc3339 env ivc p' = (p2, Inr r) \<longrightarrow>
         (\<exists>job. cp_file p2 = CronFile [marshal_job job])
         \<and> cp_svc p2 = Some b \<and> cp_services p2 ! b = cp_services p' ! b)"
proof -
  obtain i b where s: "captured = Some i" "cp_svc p' = Some b" "i < b" "b < length (cp_services p')"
      "cv_jobs (cp_services p' ! i) = []"
    using cron_apply_shape [OF assms] by blast
  have "(\<exists>job. cp_file p2 = CronFile [marshal_job job]) \<and> cp_svc p2 = Some b \<and> cp_services p2 ! b = cp_services p' ! b"
    if "handle_cron_add i quote rfc3339 env ivc p' = (p2, Inr r)" for env ivc p2 r
  proof -
    obtain s' where c: "slash_cron_add quote rfc3339 env ivc ((cp_services p' ! i)\<lparr>cv_file := cp_file p'\<rparr>) = (s', Inr r)"
      and p2: "p2 = p'\<lparr>cp_services := (cp_services p')[i := s'], cp_file := cv_file s'\<rparr>"
      using \<open>handle_cron_add i quote rfc3339 env ivc p' = (p2, Inr r)\<close>
      by (auto simp: handle_cron_add_def on_service_def split: prod.splits)
    from slash_cron_add_Inr [OF c] s(5) have "\<exists>job. cv_file s' = CronFile [marshal_job job]" by auto
    then show ?thesis using p2 s(2,3) by simp
  qed
  moreover have "pr_output (handle_cron_list i quote rfc3339 p') = ''No cron jobs.''"
    using s(5) by (simp add: handle_cron_list_def slash_cron_list_def list_jobs_def format_list_def)
  ultimately show ?thesis using s by blast
qed

definition idle_cron_plugin :: cron_plugin where
  "idle_cron_plugin = new_cron_plugin 1 (CronFile [marshal_job (sample_job ''a'' (EverySched millisecond) 9)])"

theorem cron_slash_is_stale_witness:
  "map_option (\<lambda>(p', captured). (cp_svc p', captured)) (cron_apply plain_gronx 7 AtomicOk idle_cron_plugin) = Some (Some 1, Some 0)
    \<and> map_option (\<lambda>(p', captured). pr_output (handle_cron_list 0 id (\<lambda>_. []) p')) (cron_apply plain_gronx 7 AtomicOk idle_cron_plugin)
      = Some ''No cron jobs.''"
proof -
  have e: "map_option (\<lambda>(p', captured). (cp_svc p', captured)) (cron_apply plain_gronx 7 AtomicOk idle_cron_plugin) = Some (Some 1, Some 0)"
    by code_simp
  then obtain p' where p: "cron_apply plain_gronx 7 AtomicOk idle_cron_plugin = Some (p', Some 0)" "cp_svc p' = Some 1"
    by auto
  then have "pr_output (handle_cron_list 0 id (\<lambda>_. []) p') = ''No cron jobs.''"
    using cron_slash_is_stale [OF p(1), of id "\<lambda>_. []"] by auto
  with e p show ?thesis by simp
qed

text \<open>The running scheduler has the jobs of the file all the same.\<close>

lemma cron_apply_keeps_jobs:
  assumes "cron_apply gx now io p = Some (p', captured)" and "cp_file p = CronFile (map marshal_job js)"
    and "\<forall>j \<in> set js. whole_millis (cj_schedule j)" and "cp_svc p' = Some b"
  shows "map cj_id (cv_jobs (cp_services p' ! b)) = map cj_id js"
proof -
  let ?s = "\<lparr>cv_jobs = [], cv_file = cp_file p, cv_cap = nat (lane_size (cp_max p)), cv_wake = False,
        cv_stopped = False, cv_waiting = [], cv_active = [], cv_runs = [], cv_deliveries = []\<rparr>"
  have "start_service gx now io ?s = Some (cp_services p' ! b)" using cron_apply_shape [OF assms(1)] assms(4) by auto
  then have "map_option cv_jobs (start_service gx now io ?s) = Some (cv_jobs (cp_services p' ! b))" by simp
  then have "cv_jobs (cp_services p' ! b) = map (ensure_next_run gx now) js"
    using assms(2) decode_marshalled [OF assms(3)]
    by (simp add: start_service_def load_jobs_def Let_def split: if_splits)
  then show ?thesis by (simp add: ensure_next_run_def set_next_def o_def split: sum.split)
qed

end
