(* ===== verification/ChannelManager.thy ===== *)
theory ChannelManager
  imports MessageBus
begin

text \<open>
  \<open>internal/kernel/channels/manager\<close>: the channels that are running and their subscriptions on the bus. A channel
  is a handle; what its \<open>Start\<close> answers is an argument. A Go map is the list of its entries in the order a
  loop visits them.
\<close>

subsection \<open>What the manager needs of the bus\<close>

locale subscriber_table =
  fixes subscribe :: "string \<Rightarrow> 'h option \<Rightarrow> 'b \<Rightarrow> 'b"
    and subscriber :: "'b \<Rightarrow> string \<Rightarrow> 'h option"
    and plain :: "string \<Rightarrow> bool"
  assumes subscriber_subscribe: "plain n \<Longrightarrow> subscriber (subscribe n v b) k = (if k = n then v else subscriber b k)"
begin

definition drop_all :: "(string \<times> 'h) list \<Rightarrow> 'b \<Rightarrow> 'b" where
  "drop_all old b = foldl (\<lambda>b p. subscribe (fst p) None b) b old"

definition add_all :: "(string \<times> 'h) list \<Rightarrow> 'b \<Rightarrow> 'b" where
  "add_all new b = foldl (\<lambda>b p. subscribe (fst p) (Some (snd p)) b) b new"

lemma drop_all_look:
  "\<forall>p \<in> set old. plain (fst p) \<Longrightarrow> subscriber (drop_all old b) k = (if k \<in> fst ` set old then None else subscriber b k)"
  by (induction old arbitrary: b) (auto simp: drop_all_def subscriber_subscribe)

lemma add_all_look:
  "\<forall>p \<in> set new. plain (fst p) \<Longrightarrow> distinct (map fst new) \<Longrightarrow>
    subscriber (add_all new b) k = (case map_of new k of None \<Rightarrow> subscriber b k | Some h \<Rightarrow> Some h)"
proof (induction new arbitrary: b)
  case (Cons p new)
  then have "map_of new (fst p) = None" by (auto simp: map_of_eq_None_iff)
  with Cons show ?case by (cases p) (auto simp: add_all_def subscriber_subscribe split: option.split)
qed (simp add: add_all_def)

text \<open>Replacing one set of channels by another rewires the table.\<close>

lemma rewire:
  assumes "\<forall>k. subscriber b k = map_of old k" and "\<forall>p \<in> set old. plain (fst p)"
    and "\<forall>p \<in> set new. plain (fst p)" and "distinct (map fst new)"
  shows "subscriber (add_all new (drop_all old b)) k = map_of new k"
proof (cases "map_of new k")
  case (Some h)
  then show ?thesis using add_all_look [OF assms(3,4)] by simp
next
  case None
  have "map_of old k = None" if "k \<notin> fst ` set old" using that by (simp add: map_of_eq_None_iff)
  then show ?thesis using None add_all_look [OF assms(3,4)] drop_all_look [OF assms(2)] assms(1) by simp
qed

end

definition bus_subscriber :: "'h bus \<Rightarrow> string \<Rightarrow> 'h option" where
  "bus_subscriber b k = map_of (b_subs b) k"

definition plain_name :: "string \<Rightarrow> bool" where "plain_name n \<longleftrightarrow> trim_space n = n"

interpretation subs: subscriber_table set_outbound_subscriber bus_subscriber plain_name
proof
  fix n v and b :: "'h bus" and k
  assume "plain_name n"
  then show "bus_subscriber (set_outbound_subscriber n v b) k = (if k = n then v else bus_subscriber b k)"
    by (cases v) (auto simp: plain_name_def bus_subscriber_def set_outbound_subscriber_def map_put_def map_del_def
        AList.update_conv' AList.delete_conv')
qed

subsection \<open>The manager\<close>

datatype manager_error =
    NilRegistry
  | EmptyChannelName
  | DuplicateChannel string
  | NilConfig
  | InvalidChannels
  | ChannelStart string

datatype channel_event = ChannelStopped nat | ChannelSlashes nat | ChannelStarted nat

record channel_manager =
  cm_channels :: "(string \<times> nat) list"
  cm_slashes :: "slash_definition list"

definition new_manager :: channel_manager where
  "new_manager = \<lparr>cm_channels = [], cm_slashes = []\<rparr>"

definition set_pipeline_slashes :: "slash_definition list \<Rightarrow> channel_manager \<Rightarrow> channel_manager" where
  "set_pipeline_slashes defs m = m\<lparr>cm_slashes := defs\<rparr>"

text \<open>\<open>channelsFromRegistry\<close>; \<open>None\<close> in the list is a nil channel.\<close>

fun collect_channels :: "(string \<times> nat) list \<Rightarrow> (string \<times> nat) option list \<Rightarrow> manager_error + (string \<times> nat) list" where
  "collect_channels out [] = Inr out"
| "collect_channels out (None # chs) = collect_channels out chs"
| "collect_channels out (Some (name, h) # chs) =
     (if name = [] then Inl EmptyChannelName
      else if name \<in> fst ` set out then Inl (DuplicateChannel name)
      else collect_channels (out @ [(name, h)]) chs)"

definition channels_from_registry :: "(string \<times> nat) option list option \<Rightarrow> manager_error + (string \<times> nat) list" where
  "channels_from_registry reg = (case reg of None \<Rightarrow> Inl NilRegistry | Some chs \<Rightarrow> collect_channels [] chs)"

text \<open>\<open>startAll\<close>: every channel is started, the first error is reported.\<close>

definition start_all :: "(nat \<Rightarrow> bool) \<Rightarrow> (string \<times> nat) list \<Rightarrow> channel_event list \<times> manager_error option" where
  "start_all startOk chs =
     (map (\<lambda>p. ChannelStarted (snd p)) chs,
      case filter (\<lambda>p. \<not> startOk (snd p)) chs of [] \<Rightarrow> None | p # _ \<Rightarrow> Some (ChannelStart (fst p)))"

text \<open>\<open>Apply\<close>: \<open>cfg\<close> is \<open>None\<close> for a nil configuration, else whether its channels validate; \<open>takesSlashes\<close> tells which
  channels take the pipeline's slash commands.\<close>

definition manager_apply ::
  "bool option \<Rightarrow> (string \<times> nat) option list option \<Rightarrow> (nat \<Rightarrow> bool) \<Rightarrow> (nat \<Rightarrow> bool) \<Rightarrow> channel_manager \<Rightarrow> nat bus
    \<Rightarrow> channel_manager \<times> nat bus \<times> channel_event list \<times> manager_error option" where
  "manager_apply cfg reg takesSlashes startOk m b =
     (case cfg of
        None \<Rightarrow> (m, b, [], Some NilConfig)
      | Some False \<Rightarrow> (m, b, [], Some InvalidChannels)
      | Some True \<Rightarrow>
          (case channels_from_registry reg of
             Inl e \<Rightarrow> (m, b, [], Some e)
           | Inr nx \<Rightarrow>
               (let old = cm_channels m;
                    b1 = foldl (\<lambda>b p. set_outbound_subscriber (fst p) None b) b old;
                    b2 = foldl (\<lambda>b p. set_outbound_subscriber (fst p) (Some (snd p)) b) b1 nx in
                case start_all startOk nx of (started, e) \<Rightarrow>
                  (m\<lparr>cm_channels := nx\<rparr>, b2,
                   map (\<lambda>p. ChannelStopped (snd p)) old
                   @ map (\<lambda>p. ChannelSlashes (snd p)) (filter (\<lambda>p. takesSlashes (snd p)) nx) @ started, e))))"

definition manager_start_all :: "(nat \<Rightarrow> bool) \<Rightarrow> channel_manager \<Rightarrow> channel_event list \<times> manager_error option" where
  "manager_start_all startOk m = start_all startOk (cm_channels m)"

definition manager_stop_all :: "channel_manager \<Rightarrow> nat bus \<Rightarrow> channel_manager \<times> nat bus \<times> channel_event list" where
  "manager_stop_all m b =
     (m\<lparr>cm_channels := []\<rparr>, foldl (\<lambda>b p. set_outbound_subscriber (fst p) None b) b (cm_channels m),
      map (\<lambda>p. ChannelStopped (snd p)) (cm_channels m))"

definition enabled_channels :: "channel_manager \<Rightarrow> string list" where
  "enabled_channels m = map fst (cm_channels m)"

definition get_channel :: "string \<Rightarrow> channel_manager \<Rightarrow> nat option" where
  "get_channel name m = map_of (cm_channels m) name"

subsection \<open>The bus delivers to the running channels\<close>

definition wired :: "channel_manager \<Rightarrow> nat bus \<Rightarrow> bool" where
  "wired m b \<longleftrightarrow> (\<forall>k. bus_subscriber b k = get_channel k m) \<and> distinct (map fst (cm_channels m))
     \<and> (\<forall>p \<in> set (cm_channels m). plain_name (fst p) \<and> fst p \<noteq> [])"

lemma wired_start: "wired new_manager (new_bus n)"
  by (simp add: wired_def new_manager_def bus_subscriber_def get_channel_def new_bus_def)

lemma collect_channels_ok:
  "collect_channels out chs = Inr r \<Longrightarrow> distinct (map fst out) \<Longrightarrow> \<forall>p \<in> set out. fst p \<noteq> [] \<Longrightarrow>
    distinct (map fst r) \<and> (\<forall>p \<in> set r. fst p \<noteq> [])"
  by (induction out chs rule: collect_channels.induct) (auto split: if_splits)

lemma foldl_table:
  "foldl (\<lambda>b p. set_outbound_subscriber (fst p) None b) b old = subs.drop_all old b"
  "foldl (\<lambda>b p. set_outbound_subscriber (fst p) (Some (snd p)) b) b new = subs.add_all new b"
  by (simp_all add: subs.drop_all_def subs.add_all_def)

lemma apply_cases:
  assumes "manager_apply cfg reg ts ok m b = (m', b', tr, e)"
  shows "(m' = m \<and> b' = b \<and> tr = [] \<and> e \<noteq> None)
    \<or> (\<exists>nx. channels_from_registry reg = Inr nx \<and> cm_channels m' = nx
        \<and> b' = subs.add_all nx (subs.drop_all (cm_channels m) b)
        \<and> tr = map (\<lambda>p. ChannelStopped (snd p)) (cm_channels m)
            @ map (\<lambda>p. ChannelSlashes (snd p)) (filter (\<lambda>p. ts (snd p)) nx) @ map (\<lambda>p. ChannelStarted (snd p)) nx
        \<and> (e = None \<longleftrightarrow> (\<forall>p \<in> set nx. ok (snd p))))"
proof -
  have st: "snd (start_all ok nx) = None \<longleftrightarrow> (\<forall>p \<in> set nx. ok (snd p))" for nx
    by (cases "filter (\<lambda>p. \<not> ok (snd p)) nx") (auto simp: start_all_def filter_empty_conv dest: filter_eq_ConsD)
  show ?thesis
  proof (cases "cfg = Some True \<and> (\<exists>nx. channels_from_registry reg = Inr nx)")
    case False
    with assms show ?thesis
      by (auto simp: manager_apply_def split: option.splits bool.splits sum.splits)
  next
    case True
    then obtain nx where n: "cfg = Some True" "channels_from_registry reg = Inr nx" by blast
    with assms st [of nx] show ?thesis
      by (auto simp: manager_apply_def foldl_table start_all_def Let_def)
  qed
qed

lemma apply_wired:
  assumes "wired m b" and "manager_apply cfg reg ts ok m b = (m', b', tr, e)"
    and "\<forall>nx. channels_from_registry reg = Inr nx \<longrightarrow> (\<forall>p \<in> set nx. plain_name (fst p))"
  shows "wired m' b'"
  using apply_cases [OF assms(2)]
proof (elim disjE exE conjE)
  fix nx
  assume n: "channels_from_registry reg = Inr nx" "cm_channels m' = nx"
    "b' = subs.add_all nx (subs.drop_all (cm_channels m) b)"
  obtain chs where "reg = Some chs" "collect_channels [] chs = Inr nx"
    using n(1) by (auto simp: channels_from_registry_def split: option.splits)
  with collect_channels_ok [of "[]" chs nx] have d: "distinct (map fst nx)" "\<forall>p \<in> set nx. fst p \<noteq> []" by simp_all
  have "\<forall>p \<in> set nx. plain_name (fst p)" using assms(3) n(1) by blast
  moreover from this have "bus_subscriber b' k = map_of nx k" for k
    unfolding n(3) using subs.rewire [of b "cm_channels m" nx k] assms(1) d by (simp add: wired_def get_channel_def)
  ultimately show "wired m' b'" using d n(2) by (simp add: wired_def get_channel_def)
qed (use assms(1) in simp)

text \<open>Whatever a reload does, the bus delivers to the running channels: after \<open>Apply\<close>, failed or not, the
  subscribers of the bus are exactly the channels of the manager, so a message that is dispatched goes to the
  current channel of its name or is dropped; the old channels are stopped before any new one is started;
  and a configuration that is refused changes nothing.\<close>

theorem channels_stay_wired:
  assumes "wired m b" and "manager_apply cfg reg ts ok m b = (m', b', tr, e)"
    and "\<forall>nx. channels_from_registry reg = Inr nx \<longrightarrow> (\<forall>p \<in> set nx. plain_name (fst p))"
  shows "wired m' b'
    \<and> (\<forall>it rest msg h b''. b_outbound b' = it # rest \<and> dispatch_outbound CallbackOk b' = Some b''
        \<and> b_delivered b'' = b_delivered b' @ [(h, msg)] \<longrightarrow> get_channel (om_channel msg) m' = Some h)
    \<and> (\<exists>stops starts. tr = stops @ starts \<and> (\<forall>x \<in> set stops. \<exists>h. x = ChannelStopped h)
        \<and> (\<forall>x \<in> set starts. \<forall>h. x \<noteq> ChannelStopped h))
    \<and> (cfg \<noteq> Some True \<or> is_err (channels_from_registry reg) \<longrightarrow> m' = m \<and> b' = b \<and> tr = [] \<and> e \<noteq> None)"
proof -
  note w = apply_wired [OF assms]
  have "get_channel (om_channel msg) m' = Some h" if "b_outbound b' = it # rest" "dispatch_outbound CallbackOk b' = Some b''"
    "b_delivered b'' = b_delivered b' @ [(h, msg)]" for it rest msg h b''
    using that w by (auto simp: dispatch_outbound_def wired_def bus_subscriber_def Let_def split: bus_item.splits option.splits)
  moreover have "\<exists>stops starts. tr = stops @ starts \<and> (\<forall>x \<in> set stops. \<exists>h. x = ChannelStopped h)
      \<and> (\<forall>x \<in> set starts. \<forall>h. x \<noteq> ChannelStopped h)"
    using apply_cases [OF assms(2)]
  proof (elim disjE exE conjE)
    assume "tr = []"
    then show ?thesis by (intro exI [of _ "[]"]) simp
  next
    fix nx assume "tr = map (\<lambda>p. ChannelStopped (snd p)) (cm_channels m)
        @ map (\<lambda>p. ChannelSlashes (snd p)) (filter (\<lambda>p. ts (snd p)) nx) @ map (\<lambda>p. ChannelStarted (snd p)) nx"
    then show ?thesis by (intro exI conjI) auto
  qed
  moreover have "cfg \<noteq> Some True \<or> is_err (channels_from_registry reg) \<longrightarrow> m' = m \<and> b' = b \<and> tr = [] \<and> e \<noteq> None"
    using assms(2) by (auto simp: manager_apply_def is_err_def split: option.splits bool.splits sum.splits)
  ultimately show ?thesis using w by blast
qed

definition web_channels :: channel_manager where
  "web_channels = \<lparr>cm_channels = [(''web'', 1)], cm_slashes = []\<rparr>"

definition web_bus :: "nat bus" where "web_bus = set_outbound_subscriber ''web'' (Some 1) (new_bus 4)"

theorem channels_stay_wired_witness:
  "wired (fst (manager_apply (Some True) (Some [Some (''web'', 2), None, Some (''tg'', 3)]) (\<lambda>_. True) (\<lambda>h. h \<noteq> 3) web_channels web_bus))
     (fst (snd (manager_apply (Some True) (Some [Some (''web'', 2), None, Some (''tg'', 3)]) (\<lambda>_. True) (\<lambda>h. h \<noteq> 3) web_channels web_bus)))"
proof -
  let ?reg = "Some [Some (''web'', 2), None, Some (''tg'', 3)] :: (string \<times> nat) option list option"
  have t: "plain_name ''web''" "plain_name ''tg''" by (code_simp, code_simp)
  have "channels_from_registry ?reg = Inr [(''web'', 2), (''tg'', 3)]" by code_simp
  then have n: "\<forall>nx. channels_from_registry ?reg = Inr nx \<longrightarrow> (\<forall>p \<in> set nx. plain_name (fst p))" using t by simp
  have e: "bus_subscriber (new_bus 4) k = None" for k by (simp add: bus_subscriber_def new_bus_def)
  have "bus_subscriber web_bus k = get_channel k web_channels" for k
    unfolding web_bus_def get_channel_def web_channels_def
    by (simp only: subs.subscriber_subscribe [OF t(1)] e) simp
  with t(1) have w: "wired web_channels web_bus" by (simp add: wired_def web_channels_def)
  show ?thesis
    using channels_stay_wired [OF w _ n, of "Some True" "\<lambda>_. True" "\<lambda>h. h \<noteq> 3"] by (metis prod.collapse)
qed

lemma stop_all_wired:
  assumes "wired m b" and "manager_stop_all m b = (m', b', tr)"
  shows "wired m' b' \<and> cm_channels m' = []"
proof -
  have b: "b' = subs.drop_all (cm_channels m) b" and m: "cm_channels m' = []"
    using assms(2) by (auto simp: manager_stop_all_def foldl_table)
  have "bus_subscriber b' k = None" for k
  proof (cases "map_of (cm_channels m) k")
    case None
    then show ?thesis using assms(1) unfolding b by (auto simp: wired_def get_channel_def subs.drop_all_look)
  next
    case (Some h)
    then have "k \<in> fst ` set (cm_channels m)" by (metis map_of_eq_None_iff option.distinct(1))
    then show ?thesis using assms(1) unfolding b by (simp add: wired_def subs.drop_all_look)
  qed
  then show ?thesis using m by (simp add: wired_def get_channel_def)
qed

text \<open>A reload whose channels do not all start has replaced and stopped the old ones all the same.\<close>

lemma failed_start_keeps_new_channels:
  assumes "channels_from_registry reg = Inr nx" and "\<exists>p \<in> set nx. \<not> ok (snd p)"
    and "manager_apply (Some True) reg ts ok m b = (m', b', tr, e)"
  shows "e \<noteq> None \<and> cm_channels m' = nx"
  using apply_cases [OF assms(3)] assms(1,2) assms(3)
  by (auto simp: manager_apply_def Let_def start_all_def split: prod.splits)

end
