(* ===== verification/TurnLock.thy ===== *)
theory TurnLock
  imports Pipeline
begin

text \<open>
  \<open>internal/kernel/pipeline\<close>, the turn lock one level down: \<open>turnMu\<close> is a Go \<open>sync.RWMutex\<close>, on which a call of
  \<open>RLock\<close> waits as soon as a writer has called \<open>Lock\<close>. \<open>lock_state\<close> of \<open>Pipeline\<close> is its abstract specification.
  A call may be made from inside a turn that holds the lock: the hook that flushes memory before a
  compaction calls \<open>RunTurn\<close> (\<open>gateway/apply.go\<close>, \<open>wirePostActionHooks\<close>).
\<close>

subsection \<open>The lock\<close>

datatype writer = ReloadWriter nat string | TakeWriter

record turn_lock =
  tl_data :: lock_state
  tl_writer :: "writer option"
  tl_waiting :: "nat list"
  tl_nested :: "(nat \<times> nat) list"

definition new_turn_lock :: "nat option \<Rightarrow> string \<Rightarrow> turn_lock" where
  "new_turn_lock rt ws = \<lparr>tl_data = new_lock rt ws, tl_writer = None, tl_waiting = [], tl_nested = []\<rparr>"

text \<open>\<open>RLock\<close> of call \<open>i\<close>; a call made by a turn is recorded with that turn.\<close>

definition turn_call :: "nat \<Rightarrow> nat option \<Rightarrow> turn_lock \<Rightarrow> turn_lock" where
  "turn_call i parent s =
     (let s1 = s\<lparr>tl_nested := (case parent of None \<Rightarrow> tl_nested s | Some p \<Rightarrow> (i, p) # tl_nested s)\<rparr> in
      if tl_writer s = None then s1\<lparr>tl_data := begin_turn i (tl_data s1)\<rparr>
      else s1\<lparr>tl_waiting := tl_waiting s1 @ [i]\<rparr>)"

text \<open>\<open>RUnlock\<close> of call \<open>i\<close>, which has returned from every call it made.\<close>

definition may_end :: "nat \<Rightarrow> turn_lock \<Rightarrow> bool" where
  "may_end i s \<longleftrightarrow> i \<in> fst ` set (ls_turns (tl_data s)) \<and> i \<notin> snd ` set (tl_nested s)"

definition turn_return :: "nat \<Rightarrow> bool \<Rightarrow> turn_lock \<Rightarrow> turn_lock option" where
  "turn_return i stream s =
     (if may_end i s then
        Some (s\<lparr>tl_data := (if stream then return_stream i (tl_data s) else end_turn i (tl_data s)),
                tl_nested := filter (\<lambda>c. fst c \<noteq> i) (tl_nested s)\<rparr>)
      else None)"

text \<open>\<open>Lock\<close>: a second writer waits for the first. \<open>Unlock\<close> lets every waiting call in.\<close>

definition writer_call :: "writer \<Rightarrow> turn_lock \<Rightarrow> turn_lock option" where
  "writer_call w s = (if tl_writer s = None then Some (s\<lparr>tl_writer := Some w\<rparr>) else None)"

definition write_data :: "writer \<Rightarrow> lock_state \<Rightarrow> lock_state option" where
  "write_data w d = (case w of ReloadWriter new ws \<Rightarrow> reload_runtime True new ws d | TakeWriter \<Rightarrow> take_runtime d)"

definition writer_run :: "turn_lock \<Rightarrow> turn_lock option" where
  "writer_run s =
     (case tl_writer s of
        None \<Rightarrow> None
      | Some w \<Rightarrow>
          (case write_data w (tl_data s) of
             None \<Rightarrow> None
           | Some d \<Rightarrow> Some (s\<lparr>tl_data := foldl (\<lambda>d i. begin_turn i d) d (tl_waiting s), tl_writer := None,
                              tl_waiting := []\<rparr>)))"

definition lock_close :: "turn_lock \<Rightarrow> turn_lock option" where
  "lock_close s = map_option (\<lambda>d. s\<lparr>tl_data := d\<rparr>) (close_old (tl_data s))"

definition fresh_call :: "nat \<Rightarrow> turn_lock \<Rightarrow> bool" where
  "fresh_call i s \<longleftrightarrow> i \<notin> fst ` set (ls_turns (tl_data s)) \<and> i \<notin> set (tl_waiting s)
     \<and> i \<notin> fst ` set (tl_nested s) \<and> i \<notin> snd ` set (tl_nested s)"

text \<open>A runtime is handed to \<open>Reload\<close> once. A turn makes one call at a time.\<close>

inductive turn_step :: "turn_lock \<Rightarrow> turn_lock \<Rightarrow> bool" where
  calls: "fresh_call i s \<Longrightarrow> turn_step s (turn_call i None s)"
| nests: "fresh_call i s \<Longrightarrow> may_end p s \<Longrightarrow> turn_step s (turn_call i (Some p) s)"
| returns: "turn_return i stream s = Some s' \<Longrightarrow> turn_step s s'"
| locks: "\<forall>new ws. w = ReloadWriter new ws \<longrightarrow> new \<notin> set (ls_used (tl_data s)) \<Longrightarrow> writer_call w s = Some s'
    \<Longrightarrow> turn_step s s'"
| writes: "writer_run s = Some s' \<Longrightarrow> turn_step s s'"
| closes: "lock_close s = Some s' \<Longrightarrow> turn_step s s'"

inductive_cases turn_stepE: "turn_step s s'"

inductive turn_steps :: "turn_lock \<Rightarrow> turn_lock \<Rightarrow> bool" where
  turn_refl: "turn_steps s s"
| turn_then: "turn_steps a b \<Longrightarrow> turn_step b c \<Longrightarrow> turn_steps a c"

lemma turn_steps_trans: "turn_steps b c \<Longrightarrow> turn_steps a b \<Longrightarrow> turn_steps a c"
  by (induction rule: turn_steps.induct) (auto intro: turn_then)

lemma lock_steps_trans: "lock_steps b c \<Longrightarrow> lock_steps a b \<Longrightarrow> lock_steps a c"
  by (induction rule: lock_steps.induct) (auto intro: lock_then)

lemma lock_once: "lock_step a b \<Longrightarrow> lock_steps a b"
  by (rule lock_then [OF lock_refl])

subsection \<open>Refinement of the abstract lock\<close>

text \<open>The writer that waits has a runtime no one else has.\<close>

definition writer_inv :: "turn_lock \<Rightarrow> bool" where
  "writer_inv s \<longleftrightarrow> (\<forall>new ws. tl_writer s = Some (ReloadWriter new ws) \<longrightarrow> new \<notin> set (ls_used (tl_data s)))"

lemma used_frames [simp]:
  "ls_used (begin_turn i d) = ls_used d" "ls_used (end_turn i d) = ls_used d" "ls_used (return_stream i d) = ls_used d"
  by (simp_all add: begin_turn_def end_turn_def return_stream_def)

lemma close_old_used: "close_old d = Some d' \<Longrightarrow> ls_used d' = ls_used d"
  by (auto simp: close_old_def split: list.splits)

lemma begin_turns_steps: "lock_steps a d \<Longrightarrow> lock_steps a (foldl (\<lambda>d i. begin_turn i d) d is)"
  by (induction "is" arbitrary: d) (auto intro: lock_then turn_begins)

lemma turn_step_simulated:
  assumes "turn_step s s'" and "writer_inv s"
  shows "lock_steps (tl_data s) (tl_data s') \<and> writer_inv s'"
  using assms
proof (induction rule: turn_step.induct)
  case (calls i s)
  then show ?case
    by (auto simp: turn_call_def writer_inv_def intro: lock_once turn_begins lock_refl)
next
  case (nests i s p)
  then show ?case
    by (auto simp: turn_call_def writer_inv_def Let_def intro: lock_once turn_begins lock_refl)
next
  case (returns i stream s s')
  then have "tl_data s' = (if stream then return_stream i (tl_data s) else end_turn i (tl_data s))" "tl_writer s' = tl_writer s"
    by (auto simp: turn_return_def split: if_splits)
  then show ?case using returns.prems turn_ends stream_returns by (simp add: writer_inv_def lock_once)
next
  case (locks w s s')
  then show ?case by (auto simp: writer_call_def writer_inv_def split: if_splits intro: lock_refl)
next
  case (writes s s')
  then obtain w d where w: "tl_writer s = Some w" "write_data w (tl_data s) = Some d"
    and s': "s' = s\<lparr>tl_data := foldl (\<lambda>d i. begin_turn i d) d (tl_waiting s), tl_writer := None, tl_waiting := []\<rparr>"
    by (auto simp: writer_run_def split: option.splits)
  have "lock_step (tl_data s) d"
    using w writes.prems by (cases w) (auto simp: write_data_def writer_inv_def intro: reloads shuts_down)
  then have "lock_steps (tl_data s) (foldl (\<lambda>d i. begin_turn i d) d (tl_waiting s))"
    by (intro begin_turns_steps) (auto intro: lock_then lock_refl)
  then show ?case using s' by (simp add: writer_inv_def)
next
  case (closes s s')
  then obtain d where d: "close_old (tl_data s) = Some d" "s' = s\<lparr>tl_data := d\<rparr>" by (auto simp: lock_close_def)
  have "lock_steps (tl_data s) d" by (rule lock_once [OF closes_old [OF d(1)]])
  then show ?case using closes.prems d by (simp add: writer_inv_def close_old_used)
qed

lemma turn_steps_simulated:
  "turn_steps s s' \<Longrightarrow> writer_inv s \<Longrightarrow> lock_steps (tl_data s) (tl_data s') \<and> writer_inv s'"
proof (induction rule: turn_steps.induct)
  case (turn_then a b c)
  then show ?case using turn_step_simulated lock_steps_trans by blast
qed (simp add: lock_refl)

lemma new_turn_lock_inv: "writer_inv (new_turn_lock rt ws)"
  by (simp add: new_turn_lock_def writer_inv_def)


subsection \<open>Reloads and nested calls\<close>

text \<open>Every running turn with no call under way.\<close>

definition unnested :: "turn_lock \<Rightarrow> bool" where
  "unnested s \<longleftrightarrow> tl_nested s = []"

lemma return_all:
  assumes "tl_writer s = Some w" and "unnested s"
  shows "\<exists>s'. turn_steps s s' \<and> tl_writer s' = Some w \<and> tl_waiting s' = tl_waiting s \<and> unnested s'
    \<and> ls_turns (tl_data s') = [] \<and> ls_rt (tl_data s') = ls_rt (tl_data s)"
  using assms
proof (induction "length (ls_turns (tl_data s))" arbitrary: s rule: less_induct)
  case less
  show ?case
  proof (cases "ls_turns (tl_data s)")
    case Nil
    then show ?thesis using less.prems turn_refl by blast
  next
    case (Cons t ts)
    let ?s = "s\<lparr>tl_data := end_turn (fst t) (tl_data s), tl_nested := []\<rparr>"
    have "turn_return (fst t) False s = Some ?s"
      using Cons less.prems(2) by (simp add: turn_return_def may_end_def unnested_def)
    then have st: "turn_step s ?s" by (rule returns)
    have "length (ls_turns (tl_data ?s)) < length (ls_turns (tl_data s))"
      using Cons by (simp add: end_turn_def le_imp_less_Suc)
    then obtain s' where "turn_steps ?s s'" "tl_writer s' = Some w" "tl_waiting s' = tl_waiting s" "unnested s'"
        "ls_turns (tl_data s') = []" "ls_rt (tl_data s') = ls_rt (tl_data s)"
      using less.hyps [of ?s] less.prems by (auto simp: unnested_def end_turn_def)
    then show ?thesis using turn_steps_trans turn_then [OF turn_refl st] by blast
  qed
qed

text \<open>C8: a reload gets its turn: when no turn is inside a nested call, a waiting reload runs after the turns that
  hold the lock have returned, whatever calls arrived in the meantime - and those calls then run on the new
  runtime.\<close>

theorem waiting_reload_runs:
  assumes "tl_writer s = Some (ReloadWriter new ws)" and "tl_nested s = []"
  shows "\<exists>s'. turn_steps s s' \<and> tl_writer s' = None \<and> ls_rt (tl_data s') = Some new
    \<and> tl_waiting s' = [] \<and> fst ` set (ls_turns (tl_data s')) = set (tl_waiting s)
    \<and> (\<forall>t \<in> set (ls_turns (tl_data s')). snd t = Some new)"
proof -
  obtain s1 where 1: "turn_steps s s1" "tl_writer s1 = Some (ReloadWriter new ws)" "tl_waiting s1 = tl_waiting s"
      "ls_turns (tl_data s1) = []"
    using return_all assms by (metis unnested_def)
  let ?d = "(swap_runtime (Some new) (tl_data s1))\<lparr>ls_workspace := ws\<rparr>"
  let ?s2 = "s1\<lparr>tl_data := foldl (\<lambda>d i. begin_turn i d) ?d (tl_waiting s1), tl_writer := None, tl_waiting := []\<rparr>"
  have "writer_run s1 = Some ?s2"
    using 1 by (simp add: writer_run_def write_data_def reload_runtime_def)
  then have "turn_steps s ?s2" by (rule turn_then [OF 1(1) writes])
  moreover have b: "ls_rt (foldl (\<lambda>d i. begin_turn i d) d is) = ls_rt d
      \<and> set (ls_turns (foldl (\<lambda>d i. begin_turn i d) d is)) = set (ls_turns d) \<union> (\<lambda>i. (i, ls_rt d)) ` set is" for d :: lock_state and "is"
    by (induction "is" arbitrary: d) (auto simp: begin_turn_def)
  ultimately show ?thesis
    using 1 b [of ?d "tl_waiting s"] by (intro exI [of _ ?s2]) (auto simp: swap_runtime_def image_image)
qed

text \<open>A turn that calls \<open>RunTurn\<close> after a reload has called \<open>Lock\<close> waits for the reload, which waits for the turn:
  nothing that happens afterwards lets either go on.\<close>

definition deadlocked :: "nat \<Rightarrow> nat \<Rightarrow> turn_lock \<Rightarrow> bool" where
  "deadlocked p c s \<longleftrightarrow> tl_writer s \<noteq> None \<and> p \<in> fst ` set (ls_turns (tl_data s)) \<and> c \<in> set (tl_waiting s)
     \<and> (c, p) \<in> set (tl_nested s) \<and> c \<notin> fst ` set (ls_turns (tl_data s))"

lemma deadlocked_step: "turn_step s s' \<Longrightarrow> deadlocked p c s \<Longrightarrow> deadlocked p c s'"
proof (induction rule: turn_step.induct)
  case (returns i stream s s')
  then have "i \<noteq> p" "i \<noteq> c" by (force simp: turn_return_def may_end_def deadlocked_def split: if_splits)+
  with returns show ?case
    by (fastforce simp: turn_return_def deadlocked_def return_stream_def end_turn_def split: if_splits)
next
  case (writes s s')
  then have "ls_turns (tl_data s) \<noteq> []" by (auto simp: deadlocked_def)
  then have "writer_run s = None"
    by (auto simp: writer_run_def write_data_def reload_runtime_def take_runtime_def split: option.split writer.split)
  with writes show ?case by simp
next
  case (closes s s')
  then show ?case by (auto simp: lock_close_def close_old_def deadlocked_def split: list.splits)
qed (auto simp: deadlocked_def turn_call_def writer_call_def begin_turn_def Let_def split: if_splits option.splits)

lemma deadlocked_forever: "turn_steps s s' \<Longrightarrow> deadlocked p c s \<Longrightarrow> deadlocked p c s'"
  by (induction rule: turn_steps.induct) (auto dest: deadlocked_step)

text \<open>C9: compaction and reload deadlock: a reload that calls \<open>Lock\<close> while a compacting turn runs, and the turn's
  memory flush, which then calls \<open>RunTurn\<close>, wait for each other for ever: from a reachable state no
  continuation ends the turn, runs the reload or lets any later turn start.\<close>

theorem compaction_deadlocks_reload:
  "\<exists>s. turn_steps (new_turn_lock (Some 1) ws) s \<and> (7, Some 1) \<in> set (ls_turns (tl_data s))
     \<and> (\<forall>s'. turn_steps s s' \<longrightarrow> tl_writer s' \<noteq> None \<and> 7 \<in> fst ` set (ls_turns (tl_data s')) \<and> 8 \<in> set (tl_waiting s')
          \<and> (\<forall>i. turn_call i None s' = s'\<lparr>tl_waiting := tl_waiting s' @ [i]\<rparr>))"
proof -
  let ?s0 = "new_turn_lock (Some 1) ws"
  let ?s1 = "turn_call 7 None ?s0"
  let ?s2 = "?s1\<lparr>tl_writer := Some (ReloadWriter 2 ws)\<rparr>"
  let ?s3 = "turn_call 8 (Some 7) ?s2"
  have 1: "turn_step ?s0 ?s1" by (rule calls) (simp add: fresh_call_def new_turn_lock_def new_lock_def)
  have 2: "turn_step ?s1 ?s2"
    by (rule locks [of "ReloadWriter 2 ws"])
      (simp_all add: writer_call_def turn_call_def new_turn_lock_def new_lock_def begin_turn_def)
  have 3: "turn_step ?s2 ?s3"
    by (rule nests) (simp_all add: fresh_call_def may_end_def turn_call_def new_turn_lock_def new_lock_def begin_turn_def)
  have r: "turn_steps ?s0 ?s3" by (rule turn_then [OF turn_then [OF turn_then [OF turn_refl 1] 2] 3])
  have d: "deadlocked 7 8 ?s3" and t: "(7, Some 1) \<in> set (ls_turns (tl_data ?s3))"
    by (simp_all add: deadlocked_def turn_call_def new_turn_lock_def new_lock_def begin_turn_def)
  have "tl_writer s' \<noteq> None \<and> 7 \<in> fst ` set (ls_turns (tl_data s')) \<and> 8 \<in> set (tl_waiting s')
      \<and> (\<forall>i. turn_call i None s' = s'\<lparr>tl_waiting := tl_waiting s' @ [i]\<rparr>)" if "turn_steps ?s3 s'" for s'
    using deadlocked_forever [OF that d] by (auto simp: deadlocked_def turn_call_def)
  with r t show ?thesis by blast
qed

theorem compaction_deadlocks_reload_witness:
  "\<exists>s. turn_steps (new_turn_lock (Some 1) ''/w'') s \<and> tl_writer s \<noteq> None \<and> 8 \<in> set (tl_waiting s)"
  using compaction_deadlocks_reload [of "''/w''"] turn_refl by blast


definition reloading_lock :: turn_lock where
  "reloading_lock = turn_call 8 None ((turn_call 7 None (new_turn_lock (Some 1) ''/w''))\<lparr>tl_writer := Some (ReloadWriter 2 ''/w'')\<rparr>)"

theorem waiting_reload_runs_witness:
  "\<exists>s'. turn_steps reloading_lock s' \<and> set (ls_turns (tl_data s')) = {(8, Some 2)}"
proof -
  have r: "tl_writer reloading_lock = Some (ReloadWriter 2 ''/w'')" "tl_nested reloading_lock = []" "tl_waiting reloading_lock = [8]"
    by (code_simp, code_simp, code_simp)
  obtain s' where s: "turn_steps reloading_lock s'" "fst ` set (ls_turns (tl_data s')) = set (tl_waiting reloading_lock)"
      "\<forall>t \<in> set (ls_turns (tl_data s')). snd t = Some 2"
    using waiting_reload_runs [OF r(1,2)] by blast
  then have f: "fst ` set (ls_turns (tl_data s')) = {8}" using r(3) by simp
  then obtain t where "t \<in> set (ls_turns (tl_data s'))" "fst t = 8" by blast
  moreover have "t = (8, Some 2)" if "t \<in> set (ls_turns (tl_data s'))" for t
    using f s(3) that by (cases t) (metis fst_conv imageI singletonD snd_conv)
  ultimately have "set (ls_turns (tl_data s')) = {(8, Some 2)}" by blast
  with s(1) show ?thesis by blast
qed

end
