(* ===== verification/Journal.thy ===== *)
theory Journal
  imports PostAction "HOL-Library.Multiset"
begin

text \<open>
  The memory directory of the workspace: \<open>MEMORY.md\<close> and the daily journals \<open>YYYY-MM-DD.md\<close>, as
  \<open>internal/kernel/memory/memory.go\<close> (\<open>MemoryStore\<close>), \<open>internal/plugins/memory/file/tool.go\<close> (the tools
  \<open>remember\<close>, \<open>memory_search\<close>, \<open>memory_get\<close> and the slash command \<open>memory\<close>) and
  \<open>internal/plugins/trigger/memconsolidate\<close> (the prompt of a consolidation pass) use it. The directory is a
  value; the clock is the local date and the time of day.
\<close>

subsection \<open>Dates\<close>

text \<open>The layout \<open>2006-01-02\<close> of \<open>time.Parse\<close> and \<open>Time.Format\<close>: year, month, day.\<close>

type_synonym date = "nat \<times> nat \<times> nat"

definition leap_year :: "nat \<Rightarrow> bool" where
  "leap_year y \<longleftrightarrow> y mod 4 = 0 \<and> (y mod 100 \<noteq> 0 \<or> y mod 400 = 0)"

definition days_in :: "nat \<Rightarrow> nat \<Rightarrow> nat" where
  "days_in m y = (if m = 2 then (if leap_year y then 29 else 28) else if m \<in> {4, 6, 9, 11} then 30 else 31)"

definition valid_date :: "date \<Rightarrow> bool" where
  "valid_date dt = (case dt of (y, m, d) \<Rightarrow> y \<le> 9999 \<and> 1 \<le> m \<and> m \<le> 12 \<and> 1 \<le> d \<and> d \<le> days_in m y)"

definition pad_nat :: "nat \<Rightarrow> nat \<Rightarrow> string" where
  "pad_nat w n = replicate (w - length (show_nat n)) (CHR ''0'') @ show_nat n"

definition format_date :: "date \<Rightarrow> string" where
  "format_date dt = (case dt of (y, m, d) \<Rightarrow> pad_nat 4 y @ ''-'' @ pad_nat 2 m @ ''-'' @ pad_nat 2 d)"

definition parse_date :: "string \<Rightarrow> date option" where
  "parse_date s =
     (if length s = 10 \<and> s ! 4 = CHR ''-'' \<and> s ! 7 = CHR ''-'' then
        (case (digits_val 0 (take 4 s), digits_val 0 (take 2 (drop 5 s)), digits_val 0 (drop 8 s)) of
           (Some y, Some m, Some d) \<Rightarrow> if valid_date (y, m, d) then Some (y, m, d) else None
         | _ \<Rightarrow> None)
      else None)"

text \<open>\<open>AddDate\<close> by whole days, back in time.\<close>

definition prev_day :: "date \<Rightarrow> date" where
  "prev_day dt = (case dt of (y, m, d) \<Rightarrow>
     if 1 < d then (y, m, d - 1) else if 1 < m then (y, m - 1, days_in (m - 1) y) else (y - 1, 12, 31))"

text \<open>Leap years up to year \<open>k\<close>; days since the first of January of the year 1.\<close>

definition leaps :: "int \<Rightarrow> int" where "leaps k = k div 4 - k div 100 + k div 400"

definition day_number :: "date \<Rightarrow> int" where
  "day_number dt = (case dt of (y, m, d) \<Rightarrow>
     365 * (int y - 1) + leaps (int y - 1) + int (sum_list (map (\<lambda>k. days_in k y) [1..<m])) + int d - 1)"

text \<open>\<open>time.Now\<close>: the local date, the nanoseconds since local midnight and the offset of the zone.\<close>

record wall_clock =
  wc_date :: date
  wc_nanos :: int
  wc_offset :: int

definition day_nanos :: int where "day_nanos = 86400000000000"

text \<open>The instant of UTC midnight of a date, and of the same time of day \<open>n\<close> days ago, counted from year 1.\<close>

definition utc_midnight :: "date \<Rightarrow> int" where "utc_midnight dt = day_number dt * day_nanos"

definition days_ago :: "nat \<Rightarrow> wall_clock \<Rightarrow> int" where
  "days_ago n ck = (day_number (wc_date ck) - int n) * day_nanos + wc_nanos ck - wc_offset ck"

subsection \<open>The directory\<close>

datatype mem_file = MemText string | MemUnreadable

text \<open>The entries of \<open>os.ReadDir\<close> by name.\<close>

datatype mem_dir = DirMissing | DirFails | DirFiles "(string \<times> mem_file) list"

datatype read_result = ReadData string | ReadMissing | ReadFails

definition read_mem :: "mem_dir \<Rightarrow> string \<Rightarrow> read_result" where
  "read_mem d name = (case d of
       DirMissing \<Rightarrow> ReadMissing
     | DirFails \<Rightarrow> ReadFails
     | DirFiles fs \<Rightarrow> (case map_of fs name of
           None \<Rightarrow> ReadMissing | Some MemUnreadable \<Rightarrow> ReadFails | Some (MemText s) \<Rightarrow> ReadData s))"

definition memory_md :: string where "memory_md = ''MEMORY.md''"

definition ellipsis :: string where "ellipsis = [CHR 0xE2, CHR 0x80, CHR 0xA6]"

text \<open>How a write goes: after \<open>MkdirAll\<close> and the open, \<open>n\<close> bytes are written before an error.\<close>

datatype mem_io = MemWritten | MemMkdirErr | MemOpenErr | MemWriteErr nat

definition put_mem :: "string \<Rightarrow> string \<Rightarrow> mem_dir \<Rightarrow> mem_dir" where
  "put_mem name s d = (case d of DirFiles fs \<Rightarrow> DirFiles (map_put name (MemText s) fs) | _ \<Rightarrow> DirFiles [(name, MemText s)])"

definition mkdir_mem :: "mem_dir \<Rightarrow> mem_dir" where
  "mkdir_mem d = (if d = DirMissing then DirFiles [] else d)"

text \<open>Write \<open>s\<close> after what \<open>keep\<close> leaves of the file: the state and whether it worked.\<close>

definition write_mem :: "mem_io \<Rightarrow> string \<Rightarrow> string \<Rightarrow> string \<Rightarrow> mem_dir \<Rightarrow> mem_dir \<times> bool" where
  "write_mem io name old s d = (case io of
       MemWritten \<Rightarrow> (put_mem name (old @ s) d, True)
     | MemMkdirErr \<Rightarrow> (d, False)
     | MemOpenErr \<Rightarrow> (mkdir_mem d, False)
     | MemWriteErr n \<Rightarrow> (put_mem name (old @ take n s) d, False))"

definition file_text :: "mem_dir \<Rightarrow> string \<Rightarrow> string" where
  "file_text d name = (case read_mem d name of ReadData s \<Rightarrow> s | _ \<Rightarrow> [])"

text \<open>\<open>os.ReadDir\<close>: the entries sorted by name.\<close>

definition read_dir :: "mem_dir \<Rightarrow> bool + (string \<times> mem_file) list" where
  "read_dir d = (case d of DirMissing \<Rightarrow> Inl True | DirFails \<Rightarrow> Inl False | DirFiles fs \<Rightarrow> Inr (sort_key fst fs))"

subsection \<open>\<open>MemoryStore\<close>\<close>

datatype mem_error = MemReadErr | MemWriteFailed

definition read_long_term :: "mem_dir \<Rightarrow> mem_error + string" where
  "read_long_term d = (case read_mem d memory_md of ReadData s \<Rightarrow> Inr s | ReadMissing \<Rightarrow> Inr [] | ReadFails \<Rightarrow> Inl MemReadErr)"

definition write_long_term :: "mem_io \<Rightarrow> string \<Rightarrow> mem_dir \<Rightarrow> mem_dir \<times> mem_error option" where
  "write_long_term io content d =
     (case write_mem io memory_md [] content d of (d', ok) \<Rightarrow> (d', if ok then None else Some MemWriteFailed))"

definition is_note :: "string \<Rightarrow> bool" where
  "is_note name \<longleftrightarrow> suffix ''.md'' name \<and> name \<noteq> memory_md"

text \<open>One section per file that can be read and is not blank.\<close>

definition note_section :: "string \<Rightarrow> mem_dir \<Rightarrow> (string \<Rightarrow> string) \<Rightarrow> string \<Rightarrow> string" where
  "note_section heading d cutTo name =
     (case read_mem d name of
        ReadData s \<Rightarrow>
          (let content = trim_space s in
           if content = [] then [] else heading @ trim_suffix name ''.md'' @ [newline] @ cutTo content @ [newline, newline])
      | _ \<Rightarrow> [])"

definition recent_memories :: "nat \<Rightarrow> mem_dir \<Rightarrow> mem_error + string" where
  "recent_memories limit d =
     (case read_dir d of
        Inl True \<Rightarrow> Inr []
      | Inl False \<Rightarrow> Inl MemReadErr
      | Inr es \<Rightarrow>
          (let dateFiles = rev (sort (filter is_note (map fst es)));
               kept = (if 0 < limit \<and> limit < length dateFiles then take limit dateFiles else dateFiles) in
           Inr (concat (map (note_section ''## '' d id) kept))))"

definition memory_context :: "mem_dir \<Rightarrow> string" where
  "memory_context d =
     (case read_long_term d of
        Inr t \<Rightarrow> if trim_space t \<noteq> [] then ''# Long-term Memory'' @ [newline] @ t @ [newline, newline] else []
      | Inl _ \<Rightarrow> []) @
     (case recent_memories 7 d of
        Inr t \<Rightarrow> if trim_space t \<noteq> [] then ''# Recent Journal'' @ [newline] @ t @ [newline] else []
      | Inl _ \<Rightarrow> [])"

subsection \<open>The tools of the memory plugin\<close>

definition truncate_chars :: "string \<Rightarrow> nat \<Rightarrow> string" where
  "truncate_chars s maxChars =
     (if rune_count s \<le> maxChars then s else of_runes (take maxChars (runes s)) @ ellipsis)"

definition truncate_snippet :: "string \<Rightarrow> nat \<Rightarrow> string" where
  "truncate_snippet s0 maxChars =
     (let s = trim_space s0 in
      if rune_count s \<le> maxChars then s else of_runes (take maxChars (runes s)) @ ellipsis)"

definition memory_param :: "(any \<Rightarrow> string) \<Rightarrow> metadata \<Rightarrow> string \<Rightarrow> string" where
  "memory_param sprint m key = (case map_of m key of
       None \<Rightarrow> []
     | Some AnyNil \<Rightarrow> []
     | Some (AnyStr s) \<Rightarrow> trim_space s
     | Some v \<Rightarrow> trim_space (sprint v))"

definition memory_int_param :: "metadata \<Rightarrow> string \<Rightarrow> int \<Rightarrow> int" where
  "memory_int_param m key dflt = (case map_of m key of
       Some (AnyInt n) \<Rightarrow> n
     | Some (AnyInt64 n) \<Rightarrow> n
     | Some (AnyFloat x) \<Rightarrow> float_to_int x
     | _ \<Rightarrow> dflt)"

datatype memory_error = ContentRequired | QueryRequired | DateRequired | InvalidDate string | MemoryIo

definition journal_date :: "string \<Rightarrow> string option" where
  "journal_date name =
     (let base = trim_suffix name ''.md'' in
      if length base < 10 then None
      else map_option (\<lambda>_. take 10 base) (parse_date (take 10 base)))"

definition is_journal :: "string \<Rightarrow> bool" where
  "is_journal name \<longleftrightarrow> is_note name \<and> journal_date name \<noteq> None"

definition resolve_journal_date :: "wall_clock \<Rightarrow> string \<Rightarrow> memory_error + string" where
  "resolve_journal_date ck raw =
     (if to_lower raw = ''today'' then Inr (format_date (wc_date ck))
      else if to_lower raw = ''yesterday'' then Inr (format_date (prev_day (wc_date ck)))
      else if parse_date raw = None then Inl (InvalidDate raw)
      else Inr raw)"

definition remember :: "(any \<Rightarrow> string) \<Rightarrow> wall_clock \<Rightarrow> mem_io \<Rightarrow> metadata \<Rightarrow> mem_dir \<Rightarrow> mem_dir \<times> (memory_error + string)" where
  "remember sprint ck io params d =
     (let content = trim_space (memory_param sprint params ''content'') in
      if content = [] then (d, Inl ContentRequired)
      else let name = format_date (wc_date ck) @ ''.md'' in
        (case write_mem io name (file_text d name) (content @ [newline]) d of
           (d', ok) \<Rightarrow> (d', if ok then Inr ''Remembered.'' else Inl MemoryIo)))"

definition search_limit :: "metadata \<Rightarrow> nat" where
  "search_limit params = (let limit = memory_int_param params ''limit'' 5 in if limit \<le> 0 then 5 else nat limit)"

text \<open>The files that hold the query, with their dates.\<close>

definition search_matches :: "mem_dir \<Rightarrow> string \<Rightarrow> (string \<times> mem_file) list \<Rightarrow> (string \<times> string) list" where
  "search_matches d query es =
     concat (map (\<lambda>name.
       if is_journal name then
         (case (journal_date name, read_mem d name) of
            (Some date, ReadData content) \<Rightarrow>
              (if contains (to_lower content) (to_lower query) then [(date, truncate_snippet content 500)] else [])
          | _ \<Rightarrow> [])
       else []) (map fst es))"

text \<open>Newest first; files of the same date in the order of \<open>order\<close>, which \<open>sort.Slice\<close> leaves open.\<close>

definition newest_first :: "(string \<times> string) list \<Rightarrow> (string \<times> string) list" where
  "newest_first ms = rev (sort_key fst (rev ms))"

definition memory_search ::
  "(any \<Rightarrow> string) \<Rightarrow> (string \<Rightarrow> string) \<Rightarrow> ((string \<times> string) list \<Rightarrow> (string \<times> string) list) \<Rightarrow> metadata \<Rightarrow> mem_dir
    \<Rightarrow> memory_error + string" where
  "memory_search sprint quote order params d =
     (let query = trim_space (memory_param sprint params ''query'') in
      if query = [] then Inl QueryRequired
      else case read_dir d of
          Inl True \<Rightarrow> Inr ''No memory journal files found.''
        | Inl False \<Rightarrow> Inl MemoryIo
        | Inr es \<Rightarrow>
            (let found = take (search_limit params) (newest_first (order (search_matches d query es))) in
             if found = [] then Inr (''No journal entries matching '' @ quote query @ ''.'')
             else Inr (trim_space (concat (map (\<lambda>(date, snippet). ''## '' @ date @ [newline] @ snippet @ [newline, newline]) found)))))"

definition memory_get :: "(any \<Rightarrow> string) \<Rightarrow> wall_clock \<Rightarrow> metadata \<Rightarrow> mem_dir \<Rightarrow> memory_error + string" where
  "memory_get sprint ck params d =
     (let dateRaw = trim_space (memory_param sprint params ''date'') in
      if dateRaw = [] then Inl DateRequired
      else case resolve_journal_date ck dateRaw of
          Inl e \<Rightarrow> Inl e
        | Inr date \<Rightarrow>
            (case read_mem d (date @ ''.md'') of
               ReadMissing \<Rightarrow> Inr (''No journal entry for '' @ date @ ''.'')
             | ReadFails \<Rightarrow> Inl MemoryIo
             | ReadData s \<Rightarrow>
                 (let content = trim_space s in
                  if content = [] then Inr (''No journal entry for '' @ date @ ''.'')
                  else Inr (''## '' @ date @ [newline] @ content))))"

definition slash_memory :: "bool \<Rightarrow> mem_dir \<Rightarrow> memory_error + string" where
  "slash_memory hasConfig d =
     (if \<not> hasConfig then Inr ''No config.''
      else case read_mem d memory_md of
          ReadMissing \<Rightarrow> Inr ''No long-term memory yet.''
        | ReadFails \<Rightarrow> Inl MemoryIo
        | ReadData s \<Rightarrow>
            (let content = trim_space s in
             if content = [] then Inr ''No long-term memory yet.''
             else Inr (encode_rune 128218 @ '' Long-term memory:'' @ [newline, newline] @ content)))"

subsection \<open>The consolidation prompt\<close>

definition in_review :: "wall_clock \<Rightarrow> string \<Rightarrow> bool" where
  "in_review ck name \<longleftrightarrow> is_note name \<and>
     (let base = trim_suffix name ''.md'' in
      10 \<le> length base \<and>
      (case parse_date (take 10 base) of None \<Rightarrow> False | Some t \<Rightarrow> \<not> utc_midnight t < days_ago 7 ck))"

definition consolidate_head :: string where
  "consolidate_head = ''You are performing a memory consolidation pass.'' @ [newline, newline]
     @ ''Your current long-term memory (MEMORY.md) is already in your context above.'' @ [newline, newline]
     @ ''Recent journal entries:'' @ [newline]"

definition em_dash :: string where "em_dash = [CHR 0xE2, CHR 0x80, CHR 0x94]"

definition consolidate_tail :: string where
  "consolidate_tail = [newline, newline]
     @ ''Review these entries. Identify facts, preferences, decisions, or recurring context that belong in long-term memory and are not already captured in MEMORY.md.''
     @ [newline, newline]
     @ ''Update memory/MEMORY.md to add or refine long-term facts. Rewrite the whole file. Be conservative '' @ em_dash
     @ '' only include what clearly should persist indefinitely. If nothing new warrants promotion, leave the file unchanged.''
     @ [newline, newline] @ ''Do not reply with any text.''"

text \<open>The empty prompt, or an error, skips the pass.\<close>

definition consolidate_prompt :: "wall_clock \<Rightarrow> mem_dir \<Rightarrow> mem_error + string" where
  "consolidate_prompt ck d =
     (case read_dir d of
        Inl True \<Rightarrow> Inr []
      | Inl False \<Rightarrow> Inl MemReadErr
      | Inr es \<Rightarrow>
          (let files = rev (sort (filter (in_review ck) (map fst es))) in
           if files = [] then Inr []
           else let journal = trim_space (concat (map (note_section ''### '' d (\<lambda>s. truncate_chars s 4000)) files)) in
             if journal = [] then Inr [] else Inr (consolidate_head @ journal @ consolidate_tail)))"

subsection \<open>Dates, correct\<close>

lemma digits_zeros: "digits_val 0 (replicate k (CHR ''0'') @ s) = digits_val 0 s"
  by (induction k) (simp_all add: is_digit_def byte_of_def)

lemma length_show_nat: "n < 10 ^ k \<Longrightarrow> 0 < k \<Longrightarrow> length (show_nat n) \<le> k"
proof (induction k arbitrary: n)
  case (Suc k)
  show ?case
  proof (cases "n < 10")
    case False
    then have "n div 10 < 10 ^ k" "0 < k" using Suc.prems by (cases k; auto)+
    then have "length (show_nat (n div 10)) \<le> k" by (rule Suc.IH)
    with False show ?thesis by (simp add: show_nat.simps [of n])
  qed (simp add: show_nat.simps [of n])
qed simp

lemma pad_nat: "n < 10 ^ w \<Longrightarrow> 0 < w \<Longrightarrow> length (pad_nat w n) = w \<and> digits_val 0 (pad_nat w n) = Some n"
  using length_show_nat [of n w] by (simp add: pad_nat_def digits_zeros digits_val_show_nat)

lemma digits_inj:
  "length s = length t \<Longrightarrow> digits_val a s = Some v \<Longrightarrow> digits_val b t = Some v \<Longrightarrow> a = b \<and> s = t"
proof (induction s t arbitrary: a b rule: list_induct2)
  case (Cons c s e t)
  have d: "is_digit c" "is_digit e" using Cons.prems by (auto split: if_splits)
  then have e: "a * 10 + (byte_of c - 48) = b * 10 + (byte_of e - 48)" "s = t" using Cons by simp_all
  have l: "48 \<le> byte_of c" "byte_of c \<le> 57" "48 \<le> byte_of e" "byte_of e \<le> 57" using d by (simp_all add: is_digit_def)
  then have "byte_of c - 48 < 10" "byte_of e - 48 < 10" by simp_all
  with arg_cong [OF e(1), of "\<lambda>n. n div 10"] have ab: "a = b" by simp
  with e(1) have "byte_of c - 48 = byte_of e - 48" by simp
  then have "byte_of c = byte_of e" using l(1,3) by (simp add: eq_diff_iff)
  with ab e(2) show ?case using byte_of_inj by simp
qed simp

lemma days_in_le: "days_in m y \<le> 31"
  by (simp add: days_in_def)

lemma valid_dateD:
  "valid_date (y, m, d) \<Longrightarrow> y < 10 ^ 4 \<and> m < 10 ^ 2 \<and> d < 10 ^ 2 \<and> 1 \<le> m \<and> m \<le> 12 \<and> 1 \<le> d \<and> d \<le> days_in m y"
  using days_in_le [of m y] by (simp add: valid_date_def)

lemma format_date_parts:
  assumes "valid_date (y, m, d)"
  shows "take 4 (format_date (y, m, d)) = pad_nat 4 y" "take 2 (drop 5 (format_date (y, m, d))) = pad_nat 2 m"
    "drop 8 (format_date (y, m, d)) = pad_nat 2 d" "length (format_date (y, m, d)) = 10"
    "format_date (y, m, d) ! 4 = CHR ''-''" "format_date (y, m, d) ! 7 = CHR ''-''"
  using valid_dateD [OF assms] pad_nat [of y 4] pad_nat [of m 2] pad_nat [of d 2]
  by (simp_all add: format_date_def nth_append)

lemma parse_format_date: "valid_date dt \<Longrightarrow> parse_date (format_date dt) = Some dt"
proof -
  assume v: "valid_date dt"
  obtain y m d where dt: "dt = (y, m, d)" by (cases dt)
  note v = v [unfolded dt]
  show ?thesis unfolding dt
    using format_date_parts [OF v] valid_dateD [OF v] pad_nat [of y 4] pad_nat [of m 2] pad_nat [of d 2] v
    by (simp add: parse_date_def)
qed

lemma list_split_date:
  assumes "length s = 10"
  shows "s = take 4 s @ [s ! 4] @ take 2 (drop 5 s) @ [s ! 7] @ drop 8 s"
proof -
  have "drop 4 s = s ! 4 # drop 5 s" "drop 7 s = s ! 7 # drop 8 s"
    using assms Cons_nth_drop_Suc [of 4 s] Cons_nth_drop_Suc [of 7 s] by simp_all
  moreover have "drop 5 s = take 2 (drop 5 s) @ drop 7 s"
    using append_take_drop_id [of 2 "drop 5 s"] by simp
  ultimately show ?thesis using append_take_drop_id [of 4 s] by simp
qed

lemma format_parse_date: "parse_date s = Some dt \<Longrightarrow> valid_date dt \<and> format_date dt = s"
proof -
  assume a: "parse_date s = Some dt"
  obtain y m d where dt: "dt = (y, m, d)" by (cases dt)
  have l: "length s = 10" "s ! 4 = CHR ''-''" "s ! 7 = CHR ''-''"
    and n: "digits_val 0 (take 4 s) = Some y" "digits_val 0 (take 2 (drop 5 s)) = Some m" "digits_val 0 (drop 8 s) = Some d"
    and v: "valid_date (y, m, d)"
    using a dt by (auto simp: parse_date_def split: if_splits option.splits)
  have "take 4 s = pad_nat 4 y" "take 2 (drop 5 s) = pad_nat 2 m" "drop 8 s = pad_nat 2 d"
    using digits_inj [OF _ n(1)] digits_inj [OF _ n(2)] digits_inj [OF _ n(3)] l(1) valid_dateD [OF v]
      pad_nat [of y 4] pad_nat [of m 2] pad_nat [of d 2] by auto
  then have "s = pad_nat 4 y @ ''-'' @ pad_nat 2 m @ ''-'' @ pad_nat 2 d"
    using list_split_date [OF l(1)] l(2,3) by simp
  with v show ?thesis by (simp add: dt format_date_def)
qed

lemma inclusion_exclusion: "(c \<longrightarrow> b) \<Longrightarrow> (b \<longrightarrow> a) \<Longrightarrow>
    (if a \<and> (\<not> b \<or> c) then 1 else 0) = (if a then 1 else 0) - (if b then 1 else 0) + (if c then 1 else (0::int))"
  by (cases a; cases b; cases c; simp)

lemma leap_step: "leaps (int y) - leaps (int y - 1) = (if leap_year y then 1 else 0)"
proof (cases y)
  case 0
  then show ?thesis by (simp add: leap_year_def leaps_def)
next
  case n: (Suc n)
  have s: "int (Suc n) div int k - int n div int k = (if Suc n mod k = 0 then 1 else 0)" for k
    by (simp add: zdiv_int [symmetric] div_Suc del: of_nat_Suc)
  have d: "Suc n mod 400 = 0 \<Longrightarrow> Suc n mod 100 = 0" "Suc n mod 100 = 0 \<Longrightarrow> Suc n mod 4 = 0"
    using dvd_trans [of 100 400 "Suc n"] dvd_trans [of 4 100 "Suc n"] by (simp_all add: mod_eq_0_iff_dvd)
  have e: "int y - 1 = int n" by (simp add: n)
  have q: "int (Suc n) div 4 - int n div 4 = (if Suc n mod 4 = 0 then 1 else 0)"
    "int (Suc n) div 100 - int n div 100 = (if Suc n mod 100 = 0 then 1 else 0)"
    "int (Suc n) div 400 - int n div 400 = (if Suc n mod 400 = 0 then 1 else 0)"
    using s [of 4] s [of 100] s [of 400] by (simp_all only: of_nat_numeral)
  have l: "(if leap_year (Suc n) then 1 else 0) = (if Suc n mod 4 = 0 then 1 else 0) - (if Suc n mod 100 = 0 then 1 else 0)
      + (if Suc n mod 400 = 0 then 1 else (0::int))"
    unfolding leap_year_def by (rule inclusion_exclusion) (use d in blast)+
  show ?thesis unfolding e leaps_def unfolding n l using q by linarith
qed

lemma days_year:
  "sum_list (map (\<lambda>k. days_in k y) [1..<12]) + 31 = (if leap_year y then 366 else 365)"
  by (simp add: upt_rec days_in_def)

text \<open>The day before is a date, one day earlier.\<close>

lemma prev_day:
  assumes "valid_date (y, m, d)" and "1 \<le> y"
  shows "valid_date (prev_day (y, m, d)) \<and> day_number (prev_day (y, m, d)) = day_number (y, m, d) - 1"
proof (cases "1 < d")
  case True
  with assms(1) show ?thesis by (auto simp: prev_day_def valid_date_def day_number_def)
next
  case False
  then have d: "d = 1" using assms(1) by (simp add: valid_date_def)
  show ?thesis
  proof (cases "1 < m")
    case True
    have "[1..<m] = [1..<m - 1] @ [m - 1]" using True by (metis One_nat_def Suc_diff_1 less_trans upt_Suc_append zero_less_one Suc_leI gr_implies_not0 neq0_conv diff_Suc_1 less_imp_Suc_add Suc_le_mono)
    moreover have "1 \<le> days_in (m - 1) y" by (simp add: days_in_def)
    ultimately show ?thesis
      using True assms(1) d by (auto simp: prev_day_def valid_date_def day_number_def)
  next
    case m: False
    then have m: "m = 1" using assms(1) by (simp add: valid_date_def)
    have "int (sum_list (map (\<lambda>k. days_in k (y - 1)) [1..<12])) + 31 = (if leap_year (y - 1) then 366 else 365)"
      using days_year [of "y - 1"] by (simp flip: of_nat_add split: if_splits)
    then have q: "int (sum_list (map (\<lambda>k. days_in k (y - 1)) [1..<12])) = (if leap_year (y - 1) then 335 else 334)"
      by (cases "leap_year (y - 1)") simp_all
    have e: "int (y - 1) = int y - 1" "days_in 12 (y - 1) = 31" "prev_day (y, m, d) = (y - 1, 12, 31)"
      using assms(2) m d by (simp_all add: days_in_def prev_day_def)
    then have v: "valid_date (prev_day (y, m, d))" using assms(1) by (simp add: valid_date_def)
    have "day_number (y, m, d) = 365 * (int y - 1) + leaps (int y - 1)"
      using m d by (simp add: day_number_def)
    moreover have "day_number (prev_day (y, m, d)) = 365 * (int (y - 1) - 1) + leaps (int (y - 1) - 1)
        + (if leap_year (y - 1) then 335 else 334) + 30"
      unfolding e(3) day_number_def by (simp only: prod.case q)
    ultimately have "day_number (prev_day (y, m, d)) = day_number (y, m, d) - 1"
      using leap_step [of "y - 1"] unfolding e(1) by (cases "leap_year (y - 1)") simp_all
    with v show ?thesis ..
  qed
qed

subsection \<open>Text kept by trimming\<close>

definition solid :: "string \<Rightarrow> bool" where
  "solid c \<longleftrightarrow> c \<noteq> [] \<and> trimmed c \<and> valid_utf8 c"

lemma space_seq_tail:
  assumes "p \<in> set space_seqs" and "p = u @ c @ v" and "u \<noteq> []" and "c \<noteq> []"
  shows "\<not> rune_start (hd c)"
proof -
  have "list_all (\<lambda>p. list_all (\<lambda>b. \<not> rune_start b) (tl p)) space_seqs"
    by (simp add: space_seqs_def space_points_def encode_rune_def valid_rune_def rune_start_def is_cont_def)
  moreover have "hd c \<in> set (tl p)" using assms(2-4) by (cases u) auto
  ultimately show ?thesis using assms(1) by (auto simp: list_all_iff)
qed

lemma solid_start: "solid c \<Longrightarrow> rune_start (hd c)"
  using valid_utf8_starts [of c] by (auto simp: solid_def hd_conv_nth)

lemma solid_not_prefix:
  assumes "solid c" and "p \<in> set space_seqs" and "prefix p (u @ c)"
  shows "prefix p u"
proof (rule ccontr)
  assume n: "\<not> prefix p u"
  obtain v where "u @ c = p @ v" using assms(3) by (auto simp: prefix_def)
  then obtain w where w: "p = u @ w" "c = w @ v" using n by (auto simp: append_eq_append_conv2)
  show False
  proof (cases "u = []")
    case True
    then have "prefix p c" using w by simp
    with assms(1,2) space_seqs_ends(1) [OF assms(2)] show False by (auto simp: solid_def trimmed_def strip_free_def)
  next
    case False
    have ne: "w \<noteq> []" using n w by auto
    have "\<not> rune_start (hd w)" by (rule space_seq_tail [OF assms(2), of u w "[]"]) (use w(1) False ne in simp_all)
    moreover have "hd w = hd c" using ne by (simp add: w(2))
    ultimately show False using solid_start [OF assms(1)] by simp
  qed
qed

lemma space_seq_newline: "p \<in> set space_seqs \<Longrightarrow> newline \<in> set p \<Longrightarrow> p = [newline]"
proof -
  have "list_all (\<lambda>p. newline \<in> set p \<longrightarrow> p = [newline]) space_seqs" by code_simp
  then show "p \<in> set space_seqs \<Longrightarrow> newline \<in> set p \<Longrightarrow> p = [newline]" by (auto simp: list_all_iff)
qed

lemma solid_prefix_newline:
  assumes "solid c" and "p \<in> set space_seqs" and "prefix p (u @ c @ [newline])"
  shows "prefix p u"
proof -
  have "prefix p ((u @ c) @ [newline])" using assms(3) by simp
  then have "prefix p (u @ c) \<or> p = (u @ c) @ [newline]" by (simp only: prefix_snoc disj_commute)
  then show ?thesis
  proof
    assume "p = (u @ c) @ [newline]"
    moreover from this have "p = [newline]" using space_seq_newline [OF assms(2)] by simp
    ultimately show ?thesis using assms(1) by (simp add: solid_def)
  qed (rule solid_not_prefix [OF assms(1,2)])
qed

lemma trim_left_keeps: "solid c \<Longrightarrow> \<exists>u'. trim_left (u @ c @ [newline]) = u' @ c @ [newline]"
proof (induction "length u" arbitrary: u rule: less_induct)
  case less
  show ?case
  proof (cases "find (\<lambda>p. p \<noteq> [] \<and> prefix p (u @ c @ [newline])) space_seqs")
    case None
    then have "trim_left (u @ c @ [newline]) = u @ c @ [newline]"
      by (simp add: trim_left_def strip.simps [of space_seqs "u @ c @ [newline]"])
    then show ?thesis by blast
  next
    case (Some p)
    then have p: "p \<in> set space_seqs" "p \<noteq> []" "prefix p (u @ c @ [newline])"
      by (auto simp: find_Some_iff in_set_conv_nth)
    have pu: "prefix p u" by (rule solid_prefix_newline [OF less.prems p(1,3)])
    then have l: "length p \<le> length u" by (rule prefix_length_le)
    have "trim_left (u @ c @ [newline]) = trim_left (drop (length p) u @ c @ [newline])"
      using Some l by (simp add: trim_left_def strip.simps [of space_seqs "u @ c @ [newline]"])
    moreover have "length (drop (length p) u) < length u" using p(2) l by (cases p) auto
    ultimately show ?thesis using less.hyps [of "drop (length p) u"] less.prems by simp
  qed
qed

lemma solid_no_suffix:
  assumes "solid c" and "p \<in> set space_seqs"
  shows "\<not> suffix p (u @ c)"
proof
  assume "suffix p (u @ c)"
  then obtain w where "u @ c = w @ p" by (auto simp: suffix_def)
  then consider v where "c = v @ p" | v where "p = v @ c" "v \<noteq> []"
    by (fastforce simp: append_eq_append_conv2)
  then show False
  proof cases
    case 1
    then have "prefix (rev p) (rev c)" by simp
    with assms space_seqs_ends(1) [OF assms(2)] show False by (auto simp: solid_def trimmed_def strip_free_def)
  next
    case 2
    with space_seq_tail [OF assms(2), of v c "[]"] assms solid_start [OF assms(1)] show False by (simp add: solid_def)
  qed
qed

lemma trim_right_newline:
  assumes "solid c"
  shows "trim_right (u @ c @ [newline]) = u @ c"
proof -
  let ?ps = "map rev space_seqs"
  have "take 2 ?ps = [[CHR 0x09], [newline]]" by code_simp
  then have ps: "?ps = [CHR 0x09] # [newline] # drop 2 ?ps" using append_take_drop_id [of 2 ?ps] by simp
  have "find (\<lambda>p. p \<noteq> [] \<and> prefix p (newline # rev (u @ c))) ?ps = Some [newline]"
    by (subst ps) (simp add: newline_def)
  then have "strip ?ps (rev (u @ c @ [newline])) = strip ?ps (rev (u @ c))"
    by (subst strip.simps) simp
  also have "\<dots> = rev (u @ c)"
    using solid_no_suffix [OF assms] by (intro strip_id) (auto simp only: strip_free_def set_map suffix_to_prefix)
  finally show ?thesis by (simp add: trim_right_def)
qed

lemma trim_keeps: "solid c \<Longrightarrow> \<exists>u'. trim_space (u @ c @ [newline]) = u' @ c"
  using trim_left_keeps [of c u] trim_right_newline by (fastforce simp: trim_space_def)

subsection \<open>What the tools promise\<close>

lemma memory_param_trimmed [simp]: "trim_space (memory_param sprint m key) = memory_param sprint m key"
  by (simp add: memory_param_def split: option.split any.split)

lemma read_put [simp]:
  "read_mem (put_mem name s d) name = ReadData s"
  "d \<noteq> DirFails \<Longrightarrow> other \<noteq> name \<Longrightarrow> read_mem (put_mem name s d) other = read_mem d other"
  by (auto simp: read_mem_def put_mem_def map_put_def update_conv split: mem_dir.split)

lemma remember_written:
  assumes "remember sprint ck io params d = (d', Inr out)"
  shows "memory_param sprint params ''content'' \<noteq> [] \<and>
    d' = put_mem (format_date (wc_date ck) @ ''.md'')
      (file_text d (format_date (wc_date ck) @ ''.md'') @ memory_param sprint params ''content'' @ [newline]) d"
  using assms by (auto simp: remember_def write_mem_def Let_def split: if_splits mem_io.splits)


text \<open>The date that the agent passes to \<open>memory_get\<close> cannot lead it out of the journals: two directories that agree
  on the files \<open>YYYY-MM-DD.md\<close> of valid dates give the same answer, whatever else they hold.\<close>

theorem memory_get_confined:
  assumes "\<And>dt. valid_date dt \<Longrightarrow> read_mem d (format_date dt @ ''.md'') = read_mem d' (format_date dt @ ''.md'')"
    and "valid_date (wc_date ck)" and "1 \<le> fst (wc_date ck)"
  shows "memory_get sprint ck params d = memory_get sprint ck params d'"
proof (cases "resolve_journal_date ck (memory_param sprint params ''date'')")
  case (Inl e)
  then show ?thesis by (simp add: memory_get_def Let_def)
next
  case (Inr name)
  obtain y m dd where ymd: "wc_date ck = (y, m, dd)" by (cases "wc_date ck")
  have "valid_date (prev_day (wc_date ck))" using prev_day assms(2,3) ymd by simp
  moreover have "valid_date dt \<and> name = format_date dt" if "parse_date name = Some dt" for dt
    using format_parse_date [OF that] by simp
  ultimately obtain dt where "valid_date dt" "name = format_date dt"
    using Inr assms(2) by (cases "parse_date name") (auto simp: resolve_journal_date_def split: if_splits)
  then have "read_mem d (name @ ''.md'') = read_mem d' (name @ ''.md'')" using assms(1) by simp
  then show ?thesis using Inr by (simp add: memory_get_def Let_def)
qed

lemma newest_first: "sorted_wrt (\<lambda>a b. fst b \<le> fst a) (newest_first ms) \<and> mset (newest_first ms) = mset ms"
proof -
  have "sorted (map fst (sort_key fst (rev ms)))" by simp
  then have "sorted_wrt (\<lambda>a b. fst a \<le> fst b) (sort_key fst (rev ms))" by (simp add: sorted_map)
  then show ?thesis by (simp add: newest_first_def sorted_wrt_rev)
qed

text \<open>\<open>memory_search\<close> answers with the newest matching journals, newest first: as many as the limit allows, all of
  them files that hold the query, and whatever it leaves out is no newer than anything it lists.\<close>

theorem memory_search_newest:
  assumes "read_dir d = Inr es" and "memory_param sprint params ''query'' = q" and "q \<noteq> []"
    and "mset (order (search_matches d q es)) = mset (search_matches d q es)" and "search_matches d q es \<noteq> []"
  shows "\<exists>found. memory_search sprint quote order params d
        = Inr (trim_space (concat (map (\<lambda>(date, snippet). ''## '' @ date @ [newline] @ snippet @ [newline, newline]) found)))
    \<and> mset found \<subseteq># mset (search_matches d q es)
    \<and> length found = min (search_limit params) (length (search_matches d q es))
    \<and> sorted_wrt (\<lambda>a b. fst b \<le> fst a) found
    \<and> (\<forall>x \<in># mset (search_matches d q es) - mset found. \<forall>y \<in> set found. fst x \<le> fst y)"
proof -
  let ?all = "newest_first (order (search_matches d q es))" and ?k = "search_limit params"
  note s = newest_first [of "order (search_matches d q es)"]
  have m: "mset ?all = mset (search_matches d q es)" using s assms(4) by simp
  have l: "length ?all = length (search_matches d q es)" using m by (metis size_mset)
  have k: "0 < ?k" by (simp add: search_limit_def Let_def)
  have sp: "mset (take ?k ?all) + mset (drop ?k ?all) = mset ?all" by (metis append_take_drop_id mset_append)
  have "take ?k ?all \<noteq> []" using k l assms(5) by auto
  moreover have "trim_space q = q" using assms(2) memory_param_trimmed by metis
  ultimately have "memory_search sprint quote order params d
      = Inr (trim_space (concat (map (\<lambda>(date, snippet). ''## '' @ date @ [newline] @ snippet @ [newline, newline]) (take ?k ?all))))"
    using assms by (simp add: memory_search_def Let_def)
  moreover have "mset (take ?k ?all) \<subseteq># mset (search_matches d q es)" using sp m by (metis mset_subset_eq_add_left)
  moreover have "length (take ?k ?all) = min ?k (length (search_matches d q es))" using l by (simp add: min.commute)
  moreover have "sorted_wrt (\<lambda>a b. fst b \<le> fst a) (take ?k ?all)" using s sorted_wrt_take by blast
  moreover have "mset (search_matches d q es) - mset (take ?k ?all) = mset (drop ?k ?all)" using sp m by (metis add_diff_cancel_left')
  moreover have "sorted_wrt (\<lambda>a b. fst b \<le> fst a) (take ?k ?all @ drop ?k ?all)" using s by simp
  then have "\<forall>x \<in># mset (drop ?k ?all). \<forall>y \<in> set (take ?k ?all). fst x \<le> fst y"
    by (simp only: sorted_wrt_append set_mset_mset) blast
  ultimately show ?thesis by (intro exI [of _ "take ?k ?all"] conjI) (simp_all only:)
qed

text \<open>A listed entry need not show what matched: the snippet is the start of the day's file, while \<open>remember\<close> appends
  at its end.\<close>

lemma snippet_hides_late_notes:
  assumes "500 < rune_count (trim_space s)" and "500 < rune_count (trim_space t)"
    and "take 500 (runes (trim_space s)) = take 500 (runes (trim_space t))"
  shows "truncate_snippet s 500 = truncate_snippet t 500"
  using assms by (simp add: truncate_snippet_def Let_def)

text \<open>A consolidation pass reviews exactly the journals of the last seven days, today included, and those of
  later dates: in UTC, after midnight.\<close>

theorem review_window:
  assumes "wc_offset ck = 0" and "0 < wc_nanos ck" and "wc_nanos ck < day_nanos"
  shows "in_review ck name \<longleftrightarrow> is_note name \<and> 10 \<le> length (trim_suffix name ''.md'')
    \<and> (\<exists>dt. valid_date dt \<and> format_date dt = take 10 (trim_suffix name ''.md'') \<and> day_number (wc_date ck) - 6 \<le> day_number dt)"
proof -
  have w: "\<not> utc_midnight dt < days_ago 7 ck \<longleftrightarrow> day_number (wc_date ck) - 6 \<le> day_number dt" for dt
    using assms by (auto simp: utc_midnight_def days_ago_def day_nanos_def)
  have p: "(case parse_date x of None \<Rightarrow> False | Some t \<Rightarrow> Q t) \<longleftrightarrow> (\<exists>dt. valid_date dt \<and> format_date dt = x \<and> Q dt)" for x Q
  proof (cases "parse_date x")
    case None
    then have "format_date dt \<noteq> x" if "valid_date dt" for dt using parse_format_date [OF that] by auto
    with None show ?thesis by auto
  next
    case (Some t)
    have "dt = t" if "valid_date dt" "format_date dt = x" for dt using parse_format_date [OF that(1)] that(2) Some by simp
    with Some format_parse_date [OF Some] show ?thesis by (cases t) fastforce
  qed
  show ?thesis unfolding in_review_def Let_def p w ..
qed

subsection \<open>A concrete journal\<close>

definition sample_clock :: wall_clock where
  "sample_clock = \<lparr>wc_date = (2026, 3, 1), wc_nanos = 3600000000000, wc_offset = 0\<rparr>"

definition sample_journal :: mem_dir where
  "sample_journal = DirFiles [(''2026-02-28.md'', MemText ''old note''), (''2026-03-01.md'', MemText (''tea'' @ [newline])),
     (''MEMORY.md'', MemText ''facts'')]"

definition note_params :: metadata where "note_params = [(''content'', AnyStr '' green tea '')]"


theorem memory_get_confined_witness:
  "memory_get (\<lambda>_. []) sample_clock [(''date'', AnyStr ''../MEMORY'')] sample_journal
     = memory_get (\<lambda>_. []) sample_clock [(''date'', AnyStr ''../MEMORY'')] (put_mem memory_md ''secret'' sample_journal)"
proof (rule memory_get_confined)
  show "valid_date (wc_date sample_clock)" "1 \<le> fst (wc_date sample_clock)" by (code_simp, code_simp)
  fix dt assume "valid_date dt"
  moreover obtain y m d where "dt = (y, m, d)" by (cases dt)
  ultimately have "length (format_date dt @ ''.md'') = 13" using format_date_parts(4) by simp
  then have "format_date dt @ ''.md'' \<noteq> memory_md" by (auto simp: memory_md_def)
  then show "read_mem sample_journal (format_date dt @ ''.md'') = read_mem (put_mem memory_md ''secret'' sample_journal) (format_date dt @ ''.md'')"
    by (simp add: sample_journal_def)
qed

theorem memory_search_newest_witness:
  "\<exists>found. length found = 1 \<and> mset found \<subseteq># mset (search_matches sample_journal ''TEA'' (sort_key fst
      [(''2026-02-28.md'', MemText ''old note''), (''2026-03-01.md'', MemText (''tea'' @ [newline])), (''MEMORY.md'', MemText ''facts'')]))"
proof -
  let ?es = "sort_key fst [(''2026-02-28.md'', MemText ''old note''), (''2026-03-01.md'', MemText (''tea'' @ [newline])), (''MEMORY.md'', MemText ''facts'')]"
  have r: "read_dir sample_journal = Inr ?es" by (simp add: read_dir_def sample_journal_def)
  have q: "memory_param (\<lambda>_. []) [(''query'', AnyStr ''TEA'')] ''query'' = ''TEA''" by code_simp
  have m: "search_matches sample_journal ''TEA'' ?es = [(''2026-03-01'', ''tea'')]" by code_simp
  have l: "search_limit [(''query'', AnyStr ''TEA'')] = 5" by code_simp
  have "search_matches sample_journal ''TEA'' ?es \<noteq> []" by (simp only: m) simp
  from memory_search_newest [OF r q _ _ this, of id id] obtain found where
    "mset found \<subseteq># mset (search_matches sample_journal ''TEA'' ?es)"
    "length found = min (search_limit [(''query'', AnyStr ''TEA'')]) (length (search_matches sample_journal ''TEA'' ?es))"
    by auto
  then have "length found = 1 \<and> mset found \<subseteq># mset (search_matches sample_journal ''TEA'' ?es)"
    unfolding l m by (simp only: list.size) simp
  then show ?thesis by blast
qed

theorem review_window_witness:
  "in_review sample_clock ''2026-02-23.md'' \<and> \<not> in_review sample_clock ''2026-02-22.md''"
proof -
  have c: "wc_offset sample_clock = 0" "0 < wc_nanos sample_clock" "wc_nanos sample_clock < day_nanos"
    by (simp_all add: sample_clock_def day_nanos_def)
  have "in_review sample_clock ''2026-02-23.md''"
    unfolding review_window [OF c]
    by (intro conjI exI [of _ "(2026, 2, 23)"]) (code_simp, code_simp, code_simp, code_simp, code_simp)
  moreover have "\<not> in_review sample_clock ''2026-02-22.md''" by code_simp
  ultimately show ?thesis ..
qed

end
