(* ===== verification/Gateway.thy ===== *)
theory Gateway
  imports PluginHost ChannelManager TurnLock Journal
begin

text \<open>
  \<open>internal/gateway\<close>: the host of the plugins. \<open>Apply\<close> and \<open>Shutdown\<close> are functions on one state record that
  contains the states of the channel manager, the bus, the turn lock and the cron plugin; \<open>None\<close> stands for
  a call that does not return. What the outside answers (files, the runtime factory, channels and triggers
  that start) is an environment record.
\<close>

subsection \<open>The system prompt\<close>

definition template_part :: "read_result \<Rightarrow> string option" where
  "template_part r = (case r of ReadData d \<Rightarrow> Some (d @ [newline, newline]) | ReadMissing \<Rightarrow> Some [] | ReadFails \<Rightarrow> None)"

definition build_template :: "read_result \<Rightarrow> read_result \<Rightarrow> string option" where
  "build_template agents soul =
     (case template_part agents of None \<Rightarrow> None
      | Some a \<Rightarrow> (case template_part soul of None \<Rightarrow> None | Some s \<Rightarrow> Some (a @ s)))"

definition build_sys_prompt :: "read_result \<Rightarrow> read_result \<Rightarrow> string \<Rightarrow> string option" where
  "build_sys_prompt agents soul memCtx =
     map_option (\<lambda>template. if memCtx = [] then template else template @ [newline, newline] @ memCtx)
       (build_template agents soul)"

subsection \<open>State\<close>

datatype apply_error =
    WorkspaceChange
  | BadLogLevel config_error
  | CronServiceErr cron_error
  | SystemPromptErr
  | SlashErr slash_error
  | RuntimeErr
  | ChannelsErr manager_error
  | TriggerErr trigger

record gateway =
  gw_cfg :: config
  gw_level :: log_level
  gw_plugins :: registry
  gw_cron :: cron_plugin
  gw_triggers :: "trigger list"
  gw_mgr :: channel_manager
  gw_bus :: "nat bus"
  gw_lock :: lock_state
  gw_slashes :: "slash_registry option"
  gw_slash_cron :: "nat option"
  gw_hook :: bool
  gw_journals :: "string list"
  gw_reload :: bool
  gw_unused :: "nat list"

record gateway_env =
  ae_url :: "string \<Rightarrow> (string \<times> string) option"
  ae_agents :: read_result
  ae_soul :: read_result
  ae_memory :: string
  ae_status :: slash_handler
  ae_runtime :: "nat option"
  ae_takes_slashes :: "nat \<Rightarrow> bool"
  ae_channel_ok :: "nat \<Rightarrow> bool"
  ae_trigger_ok :: "nat \<Rightarrow> bool"
  ae_gronx :: gronx
  ae_now :: int
  ae_io :: atomic_io

subsection \<open>Triggers\<close>

fun stop_each :: "trigger list \<Rightarrow> cron_plugin \<Rightarrow> cron_plugin option" where
  "stop_each [] cp = Some cp"
| "stop_each (CronTrigger # trs) cp = (case stop_loop cp of None \<Rightarrow> None | Some cp' \<Rightarrow> stop_each trs cp')"
| "stop_each (OtherTrigger h # trs) cp = stop_each trs cp"

definition stop_triggers :: "gateway \<Rightarrow> gateway option" where
  "stop_triggers g = map_option (\<lambda>cp. g\<lparr>gw_cron := cp, gw_triggers := []\<rparr>) (stop_each (gw_triggers g) (gw_cron g))"

definition ensure_cron :: "gateway \<Rightarrow> gateway \<times> cron_error option" where
  "ensure_cron g =
     (case find_by_name (gw_plugins g) ''cron'' of
        None \<Rightarrow> (g, None)
      | Some _ \<Rightarrow> (case ensure_service True (gw_cron g) of (cp, e) \<Rightarrow> (g\<lparr>gw_cron := cp\<rparr>, e)))"

definition start_trigger :: "gateway_env \<Rightarrow> trigger \<Rightarrow> cron_plugin \<Rightarrow> (cron_plugin \<times> bool) option" where
  "start_trigger env tr cp =
     (case tr of
        CronTrigger \<Rightarrow> map_option (\<lambda>(cp', e). (cp', e = None)) (start_loop (ae_gronx env) (ae_now env) (ae_io env) True cp)
      | OtherTrigger h \<Rightarrow> Some (cp, ae_trigger_ok env h))"

text \<open>A trigger that does not start takes the started ones with it.\<close>

fun start_each :: "gateway_env \<Rightarrow> trigger list \<Rightarrow> trigger list \<Rightarrow> cron_plugin \<Rightarrow> (cron_plugin \<times> (trigger + trigger list)) option" where
  "start_each env started [] cp = Some (cp, Inr started)"
| "start_each env started (tr # trs) cp =
     (case start_trigger env tr cp of
        None \<Rightarrow> None
      | Some (cp', False) \<Rightarrow> map_option (\<lambda>cp''. (cp'', Inl tr)) (stop_each started cp')
      | Some (cp', True) \<Rightarrow> start_each env (started @ [tr]) trs cp')"

definition start_triggers :: "gateway_env \<Rightarrow> gateway \<Rightarrow> (gateway \<times> apply_error option) option" where
  "start_triggers env g =
     (case stop_triggers g of
        None \<Rightarrow> None
      | Some g1 \<Rightarrow>
          (case start_each env [] (registry_triggers (gw_plugins g1) (Some (gw_cfg g1))) (gw_cron g1) of
             None \<Rightarrow> None
           | Some (cp, Inl tr) \<Rightarrow> Some (g1\<lparr>gw_cron := cp\<rparr>, Some (TriggerErr tr))
           | Some (cp, Inr trs) \<Rightarrow> Some (g1\<lparr>gw_cron := cp, gw_triggers := trs\<rparr>, None)))"

subsection \<open>Slash commands\<close>

definition reload_handler :: slash_handler where
  "reload_handler ctx ivc =
     Inr \<lparr>sr_command = [], sr_output = ''Reloading'' @ ellipsis, sr_metadata = [], sr_post_action = None\<rparr>"

text \<open>The send on \<open>manualReloadCh\<close>, of capacity 1.\<close>

definition request_reload :: "gateway \<Rightarrow> gateway" where "request_reload g = g\<lparr>gw_reload := True\<rparr>"

definition register_gateway_slashes :: "slash_handler \<Rightarrow> slash_registry \<Rightarrow> slash_error + slash_registry" where
  "register_gateway_slashes status r =
     bind_res (register_command (Some r)
         \<lparr>sd_name = ''reload'', sd_description = ''Re-read config, AGENTS.md, SOUL.md, MEMORY.md, skills; rebuild runtime.''\<rparr>
         (Some reload_handler))
       (\<lambda>r1. register_command (Some r1)
         \<lparr>sd_name = ''status'', sd_description = ''Show gateway status: cron jobs, memory size.''\<rparr> (Some status))"

definition gateway_slashes :: "gateway_env \<Rightarrow> config \<Rightarrow> gateway \<Rightarrow> slash_error + slash_registry" where
  "gateway_slashes env cfg g =
     bind_res builtins (\<lambda>r.
       case register_plugin_commands r (registry_slashes (gw_plugins g) (Some cfg)) of
         (_, Some e) \<Rightarrow> Inl e
       | (r1, None) \<Rightarrow> register_gateway_slashes (ae_status env) r1)"

text \<open>\<open>slashStatus\<close>: \<open>memSize\<close> is the size of MEMORY.md, if it exists.\<close>

definition slash_status :: "nat option \<Rightarrow> gateway \<Rightarrow> string" where
  "slash_status memSize g =
     (let jobs = (case find_by_name (gw_plugins g) ''cron'' of
             None \<Rightarrow> []
           | Some _ \<Rightarrow> (case current_service (gw_cron g) of
                 None \<Rightarrow> []
               | Some svc \<Rightarrow> [encode_rune 128336 @ '' Cron jobs: '' @ show_nat (length (filter cj_enabled (list_jobs svc)))
                     @ '' active / '' @ show_nat (length (list_jobs svc)) @ '' total'']));
          mem = [encode_rune 129504 @ '' MEMORY.md: ''
              @ (case memSize of None \<Rightarrow> ''empty'' | Some n \<Rightarrow> show_nat n @ '' bytes'')] in
      join [newline] (jobs @ mem))"

subsection \<open>Apply\<close>

text \<open>The close of the runtimes that a reload or the shutdown has taken out.\<close>

definition close_taken :: "lock_state \<Rightarrow> lock_state" where
  "close_taken l = l\<lparr>ls_closed := ls_old l @ ls_closed l, ls_old := []\<rparr>"

definition validate_reload :: "config \<Rightarrow> gateway \<Rightarrow> bool" where
  "validate_reload cfg g \<longleftrightarrow> ac_workspace (c_agent cfg) = ac_workspace (c_agent (gw_cfg g))"

text \<open>Up to the new runtime.\<close>

definition apply_prepare :: "gateway_env \<Rightarrow> config \<Rightarrow> gateway \<Rightarrow> (gateway \<times> (apply_error + nat \<times> slash_registry)) option" where
  "apply_prepare env cfg g =
     (if \<not> validate_reload cfg g then Some (g, Inl WorkspaceChange)
      else case parse_log_level (c_log_level cfg) of
          Inl e \<Rightarrow> Some (g, Inl (BadLogLevel e))
        | Inr level \<Rightarrow>
            (case stop_triggers (g\<lparr>gw_level := level\<rparr>) of
               None \<Rightarrow> None
             | Some g1 \<Rightarrow>
                 (case ensure_cron g1 of
                    (g2, Some e) \<Rightarrow> Some (g2, Inl (CronServiceErr e))
                  | (g2, None) \<Rightarrow>
                      (case build_sys_prompt (ae_agents env) (ae_soul env) (ae_memory env) of
                         None \<Rightarrow> Some (g2, Inl SystemPromptErr)
                       | Some _ \<Rightarrow>
                           (case gateway_slashes env cfg g2 of
                              Inl e \<Rightarrow> Some (g2, Inl (SlashErr e))
                            | Inr r \<Rightarrow>
                                (case ae_runtime env of
                                   None \<Rightarrow> Some (g2, Inl RuntimeErr)
                                 | Some rt \<Rightarrow> Some (g2, Inr (rt, r))))))))"

text \<open>\<open>reloadPipeline\<close>, with the runtime closed when the channels do not come up.\<close>

definition reload_pipeline :: "gateway_env \<Rightarrow> config \<Rightarrow> nat \<Rightarrow> slash_registry \<Rightarrow> gateway \<Rightarrow> (gateway \<times> apply_error option) option" where
  "reload_pipeline env cfg rt r g =
     (case manager_apply (Some (validate_channels (ae_url env) (c_channels cfg) = []))
             (Some (registry_channels (gw_plugins g) (Some cfg))) (ae_takes_slashes env) (ae_channel_ok env)
             (set_pipeline_slashes (command_definitions (Some r)) (gw_mgr g)) (gw_bus g) of
        (m, b, _, Some e) \<Rightarrow> Some (g\<lparr>gw_mgr := m, gw_bus := b, gw_unused := rt # gw_unused g\<rparr>, Some (ChannelsErr e))
      | (m, b, _, None) \<Rightarrow>
          map_option (\<lambda>l. (g\<lparr>gw_mgr := m, gw_bus := b, gw_lock := close_taken l, gw_slashes := Some r,
                             gw_slash_cron := slash_service (gw_cron g)\<rparr>, None))
            (reload_runtime True rt (ac_workspace (c_agent cfg)) (gw_lock g)))"

definition wire_post_action_hooks :: "gateway \<Rightarrow> gateway" where
  "wire_post_action_hooks g =
     g\<lparr>gw_hook := True, gw_journals := configure_journals (gw_plugins g) (Some (gw_cfg g))\<rparr>"

definition gateway_apply :: "gateway_env \<Rightarrow> config \<Rightarrow> gateway \<Rightarrow> (gateway \<times> apply_error option) option" where
  "gateway_apply env cfg g =
     (case apply_prepare env cfg g of
        None \<Rightarrow> None
      | Some (g1, Inl e) \<Rightarrow> Some (g1, Some e)
      | Some (g1, Inr (rt, r)) \<Rightarrow>
          (case reload_pipeline env cfg rt r g1 of
             None \<Rightarrow> None
           | Some (g2, Some e) \<Rightarrow> Some (g2, Some e)
           | Some (g2, None) \<Rightarrow> start_triggers env (wire_post_action_hooks (g2\<lparr>gw_cfg := cfg\<rparr>))))"

text \<open>\<open>reloadFromConfig\<close>: what cannot be loaded or applied is logged.\<close>

definition reload_from_config :: "gateway_env \<Rightarrow> config_error + config \<Rightarrow> gateway \<Rightarrow> gateway option" where
  "reload_from_config env loaded g =
     (case loaded of Inl _ \<Rightarrow> Some g | Inr cfg \<Rightarrow> map_option fst (gateway_apply env cfg g))"

text \<open>\<open>Shutdown\<close>; it returns once the pipeline loop has ended, and closes the runtime it takes.\<close>

definition gateway_shutdown :: "(string \<Rightarrow> bool) \<Rightarrow> gateway \<Rightarrow> (gateway \<times> string list) option" where
  "gateway_shutdown pluginOk g =
     (case stop_triggers g of
        None \<Rightarrow> None
      | Some g1 \<Rightarrow>
          (case manager_stop_all (gw_mgr g1) (gw_bus g1) of
             (m, b, _) \<Rightarrow>
               map_option (\<lambda>l. (g1\<lparr>gw_mgr := m, gw_bus := close_start b,
                   gw_lock := close_taken l\<rparr>,
                   fst (registry_stop pluginOk (gw_plugins g1))))
                 (take_runtime (gw_lock g1))))"

subsection \<open>What a reload changes\<close>

text \<open>The part of the state that \<open>Apply\<close> leaves alone until the new runtime is in.\<close>

definition live_part :: "gateway \<Rightarrow> config \<times> lock_state \<times> slash_registry option \<times> nat option \<times> registry \<times> bool" where
  "live_part g = (gw_cfg g, gw_lock g, gw_slashes g, gw_slash_cron g, gw_plugins g, gw_hook g)"

lemma stop_triggers_frame:
  "stop_triggers g = Some g' \<Longrightarrow> gw_triggers g' = [] \<and> live_part g' = live_part g \<and> gw_mgr g' = gw_mgr g \<and> gw_bus g' = gw_bus g
    \<and> gw_level g' = gw_level g"
  by (auto simp: stop_triggers_def live_part_def)

lemma ensure_cron_frame:
  "ensure_cron g = (g', e) \<Longrightarrow> gw_triggers g' = gw_triggers g \<and> live_part g' = live_part g \<and> gw_mgr g' = gw_mgr g
    \<and> gw_bus g' = gw_bus g \<and> gw_level g' = gw_level g"
  by (auto simp: ensure_cron_def live_part_def split: option.splits prod.splits)

lemma prepare_frame:
  assumes "apply_prepare env cfg g = Some (g', r)"
  shows "live_part g' = live_part g \<and> gw_mgr g' = gw_mgr g \<and> gw_bus g' = gw_bus g
    \<and> (g' = g \<and> (r = Inl WorkspaceChange \<or> (\<exists>e. r = Inl (BadLogLevel e))) \<or> gw_triggers g' = [])
    \<and> (\<forall>tr. r \<noteq> Inl (TriggerErr tr))"
proof (cases "validate_reload cfg g \<and> (\<exists>l. parse_log_level (c_log_level cfg) = Inr l)")
  case False
  then show ?thesis using assms by (auto simp: apply_prepare_def split: if_splits sum.splits)
next
  case True
  then obtain l where l: "validate_reload cfg g" "parse_log_level (c_log_level cfg) = Inr l" by blast
  with assms obtain g1 where g1: "stop_triggers (g\<lparr>gw_level := l\<rparr>) = Some g1"
    by (auto simp: apply_prepare_def split: option.splits)
  obtain g2 e where g2: "ensure_cron g1 = (g2, e)" by fastforce
  have "g' = g2 \<and> (\<forall>tr. r \<noteq> Inl (TriggerErr tr))"
    using assms l g1 g2 by (auto simp: apply_prepare_def split: option.splits sum.splits)
  then show ?thesis
    using stop_triggers_frame [OF g1] ensure_cron_frame [OF g2] by (simp add: live_part_def)
qed

lemma reload_pipeline_frame:
  assumes "reload_pipeline env cfg rt r g = Some (g', e)"
  shows "gw_triggers g' = gw_triggers g \<and> gw_cfg g' = gw_cfg g \<and> gw_plugins g' = gw_plugins g
    \<and> (e \<noteq> None \<longrightarrow> live_part g' = live_part g \<and> rt \<in> set (gw_unused g') \<and> (\<forall>tr. e \<noteq> Some (TriggerErr tr)))
    \<and> (e = None \<longrightarrow> ls_rt (gw_lock g') = Some rt \<and> ls_old (gw_lock g') = []
        \<and> ls_workspace (gw_lock g') = ac_workspace (c_agent cfg) \<and> gw_slashes g' = Some r
        \<and> (\<forall>n. ls_rt (gw_lock g) = Some n \<longrightarrow> n \<in> set (ls_closed (gw_lock g'))))"
  using assms
  by (auto simp: reload_pipeline_def live_part_def reload_runtime_def swap_runtime_def close_taken_def
      split: prod.splits option.splits if_splits)

lemma start_triggers_frame:
  assumes "start_triggers env g = Some (g', e)"
  shows "live_part g' = live_part g \<and> (e \<noteq> None \<longrightarrow> gw_triggers g' = [])
    \<and> (\<forall>x. e = Some x \<longrightarrow> (\<exists>tr. x = TriggerErr tr))"
proof -
  obtain g1 where g1: "stop_triggers g = Some g1" using assms by (auto simp: start_triggers_def split: option.splits)
  show ?thesis
    using assms g1 stop_triggers_frame [OF g1]
    by (auto simp: start_triggers_def live_part_def split: option.splits prod.splits sum.splits)
qed


lemma start_each_all: "start_each env started trs cp = Some (cp', Inr ts) \<Longrightarrow> ts = started @ trs"
  by (induction env started trs cp rule: start_each.induct) (auto split: option.splits prod.splits bool.splits)


subsection \<open>A concrete gateway\<close>

definition hb_plugin :: plugin where
  "hb_plugin = \<lparr>pl_name = ''heartbeat'', pl_channels = None, pl_tools = None, pl_skills = None,
     pl_triggers = Some (\<lambda>_. [OtherTrigger 1]), pl_slashes = None, pl_tts = None, pl_stt = None, pl_events = False,
     pl_journal = False, pl_memory = False\<rparr>"

definition hb_gateway :: gateway where
  "hb_gateway = \<lparr>gw_cfg = default_config ''/h'', gw_level = LevelInfo, gw_plugins = Some [hb_plugin],
     gw_cron = new_cron_plugin 1 CronAbsent, gw_triggers = [OtherTrigger 1], gw_mgr = new_manager, gw_bus = new_bus 4,
     gw_lock = new_lock (Some 1) ''/h'', gw_slashes = None, gw_slash_cron = None, gw_hook = False, gw_journals = [],
     gw_reload = False, gw_unused = []\<rparr>"

definition hb_env :: "read_result \<Rightarrow> gateway_env" where
  "hb_env agents = \<lparr>ae_url = (\<lambda>_. None), ae_agents = agents, ae_soul = ReadMissing, ae_memory = [],
     ae_status = reload_handler, ae_runtime = Some 2, ae_takes_slashes = (\<lambda>_. False), ae_channel_ok = (\<lambda>_. True),
     ae_trigger_ok = (\<lambda>_. True), ae_gronx = plain_gronx, ae_now = 7, ae_io = AtomicOk\<rparr>"


lemma hb_reloads: "map_option snd (gateway_apply (hb_env ReadMissing) (default_config ''/h'') hb_gateway) = Some None"
  by code_simp


text \<open>A reload applies a configuration that \<open>Validate\<close> refuses: this one has no API key.\<close>

lemma reload_skips_validation:
  "ApiKeyRequired \<in> set (validate_config up (default_config ''/h''))
    \<and> map_option snd (gateway_apply (hb_env ReadMissing) (default_config ''/h'') hb_gateway) = Some None"
proof -
  have "trim_space [] = []" by code_simp
  then have "ApiKeyRequired \<in> set (validate_config up (default_config ''/h''))"
    by (simp add: validate_config_def validate_provider_def default_config_def unless_def)
  then show ?thesis using hb_reloads ..
qed

text \<open>After a shutdown nothing runs: no trigger, no channel, no runtime, and the bus is closed.\<close>

lemma shutdown_stops_all:
  assumes "gateway_shutdown ok g = Some (g', called)" and "wired (gw_mgr g) (gw_bus g)"
  shows "gw_triggers g' = [] \<and> cm_channels (gw_mgr g') = [] \<and> wired (gw_mgr g') (gw_bus g') \<and> b_closed (gw_bus g')
    \<and> ls_rt (gw_lock g') = None \<and> (\<forall>n. ls_rt (gw_lock g) = Some n \<longrightarrow> n \<in> set (ls_closed (gw_lock g')))"
proof -
  obtain g1 where g1: "stop_triggers g = Some g1" using assms(1) by (auto simp: gateway_shutdown_def split: option.splits)
  obtain m b tr where m: "manager_stop_all (gw_mgr g1) (gw_bus g1) = (m, b, tr)" by (metis prod_cases3)
  have "wired (gw_mgr g1) (gw_bus g1)" using stop_triggers_frame [OF g1] assms(2) by simp
  from stop_all_wired [OF this m] have w: "wired m b" "cm_channels m = []" by auto
  then have "wired m (close_start b)" by (simp add: wired_def bus_subscriber_def close_start_def)
  with w stop_triggers_frame [OF g1] show ?thesis
    using assms(1) g1 m
    by (auto simp: gateway_shutdown_def take_runtime_def swap_runtime_def close_taken_def close_start_def live_part_def
        split: option.splits if_splits)
qed

end
