(* ===== verification/ConfigSave.thy ===== *)
theory ConfigSave
  imports ConfigLoad
begin

text \<open>
  \<open>SaveConfig\<close> (\<open>internal/kernel/config/config.go\<close>), and what loading and saving promise: types, defaults, the
  environment, and the round trip through the file.
\<close>

subsection \<open>Encoding\<close>

definition e_str :: "string \<Rightarrow> string \<Rightarrow> (string \<times> json) list" where "e_str k v = [(k, JStr v)]"
definition e_bool :: "string \<Rightarrow> bool \<Rightarrow> (string \<times> json) list" where "e_bool k v = [(k, JBool v)]"
definition e_int :: "string \<Rightarrow> int \<Rightarrow> (string \<times> json) list" where "e_int k v = [(k, JNum (show_int v))]"
definition e_strs :: "string \<Rightarrow> string list \<Rightarrow> (string \<times> json) list" where
  "e_strs k v = [(k, if v = [] then JNull else JArr (map JStr v))]"
definition e_obj :: "string \<Rightarrow> (string \<times> json) list \<Rightarrow> (string \<times> json) list" where "e_obj k v = [(k, JObj v)]"

text \<open>\<open>omitempty\<close>.\<close>

definition o_str :: "string \<Rightarrow> string \<Rightarrow> (string \<times> json) list" where "o_str k v = (if v = [] then [] else e_str k v)"
definition o_bool :: "string \<Rightarrow> bool \<Rightarrow> (string \<times> json) list" where "o_bool k v = (if v then e_bool k v else [])"
definition o_int :: "string \<Rightarrow> int \<Rightarrow> (string \<times> json) list" where "o_int k v = (if v = 0 then [] else e_int k v)"
definition o_strs :: "string \<Rightarrow> string list \<Rightarrow> (string \<times> json) list" where "o_strs k v = (if v = [] then [] else e_strs k v)"

definition encode_agent :: "acp_agent \<Rightarrow> json" where
  "encode_agent a = JObj (e_str ''command'' (aa_command a) @ o_strs ''args'' (aa_args a) @ o_strs ''env'' (aa_env a))"

definition encode_channels :: "channels_config \<Rightarrow> (string \<times> json) list" where
  "encode_channels c =
     (let t = ch_telegram c; f = ch_feishu c; w = ch_wecom c; a = ch_whatsapp c; m = ch_matrix c; b = ch_web c in
      e_obj ''telegram'' (e_bool ''enabled'' (tg_enabled t) @ e_str ''token'' (tg_token t) @ e_strs ''allowFrom'' (tg_allow_from t)
        @ o_str ''proxy'' (tg_proxy t) @ o_str ''rootDir'' (tg_root_dir t) @ o_str ''feedback'' (tg_feedback t)
        @ o_bool ''streaming'' (tg_streaming t))
      @ e_obj ''feishu'' (e_bool ''enabled'' (fs_enabled f) @ e_str ''appId'' (fs_app_id f) @ e_str ''appSecret'' (fs_app_secret f)
        @ e_str ''verificationToken'' (fs_verification_token f) @ o_str ''encryptKey'' (fs_encrypt_key f)
        @ o_int ''port'' (fs_port f) @ e_strs ''allowFrom'' (fs_allow_from f) @ o_str ''proxy'' (fs_proxy f))
      @ e_obj ''wecom'' (e_bool ''enabled'' (wc_enabled w) @ e_str ''token'' (wc_token w) @ e_str ''encodingAESKey'' (wc_aes_key w)
        @ o_str ''receiveId'' (wc_receive_id w) @ o_int ''port'' (wc_port w) @ e_strs ''allowFrom'' (wc_allow_from w)
        @ o_str ''proxy'' (wc_proxy w))
      @ e_obj ''whatsapp'' (e_bool ''enabled'' (wa_enabled a) @ o_str ''jid'' (wa_jid a) @ o_str ''storePath'' (wa_store_path a)
        @ o_strs ''allowFrom'' (wa_allow_from a))
      @ e_obj ''matrix'' (e_bool ''enabled'' (mx_enabled m) @ e_str ''homeserver'' (mx_homeserver m)
        @ e_str ''accessToken'' (mx_access_token m) @ e_str ''userId'' (mx_user_id m) @ o_str ''deviceId'' (mx_device_id m)
        @ e_strs ''allowFrom'' (mx_allow_from m) @ e_strs ''allowRooms'' (mx_allow_rooms m))
      @ e_obj ''web'' (e_bool ''enabled'' (wb_enabled b) @ o_strs ''allowFrom'' (wb_allow_from b)
        @ e_obj ''voice'' (e_bool ''enabled'' (wb_voice_enabled b))))"

definition encode_tools :: "tools_config \<Rightarrow> (string \<times> json) list" where
  "encode_tools t =
     e_int ''execTimeout'' (tc_exec_timeout t) @ e_bool ''restrictToWorkspace'' (tc_restrict t)
     @ e_obj ''acp'' (e_bool ''enabled'' (tc_acp_enabled t)
        @ (if tc_acp_agents t = [] then [] else e_obj ''agents'' (map (\<lambda>(k, a). (k, encode_agent a)) (tc_acp_agents t))))
     @ e_obj ''task'' (e_bool ''enabled'' (tc_task_enabled t))"

definition encode_speech :: "speech_config \<Rightarrow> (string \<times> json) list" where
  "encode_speech s =
     o_str ''sttProvider'' (sp_stt s) @ o_str ''ttsProvider'' (sp_tts s) @ o_str ''echoCancel'' (sp_echo_cancel s)
     @ e_obj ''capture'' (o_str ''command'' (sp_capture_command s) @ o_strs ''args'' (sp_capture_args s))
     @ e_obj ''playback'' (o_str ''command'' (sp_playback_command s) @ o_strs ''args'' (sp_playback_args s))
     @ e_obj ''cartesia'' (o_str ''apiKey'' (sp_cartesia_key s) @ o_str ''voiceId'' (sp_cartesia_voice s)
        @ o_str ''modelId'' (sp_cartesia_model s) @ o_str ''apiVersion'' (sp_cartesia_version s)
        @ o_str ''proxy'' (sp_cartesia_proxy s))
     @ e_obj ''elevenlabs'' (o_str ''apiKey'' (sp_eleven_key s) @ o_str ''voiceId'' (sp_eleven_voice s)
        @ o_str ''proxy'' (sp_eleven_proxy s))
     @ e_obj ''deepgram'' (o_str ''apiKey'' (sp_deepgram_key s) @ o_str ''proxy'' (sp_deepgram_proxy s))
     @ e_obj ''openai'' (o_str ''apiKey'' (sp_openai_key s) @ o_str ''proxy'' (sp_openai_proxy s))
     @ e_obj ''wake'' (o_str ''phrase'' (sp_wake_phrase s) @ o_int ''timeoutMs'' (sp_wake_timeout_ms s))"

definition encode_gateway :: "gateway_config \<Rightarrow> (string \<times> json) list" where
  "encode_gateway g =
     e_str ''host'' (gc_host g) @ e_int ''port'' (gc_port g) @ e_bool ''hotReload'' (gc_hot_reload g)
     @ o_int ''reloadDebounceMs'' (gc_debounce_ms g) @ e_obj ''cron'' (o_int ''maxConcurrentRuns'' (gc_max_runs g))"

text \<open>\<open>sf\<close> prints a \<open>float64\<close>.\<close>

definition encode_config :: "(rat \<Rightarrow> string) \<Rightarrow> config \<Rightarrow> json" where
  "encode_config sf c =
     (let a = c_agent c; p = c_provider c; u = c_auto_compact c; m = c_mem_consolidate c; j = c_shadow_journal c in
      JObj
       (e_obj ''agent'' (e_str ''workspace'' (ac_workspace a) @ e_str ''model'' (ac_model a)
          @ e_int ''maxTokens'' (ac_max_tokens a) @ e_int ''maxToolIterations'' (ac_max_tool_iterations a))
        @ e_obj ''channels'' (encode_channels (c_channels c))
        @ e_obj ''provider'' (o_str ''type'' (pc_type p) @ e_str ''apiKey'' (pc_api_key p) @ o_str ''baseUrl'' (pc_base_url p))
        @ e_obj ''tools'' (encode_tools (c_tools c))
        @ e_obj ''skills'' (e_bool ''enabled'' (sc_enabled (c_skills c)) @ o_str ''dir'' (sc_dir (c_skills c)))
        @ e_obj ''mcp'' (o_strs ''servers'' (c_mcp_servers c))
        @ e_obj ''autoCompact'' (e_bool ''enabled'' (au_enabled u)
          @ (if au_threshold u = 0 then [] else [(''threshold'', JNum (sf (au_threshold u)))])
          @ o_int ''preserveCount'' (au_preserve u))
        @ e_obj ''memConsolidate'' (e_bool ''enabled'' (mc_enabled m) @ o_int ''intervalHours'' (mc_interval_hours m))
        @ e_obj ''shadowJournal'' (e_bool ''enabled'' (sj_enabled j) @ o_str ''model'' (sj_model j))
        @ e_obj ''gateway'' (encode_gateway (c_gateway c))
        @ e_obj ''speech'' (encode_speech (c_speech c))
        @ e_obj ''logging'' (o_str ''level'' (c_log_level c))))"

datatype save_config_io = SaveCfgOk | SaveCfgMkdirErr | SaveCfgWriteErr config_file

definition save_config :: "(rat \<Rightarrow> string) \<Rightarrow> save_config_io \<Rightarrow> config \<Rightarrow> config_file \<Rightarrow> config_file \<times> bool" where
  "save_config sf io c file =
     (case io of
        SaveCfgOk \<Rightarrow> (CfgJson (encode_config sf c), True)
      | SaveCfgMkdirErr \<Rightarrow> (file, False)
      | SaveCfgWriteErr f \<Rightarrow> (f, False))"

subsection \<open>Reading back an object\<close>

definition reads :: "'r field_table \<Rightarrow> (string \<times> json) list \<Rightarrow> 'r \<Rightarrow> 'r \<Rightarrow> bool" where
  "reads fs kvs r r' \<longleftrightarrow> foldl (dec_entry fs) (r, False) kvs = (r', False)"

lemma reads_nil: "reads fs [] r r"
  by (simp add: reads_def)

lemma reads_append: "reads fs xs r s \<Longrightarrow> reads fs ys s t \<Longrightarrow> reads fs (xs @ ys) r t"
  by (simp add: reads_def)

lemma reads_one: "look_field fs k = Some d \<Longrightarrow> d v r = (r', False) \<Longrightarrow> reads fs [(k, v)] r r'"
  by (simp add: reads_def dec_entry_def)

lemma reads_fld:
  "look_field fs k = Some (fld sel upd d) \<Longrightarrow> d v (sel r) = (x, False) \<Longrightarrow> reads fs [(k, v)] r (upd (\<lambda>_. x) r)"
  by (rule reads_one, assumption) (simp add: fld_def)

lemma dec_values:
  "dec_string (JStr s) o1 = (s, False)" "dec_bool (JBool b) o2 = (b, False)"
  "in_int64 n \<Longrightarrow> dec_int (JNum (show_int n)) o3 = (n, False)"
  "dec_strings (if v = [] then JNull else JArr (map JStr v)) o4 = (v, False)"
  by (auto simp: dec_string_def dec_bool_def dec_int_def dec_strings_def parse_show_int list_ex_iff o_def)

lemma dec_struct_reads: "reads fs kvs r r' \<Longrightarrow> dec_struct fs (JObj kvs) r = (r', False)"
  by (simp add: dec_struct_def reads_def)

lemma reads_str: "look_field fs k = Some (fld sel upd dec_string) \<Longrightarrow> reads fs (e_str k v) r (upd (\<lambda>_. v) r)"
  by (simp add: e_str_def reads_fld dec_values)

lemma reads_bool: "look_field fs k = Some (fld sel upd dec_bool) \<Longrightarrow> reads fs (e_bool k v) r (upd (\<lambda>_. v) r)"
  by (simp add: e_bool_def reads_fld dec_values)

lemma reads_int: "look_field fs k = Some (fld sel upd dec_int) \<Longrightarrow> in_int64 v \<Longrightarrow> reads fs (e_int k v) r (upd (\<lambda>_. v) r)"
  by (simp add: e_int_def reads_fld dec_values)

lemma reads_strs: "look_field fs k = Some (fld sel upd dec_strings) \<Longrightarrow> reads fs (e_strs k v) r (upd (\<lambda>_. v) r)"
  by (simp add: e_strs_def reads_fld dec_values)

lemma reads_obj:
  "look_field fs k = Some (fld sel upd (dec_struct gs)) \<Longrightarrow> reads gs kvs (sel r) x \<Longrightarrow> reads fs (e_obj k kvs) r (upd (\<lambda>_. x) r)"
  by (simp add: e_obj_def reads_fld dec_struct_reads)

lemma reads_flat_obj:
  "look_field fs k = Some (dec_struct gs) \<Longrightarrow> reads gs kvs r x \<Longrightarrow> reads fs (e_obj k kvs) r x"
  by (simp add: e_obj_def reads_one dec_struct_reads)

text \<open>An omitted field is read back because the value it is merged into is empty too.\<close>

lemma reads_o_str:
  "look_field fs k = Some (fld sel upd dec_string) \<Longrightarrow> upd (\<lambda>_. []) r = r \<Longrightarrow> reads fs (o_str k v) r (upd (\<lambda>_. v) r)"
  by (auto simp: o_str_def reads_str reads_nil)

lemma reads_o_bool:
  "look_field fs k = Some (fld sel upd dec_bool) \<Longrightarrow> upd (\<lambda>_. False) r = r \<Longrightarrow> reads fs (o_bool k v) r (upd (\<lambda>_. v) r)"
  by (cases v) (auto simp: o_bool_def reads_bool reads_nil)

lemma reads_o_int:
  "look_field fs k = Some (fld sel upd dec_int) \<Longrightarrow> in_int64 v \<Longrightarrow> v = 0 \<longrightarrow> upd (\<lambda>_. 0) r = r
    \<Longrightarrow> reads fs (o_int k v) r (upd (\<lambda>_. v) r)"
  by (auto simp: o_int_def reads_int reads_nil)

lemma reads_o_strs:
  "look_field fs k = Some (fld sel upd dec_strings) \<Longrightarrow> upd (\<lambda>_. []) r = r \<Longrightarrow> reads fs (o_strs k v) r (upd (\<lambda>_. v) r)"
  by (auto simp: o_strs_def reads_strs reads_nil)

lemmas reads_values = reads_str reads_bool reads_int reads_strs reads_o_str reads_o_bool reads_o_int reads_o_strs

lemma reads_eq: "reads fs kvs r s \<Longrightarrow> s = t \<Longrightarrow> reads fs kvs r t"
  by simp

lemma look_at: "map_of fs k = Some d \<Longrightarrow> look_field fs k = Some d"
  by (simp add: look_field_def)

lemma map_of_here: "map_of ((k, d) # fs) k = Some d"
  by simp

lemma map_of_later: "k \<noteq> k' \<Longrightarrow> map_of fs k = Some d \<Longrightarrow> map_of ((k', d') # fs) k = Some d"
  by simp

subsection \<open>The round trip, section by section\<close>

lemma agent_reads:
  assumes "r = c_agent (default_config home)"
    and "in_int64 (ac_max_tokens a)"
    and "in_int64 (ac_max_tool_iterations a)"
  shows "reads agent_fields (e_str ''workspace'' (ac_workspace a) @ e_str ''model'' (ac_model a)
    @ e_int ''maxTokens'' (ac_max_tokens a) @ e_int ''maxToolIterations'' (ac_max_tool_iterations a)) r a"
  unfolding agent_fields_def
  by (rule reads_eq, (rule reads_append
      | (rule reads_values reads_obj reads_flat_obj, rule look_at, (rule map_of_here | (rule map_of_later, simp))+)
      | (simp add: assms default_config_def; fail))+)

lemma telegram_reads:
  assumes "r = ch_telegram (c_channels (default_config home))"
  shows "reads telegram_fields (e_bool ''enabled'' (tg_enabled t) @ e_str ''token'' (tg_token t) @ e_strs ''allowFrom'' (tg_allow_from t)
    @ o_str ''proxy'' (tg_proxy t) @ o_str ''rootDir'' (tg_root_dir t) @ o_str ''feedback'' (tg_feedback t)
    @ o_bool ''streaming'' (tg_streaming t)) r t"
  unfolding telegram_fields_def
  by (rule reads_eq, (rule reads_append
      | (rule reads_values reads_obj reads_flat_obj, rule look_at, (rule map_of_here | (rule map_of_later, simp))+)
      | (simp add: assms default_config_def; fail))+)

lemma feishu_reads:
  assumes "r = ch_feishu (c_channels (default_config home))"
    and "in_int64 (fs_port f)"
  shows "reads feishu_fields (e_bool ''enabled'' (fs_enabled f) @ e_str ''appId'' (fs_app_id f) @ e_str ''appSecret'' (fs_app_secret f)
    @ e_str ''verificationToken'' (fs_verification_token f) @ o_str ''encryptKey'' (fs_encrypt_key f)
    @ o_int ''port'' (fs_port f) @ e_strs ''allowFrom'' (fs_allow_from f) @ o_str ''proxy'' (fs_proxy f)) r f"
  unfolding feishu_fields_def
  by (rule reads_eq, (rule reads_append
      | (rule reads_values reads_obj reads_flat_obj, rule look_at, (rule map_of_here | (rule map_of_later, simp))+)
      | (simp add: assms default_config_def; fail))+)

lemma wecom_reads:
  assumes "r = ch_wecom (c_channels (default_config home))"
    and "in_int64 (wc_port w)"
  shows "reads wecom_fields (e_bool ''enabled'' (wc_enabled w) @ e_str ''token'' (wc_token w) @ e_str ''encodingAESKey'' (wc_aes_key w)
    @ o_str ''receiveId'' (wc_receive_id w) @ o_int ''port'' (wc_port w) @ e_strs ''allowFrom'' (wc_allow_from w)
    @ o_str ''proxy'' (wc_proxy w)) r w"
  unfolding wecom_fields_def
  by (rule reads_eq, (rule reads_append
      | (rule reads_values reads_obj reads_flat_obj, rule look_at, (rule map_of_here | (rule map_of_later, simp))+)
      | (simp add: assms default_config_def; fail))+)

lemma whatsapp_reads:
  assumes "r = ch_whatsapp (c_channels (default_config home))"
  shows "reads whatsapp_fields (e_bool ''enabled'' (wa_enabled a) @ o_str ''jid'' (wa_jid a) @ o_str ''storePath'' (wa_store_path a)
    @ o_strs ''allowFrom'' (wa_allow_from a)) r a"
  unfolding whatsapp_fields_def
  by (rule reads_eq, (rule reads_append
      | (rule reads_values reads_obj reads_flat_obj, rule look_at, (rule map_of_here | (rule map_of_later, simp))+)
      | (simp add: assms default_config_def; fail))+)

lemma matrix_reads:
  assumes "r = ch_matrix (c_channels (default_config home))"
  shows "reads matrix_fields (e_bool ''enabled'' (mx_enabled m) @ e_str ''homeserver'' (mx_homeserver m)
    @ e_str ''accessToken'' (mx_access_token m) @ e_str ''userId'' (mx_user_id m) @ o_str ''deviceId'' (mx_device_id m)
    @ e_strs ''allowFrom'' (mx_allow_from m) @ e_strs ''allowRooms'' (mx_allow_rooms m)) r m"
  unfolding matrix_fields_def
  by (rule reads_eq, (rule reads_append
      | (rule reads_values reads_obj reads_flat_obj, rule look_at, (rule map_of_here | (rule map_of_later, simp))+)
      | (simp add: assms default_config_def; fail))+)

lemma web_reads:
  assumes "r = ch_web (c_channels (default_config home))"
  shows "reads web_fields (e_bool ''enabled'' (wb_enabled b) @ o_strs ''allowFrom'' (wb_allow_from b)
    @ e_obj ''voice'' (e_bool ''enabled'' (wb_voice_enabled b))) r b"
  unfolding web_fields_def web_voice_fields_def
  by (rule reads_eq, (rule reads_append
      | (rule reads_values reads_obj reads_flat_obj, rule look_at, (rule map_of_here | (rule map_of_later, simp))+)
      | (simp add: assms default_config_def; fail))+)

lemma channels_reads:
  assumes "r = c_channels (default_config home)"
    and "in_int64 (fs_port (ch_feishu c))"
    and "in_int64 (wc_port (ch_wecom c))"
  shows "reads channels_fields (encode_channels c) r c"
  unfolding channels_fields_def encode_channels_def Let_def
  by (rule reads_eq, (rule reads_append telegram_reads feishu_reads wecom_reads whatsapp_reads matrix_reads web_reads
      | (rule reads_values reads_obj reads_flat_obj, rule look_at, (rule map_of_here | (rule map_of_later, simp))+)
      | (simp add: assms default_config_def; fail))+)

lemma gateway_reads:
  assumes "r = c_gateway (default_config home)"
    and "in_int64 (gc_port g)"
    and "in_int64 (gc_debounce_ms g)"
    and "in_int64 (gc_max_runs g)"
  shows "reads gateway_fields (encode_gateway g) r g"
  unfolding gateway_fields_def cron_fields_def encode_gateway_def
  by (rule reads_eq, (rule reads_append
      | (rule reads_values reads_obj reads_flat_obj, rule look_at, (rule map_of_here | (rule map_of_later, simp))+)
      | (simp add: assms default_config_def; fail))+)

lemma speech_reads:
  assumes "r = c_speech (default_config home)"
    and "in_int64 (sp_wake_timeout_ms s)"
  shows "reads speech_fields (encode_speech s) r s"
  unfolding speech_fields_def capture_fields_def playback_fields_def cartesia_fields_def elevenlabs_fields_def deepgram_fields_def openai_speech_fields_def wake_fields_def encode_speech_def
  by (rule reads_eq, (rule reads_append
      | (rule reads_values reads_obj reads_flat_obj, rule look_at, (rule map_of_here | (rule map_of_later, simp))+)
      | (simp add: assms default_config_def; fail))+)

lemma agents_decoded:
  "distinct (map fst m @ map fst ags) \<Longrightarrow>
    foldl (\<lambda>(m, e) (k, v). (case dec_struct acp_agent_fields v zero_agent of (x, e') \<Rightarrow> (map_put k x m, e \<or> e')))
      (m, False) (map (\<lambda>(k, a). (k, encode_agent a)) ags) = (m @ ags, False)"
proof (induction ags arbitrary: m)
  case (Cons p ags)
  obtain k a where p: "p = (k, a)" by (cases p)
  have "reads acp_agent_fields (e_str ''command'' (aa_command a) @ o_strs ''args'' (aa_args a) @ o_strs ''env'' (aa_env a)) zero_agent a"
    unfolding acp_agent_fields_def
    by (rule reads_eq, (rule reads_append
        | (rule reads_values, rule look_at, (rule map_of_here | (rule map_of_later, simp))+)
        | (simp add: zero_agent_def; fail))+)
  then have d: "dec_struct acp_agent_fields (encode_agent a) zero_agent = (a, False)"
    by (simp add: encode_agent_def dec_struct_reads)
  have "k \<notin> fst ` set m" using Cons.prems p by auto
  then have "map_put k a m = m @ [(k, a)]" by (induction m) (auto simp: map_put_def)
  with Cons.IH [of "m @ [(k, a)]"] Cons.prems p d show ?case by simp
qed simp

lemma acp_agents_reads:
  assumes "tc_acp_agents r = []" and "distinct (map fst ags)"
  shows "reads acp_fields (if ags = [] then [] else e_obj ''agents'' (map (\<lambda>(k, a). (k, encode_agent a)) ags)) r
    (r\<lparr>tc_acp_agents := ags\<rparr>)"
proof (cases "ags = []")
  case True
  then show ?thesis using assms(1) by (cases r) (simp add: reads_nil)
next
  case False
  have "look_field acp_fields ''agents''
      = Some (fld tc_acp_agents tc_acp_agents_update (dec_map zero_agent (dec_struct acp_agent_fields)))"
    by (simp add: look_field_def acp_fields_def)
  moreover have "dec_map zero_agent (dec_struct acp_agent_fields) (JObj (map (\<lambda>(k, a). (k, encode_agent a)) ags)) (tc_acp_agents r)
      = (ags, False)"
    using agents_decoded [of "[]" ags] assms by (simp add: dec_map_def)
  ultimately show ?thesis using False by (simp add: e_obj_def reads_fld)
qed

lemma tools_reads:
  assumes "r = c_tools (default_config home)" and "in_int64 (tc_exec_timeout t)" and "distinct (map fst (tc_acp_agents t))"
  shows "reads tools_fields (encode_tools t) r t"
proof -
  let ?r = "r\<lparr>tc_exec_timeout := tc_exec_timeout t, tc_restrict := tc_restrict t, tc_acp_enabled := tc_acp_enabled t\<rparr>"
  have l: "look_field tools_fields ''execTimeout'' = Some (fld tc_exec_timeout tc_exec_timeout_update dec_int)"
    "look_field tools_fields ''restrictToWorkspace'' = Some (fld tc_restrict tc_restrict_update dec_bool)"
    "look_field tools_fields ''acp'' = Some (dec_struct acp_fields)" "look_field tools_fields ''task'' = Some (dec_struct task_fields)"
    "look_field acp_fields ''enabled'' = Some (fld tc_acp_enabled tc_acp_enabled_update dec_bool)"
    "look_field task_fields ''enabled'' = Some (fld tc_task_enabled tc_task_enabled_update dec_bool)"
    by (simp_all add: look_field_def tools_fields_def acp_fields_def task_fields_def)
  have e: "tc_acp_agents ?r = []" using assms(1) by (simp add: default_config_def)
  show ?thesis
    unfolding encode_tools_def
    by (rule reads_eq [OF reads_append [OF reads_int [OF l(1) assms(2)] reads_append [OF reads_bool [OF l(2)]
          reads_append [OF reads_flat_obj [OF l(3) reads_append [OF reads_bool [OF l(5)] acp_agents_reads]]
            reads_flat_obj [OF l(4) reads_bool [OF l(6)]]]]]])
      (use assms(3) e in simp_all)
qed

lemma provider_reads:
  assumes "r = c_provider (default_config home)"
  shows "reads provider_fields (o_str ''type'' (pc_type p) @ e_str ''apiKey'' (pc_api_key p) @ o_str ''baseUrl'' (pc_base_url p)) r p"
  unfolding provider_fields_def
  by (rule reads_eq, (rule reads_append
      | (rule reads_values, rule look_at, (rule map_of_here | (rule map_of_later, simp))+)
      | (simp add: assms default_config_def; fail))+)

lemma threshold_reads:
  assumes "pf (sf q) = Some q" and "q \<noteq> 0"
  shows "reads (auto_compact_fields pf) (if q = 0 then [] else [(''threshold'', JNum (sf q))]) r (r\<lparr>au_threshold := q\<rparr>)"
  using assms reads_fld [of "auto_compact_fields pf" "''threshold''" au_threshold au_threshold_update "dec_float pf" "JNum (sf q)" r q]
  by (simp add: look_field_def auto_compact_fields_def dec_float_def)

lemma auto_compact_reads:
  assumes "pf (sf (au_threshold u)) = Some (au_threshold u)" and "au_threshold u \<noteq> 0" and "au_preserve u \<noteq> 0"
    and "in_int64 (au_preserve u)"
  shows "reads (auto_compact_fields pf) (e_bool ''enabled'' (au_enabled u)
      @ (if au_threshold u = 0 then [] else [(''threshold'', JNum (sf (au_threshold u)))]) @ o_int ''preserveCount'' (au_preserve u)) r u"
proof -
  have l: "look_field (auto_compact_fields pf) ''enabled'' = Some (fld au_enabled au_enabled_update dec_bool)"
    "look_field (auto_compact_fields pf) ''preserveCount'' = Some (fld au_preserve au_preserve_update dec_int)"
    by (simp_all add: look_field_def auto_compact_fields_def)
  show ?thesis
    by (rule reads_eq [OF reads_append [OF reads_bool [OF l(1)] reads_append [OF threshold_reads [of pf sf "au_threshold u", OF assms(1,2)]
          reads_o_int [OF l(2) assms(4)]]]])
      (use assms(3) in simp_all)
qed

subsection \<open>Types\<close>

definition config_ints :: "config \<Rightarrow> int list" where
  "config_ints c =
     [ac_max_tokens (c_agent c), ac_max_tool_iterations (c_agent c), fs_port (ch_feishu (c_channels c)),
      wc_port (ch_wecom (c_channels c)), tc_exec_timeout (c_tools c), gc_port (c_gateway c),
      gc_debounce_ms (c_gateway c), gc_max_runs (c_gateway c), sp_wake_timeout_ms (c_speech c),
      au_preserve (c_auto_compact c), mc_interval_hours (c_mem_consolidate c)]"

definition typed_config :: "config \<Rightarrow> bool" where
  "typed_config c \<longleftrightarrow> list_all in_int64 (config_ints c) \<and> distinct (map fst (tc_acp_agents (c_tools c)))"

text \<open>A decoder that keeps a property of the value it merges into.\<close>

definition keeps :: "('a \<Rightarrow> bool) \<Rightarrow> 'a decoder \<Rightarrow> bool" where
  "keeps P d \<longleftrightarrow> (\<forall>j x. P x \<longrightarrow> P (fst (d j x)))"

lemma keeps_any: "keeps (\<lambda>_. True) d"
  by (simp add: keeps_def)

lemma keeps_int: "keeps in_int64 dec_int"
proof -
  have "parse_int t = Some n \<Longrightarrow> in_int64 n" for t n
    by (auto simp: parse_int_def Let_def split: list.splits if_splits option.splits)
  then show ?thesis by (auto simp: keeps_def dec_int_def split: json.split option.split)
qed

lemma keeps_fld:
  "keeps Q d \<Longrightarrow> (\<And>r. P r \<Longrightarrow> Q (sel r)) \<Longrightarrow> (\<And>r x. P r \<Longrightarrow> Q x \<Longrightarrow> P (upd (\<lambda>_. x) r)) \<Longrightarrow> keeps P (fld sel upd d)"
  by (auto simp: keeps_def fld_def split: prod.split) (metis fst_conv)

lemma keeps_entries:
  assumes "\<And>n d. (n, d) \<in> set fs \<Longrightarrow> \<exists>kv \<in> set kvs. equal_fold n (fst kv) \<Longrightarrow> keeps P d" and "P (fst st)"
  shows "P (fst (foldl (dec_entry fs) st kvs))"
  using assms
proof (induction kvs arbitrary: st)
  case (Cons kv kvs)
  have "P (fst (dec_entry fs st kv))"
  proof (cases "look_field fs (fst kv)")
    case None
    then show ?thesis using Cons.prems by (simp add: dec_entry_def)
  next
    case (Some d)
    have "\<exists>n. (n, d) \<in> set fs \<and> equal_fold n (fst kv)"
    proof (cases "map_of fs (fst kv)")
      case None
      with Some show ?thesis by (auto simp: look_field_def find_Some_iff) (metis fst_conv nth_mem)
    next
      case (Some d')
      with \<open>look_field fs (fst kv) = Some d\<close> show ?thesis
        by (auto simp: look_field_def dest!: map_of_SomeD intro!: exI [of _ "fst kv"])
    qed
    then have "keeps P d" using Cons.prems(1) by (metis list.set_intros(1))
    then show ?thesis using Some Cons.prems(2) by (auto simp: dec_entry_def keeps_def split: prod.split) (metis fst_conv)
  qed
  then show ?case using Cons.IH Cons.prems(1) by (metis foldl_Cons list.set_intros(2))
qed simp

lemma keeps_struct: "list_all (\<lambda>f. keeps P (snd f)) fs \<Longrightarrow> keeps P (dec_struct fs)"
  unfolding keeps_def [of P "dec_struct fs"]
proof (intro allI impI)
  fix j r assume fs: "list_all (\<lambda>f. keeps P (snd f)) fs" and r: "P r"
  have "P (fst (foldl (dec_entry fs) (r, False) kvs))" for kvs
    by (rule keeps_entries) (use fs r in \<open>auto simp: list_all_iff\<close>)
  with r show "P (fst (dec_struct fs j r))" by (cases j) (simp_all add: dec_struct_def)
qed

lemma keeps_agents: "keeps (\<lambda>m. distinct (map fst m)) (dec_map zero d)"
proof -
  have "distinct (map fst m) \<Longrightarrow>
      distinct (map fst (fst (foldl (\<lambda>(m, e) (k, v). (case d v zero of (x, e') \<Rightarrow> (map_put k x m, e \<or> e'))) (m, e) kvs)))" for m e kvs
    by (induction kvs arbitrary: m e) (auto simp: map_put_def distinct_update split: prod.split)
  then show ?thesis by (auto simp: keeps_def dec_map_def split: json.split)
qed

lemma config_reads:
  assumes "typed_config c" and "pf (sf (au_threshold (c_auto_compact c))) = Some (au_threshold (c_auto_compact c))"
    and "au_threshold (c_auto_compact c) \<noteq> 0" and "au_preserve (c_auto_compact c) \<noteq> 0"
    and "mc_interval_hours (c_mem_consolidate c) \<noteq> 0" and "r = default_config home"
  shows "dec_struct (config_fields pf) (encode_config sf c) r = (c, False)"
proof -
  have h: "in_int64 (ac_max_tokens (c_agent c))" "in_int64 (ac_max_tool_iterations (c_agent c))"
    "in_int64 (fs_port (ch_feishu (c_channels c)))" "in_int64 (wc_port (ch_wecom (c_channels c)))"
    "in_int64 (tc_exec_timeout (c_tools c))" "in_int64 (gc_port (c_gateway c))" "in_int64 (gc_debounce_ms (c_gateway c))"
    "in_int64 (gc_max_runs (c_gateway c))" "in_int64 (sp_wake_timeout_ms (c_speech c))"
    "in_int64 (au_preserve (c_auto_compact c))" "in_int64 (mc_interval_hours (c_mem_consolidate c))"
    "distinct (map fst (tc_acp_agents (c_tools c)))"
    using assms(1) by (simp_all add: typed_config_def config_ints_def)
  note side = h assms(2-)
  show ?thesis
    unfolding encode_config_def Let_def config_fields_def skills_fields_def mcp_fields_def logging_fields_def
      mem_consolidate_fields_def shadow_journal_fields_def
    by (rule dec_struct_reads, rule reads_eq, (rule reads_append agent_reads channels_reads provider_reads tools_reads
          auto_compact_reads gateway_reads speech_reads
        | (rule reads_values reads_obj reads_flat_obj, rule look_at, (rule map_of_here | (rule map_of_later, simp))+)
        | (simp add: side default_config_def; fail))+)
qed

text \<open>Each section keeps its integers in range.\<close>

lemma agent_typed: "keeps (\<lambda>a. in_int64 (ac_max_tokens a) \<and> in_int64 (ac_max_tool_iterations a)) (dec_struct agent_fields)"
  unfolding agent_fields_def by (rule keeps_struct) (simp, (rule conjI | (rule keeps_fld [OF keeps_int] keeps_fld [OF keeps_any], simp, simp))+)

lemma feishu_typed: "keeps (\<lambda>f. in_int64 (fs_port f)) (dec_struct feishu_fields)"
  unfolding feishu_fields_def by (rule keeps_struct) (simp, (rule conjI | (rule keeps_fld [OF keeps_int] keeps_fld [OF keeps_any], simp, simp))+)

lemma wecom_typed: "keeps (\<lambda>w. in_int64 (wc_port w)) (dec_struct wecom_fields)"
  unfolding wecom_fields_def by (rule keeps_struct) (simp, (rule conjI | (rule keeps_fld [OF keeps_int] keeps_fld [OF keeps_any], simp, simp))+)

lemma channels_typed:
  "keeps (\<lambda>c. in_int64 (fs_port (ch_feishu c)) \<and> in_int64 (wc_port (ch_wecom c))) (dec_struct channels_fields)"
  unfolding channels_fields_def
  by (rule keeps_struct) (simp, (rule conjI
      | (rule keeps_fld [OF feishu_typed] keeps_fld [OF wecom_typed] keeps_fld [OF keeps_any], simp, simp))+)

lemma gateway_typed:
  "keeps (\<lambda>g. in_int64 (gc_port g) \<and> in_int64 (gc_debounce_ms g) \<and> in_int64 (gc_max_runs g)) (dec_struct gateway_fields)"
  unfolding gateway_fields_def cron_fields_def
  by (rule keeps_struct) (simp, (rule conjI | (rule keeps_struct, simp)
      | (rule keeps_fld [OF keeps_int] keeps_fld [OF keeps_any], simp, simp))+)

lemma speech_typed: "keeps (\<lambda>s. in_int64 (sp_wake_timeout_ms s)) (dec_struct speech_fields)"
  unfolding speech_fields_def capture_fields_def playback_fields_def cartesia_fields_def elevenlabs_fields_def
    deepgram_fields_def openai_speech_fields_def wake_fields_def
  by (rule keeps_struct) (simp, (rule conjI | (rule keeps_struct, simp)
      | (rule keeps_fld [OF keeps_int] keeps_fld [OF keeps_any], simp, simp))+)

lemma auto_compact_typed: "keeps (\<lambda>u. in_int64 (au_preserve u)) (dec_struct (auto_compact_fields pf))"
  unfolding auto_compact_fields_def
  by (rule keeps_struct) (simp, (rule conjI | (rule keeps_fld [OF keeps_int] keeps_fld [OF keeps_any], simp, simp))+)

lemma mem_consolidate_typed: "keeps (\<lambda>m. in_int64 (mc_interval_hours m)) (dec_struct mem_consolidate_fields)"
  unfolding mem_consolidate_fields_def
  by (rule keeps_struct) (simp, (rule conjI | (rule keeps_fld [OF keeps_int] keeps_fld [OF keeps_any], simp, simp))+)

lemma tools_typed:
  "keeps (\<lambda>t. in_int64 (tc_exec_timeout t) \<and> distinct (map fst (tc_acp_agents t))) (dec_struct tools_fields)"
  unfolding tools_fields_def acp_fields_def task_fields_def
  by (rule keeps_struct) (simp, (rule conjI | (rule keeps_struct, simp)
      | (rule keeps_fld [OF keeps_agents] keeps_fld [OF keeps_int] keeps_fld [OF keeps_any], simp, simp))+)

lemmas section_typed = agent_typed channels_typed gateway_typed speech_typed auto_compact_typed mem_consolidate_typed tools_typed

lemma config_typed: "keeps typed_config (dec_struct (config_fields pf))"
  unfolding config_fields_def mcp_fields_def logging_fields_def
  by (rule keeps_struct) (simp, (rule conjI | (rule keeps_struct, simp)
      | (rule section_typed [THEN keeps_fld] keeps_fld [OF keeps_any], (simp add: typed_config_def config_ints_def; fail),
          (simp add: typed_config_def config_ints_def; fail)))+)

subsection \<open>Loading\<close>

lemma typed_default: "typed_config (default_config home)"
  by (simp add: typed_config_def config_ints_def default_config_def in_int64_def int64_min_def int64_max_def)

lemma default_workspace_nonempty: "default_workspace home \<noteq> []"
  by (simp add: default_workspace_def join_path_def clean_path_def Let_def)

lemma decode_typed: "decode_config pf home file = Inr c \<Longrightarrow> typed_config c"
  using config_typed [of pf] typed_default
  by (auto simp: decode_config_def keeps_def split: config_file.splits prod.splits if_splits) (metis fst_conv)

lemma set_from_env_frame: "(\<And>x. sel (upd x r) = sel r) \<Longrightarrow> sel (set_from_env upd v r) = sel r"
  by (simp add: set_from_env_def Let_def)

lemma apply_env_frames:
  "c_agent (apply_env env c) = c_agent c" "c_channels (apply_env env c) = c_channels c" "c_tools (apply_env env c) = c_tools c"
  "c_gateway (apply_env env c) = c_gateway c" "c_auto_compact (apply_env env c) = c_auto_compact c"
  "c_mem_consolidate (apply_env env c) = c_mem_consolidate c"
  "sp_wake_timeout_ms (c_speech (apply_env env c)) = sp_wake_timeout_ms (c_speech c)"
  by (simp_all add: apply_env_def speech_env_def set_from_env_def Let_def)

lemma typed_frame:
  "c_agent c' = c_agent c \<or> (\<exists>ws. c_agent c' = (c_agent c)\<lparr>ac_workspace := ws\<rparr>) \<Longrightarrow> c_channels c' = c_channels c \<Longrightarrow>
   c_tools c' = c_tools c \<Longrightarrow> c_gateway c' = c_gateway c \<Longrightarrow> c_auto_compact c' = c_auto_compact c \<Longrightarrow>
   c_mem_consolidate c' = c_mem_consolidate c \<Longrightarrow> sp_wake_timeout_ms (c_speech c') = sp_wake_timeout_ms (c_speech c) \<Longrightarrow>
   typed_config c' = typed_config c"
  by (auto simp: typed_config_def config_ints_def)

text \<open>C35: loading is type safe: whatever the file and the environment hold, a configuration that is loaded has
  integers of the machine's width, agents of distinct names and a workspace, and its log level is what the
  environment says, if it says anything.\<close>

theorem loaded_config_typed:
  assumes "load_config pf home env file = Inr c"
  shows "typed_config c \<and> ac_workspace (c_agent c) \<noteq> []
    \<and> (trim_space (env ''MAVEN_LOG_LEVEL'') \<noteq> [] \<longrightarrow> c_log_level c = trim_space (env ''MAVEN_LOG_LEVEL''))"
proof -
  obtain c0 where d: "decode_config pf home file = Inr c0" and c: "c = default_if_empty home (apply_env env c0)"
    using assms by (auto simp: load_config_def bind_res_Inr_iff)
  have "typed_config c = typed_config c0"
    unfolding c by (rule typed_frame) (auto simp: default_if_empty_def apply_env_frames)
  then have "typed_config c" using decode_typed [OF d] by simp
  moreover have "ac_workspace (c_agent c) \<noteq> []"
    by (simp add: c default_if_empty_def default_workspace_nonempty)
  moreover have "c_log_level c = c_log_level (apply_env env c0)" by (simp add: c default_if_empty_def)
  ultimately show ?thesis by (simp add: apply_env_def set_from_env_def Let_def)
qed

lemma blank_env:
  assumes "\<forall>v. trim_space (env v) = []"
  shows "apply_env env c = c"
  using assms by (simp add: apply_env_def provider_env_def speech_env_def set_from_env_def)


definition tuned_config :: config where
  "tuned_config = (default_config ''/home/u'')\<lparr>c_log_level := ''debug''\<rparr>"


theorem loaded_config_typed_witness:
  "ac_workspace (c_agent (the (case load_config (\<lambda>_. None) ''/root'' (\<lambda>_. []) CfgMissing of Inl _ \<Rightarrow> None | Inr c \<Rightarrow> Some c))) \<noteq> []"
proof -
  obtain c where c: "load_config (\<lambda>_. None) ''/root'' (\<lambda>_. []) CfgMissing = Inr c"
    by (simp add: load_config_def decode_config_def)
  show ?thesis using loaded_config_typed [OF c] c by simp
qed

text \<open>A valid \<open>preserveCount\<close> of 0 is not written, and is read back as 5.\<close>

lemma zero_preserve_count_lost:
  "dec_struct (auto_compact_fields pf) (JObj (e_bool ''enabled'' True @ [(''threshold'', JNum t)] @ o_int ''preserveCount'' 0))
     (c_auto_compact (default_config home)) = (\<lparr>au_enabled = True, au_threshold = q, au_preserve = 5\<rparr>, False)"
  if "pf t = Some q"
  using that by (simp add: dec_struct_def dec_entry_def look_field_def auto_compact_fields_def fld_def e_bool_def o_int_def
      dec_bool_def dec_float_def default_config_def)

text \<open>A wake timeout that validation accepts can wrap to a negative window.\<close>

lemma wake_window_wraps:
  "sp_wake_timeout_ms s = 9223372036855 \<Longrightarrow> validate_speech (s\<lparr>sp_echo_cancel := ''off''\<rparr>) = [] \<and> wake_window s < 0"
proof -
  assume t: "sp_wake_timeout_ms s = 9223372036855"
  have e: "to_lower (trim_space ''off'') = ''off''" by code_simp
  show ?thesis using t by (simp add: validate_speech_def e unless_def wake_window_def wrap64_def millisecond_def)
qed

end
