(* ===== verification/Webhook.thy ===== *)
theory Webhook
  imports GoStrings "HOL-Library.AList" "HOL-Library.List_Lexorder" "HOL-Library.Char_ord"
begin

text \<open>
  \<open>internal/kernel/channels/webhook\<close> and \<open>internal/kernel/channels/allowlist\<close>: what webhook channels share: the cache of
  message ids, the cache of reply addresses, the signature, and the allow list. The clock and the digest are
  arguments; a Go map is the list of its entries.
\<close>

subsection \<open>Message ids\<close>

record msg_cache =
  mg_items :: "(string \<times> instant) list"
  mg_ttl :: duration
  mg_last_gc :: instant

definition scan_interval :: duration where "scan_interval = minute"

definition new_msg_cache :: "duration \<Rightarrow> msg_cache" where
  "new_msg_cache ttl = \<lparr>mg_items = [], mg_ttl = (if ttl \<le> 0 then 5 * minute else ttl), mg_last_gc = time_zero\<rparr>"

definition msg_gc :: "instant \<Rightarrow> msg_cache \<Rightarrow> msg_cache" where
  "msg_gc now c =
     (if is_zero_time (mg_last_gc c) \<or> now - mg_last_gc c \<ge> scan_interval
      then c\<lparr>mg_items := filter (\<lambda>it. \<not> now > snd it) (mg_items c), mg_last_gc := now\<rparr> else c)"

definition seen :: "string \<Rightarrow> instant \<Rightarrow> msg_cache \<Rightarrow> msg_cache \<times> bool" where
  "seen key now c =
     (if key = [] then (c, False)
      else if (case map_of (mg_items c) key of Some e \<Rightarrow> now < e | None \<Rightarrow> False) then (c, True)
      else (msg_gc now (c\<lparr>mg_items := AList.update key (now + mg_ttl c) (AList.delete key (mg_items c))\<rparr>), False))"

fun seen_run :: "(string \<times> instant) list \<Rightarrow> msg_cache \<Rightarrow> bool list" where
  "seen_run [] c = []"
| "seen_run ((key, now) # calls) c = (case seen key now c of (c', r) \<Rightarrow> r # seen_run calls c')"

text \<open>The reference: the time each key was last accepted, nothing ever forgotten.\<close>

definition ref_seen :: "duration \<Rightarrow> string \<Rightarrow> instant \<Rightarrow> (string \<Rightarrow> instant option) \<Rightarrow> (string \<Rightarrow> instant option) \<times> bool" where
  "ref_seen ttl key now m =
     (if key = [] then (m, False)
      else if (\<exists>t. m key = Some t \<and> now < t + ttl) then (m, True) else (m(key \<mapsto> now), False))"

fun ref_run :: "duration \<Rightarrow> (string \<times> instant) list \<Rightarrow> (string \<Rightarrow> instant option) \<Rightarrow> bool list" where
  "ref_run ttl [] m = []"
| "ref_run ttl ((key, now) # calls) m = (case ref_seen ttl key now m of (m', r) \<Rightarrow> r # ref_run ttl calls m')"

definition cache_agrees :: "instant \<Rightarrow> msg_cache \<Rightarrow> (string \<Rightarrow> instant option) \<Rightarrow> bool" where
  "cache_agrees t0 c m \<longleftrightarrow> distinct (map fst (mg_items c))
     \<and> (\<forall>k e. map_of (mg_items c) k = Some e \<longrightarrow> m k = Some (e - mg_ttl c))
     \<and> (\<forall>k t. map_of (mg_items c) k = None \<longrightarrow> m k = Some t \<longrightarrow> t + mg_ttl c \<le> t0)"

lemma map_of_filter_items:
  "distinct (map fst xs) \<Longrightarrow> map_of (filter (\<lambda>it. P (snd it)) xs) k
     = (case map_of xs k of Some e \<Rightarrow> if P e then Some e else None | None \<Rightarrow> None)"
  by (induction xs) (auto split: option.splits simp: map_of_eq_None_iff image_iff)

lemma gc_agrees:
  assumes "cache_agrees now c m"
  shows "cache_agrees now (msg_gc now c) m"
proof (cases "is_zero_time (mg_last_gc c) \<or> now - mg_last_gc c \<ge> scan_interval")
  case True
  have f: "map_of (filter (\<lambda>it. \<not> snd it < now) (mg_items c)) k
      = (case map_of (mg_items c) k of Some e \<Rightarrow> if \<not> e < now then Some e else None | None \<Rightarrow> None)" for k
    using assms map_of_filter_items [of "mg_items c" "\<lambda>e. \<not> e < now" k] by (simp add: cache_agrees_def)
  have "distinct (map fst (filter (\<lambda>it. \<not> now > snd it) (mg_items c)))"
    using assms by (simp add: cache_agrees_def distinct_map_filter)
  then show ?thesis
    using True assms by (fastforce simp: msg_gc_def cache_agrees_def f split: option.splits if_splits)
qed (use assms in \<open>simp add: msg_gc_def\<close>)

lemma gc_ttl [simp]: "mg_ttl (msg_gc now c) = mg_ttl c"
  by (simp add: msg_gc_def)

lemma cache_agrees_mono: "cache_agrees t0 c m \<Longrightarrow> t0 \<le> now \<Longrightarrow> cache_agrees now c m"
  by (force simp: cache_agrees_def split: option.splits)

lemma seen_agrees:
  assumes "cache_agrees t0 c m" and "t0 \<le> now" and "seen key now c = (c', r)" and "ref_seen (mg_ttl c) key now m = (m', r')"
  shows "r = r' \<and> cache_agrees now c' m' \<and> mg_ttl c' = mg_ttl c"
proof (cases "key = []")
  case True
  then show ?thesis using assms cache_agrees_mono by (auto simp: seen_def ref_seen_def)
next
  case False
  let ?live = "case map_of (mg_items c) key of Some e \<Rightarrow> now < e | None \<Rightarrow> False"
  have same: "?live \<longleftrightarrow> (\<exists>t. m key = Some t \<and> now < t + mg_ttl c)"
    using assms(1,2) by (fastforce simp: cache_agrees_def split: option.splits dest: spec [of _ key])
  show ?thesis
  proof (cases ?live)
    case True
    then show ?thesis
      using same assms False cache_agrees_mono [OF assms(1,2)] by (auto simp: seen_def ref_seen_def)
  next
    case new: False
    let ?c = "c\<lparr>mg_items := AList.update key (now + mg_ttl c) (AList.delete key (mg_items c))\<rparr>"
    have "cache_agrees now ?c (m(key \<mapsto> now))"
      using cache_agrees_mono [OF assms(1,2)]
      by (auto simp: cache_agrees_def update_conv' delete_conv' distinct_update distinct_delete)
    then have "cache_agrees now (msg_gc now ?c) (m(key \<mapsto> now))" by (rule gc_agrees)
    moreover have e: "\<not> (\<exists>t. m key = Some t \<and> now < t + mg_ttl c)" using same new by blast
    moreover have "(m', r') = (m(key \<mapsto> now), False)"
      using assms(4) False by (simp only: ref_seen_def if_not_P [OF e] if_False)
    moreover have "(c', r) = (msg_gc now ?c, False)"
      using assms(3) False by (simp only: seen_def if_not_P [OF new] if_False)
    ultimately show ?thesis by simp
  qed
qed

lemma seen_runs_agree:
  "cache_agrees t0 c m \<Longrightarrow> sorted (t0 # map snd calls) \<Longrightarrow> seen_run calls c = ref_run (mg_ttl c) calls m"
proof (induction calls arbitrary: t0 c m)
  case (Cons call calls)
  obtain key now where call: "call = (key, now)" by (cases call)
  obtain c' r where c': "seen key now c = (c', r)" by fastforce
  obtain m' r' where m': "ref_seen (mg_ttl c) key now m = (m', r')" by fastforce
  have "r = r' \<and> cache_agrees now c' m' \<and> mg_ttl c' = mg_ttl c"
    using seen_agrees [OF Cons.prems(1) _ c' m'] Cons.prems(2) call by simp
  moreover have "sorted (now # map snd calls)" using Cons.prems(2) call by simp
  ultimately show ?case using Cons.IH [of now c' m'] c' m' call by simp
qed simp

text \<open>The cache forgets nothing it should know: with a clock that does not go back, \<open>Seen\<close> answers every sequence
  of calls as a cache that never collects garbage would: a message id is a duplicate exactly for the
  time to live after it was last accepted.\<close>

theorem seen_is_exact:
  assumes "sorted (map snd calls)"
  shows "seen_run calls (new_msg_cache ttl) = ref_run (if ttl \<le> 0 then 5 * minute else ttl) calls (\<lambda>_. None)"
proof (cases calls)
  case (Cons call rest)
  have "cache_agrees (snd call) (new_msg_cache ttl) (\<lambda>_. None)"
    by (simp add: cache_agrees_def new_msg_cache_def)
  from seen_runs_agree [OF this, of calls] assms Cons show ?thesis by (simp add: new_msg_cache_def)
qed simp

theorem seen_is_exact_witness:
  "seen_run [(''a'', 0), (''a'', 9), (''a'', 10)] (new_msg_cache 10) = [False, True, False]"
proof -
  have "ref_run 10 [(''a'', 0), (''a'', 9), (''a'', 10)] (\<lambda>_. None) = [False, True, False]" by (simp add: ref_seen_def)
  then show ?thesis using seen_is_exact [of "[(''a'', 0), (''a'', 9), (''a'', 10)]" 10] by simp
qed

subsection \<open>Reply addresses\<close>

record reply_cache =
  rc_items :: "(string \<times> string \<times> instant) list"
  rc_ttl :: duration
  rc_last_gc :: instant

definition new_reply_cache :: "duration \<Rightarrow> reply_cache" where
  "new_reply_cache ttl = \<lparr>rc_items = [], rc_ttl = (if ttl \<le> 0 then hour else ttl), rc_last_gc = time_zero\<rparr>"

definition reply_gc :: "instant \<Rightarrow> reply_cache \<Rightarrow> reply_cache" where
  "reply_gc now c =
     (if is_zero_time (rc_last_gc c) \<or> now - rc_last_gc c \<ge> scan_interval
      then c\<lparr>rc_items := filter (\<lambda>it. \<not> now > snd (snd it)) (rc_items c), rc_last_gc := now\<rparr> else c)"

definition reply_set :: "string \<Rightarrow> string \<Rightarrow> instant \<Rightarrow> reply_cache \<Rightarrow> reply_cache" where
  "reply_set chatID0 url0 now c =
     (let chatID = trim_space chatID0; url = trim_space url0 in
      if chatID = [] \<or> url = [] then c
      else reply_gc now (c\<lparr>rc_items := AList.update chatID (url, now + rc_ttl c) (rc_items c)\<rparr>))"

definition reply_get :: "string \<Rightarrow> instant \<Rightarrow> reply_cache \<Rightarrow> reply_cache \<times> string option" where
  "reply_get chatID0 now c =
     (let chatID = trim_space chatID0 in
      if chatID = [] then (c, None)
      else case map_of (rc_items c) chatID of
          None \<Rightarrow> (c, None)
        | Some (url, e) \<Rightarrow>
            if now > e then (c\<lparr>rc_items := AList.delete chatID (rc_items c)\<rparr>, None) else (reply_gc now c, Some url))"

lemma reply_set_get:
  assumes "trim_space chat \<noteq> []" and "trim_space url \<noteq> []" and "0 \<le> rc_ttl c" and "now \<le> t" and "t \<le> now + rc_ttl c"
    and "distinct (map fst (rc_items c))"
  shows "snd (reply_get chat t (reply_set chat url now c)) = Some (trim_space url)"
proof -
  let ?items = "AList.update (trim_space chat) (trim_space url, now + rc_ttl c) (rc_items c)"
  have d: "distinct (map fst ?items)" using assms(6) by (simp add: distinct_update)
  have "map_of ?items (trim_space chat) = Some (trim_space url, now + rc_ttl c)" by (simp add: update_conv')
  moreover have "map_of (filter (\<lambda>it. \<not> now > snd (snd it)) ?items) (trim_space chat) = Some (trim_space url, now + rc_ttl c)"
    using map_of_filter_items [OF d, of "\<lambda>v. \<not> now > snd v" "trim_space chat"] assms(3) by (simp add: update_conv')
  ultimately show ?thesis
    using assms by (auto simp: reply_set_def reply_get_def reply_gc_def Let_def)
qed

subsection \<open>Signature and allow list\<close>

text \<open>\<open>Signature\<close>; \<open>sha1\<close> is the digest in hexadecimal.\<close>

definition webhook_signature :: "(string \<Rightarrow> string) \<Rightarrow> string \<Rightarrow> string \<Rightarrow> string \<Rightarrow> string \<Rightarrow> string" where
  "webhook_signature sha1 token timestamp nonce body = sha1 (concat (sort [token, timestamp, nonce, body]))"

definition new_matcher :: "string list \<Rightarrow> string list" where
  "new_matcher ids = remdups (filter (\<lambda>i. i \<noteq> []) (map trim_space ids))"

definition allow_id :: "string list \<Rightarrow> string \<Rightarrow> bool" where
  "allow_id m i \<longleftrightarrow> m = [] \<or> i \<in> set m"

lemma allow_listed: "allow_id (new_matcher ids) i \<longleftrightarrow> (\<forall>x \<in> set ids. trim_space x = []) \<or> (i \<noteq> [] \<and> i \<in> trim_space ` set ids)"
  by (auto simp: allow_id_def new_matcher_def filter_empty_conv)

text \<open>A list of blanks only is no list: everybody is let in.\<close>

lemma blank_allow_list_admits_all: "allow_id (new_matcher [''  '']) i"
proof -
  have "trim_space ''  '' = []" by code_simp
  then show ?thesis by (simp add: allow_listed)
qed

end
