(* ===== verification/WecomCrypto.thy ===== *)
theory WecomCrypto
  imports Webhook
begin

text \<open>
  \<open>internal/plugins/channel/wecom/wecom_crypto.go\<close>: the envelope of WeCom callbacks. The AES-CBC block mode, base64
  and the random prefix are arguments; the frame inside, its padding and its checks are modelled on bytes.
\<close>

subsection \<open>Primitives\<close>

record crypto =
  cx_encrypt :: "string \<Rightarrow> string \<Rightarrow> string \<Rightarrow> string"
  cx_decrypt :: "string \<Rightarrow> string \<Rightarrow> string \<Rightarrow> string"
  cx_encode64 :: "string \<Rightarrow> string"
  cx_decode64 :: "string \<Rightarrow> string option"

datatype wecom_error =
    EmptyAesKey
  | BadAesKey
  | AesKeyLength nat
  | BadBase64
  | BadBlockSize
  | PaddedLength
  | PaddingLength
  | PaddingBytes
  | PlaintextShort
  | MsgLength
  | ReceiveIdMismatch

definition decode_aes_key :: "crypto \<Rightarrow> string \<Rightarrow> wecom_error + string" where
  "decode_aes_key x encodingAESKey =
     (let t = trim_space encodingAESKey in
      if t = [] then Inl EmptyAesKey
      else case cx_decode64 x (if suffix ''='' t then t else t @ ''='') of
          None \<Rightarrow> Inl BadAesKey
        | Some k \<Rightarrow> if length k = 32 then Inr k else Inl (AesKeyLength (length k)))"

definition pkcs7_pad :: "string \<Rightarrow> nat \<Rightarrow> string" where
  "pkcs7_pad src blockSize =
     (let padding = blockSize - length src mod blockSize; p = (if padding = 0 then blockSize else padding) in
      src @ replicate p (chr_of p))"

definition pkcs7_unpad :: "string \<Rightarrow> nat \<Rightarrow> wecom_error + string" where
  "pkcs7_unpad d blockSize =
     (if d = [] \<or> length d mod blockSize \<noteq> 0 then Inl PaddedLength
      else let padLen = byte_of (d ! (length d - 1)) in
        if padLen = 0 \<or> padLen > blockSize \<or> padLen > length d then Inl PaddingLength
        else if list_all (\<lambda>c. byte_of c = padLen) (drop (length d - padLen) d) then Inr (take (length d - padLen) d)
        else Inl PaddingBytes)"

text \<open>\<open>binary.BigEndian\<close> on four bytes.\<close>

definition put_uint32 :: "nat \<Rightarrow> string" where
  "put_uint32 n = [chr_of (n div 16777216 mod 256), chr_of (n div 65536 mod 256), chr_of (n div 256 mod 256), chr_of (n mod 256)]"

definition get_uint32 :: "string \<Rightarrow> nat" where
  "get_uint32 s = byte_of (s ! 0) * 16777216 + byte_of (s ! 1) * 65536 + byte_of (s ! 2) * 256 + byte_of (s ! 3)"

subsection \<open>The envelope\<close>

definition open_frame :: "string \<Rightarrow> string \<Rightarrow> wecom_error + string \<times> string" where
  "open_frame expectedReceiveID plain =
     (if length plain < 20 then Inl PlaintextShort
      else let msgLen = get_uint32 (take 4 (drop 16 plain)) in
        if 20 + msgLen > length plain then Inl MsgLength
        else let receiveID = drop (20 + msgLen) plain; ex = trim_space expectedReceiveID in
          if ex \<noteq> [] \<and> receiveID \<noteq> ex then Inl ReceiveIdMismatch
          else Inr (take msgLen (drop 20 plain), receiveID))"

definition wecom_decrypt :: "crypto \<Rightarrow> string \<Rightarrow> string \<Rightarrow> string \<Rightarrow> wecom_error + string \<times> string" where
  "wecom_decrypt x encodingAESKey expectedReceiveID encrypted =
     bind_res (decode_aes_key x encodingAESKey) (\<lambda>aesKey.
       case cx_decode64 x encrypted of
         None \<Rightarrow> Inl BadBase64
       | Some raw \<Rightarrow>
           if raw = [] \<or> length raw mod 16 \<noteq> 0 then Inl BadBlockSize
           else bind_res (pkcs7_unpad (cx_decrypt x aesKey (take 16 aesKey) raw) 32) (open_frame expectedReceiveID))"

definition seal_frame :: "string \<Rightarrow> string \<Rightarrow> string \<Rightarrow> string" where
  "seal_frame random16 receiveID plaintext = random16 @ put_uint32 (length plaintext) @ plaintext @ receiveID"

definition wecom_encrypt :: "crypto \<Rightarrow> string \<Rightarrow> string \<Rightarrow> string \<Rightarrow> string \<Rightarrow> wecom_error + string" where
  "wecom_encrypt x encodingAESKey receiveID plaintext random16 =
     bind_res (decode_aes_key x encodingAESKey) (\<lambda>aesKey.
       Inr (cx_encode64 x (cx_encrypt x aesKey (take 16 aesKey) (pkcs7_pad (seal_frame random16 receiveID plaintext) 32))))"

subsection \<open>The round trip\<close>

lemma pad_bounds:
  fixes n b :: nat
  assumes "0 < b"
  shows "0 < b - n mod b \<and> b - n mod b \<le> b"
  using assms by simp

lemma pad_up: "r < b \<Longrightarrow> n = q * b + r \<Longrightarrow> n + (b - r) = (q + 1) * b"
  for n q r b :: nat
  by simp

lemma pad_length: "0 < b \<Longrightarrow> length (pkcs7_pad s b) mod b = 0"
proof -
  assume b: "0 < b"
  have "length s + (b - length s mod b) = (length s div b + 1) * b" by (rule pad_up) (use b in simp_all)
  then show ?thesis using pad_bounds [OF b, of "length s"] by (simp add: pkcs7_pad_def Let_def)
qed

lemma unpad_replicate:
  assumes "0 < p" and "p \<le> b" and "p < 256" and "length (s @ replicate p (chr_of p)) mod b = 0"
  shows "pkcs7_unpad (s @ replicate p (chr_of p)) b = Inr s"
proof -
  have "length (s @ replicate p (chr_of p)) - 1 = length s + (p - 1)" using assms(1) by simp
  then have l: "(s @ replicate p (chr_of p)) ! (length (s @ replicate p (chr_of p)) - 1) = chr_of p"
    using assms(1) by (simp only: nth_append_length_plus) simp
  have c: "byte_of (chr_of p) = p" using assms(3) by simp
  show ?thesis unfolding pkcs7_unpad_def l c Let_def using assms c by (simp add: list_all_iff)
qed

lemma unpad_pad:
  assumes "0 < b" and "b < 256"
  shows "pkcs7_unpad (pkcs7_pad s b) b = Inr s"
proof -
  obtain p where p: "p = b - length s mod b" "0 < p" "p \<le> b" using pad_bounds [OF assms(1)] by blast
  then have e: "pkcs7_pad s b = s @ replicate p (chr_of p)" by (simp add: pkcs7_pad_def Let_def)
  show ?thesis
    using unpad_replicate [of p b s] p(2,3) assms(2) pad_length [OF assms(1), of s] unfolding e by simp
qed

lemma get_put_uint32: "n < 4294967296 \<Longrightarrow> get_uint32 (put_uint32 n) = n"
proof -
  assume n: "n < 4294967296"
  have b: "byte_of (chr_of (k mod 256)) = k mod 256" for k by simp
  have d: "n div 65536 = n div 256 div 256" "n div 16777216 = n div 256 div 256 div 256"
    by (simp_all add: div_mult2_eq [symmetric])
  have "n = n div 256 * 256 + n mod 256" "n div 256 = n div 65536 * 256 + n div 256 mod 256"
    "n div 65536 = n div 16777216 * 256 + n div 65536 mod 256" unfolding d by simp_all
  moreover have "n div 16777216 mod 256 = n div 16777216" using n by simp
  ultimately have v: "n = n div 16777216 mod 256 * 16777216 + n div 65536 mod 256 * 65536 + n div 256 mod 256 * 256 + n mod 256"
    by linarith
  have "get_uint32 (put_uint32 n)
      = n div 16777216 mod 256 * 16777216 + n div 65536 mod 256 * 65536 + n div 256 mod 256 * 256 + n mod 256"
    unfolding get_uint32_def put_uint32_def by (simp add: b)
  then show ?thesis using v by (rule trans [OF _ sym])
qed

lemma frame_parts:
  assumes "length random16 = 16" and "length msg < 4294967296"
  shows "get_uint32 (take 4 (drop 16 (seal_frame random16 rid msg))) = length msg"
    and "drop 20 (seal_frame random16 rid msg) = msg @ rid" and "drop (20 + length msg) (seal_frame random16 rid msg) = rid"
    and "length (seal_frame random16 rid msg) = 20 + length msg + length rid"
proof -
  have l: "length (put_uint32 (length msg)) = 4" by (simp add: put_uint32_def)
  have "take 4 (drop 16 (seal_frame random16 rid msg)) = put_uint32 (length msg)" using assms(1) l by (simp add: seal_frame_def)
  then show "get_uint32 (take 4 (drop 16 (seal_frame random16 rid msg))) = length msg" using get_put_uint32 [OF assms(2)] by simp
  show d: "drop 20 (seal_frame random16 rid msg) = msg @ rid" using assms(1) l by (simp add: seal_frame_def)
  then show "drop (20 + length msg) (seal_frame random16 rid msg) = rid" by (metis append_eq_conv_conj drop_drop add.commute)
  show "length (seal_frame random16 rid msg) = 20 + length msg + length rid" using assms(1) l by (simp add: seal_frame_def)
qed

lemma open_seal:
  assumes "length random16 = 16" and "length msg < 4294967296" and "trim_space expected = [] \<or> rid = trim_space expected"
  shows "open_frame expected (seal_frame random16 rid msg) = Inr (msg, rid)"
  using frame_parts [OF assms(1,2), of rid] assms(3) by (auto simp: open_frame_def Let_def)

text \<open>What \<open>wecomEncrypt\<close> seals, \<open>wecomDecrypt\<close> opens with the same key: the message and the receive id come back
  unchanged, whatever the random prefix, for messages below 4 GiB - provided CBC decryption undoes CBC
  encryption on whole blocks and base64 decoding undoes encoding.\<close>

theorem wecom_envelope:
  assumes "wecom_encrypt x key rid msg random16 = Inr sealed"
    and "\<forall>k d. length d mod 16 = 0 \<longrightarrow> cx_decrypt x k (take 16 k) (cx_encrypt x k (take 16 k) d) = d
           \<and> length (cx_encrypt x k (take 16 k) d) = length d"
    and "\<forall>d. cx_decode64 x (cx_encode64 x d) = Some d"
    and "length random16 = 16" and "length msg < 4294967296" and "trim_space expected = [] \<or> rid = trim_space expected"
  shows "wecom_decrypt x key expected sealed = Inr (msg, rid)"
proof -
  obtain k where k: "decode_aes_key x key = Inr k"
    and sealed: "sealed = cx_encode64 x (cx_encrypt x k (take 16 k) (pkcs7_pad (seal_frame random16 rid msg) 32))"
    using assms(1) by (auto simp: wecom_encrypt_def bind_res_Inr_iff)
  let ?p = "pkcs7_pad (seal_frame random16 rid msg) 32"
  have p32: "length ?p mod 32 = 0" by (rule pad_length) simp
  then have "length ?p mod 16 = 0" by presburger
  then have c: "cx_decrypt x k (take 16 k) (cx_encrypt x k (take 16 k) ?p) = ?p" "length (cx_encrypt x k (take 16 k) ?p) = length ?p"
    using assms(2) by simp_all
  have "?p \<noteq> []" using assms(4) by (simp add: pkcs7_pad_def Let_def seal_frame_def)
  then have "cx_encrypt x k (take 16 k) ?p \<noteq> []" using c(2) by (metis length_0_conv)
  moreover have "pkcs7_unpad ?p 32 = Inr (seal_frame random16 rid msg)" by (rule unpad_pad) simp_all
  ultimately show ?thesis
    using k c \<open>length ?p mod 16 = 0\<close> assms(3) open_seal [OF assms(4-6)] by (simp add: wecom_decrypt_def sealed)
qed

definition plain_crypto :: crypto where
  "plain_crypto = \<lparr>cx_encrypt = (\<lambda>_ _ d. d), cx_decrypt = (\<lambda>_ _ d. d), cx_encode64 = (\<lambda>d. d), cx_decode64 = Some\<rparr>"

definition sample_key :: string where "sample_key = replicate 31 CHR ''k''"

theorem wecom_envelope_witness:
  "wecom_decrypt plain_crypto sample_key ''corp''
     (case wecom_encrypt plain_crypto sample_key ''corp'' ''hello'' (replicate 16 CHR ''r'') of Inr s \<Rightarrow> s | Inl _ \<Rightarrow> [])
   = Inr (''hello'', ''corp'')"
proof -
  have "is_err (wecom_encrypt plain_crypto sample_key ''corp'' ''hello'' (replicate 16 CHR ''r'')) = False" by code_simp
  then obtain s where s: "wecom_encrypt plain_crypto sample_key ''corp'' ''hello'' (replicate 16 CHR ''r'') = Inr s"
    by (cases "wecom_encrypt plain_crypto sample_key ''corp'' ''hello'' (replicate 16 CHR ''r'')") auto
  have "trim_space ''corp'' = ''corp''" by code_simp
  then show ?thesis
    using wecom_envelope [OF s, of "''corp''"] s by (simp add: plain_crypto_def)
qed

text \<open>A sealed message for another receiver is refused.\<close>

lemma wrong_receiver:
  assumes "length random16 = 16" and "length msg < 4294967296" and "trim_space expected \<noteq> []" and "rid \<noteq> trim_space expected"
  shows "open_frame expected (seal_frame random16 rid msg) = Inl ReceiveIdMismatch"
  using frame_parts [OF assms(1,2), of rid] assms(3,4) by (auto simp: open_frame_def Let_def)

end
