(* ===== verification/ChannelGuard.thy ===== *)
theory ChannelGuard
  imports MessageBus Webhook
begin

text \<open>
  What the message transports share: each step of a channel takes one input from outside and puts messages on the bus, and
  a channel lets only some messages through. The interface is a locale; the channels interpret it on their own steps.
\<close>

text \<open>The messages of a run, in order.\<close>

fun channel_run :: "('s \<Rightarrow> 'i \<Rightarrow> 's \<times> inbound_message list) \<Rightarrow> 's \<Rightarrow> 'i list \<Rightarrow> inbound_message list" where
  "channel_run step s [] = []"
| "channel_run step s (i # is) = snd (step s i) @ channel_run step (fst (step s i)) is"

lemma channel_run_append:
  "channel_run step s (is @ js) = channel_run step s is @ channel_run step (foldl (\<lambda>t i. fst (step t i)) s is) js"
  by (induction "is" arbitrary: s) simp_all

text \<open>A channel whose guard does not change and that publishes only what its guard admits, one message an input at most.\<close>

locale guarded_channel =
  fixes step :: "'s \<Rightarrow> 'i \<Rightarrow> 's \<times> inbound_message list"
    and admits :: "'s \<Rightarrow> inbound_message \<Rightarrow> bool"
    and name :: string
  assumes published: "im \<in> set (snd (step s i)) \<Longrightarrow> im_channel im = name \<and> admits s im"
    and keeps: "admits (fst (step s i)) = admits s"
    and single: "length (snd (step s i)) \<le> 1"
begin

lemma run_admitted: "im \<in> set (channel_run step s is) \<Longrightarrow> im_channel im = name \<and> admits s im"
proof (induction "is" arbitrary: s)
  case (Cons i "is")
  show ?case
  proof (cases "im \<in> set (snd (step s i))")
    case False
    then have "im_channel im = name \<and> admits (fst (step s i)) im" using Cons by simp
    then show ?thesis unfolding keeps .
  qed (rule published)
qed simp

lemma run_all_admitted: "list_all (\<lambda>im. im_channel im = name \<and> admits s im) (channel_run step s is)"
  using run_admitted by (auto simp: list_all_iff)

lemma run_length: "length (channel_run step s is) \<le> length is"
proof (induction "is" arbitrary: s)
  case (Cons i "is")
  show ?case using add_le_mono [OF single [of s i] Cons.IH [of "fst (step s i)"]] by simp
qed simp

end

definition plain_hints :: routing_hints where
  "plain_hints = \<lparr>rh_session_mode = SessionModeCurrent, rh_force_sync = False, rh_builtin_command = [], rh_slash_command = [],
     rh_slash_type = [], rh_slash_args = [], rh_message_id = 0\<rparr>"

end
