(* ===== verification/Wecom.thy ===== *)
theory Wecom
  imports WecomCrypto Config ChannelGuard
begin

text \<open>
  \<open>internal/plugins/channel/wecom/wecom.go\<close>: the WeCom channel. A callback is a request record; its answer, the new
  caches and the inbound messages it publishes are the result. The HTTP client, JSON texts and the digest are
  arguments; JSON values are the trees of \<open>Config\<close>.
\<close>

subsection \<open>Inbound messages\<close>

record wecom_message =
  wm_msg_id :: string
  wm_aibot_id :: string
  wm_chat_id :: string
  wm_chat_type :: string
  wm_from_user :: string
  wm_from_user_id :: string
  wm_response_url :: string
  wm_msg_type :: string
  wm_text :: string
  wm_mixed :: "(string \<times> string) list"
  wm_voice :: string
  wm_image_url :: string
  wm_image_pic :: string
  wm_image_image :: string
  wm_image_media :: string

definition zero_message :: wecom_message where
  "zero_message = \<lparr>wm_msg_id = [], wm_aibot_id = [], wm_chat_id = [], wm_chat_type = [], wm_from_user = [], wm_from_user_id = [],
     wm_response_url = [], wm_msg_type = [], wm_text = [], wm_mixed = [], wm_voice = [], wm_image_url = [], wm_image_pic = [],
     wm_image_image = [], wm_image_media = []\<rparr>"

definition from_fields :: "wecom_message field_table" where
  "from_fields = [(''userid'', fld wm_from_user wm_from_user_update dec_string)]"

definition text_fields :: "wecom_message field_table" where
  "text_fields = [(''content'', fld wm_text wm_text_update dec_string)]"

definition voice_fields :: "wecom_message field_table" where
  "voice_fields = [(''content'', fld wm_voice wm_voice_update dec_string)]"

definition image_fields :: "wecom_message field_table" where
  "image_fields =
     [(''url'', fld wm_image_url wm_image_url_update dec_string),
      (''pic_url'', fld wm_image_pic wm_image_pic_update dec_string),
      (''image_url'', fld wm_image_image wm_image_image_update dec_string),
      (''media_id'', fld wm_image_media wm_image_media_update dec_string)]"

text \<open>An item of a mixed message: its type and its text.\<close>

definition item_text_fields :: "(string \<times> string) field_table" where
  "item_text_fields = [(''content'', fld snd apsnd dec_string)]"

definition item_fields :: "(string \<times> string) field_table" where
  "item_fields = [(''msgtype'', fld fst apfst dec_string), (''text'', dec_struct item_text_fields)]"

definition dec_items :: "(string \<times> string) list decoder" where
  "dec_items j old =
     (case j of JNull \<Rightarrow> ([], False)
      | JArr xs \<Rightarrow> (map (\<lambda>x. fst (dec_struct item_fields x ([], []))) xs, list_ex (\<lambda>x. snd (dec_struct item_fields x ([], []))) xs)
      | _ \<Rightarrow> (old, True))"

definition mixed_fields :: "wecom_message field_table" where
  "mixed_fields = [(''msg_item'', fld wm_mixed wm_mixed_update dec_items)]"

definition message_fields :: "wecom_message field_table" where
  "message_fields =
     [(''msgid'', fld wm_msg_id wm_msg_id_update dec_string),
      (''aibotid'', fld wm_aibot_id wm_aibot_id_update dec_string),
      (''chatid'', fld wm_chat_id wm_chat_id_update dec_string),
      (''chattype'', fld wm_chat_type wm_chat_type_update dec_string),
      (''from'', dec_struct from_fields),
      (''fromuserid'', fld wm_from_user_id wm_from_user_id_update dec_string),
      (''response_url'', fld wm_response_url wm_response_url_update dec_string),
      (''msgtype'', fld wm_msg_type wm_msg_type_update dec_string),
      (''text'', dec_struct text_fields),
      (''mixed'', dec_struct mixed_fields),
      (''voice'', dec_struct voice_fields),
      (''image'', dec_struct image_fields)]"

definition url_value :: "wecom_message \<Rightarrow> string" where
  "url_value m =
     (case filter (\<lambda>u. u \<noteq> []) (map trim_space [wm_image_url m, wm_image_pic m, wm_image_image m]) of
        [] \<Rightarrow> [] | u # _ \<Rightarrow> u)"

definition resolve_sender_id :: "wecom_message \<Rightarrow> string" where
  "resolve_sender_id m = (let s = trim_space (wm_from_user m) in if s \<noteq> [] then s else trim_space (wm_from_user_id m))"

definition resolve_chat_id :: "wecom_message \<Rightarrow> string \<Rightarrow> string" where
  "resolve_chat_id m sender =
     (if equal_fold (trim_space (wm_chat_type m)) ''group'' \<and> trim_space (wm_chat_id m) \<noteq> [] then trim_space (wm_chat_id m)
      else sender)"

definition extract_content :: "wecom_message \<Rightarrow> string" where
  "extract_content m =
     (let t = to_lower (trim_space (wm_msg_type m)) in
      if t = ''text'' then trim_space (wm_text m)
      else if t = ''voice'' then trim_space (wm_voice m)
      else if t = ''image'' then ''[image]''
      else if t = ''mixed'' then
        trim_space (join [newline]
          (filter (\<lambda>x. x \<noteq> [])
            (map (\<lambda>it. trim_space (snd it)) (filter (\<lambda>it. equal_fold (trim_space (fst it)) ''text'') (wm_mixed m)))))
      else [])"

subsection \<open>Images\<close>

datatype fetch = FetchErr | Fetched nat string string

definition image_max_bytes :: nat where "image_max_bytes = 10485760"

definition normalize_media_type :: "string \<Rightarrow> string" where
  "normalize_media_type v =
     (let t = trim_space v in
      if t = [] then [] else trim_space (case index_of '';'' t of Some i \<Rightarrow> take i t | None \<Rightarrow> t))"

record wecom_env =
  we_crypto :: crypto
  we_sha1 :: "string \<Rightarrow> string"
  we_parse :: "string \<Rightarrow> json option"
  we_print :: "json \<Rightarrow> string"
  we_fetch :: "string \<Rightarrow> fetch"
  we_detect :: "string \<Rightarrow> string"
  we_image :: "string \<Rightarrow> string \<Rightarrow> string \<Rightarrow> content_block"
  we_random :: string

text \<open>\<open>downloadWeComImageAsBase64\<close>: the data and the media type.\<close>

definition download_image :: "wecom_env \<Rightarrow> string \<Rightarrow> (string \<times> string) option" where
  "download_image env url =
     (case we_fetch env url of
        FetchErr \<Rightarrow> None
      | Fetched status ctype body \<Rightarrow>
          (if length body > image_max_bytes \<or> status < 200 \<or> status \<ge> 300 then None
           else let mt = normalize_media_type ctype in
             Some (cx_encode64 (we_crypto env) body, if mt = [] then we_detect env body else mt)))"

definition image_block :: "wecom_env \<Rightarrow> wecom_message \<Rightarrow> content_block option" where
  "image_block env m =
     (let url = url_value m in
      if url = [] then None
      else case download_image env url of
          None \<Rightarrow> Some (we_image env url [] [])
        | Some (b64, mt) \<Rightarrow> Some (we_image env [] mt b64))"

definition extract_blocks :: "wecom_env \<Rightarrow> wecom_message \<Rightarrow> content_block list" where
  "extract_blocks env m =
     (if \<not> equal_fold (trim_space (wm_msg_type m)) ''image'' then []
      else case image_block env m of None \<Rightarrow> [] | Some b \<Rightarrow> [b])"

subsection \<open>The channel\<close>

record wecom_channel =
  wn_cfg :: wecom_config
  wn_receive_id :: string
  wn_allow :: "string list"
  wn_msgs :: msg_cache
  wn_replies :: reply_cache

definition new_wecom_channel :: "wecom_config \<Rightarrow> wecom_channel" where
  "new_wecom_channel cfg = \<lparr>wn_cfg = cfg, wn_receive_id = trim_space (wc_receive_id cfg),
     wn_allow = new_matcher (wc_allow_from cfg), wn_msgs = new_msg_cache 0, wn_replies = new_reply_cache 0\<rparr>"

definition wecom_signature :: "wecom_env \<Rightarrow> wecom_channel \<Rightarrow> string \<Rightarrow> string \<Rightarrow> string \<Rightarrow> string" where
  "wecom_signature env w timestamp nonce body = webhook_signature (we_sha1 env) (wc_token (wn_cfg w)) timestamp nonce body"

definition open_callback :: "wecom_env \<Rightarrow> wecom_channel \<Rightarrow> string \<Rightarrow> wecom_error + string \<times> string" where
  "open_callback env w enc = wecom_decrypt (we_crypto env) (wc_aes_key (wn_cfg w)) (wn_receive_id w) enc"

text \<open>The envelope: the key \<open>encrypt\<close>, else \<open>Encrypt\<close>, in their exact spelling; the last of equal keys counts.\<close>

definition envelope_text :: "json \<Rightarrow> string option" where
  "envelope_text j =
     (case j of
        JNull \<Rightarrow> Some []
      | JObj kvs \<Rightarrow>
          (case (map_of (rev kvs) ''encrypt'', map_of (rev kvs) ''Encrypt'') of
             (Some v, _) \<Rightarrow> (case dec_string v [] of (s, e) \<Rightarrow> if e then None else Some s)
           | (None, Some v) \<Rightarrow> (case dec_string v [] of (s, e) \<Rightarrow> if e then None else Some s)
           | (None, None) \<Rightarrow> Some [])
      | _ \<Rightarrow> None)"

definition decode_message :: "wecom_env \<Rightarrow> string \<Rightarrow> wecom_message option" where
  "decode_message env plaintext =
     (case we_parse env plaintext of
        None \<Rightarrow> None
      | Some j \<Rightarrow> (case dec_struct message_fields j zero_message of (m, e) \<Rightarrow> if e then None else Some m))"

definition message_seen :: "instant \<Rightarrow> wecom_message \<Rightarrow> msg_cache \<Rightarrow> msg_cache \<times> bool" where
  "message_seen now m c = (let i = trim_space (wm_msg_id m) in if i = [] then (c, False) else seen i now c)"

definition inbound_of :: "wecom_env \<Rightarrow> instant \<Rightarrow> wecom_message \<Rightarrow> string \<Rightarrow> inbound_message" where
  "inbound_of env now m sender =
     \<lparr>im_channel = ''wecom'', im_sender_id = sender, im_chat_id = resolve_chat_id m sender, im_content = extract_content m,
      im_timestamp = now, im_media = [],
      im_hints = \<lparr>rh_session_mode = SessionModeCurrent, rh_force_sync = False, rh_builtin_command = [],
        rh_slash_command = [], rh_slash_type = [], rh_slash_args = [], rh_message_id = 0\<rparr>,
      im_transport_meta = Some [(''msg_id'', AnyStr (trim_space (wm_msg_id m))),
        (''aibot_id'', AnyStr (trim_space (wm_aibot_id m))), (''chat_id'', AnyStr (trim_space (wm_chat_id m))),
        (''chat_type'', AnyStr (trim_space (wm_chat_type m))), (''msg_type'', AnyStr (trim_space (wm_msg_type m))),
        (''image_url'', AnyStr (url_value m)), (''image_media_id'', AnyStr (trim_space (wm_image_media m))),
        (''response_url'', AnyStr (trim_space (wm_response_url m)))],
      im_content_blocks = extract_blocks env m\<rparr>"

definition publish_message :: "wecom_env \<Rightarrow> instant \<Rightarrow> wecom_message \<Rightarrow> string \<Rightarrow> wecom_channel
    \<Rightarrow> wecom_channel \<times> inbound_message list" where
  "publish_message env now m sender w =
     (let chat = resolve_chat_id m sender; url = trim_space (wm_response_url m) in
      if chat = [] then (w, [])
      else (if url = [] then w else w\<lparr>wn_replies := reply_set chat url now (wn_replies w)\<rparr>,
            if extract_content m = [] \<and> extract_blocks env m = [] then [] else [inbound_of env now m sender]))"

definition accept_message :: "wecom_env \<Rightarrow> instant \<Rightarrow> wecom_message \<Rightarrow> string \<Rightarrow> wecom_channel
    \<Rightarrow> wecom_channel \<times> inbound_message list" where
  "accept_message env now m sender w =
     (case message_seen now m (wn_msgs w) of
        (c, True) \<Rightarrow> (w\<lparr>wn_msgs := c\<rparr>, [])
      | (c, False) \<Rightarrow> publish_message env now m sender (w\<lparr>wn_msgs := c\<rparr>))"

text \<open>\<open>processDecryptedMessage\<close>.\<close>

definition process_message :: "wecom_env \<Rightarrow> instant \<Rightarrow> string \<Rightarrow> wecom_channel \<Rightarrow> wecom_channel \<times> inbound_message list" where
  "process_message env now plaintext w =
     (case decode_message env plaintext of
        None \<Rightarrow> (w, [])
      | Some m \<Rightarrow>
          (let sender = resolve_sender_id m in
           if sender = [] \<or> \<not> allow_id (wn_allow w) sender then (w, []) else accept_message env now m sender w))"

subsection \<open>Callbacks\<close>

record wecom_request =
  rq_method :: string
  rq_signature :: string
  rq_timestamp :: string
  rq_nonce :: string
  rq_echostr :: string
  rq_body :: "string option"

definition verify_callback_url :: "wecom_env \<Rightarrow> wecom_channel \<Rightarrow> wecom_request \<Rightarrow> nat \<times> string" where
  "verify_callback_url env w r =
     (if rq_echostr r = [] then (400, ''missing echostr'')
      else if wecom_signature env w (rq_timestamp r) (rq_nonce r) (rq_echostr r) \<noteq> rq_signature r then (401, ''invalid signature'')
      else case open_callback env w (rq_echostr r) of
          Inl _ \<Rightarrow> (400, ''decrypt echostr failed'')
        | Inr (plaintext, _) \<Rightarrow> (200, plaintext))"

definition encrypted_reply :: "wecom_env \<Rightarrow> wecom_channel \<Rightarrow> string \<Rightarrow> string \<Rightarrow> string \<Rightarrow> json \<Rightarrow> wecom_error + string" where
  "encrypted_reply env w timestamp nonce receiveID payload =
     bind_res (wecom_encrypt (we_crypto env) (wc_aes_key (wn_cfg w)) receiveID (we_print env payload) (we_random env)) (\<lambda>enc.
       let sig = wecom_signature env w timestamp nonce enc in
       Inr (we_print env (JObj ([(''encrypt'', JStr enc), (''msgsignature'', JStr sig)]
         @ (if sig = [] then [] else [(''msg_signature'', JStr sig)])
         @ [(''timestamp'', JStr timestamp), (''nonce'', JStr nonce)]))))"

text \<open>The body is read up to 1 MiB; \<open>rq_body\<close> is \<open>None\<close> when that fails. The message is processed after the answer.\<close>

definition handle_incoming :: "wecom_env \<Rightarrow> instant \<Rightarrow> wecom_request \<Rightarrow> wecom_channel
    \<Rightarrow> (nat \<times> string) \<times> wecom_channel \<times> inbound_message list" where
  "handle_incoming env now r w =
     (case rq_body r of
        None \<Rightarrow> ((400, ''read body failed''), w, [])
      | Some body \<Rightarrow>
          (case bind_res (case we_parse env body of None \<Rightarrow> Inl () | Some j \<Rightarrow> Inr j)
                  (\<lambda>j. case envelope_text j of None \<Rightarrow> Inl () | Some s \<Rightarrow> Inr (trim_space s)) of
             Inl _ \<Rightarrow> ((400, ''invalid json''), w, [])
           | Inr enc \<Rightarrow>
               (if enc = [] then ((400, ''missing encrypt field''), w, [])
                else if wecom_signature env w (rq_timestamp r) (rq_nonce r) enc \<noteq> rq_signature r then ((401, ''invalid signature''), w, [])
                else case open_callback env w enc of
                    Inl _ \<Rightarrow> ((400, ''decrypt message failed''), w, [])
                  | Inr (plaintext, receiveID) \<Rightarrow>
                      (case encrypted_reply env w (rq_timestamp r) (rq_nonce r) receiveID (JStr ''success'') of
                         Inl _ \<Rightarrow> ((500, ''encrypt reply failed''), w, [])
                       | Inr reply \<Rightarrow> (case process_message env now plaintext w of (w', ms) \<Rightarrow> ((200, reply), w', ms))))))"

definition handle_callback :: "wecom_env \<Rightarrow> instant \<Rightarrow> wecom_request \<Rightarrow> wecom_channel
    \<Rightarrow> (nat \<times> string) \<times> wecom_channel \<times> inbound_message list" where
  "handle_callback env now r w =
     (if rq_signature r = [] \<or> rq_timestamp r = [] \<or> rq_nonce r = [] then ((400, ''missing signature params''), w, [])
      else if rq_method r = ''GET'' then (verify_callback_url env w r, w, [])
      else if rq_method r = ''POST'' then handle_incoming env now r w
      else ((405, ''method not allowed''), w, []))"

subsection \<open>Sending\<close>

datatype wecom_send_error = SendCanceled | SendNetwork | SendStatus nat | SendApi int

datatype send_response = ResponseErr wecom_send_error | Response nat string

definition markdown_max_bytes :: int where "markdown_max_bytes = 20480"

definition markdown_payload :: "string \<Rightarrow> json" where
  "markdown_payload content = JObj [(''markdown'', JObj [(''content'', JStr content)]), (''msgtype'', JStr ''markdown'')]"

text \<open>The answer of the response address; \<open>errcode\<close> is 0 when the body is blank, no JSON or of another type.\<close>

definition errcode_fields :: "int field_table" where
  "errcode_fields = [(''errcode'', fld (\<lambda>n. n) (\<lambda>f n. f n) dec_int), (''errmsg'', fld (\<lambda>_. []) (\<lambda>_ n. n) dec_string)]"

definition send_text_once :: "wecom_env \<Rightarrow> send_response \<Rightarrow> wecom_send_error option" where
  "send_text_once env r =
     (case r of
        ResponseErr e \<Rightarrow> Some e
      | Response status raw \<Rightarrow>
          (if status < 200 \<or> status \<ge> 300 then Some (SendStatus status)
           else if trim_space raw = [] then None
           else case we_parse env raw of
               None \<Rightarrow> None
             | Some j \<Rightarrow> (case dec_struct errcode_fields j 0 of
                   (code, True) \<Rightarrow> None
                 | (code, False) \<Rightarrow> if code \<noteq> 0 then Some (SendApi code) else None)))"

definition should_retry :: "wecom_send_error \<Rightarrow> bool" where
  "should_retry e =
     (case e of SendCanceled \<Rightarrow> False | SendNetwork \<Rightarrow> True | SendStatus code \<Rightarrow> code \<ge> 500
      | SendApi code \<Rightarrow> code = - 1 \<or> code = 6000)"

text \<open>\<open>sendTextWithRetry\<close>: the answers of the server to the attempts, and whether the context is still alive in the
  pause after each; the number of attempts made and the error, if any.\<close>

fun send_attempts :: "wecom_env \<Rightarrow> (nat \<Rightarrow> send_response) \<Rightarrow> (nat \<Rightarrow> bool) \<Rightarrow> nat \<Rightarrow> nat \<Rightarrow> nat \<times> wecom_send_error option" where
  "send_attempts env answers alive attempt 0 = (attempt, None)"
| "send_attempts env answers alive attempt (Suc left) =
     (case send_text_once env (answers (Suc attempt)) of
        None \<Rightarrow> (Suc attempt, None)
      | Some e \<Rightarrow>
          (if \<not> should_retry e \<or> left = 0 then (Suc attempt, Some e)
           else if \<not> alive (Suc attempt) then (Suc attempt, Some SendCanceled)
           else send_attempts env answers alive (Suc attempt) left))"

definition send_with_retry :: "wecom_env \<Rightarrow> (nat \<Rightarrow> send_response) \<Rightarrow> (nat \<Rightarrow> bool) \<Rightarrow> nat \<times> wecom_send_error option" where
  "send_with_retry env answers alive = send_attempts env answers alive 0 3"

datatype wecom_send_result = ChatIdRequired | ResponseUrlUnknown | SentTo string string "nat \<times> wecom_send_error option"

definition wecom_send :: "wecom_env \<Rightarrow> instant \<Rightarrow> (nat \<Rightarrow> send_response) \<Rightarrow> (nat \<Rightarrow> bool) \<Rightarrow> outbound_message \<Rightarrow> wecom_channel
    \<Rightarrow> wecom_channel \<times> wecom_send_result" where
  "wecom_send env now answers alive msg w =
     (let chat = trim_space (om_chat_id msg) in
      if chat = [] then (w, ChatIdRequired)
      else case reply_get chat now (wn_replies w) of
          (rc, None) \<Rightarrow> (w\<lparr>wn_replies := rc\<rparr>, ResponseUrlUnknown)
        | (rc, Some url) \<Rightarrow>
            (w\<lparr>wn_replies := rc\<rparr>,
             SentTo url (we_print env (markdown_payload (truncate_bytes (om_content msg) markdown_max_bytes)))
               (send_with_retry env answers alive)))"

subsection \<open>Only authentic messages of allowed senders\<close>

lemma publish_message_shape:
  "publish_message env now m sender w = (w', ms) \<Longrightarrow> wn_cfg w' = wn_cfg w \<and> wn_allow w' = wn_allow w \<and> wn_msgs w' = wn_msgs w
    \<and> (ms = [] \<or> ms = [inbound_of env now m sender])"
  by (auto simp: publish_message_def Let_def split: if_splits)

lemma accept_message_shape:
  assumes "accept_message env now m sender w = (w', ms)"
  shows "wn_cfg w' = wn_cfg w \<and> wn_allow w' = wn_allow w \<and> wn_msgs w' = fst (message_seen now m (wn_msgs w))
    \<and> (ms = [] \<or> ms = [inbound_of env now m sender] \<and> \<not> snd (message_seen now m (wn_msgs w)))"
proof (cases "message_seen now m (wn_msgs w)")
  case (Pair c b)
  then show ?thesis
    using assms publish_message_shape [of env now m sender "w\<lparr>wn_msgs := c\<rparr>" w' ms] by (cases b) (auto simp: accept_message_def)
qed

lemma process_message_cases:
  assumes "process_message env now plaintext w = (w', ms)"
  obtains "w' = w" "ms = []"
  | m where "decode_message env plaintext = Some m" "resolve_sender_id m \<noteq> []" "allow_id (wn_allow w) (resolve_sender_id m)"
      "accept_message env now m (resolve_sender_id m) w = (w', ms)"
  using assms by (auto simp: process_message_def Let_def split: option.splits if_splits)

lemma process_message_published:
  assumes "process_message env now plaintext w = (w', ms)"
  shows "length ms \<le> 1
    \<and> (\<forall>x \<in> set ms. im_channel x = ''wecom'' \<and> im_sender_id x \<noteq> [] \<and> allow_id (wn_allow w) (im_sender_id x))"
  using process_message_cases [OF assms]
proof cases
  case (2 m)
  then show ?thesis using accept_message_shape [OF 2(4)] by (auto simp: inbound_of_def)
qed simp

text \<open>The channel as the bus sees it: one callback after the other.\<close>

definition wecom_step :: "wecom_channel \<Rightarrow> wecom_env \<times> instant \<times> wecom_request \<Rightarrow> wecom_channel \<times> inbound_message list" where
  "wecom_step w i = (case i of (env, now, r) \<Rightarrow> snd (handle_callback env now r w))"

definition wecom_admits :: "wecom_channel \<Rightarrow> inbound_message \<Rightarrow> bool" where
  "wecom_admits w im \<longleftrightarrow> im_sender_id im \<noteq> [] \<and> allow_id (wn_allow w) (im_sender_id im)"

lemma process_message_allow: "process_message env now plaintext w = (w', ms) \<Longrightarrow> wn_allow w' = wn_allow w"
  by (erule process_message_cases) (auto dest: accept_message_shape)

lemma handle_incoming_cases:
  assumes "handle_incoming env now r w = (resp, w', ms)"
  obtains "w' = w" "ms = []" | plaintext where "process_message env now plaintext w = (w', ms)"
  using assms by (auto simp: handle_incoming_def split: option.splits sum.splits if_splits prod.splits)

lemma wecom_step_shape:
  "length (snd (wecom_step w i)) \<le> 1 \<and> wn_allow (fst (wecom_step w i)) = wn_allow w
    \<and> (\<forall>im \<in> set (snd (wecom_step w i)). im_channel im = ''wecom'' \<and> wecom_admits w im)"
proof -
  obtain env now r where i: "i = (env, now, r)" by (cases i)
  obtain resp w' ms where h: "handle_incoming env now r w = (resp, w', ms)" by (metis prod_cases3)
  have "length ms \<le> 1 \<and> wn_allow w' = wn_allow w \<and> (\<forall>im \<in> set ms. im_channel im = ''wecom'' \<and> wecom_admits w im)"
    using h
  proof (cases rule: handle_incoming_cases)
    case (2 plaintext)
    then show ?thesis
      using process_message_published [OF 2] process_message_allow [OF 2] by (simp add: wecom_admits_def)
  qed simp
  then show ?thesis using h i by (simp add: wecom_step_def handle_callback_def)
qed

interpretation wecom_guard: guarded_channel wecom_step wecom_admits "''wecom''"
proof
  show "wecom_admits (fst (wecom_step s i)) = wecom_admits s" for s i
    using wecom_step_shape [of s i] by (simp add: wecom_admits_def fun_eq_iff)
qed (use wecom_step_shape in blast)+

lemma decrypt_receiver:
  assumes "wecom_decrypt x key expected enc = Inr (msg, rid)" and "trim_space expected \<noteq> []"
  shows "rid = trim_space expected"
  using assms by (auto simp: wecom_decrypt_def bind_res_Inr_iff open_frame_def Let_def split: option.splits if_splits)

text \<open>C22: a callback changes the channel or publishes a message only if it is a POST whose ciphertext carries the
  signature made with the channel's token, decrypts under its key and names its receiver; it then
  publishes at most one message, on the WeCom channel, from a sender the allow list admits.\<close>

theorem wecom_callback_authentic:
  assumes "handle_callback env now r w = (resp, w', ms)" and "ms \<noteq> [] \<or> w' \<noteq> w"
  shows "rq_method r = ''POST'' \<and> fst resp = 200
    \<and> (\<exists>enc plaintext rid. rq_signature r = wecom_signature env w (rq_timestamp r) (rq_nonce r) enc
         \<and> open_callback env w enc = Inr (plaintext, rid)
         \<and> (trim_space (wn_receive_id w) \<noteq> [] \<longrightarrow> rid = trim_space (wn_receive_id w))
         \<and> process_message env now plaintext w = (w', ms))
    \<and> length ms \<le> 1
    \<and> (\<forall>x \<in> set ms. im_channel x = ''wecom'' \<and> im_sender_id x \<noteq> [] \<and> allow_id (wn_allow w) (im_sender_id x))"
proof -
  have p: "rq_method r = ''POST''" and i: "handle_incoming env now r w = (resp, w', ms)"
    using assms by (auto simp: handle_callback_def split: if_splits)
  obtain body where b: "rq_body r = Some body" using i assms(2) by (auto simp: handle_incoming_def split: option.splits)
  let ?e = "bind_res (case we_parse env body of None \<Rightarrow> Inl () | Some j \<Rightarrow> Inr j)
      (\<lambda>j. case envelope_text j of None \<Rightarrow> Inl () | Some s \<Rightarrow> Inr (trim_space s))"
  obtain enc where e: "?e = Inr enc" using i b assms(2) by (cases ?e) (auto simp: handle_incoming_def)
  have s: "enc \<noteq> []" "wecom_signature env w (rq_timestamp r) (rq_nonce r) enc = rq_signature r"
    using i b e assms(2) by (auto simp: handle_incoming_def split: if_splits)
  obtain plaintext rid where o: "open_callback env w enc = Inr (plaintext, rid)"
    using i b e s assms(2) by (cases "open_callback env w enc") (auto simp: handle_incoming_def)
  obtain reply where "encrypted_reply env w (rq_timestamp r) (rq_nonce r) rid (JStr ''success'') = Inr reply"
    using i b e s o assms(2)
    by (cases "encrypted_reply env w (rq_timestamp r) (rq_nonce r) rid (JStr ''success'')") (auto simp: handle_incoming_def)
  then have q: "process_message env now plaintext w = (w', ms)" "fst resp = 200"
    using i b e s o by (auto simp: handle_incoming_def split: prod.splits)
  have "trim_space (wn_receive_id w) \<noteq> [] \<longrightarrow> rid = trim_space (wn_receive_id w)"
    using decrypt_receiver o by (simp add: open_callback_def)
  then show ?thesis using p s(2) o q process_message_published [OF q(1)] by metis
qed

definition hello_sealed :: string where
  "hello_sealed = (case wecom_encrypt plain_crypto sample_key ''corp'' ''m1'' (replicate 16 CHR ''r'') of Inr s \<Rightarrow> s | Inl _ \<Rightarrow> [])"

definition hello_env :: wecom_env where
  "hello_env = \<lparr>we_crypto = plain_crypto, we_sha1 = (\<lambda>_. ''5a''),
     we_parse = (\<lambda>s. if s = ''body'' then Some (JObj [(''encrypt'', JStr hello_sealed)])
       else if s = ''m1'' then Some (JObj [(''msgid'', JStr ''1''), (''from'', JObj [(''userid'', JStr ''ann'')]),
          (''msgtype'', JStr ''text''), (''text'', JObj [(''content'', JStr ''hi'')])])
       else None),
     we_print = (\<lambda>_. ''json''), we_fetch = (\<lambda>_. FetchErr), we_detect = (\<lambda>_. []), we_image = (\<lambda>_ _ _. OtherBlock []),
     we_random = replicate 16 CHR ''r''\<rparr>"

definition hello_channel :: wecom_channel where
  "hello_channel = new_wecom_channel \<lparr>wc_enabled = True, wc_token = ''t'', wc_aes_key = sample_key, wc_receive_id = ''corp'',
     wc_port = 0, wc_allow_from = [''ann''], wc_proxy = []\<rparr>"

definition hello_request :: wecom_request where
  "hello_request = \<lparr>rq_method = ''POST'', rq_signature = ''5a'', rq_timestamp = ''9'', rq_nonce = ''n'', rq_echostr = [],
     rq_body = Some ''body''\<rparr>"

theorem wecom_callback_authentic_witness:
  "map im_content (snd (snd (handle_callback hello_env 7 hello_request hello_channel))) = [''hi'']
    \<and> length (snd (snd (handle_callback hello_env 7 hello_request hello_channel))) \<le> 1"
proof -
  have h: "map im_content (snd (snd (handle_callback hello_env 7 hello_request hello_channel))) = [''hi'']" by code_simp
  obtain resp w' ms where r: "handle_callback hello_env 7 hello_request hello_channel = (resp, w', ms)"
    by (metis prod_cases3)
  with h have "ms \<noteq> []" by auto
  then show ?thesis using wecom_callback_authentic [OF r] h r by simp
qed

text \<open>A message id is published once within the time to live of the cache.\<close>

lemma seen_again:
  assumes "seen k now c = (c', False)" and "k \<noteq> []" and "now \<le> t" and "t < now + mg_ttl c" and "distinct (map fst (mg_items c))"
  shows "seen k t c' = (c', True)"
proof -
  let ?items = "AList.update k (now + mg_ttl c) (AList.delete k (mg_items c))"
  have n: "\<not> (case map_of (mg_items c) k of Some e \<Rightarrow> now < e | None \<Rightarrow> False)"
    using assms(1,2) by (auto simp: seen_def split: if_splits)
  have c': "c' = msg_gc now (c\<lparr>mg_items := ?items\<rparr>)"
    using assms(1,2) by (simp only: seen_def if_not_P [OF n] if_False) simp
  have "distinct (map fst ?items)" using assms(5) by (simp add: distinct_update distinct_delete)
  from map_of_filter_items [OF this, of "\<lambda>x. \<not> now > x" k] assms(3,4)
  have "map_of (mg_items c') k = Some (now + mg_ttl c)" unfolding c' by (simp add: msg_gc_def update_conv')
  then show ?thesis using assms(2,4) by (simp add: seen_def)
qed

lemma wecom_duplicate_dropped:
  assumes "process_message env now plaintext w = (w1, ms)" and "ms \<noteq> []" and "decode_message env plaintext = Some m"
    and "trim_space (wm_msg_id m) \<noteq> []" and "now \<le> t" and "t < now + mg_ttl (wn_msgs w)"
    and "distinct (map fst (mg_items (wn_msgs w)))"
  shows "snd (process_message env t plaintext w1) = []"
  using process_message_cases [OF assms(1)]
proof cases
  case (2 m')
  have m: "m' = m" using 2(1) assms(3) by simp
  have a: "wn_allow w1 = wn_allow w" "wn_msgs w1 = fst (message_seen now m (wn_msgs w))" "\<not> snd (message_seen now m (wn_msgs w))"
    using accept_message_shape [OF 2(4)] assms(2) m by auto
  then have "seen (trim_space (wm_msg_id m)) now (wn_msgs w) = (wn_msgs w1, False)"
    using assms(4) by (cases "seen (trim_space (wm_msg_id m)) now (wn_msgs w)") (simp add: message_seen_def)
  from seen_again [OF this assms(4,5,6,7)] assms(4) have "message_seen t m (wn_msgs w1) = (wn_msgs w1, True)"
    by (simp add: message_seen_def)
  then show ?thesis using assms(3) by (auto simp: process_message_def Let_def accept_message_def)
qed (use assms(2) in simp)

subsection \<open>Sending is bounded\<close>

lemma send_attempts_bound:
  "send_attempts env answers alive a n = (k, e) \<Longrightarrow> a \<le> k \<and> k \<le> a + n
    \<and> (e = None \<longrightarrow> 0 < n \<longrightarrow> send_text_once env (answers k) = None)
    \<and> (\<forall>i. a < i \<and> i < k \<longrightarrow> (\<exists>x. send_text_once env (answers i) = Some x \<and> should_retry x))"
proof (induction n arbitrary: a)
  case (Suc n)
  show ?case
  proof (cases "send_text_once env (answers (Suc a))")
    case None
    then show ?thesis using Suc.prems by auto
  next
    case (Some x)
    show ?thesis
    proof (cases "\<not> should_retry x \<or> n = 0 \<or> \<not> alive (Suc a)")
      case True
      then show ?thesis using Suc.prems Some by (auto split: if_splits)
    next
      case False
      then have r: "send_attempts env answers alive (Suc a) n = (k, e)" using Suc.prems Some by simp
      have "\<exists>x. send_text_once env (answers i) = Some x \<and> should_retry x" if "a < i" "i < k" for i
        using Suc.IH [OF r] that Some False by (cases "i = Suc a") auto
      then show ?thesis using Suc.IH [OF r] False by auto
    qed
  qed
qed auto

text \<open>At most three attempts, repeated only after errors that are worth it, of at most 20480 bytes of content.\<close>

lemma wecom_send_bounded:
  assumes "wecom_send env now answers alive msg w = (w', SentTo url payload (k, e))"
  shows "k \<le> 3 \<and> (e = None \<longrightarrow> send_text_once env (answers k) = None)
    \<and> (\<forall>i. 0 < i \<and> i < k \<longrightarrow> (\<exists>x. send_text_once env (answers i) = Some x \<and> should_retry x))
    \<and> int (length (truncate_bytes (om_content msg) markdown_max_bytes)) \<le> 20480"
proof -
  have "send_attempts env answers alive 0 3 = (k, e)"
    using assms by (auto simp: wecom_send_def Let_def send_with_retry_def split: if_splits prod.splits option.splits)
  from send_attempts_bound [OF this] have "k \<le> 3 \<and> (e = None \<longrightarrow> send_text_once env (answers k) = None)
      \<and> (\<forall>i. 0 < i \<and> i < k \<longrightarrow> (\<exists>x. send_text_once env (answers i) = Some x \<and> should_retry x))" by simp
  moreover have "0 < markdown_max_bytes" by (simp add: markdown_max_bytes_def)
  then have "int (length (truncate_bytes (om_content msg) markdown_max_bytes)) \<le> markdown_max_bytes"
    using truncate_bytes_correct by blast
  ultimately show ?thesis by (simp add: markdown_max_bytes_def)
qed

end
