(* ===== verification/Feishu.thy ===== *)
theory Feishu
  imports Wecom ChannelGuard
begin

text \<open>
  \<open>internal/plugins/channel/feishu\<close>: the Feishu channel, with its cached tenant token. A webhook call is a request record.
  HTTP, JSON texts, base64 and the clock are arguments; JSON values are the trees of \<open>Config\<close>. A reply of the server is
  \<open>None\<close> when the request failed and \<open>Some None\<close> when it is no JSON.
\<close>

subsection \<open>The client\<close>

record feishu_client =
  fc_app_id :: string
  fc_secret :: string
  fc_token :: string
  fc_expires :: instant

type_synonym server_reply = "json option option"

record feishu_env =
  fe_token :: server_reply
  fe_send :: server_reply
  fe_parse :: "string \<Rightarrow> json option"
  fe_print :: "json \<Rightarrow> string"
  fe_escape :: "string \<Rightarrow> string"
  fe_fetch :: "string \<Rightarrow> string \<Rightarrow> fetch"
  fe_detect :: "string \<Rightarrow> string"
  fe_base64 :: "string \<Rightarrow> string"
  fe_image :: "string \<Rightarrow> string \<Rightarrow> string \<Rightarrow> content_block"

datatype feishu_error =
    TokenRequestFails | TokenUndecodable | TokenRefused string
  | SendRequestFails | SendUndecodable | SendRefused string
  | TextUnparsable | ImageUnparsable | ImageKeyMissing

record token_reply =
  tk_code :: int
  tk_msg :: string
  tk_token :: string
  tk_expire :: int

definition token_fields :: "token_reply field_table" where
  "token_fields =
     [(''code'', fld tk_code tk_code_update dec_int), (''msg'', fld tk_msg tk_msg_update dec_string),
      (''tenant_access_token'', fld tk_token tk_token_update dec_string), (''expire'', fld tk_expire tk_expire_update dec_int)]"

definition zero_reply :: token_reply where
  "zero_reply = \<lparr>tk_code = 0, tk_msg = [], tk_token = [], tk_expire = 0\<rparr>"

text \<open>The request's body is put together from the two strings as they are.\<close>

definition token_request :: "feishu_client \<Rightarrow> string" where
  "token_request c = ''{\"app_id\":\"'' @ fc_app_id c @ ''\",\"app_secret\":\"'' @ fc_secret c @ ''\"}''"

definition token_valid :: "instant \<Rightarrow> feishu_client \<Rightarrow> bool" where
  "token_valid now c \<longleftrightarrow> fc_token c \<noteq> [] \<and> now < fc_expires c"

definition tenant_token :: "feishu_env \<Rightarrow> instant \<Rightarrow> feishu_client \<Rightarrow> feishu_client \<times> (feishu_error + string)" where
  "tenant_token env now c =
     (if token_valid now c then (c, Inr (fc_token c))
      else case fe_token env of
          None \<Rightarrow> (c, Inl TokenRequestFails)
        | Some None \<Rightarrow> (c, Inl TokenUndecodable)
        | Some (Some j) \<Rightarrow>
            (case dec_struct token_fields j zero_reply of
               (r, True) \<Rightarrow> (c, Inl TokenUndecodable)
             | (r, False) \<Rightarrow>
                 (if tk_code r \<noteq> 0 then (c, Inl (TokenRefused (tk_msg r)))
                  else (c\<lparr>fc_token := tk_token r, fc_expires := now + wrap64 (wrap64 (tk_expire r - 60) * second)\<rparr>, Inr (tk_token r)))))"

definition feishu_payload :: "feishu_env \<Rightarrow> string \<Rightarrow> string \<Rightarrow> string" where
  "feishu_payload env chatID content =
     fe_print env (JObj [(''content'', JStr (fe_print env (JObj [(''text'', JStr content)]))), (''msg_type'', JStr ''text''),
       (''receive_id'', JStr chatID)])"

text \<open>\<open>SendMessage\<close>: the token and the payload of the request, if one is made, and the error.\<close>

definition feishu_send_message ::
  "feishu_env \<Rightarrow> instant \<Rightarrow> string \<Rightarrow> string \<Rightarrow> feishu_client \<Rightarrow> feishu_client \<times> (string \<times> string) option \<times> feishu_error option" where
  "feishu_send_message env now chatID content c =
     (case tenant_token env now c of
        (c', Inl e) \<Rightarrow> (c', None, Some e)
      | (c', Inr token) \<Rightarrow>
          (c', Some (token, feishu_payload env chatID content),
           case fe_send env of
             None \<Rightarrow> Some SendRequestFails
           | Some None \<Rightarrow> Some SendUndecodable
           | Some (Some j) \<Rightarrow>
               (case dec_struct (take 2 token_fields) j zero_reply of
                  (r, True) \<Rightarrow> Some SendUndecodable
                | (r, False) \<Rightarrow> if tk_code r \<noteq> 0 then Some (SendRefused (tk_msg r)) else None)))"

subsection \<open>Images\<close>

definition feishu_media_type :: "string \<Rightarrow> string" where
  "feishu_media_type v =
     (let t = trim_space v in
      if t = [] then [] else trim_space (case index_of '';'' t of Some i \<Rightarrow> take i t | None \<Rightarrow> t))"

definition feishu_image_max :: nat where "feishu_image_max = 10485760"

definition image_download_url :: "feishu_env \<Rightarrow> string \<Rightarrow> string" where
  "image_download_url env key =
     ''https://open.feishu.cn/open-apis/im/v1/images/'' @ fe_escape env (trim_space key) @ ''?image_type=message''"

definition feishu_download :: "feishu_env \<Rightarrow> string \<Rightarrow> string \<Rightarrow> (string \<times> string) option" where
  "feishu_download env token key =
     (case fe_fetch env token (image_download_url env key) of
        FetchErr \<Rightarrow> None
      | Fetched status ctype body \<Rightarrow>
          (if length body > feishu_image_max \<or> status < 200 \<or> status \<ge> 300 then None
           else let mt = feishu_media_type ctype in Some (fe_base64 env body, if mt = [] then fe_detect env body else mt)))"

text \<open>Without a token there is no block; without the image there is its address.\<close>

definition feishu_image_block :: "feishu_env \<Rightarrow> instant \<Rightarrow> string \<Rightarrow> feishu_client \<Rightarrow> feishu_client \<times> content_block option" where
  "feishu_image_block env now key c =
     (case tenant_token env now c of
        (c', Inl _) \<Rightarrow> (c', None)
      | (c', Inr token) \<Rightarrow>
          (c', Some (case feishu_download env token key of
              None \<Rightarrow> fe_image env (image_download_url env key) [] []
            | Some (b64, mt) \<Rightarrow> fe_image env [] mt b64)))"

subsection \<open>Webhook\<close>

record feishu_event =
  ev_challenge :: string
  ev_type :: string
  ev_event_type :: string
  ev_token :: string
  ev_open_id :: string
  ev_chat_id :: string
  ev_message_type :: string
  ev_content :: string

definition zero_event :: feishu_event where
  "zero_event = \<lparr>ev_challenge = [], ev_type = [], ev_event_type = [], ev_token = [], ev_open_id = [], ev_chat_id = [],
     ev_message_type = [], ev_content = []\<rparr>"

definition event_fields :: "feishu_event field_table" where
  "event_fields =
     [(''challenge'', fld ev_challenge ev_challenge_update dec_string),
      (''type'', fld ev_type ev_type_update dec_string),
      (''header'', dec_struct
         [(''event_type'', fld ev_event_type ev_event_type_update dec_string), (''token'', fld ev_token ev_token_update dec_string)]),
      (''event'', dec_struct
         [(''sender'', dec_struct [(''sender_id'', dec_struct [(''open_id'', fld ev_open_id ev_open_id_update dec_string)])]),
          (''message'', dec_struct
             [(''chat_id'', fld ev_chat_id ev_chat_id_update dec_string),
              (''message_type'', fld ev_message_type ev_message_type_update dec_string),
              (''content'', fld ev_content ev_content_update dec_string)])])]"

definition decode_text_field :: "string \<Rightarrow> feishu_env \<Rightarrow> string \<Rightarrow> string option" where
  "decode_text_field key env raw =
     (case fe_parse env raw of
        None \<Rightarrow> None
      | Some j \<Rightarrow> (case dec_struct [(key, dec_string)] j [] of (s, e) \<Rightarrow> if e then None else Some s))"

text \<open>The content, the blocks and what is added to the metadata.\<close>

definition parse_feishu_message ::
  "feishu_env \<Rightarrow> instant \<Rightarrow> string \<Rightarrow> string \<Rightarrow> feishu_client
    \<Rightarrow> feishu_client \<times> (feishu_error + string \<times> content_block list \<times> metadata)" where
  "parse_feishu_message env now kind raw c =
     (if kind = ''text'' then
        (case decode_text_field ''text'' env raw of
           None \<Rightarrow> (c, Inl TextUnparsable)
         | Some t \<Rightarrow> (c, Inr (trim_space t, [], [])))
      else if kind = ''image'' then
        (case decode_text_field ''image_key'' env raw of
           None \<Rightarrow> (c, Inl ImageUnparsable)
         | Some k \<Rightarrow>
             (let key = trim_space k in
              if key = [] then (c, Inl ImageKeyMissing)
              else case feishu_image_block env now key c of
                  (c', b) \<Rightarrow> (c', Inr (''[image]'', case b of None \<Rightarrow> [] | Some x \<Rightarrow> [x], [(''image_key'', AnyStr key)]))))
      else (c, Inr ([], [], [])))"

record feishu_channel =
  fn_cfg :: feishu_config
  fn_allow :: "string list"
  fn_client :: feishu_client

definition new_feishu_client :: "string \<Rightarrow> string \<Rightarrow> feishu_client" where
  "new_feishu_client i secret = \<lparr>fc_app_id = i, fc_secret = secret, fc_token = [], fc_expires = time_zero\<rparr>"

text \<open>\<open>proxy\<close> tells whether \<open>ClientFromProxy\<close> takes the proxy.\<close>

definition new_feishu_channel :: "(string \<Rightarrow> bool) \<Rightarrow> feishu_config \<Rightarrow> feishu_channel option" where
  "new_feishu_channel proxy cfg =
     (if \<not> proxy (fs_proxy cfg) then None
      else Some \<lparr>fn_cfg = cfg, fn_allow = new_matcher (fs_allow_from cfg),
        fn_client = new_feishu_client (fs_app_id cfg) (fs_app_secret cfg)\<rparr>)"

definition feishu_port :: "feishu_config \<Rightarrow> int" where
  "feishu_port cfg = (if fs_port cfg = 0 then 9876 else fs_port cfg)"

definition feishu_channels :: "(string \<Rightarrow> bool) \<Rightarrow> config option \<Rightarrow> feishu_channel list" where
  "feishu_channels proxy cfg = (case cfg of
       None \<Rightarrow> []
     | Some c \<Rightarrow>
         (if \<not> fs_enabled (ch_feishu (c_channels c)) then []
          else case new_feishu_channel proxy (ch_feishu (c_channels c)) of None \<Rightarrow> [] | Some f \<Rightarrow> [f]))"

definition feishu_inbound :: "instant \<Rightarrow> feishu_event \<Rightarrow> string \<Rightarrow> content_block list \<Rightarrow> metadata \<Rightarrow> inbound_message" where
  "feishu_inbound now ev content blocks meta =
     \<lparr>im_channel = ''feishu'', im_sender_id = ev_open_id ev, im_chat_id = ev_chat_id ev, im_content = content,
      im_timestamp = now, im_media = [], im_hints = plain_hints,
      im_transport_meta = Some ((''message_type'', AnyStr (ev_message_type ev)) # meta), im_content_blocks = blocks\<rparr>"

text \<open>A message event, after the answer 200.\<close>

definition feishu_message :: "feishu_env \<Rightarrow> instant \<Rightarrow> feishu_event \<Rightarrow> feishu_channel \<Rightarrow> feishu_channel \<times> inbound_message list" where
  "feishu_message env now ev f =
     (if ev_event_type ev \<noteq> ''im.message.receive_v1'' \<or> \<not> allow_id (fn_allow f) (ev_open_id ev) then (f, [])
      else case parse_feishu_message env now (to_lower (trim_space (ev_message_type ev))) (ev_content ev) (fn_client f) of
          (c, Inl _) \<Rightarrow> (f\<lparr>fn_client := c\<rparr>, [])
        | (c, Inr (content, blocks, meta)) \<Rightarrow>
            (f\<lparr>fn_client := c\<rparr>, if content = [] \<and> blocks = [] then [] else [feishu_inbound now ev content blocks meta]))"

record feishu_request =
  fr_post :: bool
  fr_body :: "string option"

definition decode_event :: "feishu_env \<Rightarrow> string \<Rightarrow> feishu_event option" where
  "decode_event env body =
     (case fe_parse env body of
        None \<Rightarrow> None
      | Some j \<Rightarrow> (case dec_struct event_fields j zero_event of (ev, e) \<Rightarrow> if e then None else Some ev))"

definition handle_webhook ::
  "feishu_env \<Rightarrow> instant \<Rightarrow> feishu_request \<Rightarrow> feishu_channel \<Rightarrow> (nat \<times> string) \<times> feishu_channel \<times> inbound_message list" where
  "handle_webhook env now r f =
     (if \<not> fr_post r then ((405, ''method not allowed''), f, [])
      else case fr_body r of
          None \<Rightarrow> ((400, ''read body failed''), f, [])
        | Some body \<Rightarrow>
            (case decode_event env body of
               None \<Rightarrow> ((400, ''invalid json''), f, [])
             | Some ev \<Rightarrow>
                 (if ev_challenge ev \<noteq> [] then
                    ((200, fe_print env (JObj [(''challenge'', JStr (ev_challenge ev))]) @ [newline]), f, [])
                  else if fs_verification_token (fn_cfg f) \<noteq> [] \<and> ev_token ev \<noteq> fs_verification_token (fn_cfg f)
                  then ((401, ''invalid token''), f, [])
                  else case feishu_message env now ev f of (f', ms) \<Rightarrow> ((200, []), f', ms))))"

text \<open>\<open>Send\<close> passes the chat and the content on.\<close>

definition feishu_send ::
  "feishu_env \<Rightarrow> instant \<Rightarrow> outbound_message \<Rightarrow> feishu_channel \<Rightarrow> feishu_channel \<times> feishu_error option" where
  "feishu_send env now m f =
     (case feishu_send_message env now (om_chat_id m) (om_content m) (fn_client f) of (c, _, e) \<Rightarrow> (f\<lparr>fn_client := c\<rparr>, e))"

subsection \<open>Who is heard\<close>

definition feishu_step :: "feishu_channel \<Rightarrow> feishu_env \<times> instant \<times> feishu_request \<Rightarrow> feishu_channel \<times> inbound_message list" where
  "feishu_step f i = (case i of (env, now, r) \<Rightarrow> snd (handle_webhook env now r f))"

definition feishu_admits :: "feishu_channel \<Rightarrow> inbound_message \<Rightarrow> bool" where
  "feishu_admits f im \<longleftrightarrow> allow_id (fn_allow f) (im_sender_id im)"

lemma feishu_message_shape:
  assumes "feishu_message env now ev f = (f', ms)"
  shows "fn_cfg f' = fn_cfg f \<and> fn_allow f' = fn_allow f
    \<and> (ms \<noteq> [] \<or> f' \<noteq> f \<longrightarrow> ev_event_type ev = ''im.message.receive_v1'' \<and> allow_id (fn_allow f) (ev_open_id ev))
    \<and> (\<exists>content blocks meta. ms = [] \<or> ms = [feishu_inbound now ev content blocks meta])"
  using assms by (auto simp: feishu_message_def split: if_splits prod.splits sum.splits)

text \<open>A call changes the channel or publishes a message only if it is a POST with an event that is no challenge, carries the
  verification token if there is one, and is a message of an allowed sender.\<close>

lemma feishu_webhook_guarded:
  assumes "handle_webhook env now r f = (resp, f', ms)" and "ms \<noteq> [] \<or> f' \<noteq> f"
  shows "fr_post r \<and> resp = (200, []) \<and> (\<exists>body ev. fr_body r = Some body \<and> decode_event env body = Some ev
    \<and> ev_challenge ev = [] \<and> (fs_verification_token (fn_cfg f) = [] \<or> ev_token ev = fs_verification_token (fn_cfg f))
    \<and> ev_event_type ev = ''im.message.receive_v1'' \<and> allow_id (fn_allow f) (ev_open_id ev)
    \<and> feishu_message env now ev f = (f', ms))"
proof -
  obtain body where b: "fr_post r" "fr_body r = Some body"
    using assms by (auto simp: handle_webhook_def split: if_splits option.splits)
  then obtain ev where ev: "decode_event env body = Some ev"
    using assms by (cases "decode_event env body") (auto simp: handle_webhook_def)
  have c: "ev_challenge ev = []" using assms b ev by (cases "ev_challenge ev = []") (auto simp: handle_webhook_def)
  have t: "fs_verification_token (fn_cfg f) = [] \<or> ev_token ev = fs_verification_token (fn_cfg f)"
    using assms b ev c by (auto simp: handle_webhook_def split: if_splits)
  obtain g ns where m: "feishu_message env now ev f = (g, ns)" by fastforce
  have "handle_webhook env now r f = ((200, []), g, ns)" using b ev c t m by (auto simp: handle_webhook_def)
  then show ?thesis using assms b ev c t m feishu_message_shape [OF m] by auto
qed

lemma feishu_step_shape:
  "length (snd (feishu_step f i)) \<le> 1 \<and> fn_allow (fst (feishu_step f i)) = fn_allow f
    \<and> (\<forall>im \<in> set (snd (feishu_step f i)). im_channel im = ''feishu'' \<and> feishu_admits f im)"
proof -
  obtain env now r where i: "i = (env, now, r)" by (cases i)
  obtain resp f' ms where h: "handle_webhook env now r f = (resp, f', ms)" by (metis prod_cases3)
  show ?thesis
  proof (cases "ms \<noteq> [] \<or> f' \<noteq> f")
    case True
    then obtain ev where "feishu_message env now ev f = (f', ms)" using feishu_webhook_guarded [OF h] by blast
    then show ?thesis
      using feishu_message_shape [of env now ev f f' ms] True h i
      by (auto simp: feishu_step_def feishu_inbound_def feishu_admits_def)
  qed (use h i in \<open>simp add: feishu_step_def\<close>)
qed

interpretation feishu_guard: guarded_channel feishu_step feishu_admits "''feishu''"
proof
  show "feishu_admits (fst (feishu_step s i)) = feishu_admits s" for s i
    using feishu_step_shape [of s i] by (simp add: feishu_admits_def fun_eq_iff)
qed (use feishu_step_shape in blast)+

text \<open>The secret is put into the request as it is: a quote in it ends the JSON string.\<close>

lemma token_request_unescaped:
  "token_request (new_feishu_client ''a'' ''b\"c'') = ''{\"app_id\":\"a\",\"app_secret\":\"b\"c\"}''"
  by (simp add: token_request_def new_feishu_client_def)

end
