(* ===== verification/Matrix.thy ===== *)
theory Matrix
  imports Config ChannelGuard StringUtil
begin

text \<open>
  \<open>internal/plugins/channel/matrix\<close>: the Matrix channel with the state file of its synchronisation. The client library,
  the disk, a fresh uuid and the clock are arguments; JSON values are the trees of \<open>Config\<close>.
\<close>

subsection \<open>The state file\<close>

record matrix_state =
  ms_next_batch :: string
  ms_filter_id :: string
  ms_device_id :: string

definition zero_state :: matrix_state where
  "zero_state = \<lparr>ms_next_batch = [], ms_filter_id = [], ms_device_id = []\<rparr>"

definition state_fields :: "matrix_state field_table" where
  "state_fields =
     [(''nextBatch'', fld ms_next_batch ms_next_batch_update dec_string),
      (''filterId'', fld ms_filter_id ms_filter_id_update dec_string),
      (''deviceId'', fld ms_device_id ms_device_id_update dec_string)]"

definition encode_state :: "matrix_state \<Rightarrow> json" where
  "encode_state s =
     JObj [(''nextBatch'', JStr (ms_next_batch s)), (''filterId'', JStr (ms_filter_id s)), (''deviceId'', JStr (ms_device_id s))]"

text \<open>What the file holds: a JSON value, or a text that is none.\<close>

datatype state_file = NoStateFile | UnreadableState | EmptyState | BadState | StateFile json

datatype matrix_error =
    StateReadErr | StateParseErr | StateWriteErr | StateCommitErr | UnexpectedUser string
  | UserIdRequired | WorkspaceRequired | StateDirErr | ClientErr | RoomRequired | MatrixSendErr string

text \<open>How a write goes: the temporary file, then the rename.\<close>

datatype state_io = StateStored | StateWriteFails | StateRenameFails

record sync_store =
  sy_user :: string
  sy_state :: matrix_state
  sy_file :: state_file

definition load_state :: "state_file \<Rightarrow> matrix_error + matrix_state" where
  "load_state f = (case f of
       NoStateFile \<Rightarrow> Inr zero_state
     | UnreadableState \<Rightarrow> Inl StateReadErr
     | EmptyState \<Rightarrow> Inr zero_state
     | BadState \<Rightarrow> Inl StateParseErr
     | StateFile j \<Rightarrow> (case dec_struct state_fields j zero_state of (s, e) \<Rightarrow> if e then Inl StateParseErr else Inr s))"

definition persist_state :: "state_io \<Rightarrow> sync_store \<Rightarrow> sync_store \<times> matrix_error option" where
  "persist_state io s = (case io of
       StateStored \<Rightarrow> (s\<lparr>sy_file := StateFile (encode_state (sy_state s))\<rparr>, None)
     | StateWriteFails \<Rightarrow> (s, Some StateWriteErr)
     | StateRenameFails \<Rightarrow> (s, Some StateCommitErr))"

definition fresh_device :: "string \<Rightarrow> string" where "fresh_device uuid = ''MAVEN'' @ take 8 uuid"

definition open_store :: "bool \<Rightarrow> string \<Rightarrow> string \<Rightarrow> string \<Rightarrow> state_io \<Rightarrow> state_file \<Rightarrow> state_file \<times> (matrix_error + sync_store)" where
  "open_store mkdir user device uuid io f =
     (if \<not> mkdir then (f, Inl StateDirErr)
      else case load_state f of
          Inl e \<Rightarrow> (f, Inl e)
        | Inr st \<Rightarrow>
            (let s = \<lparr>sy_user = user, sy_state = st, sy_file = f\<rparr> in
             if ms_device_id st \<noteq> [] then (f, Inr s)
             else
               let d = (if device \<noteq> [] then device else fresh_device uuid) in
               (case persist_state io (s\<lparr>sy_state := st\<lparr>ms_device_id := d\<rparr>\<rparr>) of
                  (s', Some e) \<Rightarrow> (sy_file s', Inl e)
                | (s', None) \<Rightarrow> (sy_file s', Inr s'))))"

definition save_filter_id :: "state_io \<Rightarrow> string \<Rightarrow> string \<Rightarrow> sync_store \<Rightarrow> sync_store \<times> matrix_error option" where
  "save_filter_id io user i s =
     (if user \<noteq> sy_user s then (s, Some (UnexpectedUser user))
      else if i = ms_filter_id (sy_state s) then (s, None)
      else persist_state io (s\<lparr>sy_state := (sy_state s)\<lparr>ms_filter_id := i\<rparr>\<rparr>))"

definition load_filter_id :: "string \<Rightarrow> sync_store \<Rightarrow> matrix_error + string" where
  "load_filter_id user s = (if user \<noteq> sy_user s then Inl (UnexpectedUser user) else Inr (ms_filter_id (sy_state s)))"

definition save_next_batch :: "state_io \<Rightarrow> string \<Rightarrow> string \<Rightarrow> sync_store \<Rightarrow> sync_store \<times> matrix_error option" where
  "save_next_batch io user b s =
     (if user \<noteq> sy_user s then (s, Some (UnexpectedUser user))
      else if b = ms_next_batch (sy_state s) then (s, None)
      else persist_state io (s\<lparr>sy_state := (sy_state s)\<lparr>ms_next_batch := b\<rparr>\<rparr>))"

definition load_next_batch :: "string \<Rightarrow> sync_store \<Rightarrow> matrix_error + string" where
  "load_next_batch user s = (if user \<noteq> sy_user s then Inl (UnexpectedUser user) else Inr (ms_next_batch (sy_state s)))"

subsection \<open>The channel\<close>

record matrix_channel =
  mh_user :: string
  mh_allow :: "string list"
  mh_rooms :: "string list"
  mh_device :: string

definition parse_user_id :: "string \<Rightarrow> matrix_error + string" where
  "parse_user_id raw = (let u = trim_space raw in if u = [] then Inl UserIdRequired else Inr u)"

definition build_allow_rooms :: "string list \<Rightarrow> string list" where
  "build_allow_rooms rooms = filter (\<lambda>r. r \<noteq> []) (map trim_space rooms)"

definition is_room_allowed :: "matrix_channel \<Rightarrow> string \<Rightarrow> bool" where
  "is_room_allowed m room \<longleftrightarrow> mh_rooms m = [] \<or> room \<in> set (mh_rooms m)"

text \<open>\<open>client\<close> tells whether the library makes a client for the server, the user and the token.\<close>

definition new_matrix_channel ::
  "(string \<Rightarrow> string \<Rightarrow> string \<Rightarrow> bool) \<Rightarrow> bool \<Rightarrow> string \<Rightarrow> state_io \<Rightarrow> matrix_config \<Rightarrow> string \<Rightarrow> state_file
    \<Rightarrow> state_file \<times> (matrix_error + matrix_channel)" where
  "new_matrix_channel client mkdir uuid io cfg workspace f =
     (case parse_user_id (mx_user_id cfg) of
        Inl e \<Rightarrow> (f, Inl e)
      | Inr user \<Rightarrow>
          (if trim_space workspace = [] then (f, Inl WorkspaceRequired)
           else case open_store mkdir user (trim_space (mx_device_id cfg)) uuid io f of
               (f', Inl e) \<Rightarrow> (f', Inl e)
             | (f', Inr s) \<Rightarrow>
                 (f', if \<not> client (mx_homeserver cfg) user (mx_access_token cfg) then Inl ClientErr
                      else Inr \<lparr>mh_user = user, mh_allow = new_matcher (mx_allow_from cfg),
                        mh_rooms = build_allow_rooms (mx_allow_rooms cfg), mh_device = ms_device_id (sy_state s)\<rparr>)))"

text \<open>An event of the synchronisation, as far as it is read. \<open>mv_text\<close> is \<open>MsgType.IsText\<close>.\<close>

record matrix_event =
  mv_sender :: string
  mv_room :: string
  mv_id :: string
  mv_timestamp :: int
  mv_type :: string
  mv_text :: bool
  mv_body :: string

definition handle_matrix_message :: "instant \<Rightarrow> matrix_event \<Rightarrow> matrix_channel \<Rightarrow> inbound_message list" where
  "handle_matrix_message now ev m =
     (if mv_sender ev = mh_user m \<or> \<not> is_room_allowed m (mv_room ev) \<or> \<not> allow_id (mh_allow m) (mv_sender ev) \<or> \<not> mv_text ev
         \<or> trim_space (mv_body ev) = []
      then []
      else [\<lparr>im_channel = ''matrix'', im_sender_id = mv_sender ev, im_chat_id = mv_room ev, im_content = trim_space (mv_body ev),
        im_timestamp = (if 0 < mv_timestamp ev then mv_timestamp ev * millisecond else now), im_media = [], im_hints = plain_hints,
        im_transport_meta = Some [(''event_id'', AnyStr (mv_id ev)), (''room_id'', AnyStr (mv_room ev)),
          (''msg_type'', AnyStr (mv_type ev))], im_content_blocks = []\<rparr>])"

text \<open>A change of membership: the room the channel joins, if any.\<close>

definition handle_member :: "string \<Rightarrow> bool \<Rightarrow> string \<Rightarrow> matrix_channel \<Rightarrow> string option" where
  "handle_member stateKey invite room m = (if stateKey = mh_user m \<and> invite then Some room else None)"

definition matrix_chunk_size :: int where "matrix_chunk_size = 32000"

text \<open>\<open>Send\<close>: the texts that are sent, and the error; \<open>ok n\<close> tells whether the server takes the \<open>n\<close>-th.\<close>

fun send_texts :: "(nat \<Rightarrow> bool) \<Rightarrow> string \<Rightarrow> nat \<Rightarrow> string list \<Rightarrow> string list \<times> matrix_error option" where
  "send_texts ok room n [] = ([], None)"
| "send_texts ok room n (c # cs) =
     (if \<not> ok n then ([c], Some (MatrixSendErr room))
      else case send_texts ok room (Suc n) cs of (sent, e) \<Rightarrow> (c # sent, e))"

definition matrix_send :: "(nat \<Rightarrow> bool) \<Rightarrow> outbound_message \<Rightarrow> string list \<times> matrix_error option" where
  "matrix_send ok m =
     (let room = trim_space (om_chat_id m); content = trim_space (om_content m) in
      if room = [] then ([], Some RoomRequired)
      else if content = [] then ([], None)
      else send_texts ok room 0 (chunk_bytes content matrix_chunk_size))"

definition matrix_channels ::
  "(string \<Rightarrow> string \<Rightarrow> string \<Rightarrow> bool) \<Rightarrow> bool \<Rightarrow> string \<Rightarrow> state_io \<Rightarrow> config option \<Rightarrow> state_file \<Rightarrow> state_file \<times> matrix_channel list" where
  "matrix_channels client mkdir uuid io cfg f = (case cfg of
       None \<Rightarrow> (f, [])
     | Some c \<Rightarrow>
         (if \<not> mx_enabled (ch_matrix (c_channels c)) then (f, [])
          else case new_matrix_channel client mkdir uuid io (ch_matrix (c_channels c)) (ac_workspace (c_agent c)) f of
              (f', Inl _) \<Rightarrow> (f', [])
            | (f', Inr m) \<Rightarrow> (f', [m])))"

subsection \<open>Restarts\<close>

lemma load_encoded: "load_state (StateFile (encode_state s)) = Inr s"
  by (simp add: load_state_def encode_state_def state_fields_def dec_struct_def dec_entry_def look_field_def fld_def dec_string_def
      zero_state_def)

text \<open>A store whose file, if its device is known, is its state.\<close>

definition store_synced :: "sync_store \<Rightarrow> bool" where
  "store_synced s \<longleftrightarrow> ms_device_id (sy_state s) \<noteq> [] \<and> load_state (sy_file s) = Inr (sy_state s)"

lemma persist_synced:
  "ms_device_id (sy_state s) \<noteq> [] \<Longrightarrow> persist_state io s = (s', None) \<Longrightarrow> store_synced s' \<and> sy_state s' = sy_state s"
  by (cases io) (auto simp: persist_state_def store_synced_def load_encoded)

datatype store_op = SaveFilter state_io string | SaveBatch state_io string

definition run_op :: "store_op \<Rightarrow> sync_store \<Rightarrow> sync_store \<times> matrix_error option" where
  "run_op op s = (case op of
       SaveFilter io i \<Rightarrow> save_filter_id io (sy_user s) i s
     | SaveBatch io b \<Rightarrow> save_next_batch io (sy_user s) b s)"

lemma run_op_synced: "store_synced s \<Longrightarrow> run_op op s = (s', None) \<Longrightarrow> store_synced s'"
  by (cases op) (auto simp: run_op_def save_filter_id_def save_next_batch_def store_synced_def load_encoded persist_state_def
      split: if_splits state_io.splits)

text \<open>Opening the store and every operation that succeeds leave the file and the memory equal, so that a restart goes on at
  the same position of the stream with the same device.\<close>

lemma matrix_restart:
  assumes "open_store mkdir user device uuid io f = (f', Inr s)"
  shows "store_synced s" and "sy_file s = f'"
proof -
  obtain st where l: "mkdir" "load_state f = Inr st" using assms by (auto simp: open_store_def split: if_splits sum.splits)
  let ?s = "\<lparr>sy_user = user, sy_state = st, sy_file = f\<rparr>"
  have "store_synced s \<and> sy_file s = f'"
  proof (cases "ms_device_id st = []")
    case False
    then show ?thesis using assms l by (auto simp: open_store_def store_synced_def)
  next
    case True
    let ?d = "if device \<noteq> [] then device else fresh_device uuid"
    obtain s' e where p: "persist_state io (?s\<lparr>sy_state := st\<lparr>ms_device_id := ?d\<rparr>\<rparr>) = (s', e)" by fastforce
    then have "e = None" "s' = s" "sy_file s = f'" using assms l True by (cases e; auto simp: open_store_def Let_def)+
    moreover have "?d \<noteq> []" by (simp add: fresh_device_def)
    ultimately show ?thesis using persist_synced [of "?s\<lparr>sy_state := st\<lparr>ms_device_id := ?d\<rparr>\<rparr>"] p by simp
  qed
  then show "store_synced s" "sy_file s = f'" by simp_all
qed

text \<open>A failed write leaves the new position in memory: the same position saved again is not written, and after a restart
  the events in between are read twice.\<close>

lemma failed_batch_not_retried:
  assumes "b \<noteq> ms_next_batch (sy_state s)" and "save_next_batch StateWriteFails (sy_user s) b s = (s', e)"
  shows "e = Some StateWriteErr" and "save_next_batch StateStored (sy_user s') b s' = (s', None)" and "sy_file s' = sy_file s"
  using assms by (auto simp: save_next_batch_def persist_state_def)

subsection \<open>Who is heard\<close>

definition matrix_step :: "matrix_channel \<Rightarrow> instant \<times> matrix_event \<Rightarrow> matrix_channel \<times> inbound_message list" where
  "matrix_step m i = (m, handle_matrix_message (fst i) (snd i) m)"

definition matrix_admits :: "matrix_channel \<Rightarrow> inbound_message \<Rightarrow> bool" where
  "matrix_admits m im \<longleftrightarrow> im_sender_id im \<noteq> mh_user m \<and> allow_id (mh_allow m) (im_sender_id im) \<and> is_room_allowed m (im_chat_id im)"

interpretation matrix_guard: guarded_channel matrix_step matrix_admits "''matrix''"
  by unfold_locales (auto simp: matrix_step_def handle_matrix_message_def matrix_admits_def split: if_splits)

text \<open>An invitation is accepted from anybody, also into a room that is not on the list.\<close>

lemma any_invitation_accepted: "handle_member (mh_user m) True room m = Some room"
  by (simp add: handle_member_def)

subsection \<open>Sending\<close>

lemma send_texts_all: "(\<And>n. ok n) \<Longrightarrow> send_texts ok room n cs = (cs, None)"
  by (induction cs arbitrary: n) simp_all

text \<open>When the server takes every piece, what is sent is the content, in pieces of at most 32,000 bytes.\<close>

lemma matrix_send_complete:
  assumes "\<And>n. ok n" and "trim_space (om_chat_id m) \<noteq> []"
  shows "snd (matrix_send ok m) = None" and "concat (fst (matrix_send ok m)) = trim_space (om_content m)"
    and "\<forall>t \<in> set (fst (matrix_send ok m)). length t \<le> 32000"
proof -
  let ?c = "trim_space (om_content m)"
  have s: "matrix_send ok m = (if ?c = [] then [] else chunk_bytes ?c matrix_chunk_size, None)"
    using send_texts_all [of ok, OF assms(1)] assms(2) by (simp add: matrix_send_def Let_def)
  have "concat (chunk_bytes ?c matrix_chunk_size) = ?c \<and> (\<forall>t \<in> set (chunk_bytes ?c matrix_chunk_size). length t \<le> 32000)"
    using chunk_loop_concat [of 32000 ?c] chunk_loop_bounds [of 32000 _ ?c] by (simp add: chunk_bytes_def matrix_chunk_size_def)
  then show "snd (matrix_send ok m) = None" "concat (fst (matrix_send ok m)) = ?c" "\<forall>t \<in> set (fst (matrix_send ok m)). length t \<le> 32000"
    using s by auto
qed

end
