(* ===== verification/Whatsapp.thy ===== *)
theory Whatsapp
  imports Config ChannelGuard
begin

text \<open>
  \<open>internal/plugins/channel/whatsapp\<close>: the WhatsApp channel. The client library, its addresses (JIDs), the session store and
  base64 are arguments; a JID is the string it prints as.
\<close>

subsection \<open>Addresses\<close>

text \<open>\<open>types.ParseJID\<close> is \<open>wp_parse\<close>, \<open>types.NewJID\<close> on the default server \<open>wp_user\<close>, \<open>ToNonAD\<close> \<open>wp_non_ad\<close>.\<close>

record whatsapp_env =
  wp_parse :: "string \<Rightarrow> string option"
  wp_user :: "string \<Rightarrow> string"
  wp_non_ad :: "string \<Rightarrow> string"
  wp_download :: "string \<Rightarrow> string option"
  wp_detect :: "string \<Rightarrow> string"
  wp_base64 :: "string \<Rightarrow> string"
  wp_image :: "string \<Rightarrow> string \<Rightarrow> content_block"

definition is_digits_only :: "string \<Rightarrow> bool" where
  "is_digits_only s \<longleftrightarrow> s \<noteq> [] \<and> list_all is_digit s"

definition parse_whatsapp_jid :: "whatsapp_env \<Rightarrow> string \<Rightarrow> string option" where
  "parse_whatsapp_jid env raw0 =
     (let raw = trim_space raw0 in
      if raw = [] then None
      else if contains raw ''@'' then wp_parse env raw
      else let user = trim_prefix raw ''+'' in
        if is_digits_only user then Some (wp_user env user) else wp_parse env raw)"

subsection \<open>The channel\<close>

record whatsapp_channel =
  wx_allow :: "string list"
  wx_jid :: string
  wx_client :: bool
  wx_handler :: bool
  wx_store :: bool
  wx_connected :: bool

datatype whatsapp_error =
    StoreDirErr | StoreErr | DeviceErr | ClientMissing | QrErr | ConnectErr | StoreCloseErr
  | ChatRequired | ChatUnparsable string | WhatsappSendErr

text \<open>The file of the session store, and the channel; the three flags are the directory, the store and its device. A device
  that cannot be read closes the store.\<close>

definition whatsapp_store_path :: "string \<Rightarrow> whatsapp_config \<Rightarrow> string" where
  "whatsapp_store_path configDir cfg =
     (let p = trim_space (wa_store_path cfg) in if p = [] then join_path [configDir, ''whatsapp-store.db''] else p)"

definition new_whatsapp :: "bool \<Rightarrow> bool \<Rightarrow> bool \<Rightarrow> whatsapp_config \<Rightarrow> whatsapp_error + whatsapp_channel" where
  "new_whatsapp dir store device cfg =
     (if \<not> dir then Inl StoreDirErr
      else if \<not> store then Inl StoreErr
      else if \<not> device then Inl DeviceErr
      else Inr \<lparr>wx_allow = new_matcher (wa_allow_from cfg), wx_jid = wa_jid cfg, wx_client = True, wx_handler = True,
        wx_store = True, wx_connected = False\<rparr>)"

text \<open>\<open>Start\<close>: whether the device is known, whether a QR channel is given and whether the connection is made.\<close>

definition start_whatsapp :: "bool \<Rightarrow> bool \<Rightarrow> bool \<Rightarrow> whatsapp_channel \<Rightarrow> whatsapp_channel \<times> whatsapp_error option" where
  "start_whatsapp known qr connect w =
     (if \<not> wx_client w then (w, Some ClientMissing)
      else if \<not> known \<and> \<not> qr then (w, Some QrErr)
      else if \<not> connect then (w, Some ConnectErr)
      else (w\<lparr>wx_connected := True\<rparr>, None))"

definition stop_whatsapp :: "bool \<Rightarrow> whatsapp_channel \<Rightarrow> whatsapp_channel \<times> whatsapp_error option" where
  "stop_whatsapp closes w =
     (let w1 = (if wx_client w then w\<lparr>wx_handler := False, wx_connected := False\<rparr> else w) in
      if \<not> wx_store w1 then (w1, None)
      else if \<not> closes then (w1, Some StoreCloseErr)
      else (w1\<lparr>wx_store := False\<rparr>, None))"

text \<open>\<open>Send\<close>: what is sent, to whom, and the error.\<close>

definition whatsapp_send ::
  "whatsapp_env \<Rightarrow> bool \<Rightarrow> outbound_message \<Rightarrow> whatsapp_channel \<Rightarrow> (string \<times> string) option \<times> whatsapp_error option" where
  "whatsapp_send env ok m w =
     (if \<not> wx_client w then (None, Some ClientMissing)
      else let c = trim_space (om_chat_id m); chat = (if c = [] then trim_space (wx_jid w) else c) in
        if chat = [] then (None, Some ChatRequired)
        else case parse_whatsapp_jid env chat of
            None \<Rightarrow> (None, Some (ChatUnparsable chat))
          | Some jid \<Rightarrow>
              (let content = trim_space (om_content m) in
               if content = [] then (None, None) else (Some (jid, content), if ok then None else Some WhatsappSendErr)))"

subsection \<open>Messages\<close>

text \<open>An image: its caption, media type and the reference it is downloaded by.\<close>

record whatsapp_event =
  wv_message :: bool
  wv_from_me :: bool
  wv_sender :: string
  wv_chat :: string
  wv_id :: string
  wv_push_name :: string
  wv_timestamp :: instant
  wv_conversation :: string
  wv_extended :: "string option"
  wv_image :: "(string \<times> string \<times> string) option"

definition whatsapp_text :: "whatsapp_event \<Rightarrow> string" where
  "whatsapp_text ev =
     (let t = trim_space (wv_conversation ev) in
      if t = [] then (case wv_extended ev of None \<Rightarrow> t | Some x \<Rightarrow> trim_space x) else t)"

definition whatsapp_image :: "whatsapp_env \<Rightarrow> string \<Rightarrow> string \<Rightarrow> content_block list" where
  "whatsapp_image env mime ref =
     (case wp_download env ref of
        None \<Rightarrow> []
      | Some data \<Rightarrow>
          (if data = [] then []
           else
             let m0 = trim_space mime;
                 m1 = (if m0 = [] then wp_detect env data else m0);
                 mt = (if m1 = ''application/octet-stream'' then ''image/jpeg'' else m1) in
             [wp_image env mt (wp_base64 env data)]))"

definition whatsapp_content :: "whatsapp_env \<Rightarrow> whatsapp_event \<Rightarrow> string \<times> content_block list" where
  "whatsapp_content env ev =
     (let t = whatsapp_text ev in
      case wv_image ev of
        None \<Rightarrow> (t, [])
      | Some (caption, mime, ref) \<Rightarrow> (if t = [] then trim_space caption else t, whatsapp_image env mime ref))"

definition handle_whatsapp :: "whatsapp_env \<Rightarrow> whatsapp_event \<Rightarrow> whatsapp_channel \<Rightarrow> inbound_message list" where
  "handle_whatsapp env ev w =
     (if \<not> wv_message ev \<or> wv_from_me ev then []
      else let sender = wp_non_ad env (wv_sender ev) in
        if \<not> allow_id (wx_allow w) sender \<and> \<not> allow_id (wx_allow w) (wv_sender ev) then []
        else let (content, blocks) = whatsapp_content env ev in
          if content = [] \<and> blocks = [] then []
          else [\<lparr>im_channel = ''whatsapp'', im_sender_id = sender, im_chat_id = wv_chat ev, im_content = content,
            im_timestamp = wv_timestamp ev, im_media = [], im_hints = plain_hints,
            im_transport_meta = Some [(''message_id'', AnyStr (wv_id ev)), (''chat_jid'', AnyStr (wv_chat ev)),
              (''sender_jid'', AnyStr (wv_sender ev)), (''push_name'', AnyStr (wv_push_name ev))],
            im_content_blocks = blocks\<rparr>])"

text \<open>The channel of a configuration; the flags are those of \<open>new_whatsapp\<close>.\<close>

definition whatsapp_channels :: "bool \<Rightarrow> bool \<Rightarrow> bool \<Rightarrow> config option \<Rightarrow> whatsapp_channel list" where
  "whatsapp_channels dir store device cfg = (case cfg of
       None \<Rightarrow> []
     | Some c \<Rightarrow>
         (if \<not> wa_enabled (ch_whatsapp (c_channels c)) then []
          else case new_whatsapp dir store device (ch_whatsapp (c_channels c)) of Inl _ \<Rightarrow> [] | Inr w \<Rightarrow> [w]))"

subsection \<open>Who is heard\<close>

definition whatsapp_step :: "whatsapp_channel \<Rightarrow> whatsapp_env \<times> whatsapp_event \<Rightarrow> whatsapp_channel \<times> inbound_message list" where
  "whatsapp_step w i = (w, handle_whatsapp (fst i) (snd i) w)"

text \<open>The allow list may name the address with its device or without.\<close>

definition whatsapp_admits :: "whatsapp_channel \<Rightarrow> inbound_message \<Rightarrow> bool" where
  "whatsapp_admits w im \<longleftrightarrow> allow_id (wx_allow w) (im_sender_id im)
     \<or> (case im_transport_meta im of
          Some meta \<Rightarrow> (case map_of meta ''sender_jid'' of Some (AnyStr raw) \<Rightarrow> allow_id (wx_allow w) raw | _ \<Rightarrow> False)
        | None \<Rightarrow> False)"

interpretation whatsapp_guard: guarded_channel whatsapp_step whatsapp_admits "''whatsapp''"
proof
  show "im_channel im = ''whatsapp'' \<and> whatsapp_admits s im" if "im \<in> set (snd (whatsapp_step s i))" for im s i
    using that by (auto simp: whatsapp_step_def handle_whatsapp_def whatsapp_admits_def Let_def split: if_splits prod.splits)
  show "whatsapp_admits (fst (whatsapp_step s i)) = whatsapp_admits s" for s i by (simp add: whatsapp_step_def)
  show "length (snd (whatsapp_step s i)) \<le> 1" for s i
    by (simp add: whatsapp_step_def handle_whatsapp_def Let_def split: prod.split)
qed

text \<open>A stopped channel is off: it has no handler, no connection and, once its store has closed, no store; stopping again
  does nothing.\<close>

lemma stop_whatsapp_twice:
  assumes "stop_whatsapp True w = (w', e)"
  shows "e = None" and "\<not> wx_store w'" and "stop_whatsapp c w' = (w', None)"
  using assms by (auto simp: stop_whatsapp_def Let_def split: if_splits)

text \<open>A phone number is an address on the default server, with or without the plus.\<close>

lemma phone_number_jid:
  assumes "list_all is_digit n" and "n \<noteq> []"
  shows "parse_whatsapp_jid env n = Some (wp_user env n)" and "parse_whatsapp_jid env (CHR ''+'' # n) = Some (wp_user env n)"
proof -
  have d: "visible c \<and> c \<noteq> CHR ''@'' \<and> c \<noteq> CHR ''+''" if "c \<in> set n" for c
    using that assms(1) is_digit_visible [of c] by (auto simp: list_all_iff is_digit_def byte_of_def)
  have v: "visible (CHR ''+'')" by code_simp
  have t: "trim_space n = n" "trim_space (CHR ''+'' # n) = CHR ''+'' # n"
    using d v assms(2) by (auto intro!: trim_space_visible)
  have c: "\<not> contains n ''@''" "\<not> contains (CHR ''+'' # n) ''@''"
    using not_contains_char [of "''@''" n] not_contains_char [of "''@''" "CHR ''+'' # n"] d by auto
  have "\<not> prefix ''+'' n" using d [of "CHR ''+''"] by (auto simp: prefix_def)
  then show "parse_whatsapp_jid env n = Some (wp_user env n)" "parse_whatsapp_jid env (CHR ''+'' # n) = Some (wp_user env n)"
    using assms t c by (simp_all add: parse_whatsapp_jid_def Let_def trim_prefix_def is_digits_only_def)
qed

end
