(* ===== verification/WebSession.thy ===== *)
theory WebSession
  imports SessionId "HOL-Library.AList"
begin

text \<open>
  \<open>internal/plugins/channel/web/wsession\<close>: which session a request of the web channel belongs to, and the table that
  remembers the session of each response (\<open>responses.go\<close>, \<open>resolve.go\<close>). The table is the list of its entries; the order
  in which Go visits the entries of a map is an argument: a rank for each key, another one at each visit.
\<close>

subsection \<open>The table of responses\<close>

type_synonym response_table = "(string \<times> string \<times> instant) list"

definition response_ttl :: duration where "response_ttl = 30 * minute"

definition response_max :: nat where "response_max = 500"

definition is_response_id :: "string \<Rightarrow> bool" where
  "is_response_id s \<longleftrightarrow> prefix ''resp_'' (trim_space s) \<and> 5 < length (trim_space s)"

definition prune_responses :: "instant \<Rightarrow> response_table \<Rightarrow> response_table" where
  "prune_responses now es = filter (\<lambda>e. \<not> response_ttl < now - snd (snd e)) es"

definition range_order :: "(string \<Rightarrow> nat) \<Rightarrow> response_table \<Rightarrow> response_table" where
  "range_order rank es = sort_key (\<lambda>e. rank (fst e)) es"

text \<open>The inner loop of \<open>evictLocked\<close>, from the oldest entry so far.\<close>

fun oldest_response :: "string \<times> instant \<Rightarrow> response_table \<Rightarrow> string \<times> instant" where
  "oldest_response acc [] = acc"
| "oldest_response acc (e # es) =
     oldest_response (if fst acc = [] \<or> snd (snd e) < snd acc then (fst e, snd (snd e)) else acc) es"

lemma oldest_response_in:
  "fst (oldest_response acc es) = fst acc \<or> fst (oldest_response acc es) \<in> fst ` set es"
proof (induction es arbitrary: acc)
  case (Cons e es)
  show ?case using Cons.IH [of acc] Cons.IH [of "(fst e, snd (snd e))"] by auto
qed simp

lemma length_delete_less: "k \<in> fst ` set es \<Longrightarrow> length (AList.delete k es) < length es"
  unfolding AList.delete_eq by (rule length_filter_less [where x = "(k, the (map_of es k))"])
    (auto simp: image_iff dest!: weak_map_of_SomeI intro: map_of_SomeD)

function evict_responses :: "(nat \<Rightarrow> string \<Rightarrow> nat) \<Rightarrow> response_table \<Rightarrow> response_table" where
  "evict_responses rank es =
     (if length es \<le> response_max then es
      else let oid = fst (oldest_response ([], time_zero) (range_order (rank (length es)) es)) in
        if oid = [] then es else evict_responses rank (AList.delete oid es))"
  by auto
termination
proof (relation "measure (\<lambda>(rank, es). length es)", goal_cases)
  case (2 rank es oid)
  then have "oid \<in> fst ` set es"
    using oldest_response_in [of "([], time_zero)" "range_order (rank (length es)) es"] by (auto simp: range_order_def)
  then show ?case using length_delete_less by simp
qed simp

declare evict_responses.simps [simp del]

text \<open>\<open>StoreMavenResponseSession\<close> and \<open>lookupMavenResponseSession\<close>.\<close>

definition store_response ::
  "(nat \<Rightarrow> string \<Rightarrow> nat) \<Rightarrow> instant \<Rightarrow> string \<Rightarrow> string \<Rightarrow> response_table \<Rightarrow> response_table" where
  "store_response rank now rid sid es =
     (let i = trim_space rid; s = chat_session_id ''web'' sid in
      if i = [] \<or> s = [] then es
      else evict_responses rank ((i, s, now) # AList.delete i (prune_responses now es)))"

definition lookup_response :: "instant \<Rightarrow> string \<Rightarrow> response_table \<Rightarrow> response_table \<times> string option" where
  "lookup_response now rid es =
     (let i = trim_space rid in
      if i = [] then (es, None)
      else case map_of es i of
          None \<Rightarrow> (es, None)
        | Some (s, ts) \<Rightarrow>
            (if response_ttl < now - ts then (AList.delete i es, None)
             else ((i, s, now) # AList.delete i es, Some s)))"

subsection \<open>The session of a request\<close>

datatype session_error = InvalidPrevious | UnknownPrevious | SessionMismatch | SessionRequired

text \<open>\<open>header\<close> and \<open>query\<close> are what the request gives for \<open>Maven-Session-Id\<close> and \<open>session\<close>, empty when it has none.\<close>

definition requested_session :: "string \<Rightarrow> string \<Rightarrow> string" where
  "requested_session header query = (if trim_space header = [] then trim_space query else trim_space header)"

definition resolve_web_session ::
  "instant \<Rightarrow> string \<Rightarrow> string \<Rightarrow> string \<Rightarrow> response_table \<Rightarrow> response_table \<times> (session_error + string)" where
  "resolve_web_session now header query previous es =
     (let hs = requested_session header query; prev = trim_space previous in
      if prev \<noteq> [] then
        if \<not> is_response_id prev then (es, Inl InvalidPrevious)
        else case lookup_response now prev es of
            (es', None) \<Rightarrow> (es', Inl UnknownPrevious)
          | (es', Some s) \<Rightarrow>
              (es', if hs \<noteq> [] \<and> chat_session_id ''web'' hs \<noteq> s then Inl SessionMismatch else Inr s)
      else if hs \<noteq> [] then (es, Inr (chat_session_id ''web'' hs))
      else (es, Inl SessionRequired))"

subsection \<open>A run of the table\<close>

datatype table_op =
    StoreOp "nat \<Rightarrow> string \<Rightarrow> nat" (op_time: instant) (op_rid: string) string
  | LookupOp (op_time: instant) (op_rid: string)

fun table_step :: "table_op \<Rightarrow> response_table \<Rightarrow> response_table" where
  "table_step (StoreOp rank now rid sid) es = store_response rank now rid sid es"
| "table_step (LookupOp now rid) es = fst (lookup_response now rid es)"

definition table_run :: "table_op list \<Rightarrow> response_table" where
  "table_run ops = fold table_step ops []"

text \<open>The reference: the last session stored for a response, nothing ever forgotten.\<close>

fun stored_session :: "table_op list \<Rightarrow> string \<Rightarrow> string option" where
  "stored_session [] i = None"
| "stored_session (LookupOp now rid # ops) i = stored_session ops i"
| "stored_session (StoreOp rank now rid sid # ops) i =
     (case stored_session ops i of Some s \<Rightarrow> Some s
      | None \<Rightarrow> if trim_space rid = i \<and> i \<noteq> [] then Some (chat_session_id ''web'' sid) else None)"

definition table_ok :: "response_table \<Rightarrow> bool" where
  "table_ok es \<longleftrightarrow> distinct (map fst es) \<and> length es \<le> response_max \<and> list_all (\<lambda>e. fst e \<noteq> []) es"

subsection \<open>Bounds\<close>

lemma web_trimmed [simp]: "trim_space ''web'' = ''web''" by code_simp

lemma web_session_prefix: "prefix ''web-'' (chat_session_id ''web'' s)"
  using chat_session_id_prefix [of "''web''" s] by simp

lemma web_session_nonempty [simp]: "chat_session_id ''web'' s \<noteq> []"
  using web_session_prefix [of s] by auto

lemma delete_sub: "set (AList.delete k es) \<subseteq> set es" unfolding AList.delete_eq by auto

lemma delete_distinct: "distinct (map fst es) \<Longrightarrow> distinct (map fst (AList.delete k es))"
  by (rule distinct_delete)

lemma delete_length: "length (AList.delete k es) \<le> length es" by (rule length_delete_le)

text \<open>Among entries whose ids are not empty, \<open>oldest_response\<close> finds one with the least time.\<close>

lemma oldest_response_least:
  assumes "list_all (\<lambda>e. fst e \<noteq> []) es" and "fst acc = [] \<longrightarrow> es \<noteq> []"
  shows "fst (oldest_response acc es) \<noteq> []
    \<and> (oldest_response acc es = acc \<or> (\<exists>e \<in> set es. oldest_response acc es = (fst e, snd (snd e))))
    \<and> (\<forall>e \<in> set es. snd (oldest_response acc es) \<le> snd (snd e))
    \<and> (fst acc \<noteq> [] \<longrightarrow> snd (oldest_response acc es) \<le> snd acc)"
  using assms
proof (induction es arbitrary: acc)
  case (Cons e es)
  let ?acc = "if fst acc = [] \<or> snd (snd e) < snd acc then (fst e, snd (snd e)) else acc"
  have ne: "fst ?acc \<noteq> []" and le: "snd ?acc \<le> snd (snd e)" and le': "fst acc \<noteq> [] \<longrightarrow> snd ?acc \<le> snd acc"
    using Cons.prems by auto
  note IH = Cons.IH [of ?acc]
  have "oldest_response acc (e # es) = oldest_response ?acc es" by simp
  then show ?case using IH ne le le' Cons.prems by fastforce
qed simp

text \<open>One entry too many: one of the oldest goes.\<close>

lemma evict_one:
  assumes "distinct (map fst es)" and "list_all (\<lambda>e. fst e \<noteq> []) es" and "length es = Suc response_max"
  obtains i s ts where "(i, s, ts) \<in> set es" and "\<forall>e \<in> set es. ts \<le> snd (snd e)" and "evict_responses rank es = AList.delete i es"
    and "length (AList.delete i es) \<le> response_max"
proof -
  let ?es = "range_order (rank (length es)) es"
  let ?o = "oldest_response ([], time_zero) ?es"
  have st: "set ?es = set es" by (simp add: range_order_def)
  have "es \<noteq> []" using assms(3) by auto
  then have "?es \<noteq> []" using st by (metis set_empty)
  moreover have "list_all (\<lambda>e. fst e \<noteq> []) ?es" using assms(2) st by (simp add: list_all_iff)
  ultimately have o: "fst ?o \<noteq> [] \<and> (?o = ([], time_zero) \<or> (\<exists>e \<in> set ?es. ?o = (fst e, snd (snd e)))) \<and> (\<forall>e \<in> set ?es. snd ?o \<le> snd (snd e))"
    using oldest_response_least [of ?es "([], time_zero)"] by auto
  then obtain e where e: "e \<in> set es" "?o = (fst e, snd (snd e))" using st by auto
  have len: "length (AList.delete (fst e) es) < length es" using e(1) by (intro length_delete_less) auto
  have "evict_responses rank es = evict_responses rank (AList.delete (fst e) es)"
    using assms(3) o e(2) by (subst evict_responses.simps) (simp add: Let_def)
  also have "\<dots> = AList.delete (fst e) es" using len assms(3) by (subst evict_responses.simps) simp
  finally show thesis using that [of "fst e" "fst (snd e)" "snd (snd e)"] e o st len assms(3) by (auto simp: less_Suc_eq_le)
qed

lemma evict_ok:
  assumes "distinct (map fst es)" and "list_all (\<lambda>e. fst e \<noteq> []) es" and "length es \<le> Suc response_max"
  shows "table_ok (evict_responses rank es) \<and> set (evict_responses rank es) \<subseteq> set es"
proof (cases "length es \<le> response_max")
  case True
  then show ?thesis using assms by (subst (1 2) evict_responses.simps) (simp add: table_ok_def)
next
  case False
  then have "length es = Suc response_max" using assms(3) by simp
  then obtain i s ts where "evict_responses rank es = AList.delete i es" "length (AList.delete i es) \<le> response_max"
    using evict_one assms(1,2) by metis
  then show ?thesis
    using assms(1,2) delete_sub [of i es] by (auto simp: table_ok_def list_all_iff intro: delete_distinct)
qed

text \<open>The table with a fresh entry, before the eviction.\<close>

definition fresh_table :: "instant \<Rightarrow> string \<Rightarrow> string \<Rightarrow> response_table \<Rightarrow> response_table" where
  "fresh_table now i s es = (i, s, now) # AList.delete i (prune_responses now es)"

lemma fresh_table_shape:
  assumes "table_ok es" and "i \<noteq> []"
  shows "distinct (map fst (fresh_table now i s es)) \<and> list_all (\<lambda>e. fst e \<noteq> []) (fresh_table now i s es)
    \<and> length (fresh_table now i s es) \<le> Suc response_max"
proof -
  have d: "distinct (map fst (prune_responses now es))" using assms(1) by (simp add: table_ok_def prune_responses_def distinct_map_filter)
  have "length (AList.delete i (prune_responses now es)) \<le> length es"
    using delete_length [of i "prune_responses now es"] length_filter_le [of _ es] by (metis le_trans prune_responses_def)
  moreover have "i \<notin> fst ` set (AList.delete i (prune_responses now es))" by (auto simp: AList.delete_eq)
  moreover have "list_all (\<lambda>e. fst e \<noteq> []) (AList.delete i (prune_responses now es))"
    using assms(1) by (auto simp: list_all_iff AList.delete_eq prune_responses_def table_ok_def)
  ultimately show ?thesis using assms delete_distinct [OF d] by (simp add: fresh_table_def table_ok_def)
qed

lemma store_response_alt:
  "store_response rank now rid sid es =
     (if trim_space rid = [] then es
      else evict_responses rank (fresh_table now (trim_space rid) (chat_session_id ''web'' sid) es))"
  by (simp add: store_response_def fresh_table_def Let_def)

lemma store_ok: "table_ok es \<Longrightarrow> table_ok (store_response rank now rid sid es)"
  using evict_ok fresh_table_shape by (simp add: store_response_alt)

lemma lookup_ok: "table_ok es \<Longrightarrow> table_ok (fst (lookup_response now rid es))"
proof -
  assume ok: "table_ok es"
  have del: "table_ok (AList.delete i es)" for i
    using ok delete_sub [of i es] delete_length [of i es] by (auto simp: table_ok_def list_all_iff intro: delete_distinct)
  have ins: "table_ok ((i, s, now) # AList.delete i es)" if "map_of es i = Some (s, ts)" for i s ts
  proof -
    have mem: "(i, s, ts) \<in> set es" using that by (rule map_of_SomeD)
    then have "length (AList.delete i es) < length es" by (intro length_delete_less) force
    moreover have "i \<notin> fst ` set (AList.delete i es)" by (auto simp: AList.delete_eq)
    ultimately show ?thesis using del [of i] ok mem by (auto simp: table_ok_def list_all_iff)
  qed
  show ?thesis using ok del ins by (auto simp: lookup_response_def Let_def split: option.split)
qed

lemma step_ok: "table_ok es \<Longrightarrow> table_ok (table_step op es)"
  by (cases op) (simp_all add: store_ok lookup_ok)

lemma run_ok_from: "table_ok es \<Longrightarrow> table_ok (fold table_step ops es)"
  by (induction ops arbitrary: es) (simp_all add: step_ok)

lemma table_run_ok: "table_ok (table_run ops)"
  unfolding table_run_def by (rule run_ok_from) (simp add: table_ok_def)

text \<open>The table never holds more than 500 responses.\<close>

lemma response_table_bounded: "length (table_run ops) \<le> 500"
  using table_run_ok [of ops] by (simp add: table_ok_def response_max_def)

subsection \<open>What a lookup answers\<close>

lemma stored_session_snoc:
  "stored_session (ops @ [op]) i =
     (case op of LookupOp now rid \<Rightarrow> stored_session ops i
      | StoreOp rank now rid sid \<Rightarrow>
          if trim_space rid = i \<and> i \<noteq> [] then Some (chat_session_id ''web'' sid) else stored_session ops i)"
  by (induction ops i rule: stored_session.induct) (auto split: option.splits table_op.splits)

lemma stored_session_append:
  "stored_session (ops @ ops') i = (case stored_session ops' i of Some s \<Rightarrow> Some s | None \<Rightarrow> stored_session ops i)"
  by (induction ops i rule: stored_session.induct) (auto split: option.splits)

lemma stored_session_lookups:
  "list_all (\<lambda>op. trim_space (op_rid op) = i \<longrightarrow> (\<exists>t j. op = LookupOp t j)) ops \<Longrightarrow> stored_session ops i = None"
  by (induction ops i rule: stored_session.induct) auto

definition table_agrees :: "response_table \<Rightarrow> table_op list \<Rightarrow> bool" where
  "table_agrees es ops \<longleftrightarrow> (\<forall>i s ts. (i, s, ts) \<in> set es \<longrightarrow> stored_session ops i = Some s)"

lemma evict_set: "table_ok es \<Longrightarrow> i \<noteq> [] \<Longrightarrow> set (evict_responses rank (fresh_table now i s es)) \<subseteq> set (fresh_table now i s es)"
  using fresh_table_shape evict_ok by blast

lemma fresh_set: "(j, s', ts) \<in> set (fresh_table now i s es) \<Longrightarrow> (j = i \<and> s' = s \<and> ts = now) \<or> (j \<noteq> i \<and> (j, s', ts) \<in> set es)"
  by (auto simp: fresh_table_def AList.delete_eq prune_responses_def)

lemma step_agrees:
  assumes "table_ok es" and "table_agrees es ops"
  shows "table_agrees (table_step op es) (ops @ [op])"
proof (cases op)
  case (LookupOp now rid)
  have "(i, s, ts) \<in> set (fst (lookup_response now rid es)) \<Longrightarrow> \<exists>ts. (i, s, ts) \<in> set es" for i s ts
    using map_of_SomeD [of es "trim_space rid"]
    by (auto simp: lookup_response_def Let_def AList.delete_eq split: option.splits if_splits)
  then show ?thesis using assms(2) LookupOp unfolding table_agrees_def stored_session_snoc by fastforce
next
  case (StoreOp rank now rid sid)
  show ?thesis
  proof (cases "trim_space rid = []")
    case False
    have "(j, s, ts) \<in> set (table_step op es) \<Longrightarrow>
        (j = trim_space rid \<and> s = chat_session_id ''web'' sid) \<or> (j \<noteq> trim_space rid \<and> (j, s, ts) \<in> set es)" for j s ts
      using evict_set [OF assms(1) False] fresh_set StoreOp False by (fastforce simp: store_response_alt)
    then show ?thesis using assms(2) False unfolding table_agrees_def stored_session_snoc StoreOp by fastforce
  qed (use assms(2) StoreOp in \<open>simp add: table_agrees_def stored_session_snoc store_response_alt\<close>)
qed

lemma table_run_snoc: "table_run (ops @ [op]) = table_step op (table_run ops)"
  by (simp add: table_run_def)

lemma run_agrees: "table_agrees (table_run ops) ops"
proof (induction ops rule: rev_induct)
  case (snoc op ops)
  show ?case unfolding table_run_snoc by (rule step_agrees [OF table_run_ok snoc.IH])
qed (simp add: table_run_def table_agrees_def)

lemma lookup_Some:
  "snd (lookup_response now rid es) = Some s \<longleftrightarrow>
     trim_space rid \<noteq> [] \<and> (\<exists>ts. map_of es (trim_space rid) = Some (s, ts) \<and> now - ts \<le> response_ttl)"
  by (auto simp: lookup_response_def Let_def split: option.split)

text \<open>A response is never taken for one of another session.\<close>

lemma lookup_exact: "snd (lookup_response now rid (table_run ops)) = Some s \<Longrightarrow> stored_session ops (trim_space rid) = Some s"
  using run_agrees [of ops] by (auto simp: lookup_Some table_agrees_def dest: map_of_SomeD)

subsection \<open>What the table keeps\<close>

text \<open>Response \<open>i\<close>, used at \<open>t\<close> or later, is in the table, and what was used after it is in \<open>U\<close>.\<close>

definition kept_core :: "instant \<Rightarrow> string \<Rightarrow> string set \<Rightarrow> instant \<Rightarrow> response_table \<Rightarrow> bool" where
  "kept_core t i U T es \<longleftrightarrow> (\<forall>e \<in> set es. snd (snd e) \<le> T)
     \<and> (\<exists>s ts. (i, s, ts) \<in> set es \<and> t \<le> ts \<and> (\<forall>e \<in> set es. fst e \<noteq> i \<longrightarrow> snd (snd e) < ts \<or> fst e \<in> U))"

lemma kept_mono: "kept_core t i U T es \<Longrightarrow> U \<subseteq> V \<Longrightarrow> T \<le> T' \<Longrightarrow> kept_core t i V T' es"
  unfolding kept_core_def by (meson order_trans subsetD)

lemma kept_delete: "kept_core t i U T es \<Longrightarrow> k \<noteq> i \<Longrightarrow> kept_core t i U T (AList.delete k es)"
  unfolding kept_core_def by (fastforce simp: AList.delete_eq)

text \<open>A use of \<open>j\<close> at \<open>now\<close>, later than all before it.\<close>

lemma kept_use:
  assumes "kept_core t i U T es" and "T < now"
  shows "kept_core t i (insert j U) now ((j, s, now) # AList.delete j es)"
proof (cases "j = i")
  case True
  have "t \<le> now" using assms by (fastforce simp: kept_core_def)
  moreover have "\<forall>e \<in> set (AList.delete j es). snd (snd e) < now \<and> fst e \<noteq> i"
    using assms True by (fastforce simp: kept_core_def AList.delete_eq)
  ultimately show ?thesis unfolding kept_core_def using True by fastforce
next
  case False
  have "kept_core t i (insert j U) now (AList.delete j es)"
    by (rule kept_mono [OF kept_delete [OF assms(1) False]]) (use assms(2) in auto)
  then show ?thesis using False unfolding kept_core_def by fastforce
qed

lemma kept_prune:
  assumes "kept_core t i U T es" and "now - t \<le> response_ttl"
  shows "kept_core t i U T (prune_responses now es)"
proof -
  obtain s ts where i: "(i, s, ts) \<in> set es" "t \<le> ts" "\<forall>e \<in> set es. fst e \<noteq> i \<longrightarrow> snd (snd e) < ts \<or> fst e \<in> U"
    using assms(1) by (auto simp: kept_core_def)
  then have "(i, s, ts) \<in> set (prune_responses now es)" using assms(2) by (simp add: prune_responses_def)
  moreover have sub: "set (prune_responses now es) \<subseteq> set es" by (auto simp: prune_responses_def)
  ultimately have "\<exists>s ts. (i, s, ts) \<in> set (prune_responses now es) \<and> t \<le> ts
      \<and> (\<forall>e \<in> set (prune_responses now es). fst e \<noteq> i \<longrightarrow> snd (snd e) < ts \<or> fst e \<in> U)"
    using i(2,3) by blast
  then show ?thesis using assms(1) sub unfolding kept_core_def by blast
qed

lemma kept_evict:
  assumes k: "kept_core t i U T es" and d: "distinct (map fst es)" and ne: "list_all (\<lambda>e. fst e \<noteq> []) es"
    and l: "length es \<le> Suc response_max" and U: "finite U" "card (U - {i}) < response_max"
  shows "kept_core t i U T (evict_responses rank es)"
proof (cases "length es \<le> response_max")
  case True
  then show ?thesis using k by (subst evict_responses.simps) simp
next
  case False
  then have len: "length es = Suc response_max" using l by simp
  obtain k' s ts where o: "(k', s, ts) \<in> set es" "\<forall>e \<in> set es. ts \<le> snd (snd e)" "evict_responses rank es = AList.delete k' es"
    using evict_one [OF d ne len] by metis
  have "k' \<noteq> i"
  proof
    assume "k' = i"
    obtain s' t' where i: "(i, s', t') \<in> set es" "\<forall>e \<in> set es. fst e \<noteq> i \<longrightarrow> snd (snd e) < t' \<or> fst e \<in> U"
      using k by (auto simp: kept_core_def)
    have "t' = ts" using d i(1) o(1) \<open>k' = i\<close> by (metis Pair_inject eq_key_imp_eq_value)
    then have "fst ` set es - {i} \<subseteq> U - {i}" using i(2) o(2) by fastforce
    then have "card (fst ` set es - {i}) < response_max" using U by (meson card_mono finite_Diff le_less_trans)
    moreover have "card (fst ` set es) = Suc response_max" using len d by (metis distinct_card length_map set_map)
    moreover have "i \<in> fst ` set es" using i(1) by force
    ultimately show False by simp
  qed
  then show ?thesis using k o(3) kept_delete by simp
qed

lemma kept_step:
  assumes ok: "table_ok es" and k: "kept_core t i U T es" and T: "T < op_time op" and ttl: "op_time op - t \<le> response_ttl"
    and U: "finite U" "card (insert (trim_space (op_rid op)) U - {i}) < response_max"
  shows "kept_core t i (insert (trim_space (op_rid op)) U) (op_time op) (table_step op es)"
proof -
  let ?j = "trim_space (op_rid op)"
  have same: "kept_core t i (insert ?j U) (op_time op) es" by (rule kept_mono [OF k]) (use T in auto)
  show ?thesis
  proof (cases op)
    case (LookupOp now rid)
    have "?j \<noteq> i" if "map_of es ?j = Some (s, ts)" "response_ttl < now - ts" for s ts
    proof
      assume "?j = i"
      then have "t \<le> ts" using k ok that(1) by (auto simp: kept_core_def table_ok_def dest: map_of_SomeD eq_key_imp_eq_value)
      then show False using ttl that(2) LookupOp by simp
    qed
    then show ?thesis
      using LookupOp same kept_delete [OF same] kept_use [OF k, of now ?j] T
      by (auto simp: lookup_response_def Let_def split: option.split)
  next
    case (StoreOp rank now rid sid)
    show ?thesis
    proof (cases "?j = []")
      case False
      let ?f = "fresh_table now ?j (chat_session_id ''web'' sid) es"
      have "kept_core t i (insert ?j U) now ?f"
        unfolding fresh_table_def by (rule kept_use [OF kept_prune [OF k]]) (use T ttl StoreOp in simp_all)
      then have "kept_core t i (insert ?j U) now (evict_responses rank ?f)"
        by (rule kept_evict) (use fresh_table_shape [OF ok False] U in auto)
      then show ?thesis using StoreOp False by (simp add: store_response_alt)
    qed (use StoreOp same in \<open>simp add: store_response_alt\<close>)
  qed
qed

lemma kept_run:
  assumes "table_ok es" and "kept_core t i U T es" and "sorted_wrt (<) (T # map op_time ops)"
    and "list_all (\<lambda>op. op_time op - t \<le> response_ttl) ops"
    and "finite U" and "card (set (map (trim_space \<circ> op_rid) ops) \<union> U - {i}) < response_max"
  shows "\<exists>U T. kept_core t i U T (fold table_step ops es)"
  using assms
proof (induction ops arbitrary: es U T)
  case (Cons op ops)
  let ?U = "insert (trim_space (op_rid op)) U"
  have "card (?U - {i}) \<le> card (set (map (trim_space \<circ> op_rid) (op # ops)) \<union> U - {i})"
    using Cons.prems(5) by (intro card_mono) auto
  then have "kept_core t i ?U (op_time op) (table_step op es)" using Cons.prems by (intro kept_step) auto
  then show ?case using Cons.prems Cons.IH [of "table_step op es" ?U "op_time op"] step_ok by simp
qed auto

lemma kept_found:
  assumes "table_ok es" and "kept_core t i U T es"
  obtains s ts where "map_of es i = Some (s, ts)" and "t \<le> ts"
  using assms by (auto simp: kept_core_def table_ok_def)

text \<open>Every time in the table is that of an operation.\<close>

lemma step_times:
  assumes "table_ok es" and "\<forall>e \<in> set es. snd (snd e) \<in> A"
  shows "\<forall>e \<in> set (table_step op es). snd (snd e) \<in> insert (op_time op) A"
proof (cases op)
  case (LookupOp now rid)
  then show ?thesis using assms(2) by (auto simp: lookup_response_def Let_def AList.delete_eq split: option.splits if_splits)
next
  case (StoreOp rank now rid sid)
  show ?thesis
  proof (cases "trim_space rid = []")
    case False
    show ?thesis using evict_set [OF assms(1) False] fresh_set assms(2) StoreOp False by (fastforce simp: store_response_alt)
  qed (use assms(2) StoreOp in \<open>auto simp: store_response_alt\<close>)
qed

lemma run_times: "\<forall>e \<in> set (table_run ops). snd (snd e) \<in> op_time ` set ops"
proof (induction ops rule: rev_induct)
  case (snoc op ops)
  show ?case using step_times [OF table_run_ok snoc.IH, of op] by (simp add: table_run_snoc)
qed (simp add: table_run_def)

text \<open>A stored response, while it is fresh and fewer than 500 others have been used since, is found.\<close>

lemma response_kept:
  assumes inc: "sorted_wrt (<) (map op_time (before @ StoreOp rank t rid sid # after))"
    and ttl: "now - t \<le> response_ttl" and later: "\<forall>op \<in> set after. op_time op \<le> now"
    and few: "card (set (map (trim_space \<circ> op_rid) after) - {trim_space rid}) < response_max" and ne: "trim_space rid \<noteq> []"
  shows "\<exists>s. snd (lookup_response now rid (table_run (before @ StoreOp rank t rid sid # after))) = Some s"
proof -
  let ?i = "trim_space rid" and ?es = "table_run before"
  let ?f = "fresh_table t ?i (chat_session_id ''web'' sid) ?es"
  have old: "\<forall>e \<in> set ?es. snd (snd e) < t" using run_times [of before] inc by (fastforce simp: sorted_wrt_append)
  have "kept_core t ?i {} t ?f"
    unfolding kept_core_def fresh_table_def using old by (fastforce simp: AList.delete_eq prune_responses_def)
  then have "kept_core t ?i {} t (evict_responses rank ?f)"
    by (rule kept_evict) (use fresh_table_shape [OF table_run_ok ne] in \<open>auto simp: response_max_def\<close>)
  then have k: "kept_core t ?i {} t (table_step (StoreOp rank t rid sid) ?es)" using ne by (simp add: store_response_alt)
  have "\<exists>U T. kept_core t ?i U T (fold table_step after (table_step (StoreOp rank t rid sid) ?es))"
    by (rule kept_run [OF step_ok [OF table_run_ok] k])
      (use inc ttl later few in \<open>auto simp: sorted_wrt_append list_all_iff\<close>)
  moreover have run: "fold table_step after (table_step (StoreOp rank t rid sid) ?es) = table_run (before @ StoreOp rank t rid sid # after)"
    by (simp add: table_run_def)
  ultimately obtain s ts where "map_of (table_run (before @ StoreOp rank t rid sid # after)) ?i = Some (s, ts)" "t \<le> ts"
    using kept_found [OF table_run_ok] by metis
  then show ?thesis using ttl ne by (auto simp: lookup_Some)
qed

lemma resolve_previous:
  assumes "is_response_id rid"
  shows "snd (resolve_web_session now header query rid es) =
     (case snd (lookup_response now rid es) of None \<Rightarrow> Inl UnknownPrevious
      | Some s \<Rightarrow> if requested_session header query \<noteq> [] \<and> chat_session_id ''web'' (requested_session header query) \<noteq> s
                then Inl SessionMismatch else Inr s)"
proof -
  have "trim_space rid \<noteq> []" "is_response_id (trim_space rid)" using assms by (auto simp: is_response_id_def)
  moreover have "lookup_response now (trim_space rid) es = lookup_response now rid es" by (simp add: lookup_response_def)
  ultimately show ?thesis by (auto simp: resolve_web_session_def Let_def split: prod.split option.split)
qed

subsection \<open>Follow-up requests\<close>

text \<open>A request that names an earlier response runs in the session that response was stored with, never in another, and
  only if it asks for no session or for that one. The times are those the code reads, in any order.\<close>

lemma follow_up_exact:
  assumes "snd (resolve_web_session now header query rid (table_run ops)) = Inr s" and "trim_space rid \<noteq> []"
  shows "stored_session ops (trim_space rid) = Some s
    \<and> (requested_session header query = [] \<or> chat_session_id ''web'' (requested_session header query) = s)"
proof -
  have "is_response_id rid"
    using assms by (cases "is_response_id (trim_space rid)") (auto simp: resolve_web_session_def Let_def is_response_id_def)
  then have "snd (lookup_response now rid (table_run ops)) = Some s
      \<and> (requested_session header query = [] \<or> chat_session_id ''web'' (requested_session header query) = s)"
    using assms(1) by (auto simp: resolve_previous split: option.splits if_splits)
  then show ?thesis using lookup_exact by blast
qed

end
