(* ===== verification/Web.thy ===== *)
theory Web
  imports WebSession Config ChannelGuard StringUtil
begin

text \<open>
  \<open>internal/plugins/channel/web\<close>: the browser channel (\<open>ws.go\<close>, \<open>http.go\<close>, \<open>plugin.go\<close>), the streaming HTTP endpoint
  (\<open>responses/\<close>) and the voice socket (\<open>voice/\<close>). The agent, the clock, fresh ids, the printing of JSON and how each write
  goes are arguments; \<open>net/http\<close> and the websocket library are not modelled beyond that.
\<close>

subsection \<open>Events of the agent\<close>

text \<open>An \<open>api.StreamEvent\<close> as far as the channel reads it: a text delta, an error with its printed output, or another event.\<close>

datatype web_event = WebDelta string | WebError string | WebOther

subsection \<open>The body of a request\<close>

definition dec_any :: "json decoder" where "dec_any j old = (j, False)"

record response_request =
  rr_input :: json
  rr_previous :: string

definition request_fields :: "response_request field_table" where
  "request_fields =
     [(''input'', fld rr_input rr_input_update dec_any),
      (''previous_response_id'', fld rr_previous rr_previous_update dec_string)]"

definition decode_request :: "json option \<Rightarrow> response_request option" where
  "decode_request body =
     (case body of None \<Rightarrow> None
      | Some j \<Rightarrow> (case dec_struct request_fields j \<lparr>rr_input = JNull, rr_previous = []\<rparr> of (r, e) \<Rightarrow> if e then None else Some r))"

text \<open>A JSON object read into a \<open>map[string]any\<close>: the last value of a key.\<close>

definition json_get :: "(string \<times> json) list \<Rightarrow> string \<Rightarrow> json option" where
  "json_get kvs k = map_of (rev kvs) k"

definition user_text :: "json \<Rightarrow> string option" where
  "user_text item =
     (case item of
        JObj kvs \<Rightarrow>
          (if json_get kvs ''type'' = Some (JStr ''message'') \<and> json_get kvs ''role'' = Some (JStr ''user'')
           then (case json_get kvs ''content'' of Some (JStr c) \<Rightarrow> Some c | _ \<Rightarrow> None) else None)
      | _ \<Rightarrow> None)"

definition extract_prompt :: "json \<Rightarrow> string" where
  "extract_prompt input =
     (case input of
        JStr s \<Rightarrow> s
      | JArr items \<Rightarrow> foldl (\<lambda>last item. case user_text item of Some c \<Rightarrow> c | None \<Rightarrow> last) [] items
      | _ \<Rightarrow> [])"

subsection \<open>Server-sent events\<close>

definition response_ref :: "string \<Rightarrow> string \<Rightarrow> json" where
  "response_ref rid status = JObj [(''id'', JStr rid), (''status'', JStr status)]"

definition created_event :: "string \<Rightarrow> string \<times> json" where
  "created_event rid = (''response.created'',
     JObj [(''type'', JStr ''response.created''), (''response'', response_ref rid ''in_progress'')])"

definition item_added_event :: "string \<times> json" where
  "item_added_event = (''response.output_item.added'',
     JObj [(''type'', JStr ''response.output_item.added''), (''index'', JNum ''0''),
       (''item'', JObj [(''type'', JStr ''message''), (''status'', JStr ''in_progress'')])])"

definition part_added_event :: "string \<times> json" where
  "part_added_event = (''response.content_part.added'',
     JObj [(''type'', JStr ''response.content_part.added''), (''item_index'', JNum ''0''), (''content_index'', JNum ''0'')])"

definition delta_event :: "string \<Rightarrow> string \<times> json" where
  "delta_event t = (''response.output_text.delta'',
     JObj [(''type'', JStr ''response.output_text.delta''), (''item_index'', JNum ''0''), (''content_index'', JNum ''0''),
       (''delta'', JStr t)])"

text \<open>\<open>ItemIndexEvent\<close>: the two other indices are zero and left out.\<close>

definition item_index_event :: "string \<Rightarrow> string \<times> json" where
  "item_index_event ty = (ty, JObj [(''type'', JStr ty), (''item_index'', JNum ''0'')])"

definition completed_event :: "string \<Rightarrow> string \<times> json" where
  "completed_event rid = (''response.completed'',
     JObj [(''type'', JStr ''response.completed''), (''response'', response_ref rid ''completed'')])"

definition delta_texts :: "web_event list \<Rightarrow> string list" where
  "delta_texts evs = concat (map (\<lambda>ev. case ev of WebDelta t \<Rightarrow> if t = [] then [] else [t] | _ \<Rightarrow> []) evs)"

definition response_frames :: "string \<Rightarrow> web_event list \<Rightarrow> (string \<times> json) list" where
  "response_frames rid evs =
     [created_event rid, item_added_event, part_added_event] @ map delta_event (delta_texts evs)
     @ [item_index_event ''response.output_text.done'', item_index_event ''response.content_part.done'',
        item_index_event ''response.output_item.done'', completed_event rid]"

definition sse_frame :: "(json \<Rightarrow> string) \<Rightarrow> string \<times> json \<Rightarrow> string" where
  "sse_frame print f = ''event: '' @ fst f @ [newline] @ ''data: '' @ print (snd f) @ [newline, newline]"

definition sse_end :: string where "sse_end = ''data: [DONE]'' @ [newline, newline]"

text \<open>The texts that are written: a write that fails is passed over and the next is tried; \<open>ok n\<close> is the \<open>n\<close>-th.\<close>

fun written :: "(nat \<Rightarrow> bool) \<Rightarrow> nat \<Rightarrow> string list \<Rightarrow> string list" where
  "written ok n [] = []"
| "written ok n (t # ts) = (if ok n then [t] else []) @ written ok (Suc n) ts"

subsection \<open>The responses endpoint\<close>

record web_request =
  wq_post :: bool
  wq_body :: "json option"
  wq_header :: string
  wq_query :: string

record responses_env =
  re_print :: "json \<Rightarrow> string"
  re_run :: "string \<Rightarrow> string \<Rightarrow> web_event list option"
  re_uuid :: string
  re_flusher :: bool
  re_writes :: "nat \<Rightarrow> bool"
  re_now :: instant
  re_end :: instant
  re_rank :: "nat \<Rightarrow> string \<Rightarrow> nat"

datatype web_reply = PlainError nat string | JsonError nat json | EventStream "string list"

definition session_error_text :: "session_error \<Rightarrow> string" where
  "session_error_text e = (case e of
       InvalidPrevious \<Rightarrow> ''invalid previous_response_id''
     | UnknownPrevious \<Rightarrow> ''unknown previous_response_id''
     | SessionMismatch \<Rightarrow> ''session mismatch''
     | SessionRequired \<Rightarrow> ''maven-Session-Id header required'')"

definition json_error :: "nat \<Rightarrow> string \<Rightarrow> string \<Rightarrow> web_reply" where
  "json_error status message ty = JsonError status (JObj [(''error'', JObj [(''message'', JStr message), (''type'', JStr ty)])])"

text \<open>The reply, the turn that was run if any (prompt and session), and the table.\<close>

definition serve_responses ::
  "responses_env \<Rightarrow> web_request \<Rightarrow> response_table \<Rightarrow> web_reply \<times> (string \<times> string) option \<times> response_table" where
  "serve_responses env r es =
     (if \<not> wq_post r then (PlainError 405 ''method not allowed'', None, es)
      else case decode_request (wq_body r) of
          None \<Rightarrow> (json_error 400 ''invalid request'' ''invalid_request_error'', None, es)
        | Some req \<Rightarrow>
            (let prompt = extract_prompt (rr_input req) in
             if trim_space prompt = [] then (json_error 400 ''input is required'' ''invalid_request_error'', None, es)
             else case resolve_web_session (re_now env) (wq_header r) (wq_query r) (rr_previous req) es of
                 (es', Inl e) \<Rightarrow> (json_error 400 (session_error_text e) ''invalid_request_error'', None, es')
               | (es', Inr sid) \<Rightarrow>
                   (case re_run env prompt sid of
                      None \<Rightarrow> (json_error 500 ''agent error'' ''server_error'', Some (prompt, sid), es')
                    | Some evs \<Rightarrow>
                        (if \<not> re_flusher env then (PlainError 500 ''streaming not supported'', Some (prompt, sid), es')
                         else let rid = ''resp_'' @ re_uuid env in
                           (EventStream (written (re_writes env) 0 (map (sse_frame (re_print env)) (response_frames rid evs) @ [sse_end])),
                            Some (prompt, sid), store_response (re_rank env) (re_end env) rid sid es')))))"

subsection \<open>The browser socket\<close>

record web_channel =
  wl_allow :: "string list"
  wl_port :: int
  wl_clients :: "string list"
  wl_next :: int
  wl_voice :: bool
  wl_endpoint :: bool

definition new_web_channel :: "bool \<Rightarrow> web_config \<Rightarrow> gateway_config \<Rightarrow> web_channel" where
  "new_web_channel runner cfg gw =
     \<lparr>wl_allow = new_matcher (wb_allow_from cfg), wl_port = (if gc_port gw = 0 then 18790 else gc_port gw), wl_clients = [],
      wl_next = 0, wl_voice = wb_voice_enabled cfg, wl_endpoint = runner\<rparr>"

definition plugin_web_channels :: "bool \<Rightarrow> config option \<Rightarrow> web_channel list" where
  "plugin_web_channels runner cfg = (case cfg of
       None \<Rightarrow> []
     | Some c \<Rightarrow> (if wb_enabled (ch_web (c_channels c)) then [new_web_channel runner (ch_web (c_channels c)) (c_gateway c)] else []))"

text \<open>The paths \<open>Start\<close> serves.\<close>

definition web_routes :: "web_channel \<Rightarrow> string list" where
  "web_routes w =
     [''/web/config'', ''/ws''] @ (if wl_voice w then [''/ws/voice''] else []) @ (if wl_endpoint w then [''/v1/responses''] else [])
     @ [''/'']"

definition web_config_reply :: "bool \<Rightarrow> web_channel \<Rightarrow> web_reply + json" where
  "web_config_reply get w =
     (if get then Inr (JObj [(''voiceEnabled'', JBool (wl_voice w))]) else Inl (PlainError 405 ''method not allowed''))"

record ws_message =
  wj_type :: string
  wj_content :: string
  wj_delta :: string

definition ws_fields :: "ws_message field_table" where
  "ws_fields =
     [(''type'', fld wj_type wj_type_update dec_string), (''content'', fld wj_content wj_content_update dec_string),
      (''delta'', fld wj_delta wj_delta_update dec_string)]"

definition ws_json :: "ws_message \<Rightarrow> json" where
  "ws_json m =
     JObj ([(''type'', JStr (wj_type m))] @ (if wj_content m = [] then [] else [(''content'', JStr (wj_content m))])
       @ (if wj_delta m = [] then [] else [(''delta'', JStr (wj_delta m))]))"

definition decode_ws :: "json option \<Rightarrow> ws_message option" where
  "decode_ws data =
     (case data of None \<Rightarrow> None
      | Some j \<Rightarrow> (case dec_struct ws_fields j \<lparr>wj_type = [], wj_content = [], wj_delta = []\<rparr> of (m, e) \<Rightarrow> if e then None else Some m))"

text \<open>What happens on the sockets: a browser connects, a frame arrives (the JSON value in it, if any), a read fails.\<close>

datatype ws_input = WsConnect bool | WsFrame string "json option" instant | WsGone string

definition client_id :: "int \<Rightarrow> string" where "client_id n = ''web-'' @ show_int n"

definition web_inbound :: "string \<Rightarrow> string \<Rightarrow> instant \<Rightarrow> inbound_message" where
  "web_inbound client content now =
     \<lparr>im_channel = ''web'', im_sender_id = client, im_chat_id = client, im_content = content, im_timestamp = now, im_media = [],
      im_hints = plain_hints, im_transport_meta = None, im_content_blocks = []\<rparr>"

fun web_step :: "web_channel \<Rightarrow> ws_input \<Rightarrow> web_channel \<times> inbound_message list" where
  "web_step w (WsConnect accepted) =
     (if \<not> accepted then (w, [])
      else let n = wrap64 (wl_next w + 1) in
        (w\<lparr>wl_next := n, wl_clients := client_id n # removeAll (client_id n) (wl_clients w)\<rparr>, []))"
| "web_step w (WsFrame client data now) =
     (w, if client \<notin> set (wl_clients w) then []
         else case decode_ws data of
             None \<Rightarrow> []
           | Some m \<Rightarrow>
               (if wj_type m \<noteq> ''message'' \<or> wj_content m = [] \<or> \<not> allow_id (wl_allow w) client then []
                else [web_inbound client (wj_content m) now]))"
| "web_step w (WsGone client) = (w\<lparr>wl_clients := removeAll client (wl_clients w)\<rparr>, [])"

text \<open>\<open>writeToClient\<close>: who is written to, and whether an error is returned; \<open>ok\<close> tells whose connection takes a write.\<close>

definition write_to_client :: "(string \<Rightarrow> bool) \<Rightarrow> string \<Rightarrow> json \<Rightarrow> web_channel \<Rightarrow> (string \<times> json) list \<times> bool" where
  "write_to_client ok chatID data w =
     (if chatID \<in> set (wl_clients w) then (if ok chatID then [(chatID, data)] else [], \<not> ok chatID)
      else (map (\<lambda>c. (c, data)) (filter ok (wl_clients w)), False))"

definition web_send :: "(string \<Rightarrow> bool) \<Rightarrow> outbound_message \<Rightarrow> web_channel \<Rightarrow> (string \<times> json) list \<times> bool" where
  "web_send ok m w = write_to_client ok (om_chat_id m) (ws_json \<lparr>wj_type = ''message'', wj_content = om_content m, wj_delta = []\<rparr>) w"

text \<open>What \<open>SendStream\<close> waits for, with the clients at that time.\<close>

datatype web_signal = StreamCancelled | StreamEnds | StreamGives web_event

datatype web_stream_result = StreamWaits | StreamOk | StreamAborted | StreamWriteErr | StreamErr string

definition stream_error_text :: "string \<Rightarrow> string" where
  "stream_error_text out = (if trim_space out = [] then ''stream error'' else trim_space out)"

fun web_send_stream ::
  "(string \<Rightarrow> bool) \<Rightarrow> string \<Rightarrow> (web_channel \<times> web_signal) list \<Rightarrow> (string \<times> json) list \<times> web_stream_result" where
  "web_send_stream ok chatID [] = ([], StreamWaits)"
| "web_send_stream ok chatID ((w, sig) # sigs) =
     (case sig of
        StreamCancelled \<Rightarrow> ([], StreamAborted)
      | StreamEnds \<Rightarrow>
          (case write_to_client ok chatID (ws_json \<lparr>wj_type = ''stream_done'', wj_content = [], wj_delta = []\<rparr>) w of
             (out, e) \<Rightarrow> (out, if e then StreamWriteErr else StreamOk))
      | StreamGives (WebError out) \<Rightarrow> ([], StreamErr (stream_error_text out))
      | StreamGives WebOther \<Rightarrow> web_send_stream ok chatID sigs
      | StreamGives (WebDelta t) \<Rightarrow>
          (if t = [] then web_send_stream ok chatID sigs
           else case write_to_client ok chatID (ws_json \<lparr>wj_type = ''stream'', wj_content = [], wj_delta = t\<rparr>) w of
               (out, e) \<Rightarrow>
                 (if e then (out, StreamWriteErr)
                  else case web_send_stream ok chatID sigs of (rest, res) \<Rightarrow> (out @ rest, res))))"

text \<open>\<open>Stop\<close>: the connections that are closed, those of the browsers and those of the voice clients.\<close>

definition web_stop :: "web_channel \<Rightarrow> (string \<times> nat) list \<Rightarrow> string list \<times> nat list" where
  "web_stop w voices = (wl_clients w, if wl_voice w then map snd voices else [])"

subsection \<open>The voice socket\<close>

text \<open>\<open>handleVoiceWS\<close>: what a request comes to; the voice clients are kept by session, each with the number of its connection.\<close>

datatype voice_reply = VoiceNotFound | VoiceNoSession session_error | VoiceNotAccepted | VoiceNoSTT | VoiceNoTTS | VoiceRuns string

record voice_env =
  ve_enabled :: bool
  ve_accept :: bool
  ve_stt :: bool
  ve_tts :: bool

definition open_voice :: "voice_env \<Rightarrow> instant \<Rightarrow> string \<Rightarrow> string \<Rightarrow> response_table \<Rightarrow> voice_reply" where
  "open_voice env now header query es =
     (if \<not> ve_enabled env then VoiceNotFound
      else case snd (resolve_web_session now header query [] es) of
          Inl e \<Rightarrow> VoiceNoSession e
        | Inr sid \<Rightarrow>
            (if \<not> ve_accept env then VoiceNotAccepted
             else if \<not> ve_stt env then VoiceNoSTT
             else if \<not> ve_tts env then VoiceNoTTS
             else VoiceRuns sid))"

datatype voice_socket = VoiceConnects string nat | VoiceLeaves string

fun voice_clients :: "voice_socket \<Rightarrow> (string \<times> nat) list \<Rightarrow> (string \<times> nat) list" where
  "voice_clients (VoiceConnects sid n) vs = (sid, n) # AList.delete sid vs"
| "voice_clients (VoiceLeaves sid) vs = AList.delete sid vs"

text \<open>\<open>wsPCMOpener\<close>: the audio in the frames of a socket, each with whether it is binary.\<close>

definition pcm_frames :: "(bool \<times> string) list \<Rightarrow> string list" where
  "pcm_frames fs = map snd (filter (\<lambda>f. fst f \<and> snd f \<noteq> []) fs)"

text \<open>\<open>wsVoiceSink.Render\<close>: what its loop sees (cancelled, the audio has ended, a piece of audio), and how a write goes. A write
  is stopped by the context of the reply (\<open>True\<close>) or by its own limit of five seconds (\<open>False\<close>); what \<open>Render\<close> returns then is
  \<open>ctx.Err()\<close>, an error in the first case only.\<close>

datatype write_result = Written | WriteStopped bool | WriteFailed

datatype pcm_signal = PcmCancelled write_result | PcmEnds write_result | PcmGives string write_result write_result

datatype voice_frame = BinaryFrame string | TextFrame json

datatype render_result = RenderWaits | RenderOk | RenderWriteErr | RenderInterrupted bool

definition clear_sentinel :: voice_frame where "clear_sentinel = BinaryFrame [CHR 0x00]"

definition write_frame :: "write_result \<Rightarrow> voice_frame \<Rightarrow> voice_frame list" where
  "write_frame r f = (if r = Written then [f] else [])"

definition done_frame :: voice_frame where
  "done_frame = TextFrame (ws_json \<lparr>wj_type = ''stream_done'', wj_content = [], wj_delta = []\<rparr>)"

text \<open>\<open>PcmGives b r c\<close>: the write of the piece goes as \<open>r\<close>, and that of the sentinel, if it was stopped, as \<open>c\<close>.\<close>

fun render_voice :: "pcm_signal list \<Rightarrow> voice_frame list \<times> render_result" where
  "render_voice [] = ([], RenderWaits)"
| "render_voice (PcmCancelled c # sigs) = (write_frame c clear_sentinel, RenderInterrupted True)"
| "render_voice (PcmEnds r # sigs) = (write_frame r done_frame, if r = Written then RenderOk else RenderWriteErr)"
| "render_voice (PcmGives b r c # sigs) =
     (case r of
        WriteStopped done \<Rightarrow> (write_frame c clear_sentinel, RenderInterrupted done)
      | WriteFailed \<Rightarrow> ([], RenderWriteErr)
      | Written \<Rightarrow> (case render_voice sigs of (out, res) \<Rightarrow> (BinaryFrame b # out, res)))"

subsection \<open>Who is heard\<close>

definition web_admits :: "web_channel \<Rightarrow> inbound_message \<Rightarrow> bool" where
  "web_admits w im \<longleftrightarrow> allow_id (wl_allow w) (im_sender_id im) \<and> im_chat_id im = im_sender_id im"

interpretation web_guard: guarded_channel web_step web_admits "''web''"
proof
  show "im_channel im = ''web'' \<and> web_admits s im" if "im \<in> set (snd (web_step s i))" for im s i
    using that by (cases i) (auto simp: web_admits_def web_inbound_def Let_def split: if_splits option.splits)
  show "web_admits (fst (web_step s i)) = web_admits s" for s i
    by (cases i) (auto simp: web_admits_def fun_eq_iff Let_def)
  show "length (snd (web_step s i)) \<le> 1" for s i
    by (cases i) (auto simp: Let_def split: option.split)
qed

subsection \<open>Replies\<close>

text \<open>The reply to a browser that is connected is written to it alone.\<close>

lemma web_reply_private:
  "om_chat_id m \<in> set (wl_clients w) \<Longrightarrow> fst ` set (fst (web_send ok m w)) \<subseteq> {om_chat_id m}"
  by (auto simp: web_send_def write_to_client_def)

text \<open>The reply to a browser that has gone is written to all the others, and no error is reported.\<close>

lemma reply_of_gone_client_broadcast:
  assumes "om_chat_id m \<notin> set (wl_clients w)" and "ok c" and "c \<in> set (wl_clients w)"
  shows "(c, ws_json \<lparr>wj_type = ''message'', wj_content = om_content m, wj_delta = []\<rparr>) \<in> set (fst (web_send ok m w))
    \<and> \<not> snd (web_send ok m w)"
  using assms by (auto simp: web_send_def write_to_client_def)

text \<open>The numbers of the browsers start again with the channel, so the first browser after a restart has the chat of the
  first one before.\<close>

lemma client_ids_restart:
  "wl_clients (fst (web_step (new_web_channel runner cfg gw) (WsConnect True))) = [''web-1'']"
proof -
  have "client_id 1 = ''web-1''" by code_simp
  moreover have "wrap64 1 = 1" by (simp add: in_int64_def int64_min_def int64_max_def)
  ultimately show ?thesis by (simp add: new_web_channel_def Let_def)
qed

text \<open>A stream that ends well has been written whole and is closed with \<open>stream_done\<close>.\<close>

lemma web_stream_complete:
  assumes "web_send_stream ok chatID sigs = (out, StreamOk)" and "list_all (\<lambda>(w, s). chatID \<in> set (wl_clients w)) sigs"
  shows "\<exists>ts. out = map (\<lambda>t. (chatID, ws_json \<lparr>wj_type = ''stream'', wj_content = [], wj_delta = t\<rparr>)) ts
      @ [(chatID, ws_json \<lparr>wj_type = ''stream_done'', wj_content = [], wj_delta = []\<rparr>)]
    \<and> (\<exists>evs w rest. sigs = evs @ (w, StreamEnds) # rest
        \<and> ts = delta_texts (concat (map (\<lambda>(w, s). case s of StreamGives ev \<Rightarrow> [ev] | _ \<Rightarrow> []) evs)))"
  using assms
proof (induction sigs arbitrary: out)
  case (Cons x sigs)
  obtain w sig where x: "x = (w, sig)" by (cases x)
  have c: "chatID \<in> set (wl_clients w)" and cs: "list_all (\<lambda>(w, s). chatID \<in> set (wl_clients w)) sigs" using Cons.prems(2) x by auto
  show ?case
  proof (cases sig)
    case StreamCancelled
    then show ?thesis using Cons.prems x by simp
  next
    case StreamEnds
    then have "out = [(chatID, ws_json \<lparr>wj_type = ''stream_done'', wj_content = [], wj_delta = []\<rparr>)]"
      using Cons.prems(1) x c by (auto simp: write_to_client_def split: if_splits)
    moreover have "x # sigs = [] @ (w, StreamEnds) # sigs" using x StreamEnds by simp
    ultimately show ?thesis by (intro exI [of _ "[]"]) (force simp: delta_texts_def)
  next
    case (StreamGives ev)
    have step: ?thesis if r: "web_send_stream ok chatID sigs = (rest, StreamOk)"
        and o: "out = map (\<lambda>t. (chatID, ws_json \<lparr>wj_type = ''stream'', wj_content = [], wj_delta = t\<rparr>)) (delta_texts [ev]) @ rest" for rest
    proof -
      obtain ts evs v tail where i: "rest = map (\<lambda>t. (chatID, ws_json \<lparr>wj_type = ''stream'', wj_content = [], wj_delta = t\<rparr>)) ts
          @ [(chatID, ws_json \<lparr>wj_type = ''stream_done'', wj_content = [], wj_delta = []\<rparr>)]" "sigs = evs @ (v, StreamEnds) # tail"
        "ts = delta_texts (concat (map (\<lambda>(w, s). case s of StreamGives ev \<Rightarrow> [ev] | _ \<Rightarrow> []) evs))"
        using Cons.IH [OF r cs] by blast
      show ?thesis
        by (intro exI [of _ "delta_texts [ev] @ ts"] conjI exI [of _ "(w, StreamGives ev) # evs"] exI [of _ v] exI [of _ tail])
          (use i o x StreamGives in \<open>simp_all add: delta_texts_def\<close>)
    qed
    show ?thesis
    proof (cases ev)
      case (WebDelta t)
      show ?thesis
      proof (cases "t = []")
        case False
        then show ?thesis
          using Cons.prems(1) x StreamGives WebDelta c step
          by (auto simp: write_to_client_def delta_texts_def split: if_splits prod.splits)
      qed (use Cons.prems(1) x StreamGives WebDelta step in \<open>auto simp: delta_texts_def\<close>)
    qed (use Cons.prems(1) x StreamGives step in \<open>auto simp: delta_texts_def\<close>)
  qed
qed simp

subsection \<open>Voice sockets\<close>

text \<open>A second connection of a session takes the place of the first, whose end removes it: it is not closed by \<open>Stop\<close>.\<close>

lemma newer_voice_client_lost:
  "web_stop w (fold voice_clients [VoiceConnects sid 1, VoiceConnects sid 2, VoiceLeaves sid] []) = (wl_clients w, [])"
  by (simp add: web_stop_def AList.delete_eq)

text \<open>A reply that is rendered to its end has been written whole, and then \<open>stream_done\<close>.\<close>

lemma render_complete:
  assumes "render_voice sigs = (out, RenderOk)"
  shows "\<exists>bs rest. sigs = map (\<lambda>(b, c). PcmGives b Written c) bs @ PcmEnds Written # rest
    \<and> out = map (\<lambda>(b, c). BinaryFrame b) bs @ [done_frame]"
  using assms
proof (induction sigs arbitrary: out rule: render_voice.induct)
  case (3 r sigs)
  then show ?case by (intro exI [of _ "[] :: (string \<times> write_result) list"] exI [of _ sigs]) (auto simp: write_frame_def split: if_splits)
next
  case (4 b r c sigs)
  then obtain out' where r: "r = Written" "render_voice sigs = (out', RenderOk)" "out = BinaryFrame b # out'"
    by (auto split: write_result.splits prod.splits)
  obtain bs rest where "sigs = map (\<lambda>(b, c). PcmGives b Written c) bs @ PcmEnds Written # rest"
    "out' = map (\<lambda>(b, c). BinaryFrame b) bs @ [done_frame]"
    using "4.IH" [OF r(1,2)] by blast
  then show ?case using r by (intro exI [of _ "(b, c) # bs"]) simp
qed simp_all

text \<open>The goroutine of \<open>Synthesize\<close> once nobody reads its channel of 16 pieces: what is in the channel, what is still to be
  put into it, and whether it has ended. The context, if it is done, ends it.\<close>

inductive unread_synth :: "bool \<Rightarrow> nat \<times> nat \<times> bool \<Rightarrow> nat \<times> nat \<times> bool \<Rightarrow> bool" for stopped :: bool where
  synth_put: "buffered < 16 \<Longrightarrow> unread_synth stopped (buffered, Suc left, False) (Suc buffered, left, False)"
| synth_end: "unread_synth stopped (buffered, 0, False) (buffered, 0, True)"
| synth_stop: "stopped \<Longrightarrow> unread_synth stopped (buffered, left, False) (buffered, left, True)"

inductive_cases unread_synth_elim: "unread_synth stopped s t"

text \<open>A write that reaches its limit of five seconds stops the reading, but not the context: with more than sixteen pieces to
  come, the wait of \<open>Render\<close> for the goroutine does not end.\<close>

lemma slow_client_blocks_render:
  assumes "(unread_synth False)\<^sup>*\<^sup>* (buffered, left, False) s" and "16 < buffered + left" and "buffered \<le> 16"
  shows "\<not> snd (snd s)"
proof -
  have "fst s + fst (snd s) = buffered + left \<and> fst s \<le> 16 \<and> \<not> snd (snd s)"
    using assms(1)
  proof (induction rule: rtranclp_induct)
    case (step y z)
    then show ?case using assms(2) by (auto elim!: unread_synth_elim)
  qed (use assms(3) in simp)
  then show ?thesis by simp
qed

subsection \<open>The stream of a response\<close>

text \<open>A client reads the stream line by line: a blank line ends an event, whose name is \<open>message\<close> if it has none.\<close>

fun sse_read :: "string \<Rightarrow> string list \<Rightarrow> string list \<Rightarrow> (string \<times> string) list" where
  "sse_read ev ds [] = []"
| "sse_read ev ds (l # ls) =
     (if l = [] then (if ds = [] then [] else [(if ev = [] then ''message'' else ev, join [newline] ds)]) @ sse_read [] [] ls
      else if prefix ''event: '' l then sse_read (drop 7 l) ds ls
      else if prefix ''data: '' l then sse_read ev (ds @ [drop 6 l]) ls
      else sse_read ev ds ls)"

lemma split_line: "newline \<notin> set l \<Longrightarrow> split_char newline (l @ newline # s) = l # split_char newline s"
  by (induction l) auto

lemma sse_read_frame:
  assumes "newline \<notin> set ty" and "ty \<noteq> []" and "newline \<notin> set (print j)"
  shows "sse_read [] [] (split_char newline (sse_frame print (ty, j) @ s)) = (ty, print j) # sse_read [] [] (split_char newline s)"
proof -
  have e: "newline \<notin> set (''event: '' @ ty)" "newline \<notin> set (''data: '' @ print j)"
    using assms by (auto simp: newline_def)
  have "split_char newline (sse_frame print (ty, j) @ s) = (''event: '' @ ty) # (''data: '' @ print j) # [] # split_char newline s"
    using split_line [OF e(1), of "''data: '' @ print j @ [newline, newline] @ s"] split_line [OF e(2), of "newline # s"]
    by (simp add: sse_frame_def)
  then show ?thesis using assms(2) by simp
qed

lemma sse_read_end: "sse_read [] [] (split_char newline sse_end) = [(''message'', ''[DONE]'')]"
  by code_simp

lemma sse_read_frames:
  assumes "\<And>j. newline \<notin> set (print j)" and "list_all (\<lambda>f. fst f \<noteq> [] \<and> newline \<notin> set (fst f)) fs"
  shows "sse_read [] [] (split_char newline (concat (map (sse_frame print) fs) @ s))
    = map (\<lambda>f. (fst f, print (snd f))) fs @ sse_read [] [] (split_char newline s)"
  using assms(2)
proof (induction fs)
  case (Cons f fs)
  then show ?case using sse_read_frame [of "fst f" print "snd f"] assms(1) by simp
qed simp

lemma written_all: "(\<And>n. ok n) \<Longrightarrow> written ok n ts = ts"
  by (induction ts arbitrary: n) simp_all

lemma response_frame_names: "list_all (\<lambda>f. fst f \<noteq> [] \<and> newline \<notin> set (fst f)) (response_frames rid evs)"
  by (simp add: response_frames_def created_event_def item_added_event_def part_added_event_def item_index_event_def
      completed_event_def list_all_iff delta_event_def newline_def)

text \<open>If JSON is printed on one line, as \<open>encoding/json\<close> does, and the writes go through, the client reads the events of the
  response as they were made, then \<open>[DONE]\<close>.\<close>

lemma response_stream_read:
  assumes "\<And>j. newline \<notin> set (re_print env j)" and "\<And>n. re_writes env n"
    and "serve_responses env r es = (EventStream ts, turn, es')"
  shows "\<exists>prompt sid evs. turn = Some (prompt, sid) \<and> re_run env prompt sid = Some evs
    \<and> sse_read [] [] (split_char newline (concat ts))
      = map (\<lambda>f. (fst f, re_print env (snd f))) (response_frames (''resp_'' @ re_uuid env) evs) @ [(''message'', ''[DONE]'')]"
proof -
  obtain prompt sid evs where run: "turn = Some (prompt, sid)" "re_run env prompt sid = Some evs"
    and ts: "ts = written (re_writes env) 0 (map (sse_frame (re_print env)) (response_frames (''resp_'' @ re_uuid env) evs) @ [sse_end])"
    using assms(3)
    by (auto simp: serve_responses_def json_error_def Let_def split: if_splits option.splits sum.splits prod.splits)
  have "concat ts = concat (map (sse_frame (re_print env)) (response_frames (''resp_'' @ re_uuid env) evs)) @ sse_end"
    unfolding ts written_all [of "re_writes env", OF assms(2)] by simp
  then show ?thesis using sse_read_frames [OF assms(1) response_frame_names] run by (simp add: sse_read_end)
qed

text \<open>A turn that fails while it streams is reported as completed, like one that ends there.\<close>

lemma failed_turn_reported_completed: "response_frames rid (evs @ [WebError out]) = response_frames rid evs"
  by (simp add: response_frames_def delta_texts_def)

text \<open>A last message whose content is a list of parts is passed over: the message before it is run again.\<close>

lemma parts_run_older_message:
  "extract_prompt (JArr [JObj [(''type'', JStr ''message''), (''role'', JStr ''user''), (''content'', JStr ''old'')],
     JObj [(''type'', JStr ''message''), (''role'', JStr ''user''), (''content'', JArr [JObj [(''text'', JStr ''new'')]])]]) = ''old''"
  by (simp add: extract_prompt_def user_text_def json_get_def)

text \<open>The endpoint runs a turn for whoever names a session: the allow list of the channel is not read.\<close>

lemma endpoint_open_to_all:
  assumes "wq_post r" and "decode_request (wq_body r) = Some req" and "trim_space (extract_prompt (rr_input req)) \<noteq> []"
    and "trim_space (rr_previous req) = []" and "trim_space (wq_header r) \<noteq> []"
  shows "fst (snd (serve_responses env r es)) = Some (extract_prompt (rr_input req), chat_session_id ''web'' (trim_space (wq_header r)))"
  using assms by (auto simp: serve_responses_def resolve_web_session_def requested_session_def Let_def split: option.split)

subsection \<open>Conversations\<close>

lemma resolve_table:
  "fst (resolve_web_session now header query prev es) = es
   \<or> fst (resolve_web_session now header query prev es) = table_step (LookupOp now prev) es"
  by (auto simp: resolve_web_session_def lookup_response_def Let_def split: option.splits prod.splits)

text \<open>A request that is served stores the session it ran in under the id of its response.\<close>

lemma served_table:
  assumes "serve_responses env r es = (EventStream ts, Some (prompt, sid), es')"
  shows "\<exists>es1 prev. (es1 = es \<or> es1 = table_step (LookupOp (re_now env) prev) es)
    \<and> es' = table_step (StoreOp (re_rank env) (re_end env) (''resp_'' @ re_uuid env) sid) es1"
proof -
  obtain req where req: "wq_post r" "decode_request (wq_body r) = Some req" "trim_space (extract_prompt (rr_input req)) \<noteq> []"
    using assms by (auto simp: serve_responses_def json_error_def Let_def split: if_splits option.splits)
  let ?res = "resolve_web_session (re_now env) (wq_header r) (wq_query r) (rr_previous req) es"
  have "snd ?res = Inr sid \<and> es' = store_response (re_rank env) (re_end env) (''resp_'' @ re_uuid env) sid (fst ?res)"
    using assms req by (auto simp: serve_responses_def json_error_def Let_def split: if_splits option.splits sum.splits prod.splits)
  then show ?thesis using resolve_table [of "re_now env" "wq_header r" "wq_query r" "rr_previous req" es] by auto
qed

lemma stored_session_web: "stored_session ops i = Some s \<Longrightarrow> \<exists>x. s = chat_session_id ''web'' x"
  by (induction ops i rule: stored_session.induct) (auto split: option.splits if_splits)

lemma resolved_web:
  assumes "snd (resolve_web_session now header query prev (table_run ops)) = Inr sid"
  shows "chat_session_id ''web'' sid = sid"
proof -
  have "\<exists>x. sid = chat_session_id ''web'' x"
  proof (cases "trim_space prev = []")
    case True
    then show ?thesis using assms by (auto simp: resolve_web_session_def Let_def split: if_splits)
  next
    case False
    then show ?thesis using follow_up_exact [OF assms] stored_session_web by blast
  qed
  then show ?thesis using chat_session_id_stable by metis
qed

lemma served_session:
  assumes "serve_responses env r (table_run ops) = (EventStream ts, Some (prompt, sid), es')"
  shows "chat_session_id ''web'' sid = sid"
proof -
  obtain req where req: "wq_post r" "decode_request (wq_body r) = Some req" "trim_space (extract_prompt (rr_input req)) \<noteq> []"
    using assms by (auto simp: serve_responses_def json_error_def Let_def split: if_splits option.splits)
  then have "snd (resolve_web_session (re_now env) (wq_header r) (wq_query r) (rr_previous req) (table_run ops)) = Inr sid"
    using assms by (auto simp: serve_responses_def json_error_def Let_def split: if_splits option.splits sum.splits prod.splits)
  then show ?thesis by (rule resolved_web)
qed

text \<open>The turn a request with a known session runs.\<close>

lemma serve_turn:
  assumes "wq_post r" and "decode_request (wq_body r) = Some req" and "trim_space (extract_prompt (rr_input req)) \<noteq> []"
    and "snd (resolve_web_session (re_now env) (wq_header r) (wq_query r) (rr_previous req) es) = Inr sid"
  shows "fst (snd (serve_responses env r es)) = Some (extract_prompt (rr_input req), sid)"
  using assms by (auto simp: serve_responses_def Let_def split: option.split prod.split sum.split)

text \<open>C20: a conversation goes on in its session: after a request has been served in a session, one that names its response
  and no session runs its turn in the same session, within thirty minutes and fewer than 500 other uses of the table. The
  readings of the clock increase.\<close>

theorem conversation_continues:
  assumes served: "serve_responses env r (table_run ops) = (EventStream ts, Some (prompt, sid), es')"
    and rid: "is_response_id (''resp_'' @ re_uuid env)" "trim_space (rr_previous req) = trim_space (''resp_'' @ re_uuid env)"
    and req: "wq_post r'" "decode_request (wq_body r') = Some req" "trim_space (extract_prompt (rr_input req)) \<noteq> []"
      "requested_session (wq_header r') (wq_query r') = []"
    and clock: "sorted_wrt (<) (map op_time ops @ [re_now env, re_end env] @ map op_time between @ [re_now env'])"
    and fresh: "re_now env' - re_end env \<le> 30 * minute"
    and few: "card ((\<lambda>op. trim_space (op_rid op)) ` set between - {trim_space (''resp_'' @ re_uuid env)}) < 500"
    and others: "list_all (\<lambda>op. trim_space (op_rid op) = trim_space (''resp_'' @ re_uuid env) \<longrightarrow> (\<exists>t i. op = LookupOp t i)) between"
  shows "fst (snd (serve_responses env' r' (fold table_step between es'))) = Some (extract_prompt (rr_input req), sid)"
proof -
  let ?rid = "''resp_'' @ re_uuid env" and ?st = "StoreOp (re_rank env) (re_end env) (''resp_'' @ re_uuid env) sid"
  obtain es1 prev where es1: "es1 = table_run ops \<or> es1 = table_step (LookupOp (re_now env) prev) (table_run ops)"
    and es': "es' = table_step ?st es1" using served_table [OF served] by blast
  obtain ops' where ops': "es1 = table_run ops'" "sorted_wrt (<) (map op_time ops' @ [re_end env] @ map op_time between @ [re_now env'])"
    using es1
  proof
    assume "es1 = table_run ops"
    then show thesis using that [of ops] clock by (auto simp: sorted_wrt_append)
  next
    assume "es1 = table_step (LookupOp (re_now env) prev) (table_run ops)"
    then show thesis using that [of "ops @ [LookupOp (re_now env) prev]"] clock by (auto simp: sorted_wrt_append table_run_snoc)
  qed
  let ?all = "ops' @ ?st # between"
  have run: "fold table_step between es' = table_run ?all" using es' ops'(1) by (simp add: table_run_def)
  have ne: "trim_space ?rid \<noteq> []" using rid(1) by (auto simp: is_response_id_def)
  have "\<exists>s. snd (lookup_response (re_now env') ?rid (table_run ?all)) = Some s"
    by (rule response_kept) (use ops'(2) fresh few ne in \<open>auto simp: sorted_wrt_append response_ttl_def response_max_def o_def\<close>)
  then obtain s where s: "snd (lookup_response (re_now env') ?rid (table_run ?all)) = Some s" by blast
  have "stored_session (?st # between) (trim_space ?rid) = Some sid"
    using others ne served_session [OF served] stored_session_lookups [of "trim_space ?rid" between] by simp
  then have "s = sid" using lookup_exact [OF s] by (simp add: stored_session_append)
  moreover have "lookup_response (re_now env') (rr_previous req) es = lookup_response (re_now env') ?rid es" for es
    using rid(2) by (simp add: lookup_response_def)
  moreover have "is_response_id (rr_previous req)" using rid by (simp add: is_response_id_def)
  ultimately have "snd (resolve_web_session (re_now env') (wq_header r') (wq_query r') (rr_previous req) (table_run ?all)) = Inr sid"
    using s req(4) by (simp add: resolve_previous)
  then show ?thesis unfolding run by (rule serve_turn [OF req(1-3)])
qed

definition demo_responses :: responses_env where
  "demo_responses = \<lparr>re_print = (\<lambda>j. []), re_run = (\<lambda>p s. Some [WebDelta p]), re_uuid = ''1'', re_flusher = True,
     re_writes = (\<lambda>n. False), re_now = 1, re_end = 3, re_rank = (\<lambda>n k. 0)\<rparr>"

definition first_request :: web_request where
  "first_request = \<lparr>wq_post = True, wq_body = Some (JObj [(''input'', JStr ''hi'')]), wq_header = ''s'', wq_query = []\<rparr>"

definition second_request :: web_request where
  "second_request = \<lparr>wq_post = True,
     wq_body = Some (JObj [(''input'', JStr ''and now''), (''previous_response_id'', JStr ''resp_1'')]), wq_header = [], wq_query = []\<rparr>"

theorem conversation_continues_witness:
  "fst (snd (serve_responses (demo_responses\<lparr>re_now := 9\<rparr>) second_request
     (fold table_step [LookupOp 5 ''resp_1''] [(''resp_1'', ''web-s'', 3)]))) = Some (''and now'', ''web-s'')"
proof -
  let ?req = "\<lparr>rr_input = JStr ''and now'', rr_previous = ''resp_1''\<rparr>"
  have t: "trim_space ''resp_1'' = ''resp_1''" "trim_space ''hi'' = ''hi''" "trim_space ''s'' = ''s''" "trim_space ''and now'' = ''and now''"
    "chat_session_id ''web'' ''s'' = ''web-s''" "chat_session_id ''web'' ''web-s'' = ''web-s''"
    by code_simp+
  have d: "decode_request (wq_body first_request) = Some \<lparr>rr_input = JStr ''hi'', rr_previous = []\<rparr>"
    "decode_request (wq_body second_request) = Some ?req"
    by (simp_all add: decode_request_def first_request_def second_request_def request_fields_def dec_struct_def dec_entry_def
        look_field_def fld_def dec_any_def dec_string_def)
  have e: "evict_responses rank [(''resp_1'', ''web-s'', 3)] = [(''resp_1'', ''web-s'', 3)]" for rank
    by (subst evict_responses.simps) (simp add: response_max_def)
  have "snd (resolve_web_session 1 ''s'' [] [] []) = Inr ''web-s''" "fst (resolve_web_session 1 ''s'' [] [] []) = []"
    by (simp_all add: resolve_web_session_def requested_session_def t)
  then have r: "resolve_web_session 1 ''s'' [] [] [] = ([], Inr ''web-s'')" by (simp add: prod_eq_iff)
  have w: "written (\<lambda>n. False) n ts = []" for n ts by (induction ts arbitrary: n) simp_all
  have s: "serve_responses demo_responses first_request (table_run []) = (EventStream [], Some (''hi'', ''web-s''), [(''resp_1'', ''web-s'', 3)])"
    using d(1) r
    by (simp add: serve_responses_def demo_responses_def first_request_def table_run_def extract_prompt_def t w store_response_def
        prune_responses_def AList.delete_eq e Let_def)
  have i: "is_response_id (''resp_'' @ re_uuid demo_responses)" by (simp add: is_response_id_def demo_responses_def t)
  show ?thesis
    using conversation_continues [OF s i _ _ d(2), of "[LookupOp 5 ''resp_1'']" "demo_responses\<lparr>re_now := 9\<rparr>"]
    by (simp add: demo_responses_def second_request_def extract_prompt_def t requested_session_def minute_def)
qed

end
