(* ===== verification/MemoryHost.thy ===== *)
theory MemoryHost
  imports Journal PluginHost
begin

text \<open>
  The memory behind the prompt and the turn journal: \<open>internal/kernel/memory/registry.go\<close>, and
  \<open>internal/plugins/memory/file/plugin.go\<close> and \<open>journal.go\<close>. A shadow runtime is a number; its factory, the
  agent's answer and the order in which the plugins' reads return are arguments.
\<close>

subsection \<open>The registry\<close>

record memory_entry =
  me_source :: string
  me_content :: string
  me_time :: instant

definition memory_md_max_chars :: nat where "memory_md_max_chars = 12288"

definition long_term_title :: string where "long_term_title = ''# Long-term Memory'' @ [newline]"

definition format_entries :: "memory_entry list \<Rightarrow> string" where
  "format_entries es =
     (if es = [] then []
      else trim_right_set [newline]
        (long_term_title @ concat (map (\<lambda>e. truncate_chars (me_content e) memory_md_max_chars @ [newline]) es)))"

text \<open>What each plugin's \<open>Read\<close> gives, in the order the results arrive; an error is skipped. \<open>sort.Slice\<close> puts the
  newest first and leaves the order of equal times open, as the arrival does.\<close>

definition registry_context :: "(mem_error + memory_entry list) list \<Rightarrow> string" where
  "registry_context results =
     format_entries (sort_key (\<lambda>e. - me_time e)
       (concat (map (\<lambda>r. case r of Inl _ \<Rightarrow> [] | Inr es \<Rightarrow> es) results)))"

definition new_memory_registry :: "'p list \<Rightarrow> 'p list option" where
  "new_memory_registry plugins = (if plugins = [] then None else Some plugins)"

text \<open>\<open>Plugin.Read\<close>.\<close>

definition memory_read :: "mem_dir \<Rightarrow> mem_error + memory_entry list" where
  "memory_read d =
     (case read_mem d memory_md of
        ReadFails \<Rightarrow> Inl MemReadErr
      | r \<Rightarrow>
          (let content = trim_space (case r of ReadData s \<Rightarrow> s | _ \<Rightarrow> []) in
           Inr (if content = [] then []
                else [\<lparr>me_source = ''file:MEMORY.md'', me_content = content, me_time = time_zero\<rparr>])))"

subsection \<open>The shadow runtime\<close>

text \<open>\<open>mf_closing\<close> holds the runtimes whose \<open>Close\<close> has been called or started, \<open>mf_runs\<close> the shadow turns under way
  with the runtime each was given. \<open>mf_made\<close> is what the factory has returned.\<close>

record memory_plugin =
  mf_rt :: "nat option"
  mf_bus :: bool
  mf_subscribed :: bool
  mf_closing :: "nat list"
  mf_made :: "nat list"
  mf_runs :: "(nat \<times> nat) list"

definition new_memory_plugin :: memory_plugin where
  "new_memory_plugin = \<lparr>mf_rt = None, mf_bus = False, mf_subscribed = False, mf_closing = [], mf_made = [], mf_runs = []\<rparr>"

definition memory_set_bus :: "memory_plugin \<Rightarrow> memory_plugin" where "memory_set_bus p = p\<lparr>mf_bus := True\<rparr>"

definition memory_start :: "memory_plugin \<Rightarrow> memory_plugin" where
  "memory_start p = (if mf_bus p then p\<lparr>mf_subscribed := True\<rparr> else p)"

definition close_shadow :: "memory_plugin \<Rightarrow> memory_plugin" where
  "close_shadow p = p\<lparr>mf_rt := None, mf_closing := (case mf_rt p of None \<Rightarrow> [] | Some r \<Rightarrow> [r]) @ mf_closing p\<rparr>"

definition memory_stop :: "memory_plugin \<Rightarrow> memory_plugin" where
  "memory_stop p = close_shadow (p\<lparr>mf_subscribed := False\<rparr>)"

text \<open>\<open>ConfigureTurnJournal\<close>; \<open>made\<close> is what \<open>newShadow\<close> returns.\<close>

definition configure_turn_journal :: "bool \<Rightarrow> nat option \<Rightarrow> memory_plugin \<Rightarrow> memory_plugin" where
  "configure_turn_journal enabled made p =
     (if \<not> enabled then close_shadow p
      else case made of
          None \<Rightarrow> p
        | Some r \<Rightarrow> (close_shadow p)\<lparr>mf_rt := Some r, mf_made := r # mf_made p\<rparr>)"

definition shadow_tools :: "string list \<Rightarrow> string list" where
  "shadow_tools names = filter (\<lambda>n. n = ''remember'' \<or> n = ''memory_search'') names"

definition shadow_prompt :: "turn_completed \<Rightarrow> string" where
  "shadow_prompt ev = ''User: '' @ tcp_user_msg ev @ [newline, newline] @ ''Assistant: '' @ tcp_assistant_msg ev"

text \<open>\<open>onTurnCompleted\<close>, up to the call of \<open>Run\<close>: the runtime and the prompt of the shadow turn, if there is one.\<close>

definition journal_turn :: "turn_completed option \<Rightarrow> memory_plugin \<Rightarrow> (nat \<times> string) option" where
  "journal_turn payload p =
     (case payload of
        None \<Rightarrow> None
      | Some ev \<Rightarrow>
          (if tcp_user_msg ev = [] \<and> tcp_assistant_msg ev = [] then None
           else map_option (\<lambda>r. (r, shadow_prompt ev)) (mf_rt p)))"

text \<open>\<open>runShadowTurn\<close>: the contents it logs as remembered.\<close>

definition remembered_calls :: "(string \<times> string) list option \<Rightarrow> string list" where
  "remembered_calls calls = (case calls of None \<Rightarrow> [] | Some cs \<Rightarrow> map snd (filter (\<lambda>c. fst c = ''remember'') cs))"

inductive journal_step :: "memory_plugin \<Rightarrow> memory_plugin \<Rightarrow> bool" where
  gets_bus: "journal_step p (memory_set_bus p)"
| mem_starts: "journal_step p (memory_start p)"
| mem_stops: "journal_step p (memory_stop p)"
| configures: "\<forall>r. made = Some r \<longrightarrow> r \<notin> set (mf_made p) \<Longrightarrow> journal_step p (configure_turn_journal enabled made p)"
| turns: "mf_subscribed p \<Longrightarrow> journal_turn (Some ev) p = Some (r, prompt) \<Longrightarrow> journal_step p (p\<lparr>mf_runs := (t, r) # mf_runs p\<rparr>)"
| turn_over: "run \<in> set (mf_runs p) \<Longrightarrow> journal_step p (p\<lparr>mf_runs := remove1 run (mf_runs p)\<rparr>)"

inductive journal_steps :: "memory_plugin \<Rightarrow> memory_plugin \<Rightarrow> bool" where
  journal_refl: "journal_steps p p"
| journal_then: "journal_steps a b \<Longrightarrow> journal_step b c \<Longrightarrow> journal_steps a c"

subsection \<open>Bounds of the prompt\<close>

lemma length_encode_rune_le: "length (encode_rune r) \<le> 4"
  by (simp add: encode_rune_def Let_def)

lemma length_of_runes_le: "length (of_runes rs) \<le> 4 * length rs"
proof (induction rs)
  case (Cons r rs)
  then show ?case using length_encode_rune_le [of r] by (simp add: of_runes_def)
qed (simp add: of_runes_def)

lemma length_rune_count: "length s \<le> 4 * rune_count s"
proof -
  have "length (concat cs) \<le> 4 * length cs" if "\<forall>c \<in> set cs. length c \<le> 4" for cs :: "string list"
    using that by (induction cs) auto
  moreover have "\<forall>c \<in> set (rune_chunks s). length c \<le> 4"
    using rune_chunks_valid rune_width_le4 by metis
  ultimately show ?thesis using concat_rune_chunks [of s] by (metis rune_count_def)
qed

lemma length_truncate_chars: "length (truncate_chars s n) \<le> 4 * n + 3"
proof (cases "rune_count s \<le> n")
  case True
  then show ?thesis using length_rune_count [of s] by (simp add: truncate_chars_def)
next
  case False
  then show ?thesis using length_of_runes_le [of "take n (runes s)"] by (simp add: truncate_chars_def ellipsis_def)
qed

lemma length_dropWhile_rev: "length (trim_right_set cs s) \<le> length s"
  by (metis length_dropWhile_le length_rev trim_right_set_def)

text \<open>C33: the memory put into the system prompt is bounded, whatever the plugins return: at most 49,156 bytes an entry
  - 12,288 characters, the mark of a cut and a line end - after the title.\<close>

theorem memory_prompt_bounded:
  "length (registry_context results)
     \<le> 19 + 49156 * length (concat (map (\<lambda>r. case r of Inl _ \<Rightarrow> [] | Inr es \<Rightarrow> es) results))"
proof -
  have c: "length (concat (map (\<lambda>e. truncate_chars (me_content e) memory_md_max_chars @ [newline]) es)) \<le> 49156 * length es"
    for es :: "memory_entry list"
  proof (induction es)
    case (Cons e es)
    then show ?case
      using length_truncate_chars [of "me_content e" memory_md_max_chars] by (simp add: memory_md_max_chars_def)
  qed simp
  have "length (format_entries es) \<le> 19 + 49156 * length es" for es
    using c [of es] length_dropWhile_rev [of "[newline]"
        "long_term_title @ concat (map (\<lambda>e. truncate_chars (me_content e) memory_md_max_chars @ [newline]) es)"]
    by (simp add: format_entries_def long_term_title_def)
  then show ?thesis unfolding registry_context_def by (metis length_sort)
qed

subsection \<open>Shadow runtimes\<close>

definition shadow_inv :: "memory_plugin \<Rightarrow> bool" where
  "shadow_inv p \<longleftrightarrow> distinct (mf_made p)
     \<and> mset (mf_made p) = mset ((case mf_rt p of None \<Rightarrow> [] | Some r \<Rightarrow> [r]) @ mf_closing p)
     \<and> (\<forall>run \<in> set (mf_runs p). snd run \<in> set (mf_made p))"

lemma close_shadow_inv: "shadow_inv p \<Longrightarrow> shadow_inv (close_shadow p)"
  by (auto simp: shadow_inv_def close_shadow_def split: option.splits)

lemma journal_step_inv: "journal_step p q \<Longrightarrow> shadow_inv p \<Longrightarrow> shadow_inv q"
proof (induction rule: journal_step.induct)
  case (mem_stops p)
  have "shadow_inv (p\<lparr>mf_subscribed := False\<rparr>)" using mem_stops by (simp add: shadow_inv_def)
  then show ?case unfolding memory_stop_def by (rule close_shadow_inv)
next
  case (configures made p enabled)
  note c = close_shadow_inv [OF configures.prems]
  show ?case
  proof (cases "enabled \<and> made \<noteq> None")
    case True
    then obtain r where r: "made = Some r" "enabled" by auto
    then have "r \<notin> set (mf_made p)" using configures.hyps by simp
    with c r show ?thesis by (auto simp: configure_turn_journal_def shadow_inv_def close_shadow_def)
  next
    case False
    with c configures.prems show ?thesis by (auto simp: configure_turn_journal_def split: option.splits)
  qed
next
  case (turns p ev r prompt t)
  then have "mf_rt p = Some r" by (auto simp: journal_turn_def split: if_splits)
  then have m: "mset (mf_made p) = add_mset r (mset (mf_closing p))" using turns.prems by (simp add: shadow_inv_def)
  have "r \<in># mset (mf_made p)" unfolding m by simp
  then have "r \<in> set (mf_made p)" by (simp only: set_mset_mset)
  with turns.prems show ?case by (simp add: shadow_inv_def)
next
  case (turn_over run p)
  then show ?case by (auto simp: shadow_inv_def dest: notin_set_remove1 set_remove1_subset [THEN subsetD])
qed (auto simp: shadow_inv_def memory_set_bus_def memory_start_def)

lemma journal_steps_inv: "journal_steps p q \<Longrightarrow> shadow_inv p \<Longrightarrow> shadow_inv q"
  by (induction rule: journal_steps.induct) (auto dest: journal_step_inv)

text \<open>No shadow runtime leaks and none is closed twice: however configurations, stops and turns follow each other,
  every runtime the factory has made is either the current one or has been closed exactly once; and once the
  plugin is stopped all of them are closed and no further turn is journaled.\<close>

theorem shadow_runtimes_accounted:
  assumes "journal_steps new_memory_plugin p"
  shows "distinct (mf_made p) \<and> mset (mf_made p) = mset ((case mf_rt p of None \<Rightarrow> [] | Some r \<Rightarrow> [r]) @ mf_closing p)
    \<and> mset (mf_closing (memory_stop p)) = mset (mf_made p) \<and> journal_turn payload (memory_stop p) = None"
proof -
  have "shadow_inv p" using journal_steps_inv [OF assms] by (simp add: shadow_inv_def new_memory_plugin_def)
  then show ?thesis
    by (auto simp: shadow_inv_def memory_stop_def close_shadow_def journal_turn_def split: option.splits)
qed

theorem shadow_runtimes_accounted_witness:
  "mf_closing (memory_stop (configure_turn_journal True (Some 5) new_memory_plugin)) = [5]"
proof -
  have "journal_steps new_memory_plugin (configure_turn_journal True (Some 5) new_memory_plugin)"
    by (rule journal_then [OF journal_refl configures]) (simp add: new_memory_plugin_def)
  from shadow_runtimes_accounted [OF this, of None]
  have "mset (mf_closing (memory_stop (configure_turn_journal True (Some 5) new_memory_plugin))) = {#5#}"
    by (simp add: configure_turn_journal_def new_memory_plugin_def)
  then show ?thesis by simp
qed

text \<open>The close does not wait for the shadow turn that uses the runtime.\<close>

lemma shadow_turn_on_closed_runtime:
  "\<exists>p. journal_steps new_memory_plugin p \<and> (9, 5) \<in> set (mf_runs p) \<and> 5 \<in> set (mf_closing p)"
proof -
  let ?p1 = "memory_set_bus new_memory_plugin"
  let ?p2 = "memory_start ?p1"
  let ?p3 = "configure_turn_journal True (Some 5) ?p2"
  let ?p4 = "?p3\<lparr>mf_runs := (9, 5) # mf_runs ?p3\<rparr>"
  let ?ev = "\<lparr>tcp_user_msg = ''hi'', tcp_assistant_msg = [], tcp_session = [], tcp_channel = [], tcp_chat_id = [], tcp_at = 0\<rparr>"
  note d = memory_set_bus_def memory_start_def configure_turn_journal_def new_memory_plugin_def close_shadow_def
  have 1: "journal_steps new_memory_plugin ?p2"
    by (rule journal_then [OF journal_then [OF journal_refl gets_bus] mem_starts])
  have 2: "journal_steps new_memory_plugin ?p3" by (rule journal_then [OF 1 configures]) (simp add: d)
  have "journal_turn (Some ?ev) ?p3 = Some (5, shadow_prompt ?ev)" "mf_subscribed ?p3"
    by (simp_all add: journal_turn_def d)
  then have 3: "journal_steps new_memory_plugin ?p4" using journal_then [OF 2 turns] by blast
  then have 4: "journal_steps new_memory_plugin (memory_stop ?p4)" by (rule journal_then [OF _ mem_stops])
  have "(9, 5) \<in> set (mf_runs (memory_stop ?p4))" "5 \<in> set (mf_closing (memory_stop ?p4))"
    by (simp_all add: memory_stop_def d)
  with 4 show ?thesis by blast
qed

end
