(* ===== verification/Heartbeat.thy ===== *)
theory Heartbeat
  imports Journal SessionId
begin

text \<open>
  The triggers with a clock of their own: \<open>internal/plugins/trigger/heartbeat\<close> and
  \<open>internal/plugins/trigger/memconsolidate\<close>. A service is the loop that one call of \<open>Start\<close> begins: a ticker, a lane
  of one slot and the turns it fires in goroutines. Its steps and those of the plugin that replaces and stops
  services are a step relation; a loop that begins after its context has ended ends at once, since the ticker's
  first tick is an interval away.
\<close>

subsection \<open>One firing\<close>

text \<open>\<open>fileTrigger.Prompt\<close> on what \<open>os.ReadFile\<close> gives, and \<open>StaticTrigger\<close>.\<close>

definition file_prompt :: "read_result \<Rightarrow> string" where
  "file_prompt r = (case r of ReadData s \<Rightarrow> trim_space s | _ \<Rightarrow> [])"

definition static_prompt :: "string \<Rightarrow> string" where "static_prompt s = trim_space s"

datatype fire_outcome = FireSkipped | FireFailed | FireNothing | FireResult "string option"

text \<open>\<open>execute\<close>: the turn it runs, if any, and what it logs. \<open>exec\<close> is \<open>TurnExecutor.RunTurn\<close>.\<close>

definition heartbeat_execute ::
  "(string \<Rightarrow> string \<Rightarrow> string option) \<Rightarrow> string \<Rightarrow> string \<Rightarrow> int \<Rightarrow> (string \<Rightarrow> string)
    \<Rightarrow> (string \<times> string) option \<times> fire_outcome" where
  "heartbeat_execute exec prompt uuid nanos sha =
     (if prompt = [] then (None, FireSkipped)
      else let session = sid_string (new_sid KindHeartbeat [] uuid nanos sha) in
        (Some (prompt, session),
         case exec prompt session of
           None \<Rightarrow> FireFailed
         | Some result \<Rightarrow> if contains result ''HEARTBEAT_OK'' then FireNothing else FireResult (truncate_str result 200)))"

definition consolidate_fire ::
  "(string \<Rightarrow> string \<Rightarrow> string option) \<Rightarrow> wall_clock \<Rightarrow> mem_dir \<Rightarrow> string \<Rightarrow> int \<Rightarrow> (string \<Rightarrow> string)
    \<Rightarrow> (string \<times> string) option \<times> fire_outcome" where
  "consolidate_fire exec ck d uuid nanos sha =
     (case consolidate_prompt ck d of
        Inl _ \<Rightarrow> (None, FireSkipped)
      | Inr prompt \<Rightarrow>
          (if prompt = [] then (None, FireSkipped)
           else let session = sid_string (new_sid KindIsolated ''mem-consolidate'' uuid nanos sha) in
             (Some (prompt, session),
              case exec prompt session of None \<Rightarrow> FireFailed | Some result \<Rightarrow> FireResult (Some (truncate_chars result 120)))))"

subsection \<open>The service\<close>

definition heartbeat_interval :: "duration \<Rightarrow> duration" where
  "heartbeat_interval iv = (if iv \<le> 0 then wrap64 (30 * minute) else iv)"

definition consolidate_interval :: "int \<Rightarrow> duration" where
  "consolidate_interval hours = (let iv = wrap64 (hours * hour) in if iv \<le> 0 then wrap64 (24 * hour) else iv)"

datatype loop_state = LoopSpawned | LoopRunning | LoopEnded

text \<open>A fired goroutine: in \<open>execute\<close>, or past \<open>fireWg.Done\<close> with the lane still held.\<close>

datatype firing = Executing | Releasing

record service =
  sv_done :: bool
  sv_loop :: loop_state
  sv_lane :: bool
  sv_fires :: "firing list"

definition new_loop_service :: service where
  "new_loop_service = \<lparr>sv_done = False, sv_loop = LoopSpawned, sv_lane = False, sv_fires = []\<rparr>"

definition loop_begin :: "service \<Rightarrow> service option" where
  "loop_begin s = (if sv_loop s = LoopSpawned then Some (s\<lparr>sv_loop := (if sv_done s then LoopEnded else LoopRunning)\<rparr>) else None)"

definition loop_end :: "service \<Rightarrow> service option" where
  "loop_end s = (if sv_loop s = LoopRunning \<and> sv_done s then Some (s\<lparr>sv_loop := LoopEnded\<rparr>) else None)"

text \<open>\<open>tick\<close>; with the context ended and the ticker ready \<open>select\<close> may still choose it.\<close>

definition service_tick :: "service \<Rightarrow> service option" where
  "service_tick s =
     (if sv_loop s \<noteq> LoopRunning then None
      else if sv_lane s then Some s
      else Some (s\<lparr>sv_lane := True, sv_fires := Executing # sv_fires s\<rparr>))"

definition fire_end :: "service \<Rightarrow> service option" where
  "fire_end s =
     (if Executing \<in> set (sv_fires s) then Some (s\<lparr>sv_fires := Releasing # remove1 Executing (sv_fires s)\<rparr>) else None)"

definition fire_release :: "service \<Rightarrow> service option" where
  "fire_release s =
     (if Releasing \<in> set (sv_fires s) then Some (s\<lparr>sv_fires := remove1 Releasing (sv_fires s), sv_lane := False\<rparr>) else None)"

definition service_cancel :: "service \<Rightarrow> service" where "service_cancel s = s\<lparr>sv_done := True\<rparr>"

text \<open>\<open>Service.Stop\<close> returns: \<open>loopWg\<close> and \<open>fireWg\<close> are at zero.\<close>

definition stop_returns :: "service \<Rightarrow> bool" where
  "stop_returns s \<longleftrightarrow> sv_loop s \<noteq> LoopRunning \<and> Executing \<notin> set (sv_fires s)"

inductive service_step :: "service \<Rightarrow> service \<Rightarrow> bool" where
  begins: "loop_begin s = Some s' \<Longrightarrow> service_step s s'"
| ends: "loop_end s = Some s' \<Longrightarrow> service_step s s'"
| ticks: "service_tick s = Some s' \<Longrightarrow> service_step s s'"
| executed: "fire_end s = Some s' \<Longrightarrow> service_step s s'"
| released: "fire_release s = Some s' \<Longrightarrow> service_step s s'"
| parent_done: "service_step s (service_cancel s)"

inductive_cases service_stepE: "service_step s s'"

subsection \<open>The plugins\<close>

text \<open>Services are numbered; \<open>sp_stops\<close> are the calls of \<open>Stop\<close> that wait for a service, \<open>sp_stopped\<close> the services for
  which such a call has returned.\<close>

record service_plugin =
  sp_services :: "service list"
  sp_current :: "nat option"
  sp_cancel :: "nat option"
  sp_stops :: "nat list"
  sp_stopped :: "nat list"

definition new_service_plugin :: service_plugin where
  "new_service_plugin = \<lparr>sp_services = [], sp_current = None, sp_cancel = None, sp_stops = [], sp_stopped = []\<rparr>"

definition cancel_current :: "service_plugin \<Rightarrow> service_plugin" where
  "cancel_current p =
     (case sp_cancel p of
        None \<Rightarrow> p
      | Some i \<Rightarrow> p\<lparr>sp_services := (sp_services p)[i := service_cancel (sp_services p ! i)]\<rparr>)"

text \<open>\<open>hbRunner.Start\<close>: without an executor it fails before anything changes.\<close>

definition runner_start :: "bool \<Rightarrow> service_plugin \<Rightarrow> service_plugin \<times> bool" where
  "runner_start hasExec p =
     (if \<not> hasExec then (p, False)
      else let q = cancel_current p; n = length (sp_services q) in
        (q\<lparr>sp_services := sp_services q @ [new_loop_service], sp_cancel := Some n, sp_current := Some n\<rparr>, True))"

text \<open>\<open>hbRunner.Stop\<close> up to the wait.\<close>

definition runner_stop :: "service_plugin \<Rightarrow> service_plugin" where
  "runner_stop p =
     (let q = cancel_current p in
      q\<lparr>sp_cancel := None, sp_current := None,
        sp_stops := (case sp_current p of None \<Rightarrow> [] | Some i \<Rightarrow> [i]) @ sp_stops q\<rparr>)"

text \<open>\<open>memconsolidate\<close>: the same \<open>Start\<close>, and a \<open>Stop\<close> that only cancels.\<close>

definition consolidate_stop :: "service_plugin \<Rightarrow> service_plugin" where
  "consolidate_stop p = (cancel_current p)\<lparr>sp_cancel := None\<rparr>"

inductive plugin_step :: "service_plugin \<Rightarrow> service_plugin \<Rightarrow> bool" where
  runs: "i < length (sp_services p) \<Longrightarrow> service_step (sp_services p ! i) s'
    \<Longrightarrow> plugin_step p (p\<lparr>sp_services := (sp_services p)[i := s']\<rparr>)"
| starts: "plugin_step p (fst (runner_start e p))"
| stops: "plugin_step p (runner_stop p)"
| stop_over: "i \<in> set (sp_stops p) \<Longrightarrow> stop_returns (sp_services p ! i)
    \<Longrightarrow> plugin_step p (p\<lparr>sp_stops := remove1 i (sp_stops p), sp_stopped := i # sp_stopped p\<rparr>)"

inductive plugin_steps :: "service_plugin \<Rightarrow> service_plugin \<Rightarrow> bool" where
  plugin_refl: "plugin_steps p p"
| plugin_then: "plugin_steps a b \<Longrightarrow> plugin_step b c \<Longrightarrow> plugin_steps a c"

subsection \<open>One firing at a time\<close>

definition service_inv :: "service \<Rightarrow> bool" where
  "service_inv s \<longleftrightarrow> length (sv_fires s) \<le> 1 \<and> (sv_fires s \<noteq> [] \<longleftrightarrow> sv_lane s)"

text \<open>What holds of a service whose \<open>Stop\<close> has returned.\<close>

definition silent :: "service \<Rightarrow> bool" where
  "silent s \<longleftrightarrow> sv_done s \<and> stop_returns s"

lemma new_service_inv: "service_inv new_loop_service"
  by (simp add: service_inv_def new_loop_service_def)

lemma fires_cases: "length xs \<le> 1 \<Longrightarrow> xs = [] \<or> xs = [Executing] \<or> xs = [Releasing]"
  by (cases xs; cases "hd xs") auto

lemma service_step_inv: "service_step s s' \<Longrightarrow> service_inv s \<Longrightarrow> service_inv s'"
proof (induction rule: service_step.induct)
  case (executed s s')
  then show ?case using fires_cases [of "sv_fires s"] by (auto simp: fire_end_def service_inv_def split: if_splits)
next
  case (released s s')
  then show ?case using fires_cases [of "sv_fires s"] by (auto simp: fire_release_def service_inv_def split: if_splits)
qed (auto simp: loop_begin_def loop_end_def service_tick_def service_cancel_def service_inv_def split: if_splits)

lemma service_step_silent: "service_step s s' \<Longrightarrow> silent s \<Longrightarrow> silent s'"
  by (induction rule: service_step.induct)
    (auto simp: silent_def stop_returns_def loop_begin_def loop_end_def service_tick_def service_cancel_def fire_end_def
      fire_release_def split: if_splits dest: set_remove1_subset [THEN subsetD])

lemma service_step_done: "service_step s s' \<Longrightarrow> sv_done s \<Longrightarrow> sv_done s'"
  by (induction rule: service_step.induct)
    (auto simp: loop_begin_def loop_end_def service_tick_def service_cancel_def fire_end_def fire_release_def split: if_splits)

definition plugin_inv :: "service_plugin \<Rightarrow> bool" where
  "plugin_inv p \<longleftrightarrow> (\<forall>s \<in> set (sp_services p). service_inv s)
     \<and> (\<forall>i. sp_cancel p = Some i \<longrightarrow> i < length (sp_services p))
     \<and> (\<forall>i. sp_current p = Some i \<longrightarrow> i < length (sp_services p) \<and> (sp_cancel p = Some i \<or> sv_done (sp_services p ! i)))
     \<and> (\<forall>i \<in> set (sp_stops p). i < length (sp_services p) \<and> sv_done (sp_services p ! i))
     \<and> (\<forall>i \<in> set (sp_stopped p). i < length (sp_services p) \<and> silent (sp_services p ! i))"

lemma cancel_keeps: "service_inv s \<Longrightarrow> service_inv (service_cancel s)" "silent s \<Longrightarrow> silent (service_cancel s)"
    "sv_done (service_cancel s)"
  by (simp_all add: service_inv_def service_cancel_def silent_def stop_returns_def)

lemma cancel_current_inv: "plugin_inv p \<Longrightarrow> plugin_inv (cancel_current p)"
  using cancel_keeps
  by (auto simp: plugin_inv_def cancel_current_def nth_list_update split: option.splits dest!: set_update_subset_insert [THEN subsetD])

lemma cancel_current_fields [simp]: "sp_cancel (cancel_current p) = sp_cancel p" "sp_current (cancel_current p) = sp_current p"
    "sp_stops (cancel_current p) = sp_stops p" "sp_stopped (cancel_current p) = sp_stopped p"
    "length (sp_services (cancel_current p)) = length (sp_services p)"
  by (simp_all add: cancel_current_def split: option.splits)

lemma cancel_current_done:
  "plugin_inv p \<Longrightarrow> sp_current p = Some i \<Longrightarrow> sv_done (sp_services (cancel_current p) ! i)"
  using cancel_keeps(3) by (auto simp: plugin_inv_def cancel_current_def nth_list_update split: option.splits)

lemma plugin_step_inv: "plugin_step p q \<Longrightarrow> plugin_inv p \<Longrightarrow> plugin_inv q"
proof (induction rule: plugin_step.induct)
  case (runs i p s')
  then have "service_inv s'" using service_step_inv by (simp add: plugin_inv_def)
  then have "\<forall>s \<in> set ((sp_services p)[i := s']). service_inv s"
    using runs.prems by (auto simp: plugin_inv_def dest!: set_update_subset_insert [THEN subsetD])
  then show ?case
    using runs service_step_silent service_step_done by (auto simp: plugin_inv_def nth_list_update)
next
  case (starts e p)
  note c = cancel_current_inv [OF starts]
  then show ?case
    using starts new_service_inv by (auto simp: runner_start_def Let_def plugin_inv_def nth_append)
next
  case (stops p)
  note c = cancel_current_inv [OF stops] and d = cancel_current_done [OF stops]
  have "plugin_inv ((cancel_current p)\<lparr>sp_cancel := None, sp_current := None, sp_stops := sp_stops p\<rparr>)"
    using c by (auto simp: plugin_inv_def)
  moreover have "i < length (sp_services p)" if "sp_current p = Some i" for i using stops that by (simp add: plugin_inv_def)
  ultimately show ?case using d by (auto simp: runner_stop_def Let_def plugin_inv_def split: option.splits)
next
  case (stop_over i p)
  then show ?case by (auto simp: plugin_inv_def silent_def dest: set_remove1_subset [THEN subsetD])
qed

lemma plugin_steps_inv: "plugin_steps p q \<Longrightarrow> plugin_inv p \<Longrightarrow> plugin_inv q"
  by (induction rule: plugin_steps.induct) (auto dest: plugin_step_inv)

lemma new_plugin_inv: "plugin_inv new_service_plugin"
  by (simp add: plugin_inv_def new_service_plugin_def)

lemma plugin_steps_trans: "plugin_steps b c \<Longrightarrow> plugin_steps a b \<Longrightarrow> plugin_steps a c"
  by (induction rule: plugin_steps.induct) (auto intro: plugin_then)

lemma stopped_stays: "plugin_steps p q \<Longrightarrow> set (sp_stopped p) \<subseteq> set (sp_stopped q)"
proof (induction rule: plugin_steps.induct)
  case (plugin_then a b c)
  from plugin_then.hyps(2) have "set (sp_stopped b) \<subseteq> set (sp_stopped c)"
    by (induction rule: plugin_step.induct) (auto simp: runner_start_def runner_stop_def Let_def)
  with plugin_then.IH show ?case by blast
qed simp

text \<open>C30: heartbeats do not overlap and stop: a service runs at most one heartbeat turn at a time, whatever the ticker
  does, and once \<open>Stop\<close> has returned no turn of the stopped service is running or ever starts again.\<close>

theorem heartbeat_stops:
  assumes "plugin_steps new_service_plugin p" and "s \<in> set (sp_services p)"
  shows "length (sv_fires s) \<le> 1 \<and> (service_tick s = Some s' \<and> s' \<noteq> s \<longrightarrow> sv_fires s = [])
    \<and> (\<forall>i q. i \<in> set (sp_stopped p) \<and> plugin_steps p q \<longrightarrow>
        Executing \<notin> set (sv_fires (sp_services q ! i)) \<and> service_tick (sp_services q ! i) = None)"
proof -
  have p: "plugin_inv p" using plugin_steps_inv [OF assms(1) new_plugin_inv] .
  then have s: "service_inv s" using assms(2) by (simp add: plugin_inv_def)
  have "Executing \<notin> set (sv_fires (sp_services q ! i)) \<and> service_tick (sp_services q ! i) = None"
    if i: "i \<in> set (sp_stopped p)" and q: "plugin_steps p q" for i q
  proof -
    have "i \<in> set (sp_stopped q)" using stopped_stays [OF q] i by blast
    then have "silent (sp_services q ! i)" using plugin_steps_inv [OF q p] by (simp add: plugin_inv_def)
    then show ?thesis by (simp add: silent_def stop_returns_def service_tick_def)
  qed
  moreover have "sv_fires s = []" if "service_tick s = Some s'" "s' \<noteq> s"
    using that s by (auto simp: service_tick_def service_inv_def split: if_splits)
  ultimately show ?thesis using s by (simp add: service_inv_def)
qed

definition beaten_plugin :: service_plugin where
  "beaten_plugin = (let s = \<lparr>sv_done = False, sv_loop = LoopRunning, sv_lane = True, sv_fires = [Executing]\<rparr> in
     \<lparr>sp_services = [s], sp_current = Some 0, sp_cancel = Some 0, sp_stops = [], sp_stopped = []\<rparr>)"

lemma beaten_reachable: "plugin_steps new_service_plugin beaten_plugin"
proof -
  let ?p1 = "fst (runner_start True new_service_plugin)"
  let ?s2 = "\<lparr>sv_done = False, sv_loop = LoopRunning, sv_lane = False, sv_fires = []\<rparr>"
  let ?p2 = "?p1\<lparr>sp_services := (sp_services ?p1)[0 := ?s2]\<rparr>"
  have v: "sp_services ?p1 = [new_loop_service]"
    by (simp add: runner_start_def cancel_current_def new_service_plugin_def)
  have 1: "plugin_steps new_service_plugin ?p1" by (rule plugin_then [OF plugin_refl starts])
  have 2: "plugin_steps new_service_plugin ?p2"
    by (rule plugin_then [OF 1 runs]) (simp_all add: v begins loop_begin_def new_loop_service_def)
  have "plugin_steps new_service_plugin (?p2\<lparr>sp_services := (sp_services ?p2)[0 := ?s2\<lparr>sv_lane := True, sv_fires := [Executing]\<rparr>]\<rparr>)"
    by (rule plugin_then [OF 2 runs]) (simp_all add: v ticks service_tick_def)
  then show ?thesis by (simp add: v beaten_plugin_def runner_start_def cancel_current_def new_service_plugin_def Let_def)
qed

theorem heartbeat_stops_witness:
  "service_tick (hd (sp_services beaten_plugin)) = Some (hd (sp_services beaten_plugin))"
proof -
  let ?s = "hd (sp_services beaten_plugin)"
  have s: "?s \<in> set (sp_services beaten_plugin)" "sv_fires ?s \<noteq> []" "service_tick ?s \<noteq> None"
    by (simp_all add: beaten_plugin_def service_tick_def)
  then obtain s' where "service_tick ?s = Some s'" by blast
  with heartbeat_stops [OF beaten_reachable s(1), of s'] s(2) show ?thesis by auto
qed

end
