(* ===== verification/TelegramHtml.thy ===== *)
theory TelegramHtml
  imports StringUtil
begin

text \<open>
  \<open>internal/plugins/channel/telegram/utils.go\<close>: from the agent's Markdown to the HTML subset of the Telegram Bot API.
  The loops are functions with a measure: the length of the rest, or the number of asterisks left.
\<close>

subsection \<open>Escaping\<close>

definition escape_html :: "string \<Rightarrow> string" where
  "escape_html s = replace_all (replace_all (replace_all s ''&'' ''&amp;'') ''<'' ''&lt;'') ''>'' ''&gt;''"

definition open_quote :: string where "open_quote = ''<blockquote expandable>''"
definition close_quote :: string where "close_quote = ''</blockquote>''"

definition escape_preserving :: "string \<Rightarrow> string" where
  "escape_preserving s =
     replace_all (replace_all (replace_all (replace_all (replace_all s ''&'' ''&amp;'') ''<'' ''&lt;'') ''>'' ''&gt;'')
       ''&lt;blockquote expandable&gt;'' open_quote) ''&lt;/blockquote&gt;'' close_quote"

subsection \<open>Think tags\<close>

definition thinking_label :: string where "thinking_label = encode_rune 129504 @ '' Thinking'' @ [newline]"

function convert_think :: "string \<Rightarrow> string" where
  "convert_think s =
     (case index_of ''<think>'' s of
        None \<Rightarrow> s
      | Some i \<Rightarrow>
          (case index_of ''</think>'' (drop (i + 7) s) of
             None \<Rightarrow> s
           | Some e \<Rightarrow>
               take i s @ open_quote @ thinking_label @ take e (drop (i + 7) s) @ [newline] @ close_quote
                 @ convert_think (drop (i + 7 + e + 8) s)))"
  by pat_completeness auto
termination
  by (relation "measure length") (auto dest!: index_of_Some)

declare convert_think.simps [simp del]

subsection \<open>Code\<close>

text \<open>The language tag of a fenced block: a first line that is one word.\<close>

definition drop_language :: "string \<Rightarrow> string" where
  "drop_language code =
     (case index_of [newline] code of
        None \<Rightarrow> code
      | Some nl \<Rightarrow>
          (let firstLine = trim_space (take nl code) in
           if 0 < length firstLine \<and> \<not> contains firstLine '' '' then drop (nl + 1) code else code))"

text \<open>Segments with whether they are code, that is finished HTML.\<close>

function strip_code_blocks :: "string \<Rightarrow> (string \<times> bool) list" where
  "strip_code_blocks s =
     (if s = [] then []
      else case index_of ''```'' s of
          Some i \<Rightarrow>
            (if 0 < i then [(take i s, False)] else []) @
            (case index_of ''```'' (drop (i + 3) s) of
               None \<Rightarrow> [(drop i s, False)]
             | Some e \<Rightarrow>
                 (''<pre>'' @ escape_html (drop_language (take e (drop (i + 3) s))) @ ''</pre>'', True)
                   # strip_code_blocks (drop (i + 3 + e + 3) s))
        | None \<Rightarrow>
            (case index_of ''`'' s of
               Some i \<Rightarrow>
                 (if 0 < i then [(take i s, False)] else []) @
                 (case index_of ''`'' (drop (i + 1) s) of
                    None \<Rightarrow> [(drop i s, False)]
                  | Some e \<Rightarrow>
                      (''<code>'' @ escape_html (take e (drop (i + 1) s)) @ ''</code>'', True)
                        # strip_code_blocks (drop (i + 1 + e + 1) s))
             | None \<Rightarrow> [(s, False)]))"
  by pat_completeness auto
termination
  by (relation "measure length") auto

declare strip_code_blocks.simps [simp del]

subsection \<open>Bold and italic\<close>

abbreviation star :: char where "star \<equiv> CHR ''*''"

definition star_at :: "string \<Rightarrow> nat \<Rightarrow> bool" where
  "star_at s i \<longleftrightarrow> i < length s \<and> s ! i = star"

lemma index_of_char: "index_of [c] s = Some i \<Longrightarrow> s = take i s @ c # drop (i + 1) s \<and> c \<notin> set (take i s)"
proof
  assume a: "index_of [c] s = Some i"
  show "s = take i s @ c # drop (i + 1) s" using index_of_split [OF a] by simp
  show "c \<notin> set (take i s)"
  proof
    assume "c \<in> set (take i s)"
    then obtain j where j: "j < i" "j < length s" "s ! j = c" by (auto simp: in_set_conv_nth)
    then have "prefix [c] (drop j s)" by (metis Cons_nth_drop_Suc append_Cons append_Nil prefixI)
    with index_of_first [OF a j(1)] show False by simp
  qed
qed

lemma index_of_star2: "index_of [c, c] s = Some i \<Longrightarrow> s = take i s @ c # c # drop (i + 2) s"
  using index_of_split [of "[c, c]" s i] by simp

definition wrapped :: "nat \<Rightarrow> nat \<Rightarrow> string \<Rightarrow> nat \<Rightarrow> string \<Rightarrow> string \<Rightarrow> string \<Rightarrow> string" where
  "wrapped w i s e opening inner closing = take i s @ opening @ inner @ closing @ drop (i + w + e + w) s"

function convert_italic :: "string \<Rightarrow> string" where
  "convert_italic s =
     (case index_of [star] s of
        None \<Rightarrow> s
      | Some i \<Rightarrow>
          (if star_at s (i + 1) then s
           else case index_of [star] (drop (i + 1) s) of
               None \<Rightarrow> s
             | Some e \<Rightarrow>
                 (if star_at s (i + 1 + e + 1) then s
                  else convert_italic (wrapped 1 i s e ''<i>'' (take e (drop (i + 1) s)) ''</i>''))))"
  by pat_completeness auto

lemma index_twice:
  assumes "index_of p s = Some i" and "index_of p (drop (i + length p) s) = Some e"
  shows "s = take i s @ p @ take e (drop (i + length p) s) @ p @ drop (i + length p + e + length p) s"
proof -
  have "drop (i + length p) s = take e (drop (i + length p) s) @ p @ drop (e + length p) (drop (i + length p) s)"
    by (rule index_of_split [OF assms(2)])
  moreover have "drop (e + length p) (drop (i + length p) s) = drop (i + length p + e + length p) s"
    by (simp add: ac_simps)
  ultimately show ?thesis using index_of_split [OF assms(1)] by simp
qed

lemma stars_wrapped1:
  assumes "index_of [star] s = Some i" and "index_of [star] (drop (i + 1) s) = Some e"
  shows "count_list (wrapped 1 i s e ''<i>'' (take e (drop (i + 1) s)) ''</i>'') star + 2 = count_list s star"
proof -
  have "count_list s star
      = count_list (take i s @ [star] @ take e (drop (i + 1) s) @ [star] @ drop (i + 1 + e + 1) s) star"
    using index_twice [of "[star]" s i e] assms by simp
  then show ?thesis by (simp add: wrapped_def count_list_append)
qed

termination convert_italic
  by (relation "measure (\<lambda>s. count_list s star)") (use stars_wrapped1 in \<open>fastforce\<close>)+

declare convert_italic.simps [simp del]

lemma stars_italic: "count_list (convert_italic s) star \<le> count_list s star"
proof (induction s rule: convert_italic.induct)
  case (1 s)
  show ?case
  proof (cases "index_of [star] s")
    case None
    then show ?thesis by (simp add: convert_italic.simps [of s])
  next
    case (Some i)
    then show ?thesis
      using "1.IH" stars_wrapped1 [OF Some]
      by (cases "index_of [star] (drop (i + 1) s)") (fastforce simp: convert_italic.simps [of s])+
  qed
qed

function convert_bold :: "string \<Rightarrow> string" where
  "convert_bold s =
     (case index_of [star, star] s of
        None \<Rightarrow> convert_italic s
      | Some i \<Rightarrow>
          (case index_of [star, star] (drop (i + 2) s) of
             None \<Rightarrow> convert_italic s
           | Some e \<Rightarrow> convert_bold (wrapped 2 i s e ''<b>'' (convert_italic (take e (drop (i + 2) s))) ''</b>'')))"
  by pat_completeness auto

lemma stars_wrapped2:
  assumes "index_of [star, star] s = Some i" and "index_of [star, star] (drop (i + 2) s) = Some e"
  shows "count_list (wrapped 2 i s e ''<b>'' (convert_italic (take e (drop (i + 2) s))) ''</b>'') star + 4 \<le> count_list s star"
proof -
  have "count_list s star
      = count_list (take i s @ [star, star] @ take e (drop (i + 2) s) @ [star, star] @ drop (i + 2 + e + 2) s) star"
    using index_twice [of "[star, star]" s i e] assms by simp
  then show ?thesis
    using stars_italic [of "take e (drop (i + 2) s)"] by (simp add: wrapped_def count_list_append)
qed

termination convert_bold
  by (relation "measure (\<lambda>s. count_list s star)") (use stars_wrapped2 in \<open>fastforce\<close>)+

declare convert_bold.simps [simp del]

definition convert_inline :: "string \<Rightarrow> string" where
  "convert_inline s = convert_bold (escape_preserving s)"

definition to_telegram_html :: "string \<Rightarrow> string" where
  "to_telegram_html s =
     concat (map (\<lambda>(text, isCode). if isCode then text else convert_inline text) (strip_code_blocks (convert_think s)))"

subsection \<open>Markup\<close>

definition html_tokens :: "string list" where
  "html_tokens = [''&amp;'', ''&lt;'', ''&gt;'', ''<b>'', ''</b>'', ''<i>'', ''</i>'', ''<pre>'', ''</pre>'', ''<code>'', ''</code>'',
     ''<blockquote expandable>'', ''</blockquote>'']"

definition plain_char :: "char \<Rightarrow> bool" where
  "plain_char c \<longleftrightarrow> c \<noteq> CHR ''<'' \<and> c \<noteq> CHR ''>'' \<and> c \<noteq> CHR ''&''"

text \<open>Texts in which every angle bracket belongs to one of the tags the bot writes, and every ampersand to an
  entity.\<close>

inductive markup :: "string \<Rightarrow> bool" where
  markup_nil: "markup []"
| markup_plain: "plain_char c \<Longrightarrow> markup s \<Longrightarrow> markup (c # s)"
| markup_token: "t \<in> set html_tokens \<Longrightarrow> markup s \<Longrightarrow> markup (t @ s)"

inductive_cases markup_ConsE: "markup (c # s)"

lemma token_shape:
  assumes "t \<in> set html_tokens"
  shows "t \<noteq> []" "\<not> plain_char (hd t)" "star \<notin> set t" "CHR ''&'' \<notin> set (tl t)"
proof -
  have "list_all (\<lambda>t. t \<noteq> [] \<and> \<not> plain_char (hd t) \<and> star \<notin> set t \<and> CHR ''&'' \<notin> set (tl t)) html_tokens" by code_simp
  with assms show "t \<noteq> []" "\<not> plain_char (hd t)" "star \<notin> set t" "CHR ''&'' \<notin> set (tl t)" by (auto simp: list_all_iff)
qed

lemma token_prefix_free:
  assumes "t \<in> set html_tokens" and "u \<in> set html_tokens" and "t @ s = u @ v"
  shows "t = u"
proof -
  have "list_all (\<lambda>t. list_all (\<lambda>u. prefix t u \<longrightarrow> t = u) html_tokens) html_tokens" by code_simp
  then have "prefix t u \<longrightarrow> t = u" "prefix u t \<longrightarrow> u = t" using assms(1,2) by (auto simp: list_all_iff)
  moreover have "prefix t u \<or> prefix u t" using assms(3) by (metis prefixI prefix_same_cases)
  ultimately show ?thesis by blast
qed

lemma markup_append: "markup u \<Longrightarrow> markup v \<Longrightarrow> markup (u @ v)"
  by (induction rule: markup.induct) (auto intro: markup.intros)

lemma markup_one: "t \<in> set html_tokens \<Longrightarrow> markup t"
  using markup_token [OF _ markup_nil] by simp

lemma markup_plain_text: "\<forall>c \<in> set s. plain_char c \<Longrightarrow> markup s"
  by (induction s) (auto intro: markup.intros)

lemma markup_ConsD: "markup (c # s) \<Longrightarrow> plain_char c \<Longrightarrow> markup s"
proof (erule markup_ConsE)
  fix t v assume "plain_char c" "c # s = t @ v" "t \<in> set html_tokens"
  then show "markup s" using token_shape(1,2) [of t] by (cases t) auto
qed

lemma markup_tokenD: "markup (t @ s) \<Longrightarrow> t \<in> set html_tokens \<Longrightarrow> markup s"
proof -
  assume m: "markup (t @ s)" and t: "t \<in> set html_tokens"
  obtain c t' where c: "t = c # t'" using token_shape(1) [OF t] by (cases t) auto
  from m have "markup (c # t' @ s)" by (simp add: c)
  then consider "plain_char c" | u v where "c # t' @ s = u @ v" "u \<in> set html_tokens" "markup v"
    by (rule markup_ConsE) blast+
  then show "markup s"
  proof cases
    case 1
    then show ?thesis using token_shape(2) [OF t] c by simp
  next
    case (2 u v)
    then have e: "t @ s = u @ v" using c by simp
    have "t = u" by (rule token_prefix_free [OF t 2(2) e])
    with e 2(3) show ?thesis by simp
  qed
qed

lemma markup_plainD: "markup (u @ s) \<Longrightarrow> \<forall>c \<in> set u. plain_char c \<Longrightarrow> markup s"
  by (induction u) (auto dest: markup_ConsD)

text \<open>An asterisk is a token of its own, so a text can be cut there.\<close>

lemma markup_cut: "markup w \<Longrightarrow> w = u @ star # v \<Longrightarrow> markup u \<and> markup v"
proof (induction arbitrary: u rule: markup.induct)
  case (markup_plain c s)
  then show ?case by (cases u) (auto intro: markup.intros)
next
  case (markup_token t s)
  have "\<exists>u'. u = t @ u' \<and> s = u' @ star # v"
    using markup_token.prems token_shape(3) [OF markup_token.hyps(1)] by (auto simp: append_eq_append_conv2 append_eq_Cons_conv)
  then show ?case using markup_token by (auto intro: markup.intros)
qed simp

lemma markup_cut2: "markup (u @ star # m @ star # v) \<Longrightarrow> markup u \<and> markup m \<and> markup v"
  using markup_cut [of "u @ star # m @ star # v" u "m @ star # v"] markup_cut [of "m @ star # v" m v] by simp

subsection \<open>Every step keeps the markup\<close>

lemma tokens [simp]:
  "''&amp;'' \<in> set html_tokens" "''&lt;'' \<in> set html_tokens" "''&gt;'' \<in> set html_tokens" "''<b>'' \<in> set html_tokens"
  "''</b>'' \<in> set html_tokens" "''<i>'' \<in> set html_tokens" "''</i>'' \<in> set html_tokens" "''<pre>'' \<in> set html_tokens"
  "''</pre>'' \<in> set html_tokens" "''<code>'' \<in> set html_tokens" "''</code>'' \<in> set html_tokens"
  "open_quote \<in> set html_tokens" "close_quote \<in> set html_tokens"
  by (simp_all add: html_tokens_def open_quote_def close_quote_def)

definition escape_char :: "char \<Rightarrow> string" where
  "escape_char c = (if c = CHR ''&'' then ''&amp;'' else if c = CHR ''<'' then ''&lt;'' else if c = CHR ''>'' then ''&gt;'' else [c])"

lemma escape_html_chars: "escape_html s = concat (map escape_char s)"
  unfolding escape_html_def replace_all_char by (induction s) (simp_all add: escape_char_def)

lemma escape_markup: "markup (escape_html s)"
proof -
  have "markup (escape_char c)" for c
    by (auto simp: escape_char_def plain_char_def intro: markup_one markup_plain_text)
  then show ?thesis unfolding escape_html_chars by (induction s) (auto intro: markup_append markup_nil)
qed

lemma replace_skip: "CHR ''&'' \<notin> set u \<Longrightarrow> replace_all (u @ s) (CHR ''&'' # p) new = u @ replace_all s (CHR ''&'' # p) new"
  by (induction u) (auto simp: replace_all.simps [of "_ # _"])

lemma replace_markup:
  assumes "\<And>r. markup (CHR ''&'' # p @ r) \<Longrightarrow> markup r" and "new \<in> set html_tokens"
  shows "markup s \<Longrightarrow> markup (replace_all s (CHR ''&'' # p) new)"
proof (induction "length s" arbitrary: s rule: less_induct)
  case less
  let ?p = "CHR ''&'' # p"
  show ?case
  proof (cases "prefix ?p s")
    case True
    then obtain r where r: "s = ?p @ r" by (auto simp: prefix_def)
    then have "markup r" using assms(1) less.prems by simp
    then have "markup (replace_all r ?p new)" using less.hyps [of r] r by simp
    moreover have "replace_all s ?p new = new @ replace_all r ?p new" unfolding r by (subst replace_all.simps) simp
    ultimately show ?thesis using markup_token [OF assms(2)] by simp
  next
    case False
    from less.prems show ?thesis
    proof (cases rule: markup.cases)
      case markup_nil
      then show ?thesis by (simp add: markup.intros)
    next
      case (markup_plain c s')
      then have "replace_all s ?p new = c # replace_all s' ?p new"
        using False unfolding markup_plain(1) by (subst replace_all.simps) auto
      then show ?thesis using less.hyps [of s'] markup_plain markup.intros(2) by simp
    next
      case (markup_token t s')
      obtain c t' where t: "t = c # t'" using token_shape(1) [OF markup_token(2)] by (cases t) auto
      then have "CHR ''&'' \<notin> set t'" using token_shape(4) [OF markup_token(2)] by simp
      then have "replace_all s ?p new = t @ replace_all s' ?p new"
        using False unfolding markup_token(1) t append_Cons by (subst replace_all.simps) (auto simp: replace_skip)
      moreover have "markup (replace_all s' ?p new)" using less.hyps [of s'] markup_token t by simp
      ultimately show ?thesis using markup.intros(3) [OF markup_token(2)] by metis
    qed
  qed
qed

lemma escape_preserving_markup: "markup (escape_preserving s)"
proof -
  have q: "markup r" if "markup (''&lt;'' @ p @ ''&gt;'' @ r)" "\<forall>c \<in> set p. plain_char c" for p r
  proof -
    have "markup (p @ ''&gt;'' @ r)" by (rule markup_tokenD [OF that(1)]) simp
    then have "markup (''&gt;'' @ r)" by (rule markup_plainD [OF _ that(2)])
    then show ?thesis by (rule markup_tokenD) simp
  qed
  have o: "markup (CHR ''&'' # ''lt;blockquote expandable&gt;'' @ r) \<Longrightarrow> markup r" for r
    using q [of "''blockquote expandable''" r] by (simp add: plain_char_def)
  have c: "markup (CHR ''&'' # ''lt;/blockquote&gt;'' @ r) \<Longrightarrow> markup r" for r
    using q [of "''/blockquote''" r] by (simp add: plain_char_def)
  have "markup (replace_all (escape_html s) (CHR ''&'' # ''lt;blockquote expandable&gt;'') open_quote)"
    by (rule replace_markup [of "''lt;blockquote expandable&gt;''"]) (rule o, assumption, simp, rule escape_markup)
  then have "markup (replace_all (replace_all (escape_html s) (CHR ''&'' # ''lt;blockquote expandable&gt;'') open_quote)
      (CHR ''&'' # ''lt;/blockquote&gt;'') close_quote)"
    by (intro replace_markup [of "''lt;/blockquote&gt;''"]) (rule c, assumption, simp)
  then show ?thesis unfolding escape_preserving_def escape_html_def .
qed

lemma convert_italic_markup: "markup s \<Longrightarrow> markup (convert_italic s)"
proof (induction s rule: convert_italic.induct)
  case (1 s)
  show ?case
  proof (cases "index_of [star] s")
    case None
    with "1.prems" show ?thesis by (simp add: convert_italic.simps [of s])
  next
    case (Some i)
    show ?thesis
    proof (cases "star_at s (i + 1) \<or> index_of [star] (drop (i + 1) s) = None")
      case True
      with Some "1.prems" show ?thesis by (auto simp: convert_italic.simps [of s])
    next
      case False
      then obtain e where e: "index_of [star] (drop (i + 1) s) = Some e" by blast
      have "s = take i s @ star # take e (drop (i + 1) s) @ star # drop (i + 1 + e + 1) s"
        using index_twice [of "[star]" s i e] Some e by simp
      then have "markup (take i s) \<and> markup (take e (drop (i + 1) s)) \<and> markup (drop (i + 1 + e + 1) s)"
        using "1.prems" markup_cut2 by metis
      then have "markup (wrapped 1 i s e ''<i>'' (take e (drop (i + 1) s)) ''</i>'')"
        unfolding wrapped_def by (intro markup_append) (auto intro: markup_one)
      then show ?thesis using "1.IH" [OF Some _ e] "1.prems" False Some e by (simp add: convert_italic.simps [of s])
    qed
  qed
qed

lemma convert_bold_markup: "markup s \<Longrightarrow> markup (convert_bold s)"
proof (induction s rule: convert_bold.induct)
  case (1 s)
  show ?case
  proof (cases "index_of [star, star] s = None \<or> index_of [star, star] (drop (the (index_of [star, star] s) + 2) s) = None")
    case True
    with "1.prems" show ?thesis by (auto simp: convert_bold.simps [of s] convert_italic_markup split: option.split)
  next
    case False
    then obtain i e where i: "index_of [star, star] s = Some i" and e: "index_of [star, star] (drop (i + 2) s) = Some e"
      by (cases "index_of [star, star] s") auto
    have "s = take i s @ star # star # take e (drop (i + 2) s) @ star # star # drop (i + 2 + e + 2) s"
      using index_twice [of "[star, star]" s i e] i e by simp
    then have "markup (take i s @ star # [] @ star # take e (drop (i + 2) s) @ star # [] @ star # drop (i + 2 + e + 2) s)"
      using "1.prems" by simp
    then have "markup (take i s)" "markup (take e (drop (i + 2) s))" "markup (drop (i + 2 + e + 2) s)"
      using markup_cut2 by blast+
    then have "markup (wrapped 2 i s e ''<b>'' (convert_italic (take e (drop (i + 2) s))) ''</b>'')"
      unfolding wrapped_def by (intro markup_append) (auto intro: markup_one convert_italic_markup)
    then show ?thesis using "1.IH" [OF i e] i e by (simp add: convert_bold.simps [of s])
  qed
qed

lemma code_markup: "seg \<in> set (strip_code_blocks s) \<Longrightarrow> snd seg \<Longrightarrow> markup (fst seg)"
proof (induction s rule: strip_code_blocks.induct)
  case (1 s)
  have m: "markup (''<pre>'' @ escape_html c @ ''</pre>'')" "markup (''<code>'' @ escape_html c @ ''</code>'')" for c
    by (intro markup_append escape_markup markup_one tokens)+
  show ?case
    using "1.prems" "1.IH" m
    by (subst (asm) strip_code_blocks.simps) (auto split: if_splits option.splits)
qed

text \<open>C23: no text of the agent or of a user becomes HTML: whatever the message, in what is sent to Telegram every angle
  bracket belongs to one of the ten tags the bot itself writes and every ampersand to an entity.\<close>

theorem telegram_no_injection: "markup (to_telegram_html s)"
proof -
  have "markup (case seg of (text, isCode) \<Rightarrow> if isCode then text else convert_inline text)"
    if "seg \<in> set (strip_code_blocks t)" for seg t
    using code_markup [OF that] convert_bold_markup [OF escape_preserving_markup]
    by (auto simp: convert_inline_def split: prod.split)
  moreover have "\<forall>x \<in> set xs. markup x \<Longrightarrow> markup (concat xs)" for xs
    by (induction xs) (auto intro: markup_append markup_nil)
  ultimately show ?thesis by (auto simp: to_telegram_html_def)
qed

text \<open>The tags need not nest: such a message is refused by the Bot API and goes out as plain text.\<close>

lemma telegram_misnested: "to_telegram_html ''**a *b** c*'' = ''<b>a <i>b</b> c</i>''"
  by code_simp

lemma telegram_unbalanced: "to_telegram_html ''a</blockquote>'' = ''a</blockquote>''"
  by code_simp

end
