(* ===== verification/TelegramSend.thy ===== *)
theory TelegramSend
  imports TelegramHtml MessageBus
begin

text \<open>
  \<open>internal/plugins/channel/telegram\<close>: \<open>stream.go\<close>, \<open>card.go\<close> and \<open>stream_state.go\<close>, how replies reach the Bot API. The
  API answers the \<open>n\<close>-th call of a session with \<open>api n\<close>; the calls are logged with their time. The clock and
  the events of the agent are arguments.
\<close>

subsection \<open>The Bot API\<close>

record tg_error =
  te_api :: bool
  te_code :: int
  te_retry :: "int option"
  te_text :: string

datatype tg_reply = ReplyOk int | ReplyErr tg_error

datatype tg_call =
    CallSend int string bool bool
  | CallEdit int int string bool
  | CallDraft int string
  | CallDelete int int

type_synonym tg_api = "nat \<Rightarrow> tg_reply"
type_synonym tg_log = "(instant \<times> tg_call) list"

definition api_call :: "tg_api \<Rightarrow> instant \<Rightarrow> tg_call \<Rightarrow> tg_log \<Rightarrow> tg_log \<times> tg_reply" where
  "api_call api now c lg = (lg @ [(now, c)], api (length lg))"

fun last_sub :: "string \<Rightarrow> string \<Rightarrow> nat option" where
  "last_sub sub [] = (if sub = [] then Some 0 else None)"
| "last_sub sub (c # s) =
     (case last_sub sub s of Some i \<Rightarrow> Some (Suc i) | None \<Rightarrow> if prefix sub (c # s) then Some 0 else None)"

definition retry_marker :: string where "retry_marker = ''retry after ''"

definition telegram_retry_after :: "tg_error \<Rightarrow> duration option" where
  "telegram_retry_after e =
     (if te_api e \<and> te_code e = 429 \<and> (\<exists>r \<in> set_option (te_retry e). 0 < r) then Some (wrap64 (the (te_retry e) * second))
      else case last_sub retry_marker (te_text e) of
          None \<Rightarrow> None
        | Some i \<Rightarrow>
            (let digits = takeWhile is_digit (drop (i + length retry_marker) (te_text e)) in
             if digits = [] then None
             else map_option (\<lambda>secs. wrap64 (secs * second)) (parse_int digits)))"

subsection \<open>Sending\<close>

datatype tg_send_error = BotNotReady | InvalidChatId string | SendTelegram tg_error | StreamCanceled

text \<open>\<open>editMessage\<close>: an edit that changes nothing is no error.\<close>

definition edit_result :: "tg_reply \<Rightarrow> tg_error option" where
  "edit_result r = (case r of
       ReplyOk _ \<Rightarrow> None
     | ReplyErr e \<Rightarrow> if contains (te_text e) ''message is not modified'' then None else Some e)"

definition max_chunk :: nat where "max_chunk = 4000"

definition tg_chunk :: "string \<Rightarrow> string" where
  "tg_chunk content =
     (if length content \<le> max_chunk then content
      else case last_index newline (take max_chunk content) of
          Some (Suc i) \<Rightarrow> take (Suc i) content
        | _ \<Rightarrow> take (rune_aligned_cut content max_chunk) content)"

lemma tg_chunk_pos: "content \<noteq> [] \<Longrightarrow> tg_chunk content \<noteq> []"
proof -
  assume ne: "content \<noteq> []"
  then have "0 < rune_aligned_cut content max_chunk" by (intro rune_aligned_cut_pos) (simp_all add: max_chunk_def)
  with ne show ?thesis by (auto simp: tg_chunk_def split: option.split nat.split)
qed

lemma tg_chunk_prefix: "prefix (tg_chunk content) content"
  by (auto simp: tg_chunk_def take_is_prefix split: option.split nat.split)

text \<open>A chunk that is refused is followed by the whole message as plain text, and the sending ends there.\<close>

function send_chunks :: "tg_api \<Rightarrow> instant \<Rightarrow> int \<Rightarrow> string \<Rightarrow> string \<Rightarrow> tg_log \<Rightarrow> tg_log \<times> tg_send_error option" where
  "send_chunks api now chat plain content lg =
     (if content = [] then (lg, None)
      else case api_call api now (CallSend chat (tg_chunk content) True False) lg of
          (log1, ReplyOk _) \<Rightarrow> send_chunks api now chat plain (drop (length (tg_chunk content)) content) log1
        | (log1, ReplyErr _) \<Rightarrow>
            (case api_call api now (CallSend chat plain False False) log1 of
               (log2, ReplyOk _) \<Rightarrow> (log2, None)
             | (log2, ReplyErr e) \<Rightarrow> (log2, Some (SendTelegram e))))"
  by pat_completeness auto
termination
  by (relation "measure (\<lambda>(_, _, _, _, content, _). length content)") (auto simp: tg_chunk_pos)

declare send_chunks.simps [simp del]

definition placeholder_of :: "outbound_message \<Rightarrow> int option" where
  "placeholder_of m = (case om_metadata m of
       None \<Rightarrow> None
     | Some meta \<Rightarrow> (case map_of meta ''placeholder_id'' of Some (AnyInt pid) \<Rightarrow> if pid \<noteq> 0 then Some pid else None | _ \<Rightarrow> None))"

definition telegram_send :: "tg_api \<Rightarrow> instant \<Rightarrow> bool \<Rightarrow> outbound_message \<Rightarrow> tg_log \<Rightarrow> tg_log \<times> tg_send_error option" where
  "telegram_send api now ready msg lg =
     (if \<not> ready then (lg, Some BotNotReady)
      else case parse_int (om_chat_id msg) of
          None \<Rightarrow> (lg, Some (InvalidChatId (om_chat_id msg)))
        | Some chat \<Rightarrow>
            (let content = to_telegram_html (om_content msg) in
             case placeholder_of msg of
               None \<Rightarrow> send_chunks api now chat (om_content msg) content lg
             | Some pid \<Rightarrow>
                 (case api_call api now (CallEdit chat pid content True) lg of
                    (log1, r) \<Rightarrow> (case edit_result r of
                        None \<Rightarrow> (log1, None)
                      | Some _ \<Rightarrow> send_chunks api now chat (om_content msg) content log1))))"

subsection \<open>The status card\<close>

datatype tool_status = ToolRunning | ToolDone | ToolError

record tool_entry =
  tn_name :: string
  tn_summary :: string
  tn_status :: tool_status
  tn_output :: string

record status_card =
  ca_started :: instant
  ca_iteration :: int
  ca_tools :: "tool_entry list"
  ca_index :: "(string \<times> nat) list"

definition max_tool_output_runes :: int where "max_tool_output_runes = 1200"

definition tail_marker :: string where "tail_marker = [CHR 0xE2, CHR 0x80, CHR 0xA6, CHR '' '']"

definition new_status_card :: "instant \<Rightarrow> status_card" where
  "new_status_card now = \<lparr>ca_started = now, ca_iteration = 0, ca_tools = [], ca_index = []\<rparr>"

definition add_tool :: "string \<Rightarrow> string \<Rightarrow> string \<Rightarrow> status_card \<Rightarrow> status_card" where
  "add_tool i name summary c =
     c\<lparr>ca_index := map_put i (length (ca_tools c)) (ca_index c),
       ca_tools := ca_tools c @ [\<lparr>tn_name = name, tn_summary = summary, tn_status = ToolRunning, tn_output = []\<rparr>]\<rparr>"

definition update_tool :: "string \<Rightarrow> (tool_entry \<Rightarrow> tool_entry) \<Rightarrow> status_card \<Rightarrow> status_card" where
  "update_tool i f c =
     (case map_of (ca_index c) i of
        None \<Rightarrow> c
      | Some k \<Rightarrow> c\<lparr>ca_tools := (ca_tools c)[k := f (ca_tools c ! k)]\<rparr>)"

definition finish_tool :: "string \<Rightarrow> bool \<Rightarrow> status_card \<Rightarrow> status_card" where
  "finish_tool i failed = update_tool i (\<lambda>t. t\<lparr>tn_status := (if failed then ToolError else ToolDone)\<rparr>)"

definition append_output :: "string \<Rightarrow> tool_entry \<Rightarrow> tool_entry" where
  "append_output text t =
     (let out = tn_output t @ text in
      t\<lparr>tn_output := (if int (rune_count out) > max_tool_output_runes
                      then truncate_runes_tail out max_tool_output_runes tail_marker else out)\<rparr>)"

definition append_tool_output :: "string \<Rightarrow> string \<Rightarrow> status_card \<Rightarrow> status_card" where
  "append_tool_output i text c = (if i = [] \<or> text = [] then c else update_tool i (append_output text) c)"

definition set_iteration :: "int \<Rightarrow> status_card \<Rightarrow> status_card" where "set_iteration n c = c\<lparr>ca_iteration := n\<rparr>"

definition status_icon :: "tool_status \<Rightarrow> string" where
  "status_icon st = (case st of ToolRunning \<Rightarrow> encode_rune 9203 | ToolDone \<Rightarrow> encode_rune 9989 | ToolError \<Rightarrow> encode_rune 10060)"

definition render_tool :: "tool_entry \<Rightarrow> string" where
  "render_tool t =
     status_icon (tn_status t) @ '' <code>'' @ escape_html (tn_name t) @ ''</code>''
     @ (if tn_summary t \<noteq> [] then ''('' @ escape_html (tn_summary t) @ '')'' else []) @ [newline]
     @ (if tn_output t \<noteq> [] then ''<pre>'' @ escape_html (tn_output t) @ ''</pre>'' @ [newline] else [])"

text \<open>\<open>dur\<close> is \<open>Duration.String\<close>.\<close>

definition render_card :: "(duration \<Rightarrow> string) \<Rightarrow> instant \<Rightarrow> status_card \<Rightarrow> string" where
  "render_card dur now c =
     encode_rune 129302 @ '' <b>Working...</b>'' @ [newline]
     @ (if 0 < ca_iteration c then newline # encode_rune 128260 @ '' Iteration '' @ show_int (ca_iteration c) @ [newline] else [])
     @ (if ca_tools c \<noteq> [] then newline # concat (map render_tool (ca_tools c)) else [])
     @ newline # encode_rune 9201 @ '' '' @ dur (tdiv (now - ca_started c) second * second)"

subsection \<open>The stream\<close>

record stream_msg =
  sm_id :: int
  sm_dirty :: bool
  sm_last :: instant

record stream_state =
  ss_chat :: int
  ss_draft :: bool
  ss_show_card :: bool
  ss_cursor :: bool
  ss_cooldown :: instant
  ss_status :: stream_msg
  ss_content :: stream_msg
  ss_text :: string
  ss_err :: string
  ss_card :: status_card
  ss_pending :: "(string \<times> string) list"
  ss_block :: string
  ss_calls :: tg_log

definition no_stream_msg :: stream_msg where "no_stream_msg = \<lparr>sm_id = 0, sm_dirty = False, sm_last = time_zero\<rparr>"

definition new_stream_state :: "instant \<Rightarrow> string \<Rightarrow> int \<Rightarrow> stream_state" where
  "new_stream_state now feedback chat =
     \<lparr>ss_chat = chat, ss_draft = (0 < chat), ss_show_card = (feedback = ''debug'' \<or> feedback = ''normal''),
      ss_cursor = (feedback \<noteq> ''silent''), ss_cooldown = time_zero, ss_status = no_stream_msg, ss_content = no_stream_msg,
      ss_text = [], ss_err = [], ss_card = new_status_card now, ss_pending = [], ss_block = [], ss_calls = []\<rparr>"

definition status_min_gap :: duration where "status_min_gap = 500 * millisecond"
definition content_min_gap :: duration where "content_min_gap = second"
definition content_draft_min_gap :: duration where "content_draft_min_gap = 400 * millisecond"
definition status_heartbeat_delay :: duration where "status_heartbeat_delay = 5 * second"
definition draft_max_runes :: int where "draft_max_runes = 4096"

definition set_cooldown :: "instant \<Rightarrow> tg_error \<Rightarrow> stream_state \<Rightarrow> stream_state" where
  "set_cooldown now e s =
     (case telegram_retry_after e of
        None \<Rightarrow> s
      | Some d \<Rightarrow> if ss_cooldown s < now + d then s\<lparr>ss_cooldown := now + d\<rparr> else s)"

definition in_cooldown :: "instant \<Rightarrow> stream_state \<Rightarrow> bool" where
  "in_cooldown now s \<longleftrightarrow> \<not> is_zero_time (ss_cooldown s) \<and> now < ss_cooldown s"

text \<open>The two messages a stream edits.\<close>

datatype slot = StatusSlot | ContentSlot

definition slot_msg :: "slot \<Rightarrow> stream_state \<Rightarrow> stream_msg" where
  "slot_msg sl s = (case sl of StatusSlot \<Rightarrow> ss_status s | ContentSlot \<Rightarrow> ss_content s)"

definition set_slot :: "slot \<Rightarrow> stream_msg \<Rightarrow> stream_state \<Rightarrow> stream_state" where
  "set_slot sl m s = (case sl of StatusSlot \<Rightarrow> s\<lparr>ss_status := m\<rparr> | ContentSlot \<Rightarrow> s\<lparr>ss_content := m\<rparr>)"

definition mark_dirty :: "slot \<Rightarrow> stream_state \<Rightarrow> stream_state" where
  "mark_dirty sl s = set_slot sl ((slot_msg sl s)\<lparr>sm_dirty := True\<rparr>) s"

text \<open>One call of the API: the reply is read as an error by \<open>err\<close>.\<close>

definition stream_call :: "tg_api \<Rightarrow> instant \<Rightarrow> tg_call \<Rightarrow> stream_state \<Rightarrow> stream_state \<times> tg_reply" where
  "stream_call api now c s = (case api_call api now c (ss_calls s) of (lg, r) \<Rightarrow> (s\<lparr>ss_calls := lg\<rparr>, r))"

definition upsert_message :: "tg_api \<Rightarrow> slot \<Rightarrow> string \<Rightarrow> instant \<Rightarrow> stream_state \<Rightarrow> stream_state" where
  "upsert_message api sl text now s =
     (if text = [] then s
      else if in_cooldown now s then mark_dirty sl s
      else if sm_id (slot_msg sl s) = 0 then
        (case stream_call api now (CallSend (ss_chat s) text True True) s of
           (s1, ReplyErr e) \<Rightarrow> mark_dirty sl (set_cooldown now e s1)
         | (s1, ReplyOk pid) \<Rightarrow> set_slot sl \<lparr>sm_id = pid, sm_dirty = False, sm_last = now\<rparr> s1)
      else
        (case stream_call api now (CallEdit (ss_chat s) (sm_id (slot_msg sl s)) text True) s of
           (s1, r) \<Rightarrow> (case edit_result r of
               Some e \<Rightarrow> mark_dirty sl (set_cooldown now e s1)
             | None \<Rightarrow> set_slot sl \<lparr>sm_id = sm_id (slot_msg sl s), sm_dirty = False, sm_last = now\<rparr> s1)))"

definition render_content :: "stream_state \<Rightarrow> string" where
  "render_content s =
     (if ss_text s = [] then [] else to_telegram_html (ss_text s @ (if ss_cursor s then encode_rune 9613 else [])))"

definition content_flush_gap :: "stream_state \<Rightarrow> duration" where
  "content_flush_gap s = (if ss_draft s then content_draft_min_gap else content_min_gap)"

definition flush_content :: "tg_api \<Rightarrow> instant \<Rightarrow> bool \<Rightarrow> stream_state \<Rightarrow> stream_state" where
  "flush_content api now force s =
     (let m = ss_content s; text = render_content s in
      if \<not> sm_dirty m then s
      else if \<not> force \<and> \<not> is_zero_time (sm_last m) \<and> now - sm_last m < content_flush_gap s then s
      else if text = [] then s\<lparr>ss_content := m\<lparr>sm_dirty := False\<rparr>\<rparr>
      else if in_cooldown now s then s
      else if ss_draft s then
        (case stream_call api now (CallDraft (ss_chat s) (truncate_runes text draft_max_runes)) s of
           (s1, ReplyErr e) \<Rightarrow> mark_dirty ContentSlot (set_cooldown now e s1)
         | (s1, ReplyOk _) \<Rightarrow> s1\<lparr>ss_content := m\<lparr>sm_dirty := False, sm_last := now\<rparr>\<rparr>)
      else upsert_message api ContentSlot text now s)"

definition update_card :: "tg_api \<Rightarrow> (duration \<Rightarrow> string) \<Rightarrow> instant \<Rightarrow> stream_state \<Rightarrow> stream_state" where
  "update_card api dur now s = upsert_message api StatusSlot (render_card dur now (ss_card s)) now s"

definition try_update_status :: "tg_api \<Rightarrow> (duration \<Rightarrow> string) \<Rightarrow> instant \<Rightarrow> stream_state \<Rightarrow> stream_state" where
  "try_update_status api dur now s =
     (if \<not> ss_show_card s then s
      else if in_cooldown now s then mark_dirty StatusSlot s
      else if \<not> is_zero_time (sm_last (ss_status s)) \<and> now - sm_last (ss_status s) < status_min_gap then mark_dirty StatusSlot s
      else update_card api dur now s)"

definition status_due :: "bool \<Rightarrow> duration \<Rightarrow> instant \<Rightarrow> stream_state \<Rightarrow> bool" where
  "status_due dirty gap now s \<longleftrightarrow> ss_show_card s \<and> sm_dirty (ss_status s) = dirty
     \<and> (is_zero_time (sm_last (ss_status s)) \<or> gap \<le> now - sm_last (ss_status s))"

definition tick_flush :: "tg_api \<Rightarrow> (duration \<Rightarrow> string) \<Rightarrow> instant \<Rightarrow> bool \<Rightarrow> stream_state \<Rightarrow> stream_state" where
  "tick_flush api dur now forceContent s =
     (if in_cooldown now s then s
      else
        let s1 = (if status_due True status_min_gap now s then update_card api dur now s else s);
            s2 = flush_content api now forceContent s1 in
        if sm_id (ss_status s2) \<noteq> 0 \<and> status_due False status_heartbeat_delay now s2
        then update_card api dur now s2 else s2)"

subsection \<open>Events of the agent\<close>

text \<open>A delta: whether it is tool input, the text its JSON string holds, if it is one, and its own text.\<close>

record stream_delta =
  sd_input :: bool
  sd_json :: "string option"
  sd_text :: string

datatype tg_event =
    IterationStart "int option"
  | BlockStart "(bool \<times> string) option"
  | BlockStop
  | BlockDelta "stream_delta option"
  | ToolStart string string
  | ToolOutput string "string option" bool
  | ToolResult string bool
  | StreamFailed string
  | OtherStreamEvent

text \<open>\<open>SummarizeToolInput\<close>: \<open>fields\<close> is the JSON object as \<open>%v\<close> prints its values.\<close>

definition summary_keys :: "string list" where
  "summary_keys = [''filePath'', ''file_path'', ''path'', ''command'', ''query'', ''pattern'', ''url'']"

definition summarize_tool_input :: "(string \<Rightarrow> (string \<times> string) list option) \<Rightarrow> string \<Rightarrow> string" where
  "summarize_tool_input parse input =
     (if input = [] then []
      else case parse input of
          None \<Rightarrow> []
        | Some m \<Rightarrow>
            (case find (\<lambda>k. map_of m k \<noteq> None) summary_keys of
               None \<Rightarrow> []
             | Some k \<Rightarrow> (let s = the (map_of m k) in if 40 < length s then take 37 s @ ''...'' else s)))"

definition handle_delta :: "tg_api \<Rightarrow> instant \<Rightarrow> stream_delta option \<Rightarrow> stream_state \<Rightarrow> stream_state" where
  "handle_delta api now delta s = (case delta of
       None \<Rightarrow> s
     | Some d \<Rightarrow>
         (if sd_input d \<and> ss_block s \<noteq> [] then
            (case sd_json d of
               None \<Rightarrow> s
             | Some chunk \<Rightarrow>
                 s\<lparr>ss_pending := map_put (ss_block s) (map_get (ss_block s) (ss_pending s) @ chunk) (ss_pending s)\<rparr>)
          else if sd_text d \<noteq> [] then
            (let s1 = s\<lparr>ss_text := ss_text s @ sd_text d, ss_content := (ss_content s)\<lparr>sm_dirty := True\<rparr>\<rparr> in
             if ss_draft s then flush_content api now False s1 else s1)
          else s))"

definition handle_event ::
  "tg_api \<Rightarrow> (duration \<Rightarrow> string) \<Rightarrow> (string \<Rightarrow> (string \<times> string) list option) \<Rightarrow> instant \<Rightarrow> tg_event \<Rightarrow> stream_state \<Rightarrow> stream_state" where
  "handle_event api dur parse now ev s = (case ev of
       IterationStart it \<Rightarrow>
         try_update_status api dur now
           (s\<lparr>ss_card := (case it of None \<Rightarrow> ss_card s | Some n \<Rightarrow> set_iteration (n + 1) (ss_card s)), ss_text := []\<rparr>)
     | BlockStart b \<Rightarrow> s\<lparr>ss_block := (case b of Some (True, i) \<Rightarrow> i | _ \<Rightarrow> [])\<rparr>
     | BlockStop \<Rightarrow> s\<lparr>ss_block := []\<rparr>
     | BlockDelta d \<Rightarrow> handle_delta api now d s
     | ToolStart i name \<Rightarrow>
         (let raw = map_of (ss_pending s) i;
              summary = (case raw of None \<Rightarrow> [] | Some r \<Rightarrow> summarize_tool_input parse r) in
          try_update_status api dur now
            (s\<lparr>ss_pending := map_del i (ss_pending s), ss_card := add_tool i name summary (ss_card s)\<rparr>))
     | ToolOutput i out isErr \<Rightarrow>
         (case out of
            None \<Rightarrow> s
          | Some chunk \<Rightarrow>
              (if \<not> ss_show_card s \<or> chunk = [] then s
               else try_update_status api dur now
                 (s\<lparr>ss_card := append_tool_output i ((if isErr then ''[stderr] '' else []) @ chunk) (ss_card s)\<rparr>)))
     | ToolResult i failed \<Rightarrow> try_update_status api dur now (s\<lparr>ss_card := finish_tool i failed (ss_card s)\<rparr>)
     | StreamFailed t \<Rightarrow> try_update_status api dur now (s\<lparr>ss_err := trim_space t\<rparr>)
     | OtherStreamEvent \<Rightarrow> s)"

subsection \<open>The end of a stream\<close>

text \<open>\<open>waitCooldown\<close>: the time at which it returns; \<open>None\<close> when the context ends first.\<close>

definition wait_cooldown :: "instant \<Rightarrow> bool \<Rightarrow> stream_state \<Rightarrow> instant option" where
  "wait_cooldown now canceled s =
     (if is_zero_time (ss_cooldown s) \<or> ss_cooldown s \<le> now then Some now
      else if canceled then None else Some (ss_cooldown s))"

definition final_message :: "string \<Rightarrow> metadata option \<Rightarrow> stream_state \<Rightarrow> outbound_message" where
  "final_message chatID meta s =
     \<lparr>om_channel = [], om_chat_id = chatID,
      om_content = (if ss_text s \<noteq> [] then ss_text s
        else if ss_err s \<noteq> [] then ''stream failed: '' @ ss_err s else ''agent return null''),
      om_reply_to = [], om_media = [], om_metadata = meta, om_content_blocks = []\<rparr>"

definition send_error_of :: "tg_send_error \<Rightarrow> tg_error option" where
  "send_error_of e = (case e of SendTelegram x \<Rightarrow> Some x | _ \<Rightarrow> None)"

definition stream_send :: "tg_api \<Rightarrow> instant \<Rightarrow> outbound_message \<Rightarrow> stream_state \<Rightarrow> stream_state \<times> tg_send_error option" where
  "stream_send api now m s = (case telegram_send api now True m (ss_calls s) of (lg, e) \<Rightarrow> (s\<lparr>ss_calls := lg\<rparr>, e))"

definition delete_slot :: "tg_api \<Rightarrow> instant \<Rightarrow> slot \<Rightarrow> stream_state \<Rightarrow> stream_state" where
  "delete_slot api now sl s =
     (if sm_id (slot_msg sl s) = 0 then s
      else fst (stream_call api now (CallDelete (ss_chat s) (sm_id (slot_msg sl s))) s))"

text \<open>The final text, sent again once when the first attempt was told to wait.\<close>

definition send_final :: "tg_api \<Rightarrow> instant \<Rightarrow> bool \<Rightarrow> outbound_message \<Rightarrow> stream_state \<Rightarrow> stream_state \<times> tg_send_error option" where
  "send_final api now canceled m s =
     (case wait_cooldown now canceled s of
        None \<Rightarrow> (s, Some StreamCanceled)
      | Some t1 \<Rightarrow>
          (case stream_send api t1 m s of
             (s1, None) \<Rightarrow> (s1, None)
           | (s1, Some e) \<Rightarrow>
               (case send_error_of e of
                  None \<Rightarrow> (s1, Some e)
                | Some x \<Rightarrow>
                    (if telegram_retry_after x = None then (s1, Some e)
                     else let s2 = set_cooldown t1 x s1 in
                       case wait_cooldown t1 canceled s2 of
                         None \<Rightarrow> (s2, Some StreamCanceled)
                       | Some t2 \<Rightarrow> stream_send api t2 m s2))))"

definition finalize_send ::
  "tg_api \<Rightarrow> instant \<Rightarrow> bool \<Rightarrow> string \<Rightarrow> metadata option \<Rightarrow> stream_state \<Rightarrow> stream_state \<times> tg_send_error option" where
  "finalize_send api now canceled chatID meta s =
     (case send_final api now canceled (final_message chatID meta s) s of
        (s1, Some e) \<Rightarrow> (s1, Some e)
      | (s1, None) \<Rightarrow> (delete_slot api now ContentSlot (delete_slot api now StatusSlot s1), None))"

text \<open>The loop of \<open>SendStream\<close>, as the sequence of what its \<open>select\<close> picks.\<close>

datatype stream_input = Tick instant | StreamEvent instant tg_event

definition stream_step ::
  "tg_api \<Rightarrow> (duration \<Rightarrow> string) \<Rightarrow> (string \<Rightarrow> (string \<times> string) list option) \<Rightarrow> stream_state \<Rightarrow> stream_input \<Rightarrow> stream_state" where
  "stream_step api dur parse s i = (case i of
       Tick now \<Rightarrow> tick_flush api dur now False s
     | StreamEvent now ev \<Rightarrow> handle_event api dur parse now ev s)"

definition send_stream ::
  "tg_api \<Rightarrow> (duration \<Rightarrow> string) \<Rightarrow> (string \<Rightarrow> (string \<times> string) list option) \<Rightarrow> string \<Rightarrow> string \<Rightarrow> metadata option \<Rightarrow> int
    \<Rightarrow> instant \<Rightarrow> instant \<Rightarrow> bool \<Rightarrow> stream_input list \<Rightarrow> stream_state \<times> tg_send_error option" where
  "send_stream api dur parse feedback chatID meta chat start end0 canceled inputs =
     (let s = foldl (stream_step api dur parse) (new_stream_state start feedback chat) inputs in
      finalize_send api end0 canceled chatID meta (tick_flush api dur end0 True s))"

text \<open>Without streaming the text is collected and sent at once; an empty one is not.\<close>

fun delta_text :: "tg_event \<Rightarrow> string" where
  "delta_text (BlockDelta (Some d)) = sd_text d"
| "delta_text _ = []"

definition send_collected :: "tg_api \<Rightarrow> instant \<Rightarrow> string \<Rightarrow> metadata option \<Rightarrow> tg_event list \<Rightarrow> tg_log \<times> tg_send_error option" where
  "send_collected api now chatID meta evs =
     (let t = concat (map delta_text evs) in
      if t = [] then ([], None)
      else telegram_send api now True
        \<lparr>om_channel = [], om_chat_id = chatID, om_content = t, om_reply_to = [], om_media = [], om_metadata = meta,
         om_content_blocks = []\<rparr> [])"

text \<open>\<open>SendStream\<close>: \<open>fin\<close> is the time at which the events end, and whether the context cuts the loop off before that or
  ends while the final text waits. Calls take no time of their own.\<close>

datatype stream_end = StreamCut | StreamOver bool

fun stream_events :: "stream_input list \<Rightarrow> tg_event list" where
  "stream_events [] = []"
| "stream_events (Tick now # is) = stream_events is"
| "stream_events (StreamEvent now ev # is) = ev # stream_events is"

definition telegram_send_stream ::
  "tg_api \<Rightarrow> (duration \<Rightarrow> string) \<Rightarrow> (string \<Rightarrow> (string \<times> string) list option) \<Rightarrow> bool \<Rightarrow> bool \<Rightarrow> string \<Rightarrow> string
    \<Rightarrow> metadata option \<Rightarrow> instant \<Rightarrow> instant \<times> stream_end \<Rightarrow> stream_input list \<Rightarrow> tg_log \<times> tg_send_error option" where
  "telegram_send_stream api dur parse ready streaming feedback chatID meta start fin inputs =
     (if \<not> ready then ([], Some BotNotReady)
      else case parse_int chatID of
          None \<Rightarrow> ([], Some (InvalidChatId chatID))
        | Some chat \<Rightarrow>
            (if \<not> streaming then send_collected api (fst fin) chatID meta (stream_events inputs)
             else case snd fin of
                 StreamCut \<Rightarrow>
                   (ss_calls (foldl (stream_step api dur parse) (new_stream_state start feedback chat) inputs), Some StreamCanceled)
               | StreamOver canceled \<Rightarrow>
                   (case send_stream api dur parse feedback chatID meta chat start (fst fin) canceled inputs of (s, e) \<Rightarrow> (ss_calls s, e))))"

subsection \<open>What is sent\<close>

lemma tg_chunk_split:
  "\<not> length content \<le> max_chunk \<Longrightarrow> tg_chunk content = take (chunk_split content max_chunk) content"
  by (auto simp: tg_chunk_def chunk_split_def split: option.split nat.split)

lemma send_chunks_all:
  assumes "\<And>n. \<exists>i. api n = ReplyOk i"
  shows "send_chunks api now chat plain content lg
    = (lg @ map (\<lambda>t. (now, CallSend chat t True False)) (chunk_loop max_chunk content), None)"
proof (induction "length content" arbitrary: content lg rule: less_induct)
  case less
  show ?case
  proof (cases "content = []")
    case True
    then show ?thesis by (simp add: send_chunks.simps [of _ _ _ _ "[]"] chunk_loop.simps [of _ "[]"])
  next
    case ne: False
    let ?c = "tg_chunk content"
    obtain i where i: "api (length lg) = ReplyOk i" using assms by blast
    have l: "length (drop (length ?c) content) < length content" using ne tg_chunk_pos [OF ne] by simp
    have s: "send_chunks api now chat plain content lg
        = send_chunks api now chat plain (drop (length ?c) content) (lg @ [(now, CallSend chat ?c True False)])"
      using ne i by (simp add: send_chunks.simps [of _ _ _ _ content] api_call_def)
    have c: "chunk_loop max_chunk content = ?c # chunk_loop max_chunk (drop (length ?c) content)"
    proof (cases "length content \<le> max_chunk")
      case True
      then show ?thesis using ne by (simp add: tg_chunk_def chunk_loop.simps [of _ content] chunk_loop.simps [of _ "[]"])
    next
      case False
      moreover have "chunk_split content max_chunk \<le> max_chunk" by (rule chunk_split_le)
      ultimately show ?thesis
        using tg_chunk_split [OF False] by (simp add: chunk_loop.simps [of _ content] max_chunk_def min_def)
    qed
    show ?thesis using less.hyps [OF l] s c by simp
  qed
qed

text \<open>C25: a reply arrives whole: when the Bot API accepts every call, what \<open>Send\<close> sends is the HTML of the message, cut
  into pieces of at most 4,000 bytes in order, nothing else and to no other chat; no piece cuts a character of a
  valid text.\<close>

theorem telegram_send_complete:
  assumes "\<And>n. \<exists>i. api n = ReplyOk i" and "parse_int (om_chat_id msg) = Some chat" and "placeholder_of msg = None"
  shows "\<exists>chunks. telegram_send api now True msg [] = (map (\<lambda>t. (now, CallSend chat t True False)) chunks, None)
    \<and> concat chunks = to_telegram_html (om_content msg)
    \<and> (\<forall>t \<in> set chunks. t \<noteq> [] \<and> length t \<le> 4000)
    \<and> (valid_utf8 (to_telegram_html (om_content msg)) \<longrightarrow> (\<forall>t \<in> set chunks. valid_utf8 t))"
proof -
  let ?html = "to_telegram_html (om_content msg)"
  have "telegram_send api now True msg [] = (map (\<lambda>t. (now, CallSend chat t True False)) (chunk_loop max_chunk ?html), None)"
    using assms(2,3) send_chunks_all [OF assms(1)] by (simp add: telegram_send_def Let_def)
  moreover have "0 < max_chunk" by (simp add: max_chunk_def)
  ultimately show ?thesis
    using chunk_loop_bounds [of max_chunk _ ?html] chunk_loop_valid [of ?html max_chunk] chunk_loop_concat
    by (intro exI [of _ "chunk_loop max_chunk ?html"]) (auto simp: max_chunk_def)
qed

text \<open>When a later piece is refused the whole message follows: the pieces already sent are shown twice, and a text over
  the limit of one message cannot be sent that way at all. The second attempt does not wait for a rate limit.\<close>

lemma refused_piece_repeats:
  assumes "content \<noteq> []" and "drop (length (tg_chunk content)) content \<noteq> []" and "api 0 = ReplyOk i" and "api 1 = ReplyErr e"
    and "api 2 = ReplyOk j"
  shows "send_chunks api now chat plain content [] =
    ([(now, CallSend chat (tg_chunk content) True False),
      (now, CallSend chat (tg_chunk (drop (length (tg_chunk content)) content)) True False),
      (now, CallSend chat plain False False)], None)"
  using assms by (simp add: send_chunks.simps [of _ _ _ _ content] send_chunks.simps [of _ _ _ _ "drop _ content"] api_call_def
      numeral_2_eq_2)

subsection \<open>Rate limits\<close>

text \<open>The error a call is taken to have.\<close>

definition call_error :: "tg_call \<Rightarrow> tg_reply \<Rightarrow> tg_error option" where
  "call_error c r = (case c of
       CallEdit _ _ _ _ \<Rightarrow> edit_result r
     | _ \<Rightarrow> (case r of ReplyOk _ \<Rightarrow> None | ReplyErr e \<Rightarrow> Some e))"

definition told_to_wait :: "tg_api \<Rightarrow> tg_log \<Rightarrow> nat \<Rightarrow> duration option" where
  "told_to_wait api lg i = Option.bind (call_error (snd (lg ! i)) (api i)) telegram_retry_after"

definition waits :: "tg_api \<Rightarrow> tg_log \<Rightarrow> bool" where
  "waits api lg \<longleftrightarrow> (\<forall>i j d. i < j \<longrightarrow> j < length lg \<longrightarrow> told_to_wait api lg i = Some d \<longrightarrow> fst (lg ! i) + d \<le> fst (lg ! j))"

definition cool_inv :: "tg_api \<Rightarrow> stream_state \<Rightarrow> bool" where
  "cool_inv api s \<longleftrightarrow> waits api (ss_calls s)
     \<and> (\<forall>i d. i < length (ss_calls s) \<longrightarrow> told_to_wait api (ss_calls s) i = Some d \<longrightarrow> fst (ss_calls s ! i) + d \<le> ss_cooldown s)"

lemma told_append [simp]: "i < length lg \<Longrightarrow> told_to_wait api (lg @ ms) i = told_to_wait api lg i"
  by (simp add: told_to_wait_def nth_append)

lemma cool_push:
  assumes "cool_inv api s" and "ss_cooldown s \<le> now" and "ss_calls s' = ss_calls s @ [(now, c)]"
    and "ss_cooldown s \<le> ss_cooldown s'"
    and "\<And>d. Option.bind (call_error c (api (length (ss_calls s)))) telegram_retry_after = Some d \<Longrightarrow> now + d \<le> ss_cooldown s'"
  shows "cool_inv api s'"
proof -
  have w: "waits api (ss_calls s')"
    using assms(1,2) unfolding waits_def cool_inv_def assms(3)
    by (fastforce simp: nth_append less_Suc_eq split: if_splits)
  have "fst (ss_calls s' ! i) + d \<le> ss_cooldown s'" if "i < length (ss_calls s')" "told_to_wait api (ss_calls s') i = Some d" for i d
  proof (cases "i < length (ss_calls s)")
    case True
    then show ?thesis using assms(1,3,4) that by (fastforce simp: cool_inv_def nth_append)
  next
    case False
    then have "i = length (ss_calls s)" using that(1) assms(3) by simp
    then show ?thesis using assms(3,5) that(2) by (simp add: told_to_wait_def)
  qed
  with w show ?thesis by (simp add: cool_inv_def)
qed

lemma cool_frame: "cool_inv api s \<Longrightarrow> ss_calls s' = ss_calls s \<Longrightarrow> ss_cooldown s' = ss_cooldown s \<Longrightarrow> cool_inv api s'"
  by (simp add: cool_inv_def)

lemma slot_frames [simp]:
  "ss_calls (set_slot sl m s) = ss_calls s" "ss_cooldown (set_slot sl m s) = ss_cooldown s"
  "ss_calls (mark_dirty sl s) = ss_calls s" "ss_cooldown (mark_dirty sl s) = ss_cooldown s"
  "ss_calls (set_cooldown now e s) = ss_calls s" "ss_cooldown s \<le> ss_cooldown (set_cooldown now e s)"
  "ss_calls (fst (stream_call api now c s)) = ss_calls s @ [(now, c)]"
  "ss_cooldown (fst (stream_call api now c s)) = ss_cooldown s"
  "snd (stream_call api now c s) = api (length (ss_calls s))"
  by (auto simp: set_slot_def mark_dirty_def set_cooldown_def stream_call_def api_call_def split: slot.split option.split)

lemma set_cooldown_until: "telegram_retry_after e = Some d \<Longrightarrow> now + d \<le> ss_cooldown (set_cooldown now e s)"
  by (simp add: set_cooldown_def)

lemma not_cooling: "\<not> in_cooldown now s \<Longrightarrow> time_zero \<le> now \<Longrightarrow> ss_cooldown s \<le> now"
  by (auto simp: in_cooldown_def is_zero_time_def)

lemma stream_call_pair: "stream_call api now c s = (s1, r) \<Longrightarrow>
    ss_calls s1 = ss_calls s @ [(now, c)] \<and> ss_cooldown s1 = ss_cooldown s \<and> r = api (length (ss_calls s))"
  by (auto simp: stream_call_def api_call_def)

lemma upsert_cool:
  assumes "cool_inv api s" and "time_zero \<le> now"
  shows "cool_inv api (upsert_message api sl text now s)"
proof (cases "text = [] \<or> in_cooldown now s")
  case True
  then show ?thesis using assms(1) by (auto simp: upsert_message_def intro: cool_frame)
next
  case False
  then have n: "ss_cooldown s \<le> now" using not_cooling assms(2) by blast
  let ?m = "slot_msg sl s"
  show ?thesis
  proof (cases "sm_id ?m = 0")
    case True
    obtain s1 r where c: "stream_call api now (CallSend (ss_chat s) text True True) s = (s1, r)" by fastforce
    note p = stream_call_pair [OF c]
    show ?thesis
    proof (cases r)
      case (ReplyOk pid)
      with True False c have "upsert_message api sl text now s = set_slot sl \<lparr>sm_id = pid, sm_dirty = False, sm_last = now\<rparr> s1"
        by (simp add: upsert_message_def)
      moreover have "api (length (ss_calls s)) = ReplyOk pid" using p ReplyOk by simp
      ultimately show ?thesis using p by (intro cool_push [OF assms(1) n]) (auto simp: call_error_def)
    next
      case (ReplyErr e)
      with True False c have "upsert_message api sl text now s = mark_dirty sl (set_cooldown now e s1)"
        by (simp add: upsert_message_def)
      moreover have "api (length (ss_calls s)) = ReplyErr e" using p ReplyErr by simp
      ultimately show ?thesis using p slot_frames(6) [of s1 now e]
        by (intro cool_push [OF assms(1) n]) (auto simp: call_error_def set_cooldown_until)
    qed
  next
    case ne: False
    obtain s1 r where c: "stream_call api now (CallEdit (ss_chat s) (sm_id ?m) text True) s = (s1, r)" by fastforce
    note p = stream_call_pair [OF c]
    show ?thesis
    proof (cases "edit_result r")
      case None
      with ne False c have "upsert_message api sl text now s = set_slot sl \<lparr>sm_id = sm_id ?m, sm_dirty = False, sm_last = now\<rparr> s1"
        by (simp add: upsert_message_def)
      moreover have "edit_result (api (length (ss_calls s))) = None" using p None by simp
      ultimately show ?thesis using p by (intro cool_push [OF assms(1) n]) (auto simp: call_error_def)
    next
      case (Some e)
      with ne False c have "upsert_message api sl text now s = mark_dirty sl (set_cooldown now e s1)"
        by (simp add: upsert_message_def)
      moreover have "edit_result (api (length (ss_calls s))) = Some e" using p Some by simp
      ultimately show ?thesis using p slot_frames(6) [of s1 now e]
        by (intro cool_push [OF assms(1) n]) (auto simp: call_error_def set_cooldown_until)
    qed
  qed
qed

lemma flush_cool:
  assumes "cool_inv api s" and "time_zero \<le> now"
  shows "cool_inv api (flush_content api now force s)"
proof (cases "\<not> sm_dirty (ss_content s) \<or> \<not> force \<and> \<not> is_zero_time (sm_last (ss_content s)) \<and> now - sm_last (ss_content s) < content_flush_gap s
    \<or> render_content s = [] \<or> in_cooldown now s")
  case True
  then show ?thesis using assms(1) by (auto simp: flush_content_def Let_def intro: cool_frame)
next
  case False
  then have n: "ss_cooldown s \<le> now" using not_cooling assms(2) by blast
  show ?thesis
  proof (cases "ss_draft s")
    case nd: False
    then have "flush_content api now force s = upsert_message api ContentSlot (render_content s) now s"
      using False by (auto simp: flush_content_def Let_def)
    then show ?thesis using upsert_cool [OF assms] by simp
  next
    case True
    obtain s1 r where c: "stream_call api now (CallDraft (ss_chat s) (truncate_runes (render_content s) draft_max_runes)) s = (s1, r)"
      by fastforce
    note p = stream_call_pair [OF c]
    show ?thesis
    proof (cases r)
      case (ReplyOk i)
      with True False c have "flush_content api now force s = s1\<lparr>ss_content := (ss_content s)\<lparr>sm_dirty := False, sm_last := now\<rparr>\<rparr>"
        by (auto simp: flush_content_def Let_def)
      moreover have "api (length (ss_calls s)) = ReplyOk i" using p ReplyOk by simp
      ultimately show ?thesis using p by (intro cool_push [OF assms(1) n]) (auto simp: call_error_def)
    next
      case (ReplyErr e)
      with True False c have "flush_content api now force s = mark_dirty ContentSlot (set_cooldown now e s1)"
        by (auto simp: flush_content_def Let_def)
      moreover have "api (length (ss_calls s)) = ReplyErr e" using p ReplyErr by simp
      ultimately show ?thesis using p slot_frames(6) [of s1 now e]
        by (intro cool_push [OF assms(1) n]) (auto simp: call_error_def set_cooldown_until)
    qed
  qed
qed

lemma try_update_cool: "cool_inv api s \<Longrightarrow> time_zero \<le> now \<Longrightarrow> cool_inv api (try_update_status api dur now s)"
  by (auto simp: try_update_status_def update_card_def intro: upsert_cool cool_frame)

lemma tick_cool: "cool_inv api s \<Longrightarrow> time_zero \<le> now \<Longrightarrow> cool_inv api (tick_flush api dur now force s)"
  by (auto simp: tick_flush_def update_card_def Let_def intro!: upsert_cool flush_cool)

lemma handle_delta_cool: "cool_inv api s \<Longrightarrow> time_zero \<le> now \<Longrightarrow> cool_inv api (handle_delta api now d s)"
  by (auto simp: handle_delta_def Let_def split: option.split intro!: flush_cool elim: cool_frame)

lemma handle_event_cool:
  assumes "cool_inv api s" and "time_zero \<le> now"
  shows "cool_inv api (handle_event api dur parse now ev s)"
proof -
  have f: "cool_inv api t" if "ss_calls t = ss_calls s" "ss_cooldown t = ss_cooldown s" for t
    using cool_frame [OF assms(1) that] .
  show ?thesis
    using assms
    by (cases ev) (auto simp: handle_event_def Let_def intro!: try_update_cool handle_delta_cool intro: f split: option.split)
qed

definition input_time :: "stream_input \<Rightarrow> instant" where
  "input_time i = (case i of Tick now \<Rightarrow> now | StreamEvent now _ \<Rightarrow> now)"

lemma stream_step_cool: "cool_inv api s \<Longrightarrow> time_zero \<le> input_time i \<Longrightarrow> cool_inv api (stream_step api dur parse s i)"
  by (cases i) (simp_all add: stream_step_def input_time_def tick_cool handle_event_cool)

lemma stream_steps_cool:
  "cool_inv api s \<Longrightarrow> \<forall>i \<in> set inputs. time_zero \<le> input_time i \<Longrightarrow> cool_inv api (foldl (stream_step api dur parse) s inputs)"
  by (induction inputs arbitrary: s) (auto simp: stream_step_cool)

text \<open>A stream respects Telegram's rate limits: once a call has been answered with a time to wait, no edit, draft or
  status message of the stream is sent before that time has passed, whatever events and ticks arrive.\<close>

theorem stream_waits:
  assumes "\<forall>i \<in> set inputs. time_zero \<le> input_time i" and "time_zero \<le> end0"
  shows "waits api (ss_calls (tick_flush api dur end0 True
    (foldl (stream_step api dur parse) (new_stream_state start feedback chat) inputs)))"
proof -
  have "cool_inv api (new_stream_state start feedback chat)" by (simp add: cool_inv_def waits_def new_stream_state_def)
  then show ?thesis using tick_cool [OF stream_steps_cool [OF _ assms(1)] assms(2)] by (simp add: cool_inv_def)
qed

subsection \<open>The card is bounded\<close>

definition card_bounded :: "status_card \<Rightarrow> bool" where
  "card_bounded c \<longleftrightarrow> (\<forall>t \<in> set (ca_tools c). int (rune_count (tn_output t)) \<le> max_tool_output_runes)"

lemma append_output_bounded: "int (rune_count (tn_output (append_output text t))) \<le> max_tool_output_runes"
proof -
  have "valid_utf8 tail_marker" by code_simp
  then show ?thesis
    using truncate_runes_tail_long [of max_tool_output_runes "tn_output t @ text" tail_marker]
    by (auto simp: append_output_def Let_def max_tool_output_runes_def rune_count_def runes_def)
qed

lemma update_bounded:
  "card_bounded c \<Longrightarrow> (\<And>t. int (rune_count (tn_output t)) \<le> max_tool_output_runes \<Longrightarrow> int (rune_count (tn_output (f t))) \<le> max_tool_output_runes)
    \<Longrightarrow> (\<And>i k. map_of (ca_index c) i = Some k \<Longrightarrow> k < length (ca_tools c)) \<Longrightarrow> card_bounded (update_tool i f c)"
  by (auto simp: card_bounded_def update_tool_def split: option.split dest!: set_update_subset_insert [THEN subsetD])

definition card_inv :: "status_card \<Rightarrow> bool" where
  "card_inv c \<longleftrightarrow> card_bounded c \<and> (\<forall>i k. map_of (ca_index c) i = Some k \<longrightarrow> k < length (ca_tools c))"

lemma card_ops_inv:
  assumes "card_inv c"
  shows "card_inv (add_tool i name summary c)" "card_inv (finish_tool i failed c)" "card_inv (append_tool_output i text c)"
    "card_inv (set_iteration n c)"
proof -
  have u: "card_inv (update_tool i f c)"
    if "\<And>t. int (rune_count (tn_output t)) \<le> max_tool_output_runes \<Longrightarrow> int (rune_count (tn_output (f t))) \<le> max_tool_output_runes" for f
    using update_bounded [of c f i] assms that by (auto simp: card_inv_def update_tool_def split: option.split)
  show "card_inv (add_tool i name summary c)"
    using assms by (auto simp: card_inv_def card_bounded_def add_tool_def map_put_def update_conv max_tool_output_runes_def
        rune_count_def less_SucI)
  show "card_inv (finish_tool i failed c)" unfolding finish_tool_def by (rule u) simp
  show "card_inv (append_tool_output i text c)"
    using assms u [of "append_output text"] append_output_bounded by (simp add: append_tool_output_def)
  show "card_inv (set_iteration n c)" using assms by (simp add: card_inv_def card_bounded_def set_iteration_def)
qed

lemma slot_card [simp]:
  "ss_card (set_slot sl m s) = ss_card s" "ss_card (mark_dirty sl s) = ss_card s" "ss_card (set_cooldown now e s) = ss_card s"
  "ss_card (fst (stream_call api now c s)) = ss_card s"
  by (auto simp: set_slot_def mark_dirty_def set_cooldown_def stream_call_def api_call_def split: slot.split option.split)

lemma stream_call_card: "stream_call api now c s = (s1, r) \<Longrightarrow> ss_card s1 = ss_card s"
  by (auto simp: stream_call_def api_call_def)

lemma upsert_card [simp]: "ss_card (upsert_message api sl text now s) = ss_card s"
  by (auto simp: upsert_message_def split: option.split tg_reply.split prod.split dest!: stream_call_card)

lemma flush_card [simp]: "ss_card (flush_content api now force s) = ss_card s"
  by (auto simp: flush_content_def Let_def split: tg_reply.split prod.split dest!: stream_call_card)

lemma status_card_frames [simp]:
  "ss_card (try_update_status api dur now s) = ss_card s" "ss_card (tick_flush api dur now force s) = ss_card s"
  by (auto simp: try_update_status_def tick_flush_def update_card_def Let_def)

lemma stream_step_card: "card_inv (ss_card s) \<Longrightarrow> card_inv (ss_card (stream_step api dur parse s i))"
  by (cases i) (auto simp: stream_step_def handle_event_def handle_delta_def Let_def card_ops_inv
      split: tg_event.split option.split)

text \<open>The status card stays readable: however much output the tools of a turn stream, the card keeps at most 1,200
  characters of each.\<close>

theorem status_card_bounded:
  "t \<in> set (ca_tools (ss_card (foldl (stream_step api dur parse) (new_stream_state start feedback chat) inputs)))
    \<Longrightarrow> rune_count (tn_output t) \<le> 1200"
proof -
  have "card_inv (ss_card s) \<Longrightarrow> card_inv (ss_card (foldl (stream_step api dur parse) s inputs))" for s
    by (induction inputs arbitrary: s) (simp_all add: stream_step_card)
  moreover have "card_inv (ss_card (new_stream_state start feedback chat))"
    by (simp add: new_stream_state_def new_status_card_def card_inv_def card_bounded_def)
  ultimately show "t \<in> set (ca_tools (ss_card (foldl (stream_step api dur parse) (new_stream_state start feedback chat) inputs)))
      \<Longrightarrow> rune_count (tn_output t) \<le> 1200"
    by (auto simp: card_inv_def card_bounded_def max_tool_output_runes_def)
qed

subsection \<open>Witnesses\<close>

definition demo_outbound :: outbound_message where
  "demo_outbound = \<lparr>om_channel = ''telegram'', om_chat_id = ''7'', om_content = ''hi'', om_reply_to = [], om_media = [],
     om_metadata = None, om_content_blocks = []\<rparr>"

theorem telegram_send_complete_witness:
  "\<exists>chunks. telegram_send (\<lambda>n. ReplyOk 1) 5 True demo_outbound [] = (map (\<lambda>t. (5, CallSend 7 t True False)) chunks, None)
    \<and> concat chunks = to_telegram_html (om_content demo_outbound)
    \<and> (\<forall>t \<in> set chunks. t \<noteq> [] \<and> length t \<le> 4000)
    \<and> (valid_utf8 (to_telegram_html (om_content demo_outbound)) \<longrightarrow> (\<forall>t \<in> set chunks. valid_utf8 t))"
proof (rule telegram_send_complete)
  show "parse_int (om_chat_id demo_outbound) = Some 7" by code_simp
  show "placeholder_of demo_outbound = None" by (simp add: placeholder_of_def demo_outbound_def)
qed simp

definition demo_limit :: tg_error where
  "demo_limit = \<lparr>te_api = True, te_code = 429, te_retry = Some 3, te_text = []\<rparr>"

definition demo_inputs :: "stream_input list" where
  "demo_inputs = [StreamEvent 0 (ToolStart ''t1'' ''bash''), StreamEvent second (ToolOutput ''t1'' (Some ''ok'') False), Tick (2 * second),
     Tick (9 * second)]"

theorem stream_waits_witness:
  "waits (\<lambda>n. if n = 0 then ReplyErr demo_limit else ReplyOk 1)
    (ss_calls (tick_flush (\<lambda>n. if n = 0 then ReplyErr demo_limit else ReplyOk 1) (\<lambda>d. ''1s'') (10 * second) True
      (foldl (stream_step (\<lambda>n. if n = 0 then ReplyErr demo_limit else ReplyOk 1) (\<lambda>d. ''1s'') (\<lambda>_. None))
        (new_stream_state 0 ''debug'' 7) demo_inputs)))"
  by (rule stream_waits) (simp_all add: demo_inputs_def input_time_def time_zero_def second_def millisecond_def)

theorem status_card_bounded_witness:
  "rune_count (tn_output \<lparr>tn_name = ''bash'', tn_summary = [], tn_status = ToolRunning, tn_output = ''ok''\<rparr>) \<le> 1200"
proof (rule status_card_bounded)
  have "ca_tools (ss_card (foldl (stream_step (\<lambda>n. ReplyOk 1) (\<lambda>d. ''1s'') (\<lambda>_. None)) (new_stream_state 0 ''debug'' 7) demo_inputs))
      = [\<lparr>tn_name = ''bash'', tn_summary = [], tn_status = ToolRunning, tn_output = ''ok''\<rparr>]"
    by code_simp
  then show "\<lparr>tn_name = ''bash'', tn_summary = [], tn_status = ToolRunning, tn_output = ''ok''\<rparr> \<in> set (ca_tools (ss_card
      (foldl (stream_step (\<lambda>n. ReplyOk 1) (\<lambda>d. ''1s'') (\<lambda>_. None)) (new_stream_state 0 ''debug'' 7) demo_inputs)))"
    by simp
qed

end
