(* ===== verification/Skills.thy ===== *)
theory Skills
  imports Journal Config
begin

text \<open>
  \<open>internal/plugins/skill/file\<close>: the skills of the workspace, one \<open>SKILL.md\<close> per directory. YAML is an argument;
  a directory entry comes with what reading its \<open>SKILL.md\<close> gives.
\<close>

subsection \<open>One file\<close>

record skill_meta =
  sk_name :: string
  sk_description :: string
  sk_keywords :: "string list"

datatype skill_error =
    MissingFrontmatter
  | MissingClosing
  | InvalidSkillYaml
  | MissingSkillName string
  | SkillReadErr string
  | SkillParseErr string skill_error
  | SkillStatErr
  | SkillsNotDir
  | SkillsReadDirErr
  | DuplicateSkill string string string

definition byte_order_mark :: string where "byte_order_mark = [CHR 0xEF, CHR 0xBB, CHR 0xBF]"

definition separator_line :: "string \<Rightarrow> bool" where "separator_line l \<longleftrightarrow> trim_space l = ''---''"

definition parse_frontmatter :: "(string \<Rightarrow> 'm option) \<Rightarrow> string \<Rightarrow> skill_error + 'm \<times> string" where
  "parse_frontmatter yaml content =
     (let lns = split_char newline (trim_prefix content byte_order_mark) in
      if lns = [] \<or> \<not> separator_line (hd lns) then Inl MissingFrontmatter
      else case find_index separator_line (tl lns) of
          None \<Rightarrow> Inl MissingClosing
        | Some i \<Rightarrow>
            (case yaml (join [newline] (take i (tl lns))) of
               None \<Rightarrow> Inl InvalidSkillYaml
             | Some meta \<Rightarrow> Inr (meta, join [newline] (drop (Suc i) (tl lns)))))"

fun keep_new :: "string list \<Rightarrow> string list \<Rightarrow> string list" where
  "keep_new out [] = out"
| "keep_new out (k # ks) =
     (let n = to_lower (trim_space k) in
      if n = [] \<or> n \<in> set out then keep_new out ks else keep_new (out @ [n]) ks)"

definition normalize_keywords :: "string list \<Rightarrow> string list" where
  "normalize_keywords ks = sort (keep_new [] ks)"

record skill_reg =
  rg_name :: string
  rg_description :: string
  rg_keywords :: "string list"
  rg_body :: string
  rg_path :: string

text \<open>\<open>Inr None\<close> skips the directory.\<close>

definition parse_skill_file ::
  "(string \<Rightarrow> skill_meta option) \<Rightarrow> string \<Rightarrow> read_result \<Rightarrow> skill_error + skill_reg option" where
  "parse_skill_file yaml path r = (case r of
       ReadMissing \<Rightarrow> Inr None
     | ReadFails \<Rightarrow> Inl (SkillReadErr path)
     | ReadData content \<Rightarrow>
         (case parse_frontmatter yaml content of
            Inl InvalidSkillYaml \<Rightarrow> Inr None
          | Inl e \<Rightarrow> Inl (SkillParseErr path e)
          | Inr (meta, body) \<Rightarrow>
              (if trim_space (sk_name meta) = [] then Inl (MissingSkillName path)
               else Inr (Some \<lparr>rg_name = trim_space (sk_name meta), rg_description = trim_space (sk_description meta),
                      rg_keywords = normalize_keywords (sk_keywords meta), rg_body = trim_space body, rg_path = path\<rparr>))))"

subsection \<open>The directory\<close>

record skill_entry =
  se_name :: string
  se_is_dir :: bool
  se_skill :: read_result

definition skill_path :: "string \<Rightarrow> skill_entry \<Rightarrow> string" where
  "skill_path dir e = join_path [dir, se_name e, ''SKILL.md'']"

fun load_entries ::
  "(string \<Rightarrow> skill_meta option) \<Rightarrow> string \<Rightarrow> skill_reg list \<Rightarrow> skill_entry list \<Rightarrow> skill_error + skill_reg list" where
  "load_entries yaml dir regs [] = Inr regs"
| "load_entries yaml dir regs (e # es) =
     (if \<not> se_is_dir e then load_entries yaml dir regs es
      else case parse_skill_file yaml (skill_path dir e) (se_skill e) of
          Inl err \<Rightarrow> Inl err
        | Inr None \<Rightarrow> load_entries yaml dir regs es
        | Inr (Some reg) \<Rightarrow>
            (case find (\<lambda>r. rg_name r = rg_name reg) regs of
               Some prev \<Rightarrow> Inl (DuplicateSkill (rg_name reg) (rg_path reg) (rg_path prev))
             | None \<Rightarrow> load_entries yaml dir (regs @ [reg]) es))"

datatype skills_dir = NoSkillsDir | SkillsStatFails | SkillsIsFile | SkillsUnlistable | SkillsEntries "skill_entry list"

definition load_skills :: "(string \<Rightarrow> skill_meta option) \<Rightarrow> string \<Rightarrow> skills_dir \<Rightarrow> skill_error + skill_reg list" where
  "load_skills yaml dir0 fs =
     (let dir = trim_space dir0 in
      if dir = [] then Inr []
      else case fs of
          NoSkillsDir \<Rightarrow> Inr []
        | SkillsStatFails \<Rightarrow> Inl SkillStatErr
        | SkillsIsFile \<Rightarrow> Inl SkillsNotDir
        | SkillsUnlistable \<Rightarrow> Inl SkillsReadDirErr
        | SkillsEntries es \<Rightarrow> load_entries yaml dir [] (sort_key se_name es))"

text \<open>\<open>Plugin.Skills\<close>; \<open>fs\<close> is the file system at a path.\<close>

definition plugin_skills :: "(string \<Rightarrow> skill_meta option) \<Rightarrow> (string \<Rightarrow> skills_dir) \<Rightarrow> config option \<Rightarrow> skill_reg list" where
  "plugin_skills yaml fs cfg = (case cfg of
       None \<Rightarrow> []
     | Some c \<Rightarrow>
         (if \<not> sc_enabled (c_skills c) then []
          else let dir = (if sc_dir (c_skills c) = [] then join_path [ac_workspace (c_agent c), ''skills''] else sc_dir (c_skills c)) in
            case load_skills yaml dir (fs (trim_space dir)) of Inl _ \<Rightarrow> [] | Inr regs \<Rightarrow> regs))"

subsection \<open>Correctness\<close>

lemma keep_new: "distinct out \<Longrightarrow> distinct (keep_new out ks)
    \<and> set (keep_new out ks) = set out \<union> {n. n \<noteq> [] \<and> (\<exists>k \<in> set ks. n = to_lower (trim_space k))}"
  by (induction out ks rule: keep_new.induct) (auto simp: Let_def)

lemma normalize_keywords: "sorted (normalize_keywords ks) \<and> distinct (normalize_keywords ks)
    \<and> set (normalize_keywords ks) = {n. n \<noteq> [] \<and> (\<exists>k \<in> set ks. n = to_lower (trim_space k))}"
  using keep_new [of "[]" ks] by (simp add: normalize_keywords_def)

definition good_skill :: "string \<Rightarrow> skill_entry list \<Rightarrow> skill_reg \<Rightarrow> bool" where
  "good_skill dir es r \<longleftrightarrow> rg_name r \<noteq> [] \<and> trimmed (rg_name r) \<and> sorted (rg_keywords r) \<and> distinct (rg_keywords r)
     \<and> (\<exists>e \<in> set es. se_is_dir e \<and> rg_path r = skill_path dir e)"

lemma parse_skill_file_good:
  "parse_skill_file yaml path r = Inr (Some reg) \<Longrightarrow> rg_name reg \<noteq> [] \<and> trimmed (rg_name reg)
    \<and> sorted (rg_keywords reg) \<and> distinct (rg_keywords reg) \<and> rg_path reg = path"
  using normalize_keywords
  by (auto simp: parse_skill_file_def split: read_result.splits sum.splits prod.splits if_splits skill_error.splits)

lemma load_entries_good:
  assumes "load_entries yaml dir regs es = Inr out" and "distinct (map rg_name regs)" and "set es \<subseteq> set all"
    and "\<forall>r \<in> set regs. good_skill dir all r"
  shows "distinct (map rg_name out) \<and> (\<forall>r \<in> set out. good_skill dir all r) \<and> set regs \<subseteq> set out"
  using assms
proof (induction yaml dir regs es rule: load_entries.induct)
  case (2 yaml dir regs e es)
  show ?case
  proof (cases "se_is_dir e \<and> (\<exists>reg. parse_skill_file yaml (skill_path dir e) (se_skill e) = Inr (Some reg))")
    case False
    then have "load_entries yaml dir regs es = Inr out"
      using "2.prems"(1) by (auto split: if_splits sum.splits option.splits)
    with 2 False show ?thesis by (auto split: if_splits sum.splits option.splits)
  next
    case True
    then obtain reg where reg: "se_is_dir e" "parse_skill_file yaml (skill_path dir e) (se_skill e) = Inr (Some reg)" by blast
    then have n: "find (\<lambda>r. rg_name r = rg_name reg) regs = None" and l: "load_entries yaml dir (regs @ [reg]) es = Inr out"
      using "2.prems"(1) by (auto split: option.splits)
    have "distinct (map rg_name (regs @ [reg]))" using n "2.prems"(2) by (auto simp: find_None_iff)
    moreover have "good_skill dir all reg"
      using parse_skill_file_good [OF reg(2)] reg(1) "2.prems"(3) by (auto simp: good_skill_def)
    ultimately have "distinct (map rg_name out) \<and> (\<forall>r \<in> set out. good_skill dir all r) \<and> set (regs @ [reg]) \<subseteq> set out"
      using "2.IH"(3) [OF _ reg(2)] reg(1) n l "2.prems"(3,4) by simp
    then show ?thesis by simp
  qed
qed simp

text \<open>What the loader registers is well formed: every skill has a name of its own, trimmed and not empty, keywords
  that are sorted without repetition, and comes from the \<open>SKILL.md\<close> of a directory of the skills directory.\<close>

theorem loaded_skills_good:
  assumes "load_skills yaml dir (SkillsEntries es) = Inr regs"
  shows "distinct (map rg_name regs) \<and> (\<forall>r \<in> set regs. rg_name r \<noteq> [] \<and> trimmed (rg_name r)
    \<and> sorted (rg_keywords r) \<and> distinct (rg_keywords r)
    \<and> (\<exists>e \<in> set es. se_is_dir e \<and> rg_path r = skill_path (trim_space dir) e))"
proof (cases "trim_space dir = []")
  case False
  then have "load_entries yaml (trim_space dir) [] (sort_key se_name es) = Inr regs"
    using assms by (simp add: load_skills_def)
  from load_entries_good [OF this, of es] show ?thesis by (auto simp: good_skill_def)
qed (use assms in \<open>simp add: load_skills_def\<close>)

lemma split_char_append: "c \<notin> set u \<Longrightarrow> split_char c (u @ c # v) = u # split_char c v"
  by (induction u) auto

lemma split_char_join: "ls \<noteq> [] \<Longrightarrow> \<forall>l \<in> set ls. c \<notin> set l \<Longrightarrow> split_char c (join [c] ls @ c # v) = ls @ split_char c v"
  by (induction "[c]" ls rule: join.induct) (simp_all add: split_char_append)

text \<open>The front matter is split where it was joined: a file made of \<open>---\<close>, the lines of a YAML text none of which is
  a separator, \<open>---\<close> and a body is parsed into exactly that text and that body.\<close>

theorem frontmatter_parts:
  assumes "ls \<noteq> []" and "\<forall>l \<in> set ls. newline \<notin> set l \<and> \<not> separator_line l" and "yaml (join [newline] ls) = Some meta"
  shows "parse_frontmatter yaml (''---'' @ newline # join [newline] ls @ newline # ''---'' @ newline # body) = Inr (meta, body)"
proof -
  let ?c = "''---'' @ newline # join [newline] ls @ newline # ''---'' @ newline # body"
  have b: "trim_prefix ?c byte_order_mark = ?c" by (simp add: trim_prefix_def byte_order_mark_def)
  have n: "newline \<notin> set ''---''" by (simp add: newline_def)
  have d: "separator_line ''---''" by (simp add: separator_line_def) code_simp
  have s: "split_char newline ?c = ''---'' # ls @ ''---'' # split_char newline body"
    using split_char_append [OF n] split_char_join [OF assms(1), of newline] assms(2) by (simp only:) simp
  have "find_index separator_line (ls @ ''---'' # split_char newline body) = Some (length ls)"
    using assms(2) d by (induction ls) auto
  then show ?thesis
    using d assms(3) unfolding parse_frontmatter_def b s Let_def by (simp add: join_split_char)
qed

text \<open>One \<open>SKILL.md\<close> without front matter hides every skill, while one with invalid YAML hides only itself.\<close>

lemma bad_skill_hides_all:
  assumes "se_is_dir e" and "se_skill e = ReadData content" and "parse_frontmatter yaml content = Inl MissingFrontmatter"
    and "e \<in> set es"
  shows "\<exists>err. load_entries yaml dir regs es = Inl err"
  using assms(4)
proof (induction es arbitrary: regs)
  case (Cons x xs)
  show ?case
  proof (cases "x = e")
    case True
    then show ?thesis using assms(1-3) by (simp add: parse_skill_file_def)
  next
    case False
    then show ?thesis using Cons by (auto split: sum.split option.split)
  qed
qed simp

definition sample_yaml :: "string \<Rightarrow> skill_meta option" where
  "sample_yaml s = (if s = ''name: a'' then Some \<lparr>sk_name = '' a '', sk_description = [], sk_keywords = [''B'', ''b '', ''a'']\<rparr> else None)"

definition sample_skill :: string where
  "sample_skill = ''---'' @ newline # ''name: a'' @ newline # ''---'' @ newline # ''Do it.''"

definition sample_entry :: skill_entry where
  "sample_entry = \<lparr>se_name = ''one'', se_is_dir = True, se_skill = ReadData sample_skill\<rparr>"

theorem loaded_skills_good_witness:
  "\<exists>r. load_skills sample_yaml ''/s'' (SkillsEntries [sample_entry]) = Inr [r] \<and> distinct (rg_keywords r)"
proof -
  have l: "load_skills sample_yaml ''/s'' (SkillsEntries [sample_entry])
      = Inr [\<lparr>rg_name = ''a'', rg_description = [], rg_keywords = [''a'', ''b''], rg_body = ''Do it.'', rg_path = ''/s/one/SKILL.md''\<rparr>]"
    by code_simp
  from loaded_skills_good [OF l] l show ?thesis by simp
qed

theorem frontmatter_parts_witness:
  "parse_frontmatter sample_yaml sample_skill = Inr (\<lparr>sk_name = '' a '', sk_description = [], sk_keywords = [''B'', ''b '', ''a'']\<rparr>, ''Do it.'')"
proof -
  let ?m = "\<lparr>sk_name = '' a '', sk_description = [], sk_keywords = [''B'', ''b '', ''a'']\<rparr>"
  have "\<forall>l \<in> set [''name: a'']. newline \<notin> set l \<and> \<not> separator_line l" by code_simp
  moreover have "sample_yaml (join [newline] [''name: a'']) = Some ?m" by code_simp
  ultimately show ?thesis using frontmatter_parts [of "[''name: a'']" sample_yaml ?m "''Do it.''"] by (simp add: sample_skill_def)
qed

end
