(* ===== verification/TelegramCommands.thy ===== *)
theory TelegramCommands
  imports TelegramSend Skills
begin

text \<open>
  \<open>internal/plugins/channel/telegram\<close>: \<open>slash.go\<close>, the commands of the workspace, and the menu and replies of
  \<open>slash_bot.go\<close>. A Go map is an association list without duplicate keys; every use of one sorts what it reads.
\<close>

subsection \<open>Command files\<close>

record command_meta =
  cm_command :: string
  cm_description :: string
  cm_type :: string
  cm_session :: string
  cm_handler :: string
  cm_passthrough :: bool
  cm_streaming :: "bool option"

record bot_command =
  bc_name :: string
  bc_description :: string
  bc_type :: command_kind
  bc_session :: session_mode
  bc_prompt :: string
  bc_handler :: string
  bc_passthrough :: bool
  bc_streaming :: bool

datatype command_error =
    CommandReadErr string
  | CommandParseErr string skill_error
  | MissingCommandName string
  | UnsupportedType string string
  | UnsupportedSession string string
  | LocalPassthrough string
  | LocalSession string
  | AgentPassthrough string
  | SlashStatErr
  | SlashNotDir
  | SlashReadDirErr

definition command_type :: "string \<Rightarrow> string + command_kind" where
  "command_type t = (if t = [] then Inr CommandKindAgent else command_kind_parse (trim_space t))"

definition command_session :: "string \<Rightarrow> string + session_mode" where
  "command_session t = (if t = [] then Inr SessionModeCurrent else session_mode_parse (trim_space t))"

definition command_of :: "string \<Rightarrow> command_meta \<Rightarrow> string \<Rightarrow> command_error + bot_command" where
  "command_of path meta body =
     (let name = trim_space (cm_command meta) in
      if name = [] then Inl (MissingCommandName path)
      else case command_type (cm_type meta) of
          Inl _ \<Rightarrow> Inl (UnsupportedType path (cm_type meta))
        | Inr kind \<Rightarrow>
            (case command_session (cm_session meta) of
               Inl _ \<Rightarrow> Inl (UnsupportedSession path (cm_session meta))
             | Inr mode \<Rightarrow>
                 (if kind = CommandKindLocal \<and> cm_passthrough meta then Inl (LocalPassthrough path)
                  else if kind = CommandKindLocal \<and> mode \<noteq> SessionModeCurrent then Inl (LocalSession path)
                  else if kind = CommandKindAgent \<and> cm_passthrough meta then Inl (AgentPassthrough path)
                  else Inr \<lparr>bc_name = name, bc_description = trim_space (cm_description meta), bc_type = kind, bc_session = mode,
                      bc_prompt = trim_space body, bc_handler = trim_space (cm_handler meta), bc_passthrough = cm_passthrough meta,
                      bc_streaming = (case cm_streaming meta of None \<Rightarrow> True | Some b \<Rightarrow> b)\<rparr>)))"

text \<open>\<open>parseFrontmatter\<close> is the one of the skills; \<open>Inr None\<close> skips the file.\<close>

definition parse_command_front :: "(string \<Rightarrow> command_meta option) \<Rightarrow> string \<Rightarrow> skill_error + command_meta \<times> string" where
  "parse_command_front yaml content = parse_frontmatter yaml content"

definition parse_command_file ::
  "(string \<Rightarrow> command_meta option) \<Rightarrow> string \<Rightarrow> read_result \<Rightarrow> command_error + bot_command option" where
  "parse_command_file yaml path r = (case r of
       ReadMissing \<Rightarrow> Inr None
     | ReadFails \<Rightarrow> Inl (CommandReadErr path)
     | ReadData content \<Rightarrow>
         (case parse_command_front yaml content of
            Inl e \<Rightarrow> Inl (CommandParseErr path e)
          | Inr (meta, body) \<Rightarrow>
              (case command_of path meta body of Inl e \<Rightarrow> Inl e | Inr c \<Rightarrow> Inr (Some c))))"

text \<open>An entry of the directory: its name, whether it is a directory, and what reading it gives.\<close>

type_synonym slash_entry = "string \<times> bool \<times> read_result"

datatype slash_dir = SlashDirMissing | SlashStatFails | SlashIsFile | SlashUnlistable | SlashEntries "slash_entry list"

fun parse_entries ::
  "(string \<Rightarrow> command_meta option) \<Rightarrow> string \<Rightarrow> slash_entry list \<Rightarrow> command_error + bot_command list" where
  "parse_entries yaml dir [] = Inr []"
| "parse_entries yaml dir ((name, isDir, r) # es) =
     (if isDir \<or> \<not> suffix ''.md'' name then parse_entries yaml dir es
      else case parse_command_file yaml (join_path [dir, name]) r of
          Inl e \<Rightarrow> Inl e
        | Inr None \<Rightarrow> parse_entries yaml dir es
        | Inr (Some c) \<Rightarrow> (case parse_entries yaml dir es of Inl e \<Rightarrow> Inl e | Inr cs \<Rightarrow> Inr (c # cs)))"

definition load_commands ::
  "(string \<Rightarrow> command_meta option) \<Rightarrow> (string \<Rightarrow> slash_dir) \<Rightarrow> string \<Rightarrow> command_error + bot_command list" where
  "load_commands yaml disk dir0 =
     (let dir = trim_space dir0 in
      if dir = [] then Inr []
      else case disk dir of
          SlashDirMissing \<Rightarrow> Inr []
        | SlashStatFails \<Rightarrow> Inl SlashStatErr
        | SlashIsFile \<Rightarrow> Inl SlashNotDir
        | SlashUnlistable \<Rightarrow> Inl SlashReadDirErr
        | SlashEntries es \<Rightarrow> parse_entries yaml dir (sort_key fst es))"

subsection \<open>The channel's commands\<close>

type_synonym commands = "(string \<times> bot_command) list"
type_synonym pipeline_slashes = "(string \<times> string) list"

definition telegram_root :: "string \<Rightarrow> string \<Rightarrow> string" where
  "telegram_root rootDir workspace =
     (if trim_space rootDir \<noteq> [] then trim_space rootDir
      else if trim_space workspace = [] then []
      else join_path [workspace, ''.telegram''])"

fun add_pipeline_slashes :: "slash_definition list \<Rightarrow> pipeline_slashes \<Rightarrow> pipeline_slashes" where
  "add_pipeline_slashes [] m = m"
| "add_pipeline_slashes (d # ds) m =
     (let name = to_lower (trim_space (sd_name d)) in
      add_pipeline_slashes ds (if name = [] \<or> name = ''new'' then m else map_put name (sd_description d) m))"

definition pipeline_slashes_of :: "slash_definition list \<Rightarrow> pipeline_slashes" where
  "pipeline_slashes_of defs = add_pipeline_slashes defs []"

text \<open>A directory that cannot be loaded leaves no command of the workspace.\<close>

definition load_slash_commands ::
  "(string \<Rightarrow> command_meta option) \<Rightarrow> (string \<Rightarrow> slash_dir) \<Rightarrow> string \<Rightarrow> string \<Rightarrow> commands" where
  "load_slash_commands yaml disk rootDir workspace =
     (let rdir = telegram_root rootDir workspace in
      if rdir = [] then []
      else case load_commands yaml disk (join_path [rdir, ''slashes'']) of
          Inl _ \<Rightarrow> []
        | Inr cmds \<Rightarrow> fold (\<lambda>c. map_put (bc_name c) c) cmds [])"

subsection \<open>The menu\<close>

definition one_line :: "string \<Rightarrow> string" where
  "one_line s = map (\<lambda>c. if c = CHR 0x0D \<or> c = newline then CHR '' '' else c) s"

definition command_description :: "string \<Rightarrow> string \<Rightarrow> string" where
  "command_description name desc0 =
     (let desc1 = trim_space (one_line desc0);
          desc = (if desc1 = [] then ''Run /'' @ name else desc1) in
      if 256 < length desc then take 256 desc else desc)"

definition menu_byte :: "char \<Rightarrow> bool" where
  "menu_byte c \<longleftrightarrow> CHR ''a'' \<le> c \<and> c \<le> CHR ''z'' \<or> CHR ''0'' \<le> c \<and> c \<le> CHR ''9'' \<or> c = CHR ''_''"

definition valid_bot_command :: "string \<Rightarrow> bool" where
  "valid_bot_command name \<longleftrightarrow> name \<noteq> [] \<and> length name \<le> 32 \<and> list_all menu_byte name"

definition menu_descriptions :: "pipeline_slashes \<Rightarrow> commands \<Rightarrow> (string \<times> string) list" where
  "menu_descriptions pipe cmds =
     map_put ''new'' ''Start a fresh session''
       (fold (\<lambda>(name, c) m. if trim_space name = [] then m else map_put name (command_description name (bc_description c)) m) cmds
         (fold (\<lambda>(name, desc). map_put name (command_description name desc)) pipe []))"

definition registered_commands :: "pipeline_slashes \<Rightarrow> commands \<Rightarrow> (string \<times> string) list" where
  "registered_commands pipe cmds =
     (let m = menu_descriptions pipe cmds in
      map (\<lambda>name. (name, command_description name (the (map_of m name)))) (filter valid_bot_command (sort (map fst m))))"

subsection \<open>What a command answers\<close>

definition help_lines :: "commands \<Rightarrow> string list" where
  "help_lines cmds =
     sort (''/new - Start a fresh session'' # map (\<lambda>(name, c). ''/'' @ name
       @ (if trim_space (bc_description c) \<noteq> [] then '' - '' @ trim_space (bc_description c) else [])) cmds)"

text \<open>The handler that is run: \<open>exec path args env\<close> gives the error, if any, and the output.\<close>

definition handler_path :: "string \<Rightarrow> string \<Rightarrow> string" where
  "handler_path rdir handler = (if prefix ''/'' handler then handler else join_path [rdir, ''handlers'', handler])"

type_synonym handler_exec = "string \<Rightarrow> string list \<Rightarrow> (string \<times> string) list \<Rightarrow> string option \<times> string"

definition execute_handler :: "handler_exec \<Rightarrow> string \<Rightarrow> string \<Rightarrow> string \<Rightarrow> string \<Rightarrow> string \<Rightarrow> string" where
  "execute_handler exec rdir workspace handler args sessionID =
     (case exec (handler_path rdir handler) [sessionID, args] [(''WORKSPACE'', workspace), (''SESSION_ID'', sessionID)] of
        (Some e, output) \<Rightarrow> encode_rune 10060 @ '' Handler failed: '' @ e @ newline # output
      | (None, output) \<Rightarrow> output)"

definition execute_local :: "handler_exec \<Rightarrow> string \<Rightarrow> string \<Rightarrow> commands \<Rightarrow> bot_command \<Rightarrow> string \<Rightarrow> int \<Rightarrow> string" where
  "execute_local exec rdir workspace cmds cmd args nanos =
     (let sid = sid_string (new_sid KindIsolated ''telegram'' [] nanos id) in
      if bc_name cmd = ''status'' then encode_rune 9989 @ '' Bot is running''
      else if bc_name cmd = ''help'' then join [newline] (''Available commands:'' # help_lines cmds)
      else if bc_handler cmd \<noteq> [] then execute_handler exec rdir workspace (bc_handler cmd) args sid
      else if bc_prompt cmd \<noteq> [] then bc_prompt cmd
      else encode_rune 9989 @ '' Done'')"

definition compose_agent_content :: "bot_command \<Rightarrow> string \<Rightarrow> string \<Rightarrow> string" where
  "compose_agent_content cmd cmdName args =
     (if bc_passthrough cmd then ''/'' @ cmdName @ (if args \<noteq> [] then '' '' @ args else [])
      else
        let prompt = trim_space (bc_prompt cmd) in
        if args = [] then prompt
        else if prompt = [] then args
        else prompt @ [newline, newline] @ ''User input:'' @ [newline] @ args)"

subsection \<open>Loaded commands\<close>

definition good_command :: "bot_command \<Rightarrow> bool" where
  "good_command c \<longleftrightarrow> bc_name c \<noteq> [] \<and> trim_space (bc_name c) = bc_name c
     \<and> (case bc_type c of
          CommandKindLocal \<Rightarrow> \<not> bc_passthrough c \<and> bc_session c = SessionModeCurrent
        | CommandKindAgent \<Rightarrow> \<not> bc_passthrough c
        | CommandKindPipeline \<Rightarrow> True
        | CommandKindOther _ \<Rightarrow> False)"

lemma command_type_cases:
  "command_type t = Inr k \<Longrightarrow> k = CommandKindLocal \<or> k = CommandKindAgent \<or> k = CommandKindPipeline"
  by (auto simp: command_type_def command_kind_parse_def Let_def split: if_splits)

lemma command_of_good: "command_of path meta body = Inr c \<Longrightarrow> good_command c"
  by (auto simp: command_of_def good_command_def Let_def split: sum.splits if_splits command_kind.split dest: command_type_cases)

lemma parse_command_file_good: "parse_command_file yaml path r = Inr (Some c) \<Longrightarrow> good_command c"
  by (auto simp: parse_command_file_def split: read_result.splits sum.splits dest: command_of_good)

lemma parse_entries_good: "parse_entries yaml dir es = Inr cs \<Longrightarrow> list_all good_command cs"
  by (induction yaml dir es arbitrary: cs rule: parse_entries.induct)
    (auto split: if_splits sum.splits option.splits dest: parse_command_file_good)

text \<open>Whatever lies in the directory \<open>slashes\<close>, a command that is loaded has a trimmed name that is not empty, a
  kind the channel can dispatch, no pass-through unless it is a pipeline command, and, when it is local, the
  session of the chat.\<close>

theorem loaded_commands_good:
  assumes "load_commands yaml disk dir = Inr cs"
  shows "list_all good_command cs"
  using assms by (auto simp: load_commands_def Let_def dest: parse_entries_good split: if_splits slash_dir.splits)

text \<open>One file that cannot be parsed hides every command of the workspace.\<close>

lemma bad_command_hides_all:
  assumes "parse_command_file yaml (join_path [dir, name]) r = Inl e" and "suffix ''.md'' name"
  shows "\<exists>e. parse_entries yaml dir (es @ (name, False, r) # fs) = Inl e"
proof (induction es)
  case Nil
  with assms show ?case by simp
next
  case (Cons x es)
  then show ?case by (cases x) (auto split: sum.split option.split)
qed

subsection \<open>The menu, correct\<close>

lemma distinct_map_put: "distinct (map fst m) \<Longrightarrow> distinct (map fst (map_put k v m))"
  by (simp add: map_put_def distinct_update)

lemma distinct_fold_put:
  "(\<And>x m. distinct (map fst m) \<Longrightarrow> distinct (map fst (f x m))) \<Longrightarrow> distinct (map fst m) \<Longrightarrow> distinct (map fst (fold f xs m))"
  by (induction xs arbitrary: m) auto

lemma menu_descriptions_distinct: "distinct (map fst (menu_descriptions pipe cmds))"
  unfolding menu_descriptions_def
  by (intro distinct_map_put distinct_fold_put) (auto intro: distinct_map_put)

lemma menu_has_new: "''new'' \<in> set (map fst (menu_descriptions pipe cmds))"
  by (simp add: menu_descriptions_def map_put_def update_keys image_set [symmetric] del: image_set)

lemma command_description_bounds: "command_description name desc \<noteq> [] \<and> length (command_description name desc) \<le> 256"
  by (auto simp: command_description_def Let_def)

definition good_menu :: "(string \<times> string) list \<Rightarrow> bool" where
  "good_menu cs \<longleftrightarrow> sorted (map fst cs) \<and> distinct (map fst cs) \<and> ''new'' \<in> set (map fst cs)
     \<and> list_all (\<lambda>(name, desc). valid_bot_command name \<and> desc \<noteq> [] \<and> length desc \<le> 256) cs"

text \<open>The menu the channel registers is one the Bot API takes: whatever names and descriptions the pipeline and the
  workspace give, the entries are sorted, no name occurs twice, every name has 1 to 32 bytes of \<open>[a-z0-9_]\<close>, every
  description 1 to 256 bytes, and \<open>/new\<close> is always there.\<close>

theorem menu_accepted: "good_menu (registered_commands pipe cmds)"
proof -
  let ?ns = "filter valid_bot_command (sort (map fst (menu_descriptions pipe cmds)))"
  have n: "map fst (registered_commands pipe cmds) = ?ns" by (simp add: registered_commands_def Let_def comp_def)
  have "valid_bot_command ''new''" by code_simp
  then have "''new'' \<in> set ?ns" using menu_has_new by simp
  moreover have "sorted ?ns" using sorted_filter [of id "sort (map fst (menu_descriptions pipe cmds))"] by simp
  moreover have "distinct ?ns" using menu_descriptions_distinct by simp
  moreover have "list_all (\<lambda>(name, desc). valid_bot_command name \<and> desc \<noteq> [] \<and> length desc \<le> 256) (registered_commands pipe cmds)"
    using command_description_bounds by (auto simp: registered_commands_def Let_def list_all_iff)
  ultimately show ?thesis unfolding good_menu_def n by simp
qed

text \<open>A description is cut at a byte: a character of several bytes can be cut in the middle.\<close>

lemma description_cut_in_character:
  "\<not> valid_utf8 (command_description ''x'' (replicate 255 (CHR ''a'') @ encode_rune 233))"
  by code_simp

subsection \<open>Witness\<close>

definition demo_command_yaml :: "string \<Rightarrow> command_meta option" where
  "demo_command_yaml s = (if s = ''command: ping'' then
     Some \<lparr>cm_command = ''ping'', cm_description = ''says pong'', cm_type = ''local'', cm_session = [], cm_handler = [],
       cm_passthrough = False, cm_streaming = None\<rparr> else None)"

definition demo_slash_disk :: "string \<Rightarrow> slash_dir" where
  "demo_slash_disk dir = (if dir = ''/w/slashes'' then
     SlashEntries [(''ping.md'', False, ReadData (''---'' @ newline # ''command: ping'' @ newline # ''---'' @ newline # ''pong''))]
     else SlashDirMissing)"

definition demo_ping :: bot_command where
  "demo_ping = \<lparr>bc_name = ''ping'', bc_description = ''says pong'', bc_type = CommandKindLocal, bc_session = SessionModeCurrent,
     bc_prompt = ''pong'', bc_handler = [], bc_passthrough = False, bc_streaming = True\<rparr>"

theorem loaded_commands_good_witness:
  "load_commands demo_command_yaml demo_slash_disk ''/w/slashes'' = Inr [demo_ping] \<and> list_all good_command [demo_ping]"
proof
  show r: "load_commands demo_command_yaml demo_slash_disk ''/w/slashes'' = Inr [demo_ping]" by code_simp
  show "list_all good_command [demo_ping]" by (rule loaded_commands_good [OF r])
qed

end
