(* ===== verification/Paths.thy ===== *)
theory Paths
  imports PostAction
begin

text \<open>
  Paths of \<open>filepath.Clean\<close> and \<open>filepath.Join\<close> as \<open>PostAction\<close> defines them: cleaning twice is cleaning once, and joining
  a plain name to a clean directory appends it. What is written below a directory stays below it.
\<close>

definition plain_elem :: "string \<Rightarrow> bool" where
  "plain_elem c \<longleftrightarrow> c \<noteq> [] \<and> c \<noteq> ''.'' \<and> c \<noteq> ''..'' \<and> CHR ''/'' \<notin> set c"

lemma clean_components_snoc:
  "plain_elem c \<Longrightarrow> clean_components r stk (cs @ [c]) = clean_components r stk cs @ [c]"
  by (induction r stk cs rule: clean_components.induct) (auto simp: plain_elem_def split: list.split)

text \<open>The components that can be on the stack: plain names above \<open>..\<close>, which a rooted path has not.\<close>

fun good_stack :: "bool \<Rightarrow> string list \<Rightarrow> bool" where
  "good_stack r [] = True"
| "good_stack r (c # cs) = (if c = ''..'' then \<not> r \<and> set cs \<subseteq> {''..''} else plain_elem c \<and> good_stack r cs)"

lemma good_stack_dots: "\<not> r \<Longrightarrow> set cs \<subseteq> {''..''} \<Longrightarrow> good_stack r cs"
  by (induction cs) auto

lemma good_stack_tl: "good_stack r (c # cs) \<Longrightarrow> good_stack r cs"
  by (auto simp: good_stack_dots split: if_splits)

lemma clean_components_good:
  "good_stack r stk \<Longrightarrow> \<forall>c \<in> set cs. CHR ''/'' \<notin> set c \<Longrightarrow> good_stack r (rev (clean_components r stk cs))"
proof (induction r stk cs rule: clean_components.induct)
  case (2 r stk c cs)
  show ?case
  proof (cases "c = ''..'' \<and> stk \<noteq> []")
    case True
    then obtain d ds where s: "stk = d # ds" by (cases stk) auto
    show ?thesis using 2 True s good_stack_tl [of r d ds] by (cases "d = ''..''") auto
  next
    case False
    then show ?thesis using 2 by (auto simp: plain_elem_def)
  qed
qed simp

lemma clean_components_stack: "good_stack r stk \<Longrightarrow> clean_components r [] (rev stk @ cs) = clean_components r stk cs"
proof (induction stk arbitrary: cs)
  case (Cons c stk)
  have "clean_components r [] (rev (c # stk) @ cs) = clean_components r stk (c # cs)"
    using Cons.IH [of "c # cs"] good_stack_tl [OF Cons.prems] by simp
  also have "\<dots> = clean_components r (c # stk) cs"
    using Cons.prems by (cases stk) (auto simp: plain_elem_def split: if_splits)
  finally show ?case .
qed simp

lemma split_char_cat: "split_char c (s @ c # u) = split_char c s @ split_char c u"
  by (induction s) (auto split: list.split)

lemma split_char_free: "c \<notin> set s \<Longrightarrow> split_char c s = [s]"
  by (induction s) auto

lemma split_char_parts: "x \<in> set (split_char c s) \<Longrightarrow> c \<notin> set x"
  by (induction s arbitrary: x) (auto split: if_splits list.splits)

lemma split_join_parts: "ls \<noteq> [] \<Longrightarrow> \<forall>l \<in> set ls. c \<notin> set l \<Longrightarrow> split_char c (join [c] ls) = ls"
  by (induction "[c]" ls rule: join.induct) (simp_all add: split_char_free split_char_cat)

lemma join_snoc: "ls \<noteq> [] \<Longrightarrow> join sep (ls @ [x]) = join sep ls @ sep @ x"
  by (induction sep ls rule: join.induct) simp_all

lemma good_stack_parts: "good_stack r stk \<Longrightarrow> c \<in> set stk \<Longrightarrow> c \<noteq> [] \<and> CHR ''/'' \<notin> set c"
  by (induction stk) (auto simp: plain_elem_def split: if_splits)

text \<open>A clean path: its root and its components.\<close>

definition path_of :: "bool \<Rightarrow> string list \<Rightarrow> string" where
  "path_of r comps = (if r then CHR ''/'' # join ''/'' comps else join ''/'' comps)"

lemma join_head: "ls \<noteq> [] \<Longrightarrow> hd ls \<noteq> [] \<Longrightarrow> join sep ls \<noteq> [] \<and> hd (join sep ls) = hd (hd ls)"
  by (induction sep ls rule: join.induct) auto

lemma path_of_rooted:
  assumes "good_stack r (rev comps)" and "comps \<noteq> []"
  shows "prefix ''/'' (path_of r comps) = r" and "path_of r comps \<noteq> []"
proof -
  have "hd comps \<noteq> [] \<and> CHR ''/'' \<notin> set (hd comps)" using good_stack_parts [OF assms(1), of "hd comps"] assms(2) by simp
  then have j: "join ''/'' comps \<noteq> []" "hd (join ''/'' comps) \<noteq> CHR ''/''"
    using join_head [OF assms(2), of "''/''"] by (auto simp: hd_in_set dest: arg_cong [of _ _ "\<lambda>x. x \<in> set (hd comps)"])
  then show "prefix ''/'' (path_of r comps) = r" "path_of r comps \<noteq> []"
    by (cases "join ''/'' comps"; simp add: path_of_def)+
qed

lemma clean_path_parts:
  assumes "prefix ''/'' p = r" and "clean_components r [] (split_char CHR ''/'' p) = comps" and "p \<noteq> []" and "hd comps \<noteq> []"
    and "comps \<noteq> []"
  shows "clean_path p = path_of r comps"
  using assms(1-3) join_head [OF assms(5,4), of "''/''"] by (simp add: clean_path_def path_of_def)

lemma clean_path_of:
  assumes "good_stack r (rev comps)" and "comps \<noteq> []" and "plain_elem c"
  shows "clean_path (path_of r comps @ CHR ''/'' # c) = path_of r comps @ CHR ''/'' # c"
proof -
  let ?p = "path_of r comps"
  have free: "\<forall>l \<in> set comps. CHR ''/'' \<notin> set l" using good_stack_parts [OF assms(1)] by auto
  have r: "prefix ''/'' (?p @ CHR ''/'' # c) = r" using path_of_rooted [OF assms(1,2)] by (cases ?p) auto
  have s: "split_char CHR ''/'' (?p @ CHR ''/'' # c) = (if r then [[]] else []) @ comps @ [c]"
    using split_join_parts [OF assms(2) free] assms(3)
    by (auto simp: split_char_cat split_char_free path_of_def plain_elem_def)
  have "clean_components r [] (comps @ [c]) = comps @ [c]"
    using clean_components_stack [OF assms(1), of "[]"] clean_components_snoc [OF assms(3)] by simp
  then have k: "clean_components r [] ((if r then [[]] else []) @ comps @ [c]) = comps @ [c]" by (cases r) simp_all
  have "hd (comps @ [c]) \<noteq> []" using assms(2) good_stack_parts [OF assms(1), of "hd comps"] by simp
  then have "clean_path (?p @ CHR ''/'' # c) = path_of r (comps @ [c])" by (intro clean_path_parts) (simp_all add: r s k del: append_assoc)
  also have "\<dots> = ?p @ CHR ''/'' # c" using assms(2) by (simp add: path_of_def join_snoc)
  finally show ?thesis .
qed

text \<open>The directory \<open>u\<close> below any path, and what is joined to it.\<close>

lemma join_path_dir:
  assumes "ws \<noteq> []" and "plain_elem u"
  shows "\<exists>r comps. good_stack r (rev comps) \<and> comps \<noteq> [] \<and> join_path [ws, u] = path_of r comps"
proof -
  let ?r = "prefix ''/'' ws" and ?k = "clean_components (prefix ''/'' ws) [] (split_char CHR ''/'' ws)"
  have u: "u \<noteq> []" "split_char CHR ''/'' u = [u]" using assms(2) by (auto simp: plain_elem_def split_char_free)
  have g: "good_stack ?r (rev (?k @ [u]))"
    using clean_components_good [of ?r "[]" "split_char CHR ''/'' ws"] split_char_parts assms(2) by (auto simp: plain_elem_def)
  have r: "prefix ''/'' (ws @ CHR ''/'' # u) = ?r" using assms(1) by (cases ws) auto
  have "join_path [ws, u] = clean_path (ws @ CHR ''/'' # u)" using assms(1) u by (simp add: join_path_def)
  also have "\<dots> = path_of ?r (?k @ [u])"
  proof (rule clean_path_parts [OF r])
    have "hd (?k @ [u]) \<in> set (rev (?k @ [u]))" unfolding set_rev by (rule hd_in_set) simp
    then show "hd (?k @ [u]) \<noteq> []" using good_stack_parts [OF g] by blast
  qed (simp_all add: split_char_cat u clean_components_snoc [OF assms(2)])
  finally show ?thesis using g by blast
qed

lemma join_path_child:
  assumes "ws \<noteq> []" and "plain_elem u" and "plain_elem c"
  shows "join_path [join_path [ws, u], c] = join_path [ws, u] @ CHR ''/'' # c"
proof -
  obtain r comps where g: "good_stack r (rev comps)" "comps \<noteq> []" and d: "join_path [ws, u] = path_of r comps"
    using join_path_dir [OF assms(1,2)] by blast
  have "join_path [path_of r comps, c] = clean_path (path_of r comps @ CHR ''/'' # c)"
    using path_of_rooted(2) [OF g] assms(3) by (simp add: join_path_def plain_elem_def)
  then show ?thesis unfolding d using clean_path_of [OF g assms(3)] by simp
qed

end
