(* ===== verification/Telegram.thy ===== *)
theory Telegram
  imports TelegramCommands Webhook Paths
begin

text \<open>
  \<open>internal/plugins/channel/telegram\<close>: \<open>channel.go\<close>, \<open>handler.go\<close>, the dispatch of \<open>slash_bot.go\<close> and the labels of
  \<open>utils.go\<close>: how an update of the Bot API becomes a message on the bus. What the API, the disk and a handler answer are
  fields of an environment; a message handed to the bus, a reply of the bot and a file written are recorded in the state.
\<close>

subsection \<open>Updates\<close>

record tg_user =
  us_id :: int
  us_first :: string
  us_last :: string
  us_username :: string

datatype tg_origin = OriginUser tg_user | OriginHidden string | OriginChat string | OriginChannel string | OriginOther

text \<open>What the code reads of the message that is replied to, and of one in another chat.\<close>

record tg_quoted =
  qu_from :: "tg_user option"
  qu_text :: string
  qu_caption :: string
  qu_voice :: bool
  qu_audio :: "string option"
  qu_document :: "string option"
  qu_photo :: bool

record tg_external =
  ex_origin :: tg_origin
  ex_photo :: "string list"
  ex_voice :: bool
  ex_audio :: "string option"
  ex_document :: "string option"
  ex_video :: bool
  ex_sticker :: "string option"

record tg_document =
  td_id :: string
  td_name :: string
  td_mime :: string
  td_size :: int

record tg_message =
  tm_from :: "tg_user option"
  tm_chat :: int
  tm_id :: int
  tm_date :: int
  tm_group :: string
  tm_text :: string
  tm_caption :: string
  tm_entities :: "(string \<times> int) list"
  tm_reply :: "tg_quoted option"
  tm_external :: "tg_external option"
  tm_quote :: "string option"
  tm_forward :: "tg_origin option"
  tm_photo :: "string list"
  tm_voice :: "(string \<times> int) option"
  tm_audio :: "(string \<times> string) option"
  tm_video :: "(string \<times> string) option"
  tm_document :: "tg_document option"

record tg_env =
  tv_ready :: bool
  tv_file :: "string \<Rightarrow> string option"
  tv_fetch :: "string \<Rightarrow> (int \<times> string option) option"
  tv_detect :: "string \<Rightarrow> string"
  tv_base64 :: "string \<Rightarrow> string"
  tv_image :: "string \<Rightarrow> string \<Rightarrow> content_block"
  tv_millis :: "nat \<Rightarrow> int"
  tv_mkdir :: bool
  tv_write :: "string \<Rightarrow> bool"
  tv_exec :: handler_exec
  tv_now :: instant

subsection \<open>Labels\<close>

definition full_name :: "tg_user \<Rightarrow> string" where
  "full_name u = trim_space (us_first u @ '' '' @ us_last u)"

definition forward_label :: "tg_message \<Rightarrow> string" where
  "forward_label m = (case tm_forward m of
       None \<Rightarrow> []
     | Some (OriginUser u) \<Rightarrow> ''[Forwarded from '' @ full_name u @ '']''
     | Some (OriginHidden n) \<Rightarrow> ''[Forwarded from '' @ n @ '']''
     | Some (OriginChat t) \<Rightarrow> ''[Forwarded from chat: '' @ t @ '']''
     | Some (OriginChannel t) \<Rightarrow> ''[Forwarded from channel: '' @ t @ '']''
     | Some OriginOther \<Rightarrow> ''[Forwarded message]'')"

definition label_line :: "string \<Rightarrow> string option \<Rightarrow> string" where
  "label_line l x = (case x of None \<Rightarrow> [] | Some n \<Rightarrow> newline # l @ n @ '']'')"

definition reply_context :: "tg_quoted \<Rightarrow> string" where
  "reply_context q =
     (let name = (case qu_from q of None \<Rightarrow> [] | Some u \<Rightarrow> full_name u);
          text = (if qu_text q = [] then qu_caption q else qu_text q) in
      ''[Replying to'' @ (if name \<noteq> [] then CHR '' '' # name else []) @ '']''
      @ (if text \<noteq> [] then newline # text else [])
      @ (if qu_voice q then newline # ''[Voice message]'' else [])
      @ label_line ''[Audio: '' (qu_audio q)
      @ label_line ''[File: '' (qu_document q)
      @ (if qu_photo q then newline # ''[Photo]'' else []))"

definition append_line :: "string \<Rightarrow> string \<Rightarrow> string" where
  "append_line s l = (if s = [] then l else s @ newline # l)"

subsection \<open>Files\<close>

definition download_file :: "tg_env \<Rightarrow> string \<Rightarrow> string option" where
  "download_file env fid =
     (if \<not> tv_ready env then None
      else case tv_file env fid of
          None \<Rightarrow> None
        | Some path \<Rightarrow> (case tv_fetch env path of
              None \<Rightarrow> None
            | Some (status, body) \<Rightarrow>
                (if status \<noteq> 200 then None
                 else case body of None \<Rightarrow> None | Some data \<Rightarrow> if data = [] then None else Some data)))"

text \<open>\<open>filepath.Base\<close>.\<close>

definition base_name :: "string \<Rightarrow> string" where
  "base_name p =
     (if p = [] then ''.''
      else let q = rev (dropWhile (\<lambda>c. c = CHR ''/'') (rev p));
               r = (case last_index (CHR ''/'') q of None \<Rightarrow> q | Some i \<Rightarrow> drop (Suc i) q) in
        if r = [] then ''/'' else r)"

definition sanitize_upload_name :: "string \<Rightarrow> string \<Rightarrow> string" where
  "sanitize_upload_name name0 fallback =
     (let name1 = trim_space name0;
          name2 = (if name1 = [] then fallback else name1);
          name = base_name (replace_all name2 [CHR 0x5C] ''/'') in
      if name = [] \<or> name = ''.'' \<or> name = ''/'' then fallback else name)"

definition upload_dir :: "string \<Rightarrow> string" where "upload_dir ws = join_path [ws, ''uploads'']"

type_synonym tg_files = "(string \<times> string) list"

text \<open>Every file that is opened for writing is recorded; its name has the clock's milliseconds.\<close>

definition save_file :: "tg_env \<Rightarrow> string \<Rightarrow> string \<Rightarrow> string \<Rightarrow> tg_files \<Rightarrow> tg_files \<times> string option" where
  "save_file env ws fid name files =
     (if ws = [] then (files, None)
      else case download_file env fid of
          None \<Rightarrow> (files, None)
        | Some data \<Rightarrow>
            (if \<not> tv_mkdir env then (files, None)
             else
               let path = join_path [upload_dir ws,
                     show_int (tv_millis env (length files)) @ ''_'' @ sanitize_upload_name name ''file''] in
               (files @ [(path, data)], if tv_write env path then Some path else None)))"

definition image_of :: "tg_env \<Rightarrow> string \<Rightarrow> content_block" where
  "image_of env data =
     (let mt = tv_detect env data in
      tv_image env (if mt = ''application/octet-stream'' then ''image/jpeg'' else mt) (tv_base64 env data))"

subsection \<open>The content of a message\<close>

definition origin_text :: "tg_origin \<Rightarrow> string" where
  "origin_text og = (case og of
       OriginUser u \<Rightarrow> CHR '' '' # full_name u
     | OriginHidden n \<Rightarrow> CHR '' '' # n
     | OriginChat t \<Rightarrow> '' chat: '' @ t
     | OriginChannel t \<Rightarrow> '' channel: '' @ t
     | OriginOther \<Rightarrow> [])"

definition external_photo :: "tg_env \<Rightarrow> string list \<Rightarrow> string \<times> content_block list" where
  "external_photo env photo =
     (if photo = [] then ([], [])
      else case download_file env (last photo) of
          None \<Rightarrow> (newline # ''[Photo, download failed]'', [])
        | Some data \<Rightarrow> ([], [image_of env data]))"

definition external_context :: "tg_env \<Rightarrow> tg_external option \<Rightarrow> string option \<Rightarrow> string \<times> content_block list" where
  "external_context env ext quote =
     (let (body, blocks) = (case ext of
            None \<Rightarrow> ([], [])
          | Some e \<Rightarrow>
              (let (p, bs) = external_photo env (ex_photo e) in
               (origin_text (ex_origin e) @ p
                @ (if ex_voice e then newline # ''[Voice message]'' else [])
                @ label_line ''[Audio: '' (ex_audio e)
                @ label_line ''[File: '' (ex_document e)
                @ (if ex_video e then newline # ''[Video]'' else [])
                @ label_line ''[Sticker: '' (ex_sticker e), bs)));
          q = (case quote of None \<Rightarrow> [] | Some t \<Rightarrow> t) in
      (''[Replying to'' @ body @ '']'' @ (if q \<noteq> [] then newline # q else []), blocks))"

definition message_body :: "tg_message \<Rightarrow> string" where
  "message_body m =
     (if tm_text m = [] then tm_caption m
      else if tm_caption m \<noteq> [] then tm_text m @ newline # tm_caption m else tm_text m)"

definition no_comment :: string where
  "no_comment = ''[The user forwarded this message without comment. Summarize or process the content above.]''"

text \<open>The text parts, and the images of a reply to another chat.\<close>

definition text_parts :: "tg_env \<Rightarrow> tg_message \<Rightarrow> string list \<times> content_block list" where
  "text_parts env m =
     (let (ctxt, blocks) = (case tm_reply m of
            Some q \<Rightarrow> ([reply_context q], [])
          | None \<Rightarrow>
              (if tm_external m \<noteq> None \<or> tm_quote m \<noteq> None
               then (let (c, bs) = external_context env (tm_external m) (tm_quote m) in ([c], bs)) else ([], [])));
          label = forward_label m; body = message_body m in
      (ctxt @ (if label \<noteq> [] then [label] else []) @ (if tm_forward m \<noteq> None \<and> body = [] then [no_comment] else [])
       @ (if body \<noteq> [] then [body] else []), blocks))"

definition photo_block :: "tg_env \<Rightarrow> tg_message \<Rightarrow> content_block list" where
  "photo_block env m =
     (if tm_photo m = [] then []
      else case download_file env (last (tm_photo m)) of None \<Rightarrow> [] | Some data \<Rightarrow> [image_of env data])"

text \<open>A file is saved and the content says where, or that it failed.\<close>

definition attach :: "tg_env \<Rightarrow> string \<Rightarrow> string \<Rightarrow> string \<Rightarrow> string \<Rightarrow> string \<Rightarrow> string \<times> tg_files \<Rightarrow> string \<times> tg_files" where
  "attach env ws fid name saved failed st =
     (case save_file env ws fid name (snd st) of
        (files, None) \<Rightarrow> (append_line (fst st) failed, files)
      | (files, Some path) \<Rightarrow> (append_line (fst st) (saved @ path @ '']''), files))"

definition or_default :: "string \<Rightarrow> string \<Rightarrow> string" where
  "or_default s d = (if s = [] then d else s)"

definition attach_media :: "tg_env \<Rightarrow> string \<Rightarrow> tg_message \<Rightarrow> string \<times> tg_files \<Rightarrow> string \<times> tg_files" where
  "attach_media env ws m st0 =
     (let st1 = (case tm_voice m of
            None \<Rightarrow> st0
          | Some (fid, dur) \<Rightarrow>
              attach env ws fid ''voice.ogg'' ''[Voice message saved to: ''
                (''[Voice message, '' @ show_int dur @ ''s, download failed]'') st0);
          st2 = (case tm_audio m of
            None \<Rightarrow> st1
          | Some (fid, n) \<Rightarrow>
              (let name = or_default n ''audio.mp3'' in
               attach env ws fid name ''[Audio file saved to: '' (''[Audio: '' @ name @ '', download failed]'') st1)) in
      case tm_video m of
        None \<Rightarrow> st2
      | Some (fid, n) \<Rightarrow>
          (let name = or_default n ''video.mp4'' in
           attach env ws fid name ''[Video file saved to: '' (''[Video: '' @ name @ '', download failed]'') st2))"

definition attach_document ::
  "tg_env \<Rightarrow> string \<Rightarrow> tg_document \<Rightarrow> string \<times> tg_files \<Rightarrow> (string \<times> tg_files) \<times> content_block list" where
  "attach_document env ws d st =
     (let name = or_default (td_name d) ''document''; mt = td_mime d in
      if prefix ''image/'' mt then
        (case download_file env (td_id d) of
           None \<Rightarrow> ((append_line (fst st) (''[Image document: '' @ name @ '' ('' @ mt @ ''), download failed]''), snd st), [])
         | Some data \<Rightarrow> (st, [tv_image env mt (tv_base64 env data)]))
      else
        (attach env ws (td_id d) name ''[File saved to: ''
           (''[File: '' @ name @ '' ('' @ mt @ '')'' @ (if 0 < td_size d then '', '' @ show_int (td_size d) @ '' bytes'' else [])
            @ '', download failed]'') st, []))"

definition extract_message :: "tg_env \<Rightarrow> string \<Rightarrow> tg_message \<Rightarrow> tg_files \<Rightarrow> string \<times> content_block list \<times> tg_files" where
  "extract_message env ws m files =
     (let (parts, bs) = text_parts env m;
          st = attach_media env ws m (join [newline] parts, files);
          (st', ds) = (case tm_document m of None \<Rightarrow> (st, []) | Some d \<Rightarrow> attach_document env ws d st) in
      (fst st', bs @ photo_block env m @ ds, snd st'))"

subsection \<open>The channel\<close>

record tg_channel =
  tl_allow :: "string list"
  tl_feedback :: string
  tl_streaming :: bool
  tl_workspace :: string
  tl_root_dir :: string
  tl_commands :: commands
  tl_pipeline :: pipeline_slashes
  tl_groups :: "(string \<times> tg_message list) list"
  tl_inbound :: "inbound_message list"
  tl_replies :: "(int \<times> string) list"
  tl_files :: tg_files

definition new_telegram_channel :: "telegram_config \<Rightarrow> string \<Rightarrow> tg_channel" where
  "new_telegram_channel cfg workspace =
     \<lparr>tl_allow = new_matcher (tg_allow_from cfg), tl_feedback = (if tg_feedback cfg = [] then ''normal'' else tg_feedback cfg),
      tl_streaming = tg_streaming cfg, tl_workspace = trim_space workspace, tl_root_dir = trim_space (tg_root_dir cfg),
      tl_commands = [], tl_pipeline = [], tl_groups = [], tl_inbound = [], tl_replies = [], tl_files = []\<rparr>"

definition telegram_channels :: "config option \<Rightarrow> tg_channel list" where
  "telegram_channels cfg = (case cfg of
       None \<Rightarrow> []
     | Some c \<Rightarrow> if tg_enabled (ch_telegram (c_channels c))
         then [new_telegram_channel (ch_telegram (c_channels c)) (ac_workspace (c_agent c))] else [])"

definition telegram_set_slashes :: "slash_definition list \<Rightarrow> tg_channel \<Rightarrow> tg_channel" where
  "telegram_set_slashes defs t = t\<lparr>tl_pipeline := pipeline_slashes_of defs\<rparr>"

text \<open>\<open>Start\<close> before the polling: what the proxy, the token, \<open>GetMe\<close>, the two \<open>SetMyCommands\<close> and the polling answer.\<close>

record tg_start_env =
  st_proxy :: "string option"
  st_bot :: "string option"
  st_get_me :: "string option"
  st_set_commands :: "string option"
  st_set_private :: "string option"
  st_polling :: "string option"

datatype tg_start_error = BadProxy string | BadBot string | GetMeFails string | CommandsRefused string | PollingFails string

definition init_bot :: "tg_start_env \<Rightarrow> tg_start_error option" where
  "init_bot e =
     (case st_proxy e of Some x \<Rightarrow> Some (BadProxy x)
      | None \<Rightarrow> (case st_bot e of Some x \<Rightarrow> Some (BadBot x)
         | None \<Rightarrow> (case st_get_me e of Some x \<Rightarrow> Some (GetMeFails x) | None \<Rightarrow> None)))"

text \<open>The menus that are registered, one per scope, and the first error.\<close>

definition sync_commands ::
  "tg_start_env \<Rightarrow> tg_channel \<Rightarrow> (string \<times> string) list list \<times> string option" where
  "sync_commands e t =
     (let menu = registered_commands (tl_pipeline t) (tl_commands t) in
      case st_set_commands e of Some x \<Rightarrow> ([menu], Some x) | None \<Rightarrow> ([menu, menu], st_set_private e))"

definition start_telegram ::
  "(string \<Rightarrow> command_meta option) \<Rightarrow> (string \<Rightarrow> slash_dir) \<Rightarrow> tg_start_env \<Rightarrow> tg_channel
    \<Rightarrow> tg_channel \<times> (string \<times> string) list list \<times> tg_start_error option" where
  "start_telegram yaml disk e t =
     (case init_bot e of
        Some err \<Rightarrow> (t, [], Some err)
      | None \<Rightarrow>
          (let t1 = t\<lparr>tl_commands := load_slash_commands yaml disk (tl_root_dir t) (tl_workspace t)\<rparr> in
           case sync_commands e t1 of
             (menus, Some x) \<Rightarrow> (t1, menus, Some (CommandsRefused x))
           | (menus, None) \<Rightarrow>
               (t1, menus, case st_polling e of Some x \<Rightarrow> Some (PollingFails x) | None \<Rightarrow> None)))"

subsection \<open>Slash commands\<close>

definition is_slash_message :: "tg_message \<Rightarrow> bool" where
  "is_slash_message m \<longleftrightarrow> tm_text m \<noteq> [] \<and> (\<exists>e \<in> set (tm_entities m). e = (''bot_command'', 0))"

text \<open>The sender's id; every message that gets here has a sender.\<close>

definition sender_of :: "tg_message \<Rightarrow> string" where
  "sender_of m = (case tm_from m of None \<Rightarrow> [] | Some u \<Rightarrow> show_int (us_id u))"

definition no_hints :: routing_hints where
  "no_hints = \<lparr>rh_session_mode = SessionModeCurrent, rh_force_sync = False, rh_builtin_command = [], rh_slash_command = [],
     rh_slash_type = [], rh_slash_args = [], rh_message_id = 0\<rparr>"

definition slash_inbound :: "tg_env \<Rightarrow> tg_message \<Rightarrow> string \<Rightarrow> routing_hints \<Rightarrow> inbound_message" where
  "slash_inbound env m content hints =
     \<lparr>im_channel = ''telegram'', im_sender_id = sender_of m, im_chat_id = show_int (tm_chat m), im_content = content,
      im_timestamp = tv_now env, im_media = [], im_hints = hints, im_transport_meta = None, im_content_blocks = []\<rparr>"

definition publish_telegram :: "inbound_message \<Rightarrow> tg_channel \<Rightarrow> tg_channel" where
  "publish_telegram im t = t\<lparr>tl_inbound := tl_inbound t @ [im]\<rparr>"

definition send_bot_reply :: "tg_env \<Rightarrow> int \<Rightarrow> string \<Rightarrow> tg_channel \<Rightarrow> tg_channel" where
  "send_bot_reply env chat text t = (if tv_ready env then t\<lparr>tl_replies := tl_replies t @ [(chat, text)]\<rparr> else t)"

definition is_pipeline_slash :: "string \<Rightarrow> tg_channel \<Rightarrow> bool" where
  "is_pipeline_slash name t \<longleftrightarrow> map_of (tl_pipeline t) (to_lower (trim_space name)) \<noteq> None"

text \<open>\<open>string(kind)\<close> of a number is the character with that code.\<close>

definition kind_char :: "command_kind \<Rightarrow> string" where
  "kind_char k = encode_rune (case k of
       CommandKindLocal \<Rightarrow> 1 | CommandKindAgent \<Rightarrow> 2 | CommandKindPipeline \<Rightarrow> 3 | CommandKindOther n \<Rightarrow> n)"

definition publish_pipeline_slash :: "tg_env \<Rightarrow> tg_message \<Rightarrow> string \<Rightarrow> string \<Rightarrow> tg_channel \<Rightarrow> tg_channel" where
  "publish_pipeline_slash env m name args =
     publish_telegram (slash_inbound env m (tm_text m)
       (no_hints\<lparr>rh_slash_command := name, rh_slash_type := kind_char CommandKindPipeline, rh_slash_args := args,
          rh_message_id := tm_id m, rh_force_sync := True\<rparr>))"

definition handle_builtin_slash :: "tg_env \<Rightarrow> tg_message \<Rightarrow> string \<Rightarrow> tg_channel \<Rightarrow> tg_channel option" where
  "handle_builtin_slash env m name t =
     (if name \<noteq> ''new'' then None
      else Some (publish_telegram (slash_inbound env m []
        (no_hints\<lparr>rh_builtin_command := ''new'', rh_force_sync := True, rh_message_id := tm_id m\<rparr>)) t))"

text \<open>A command of the workspace, by its kind.\<close>

definition run_command :: "tg_env \<Rightarrow> tg_message \<Rightarrow> bot_command \<Rightarrow> string \<Rightarrow> string \<Rightarrow> tg_channel \<Rightarrow> tg_channel" where
  "run_command env m cmd name args t = (case bc_type cmd of
       CommandKindLocal \<Rightarrow>
         send_bot_reply env (tm_chat m)
           (execute_local (tv_exec env) (telegram_root (tl_root_dir t) (tl_workspace t)) (tl_workspace t) (tl_commands t) cmd args (tv_now env)) t
     | CommandKindOther _ \<Rightarrow> t
     | _ \<Rightarrow>
         (let content = compose_agent_content cmd name args in
          if trim_space content = [] then send_bot_reply env (tm_chat m) ''Command is not configured with executable content.'' t
          else publish_telegram (slash_inbound env m content
            (no_hints\<lparr>rh_slash_command := name, rh_slash_type := kind_char (bc_type cmd), rh_slash_args := args,
               rh_message_id := tm_id m, rh_force_sync := \<not> bc_streaming cmd,
               rh_session_mode := (if bc_session cmd = SessionModeIsolated then SessionModeIsolated else SessionModeCurrent)\<rparr>)) t))"

definition handle_slash :: "tg_env \<Rightarrow> tg_message \<Rightarrow> tg_channel \<Rightarrow> tg_channel" where
  "handle_slash env m t = (case GoStrings.fields (tm_text m) of
       [] \<Rightarrow> t
     | first # rest \<Rightarrow>
         (let name = trim_prefix first ''/''; args = join '' '' rest in
          case handle_builtin_slash env m name t of
            Some t' \<Rightarrow> t'
          | None \<Rightarrow>
              (case map_of (tl_commands t) name of
                 Some cmd \<Rightarrow> run_command env m cmd name args t
               | None \<Rightarrow>
                   (if is_pipeline_slash name t then publish_pipeline_slash env m name args t
                    else send_bot_reply env (tm_chat m) (''Unknown command: /'' @ name) t))))"

subsection \<open>Messages\<close>

definition telegram_meta :: "tg_message \<Rightarrow> metadata option" where
  "telegram_meta m = (case tm_from m of
       None \<Rightarrow> None
     | Some u \<Rightarrow> Some [(''username'', AnyStr (us_username u)), (''first_name'', AnyStr (us_first u))])"

definition plain_inbound :: "tg_message \<Rightarrow> string \<Rightarrow> content_block list \<Rightarrow> inbound_message" where
  "plain_inbound m content blocks =
     \<lparr>im_channel = ''telegram'', im_sender_id = sender_of m, im_chat_id = show_int (tm_chat m), im_content = content,
      im_timestamp = tm_date m * second, im_media = [], im_hints = no_hints\<lparr>rh_message_id := tm_id m\<rparr>,
      im_transport_meta = telegram_meta m, im_content_blocks = blocks\<rparr>"

definition dispatch_message :: "tg_env \<Rightarrow> tg_message \<Rightarrow> tg_channel \<Rightarrow> tg_channel" where
  "dispatch_message env m t =
     (if is_slash_message m then handle_slash env m t
      else
        let (content, blocks, files) = extract_message env (tl_workspace t) m (tl_files t);
            t1 = t\<lparr>tl_files := files\<rparr> in
        if content = [] \<and> blocks = [] then t1 else publish_telegram (plain_inbound m content blocks) t1)"

text \<open>The first message of a group starts its timer.\<close>

definition buffer_media_group :: "tg_message \<Rightarrow> tg_channel \<Rightarrow> tg_channel" where
  "buffer_media_group m t =
     t\<lparr>tl_groups := map_put (tm_group m)
        ((case map_of (tl_groups t) (tm_group m) of None \<Rightarrow> [] | Some ms \<Rightarrow> ms) @ [m]) (tl_groups t)\<rparr>"

definition handle_telegram :: "tg_env \<Rightarrow> tg_message \<Rightarrow> tg_channel \<Rightarrow> tg_channel" where
  "handle_telegram env m t =
     (if tm_from m = None \<or> \<not> allow_id (tl_allow t) (sender_of m) then t
      else if tm_group m \<noteq> [] then buffer_media_group m t
      else dispatch_message env m t)"

fun extract_all :: "tg_env \<Rightarrow> string \<Rightarrow> tg_message list \<Rightarrow> tg_files \<Rightarrow> string list \<times> content_block list \<times> tg_files" where
  "extract_all env ws [] files = ([], [], files)"
| "extract_all env ws (m # ms) files =
     (case extract_message env ws m files of (c, bs, files1) \<Rightarrow>
        (case extract_all env ws ms files1 of (cs, bss, files2) \<Rightarrow>
           ((if c \<noteq> [] then c # cs else cs), bs @ bss, files2)))"

text \<open>The loop that joins the texts of a group: \<open>known\<close> are the ones it has.\<close>

fun join_new :: "string list \<Rightarrow> string \<Rightarrow> string list \<Rightarrow> string" where
  "join_new known content [] = content"
| "join_new known content (c # cs) =
     (if c \<in> set known then join_new known content cs else join_new (c # known) (content @ newline # c) cs)"

definition group_text :: "string list \<Rightarrow> string" where
  "group_text cs = (case cs of [] \<Rightarrow> [] | c # rest \<Rightarrow> join_new [c] c rest)"

definition flush_media_group :: "tg_env \<Rightarrow> string \<Rightarrow> tg_channel \<Rightarrow> tg_channel" where
  "flush_media_group env gid t = (case map_of (tl_groups t) gid of
       None \<Rightarrow> t
     | Some ms \<Rightarrow>
         (let t1 = t\<lparr>tl_groups := map_del gid (tl_groups t)\<rparr> in
          if ms = [] then t1
          else let (texts, blocks, files) = extract_all env (tl_workspace t) ms (tl_files t) in
            publish_telegram (plain_inbound (hd ms) (group_text texts) blocks) (t1\<lparr>tl_files := files\<rparr>)))"

text \<open>What happens to a channel: an update arrives, or the timer of a group fires.\<close>

datatype tg_input = Update tg_env tg_message | GroupTimer tg_env string

fun telegram_step :: "tg_channel \<Rightarrow> tg_input \<Rightarrow> tg_channel" where
  "telegram_step t (Update env m) = handle_telegram env m t"
| "telegram_step t (GroupTimer env gid) = flush_media_group env gid t"

subsection \<open>Feedback\<close>

datatype tg_action = React int int string | Typing int

definition send_reaction :: "bool \<Rightarrow> int \<Rightarrow> int \<Rightarrow> string \<Rightarrow> tg_action list" where
  "send_reaction ready chat mid emoji = (if \<not> ready \<or> mid \<le> 0 then [] else [React chat mid emoji])"

definition send_typing :: "bool \<Rightarrow> int \<Rightarrow> tg_action list" where
  "send_typing ready chat = (if ready then [Typing chat] else [])"

text \<open>The calls for one message, in an order the two goroutines leave open.\<close>

definition pre_process_feedback :: "bool \<Rightarrow> string \<Rightarrow> int \<Rightarrow> int \<Rightarrow> tg_action list" where
  "pre_process_feedback ready feedback chat mid =
     (if feedback = ''debug'' then send_reaction ready chat mid (encode_rune 128064) @ send_typing ready chat
      else if feedback = ''normal'' then send_reaction ready chat mid (encode_rune 128077) @ send_typing ready chat
      else if feedback = ''minimal'' then send_typing ready chat
      else [])"

subsection \<open>Files stay in the upload directory\<close>

definition in_uploads :: "string \<Rightarrow> string \<Rightarrow> bool" where
  "in_uploads ws p \<longleftrightarrow> prefix (upload_dir ws @ ''/'') p \<and> plain_elem (drop (length (upload_dir ws) + 1) p)"

lemma last_index_free: "last_index c s = None \<longleftrightarrow> c \<notin> set s"
  by (induction s) (auto split: option.split)

lemma last_index_rest: "last_index c s = Some i \<Longrightarrow> c \<notin> set (drop (Suc i) s)"
  by (induction s arbitrary: i) (auto split: option.splits if_splits simp: last_index_free)

lemma base_name_free: "base_name p = ''/'' \<or> CHR ''/'' \<notin> set (base_name p)"
  by (auto simp: base_name_def Let_def last_index_free last_index_rest split: option.split)

lemma sanitize_free: "CHR ''/'' \<notin> set fallback \<Longrightarrow> CHR ''/'' \<notin> set (sanitize_upload_name name fallback)"
  using base_name_free by (auto simp: sanitize_upload_name_def Let_def)

lemma show_int_free: "CHR ''/'' \<notin> set (show_int n)"
  by (auto simp: show_int_def is_digit_def byte_of_def dest: show_nat_digits)

lemma underscore_name: "CHR ''_'' \<in> set n \<Longrightarrow> n \<notin> {[], ''.'', ''..''}"
  by auto

lemma upload_name_elem: "plain_elem (show_int n @ ''_'' @ sanitize_upload_name name ''file'')"
proof -
  have "CHR ''_'' \<in> set (show_int n @ ''_'' @ sanitize_upload_name name ''file'')" by simp
  then have "show_int n @ ''_'' @ sanitize_upload_name name ''file'' \<notin> {[], ''.'', ''..''}" by (rule underscore_name)
  then show ?thesis using show_int_free sanitize_free [of "''file''"] by (auto simp: plain_elem_def)
qed

definition uploads_only :: "string \<Rightarrow> tg_files \<Rightarrow> bool" where
  "uploads_only ws files \<longleftrightarrow> list_all (\<lambda>(p, _). in_uploads ws p) files"

lemma save_file_uploads: "uploads_only ws files \<Longrightarrow> uploads_only ws (fst (save_file env ws fid name files))"
  using join_path_child [of ws "''uploads''", OF _ _ upload_name_elem] upload_name_elem
  by (auto simp: save_file_def Let_def uploads_only_def in_uploads_def upload_dir_def plain_elem_def [of "''uploads''"] split: option.split)

lemma attach_uploads: "uploads_only ws (snd st) \<Longrightarrow> uploads_only ws (snd (attach env ws fid name ok failed st))"
  using save_file_uploads [of ws "snd st" env fid name] by (auto simp: attach_def split: prod.split option.split)

lemma attach_media_uploads: "uploads_only ws (snd st) \<Longrightarrow> uploads_only ws (snd (attach_media env ws m st))"
  by (auto simp: attach_media_def Let_def attach_uploads split: option.split)

lemma attach_document_uploads: "uploads_only ws (snd st) \<Longrightarrow> uploads_only ws (snd (fst (attach_document env ws d st)))"
  by (auto simp: attach_document_def Let_def attach_uploads split: option.split)

lemma extract_uploads: "uploads_only ws files \<Longrightarrow> uploads_only ws (snd (snd (extract_message env ws m files)))"
  by (simp add: extract_message_def case_prod_unfold Let_def attach_media_uploads attach_document_uploads split: option.split)

lemma extract_all_uploads: "uploads_only ws files \<Longrightarrow> uploads_only ws (snd (snd (extract_all env ws ms files)))"
proof (induction ms arbitrary: files)
  case (Cons m ms)
  then show ?case
    using extract_uploads [OF Cons.prems, of env m] by (fastforce split: prod.split)
qed simp

subsection \<open>Who is heard\<close>

text \<open>The invariant of a channel: files lie in its upload directory, a waiting message has a sender, and whatever is waiting
  or was published is from an allowed sender.\<close>

definition heard :: "string list \<Rightarrow> inbound_message \<Rightarrow> bool" where
  "heard allow im \<longleftrightarrow> im_channel im = ''telegram'' \<and> allow_id allow (im_sender_id im)"

definition waiting_ok :: "string list \<Rightarrow> tg_message \<Rightarrow> bool" where
  "waiting_ok allow m \<longleftrightarrow> tm_from m \<noteq> None \<and> allow_id allow (sender_of m)"

definition telegram_inv :: "string list \<Rightarrow> string \<Rightarrow> tg_channel \<Rightarrow> bool" where
  "telegram_inv allow ws t \<longleftrightarrow> tl_allow t = allow \<and> tl_workspace t = ws \<and> uploads_only ws (tl_files t)
     \<and> list_all (heard allow) (tl_inbound t) \<and> list_all (\<lambda>(_, ms). list_all (waiting_ok allow) ms) (tl_groups t)"

lemma telegram_inv_replies: "telegram_inv allow ws t \<Longrightarrow> telegram_inv allow ws (send_bot_reply env chat text t)"
  by (simp add: telegram_inv_def send_bot_reply_def)

lemma telegram_inv_publish: "telegram_inv allow ws t \<Longrightarrow> heard allow im \<Longrightarrow> telegram_inv allow ws (publish_telegram im t)"
  by (simp add: telegram_inv_def publish_telegram_def)

lemma heard_of: "waiting_ok allow m \<Longrightarrow> heard allow (slash_inbound env m content hints)"
    "waiting_ok allow m \<Longrightarrow> heard allow (plain_inbound m content blocks)"
  by (simp_all add: heard_def waiting_ok_def slash_inbound_def plain_inbound_def)

lemmas telegram_keeps = telegram_inv_replies telegram_inv_publish heard_of

lemma run_command_inv: "telegram_inv allow ws t \<Longrightarrow> waiting_ok allow m \<Longrightarrow> telegram_inv allow ws (run_command env m cmd name args t)"
  by (simp add: run_command_def Let_def telegram_keeps split: command_kind.split)

lemma handle_slash_inv: "telegram_inv allow ws t \<Longrightarrow> waiting_ok allow m \<Longrightarrow> telegram_inv allow ws (handle_slash env m t)"
  by (auto simp: handle_slash_def Let_def handle_builtin_slash_def publish_pipeline_slash_def telegram_keeps run_command_inv
      split: list.split option.split)

lemma files_inv: "telegram_inv allow ws t \<Longrightarrow> uploads_only ws files \<Longrightarrow> telegram_inv allow ws (t\<lparr>tl_files := files\<rparr>)"
  by (simp add: telegram_inv_def)

lemma telegram_dispatch_inv: "telegram_inv allow ws t \<Longrightarrow> waiting_ok allow m \<Longrightarrow> telegram_inv allow ws (dispatch_message env m t)"
proof -
  assume i: "telegram_inv allow ws t" "waiting_ok allow m"
  then have "uploads_only ws (snd (snd (extract_message env (tl_workspace t) m (tl_files t))))"
    using extract_uploads by (simp add: telegram_inv_def)
  with i show ?thesis
    by (simp add: dispatch_message_def case_prod_unfold Let_def handle_slash_inv telegram_keeps files_inv)
qed

lemma map_put_all: "list_all (\<lambda>(_, x). P x) m \<Longrightarrow> P v \<Longrightarrow> list_all (\<lambda>(_, x). P x) (map_put k v m)"
  unfolding map_put_def by (induction m) auto

lemma map_of_all: "list_all (\<lambda>(_, x). P x) m \<Longrightarrow> map_of m k = Some v \<Longrightarrow> P v"
  by (induction m) (auto split: if_splits)

lemma map_del_all: "list_all (\<lambda>(_, x). P x) m \<Longrightarrow> list_all (\<lambda>(_, x). P x) (map_del k m)"
  unfolding map_del_def by (induction m) auto

lemma handle_telegram_inv: "telegram_inv allow ws t \<Longrightarrow> telegram_inv allow ws (handle_telegram env m t)"
proof -
  assume i: "telegram_inv allow ws t"
  have "telegram_inv allow ws (buffer_media_group m t)" if "waiting_ok allow m"
  proof -
    have "list_all (waiting_ok allow) ((case map_of (tl_groups t) (tm_group m) of None \<Rightarrow> [] | Some ms \<Rightarrow> ms) @ [m])"
      using i that map_of_all [of "list_all (waiting_ok allow)" "tl_groups t" "tm_group m"]
      by (auto simp: telegram_inv_def split: option.split)
    then show ?thesis using i by (simp add: telegram_inv_def buffer_media_group_def map_put_all)
  qed
  then show ?thesis using i telegram_dispatch_inv [OF i] by (auto simp: handle_telegram_def waiting_ok_def telegram_inv_def)
qed

lemma flush_group_inv: "telegram_inv allow ws t \<Longrightarrow> telegram_inv allow ws (flush_media_group env gid t)"
proof (cases "map_of (tl_groups t) gid")
  case (Some ms)
  assume i: "telegram_inv allow ws t"
  then have d: "telegram_inv allow ws (t\<lparr>tl_groups := map_del gid (tl_groups t)\<rparr>)"
    by (simp add: telegram_inv_def map_del_all)
  have w: "list_all (waiting_ok allow) ms"
    using i Some map_of_all [of "list_all (waiting_ok allow)" "tl_groups t" gid ms] by (simp add: telegram_inv_def)
  have f: "uploads_only ws (snd (snd (extract_all env (tl_workspace t) ms (tl_files t))))"
    using i extract_all_uploads by (simp add: telegram_inv_def)
  show ?thesis
  proof (cases ms)
    case (Cons m rest)
    with w show ?thesis
      using d files_inv [OF d f] Some by (simp add: flush_media_group_def case_prod_unfold Let_def telegram_keeps)
  qed (use d Some in \<open>simp add: flush_media_group_def\<close>)
qed (simp add: flush_media_group_def)

lemma telegram_steps_inv: "telegram_inv allow ws t \<Longrightarrow> telegram_inv allow ws (foldl telegram_step t inputs)"
proof (induction inputs arbitrary: t)
  case (Cons i inputs)
  have "telegram_inv allow ws (telegram_step t i)" using Cons.prems by (cases i) (simp_all add: handle_telegram_inv flush_group_inv)
  then show ?case using Cons.IH by simp
qed simp

lemma new_telegram_inv: "telegram_inv (new_matcher (tg_allow_from cfg)) (trim_space ws) (new_telegram_channel cfg ws)"
  by (simp add: telegram_inv_def new_telegram_channel_def uploads_only_def)

text \<open>C17: only senders on the allow list are heard: whatever updates arrive and whenever the timers of media groups fire,
  every message the channel puts on the bus is one of its own and comes from an allowed sender.\<close>

theorem telegram_allowed_only:
  "list_all (heard (new_matcher (tg_allow_from cfg))) (tl_inbound (foldl telegram_step (new_telegram_channel cfg ws) inputs))"
  using telegram_steps_inv [OF new_telegram_inv] by (simp add: telegram_inv_def)

text \<open>C18: an upload cannot leave the upload directory: whatever file names the senders choose, every file the channel opens
  for writing lies directly in \<open>uploads\<close> below the workspace, under a plain name.\<close>

theorem telegram_uploads_confined:
  "list_all (\<lambda>(p, _). in_uploads (trim_space ws) p) (tl_files (foldl telegram_step (new_telegram_channel cfg ws) inputs))"
  using telegram_steps_inv [OF new_telegram_inv, of cfg ws inputs] by (simp add: telegram_inv_def uploads_only_def)

subsection \<open>Albums\<close>

lemma join_step: "join sep (a # b # xs) = join sep ((a @ sep @ b) # xs)"
  by (cases xs) simp_all

lemma remdups_snoc: "remdups (xs @ [c]) = filter (\<lambda>x. x \<noteq> c) (remdups xs) @ [c]"
  by (induction xs) auto

lemma join_new_firsts:
  "join_new known content cs = join [newline] (content # filter (\<lambda>c. c \<notin> set known) (rev (remdups (rev cs))))"
proof (induction cs arbitrary: known content)
  case (Cons c cs)
  let ?d = "rev (remdups (rev cs))"
  have d: "rev (remdups (rev (c # cs))) = c # filter (\<lambda>x. x \<noteq> c) ?d" by (simp add: remdups_snoc rev_filter)
  have f: "filter (\<lambda>x. x \<notin> set known) (filter (\<lambda>x. x \<noteq> c) ?d) = filter (\<lambda>x. x \<notin> set (c # known)) ?d"
    by (simp add: conj_commute)
  have k: "c \<in> set known \<Longrightarrow> filter (\<lambda>x. x \<notin> set (c # known)) ?d = filter (\<lambda>x. x \<notin> set known) ?d"
    by (rule filter_cong) auto
  show ?case
    unfolding d using Cons.IH f k by (simp add: join_step del: join.simps(3) filter_filter)
qed simp

text \<open>The loop joins the different texts, each where it came first.\<close>

lemma group_text_firsts: "group_text cs = join [newline] (rev (remdups (rev cs)))"
proof (cases cs)
  case (Cons c rest)
  have "rev (remdups (rev (c # rest))) = c # filter (\<lambda>x. x \<noteq> c) (rev (remdups (rev rest)))"
    by (simp add: remdups_snoc rev_filter)
  moreover have "filter (\<lambda>x. x \<notin> set [c]) (rev (remdups (rev rest))) = filter (\<lambda>x. x \<noteq> c) (rev (remdups (rev rest)))" by simp
  ultimately show ?thesis unfolding Cons group_text_def by (simp only: list.case join_new_firsts)
qed (simp add: group_text_def)

lemma buffer_album:
  assumes "gid \<noteq> []" and "\<forall>m \<in> set ms. tm_group m = gid \<and> waiting_ok (tl_allow t) m" and "map_of (tl_groups t) gid = Some ms0"
  shows "\<exists>gs. foldl telegram_step t (map (Update env) ms) = t\<lparr>tl_groups := gs\<rparr> \<and> map_of gs gid = Some (ms0 @ ms)"
  using assms(2,3)
proof (induction ms arbitrary: t ms0)
  case Nil
  then show ?case by (intro exI [of _ "tl_groups t"]) simp
next
  case (Cons m ms)
  let ?t = "buffer_media_group m t"
  have s: "telegram_step t (Update env m) = ?t"
    using Cons.prems assms(1) by (auto simp: handle_telegram_def waiting_ok_def)
  have "\<exists>gs. foldl telegram_step ?t (map (Update env) ms) = ?t\<lparr>tl_groups := gs\<rparr> \<and> map_of gs gid = Some ((ms0 @ [m]) @ ms)"
    using Cons.prems by (intro Cons.IH) (auto simp: buffer_media_group_def map_put_def update_conv)
  then show ?case using s by (auto simp: buffer_media_group_def)
qed

text \<open>An album is one message: the photos and videos of a media group, however many, become a single message on the
  bus when the group's timer fires, from the chat and the sender of the first one, with all their images in order and
  with the different captions, each once, in the order they came.\<close>

theorem album_is_one_message:
  assumes "ms \<noteq> []" and "gid \<noteq> []" and "map_of (tl_groups t) gid = None"
    and "\<forall>m \<in> set ms. tm_group m = gid \<and> tm_from m \<noteq> None \<and> allow_id (tl_allow t) (sender_of m)"
    and "extract_all env (tl_workspace t) ms (tl_files t) = (texts, blocks, files)"
  shows "tl_inbound (foldl telegram_step t (map (Update env) ms @ [GroupTimer env gid]))
    = tl_inbound t @ [plain_inbound (hd ms) (join [newline] (rev (remdups (rev texts)))) blocks]"
proof -
  obtain m rest where ms: "ms = m # rest" using assms(1) by (cases ms) auto
  let ?t = "buffer_media_group m t"
  have s: "telegram_step t (Update env m) = ?t" using assms(2,4) ms by (auto simp: handle_telegram_def)
  have g: "map_of (tl_groups ?t) gid = Some [m]" using assms(3,4) ms by (simp add: buffer_media_group_def map_put_def update_conv)
  have r: "\<forall>x \<in> set rest. tm_group x = gid \<and> waiting_ok (tl_allow ?t) x"
    using assms(4) ms by (auto simp: waiting_ok_def buffer_media_group_def)
  obtain gs where b: "foldl telegram_step ?t (map (Update env) rest) = ?t\<lparr>tl_groups := gs\<rparr>" "map_of gs gid = Some ([m] @ rest)"
    using buffer_album [OF assms(2) r g] by blast
  have f: "foldl telegram_step t (map (Update env) ms) = ?t\<lparr>tl_groups := gs\<rparr>" using s b(1) ms by simp
  have "tl_inbound (flush_media_group env gid (?t\<lparr>tl_groups := gs\<rparr>))
      = tl_inbound t @ [plain_inbound (hd ms) (join [newline] (rev (remdups (rev texts)))) blocks]"
    using b(2) assms(1,5) ms
    by (simp add: flush_media_group_def buffer_media_group_def publish_telegram_def group_text_firsts del: extract_all.simps)
  then show ?thesis by (simp only: foldl_append f foldl.simps telegram_step.simps)
qed

subsection \<open>Commands in groups\<close>

text \<open>In a group Telegram appends the name of the bot to a command; it is not taken off, and the command is unknown.\<close>

definition demo_tg_env :: tg_env where
  "demo_tg_env = \<lparr>tv_ready = True, tv_file = (\<lambda>_. None), tv_fetch = (\<lambda>_. None), tv_detect = (\<lambda>_. []), tv_base64 = id,
     tv_image = (\<lambda>_ _. OtherBlock []), tv_millis = int, tv_mkdir = True, tv_write = (\<lambda>_. True), tv_exec = (\<lambda>_ _ _. (None, [])),
     tv_now = 0\<rparr>"

definition demo_photo :: "int \<Rightarrow> string \<Rightarrow> tg_message" where
  "demo_photo i c = \<lparr>tm_from = Some \<lparr>us_id = 7, us_first = ''A'', us_last = [], us_username = ''a''\<rparr>, tm_chat = 5, tm_id = i,
     tm_date = 0, tm_group = ''g'', tm_text = [], tm_caption = c, tm_entities = [], tm_reply = None, tm_external = None,
     tm_quote = None, tm_forward = None, tm_photo = [''p''], tm_voice = None, tm_audio = None, tm_video = None, tm_document = None\<rparr>"

definition demo_tg_channel :: tg_channel where
  "demo_tg_channel = \<lparr>tl_allow = [], tl_feedback = ''normal'', tl_streaming = True, tl_workspace = ''/w'', tl_root_dir = [],
     tl_commands = [], tl_pipeline = [], tl_groups = [], tl_inbound = [], tl_replies = [], tl_files = []\<rparr>"

lemma addressed_command_unknown:
  "tl_replies (handle_slash demo_tg_env (demo_photo 1 []\<lparr>tm_text := ''/new@maven_bot''\<rparr>) demo_tg_channel)
    = [(5, ''Unknown command: /new@maven_bot'')]"
  by code_simp

text \<open>The type of a command is sent as the character with its number, not as its name.\<close>

lemma kind_char_not_name: "kind_char CommandKindAgent = [CHR 0x02] \<and> kind_char CommandKindPipeline = [CHR 0x03]"
  by code_simp

theorem album_is_one_message_witness:
  "tl_inbound (foldl telegram_step demo_tg_channel
      (map (Update demo_tg_env) [demo_photo 1 ''hi'', demo_photo 2 ''hi''] @ [GroupTimer demo_tg_env ''g'']))
    = [plain_inbound (demo_photo 1 ''hi'') ''hi'' []]"
proof -
  have e: "extract_all demo_tg_env (tl_workspace demo_tg_channel) [demo_photo 1 ''hi'', demo_photo 2 ''hi''] (tl_files demo_tg_channel)
    = ([''hi'', ''hi''], [], [])" by code_simp
  show ?thesis
    by (subst album_is_one_message [OF _ _ _ _ e]) (simp_all add: demo_tg_channel_def demo_photo_def allow_id_def)
qed

end
