(* ===== verification/Delegate.thy ===== *)
theory Delegate
  imports Paths Config
begin

text \<open>
  \<open>internal/plugins/tool/acp\<close>: the tool \<open>DelegateTask\<close>, which hands a task to the subprocess of another agent, the
  files that agent may read and write, and the path check of \<open>path.go\<close>. Symbolic links, the working directory, the
  disk and what the subprocess answers are arguments.
\<close>

subsection \<open>Paths inside the workspace\<close>

definition abs_path :: "string option \<Rightarrow> string \<Rightarrow> string option" where
  "abs_path cwd p = (if prefix ''/'' p then Some (clean_path p) else map_option (\<lambda>d. join_path [d, p]) cwd)"

definition path_elems :: "string \<Rightarrow> string list" where
  "path_elems p = filter (\<lambda>c. c \<noteq> []) (split_char CHR ''/'' p)"

fun strip_common :: "string list \<Rightarrow> string list \<Rightarrow> string list \<times> string list" where
  "strip_common (b # bs) (t # ts) = (if b = t then strip_common bs ts else (b # bs, t # ts))"
| "strip_common bs ts = (bs, ts)"

text \<open>\<open>filepath.Rel\<close> of two clean absolute paths.\<close>

definition rel_path :: "string \<Rightarrow> string \<Rightarrow> string" where
  "rel_path base targ =
     (case strip_common (path_elems base) (path_elems targ) of
        (bs, ts) \<Rightarrow> if bs = [] \<and> ts = [] then ''.'' else join ''/'' (replicate (length bs) ''..'' @ ts))"

datatype path_error = PathEmpty | PathUnresolved | WorkspaceUnresolved | PathEscapes

text \<open>\<open>eval\<close> is \<open>filepath.EvalSymlinks\<close>, \<open>None\<close> its error.\<close>

definition follow :: "(string \<Rightarrow> string option) \<Rightarrow> string \<Rightarrow> string" where
  "follow eval p = (case eval p of None \<Rightarrow> p | Some q \<Rightarrow> q)"

definition resolve_workspace_path ::
  "string option \<Rightarrow> (string \<Rightarrow> string option) \<Rightarrow> string \<Rightarrow> bool \<Rightarrow> string \<Rightarrow> path_error + string" where
  "resolve_workspace_path cwd eval ws restrict path0 =
     (let path = trim_space path0 in
      if path = [] then Inl PathEmpty
      else case abs_path cwd (clean_path path) of
          None \<Rightarrow> Inl PathUnresolved
        | Some p \<Rightarrow>
            (if \<not> restrict then Inr p
             else case abs_path cwd (clean_path ws) of
                 None \<Rightarrow> Inl WorkspaceUnresolved
               | Some w \<Rightarrow>
                   (let rel = rel_path (follow eval w) (follow eval p) in
                    if rel = ''..'' \<or> prefix ''../'' rel then Inl PathEscapes else Inr p)))"

subsection \<open>Requests of the subprocess\<close>

datatype permission_kind = AllowOnce | AllowAlways | OtherPermission

definition request_permission :: "(string \<times> permission_kind) list \<Rightarrow> string option" where
  "request_permission opts =
     (case find (\<lambda>p. snd p = AllowOnce \<or> snd p = AllowAlways) opts of
        Some (i, _) \<Rightarrow> Some i
      | None \<Rightarrow> (case opts of [] \<Rightarrow> None | (i, _) # _ \<Rightarrow> Some i))"

text \<open>A notification: the texts are those of text blocks, the paths those of changes.\<close>

datatype acp_update =
    ThoughtChunk "string option"
  | ToolCallStarted string string "string option list"
  | ToolCallChanged string "string option" "string option" "string option list"
  | MessageChunk "string option"
  | OtherUpdate

text \<open>What the subprocess has said so far: the lines passed to \<open>emit\<close> and the final text.\<close>

record delegate_client =
  dl_emitted :: "(string \<times> bool) list"
  dl_final :: string

definition diff_lines :: "string option list \<Rightarrow> (string \<times> bool) list" where
  "diff_lines ds = map (\<lambda>p. (encode_rune 128196 @ '' '' @ p @ [newline], False))
     (filter (\<lambda>p. trim_space p \<noteq> []) (concat (map (\<lambda>d. case d of None \<Rightarrow> [] | Some p \<Rightarrow> [p]) ds)))"

definition emit_lines :: "(string \<times> bool) list \<Rightarrow> delegate_client \<Rightarrow> delegate_client" where
  "emit_lines ls c = c\<lparr>dl_emitted := dl_emitted c @ ls\<rparr>"

definition opt_text :: "string option \<Rightarrow> string" where
  "opt_text t = (case t of None \<Rightarrow> [] | Some s \<Rightarrow> s)"

definition middle_dot :: string where "middle_dot = '' '' @ encode_rune 183 @ '' ''"

definition session_update :: "acp_update \<Rightarrow> delegate_client \<Rightarrow> delegate_client" where
  "session_update u c = (case u of
       ThoughtChunk t \<Rightarrow>
         (if opt_text t = [] then c else emit_lines [(encode_rune 128173 @ '' '' @ opt_text t @ [newline], False)] c)
     | ToolCallStarted title status changes \<Rightarrow>
         emit_lines ((encode_rune 128295 @ '' '' @ trim_space title @ '': '' @ status @ [newline], False) # diff_lines changes) c
     | ToolCallChanged i title status changes \<Rightarrow>
         emit_lines ((encode_rune 128295 @ '' '' @ i @ middle_dot @ trim_space (opt_text title) @ middle_dot @ opt_text status
           @ [newline], False) # diff_lines changes) c
     | MessageChunk t \<Rightarrow> c\<lparr>dl_final := dl_final c @ opt_text t\<rparr>
     | OtherUpdate \<Rightarrow> c)"

subsection \<open>Files\<close>

text \<open>A file request opens the path as it was sent, after the check of its clean form. \<open>dk_opened\<close> are the paths that
  were opened for writing or reading.\<close>

record delegate_disk =
  dk_cwd :: "string option"
  dk_eval :: "string \<Rightarrow> string option"
  dk_read :: "string \<Rightarrow> string option"
  dk_mkdir :: "string \<Rightarrow> bool"
  dk_write :: "string \<Rightarrow> bool"
  dk_opened :: "(string \<times> string option) list"

datatype file_error = NotAbsolute | PathRefused path_error | MkdirFails | WriteFails | ReadFailed | SlicePanic

text \<open>\<open>filepath.Dir\<close> of an absolute path.\<close>

definition dir_name :: "string \<Rightarrow> string" where
  "dir_name p = clean_path (case last_index (CHR ''/'') p of None \<Rightarrow> [] | Some i \<Rightarrow> take (Suc i) p)"

definition write_text_file ::
  "string \<Rightarrow> bool \<Rightarrow> string \<Rightarrow> string \<Rightarrow> delegate_disk \<Rightarrow> delegate_disk \<times> file_error option" where
  "write_text_file ws restrict path content d =
     (if \<not> prefix ''/'' path then (d, Some NotAbsolute)
      else case resolve_workspace_path (dk_cwd d) (dk_eval d) ws restrict path of
          Inl e \<Rightarrow> (d, Some (PathRefused e))
        | Inr _ \<Rightarrow>
            (if \<not> dk_mkdir d (dir_name path) then (d, Some MkdirFails)
             else (d\<lparr>dk_opened := dk_opened d @ [(path, Some content)]\<rparr>, if dk_write d path then None else Some WriteFails)))"

text \<open>The lines that are asked for; a slice whose end lies before its start panics.\<close>

definition window_start :: "nat \<Rightarrow> int option \<Rightarrow> int" where
  "window_start n line = (case line of
       None \<Rightarrow> 0
     | Some l \<Rightarrow> if l \<le> 0 then 0 else (let s = wrap64 (l - 1) in if s < 0 then 0 else if int n < s then int n else s))"

definition window_end :: "nat \<Rightarrow> int \<Rightarrow> int option \<Rightarrow> int" where
  "window_end n start limit = (case limit of
       None \<Rightarrow> int n
     | Some k \<Rightarrow> if 0 < k \<and> wrap64 (start + k) < int n then wrap64 (start + k) else int n)"

definition read_window :: "string \<Rightarrow> int option \<Rightarrow> int option \<Rightarrow> file_error + string" where
  "read_window content line limit =
     (if line = None \<and> limit = None then Inr content
      else let lns = split_char newline content; start = window_start (length lns) line; stop = window_end (length lns) start limit in
        if stop < start then Inl SlicePanic
        else Inr (join [newline] (take (nat (stop - start)) (drop (nat start) lns))))"

definition read_text_file ::
  "string \<Rightarrow> bool \<Rightarrow> string \<Rightarrow> int option \<Rightarrow> int option \<Rightarrow> delegate_disk \<Rightarrow> delegate_disk \<times> (file_error + string)" where
  "read_text_file ws restrict path line limit d =
     (if \<not> prefix ''/'' path then (d, Inl NotAbsolute)
      else case resolve_workspace_path (dk_cwd d) (dk_eval d) ws restrict path of
          Inl e \<Rightarrow> (d, Inl (PathRefused e))
        | Inr _ \<Rightarrow>
            (d\<lparr>dk_opened := dk_opened d @ [(path, None)]\<rparr>,
             case dk_read d path of None \<Rightarrow> Inl ReadFailed | Some s \<Rightarrow> read_window s line limit))"

text \<open>The terminal requests are all refused.\<close>

datatype terminal_request = CreateTerminal | TerminalOutput | ReleaseTerminal | WaitForTerminalExit | KillTerminal

definition terminal_refused :: "terminal_request \<Rightarrow> string" where
  "terminal_refused r = ''terminal not supported in gateway delegate mode''"

subsection \<open>A session\<close>

text \<open>The subprocess: the first error of its pipes and start, and of the three calls, and what it says during the prompt.\<close>

record acp_process =
  ap_stdin :: "string option"
  ap_stdout :: "string option"
  ap_start :: "string option"
  ap_initialize :: "string option"
  ap_new_session :: "string option"
  ap_prompt :: "string option"
  ap_updates :: "acp_update list"
  ap_stderr :: string

definition with_stderr :: "string \<Rightarrow> string \<Rightarrow> string" where
  "with_stderr err stderr =
     (if stderr = [] then err else err @ newline # ''acp subprocess stderr:'' @ newline # trim_space stderr)"

text \<open>The lines it emitted, and its answer.\<close>

definition run_acp_session :: "acp_process \<Rightarrow> (string \<times> bool) list \<times> (string + string)" where
  "run_acp_session a =
     (case ap_stdin a of Some e \<Rightarrow> ([], Inl (''acp stdin pipe: '' @ e))
      | None \<Rightarrow> (case ap_stdout a of Some e \<Rightarrow> ([], Inl (''acp stdout pipe: '' @ e))
      | None \<Rightarrow> (case ap_start a of Some e \<Rightarrow> ([], Inl (with_stderr (''start acp agent: '' @ e) (ap_stderr a)))
      | None \<Rightarrow> (case ap_initialize a of Some e \<Rightarrow> ([], Inl (with_stderr (''acp initialize: '' @ e) (ap_stderr a)))
      | None \<Rightarrow> (case ap_new_session a of Some e \<Rightarrow> ([], Inl (with_stderr (''acp new session: '' @ e) (ap_stderr a)))
      | None \<Rightarrow>
          (let c = fold session_update (ap_updates a) \<lparr>dl_emitted = [], dl_final = []\<rparr> in
           (dl_emitted c,
            case ap_prompt a of
              Some e \<Rightarrow> Inl (with_stderr (''acp prompt: '' @ e) (ap_stderr a))
            | None \<Rightarrow> Inr (trim_space (dl_final c)))))))))"

subsection \<open>The tool\<close>

record delegate_tool =
  dt_workspace :: string
  dt_restrict :: bool
  dt_agents :: "(string \<times> acp_agent) list"

definition new_delegate_tool :: "string \<Rightarrow> bool \<Rightarrow> (string \<times> acp_agent) list \<Rightarrow> delegate_tool" where
  "new_delegate_tool ws restrict agents =
     \<lparr>dt_workspace = ws, dt_restrict = restrict,
      dt_agents = fold (\<lambda>(k, v) m. if trim_space k = [] \<or> trim_space (aa_command v) = [] then m else map_put (trim_space k) v m) agents []\<rparr>"

definition acp_tools :: "config option \<Rightarrow> delegate_tool list" where
  "acp_tools cfg = (case cfg of
       None \<Rightarrow> []
     | Some c \<Rightarrow>
         (let t = new_delegate_tool (ac_workspace (c_agent c)) (tc_restrict (c_tools c)) (tc_acp_agents (c_tools c)) in
          if \<not> tc_acp_enabled (c_tools c) \<or> tc_acp_agents (c_tools c) = [] \<or> dt_agents t = [] then [] else [t]))"

definition delegate_param :: "(any \<Rightarrow> string) \<Rightarrow> metadata \<Rightarrow> string \<Rightarrow> string" where
  "delegate_param sprint m key = (case map_of m key of
       None \<Rightarrow> [] | Some AnyNil \<Rightarrow> [] | Some (AnyStr s) \<Rightarrow> s | Some v \<Rightarrow> sprint v)"

definition number_to_int :: "any \<Rightarrow> int option" where
  "number_to_int v = (case v of
       AnyInt n \<Rightarrow> Some n | AnyInt64 n \<Rightarrow> Some n | AnyFloat x \<Rightarrow> Some (float_to_int x) | _ \<Rightarrow> None)"

definition delegate_timeout :: "metadata \<Rightarrow> duration" where
  "delegate_timeout params =
     (let secs = (case map_of params ''timeout'' of
          None \<Rightarrow> 120
        | Some v \<Rightarrow> (case number_to_int v of Some n \<Rightarrow> if 0 < n then n else 120 | None \<Rightarrow> 120)) in
      wrap64 (secs * second))"

datatype delegate_error =
    NotConfigured | AgentRequired | UnknownAgent string | PromptRequired | BadDirectory path_error | SessionFailed string

text \<open>The subprocess is started with the agent, the directory, the prompt and the time it may take; \<open>spawn\<close> is what it
  then does. The result has the call, if there is one.\<close>

type_synonym delegate_call = "acp_agent \<times> string \<times> string \<times> duration"

definition stream_execute ::
  "(any \<Rightarrow> string) \<Rightarrow> string option \<Rightarrow> (string \<Rightarrow> string option) \<Rightarrow> (delegate_call \<Rightarrow> acp_process) \<Rightarrow> metadata \<Rightarrow> delegate_tool
    \<Rightarrow> delegate_call option \<times> (string \<times> bool) list \<times> (delegate_error + string)" where
  "stream_execute sprint cwd eval spawn params t =
     (if dt_agents t = [] then (None, [], Inl NotConfigured)
      else let name = trim_space (delegate_param sprint params ''agent'') in
        if name = [] then (None, [], Inl AgentRequired)
        else case map_of (dt_agents t) name of
            None \<Rightarrow> (None, [], Inl (UnknownAgent name))
          | Some agent \<Rightarrow>
              (let prompt = trim_space (delegate_param sprint params ''prompt'');
                   dir0 = trim_space (delegate_param sprint params ''cwd'') in
               if prompt = [] then (None, [], Inl PromptRequired)
               else case resolve_workspace_path cwd eval (dt_workspace t) (dt_restrict t)
                      (if dir0 = [] then dt_workspace t else dir0) of
                   Inl e \<Rightarrow> (None, [], Inl (BadDirectory e))
                 | Inr dir \<Rightarrow>
                     (let call = (agent, dir, prompt, delegate_timeout params) in
                      case run_acp_session (spawn call) of
                        (ls, Inl e) \<Rightarrow> (Some call, ls, Inl (SessionFailed e))
                      | (ls, Inr final) \<Rightarrow> (Some call, ls, Inr final))))"

subsection \<open>The check, exactly\<close>

definition clean_abs :: "string \<Rightarrow> bool" where
  "clean_abs p \<longleftrightarrow> prefix ''/'' p \<and> clean_path p = p"

lemma good_stack_plain: "good_stack True stk \<Longrightarrow> c \<in> set stk \<Longrightarrow> plain_elem c"
  by (induction stk) (auto split: if_splits)

text \<open>A clean absolute path has plain elements.\<close>

lemma clean_rooted:
  assumes "prefix ''/'' p"
  shows "\<exists>es. clean_path p = path_of True es \<and> good_stack True (rev es) \<and> path_elems (path_of True es) = es"
proof -
  let ?es = "clean_components True [] (split_char CHR ''/'' p)"
  have p: "p \<noteq> []" using assms by auto
  have g: "good_stack True (rev ?es)" using clean_components_good [of True "[]"] split_char_parts by simp
  have e: "path_elems (path_of True ?es) = ?es"
  proof (cases "?es = []")
    case False
    have "\<forall>l \<in> set ?es. CHR ''/'' \<notin> set l \<and> l \<noteq> []" using good_stack_parts [OF g] by auto
    then show ?thesis using split_join_parts [OF False, of "CHR ''/''"] by (simp add: path_elems_def path_of_def filter_id_conv)
  qed (simp add: path_elems_def path_of_def)
  have "clean_path p = path_of True ?es" using assms p by (simp add: clean_path_def path_of_def)
  with g e show ?thesis by blast
qed

lemma clean_abs_clean:
  assumes "prefix ''/'' p"
  shows "clean_abs (clean_path p)"
proof -
  obtain es where es: "clean_path p = path_of True es" "good_stack True (rev es)" using clean_rooted [OF assms] by blast
  have "clean_path (path_of True es) = path_of True es"
  proof (cases "es = []")
    case True
    have "clean_path ''/'' = ''/''" by code_simp
    then show ?thesis using True by (simp add: path_of_def)
  next
    case False
    have free: "\<forall>l \<in> set es. CHR ''/'' \<notin> set l" using good_stack_parts [OF es(2)] by auto
    have "clean_components True [] ([] # es) = es" using clean_components_stack [OF es(2), of "[]"] by simp
    moreover have "split_char CHR ''/'' (path_of True es) = [] # es" using split_join_parts [OF False free] by (simp add: path_of_def)
    ultimately show ?thesis using False good_stack_parts [OF es(2), of "hd es"] path_of_rooted [OF es(2) False]
      by (intro clean_path_parts) auto
  qed
  then show ?thesis unfolding clean_abs_def es(1) by (simp add: path_of_def)
qed

lemma clean_abs_elems: "clean_abs p \<Longrightarrow> c \<in> set (path_elems p) \<Longrightarrow> plain_elem c"
  using clean_rooted [of p] good_stack_plain by (metis clean_abs_def set_rev)

lemma strip_common_prefix: "fst (strip_common bs ts) = [] \<longleftrightarrow> prefix bs ts"
  by (induction bs ts rule: strip_common.induct) auto

lemma strip_common_rest: "set (snd (strip_common bs ts)) \<subseteq> set ts"
  by (induction bs ts rule: strip_common.induct) auto

lemma takeWhile_join: "CHR ''/'' \<notin> set t \<Longrightarrow> takeWhile (\<lambda>c. c \<noteq> CHR ''/'') (join ''/'' (t # rest)) = t"
  by (cases rest) (auto simp: takeWhile_append)

definition leads_up :: "string \<Rightarrow> bool" where
  "leads_up rel \<longleftrightarrow> rel = ''..'' \<or> prefix ''../'' rel"

lemma leads_up_first: "leads_up rel \<Longrightarrow> takeWhile (\<lambda>c. c \<noteq> CHR ''/'') rel = ''..''"
  by (auto simp: leads_up_def prefix_def)

lemma rel_path_leads_up:
  assumes "clean_abs t"
  shows "leads_up (rel_path b t) \<longleftrightarrow> \<not> prefix (path_elems b) (path_elems t)"
proof -
  obtain bs ts where s: "strip_common (path_elems b) (path_elems t) = (bs, ts)" by fastforce
  have p: "prefix (path_elems b) (path_elems t) \<longleftrightarrow> bs = []" using strip_common_prefix [of "path_elems b" "path_elems t"] s by simp
  show ?thesis
  proof (cases bs)
    case Nil
    have "\<not> leads_up (rel_path b t)"
    proof (cases ts)
      case (Cons x rest)
      have "plain_elem x" using clean_abs_elems [OF assms, of x] strip_common_rest [of "path_elems b" "path_elems t"] s Cons by auto
      then have "takeWhile (\<lambda>c. c \<noteq> CHR ''/'') (rel_path b t) \<noteq> ''..''"
        using takeWhile_join [of x rest] s Nil Cons by (simp add: rel_path_def plain_elem_def)
      then show ?thesis using leads_up_first by blast
    qed (use s Nil in \<open>simp add: rel_path_def leads_up_def\<close>)
    then show ?thesis using p Nil by simp
  next
    case (Cons c cs)
    then have "rel_path b t = join ''/'' (''..'' # replicate (length cs) ''..'' @ ts)" using s by (simp add: rel_path_def)
    moreover have "leads_up (join ''/'' (''..'' # xs))" for xs by (cases xs) (simp_all add: leads_up_def)
    ultimately show ?thesis using p Cons by simp
  qed
qed

lemma abs_path_clean: "\<forall>d. cwd = Some d \<longrightarrow> prefix ''/'' d \<Longrightarrow> q \<noteq> [] \<Longrightarrow> abs_path cwd q = Some p \<Longrightarrow> clean_abs p"
proof -
  assume c: "\<forall>d. cwd = Some d \<longrightarrow> prefix ''/'' d" and q: "q \<noteq> []" and a: "abs_path cwd q = Some p"
  show "clean_abs p"
  proof (cases "prefix ''/'' q")
    case False
    then obtain d where d: "cwd = Some d" "p = join_path [d, q]" using a by (auto simp: abs_path_def)
    then have "prefix ''/'' (d @ CHR ''/'' # q)" using c by (auto simp: prefix_def)
    then have "clean_abs (clean_path (d @ CHR ''/'' # q))" by (rule clean_abs_clean)
    moreover have "join_path [d, q] = clean_path (d @ CHR ''/'' # q)" using c d(1) q by (auto simp: join_path_def prefix_def)
    ultimately show ?thesis using d by simp
  qed (use a clean_abs_clean in \<open>auto simp: abs_path_def\<close>)
qed

lemma clean_path_nonempty: "clean_path q \<noteq> []"
  by (simp add: clean_path_def Let_def)

text \<open>With the check on, a path is taken exactly when it is there after its links are followed, if they can be, below the
  workspace after its links.\<close>

lemma resolve_exact:
  assumes "\<forall>p q. eval p = Some q \<longrightarrow> clean_abs q" and "\<forall>d. cwd = Some d \<longrightarrow> prefix ''/'' d"
  shows "resolve_workspace_path cwd eval ws True path = Inr p \<longleftrightarrow>
    trim_space path \<noteq> [] \<and> abs_path cwd (clean_path (trim_space path)) = Some p
    \<and> (\<exists>w. abs_path cwd (clean_path ws) = Some w \<and> prefix (path_elems (follow eval w)) (path_elems (follow eval p)))"
proof -
  have "clean_abs (follow eval x)" if "abs_path cwd (clean_path y) = Some x" for x y
    using abs_path_clean [OF assms(2) clean_path_nonempty that] assms(1) by (auto simp: follow_def split: option.split)
  then have "leads_up (rel_path (follow eval w) (follow eval x))
      \<longleftrightarrow> \<not> prefix (path_elems (follow eval w)) (path_elems (follow eval x))" if "abs_path cwd (clean_path y) = Some x" for w x y
    using that rel_path_leads_up by blast
  then show ?thesis
    by (auto simp: resolve_workspace_path_def Let_def leads_up_def split: option.splits)
qed

lemma stream_execute_call:
  assumes "fst (stream_execute sprint cwd eval spawn params t) = Some (agent, dir, prompt, timeout)"
  shows "agent \<in> snd ` set (dt_agents t)" and "prompt \<noteq> []"
    and "\<exists>dir0. resolve_workspace_path cwd eval (dt_workspace t) (dt_restrict t) dir0 = Inr dir"
proof -
  let ?name = "trim_space (delegate_param sprint params ''agent'')"
  let ?prompt = "trim_space (delegate_param sprint params ''prompt'')"
  let ?dir0 = "trim_space (delegate_param sprint params ''cwd'')"
  let ?d = "if ?dir0 = [] then dt_workspace t else ?dir0"
  let ?r = "resolve_workspace_path cwd eval (dt_workspace t) (dt_restrict t) ?d"
  have n1: "dt_agents t \<noteq> []" using assms by (cases "dt_agents t = []") (simp_all add: stream_execute_def)
  have n2: "?name \<noteq> []" using assms n1 by (cases "?name = []") (simp_all add: stream_execute_def)
  note n = n1 n2
  then obtain a where a: "map_of (dt_agents t) ?name = Some a"
    using assms by (cases "map_of (dt_agents t) ?name") (simp_all add: stream_execute_def Let_def)
  have p: "?prompt \<noteq> []" using assms n a by (cases "?prompt = []") (simp_all add: stream_execute_def)
  obtain x where x: "?r = Inr x" using assms n a p by (cases ?r) (simp_all add: stream_execute_def Let_def)
  have "fst (stream_execute sprint cwd eval spawn params t) = Some (a, x, ?prompt, delegate_timeout params)"
    unfolding stream_execute_def Let_def using n a p x by (simp split: prod.split sum.split)
  then have e: "agent = a" "dir = x" "prompt = ?prompt" using assms by simp_all
  show "agent \<in> snd ` set (dt_agents t)" using map_of_SomeD [OF a] e(1) by force
  show "prompt \<noteq> []" using p e(3) by simp
  show "\<exists>dir0. resolve_workspace_path cwd eval (dt_workspace t) (dt_restrict t) dir0 = Inr dir" using x e(2) by blast
qed


subsection \<open>Reading a window of lines\<close>

text \<open>Within the integers the window is the asked-for lines; at their end the sum wraps and the slice panics.\<close>

lemma read_window_lines:
  assumes "1 \<le> l" and "1 \<le> k" and "l \<le> int (length (split_char newline content)) + 1" and "l - 1 + k \<le> int64_max"
  shows "read_window content (Some l) (Some k) = Inr (join [newline] (take (nat k) (drop (nat (l - 1)) (split_char newline content))))"
proof -
  let ?n = "length (split_char newline content)"
  have w: "wrap64 (l - 1) = l - 1" "wrap64 (l - 1 + k) = l - 1 + k"
    using assms by (auto intro!: wrap64_id simp: in_int64_def int64_min_def int64_max_def)
  then have st: "window_start ?n (Some l) = l - 1" using assms by (simp add: window_start_def)
  have en: "window_end ?n (l - 1) (Some k) = (if l - 1 + k < int ?n then l - 1 + k else int ?n)"
    using assms w by (simp add: window_end_def)
  show ?thesis
  proof (cases "l - 1 + k < int ?n")
    case True
    then show ?thesis using assms en st by (simp add: read_window_def Let_def)
  next
    case False
    have "nat (int ?n - (l - 1)) = ?n - nat (l - 1)" using assms by simp
    moreover have "?n - nat (l - 1) \<le> nat k" using False assms by simp
    ultimately have "take (nat (int ?n - (l - 1))) (drop (nat (l - 1)) (split_char newline content))
        = take (nat k) (drop (nat (l - 1)) (split_char newline content))" by simp
    then show ?thesis using False assms en st by (simp add: read_window_def Let_def)
  qed
qed

lemma read_window_panics: "read_window ''a'' (Some 2) (Some int64_max) = Inl SlicePanic"
  by code_simp

subsection \<open>What the check of a file misses\<close>

text \<open>How the kernel finds a file: links, given by the path of their target, are followed element by element.\<close>

fun kernel_walk :: "(string list \<times> string list) list \<Rightarrow> string list \<Rightarrow> string list \<Rightarrow> string list" where
  "kernel_walk links here [] = here"
| "kernel_walk links here (c # cs) =
     (if c = [] \<or> c = ''.'' then kernel_walk links here cs
      else if c = ''..'' then kernel_walk links (butlast here) cs
      else case map_of links (here @ [c]) of
          None \<Rightarrow> kernel_walk links (here @ [c]) cs
        | Some target \<Rightarrow> kernel_walk links target cs)"

definition demo_links :: "(string list \<times> string list) list" where
  "demo_links = [([''w'', ''l''], [''etc'', ''d''])]"

text \<open>\<open>/w/l\<close> links to \<open>/etc/d\<close>; the files that are asked for do not exist yet.\<close>

definition demo_disk :: delegate_disk where
  "demo_disk = \<lparr>dk_cwd = Some ''/w'', dk_eval = (\<lambda>p. if p = ''/w'' then Some ''/w'' else if p = ''/w/l'' then Some ''/etc/d'' else None),
     dk_read = (\<lambda>_. None), dk_mkdir = (\<lambda>_. True), dk_write = (\<lambda>_. True), dk_opened = []\<rparr>"

definition opened_at :: "string \<Rightarrow> (string list \<times> file_error option) list" where
  "opened_at path =
     (case write_text_file ''/w'' True path ''x'' demo_disk of
        (d, e) \<Rightarrow> map (\<lambda>p. (kernel_walk demo_links [] (split_char CHR ''/'' (fst p)), e)) (dk_opened d))"

text \<open>A new file behind a link out of the workspace is written, since the links of a path that does not exist yet cannot
  be followed; and so is one behind \<open>..\<close>, since the clean path is checked and the other one is opened.\<close>

lemma new_file_leaves_workspace: "opened_at ''/w/l/new'' = [([''etc'', ''d'', ''new''], None)]"
  by code_simp

lemma dots_leave_workspace: "opened_at ''/w/l/../passwd'' = [([''etc'', ''passwd''], None)]"
  by code_simp

text \<open>And a workspace that is itself behind a link takes no new file.\<close>

lemma linked_workspace_refuses_new_files:
  "resolve_workspace_path None (\<lambda>p. if p = ''/tmp/w'' then Some ''/private/tmp/w'' else None) ''/tmp/w'' True ''/tmp/w/new''
    = Inl PathEscapes"
  by code_simp

subsection \<open>Witness\<close>

definition demo_process :: acp_process where
  "demo_process = \<lparr>ap_stdin = None, ap_stdout = None, ap_start = None, ap_initialize = None, ap_new_session = None, ap_prompt = None,
     ap_updates = [MessageChunk (Some ''done'')], ap_stderr = []\<rparr>"

definition demo_agent :: acp_agent where
  "demo_agent = \<lparr>aa_command = ''codex'', aa_args = [], aa_env = []\<rparr>"

definition demo_tool :: delegate_tool where
  "demo_tool = \<lparr>dt_workspace = ''/w'', dt_restrict = True, dt_agents = [(''codex'', demo_agent)]\<rparr>"

definition demo_params :: metadata where
  "demo_params = [(''agent'', AnyStr ''codex''), (''prompt'', AnyStr ''fix''), (''cwd'', AnyStr ''sub'')]"


end
