(* ===== verification/Cli.thy ===== *)
theory Cli
  imports ConfigSave Skills
begin

text \<open>
  \<open>cmd/maven/main.go\<close> and \<open>internal/version\<close>: the commands of the program: starting in the background, onboarding, status and
  the inspection of skills. The file system is a function from paths, changed by what a command creates; how each call
  goes, the environment and the numbers of processes are arguments.
\<close>

subsection \<open>In the background\<close>

definition is_daemon_flag :: "string \<Rightarrow> bool" where "is_daemon_flag a \<longleftrightarrow> a = ''-d'' \<or> a = ''--daemon''"

definition should_daemonize :: "string list \<Rightarrow> bool" where "should_daemonize args = list_ex is_daemon_flag args"

definition daemon_subcmd :: "string list \<Rightarrow> string" where
  "daemon_subcmd args = (case find (\<lambda>a. \<not> prefix ''-'' a) args of Some a \<Rightarrow> a | None \<Rightarrow> ''maven'')"

definition daemon_args :: "string list \<Rightarrow> string list" where "daemon_args args = filter (\<lambda>a. \<not> is_daemon_flag a) args"

datatype daemon_error = DaemonDirErr | DaemonLogErr | DaemonExeErr | DaemonStartErr | DaemonPidErr

record daemon_io =
  di_mkdir :: bool
  di_log :: bool
  di_exe :: "string option"
  di_start :: "nat option"
  di_write :: bool

text \<open>The process that is started, and what is written to which pid file.\<close>

record daemon_result =
  dr_child :: "(string \<times> string list \<times> string) option"
  dr_pid_file :: "(string \<times> string) option"

definition spawn_daemon :: "string \<Rightarrow> daemon_io \<Rightarrow> string list \<Rightarrow> daemon_result \<times> daemon_error option" where
  "spawn_daemon home io args =
     (let sub = daemon_subcmd args;
          logPath = join_path [config_dir home, sub @ ''.log''];
          pidPath = join_path [config_dir home, sub @ ''.pid''];
          none = \<lparr>dr_child = None, dr_pid_file = None\<rparr> in
      if \<not> di_mkdir io then (none, Some DaemonDirErr)
      else if \<not> di_log io then (none, Some DaemonLogErr)
      else case di_exe io of
          None \<Rightarrow> (none, Some DaemonExeErr)
        | Some exe \<Rightarrow>
            (case di_start io of
               None \<Rightarrow> (none, Some DaemonStartErr)
             | Some pid \<Rightarrow>
                 (let child = Some (exe, daemon_args args, logPath) in
                  if di_write io then (\<lparr>dr_child = child, dr_pid_file = Some (pidPath, show_int (int pid))\<rparr>, None)
                  else (\<lparr>dr_child = child, dr_pid_file = None\<rparr>, Some DaemonPidErr))))"

subsection \<open>Onboarding\<close>

datatype node = NoNode | StatFails | DirNode | TextNode string | ConfigNode config_file

type_synonym disk = "string \<Rightarrow> node"

record onboard_io =
  oi_mkdir :: "string \<Rightarrow> bool"
  oi_write :: "string \<Rightarrow> bool"

definition make_dirs :: "string \<Rightarrow> disk \<Rightarrow> disk" where
  "make_dirs p d = (\<lambda>q. if q \<noteq> [] \<and> (q = p \<or> prefix (q @ ''/'') p) \<and> d q = NoNode then DirNode else d q)"

definition read_config :: "node \<Rightarrow> config_file" where
  "read_config n = (case n of
       NoNode \<Rightarrow> CfgMissing | StatFails \<Rightarrow> CfgUnreadable | DirNode \<Rightarrow> CfgUnreadable | TextNode t \<Rightarrow> CfgSyntax | ConfigNode f \<Rightarrow> f)"

definition write_if_missing :: "onboard_io \<Rightarrow> string \<Rightarrow> string \<Rightarrow> disk \<Rightarrow> disk" where
  "write_if_missing io p content d = (if d p = NoNode \<and> oi_write io p then d(p := TextNode content) else d)"

definition resolve_skills_dir :: "config \<Rightarrow> string" where
  "resolve_skills_dir c =
     (if sc_dir (c_skills c) \<noteq> [] then sc_dir (c_skills c) else join_path [ac_workspace (c_agent c), ''skills''])"

text \<open>The texts of the two files that a new workspace gets are arguments; \<open>OnboardPanics\<close> is the nil configuration that is read
  when the file cannot be loaded.\<close>

datatype onboard_error = OnboardDirErr | OnboardConfigErr | OnboardPanics config_error | OnboardWorkspaceErr | OnboardSkillsErr

definition workspace_files :: "string \<Rightarrow> string \<Rightarrow> string \<Rightarrow> (string \<times> string) list" where
  "workspace_files agentsMD soulMD ws =
     [(join_path [ws, ''AGENTS.md''], agentsMD), (join_path [ws, ''SOUL.md''], soulMD),
      (join_path [ws, ''memory'', ''MEMORY.md''], []), (join_path [ws, ''HEARTBEAT.md''], [])]"

definition run_onboard ::
  "(rat \<Rightarrow> string) \<Rightarrow> (string \<Rightarrow> rat option) \<Rightarrow> string \<Rightarrow> environ \<Rightarrow> string \<times> string \<Rightarrow> onboard_io \<Rightarrow> disk \<Rightarrow> disk \<times> onboard_error option" where
  "run_onboard sf pf home env texts io d =
     (let cfgPath = config_path home env in
      if \<not> oi_mkdir io (config_dir home) then (d, Some OnboardDirErr)
      else let d1 = make_dirs (config_dir home) d in
        if d1 cfgPath = NoNode \<and> \<not> oi_write io cfgPath then (d1, Some OnboardConfigErr)
        else let d2 = (if d1 cfgPath = NoNode then d1(cfgPath := ConfigNode (CfgJson (encode_config sf (default_config home)))) else d1) in
          case load_config pf home env (read_config (d2 cfgPath)) of
            Inl e \<Rightarrow> (d2, Some (OnboardPanics e))
          | Inr c \<Rightarrow>
              (let ws = ac_workspace (c_agent c); mem = join_path [ws, ''memory''] in
               if \<not> oi_mkdir io mem then (d2, Some OnboardWorkspaceErr)
               else let d3 = make_dirs mem d2 in
                 if \<not> oi_mkdir io (resolve_skills_dir c) then (d3, Some OnboardSkillsErr)
                 else (foldl (\<lambda>d (p, t). write_if_missing io p t d) (make_dirs (resolve_skills_dir c) d3)
                         (workspace_files (fst texts) (snd texts) ws), None)))"

subsection \<open>Status\<close>

definition provider_display :: "string \<Rightarrow> string" where
  "provider_display t = (if t = [] then ''anthropic (default)'' else t)"

definition key_line :: "string \<Rightarrow> string" where
  "key_line k =
     (if 8 < length k then ''API Key: '' @ take 4 k @ ''...'' @ drop (length k - 4) k
      else if k \<noteq> [] then ''API Key: set'' else ''API Key: not set'')"

definition show_bool :: "bool \<Rightarrow> string" where "show_bool b = (if b then ''true'' else ''false'')"

text \<open>\<open>stat\<close> tells whether the workspace is there, \<open>memory\<close> is \<open>MEMORY.md\<close> as \<open>ReadLongTerm\<close> gives it, empty on an error.\<close>

definition status_lines :: "string \<Rightarrow> bool \<Rightarrow> string \<Rightarrow> config \<Rightarrow> string list" where
  "status_lines cfgPath stat memory c =
     [''Config: '' @ cfgPath, ''Workspace: '' @ ac_workspace (c_agent c), ''Model: '' @ ac_model (c_agent c),
      ''Provider: '' @ provider_display (pc_type (c_provider c)), key_line (pc_api_key (c_provider c)),
      ''Telegram: enabled='' @ show_bool (tg_enabled (ch_telegram (c_channels c))),
      ''Feishu: enabled='' @ show_bool (fs_enabled (ch_feishu (c_channels c))),
      ''WeCom: enabled='' @ show_bool (wc_enabled (ch_wecom (c_channels c))),
      ''Matrix: enabled='' @ show_bool (mx_enabled (ch_matrix (c_channels c))),
      ''Skills: enabled='' @ show_bool (sc_enabled (c_skills c)) @ '' dir='' @ resolve_skills_dir c,
      if \<not> stat then ''Workspace: not found (run 'maven onboard')''
      else if memory \<noteq> [] then ''Memory: '' @ show_int (int (length memory)) @ '' bytes'' else ''Memory: empty'']"

record build_info =
  bi_version :: string
  bi_commit :: string
  bi_date :: string
  bi_sdk :: string
  bi_go :: string

text \<open>A module of the build: its path, its version, and that of its replacement if it has one.\<close>

type_synonym build_module = "string \<times> string \<times> string option"

definition module_version :: "build_module \<Rightarrow> string" where
  "module_version m = (case m of (path, ver, repl) \<Rightarrow>
     (case repl of
        Some v \<Rightarrow> if trim_space v \<noteq> [] then trim_space v else ''(local)''
      | None \<Rightarrow> if trim_space ver \<noteq> [] then trim_space ver else ''unknown''))"

definition sdk_module :: string where "sdk_module = ''github.com/ageneralai/ageneral-agents-go''"

definition load_build :: "string \<times> string \<times> string \<Rightarrow> (string \<times> build_module list) option \<Rightarrow> build_info" where
  "load_build stamp read = (case stamp of (ver, commit, date) \<Rightarrow>
     (case read of
        None \<Rightarrow> \<lparr>bi_version = ver, bi_commit = commit, bi_date = date, bi_sdk = ''unknown'', bi_go = ''unknown''\<rparr>
      | Some (go, deps) \<Rightarrow>
          \<lparr>bi_version = ver, bi_commit = commit, bi_date = date,
           bi_sdk = (case find (\<lambda>m. fst m = sdk_module) deps of Some m \<Rightarrow> module_version m | None \<Rightarrow> ''unknown''), bi_go = go\<rparr>))"

definition build_lines :: "build_info \<Rightarrow> string list" where
  "build_lines b =
     [''Build:'', ''  maven  '' @ bi_version b @ '' ('' @ bi_commit b @ '', '' @ bi_date b @ '')'',
      ''  sdk    '' @ sdk_module @ '' '' @ bi_sdk b, ''  go     '' @ bi_go b]"

definition run_status ::
  "string list \<Rightarrow> string \<Rightarrow> (config_error \<Rightarrow> string) \<Rightarrow> bool \<Rightarrow> string \<Rightarrow> config_error + config \<Rightarrow> string list" where
  "run_status build cfgPath show stat memory loaded =
     build @ [[]] @ (case loaded of Inl e \<Rightarrow> [''Config: error ('' @ show e @ '')''] | Inr c \<Rightarrow> status_lines cfgPath stat memory c)"

subsection \<open>Skills\<close>

text \<open>What a command prints: lines, or one JSON value.\<close>

datatype cli_output = Lines "string list" | Json json

datatype cli_error =
    CliConfigErr config_error | CliSkillsErr skill_error | SkillsDisabled | SkillNameRequired | SkillNotFound string
  | SkillsStatErr | SkillsPathIsFile string | SkillsListErr

definition json_strings :: "string list \<Rightarrow> json" where "json_strings xs = JArr (map JStr xs)"

definition skill_description :: "skill_reg \<Rightarrow> string" where
  "skill_description r =
     (if trim_space (rg_description r) = [] then ''(no description)'' else trim_space (rg_description r))"

text \<open>The keywords are those of the keyword matcher, if the skill has one; nil is printed as \<open>null\<close>.\<close>

definition skill_keywords :: "skill_reg \<Rightarrow> string list" where "skill_keywords r = normalize_keywords (rg_keywords r)"

definition keywords_json :: "skill_reg \<Rightarrow> json" where
  "keywords_json r = (if rg_keywords r = [] then JNull else json_strings (skill_keywords r))"

definition skill_json :: "skill_reg \<Rightarrow> json" where
  "skill_json r =
     JObj [(''name'', JStr (rg_name r)), (''description'', JStr (skill_description r)), (''keywords'', keywords_json r)]"

definition list_json :: "bool \<Rightarrow> string \<Rightarrow> skill_reg list \<Rightarrow> json" where
  "list_json enabled dir regs =
     JObj [(''schemaVersion'', JNum ''1''), (''command'', JStr ''skills.list''), (''ok'', JBool True), (''enabled'', JBool enabled),
       (''dir'', JStr dir), (''loaded'', JNum (show_int (int (length regs)))), (''skills'', JArr (map skill_json regs))]"

definition skills_header :: "bool \<Rightarrow> string \<Rightarrow> string" where
  "skills_header enabled dir = ''Skills: enabled='' @ show_bool enabled @ '' dir='' @ dir"

text \<open>\<open>fs\<close> gives what the directory holds.\<close>

definition run_skills_list ::
  "(string \<Rightarrow> skill_meta option) \<Rightarrow> (string \<Rightarrow> skills_dir) \<Rightarrow> bool \<Rightarrow> config_error + config \<Rightarrow> cli_error + cli_output" where
  "run_skills_list yaml fs asJson loaded = (case loaded of
       Inl e \<Rightarrow> Inl (CliConfigErr e)
     | Inr c \<Rightarrow>
         (let dir = resolve_skills_dir c; enabled = sc_enabled (c_skills c); h = skills_header enabled dir in
          if \<not> enabled then Inr (if asJson then Json (list_json enabled dir []) else Lines [h, ''Skills are disabled in config.''])
          else case load_skills yaml dir (fs (trim_space dir)) of
              Inl e \<Rightarrow> Inl (CliSkillsErr e)
            | Inr regs \<Rightarrow>
                Inr (if asJson then Json (list_json enabled dir regs)
                     else Lines ([h, ''Loaded skills: '' @ show_int (int (length regs))]
                       @ (if regs = [] then [''No skills found.'']
                          else map (\<lambda>r. ''- '' @ rg_name r @ '': '' @ skill_description r) regs)))))"

definition find_skill :: "skill_reg list \<Rightarrow> string \<Rightarrow> skill_reg option" where
  "find_skill regs name =
     (let target = trim_space name in
      if target = [] then None
      else case find (\<lambda>r. rg_name r = target) regs of
          Some r \<Rightarrow> Some r
        | None \<Rightarrow> find (\<lambda>r. to_lower (rg_name r) = to_lower target) regs)"

definition summarize_skill :: "string \<Rightarrow> string" where
  "summarize_skill body =
     (if trim_space body = [] then [] else join [newline] (take 8 (split_char newline (trim_space body))))"

definition run_skills_info ::
  "(string \<Rightarrow> skill_meta option) \<Rightarrow> (string \<Rightarrow> skills_dir) \<Rightarrow> bool \<Rightarrow> string \<Rightarrow> config_error + config \<Rightarrow> cli_error + cli_output" where
  "run_skills_info yaml fs asJson name loaded = (case loaded of
       Inl e \<Rightarrow> Inl (CliConfigErr e)
     | Inr c \<Rightarrow>
         (if \<not> sc_enabled (c_skills c) then Inl SkillsDisabled
          else if trim_space name = [] then Inl SkillNameRequired
          else let dir = resolve_skills_dir c in
            case load_skills yaml dir (fs (trim_space dir)) of
              Inl e \<Rightarrow> Inl (CliSkillsErr e)
            | Inr regs \<Rightarrow>
                (case find_skill regs (trim_space name) of
                   None \<Rightarrow> Inl (SkillNotFound (trim_space name))
                 | Some r \<Rightarrow>
                     Inr (if asJson
                          then Json (JObj [(''schemaVersion'', JNum ''1''), (''command'', JStr ''skills.info''), (''ok'', JBool True),
                            (''name'', JStr (rg_name r)), (''description'', JStr (skill_description r)), (''dir'', JStr dir),
                            (''keywords'', keywords_json r), (''source'', JStr (rg_path r)),
                            (''preview'', JStr (summarize_skill (rg_body r)))])
                          else Lines ([''Name: '' @ rg_name r, ''Description: '' @ skill_description r, ''Skills dir: '' @ dir,
                              if rg_keywords r = [] then ''Keywords: (none)'' else ''Keywords: '' @ join '', '' (skill_keywords r)]
                            @ (if rg_path r = [] then [] else [''Source: '' @ rg_path r])
                            @ (if summarize_skill (rg_body r) = [] then []
                               else [''Prompt preview:'', summarize_skill (rg_body r)]))))))"

definition check_json :: "bool \<Rightarrow> string \<Rightarrow> nat \<Rightarrow> nat \<Rightarrow> string list \<Rightarrow> string \<Rightarrow> (string \<times> json) list \<Rightarrow> json" where
  "check_json enabled dir folders n missing result extra =
     JObj ([(''schemaVersion'', JNum ''1''), (''command'', JStr ''skills.check''), (''ok'', JBool True), (''enabled'', JBool enabled),
       (''dir'', JStr dir), (''skillFolders'', JNum (show_int (int folders))), (''loaded'', JNum (show_int (int n))),
       (''missingSkillMD'', json_strings missing), (''result'', JStr result)] @ extra)"

definition missing_skills :: "skill_entry list \<Rightarrow> string list" where
  "missing_skills es = sort (map se_name (filter (\<lambda>e. se_is_dir e \<and> se_skill e = ReadMissing) es))"

definition run_skills_check ::
  "(string \<Rightarrow> skill_meta option) \<Rightarrow> (string \<Rightarrow> skills_dir) \<Rightarrow> bool \<Rightarrow> config_error + config \<Rightarrow> cli_error + cli_output" where
  "run_skills_check yaml fs asJson loaded = (case loaded of
       Inl e \<Rightarrow> Inl (CliConfigErr e)
     | Inr c \<Rightarrow>
         (let dir = resolve_skills_dir c; enabled = sc_enabled (c_skills c); h = skills_header enabled dir in
          if \<not> enabled then
            Inr (if asJson then Json (check_json enabled dir 0 0 [] ''disabled'' []) else Lines [h, ''Result: disabled''])
          else case fs dir of
              NoSkillsDir \<Rightarrow>
                Inr (if asJson then Json (check_json enabled dir 0 0 [] ''ok'' [(''note'', JStr ''skills directory not found'')])
                     else Lines [h, ''Skills directory: not found'', ''Result: ok (no skills loaded)''])
            | SkillsStatFails \<Rightarrow> Inl SkillsStatErr
            | SkillsIsFile \<Rightarrow> Inl (SkillsPathIsFile dir)
            | SkillsUnlistable \<Rightarrow> Inl SkillsListErr
            | SkillsEntries es \<Rightarrow>
                (case load_skills yaml dir (fs (trim_space dir)) of
                   Inl e \<Rightarrow> Inl (CliSkillsErr e)
                 | Inr regs \<Rightarrow>
                     (let folders = length (filter se_is_dir es); missing = missing_skills es in
                      Inr (if asJson then Json (check_json enabled dir folders (length regs) missing ''ok'' [])
                           else Lines ([h, ''Skill folders: '' @ show_int (int folders), ''Loaded skills: '' @ show_int (int (length regs))]
                             @ (if missing = [] then [] else [''Missing SKILL.md: '' @ join '', '' missing]) @ [''Result: ok'']))))))"

subsection \<open>What onboarding leaves alone\<close>

definition keeps_nodes :: "disk \<Rightarrow> disk \<Rightarrow> bool" where
  "keeps_nodes d d' \<longleftrightarrow> (\<forall>q. d q \<noteq> NoNode \<longrightarrow> d' q = d q)"

lemma keeps_refl [simp]: "keeps_nodes d d" by (simp add: keeps_nodes_def)

lemma keeps_trans: "keeps_nodes d d' \<Longrightarrow> keeps_nodes d' d'' \<Longrightarrow> keeps_nodes d d''"
  unfolding keeps_nodes_def by metis

lemma keeps_make_dirs [simp]: "keeps_nodes d (make_dirs p d)" by (simp add: keeps_nodes_def make_dirs_def)

lemma keeps_create: "d p = NoNode \<Longrightarrow> keeps_nodes d (d(p := n))" by (auto simp: keeps_nodes_def)

lemma keeps_write [simp]: "keeps_nodes d (write_if_missing io p t d)"
  by (simp add: write_if_missing_def keeps_create)

lemma keeps_writes: "keeps_nodes d (foldl (\<lambda>d (p, t). write_if_missing io p t d) d fs)"
proof (induction fs arbitrary: d)
  case (Cons f fs)
  show ?case using keeps_trans [OF keeps_write Cons.IH] by (cases f) simp
qed simp

text \<open>Onboarding changes nothing that is there, whether it succeeds or not.\<close>

lemma onboard_keeps: "keeps_nodes d (fst (run_onboard sf pf home env texts io d))"
proof -
  let ?d1 = "make_dirs (config_dir home) d" and ?p = "config_path home env"
  let ?d2 = "if ?d1 ?p = NoNode then ?d1(?p := ConfigNode (CfgJson (encode_config sf (default_config home)))) else ?d1"
  have k2: "keeps_nodes d ?d2" using keeps_trans [OF keeps_make_dirs keeps_create [of ?d1 ?p]] by simp
  have k3: "keeps_nodes d (make_dirs m ?d2)" for m by (rule keeps_trans [OF k2 keeps_make_dirs])
  have k4: "keeps_nodes d (foldl (\<lambda>d (p, t). write_if_missing io p t d) (make_dirs s (make_dirs m ?d2)) fs)" for m s fs
    by (rule keeps_trans [OF keeps_trans [OF k3 keeps_make_dirs] keeps_writes])
  show ?thesis using k2 k3 k4 by (auto simp: run_onboard_def Let_def split: sum.split)
qed

text \<open>A configuration file that cannot be loaded stops the command with a nil pointer.\<close>

lemma onboard_panics_on_bad_config:
  assumes "oi_mkdir io (config_dir home)" and "d (config_path home env) = ConfigNode CfgSyntax"
  shows "snd (run_onboard sf pf home env texts io d) = Some (OnboardPanics ParseConfigErr)"
  using assms by (simp add: run_onboard_def make_dirs_def Let_def read_config_def load_config_def decode_config_def bind_res_def)

text \<open>The configuration that is created is read back as the default one, so that onboarding goes on to the workspace.\<close>

lemma default_config_reads:
  assumes "pf (sf default_threshold) = Some default_threshold" and "\<forall>v. trim_space (env v) = []"
  shows "load_config pf home env (CfgJson (encode_config sf (default_config home))) = Inr (default_config home)"
proof -
  have t: "au_threshold (c_auto_compact (default_config home)) = default_threshold" by (simp add: default_config_def)
  have w: "ac_workspace (c_agent (default_config home)) \<noteq> []" by (simp add: default_config_def default_workspace_nonempty)
  have "dec_struct (config_fields pf) (encode_config sf (default_config home)) (default_config home) = (default_config home, False)"
    by (rule config_reads [OF typed_default, where home = home])
      (use assms(1) in \<open>simp_all add: t, simp_all add: default_config_def default_threshold_def\<close>)
  then show ?thesis
    using w blank_env [OF assms(2)] by (simp add: load_config_def decode_config_def default_if_empty_def)
qed

text \<open>Every file and directory it is to make is there afterwards, if the writes go through.\<close>

lemma make_dirs_there: "p \<noteq> [] \<Longrightarrow> make_dirs p d p \<noteq> NoNode"
  by (simp add: make_dirs_def)

lemma write_there: "oi_write io p \<Longrightarrow> write_if_missing io p t d p \<noteq> NoNode"
  by (simp add: write_if_missing_def)

lemma keeps_there: "keeps_nodes d d' \<Longrightarrow> d q \<noteq> NoNode \<Longrightarrow> d' q \<noteq> NoNode"
  unfolding keeps_nodes_def by metis

lemma writes_there:
  assumes "\<And>p. oi_write io p" and "(p, t) \<in> set fs"
  shows "foldl (\<lambda>d (p, t). write_if_missing io p t d) d fs p \<noteq> NoNode"
  using assms(2)
proof (induction fs arbitrary: d)
  case (Cons f fs)
  show ?case
  proof (cases "f = (p, t)")
    case True
    have "write_if_missing io p t d p \<noteq> NoNode" using write_there assms(1) by blast
    then have "foldl (\<lambda>d (p, t). write_if_missing io p t d) (write_if_missing io p t d) fs p \<noteq> NoNode"
      by (rule keeps_there [OF keeps_writes])
    then show ?thesis using True by simp
  next
    case False
    then show ?thesis using Cons by (cases f) auto
  qed
qed simp

text \<open>Running it again changes nothing.\<close>

lemma make_dirs_idem: "keeps_nodes (make_dirs p d) d' \<Longrightarrow> make_dirs p d' = d'"
  unfolding keeps_nodes_def make_dirs_def by (rule ext) (metis node.distinct(3) node.distinct(1))

lemma writes_idem:
  "list_all (\<lambda>(p, t). d p \<noteq> NoNode) fs \<Longrightarrow> foldl (\<lambda>d (p, t). write_if_missing io p t d) d fs = d"
  by (induction fs) (auto simp: write_if_missing_def)

lemma onboard_idempotent:
  assumes "run_onboard sf pf home env texts io d = (d', None)" and "\<And>p. oi_write io p"
  shows "run_onboard sf pf home env texts io d' = (d', None)"
proof -
  let ?p = "config_path home env"
  define d1 where "d1 = make_dirs (config_dir home) d"
  define d2 where "d2 = (if d1 ?p = NoNode then d1(?p := ConfigNode (CfgJson (encode_config sf (default_config home)))) else d1)"
  obtain c where c: "load_config pf home env (read_config (d2 ?p)) = Inr c" and mk: "oi_mkdir io (config_dir home)"
    using assms unfolding run_onboard_def d2_def d1_def Let_def by (auto split: if_splits sum.splits)
  define mem where "mem = join_path [ac_workspace (c_agent c), ''memory'']"
  define fs where "fs = workspace_files (fst texts) (snd texts) (ac_workspace (c_agent c))"
  have run: "oi_mkdir io mem" "oi_mkdir io (resolve_skills_dir c)"
    "d' = foldl (\<lambda>d (p, t). write_if_missing io p t d) (make_dirs (resolve_skills_dir c) (make_dirs mem d2)) fs"
    using assms c mk unfolding run_onboard_def Let_def d1_def [symmetric] d2_def [symmetric] mem_def fs_def
    by (auto split: if_splits)
  have k4: "keeps_nodes (make_dirs (resolve_skills_dir c) (make_dirs mem d2)) d'" unfolding run(3) by (rule keeps_writes)
  have k3: "keeps_nodes (make_dirs mem d2) d'" by (rule keeps_trans [OF keeps_make_dirs k4])
  have k2: "keeps_nodes d2 d'" by (rule keeps_trans [OF keeps_make_dirs k3])
  have k1: "keeps_nodes d1 d'" by (rule keeps_trans [OF _ k2]) (simp add: d2_def keeps_create)
  have p: "d2 ?p \<noteq> NoNode" by (simp add: d2_def)
  then have p': "d' ?p = d2 ?p" using k2 by (simp add: keeps_nodes_def)
  have w: "list_all (\<lambda>(p, t). d' p \<noteq> NoNode) fs"
    unfolding list_all_iff run(3) using writes_there [of io] assms(2) by fast
  have m: "make_dirs (config_dir home) d' = d'" "make_dirs mem d' = d'" "make_dirs (resolve_skills_dir c) d' = d'"
    using make_dirs_idem k1 k3 k4 by (simp_all add: d1_def)
  show ?thesis
    using mk m(1) p p' c run(1,2) m(2,3) writes_idem [OF w]
    by (simp add: run_onboard_def Let_def mem_def [symmetric] fs_def [symmetric])
qed

subsection \<open>What the other commands show\<close>

text \<open>Of a key of nine bytes the status shows eight.\<close>

lemma short_key_shown: "key_line ''sk-abcdef'' = ''API Key: sk-a...cdef''"
  by (simp add: key_line_def)

text \<open>The process that is started does not start another one.\<close>

lemma daemon_child_stays: "\<not> should_daemonize (daemon_args args)"
  by (simp add: should_daemonize_def daemon_args_def list_ex_iff)

text \<open>The flag is looked for by its spelling: one written with a value is not seen, and a message that looks like it is; the
  name of the log and of the pid file is the first word, also if it is the value of a flag.\<close>

lemma daemon_flag_missed: "\<not> should_daemonize [''gateway'', ''--daemon=true'']"
  by (simp add: should_daemonize_def is_daemon_flag_def)

lemma message_taken_for_flag: "should_daemonize [''agent'', ''-m'', ''-d''] \<and> daemon_args [''agent'', ''-m'', ''-d''] = [''agent'', ''-m'']"
  by (simp add: should_daemonize_def is_daemon_flag_def daemon_args_def)

lemma flag_value_is_subcommand: "daemon_subcmd [''-m'', ''hi'', ''agent'', ''-d''] = ''hi''"
  by (simp add: daemon_subcmd_def)

text \<open>\<open>skills info\<close> finds a skill exactly when one has the name up to case, and one with the very name if there is one.\<close>

lemma find_skill_sound:
  assumes "find_skill regs name = Some r"
  shows "r \<in> set regs \<and> to_lower (rg_name r) = to_lower (trim_space name)
    \<and> ((\<exists>s \<in> set regs. rg_name s = trim_space name) \<longrightarrow> rg_name r = trim_space name)"
  using assms
  by (auto simp: find_skill_def Let_def find_None_iff find_Some_iff split: if_splits option.splits)

lemma find_skill_complete:
  "s \<in> set regs \<Longrightarrow> to_lower (rg_name s) = to_lower (trim_space name) \<Longrightarrow> trim_space name \<noteq> [] \<Longrightarrow> find_skill regs name \<noteq> None"
  using find_None_iff [of "\<lambda>r. to_lower (rg_name r) = to_lower (trim_space name)" regs]
  by (auto simp: find_skill_def Let_def split: option.split)

end
