(* ===== verification/VoiceIO.thy ===== *)
theory VoiceIO
  imports Web ConfigLoad WakeGate
begin

text \<open>
  Speech in and out: choosing the services (\<open>internal/kernel/voice/{normalize,providers,factory,stream}.go\<close>,
  \<open>internal/kernel/httpc\<close>), the services themselves (\<open>internal/plugins/voice\<close>: Deepgram, OpenAI, ElevenLabs, Cartesia), and the
  microphone as a source of a conversation (\<open>internal/kernel/converse/adapter\<close>, \<open>tee.go\<close>). The goroutines are step relations;
  \<open>url.Parse\<close>, the HTTP and websocket clients and JSON texts are arguments.
\<close>

subsection \<open>The services\<close>

definition normalize_stt :: "string \<Rightarrow> string" where
  "normalize_stt p = (let q = to_lower (trim_space p) in if q = [] then ''deepgram'' else q)"

definition normalize_tts :: "string \<Rightarrow> string" where
  "normalize_tts p = (let q = to_lower (trim_space p) in if q = [] then ''openai'' else q)"

definition stt_name :: "config option \<Rightarrow> string" where
  "stt_name cfg = (case cfg of None \<Rightarrow> normalize_stt [] | Some c \<Rightarrow> normalize_stt (sp_stt (c_speech c)))"

definition tts_name :: "config option \<Rightarrow> string" where
  "tts_name cfg = (case cfg of None \<Rightarrow> normalize_tts [] | Some c \<Rightarrow> normalize_tts (sp_tts (c_speech c)))"

text \<open>\<open>ClientFromProxy\<close>: \<open>scheme\<close> is what \<open>url.Parse\<close> finds, \<open>None\<close> if it fails. \<open>Inr None\<close> is the default client.\<close>

datatype proxy_error = ProxyInvalid string | ProxyScheme string

definition client_from_proxy :: "(string \<Rightarrow> string option) \<Rightarrow> string \<Rightarrow> proxy_error + string option" where
  "client_from_proxy scheme proxy =
     (if trim_space proxy = [] then Inr None
      else case scheme proxy of
          None \<Rightarrow> Inl (ProxyInvalid proxy)
        | Some s \<Rightarrow> (if to_lower s \<in> {''http'', ''https'', ''socks5'', ''socks5h''} then Inr (Some proxy) else Inl (ProxyScheme s)))"

text \<open>A service with its key, its voice, model and version where it has them, and its client.\<close>

datatype tts_service =
    DeepgramTTS string "string option"
  | OpenaiTTS string "string option"
  | ElevenTTS string string "string option"
  | CartesiaTTS string string string string "string option"

datatype stt_service = DeepgramSTT string "string option"

definition with_client :: "(string \<Rightarrow> string option) \<Rightarrow> string \<Rightarrow> (string option \<Rightarrow> 'a) \<Rightarrow> 'a option" where
  "with_client scheme proxy f = (case client_from_proxy scheme proxy of Inl e \<Rightarrow> None | Inr c \<Rightarrow> Some (f c))"

definition deepgram_tts :: "(string \<Rightarrow> string option) \<Rightarrow> config \<Rightarrow> tts_service option" where
  "deepgram_tts scheme c =
     (let key = trim_space (sp_deepgram_key (c_speech c)) in
      if tts_name (Some c) \<noteq> ''deepgram'' \<or> key = [] then None
      else with_client scheme (sp_deepgram_proxy (c_speech c)) (DeepgramTTS key))"

definition deepgram_stt :: "(string \<Rightarrow> string option) \<Rightarrow> config \<Rightarrow> stt_service option" where
  "deepgram_stt scheme c =
     (let key = trim_space (sp_deepgram_key (c_speech c)) in
      if stt_name (Some c) \<noteq> ''deepgram'' \<or> key = [] then None
      else with_client scheme (sp_deepgram_proxy (c_speech c)) (DeepgramSTT key))"

definition openai_key :: "config \<Rightarrow> string" where
  "openai_key c = (if sp_openai_key (c_speech c) = [] then pc_api_key (c_provider c) else sp_openai_key (c_speech c))"

definition openai_tts :: "(string \<Rightarrow> string option) \<Rightarrow> config \<Rightarrow> tts_service option" where
  "openai_tts scheme c =
     (if tts_name (Some c) \<noteq> ''openai'' \<or> trim_space (openai_key c) = [] then None
      else with_client scheme (sp_openai_proxy (c_speech c)) (OpenaiTTS (openai_key c)))"

definition eleven_tts :: "(string \<Rightarrow> string option) \<Rightarrow> config \<Rightarrow> tts_service option" where
  "eleven_tts scheme c =
     (let voice = trim_space (sp_eleven_voice (c_speech c)); key = trim_space (sp_eleven_key (c_speech c)) in
      if tts_name (Some c) \<noteq> ''elevenlabs'' \<or> voice = [] \<or> key = [] then None
      else with_client scheme (sp_eleven_proxy (c_speech c)) (ElevenTTS key voice))"

definition cartesia_tts :: "(string \<Rightarrow> string option) \<Rightarrow> config \<Rightarrow> tts_service option" where
  "cartesia_tts scheme c =
     (let voice = trim_space (sp_cartesia_voice (c_speech c)); key = trim_space (sp_cartesia_key (c_speech c)) in
      if tts_name (Some c) \<noteq> ''cartesia'' \<or> voice = [] \<or> key = [] then None
      else with_client scheme (sp_cartesia_proxy (c_speech c))
        (CartesiaTTS key voice (sp_cartesia_model (c_speech c)) (sp_cartesia_version (c_speech c))))"

text \<open>A registry is the list of its providers; the first that has a service gives it.\<close>

definition registry_service :: "(config \<Rightarrow> 'a option) list \<Rightarrow> config \<Rightarrow> 'a option" where
  "registry_service ps c = (case find (\<lambda>p. p c \<noteq> None) ps of None \<Rightarrow> None | Some p \<Rightarrow> p c)"

definition cli_tts :: "(string \<Rightarrow> string option) \<Rightarrow> (config \<Rightarrow> tts_service option) list" where
  "cli_tts scheme = [cartesia_tts scheme, deepgram_tts scheme, eleven_tts scheme, openai_tts scheme]"

definition cli_stt :: "(string \<Rightarrow> string option) \<Rightarrow> (config \<Rightarrow> stt_service option) list" where
  "cli_stt scheme = [deepgram_stt scheme]"

datatype speech_error =
    NilSpeechConfig | KeyEmpty string | VoiceIdRequired string | NotRegistered string | SttUnsupported string
  | UnknownStt string | UnknownTts string

definition new_stt :: "(config \<Rightarrow> stt_service option) list option \<Rightarrow> config option \<Rightarrow> speech_error + stt_service" where
  "new_stt reg cfg = (case cfg of
       None \<Rightarrow> Inl NilSpeechConfig
     | Some c \<Rightarrow>
         (case (case reg of None \<Rightarrow> None | Some ps \<Rightarrow> registry_service ps c) of
            Some s \<Rightarrow> Inr s
          | None \<Rightarrow>
              Inl (if stt_name (Some c) = ''deepgram'' then
                     (if trim_space (sp_deepgram_key (c_speech c)) = [] then KeyEmpty ''deepgram'' else NotRegistered ''deepgram stt'')
                   else if stt_name (Some c) = ''openai'' then SttUnsupported (sp_stt (c_speech c))
                   else UnknownStt (sp_stt (c_speech c)))))"

definition tts_failure :: "config \<Rightarrow> speech_error" where
  "tts_failure c =
     (let s = c_speech c; name = tts_name (Some c) in
      if name = ''deepgram'' then
        (if trim_space (sp_deepgram_key s) = [] then KeyEmpty ''deepgram'' else NotRegistered ''deepgram tts'')
      else if name = ''openai'' then
        (if trim_space (openai_key c) = [] then KeyEmpty ''openai'' else NotRegistered ''openai tts'')
      else if name = ''elevenlabs'' then
        (if trim_space (sp_eleven_voice s) = [] then VoiceIdRequired ''elevenlabs''
         else if trim_space (sp_eleven_key s) = [] then KeyEmpty ''elevenlabs'' else NotRegistered ''elevenlabs tts'')
      else if name = ''cartesia'' then
        (if trim_space (sp_cartesia_voice s) = [] then VoiceIdRequired ''cartesia''
         else if trim_space (sp_cartesia_key s) = [] then KeyEmpty ''cartesia'' else NotRegistered ''cartesia tts'')
      else UnknownTts (sp_tts s))"

definition new_tts :: "(config \<Rightarrow> tts_service option) list option \<Rightarrow> config option \<Rightarrow> speech_error + tts_service" where
  "new_tts reg cfg = (case cfg of
       None \<Rightarrow> Inl NilSpeechConfig
     | Some c \<Rightarrow>
         (case (case reg of None \<Rightarrow> None | Some ps \<Rightarrow> registry_service ps c) of
            Some s \<Rightarrow> Inr s
          | None \<Rightarrow> Inl (tts_failure c)))"

subsection \<open>Synthesis\<close>

text \<open>A request: its address with the query (the pairs are encoded in the order of their keys), its headers, its body.\<close>

record tts_request =
  tr_url :: string
  tr_query :: "(string \<times> string) list"
  tr_headers :: "(string \<times> string) list"
  tr_body :: json

definition blank_default :: "string \<Rightarrow> string \<Rightarrow> string" where
  "blank_default s d = (if trim_space s = [] then d else trim_space s)"

definition deepgram_request :: "string \<Rightarrow> string \<Rightarrow> tts_request" where
  "deepgram_request key t =
     \<lparr>tr_url = ''https://api.deepgram.com/v1/speak'',
      tr_query = [(''container'', ''none''), (''encoding'', ''linear16''), (''model'', ''aura-2-en-us''), (''sample_rate'', ''24000'')],
      tr_headers = [(''Authorization'', ''Token '' @ key), (''Content-Type'', ''application/json'')],
      tr_body = JObj [(''text'', JStr t)]\<rparr>"

definition openai_request :: "string \<Rightarrow> string \<Rightarrow> tts_request" where
  "openai_request key t =
     \<lparr>tr_url = ''https://api.openai.com/v1/audio/speech'', tr_query = [],
      tr_headers = [(''Authorization'', ''Bearer '' @ key), (''Content-Type'', ''application/json'')],
      tr_body = JObj [(''model'', JStr ''tts-1''), (''voice'', JStr ''alloy''), (''input'', JStr t), (''response_format'', JStr ''pcm'')]\<rparr>"

definition eleven_request :: "string \<Rightarrow> string \<Rightarrow> string \<Rightarrow> tts_request" where
  "eleven_request key voice t =
     \<lparr>tr_url = ''https://api.elevenlabs.io/v1/text-to-speech/'' @ voice @ ''/stream'',
      tr_query = [(''optimize_streaming_latency'', ''3''), (''output_format'', ''pcm_24000'')],
      tr_headers = [(''xi-api-key'', key), (''Content-Type'', ''application/json'')],
      tr_body = JObj [(''text'', JStr t)]\<rparr>"

definition cartesia_request :: "string \<Rightarrow> string \<Rightarrow> string \<Rightarrow> string \<Rightarrow> string \<Rightarrow> tts_request" where
  "cartesia_request key voice model ver t =
     \<lparr>tr_url = ''https://api.cartesia.ai/tts/bytes'', tr_query = [],
      tr_headers = [(''Authorization'', ''Bearer '' @ key), (''Cartesia-Version'', blank_default ver ''2025-04-16''),
        (''Content-Type'', ''application/json'')],
      tr_body = JObj [(''model_id'', JStr (blank_default model ''sonic-2'')), (''transcript'', JStr t),
        (''voice'', JObj [(''id'', JStr voice), (''mode'', JStr ''id'')]),
        (''output_format'', JObj [(''container'', JStr ''raw''), (''encoding'', JStr ''pcm_s16le''), (''sample_rate'', JNum ''24000'')])]\<rparr>"

text \<open>A body as its reads give it: data, and whether this read is the last, by end or by error.\<close>

type_synonym body_reads = "(string \<times> bool) list"

text \<open>\<open>StreamHTTPBody\<close> while its context lives: what it sends.\<close>

fun stream_body :: "body_reads \<Rightarrow> string list" where
  "stream_body [] = []"
| "stream_body ((b, end) # rs) = (if b = [] then [] else [b]) @ (if end then [] else stream_body rs)"

datatype synth_error = SynthKeyEmpty | SynthVoiceEmpty | SynthTransport | SynthStatus int string

text \<open>\<open>http\<close> is the client: no answer, or a status, the first 4096 bytes of the body and its reads.\<close>

type_synonym http_client = "tts_request \<Rightarrow> (int \<times> string \<times> body_reads) option"

definition spoken :: "http_client \<Rightarrow> tts_request \<Rightarrow> synth_error + string list" where
  "spoken http r =
     (case http r of
        None \<Rightarrow> Inl SynthTransport
      | Some (status, slurp, reads) \<Rightarrow>
          (if status < 200 \<or> 300 \<le> status then Inl (SynthStatus status (trim_space slurp)) else Inr (stream_body reads)))"

definition deepgram_synthesize :: "http_client \<Rightarrow> string \<Rightarrow> string \<Rightarrow> synth_error + string list" where
  "deepgram_synthesize http key text =
     (if trim_space text = [] then Inr []
      else if trim_space key = [] then Inl SynthKeyEmpty else spoken http (deepgram_request key (trim_space text)))"

definition openai_synthesize :: "http_client \<Rightarrow> string \<Rightarrow> string \<Rightarrow> synth_error + string list" where
  "openai_synthesize http key text =
     (if trim_space text = [] then Inr []
      else if trim_space key = [] then Inl SynthKeyEmpty else spoken http (openai_request key (trim_space text)))"

definition eleven_synthesize :: "http_client \<Rightarrow> string \<Rightarrow> string \<Rightarrow> string \<Rightarrow> synth_error + string list" where
  "eleven_synthesize http key voice text =
     (if trim_space text = [] then Inr []
      else if trim_space key = [] then Inl SynthKeyEmpty
      else if trim_space voice = [] then Inl SynthVoiceEmpty
      else spoken http (eleven_request key (trim_space voice) (trim_space text)))"

definition cartesia_synthesize :: "http_client \<Rightarrow> string \<Rightarrow> string \<Rightarrow> string \<Rightarrow> string \<Rightarrow> string \<Rightarrow> synth_error + string list" where
  "cartesia_synthesize http key voice model ver text =
     (if trim_space text = [] then Inr []
      else if trim_space key = [] then Inl SynthKeyEmpty
      else if trim_space voice = [] then Inl SynthVoiceEmpty
      else spoken http (cartesia_request key (trim_space voice) model ver (trim_space text)))"

fun synthesize :: "(string option \<Rightarrow> http_client) \<Rightarrow> tts_service \<Rightarrow> string \<Rightarrow> synth_error + string list" where
  "synthesize http (DeepgramTTS key c) t = deepgram_synthesize (http c) key t"
| "synthesize http (OpenaiTTS key c) t = openai_synthesize (http c) key t"
| "synthesize http (ElevenTTS key voice c) t = eleven_synthesize (http c) key voice t"
| "synthesize http (CartesiaTTS key voice model ver c) t = cartesia_synthesize (http c) key voice model ver t"

subsection \<open>Transcripts\<close>

definition stt_query :: "string \<Rightarrow> string \<Rightarrow> (string \<times> string) list" where
  "stt_query model endpointing =
     [(''channels'', ''1''), (''encoding'', ''linear16''), (''endpointing'', blank_default endpointing ''400''),
      (''interim_results'', ''false''), (''model'', blank_default model ''nova-2''), (''punctuate'', ''true''), (''sample_rate'', ''16000'')]"

text \<open>A field of a raw object that has the wrong type keeps its zero.\<close>

definition raw_string :: "(string \<times> json) list \<Rightarrow> string \<Rightarrow> string" where
  "raw_string kvs k = (case json_get kvs k of None \<Rightarrow> [] | Some j \<Rightarrow> fst (dec_string j []))"

definition raw_bool :: "(string \<times> json) list \<Rightarrow> string \<Rightarrow> bool" where
  "raw_bool kvs k = (case json_get kvs k of None \<Rightarrow> False | Some j \<Rightarrow> fst (dec_bool j False))"

definition dec_alternatives :: "string list decoder" where
  "dec_alternatives j old =
     (case j of
        JNull \<Rightarrow> ([], False)
      | JArr xs \<Rightarrow> (let ds = map (\<lambda>x. dec_struct [(''transcript'', dec_string)] x []) xs in (map fst ds, list_ex snd ds))
      | _ \<Rightarrow> (old, True))"

definition extract_transcript :: "json \<Rightarrow> string" where
  "extract_transcript j =
     (case dec_struct [(''channel'', dec_struct [(''alternatives'', dec_alternatives)])] j [] of
        (alts, e) \<Rightarrow> if e \<or> alts = [] then [] else hd alts)"

datatype stt_message = Binary | NotJson | JsonMsg json

datatype stt_verdict = SttSkip | SttEnd | SttEmit string

definition stt_verdict_of :: "stt_message \<Rightarrow> stt_verdict" where
  "stt_verdict_of m = (case m of
       JsonMsg (JObj kvs) \<Rightarrow>
         (if raw_string kvs ''type'' = ''Metadata'' then SttEnd
          else if \<not> raw_bool kvs ''is_final'' \<and> \<not> raw_bool kvs ''speech_final'' then SttSkip
          else let t = trim_space (extract_transcript (JObj kvs)) in if t = [] then SttSkip else SttEmit t)
     | _ \<Rightarrow> SttSkip)"

text \<open>\<open>readLoop\<close>: what it emits, and whether it has ended.\<close>

fun stt_read_loop :: "stt_message list \<Rightarrow> string list \<times> bool" where
  "stt_read_loop [] = ([], False)"
| "stt_read_loop (m # ms) =
     (case stt_verdict_of m of
        SttEnd \<Rightarrow> ([], True)
      | SttSkip \<Rightarrow> stt_read_loop ms
      | SttEmit t \<Rightarrow> (case stt_read_loop ms of (ts, e) \<Rightarrow> (t # ts, e)))"

subsection \<open>Which service is chosen\<close>

lemma openai_service: "openai_tts scheme c = Some s \<Longrightarrow> tts_name (Some c) = ''openai''"
  and deepgram_service: "deepgram_tts scheme c = Some s \<Longrightarrow> tts_name (Some c) = ''deepgram''"
  and eleven_service: "eleven_tts scheme c = Some s \<Longrightarrow> tts_name (Some c) = ''elevenlabs''"
  and cartesia_service: "cartesia_tts scheme c = Some s \<Longrightarrow> tts_name (Some c) = ''cartesia''"
  by (auto simp: openai_tts_def deepgram_tts_def eleven_tts_def cartesia_tts_def Let_def split: if_splits)

text \<open>The service that is used is the one that is named, whatever keys are there for others.\<close>

lemma registry_tts:
  "registry_service (cli_tts scheme) c =
     (if tts_name (Some c) = ''cartesia'' then cartesia_tts scheme c
      else if tts_name (Some c) = ''deepgram'' then deepgram_tts scheme c
      else if tts_name (Some c) = ''elevenlabs'' then eleven_tts scheme c
      else if tts_name (Some c) = ''openai'' then openai_tts scheme c else None)"
proof -
  have n: "tts_name (Some c) \<noteq> ''openai'' \<Longrightarrow> openai_tts scheme c = None"
    "tts_name (Some c) \<noteq> ''deepgram'' \<Longrightarrow> deepgram_tts scheme c = None"
    "tts_name (Some c) \<noteq> ''elevenlabs'' \<Longrightarrow> eleven_tts scheme c = None"
    "tts_name (Some c) \<noteq> ''cartesia'' \<Longrightarrow> cartesia_tts scheme c = None"
    by (simp_all add: openai_tts_def deepgram_tts_def eleven_tts_def cartesia_tts_def Let_def)
  show ?thesis using n by (auto simp: registry_service_def cli_tts_def)
qed

text \<open>With all services registered, a service that is known is said not to be registered only if its proxy is no good.\<close>

lemma unregistered_means_proxy:
  assumes "new_tts (Some (cli_tts scheme)) (Some c) = Inl (NotRegistered what)"
  shows "\<exists>proxy \<in> {sp_cartesia_proxy (c_speech c), sp_deepgram_proxy (c_speech c), sp_eleven_proxy (c_speech c), sp_openai_proxy (c_speech c)}.
    \<exists>e. client_from_proxy scheme proxy = Inl e"
proof -
  have r: "registry_service (cli_tts scheme) c = None" and f: "tts_failure c = NotRegistered what"
    using assms by (auto simp: new_tts_def split: option.splits)
  have w: "with_client scheme proxy g = None \<longleftrightarrow> (\<exists>e. client_from_proxy scheme proxy = Inl e)" for proxy and g :: "string option \<Rightarrow> tts_service"
    by (auto simp: with_client_def split: sum.split)
  show ?thesis
    using r f unfolding registry_tts tts_failure_def Let_def
    by (auto simp: cartesia_tts_def deepgram_tts_def eleven_tts_def openai_tts_def Let_def w split: if_splits)
qed

text \<open>A blank key for OpenAI hides the key of the provider.\<close>

lemma blank_key_hides_provider_key:
  assumes "sp_openai_key (c_speech c) = '' ''" and "tts_name (Some c) = ''openai''"
  shows "new_tts (Some (cli_tts scheme)) (Some c) = Inl (KeyEmpty ''openai'')"
proof -
  have t: "trim_space '' '' = []" by code_simp
  have k: "openai_key c = '' ''" using assms(1) by (simp add: openai_key_def)
  have "registry_service (cli_tts scheme) c = None" using assms(2) k t by (simp add: registry_tts openai_tts_def)
  then show ?thesis using assms(2) k t by (simp add: new_tts_def tts_failure_def)
qed

text \<open>A service that was chosen is asked: it has what it needs.\<close>

lemma chosen_service_speaks:
  assumes "new_tts (Some (cli_tts scheme)) (Some c) = Inr s" and "trim_space text \<noteq> []"
  shows "synthesize http s text \<noteq> Inl SynthKeyEmpty \<and> synthesize http s text \<noteq> Inl SynthVoiceEmpty"
proof -
  have "registry_service (cli_tts scheme) c = Some s" using assms(1) by (auto simp: new_tts_def split: option.splits)
  moreover have "spoken h r \<noteq> Inl SynthKeyEmpty \<and> spoken h r \<noteq> Inl SynthVoiceEmpty" for h r
    by (auto simp: spoken_def split: option.split)
  ultimately show ?thesis
    using assms(2) unfolding registry_tts
    by (auto simp: cartesia_tts_def deepgram_tts_def eleven_tts_def openai_tts_def with_client_def Let_def deepgram_synthesize_def
        openai_synthesize_def eleven_synthesize_def cartesia_synthesize_def split: if_splits sum.splits)
qed

lemma stream_body_all: "list_all (\<lambda>r. \<not> snd r) rs \<Longrightarrow> concat (stream_body (rs @ [(b, True)])) = concat (map fst rs) @ b"
  by (induction rs) (auto split: if_splits)

subsection \<open>The goroutines of the transcription\<close>

text \<open>The writer sends audio; the reader puts transcripts into the channel of eight that the writer closes when it ends. The
  state: what the reader does, what the writer does, how many transcripts are in the channel, and whether a send met the
  closed channel, which is a panic.\<close>

datatype stt_reader = Reading | Sending | ReaderDone

datatype stt_writer = Writing | Waiting | ChannelClosed

record stt_state =
  st_reader :: stt_reader
  st_writer :: stt_writer
  st_buffered :: nat
  st_panic :: bool

definition stt_start :: stt_state where
  "stt_start = \<lparr>st_reader = Reading, st_writer = Writing, st_buffered = 0, st_panic = False\<rparr>"

text \<open>\<open>fails\<close> tells whether a write of audio can fail.\<close>

inductive stt_step :: "bool \<Rightarrow> stt_state \<Rightarrow> stt_state \<Rightarrow> bool" for fails :: bool where
  final_read: "st_reader s = Reading \<Longrightarrow> stt_step fails s (s\<lparr>st_reader := Sending\<rparr>)"
| sent: "st_reader s = Sending \<Longrightarrow> st_writer s \<noteq> ChannelClosed \<Longrightarrow> st_buffered s < 8
    \<Longrightarrow> stt_step fails s (s\<lparr>st_reader := Reading, st_buffered := Suc (st_buffered s)\<rparr>)"
| sent_closed: "st_reader s = Sending \<Longrightarrow> st_writer s = ChannelClosed \<Longrightarrow> stt_step fails s (s\<lparr>st_panic := True\<rparr>)"
| reader_ends: "st_reader s = Reading \<Longrightarrow> stt_step fails s (s\<lparr>st_reader := ReaderDone\<rparr>)"
| audio_ends: "st_writer s = Writing \<Longrightarrow> stt_step fails s (s\<lparr>st_writer := Waiting\<rparr>)"
| writer_ends: "st_writer s = Waiting \<Longrightarrow> st_reader s = ReaderDone \<Longrightarrow> stt_step fails s (s\<lparr>st_writer := ChannelClosed\<rparr>)"
| write_fails: "fails \<Longrightarrow> st_writer s = Writing \<Longrightarrow> stt_step fails s (s\<lparr>st_writer := ChannelClosed\<rparr>)"
| consumed: "0 < st_buffered s \<Longrightarrow> stt_step fails s (s\<lparr>st_buffered := st_buffered s - 1\<rparr>)"

inductive_cases stt_step_elim: "stt_step fails s t"

text \<open>As long as writes go through, the channel is closed only after the reader has ended.\<close>

lemma stt_safe_without_failures:
  assumes "(stt_step False)\<^sup>*\<^sup>* stt_start s"
  shows "\<not> st_panic s \<and> st_buffered s \<le> 8 \<and> (st_writer s = ChannelClosed \<longrightarrow> st_reader s = ReaderDone)"
  using assms
proof (induction rule: rtranclp_induct)
  case (step s t)
  from step(2,3) show ?case by (cases rule: stt_step.cases) auto
qed (simp add: stt_start_def)

text \<open>A write that fails closes the channel under a reader that has a transcript to send: the program panics.\<close>

lemma stt_panics_after_write_failure: "\<exists>s. (stt_step True)\<^sup>*\<^sup>* stt_start s \<and> st_panic s"
proof -
  let ?s1 = "stt_start\<lparr>st_reader := Sending\<rparr>"
  have "stt_step True stt_start ?s1" by (rule final_read) (simp add: stt_start_def)
  moreover have "stt_step True ?s1 (?s1\<lparr>st_writer := ChannelClosed\<rparr>)" by (rule write_fails) (simp_all add: stt_start_def)
  moreover have "stt_step True (?s1\<lparr>st_writer := ChannelClosed\<rparr>) (?s1\<lparr>st_writer := ChannelClosed\<rparr>\<lparr>st_panic := True\<rparr>)"
    by (rule sent_closed) (simp_all add: stt_start_def)
  ultimately have "(stt_step True)\<^sup>*\<^sup>* stt_start (?s1\<lparr>st_writer := ChannelClosed\<rparr>\<lparr>st_panic := True\<rparr>)"
    by (meson rtranclp.rtrancl_into_rtrancl rtranclp.rtrancl_refl)
  moreover have "st_panic (?s1\<lparr>st_writer := ChannelClosed\<rparr>\<lparr>st_panic := True\<rparr>)" by simp
  ultimately show ?thesis by blast
qed

subsection \<open>The microphone as a source\<close>

text \<open>\<open>Tee\<close> gives each piece to the voice detection, then to the transcription, each through a channel of 64; the source ends
  when both have. While the context lives: what \<open>Tee\<close> does (\<open>TeeSends k\<close>: the piece is still to go to channel \<open>k\<close> and those
  after it), what the channels hold, which of the two readers still run, and whether the source has ended.\<close>

datatype tee = TeeIdle | TeeSends nat | TeeClosed

record mic_state =
  mc_tee :: tee
  mc_vad :: nat
  mc_stt :: nat
  mc_vad_runs :: bool
  mc_stt_runs :: bool
  mc_ended :: bool

definition mic_start :: mic_state where
  "mic_start = \<lparr>mc_tee = TeeIdle, mc_vad = 0, mc_stt = 0, mc_vad_runs = True, mc_stt_runs = True, mc_ended = False\<rparr>"

inductive mic_step :: "mic_state \<Rightarrow> mic_state \<Rightarrow> bool" where
  tee_takes: "mc_tee s = TeeIdle \<Longrightarrow> mic_step s (s\<lparr>mc_tee := TeeSends 0\<rparr>)"
| tee_vad: "mc_tee s = TeeSends 0 \<Longrightarrow> mc_vad s < 64 \<Longrightarrow> mic_step s (s\<lparr>mc_tee := TeeSends 1, mc_vad := Suc (mc_vad s)\<rparr>)"
| tee_stt: "mc_tee s = TeeSends 1 \<Longrightarrow> mc_stt s < 64 \<Longrightarrow> mic_step s (s\<lparr>mc_tee := TeeIdle, mc_stt := Suc (mc_stt s)\<rparr>)"
| mic_ends: "mc_tee s = TeeIdle \<Longrightarrow> mic_step s (s\<lparr>mc_tee := TeeClosed\<rparr>)"
| vad_takes: "mc_vad_runs s \<Longrightarrow> 0 < mc_vad s \<Longrightarrow> mic_step s (s\<lparr>mc_vad := mc_vad s - 1\<rparr>)"
| vad_ends: "mc_vad_runs s \<Longrightarrow> mc_tee s = TeeClosed \<Longrightarrow> mc_vad s = 0 \<Longrightarrow> mic_step s (s\<lparr>mc_vad_runs := False\<rparr>)"
| stt_takes: "mc_stt_runs s \<Longrightarrow> 0 < mc_stt s \<Longrightarrow> mic_step s (s\<lparr>mc_stt := mc_stt s - 1\<rparr>)"
| stt_ends: "mc_stt_runs s \<Longrightarrow> mic_step s (s\<lparr>mc_stt_runs := False\<rparr>)"
| source_ends: "\<not> mc_vad_runs s \<Longrightarrow> \<not> mc_stt_runs s \<Longrightarrow> mic_step s (s\<lparr>mc_ended := True\<rparr>)"

text \<open>A source that has ended has had its microphone closed and both readers end.\<close>

lemma source_ends_after_readers:
  assumes "mic_step\<^sup>*\<^sup>* mic_start s"
  shows "(mc_ended s \<longrightarrow> \<not> mc_vad_runs s \<and> \<not> mc_stt_runs s) \<and> (\<not> mc_vad_runs s \<longrightarrow> mc_tee s = TeeClosed)
    \<and> mc_vad s \<le> 64 \<and> mc_stt s \<le> 64"
  using assms
proof (induction rule: rtranclp_induct)
  case (step s t)
  from step(2,3) show ?case by (cases rule: mic_step.cases) auto
qed (simp add: mic_start_def)

text \<open>When the transcription has ended - its connection was lost, or it never started - the next 65 pieces fill its channel
  and then \<open>Tee\<close> stands still: the source neither hears anything more nor ends, not even when the microphone does.\<close>

lemma dead_stt_hangs_source:
  assumes "mic_step\<^sup>*\<^sup>* s t" and "\<not> mc_stt_runs s" and "mc_stt s = 64" and "mc_tee s = TeeSends 1" and "mc_vad_runs s"
    and "\<not> mc_ended s"
  shows "mc_tee t = TeeSends 1 \<and> \<not> mc_ended t \<and> mc_vad t \<le> mc_vad s"
proof -
  have "mc_tee t = TeeSends 1 \<and> \<not> mc_ended t \<and> mc_vad t \<le> mc_vad s \<and> \<not> mc_stt_runs t \<and> mc_stt t = 64 \<and> mc_vad_runs t"
    using assms(1)
  proof (induction rule: rtranclp_induct)
    case (step s' t)
    from step(2,3) show ?case by (cases rule: mic_step.cases) auto
  qed (use assms in simp)
  then show ?thesis by simp
qed

text \<open>What the source says it has heard, of the transcripts.\<close>

definition source_heard :: "string list \<Rightarrow> voice_event list" where
  "source_heard ts = map Utterance (filter (\<lambda>t. t \<noteq> []) (map trim_space ts))"

subsection \<open>The agent of a conversation\<close>

text \<open>\<open>streamDeltas\<close>: the texts and the error line; \<open>run\<close> is the opened stream, if there is one.\<close>

definition agent_stream :: "(string + web_event list) option \<Rightarrow> string list \<times> string" where
  "agent_stream run = (case run of
       None \<Rightarrow> ([], [])
     | Some (Inl e) \<Rightarrow> ([], ''Error: '' @ e @ [newline])
     | Some (Inr evs) \<Rightarrow> (delta_texts evs, []))"

text \<open>An error in the stream is passed over: the turn looks finished.\<close>

lemma stream_error_unheard: "agent_stream (Some (Inr (evs @ [WebError e]))) = agent_stream (Some (Inr evs))"
  by (simp add: agent_stream_def delta_texts_def)

end
