(* ===== verification/AudioRoute.thy ===== *)
theory AudioRoute
  imports ConfigLoad
begin

text \<open>
  \<open>internal/modality/audio\<close>: preparing PulseAudio for the microphone and the speaker (\<open>route.go\<close>, \<open>pulse_echo.go\<close>,
  \<open>pulse_direct.go\<close>, \<open>android_pulse.go\<close>). Commands are run by an argument: a function from the commands run so far, this one
  last, to the output and whether it failed. A computation takes and returns the list of the commands run.
\<close>

subsection \<open>Commands\<close>

type_synonym command = "string list"

type_synonym runner = "command list \<Rightarrow> string \<times> bool"

definition run_cmd :: "runner \<Rightarrow> command \<Rightarrow> command list \<Rightarrow> command list \<times> (unit + string)" where
  "run_cmd run c h = (let h' = h @ [c] in (h', case run h' of (out, ok) \<Rightarrow> if ok then Inr out else Inl ()))"

definition source_present :: "string \<Rightarrow> string \<Rightarrow> bool" where
  "source_present out name \<longleftrightarrow>
     list_ex (\<lambda>l. 2 \<le> length (GoStrings.fields l) \<and> GoStrings.fields l ! 1 = trim_space name) (split_char newline out)"

text \<open>\<open>strconv.Atoi\<close> on the trimmed output.\<close>

definition parse_module_index :: "string \<Rightarrow> int option" where
  "parse_module_index out = (let s = trim_space out in if s = [] then None else parse_int s)"

definition diagnostics :: "string \<Rightarrow> string \<Rightarrow> string" where
  "diagnostics out err = join [newline] (filter (\<lambda>s. s \<noteq> []) [trim_space out, trim_space err])"

definition append_device :: "string list \<Rightarrow> string \<Rightarrow> string list" where
  "append_device args device = args @ [''--device='' @ device]"

definition list_sources :: command where "list_sources = [''pactl'', ''list'', ''short'', ''sources'']"
definition pulse_info :: command where "pulse_info = [''pactl'', ''info'']"

subsection \<open>Android\<close>

text \<open>\<open>sleep h\<close> tells whether the sleep after the commands \<open>h\<close> ends before the context does.\<close>

definition android_mic :: string where "android_mic = ''OpenSL_ES_source''"

definition probe_pulse :: "runner \<Rightarrow> command list \<Rightarrow> command list \<times> bool" where
  "probe_pulse run h = (case run_cmd run pulse_info h of (h', r) \<Rightarrow> (h', \<not> is_err r))"

definition ensure_mic :: "runner \<Rightarrow> command list \<Rightarrow> command list \<times> bool" where
  "ensure_mic run h =
     (case run_cmd run list_sources h of
        (h1, Inl _) \<Rightarrow> (h1, False)
      | (h1, Inr out) \<Rightarrow>
          (if source_present out android_mic then (h1, True)
           else case run_cmd run [''pactl'', ''load-module'', ''module-sles-source''] h1 of (h2, r) \<Rightarrow> (h2, \<not> is_err r)))"

definition restart_pulse :: "runner \<Rightarrow> (command list \<Rightarrow> bool) \<Rightarrow> command list \<Rightarrow> command list \<times> bool" where
  "restart_pulse run sleep h =
     (let h1 = fst (run_cmd run [''pulseaudio'', ''-k''] h);
          h2 = fst (run_cmd run [''killall'', ''pulseaudio''] h1);
          h3 = fst (run_cmd run [''sh'', ''-c'', ''rm -rf \"$PREFIX/tmp/pulse-\"* 2>/dev/null; true''] h2) in
      if \<not> sleep h3 then (h3, False)
      else case run_cmd run [''pulseaudio'', ''--start'', ''--exit-idle-time=-1'', ''--load=module-aaudio-sink''] h3 of
          (h4, r) \<Rightarrow> (h4, \<not> is_err r))"

text \<open>The loop of \<open>waitForPulse\<close>, with the number of probes left.\<close>

fun wait_for_pulse :: "runner \<Rightarrow> (command list \<Rightarrow> bool) \<Rightarrow> nat \<Rightarrow> command list \<Rightarrow> command list \<times> bool" where
  "wait_for_pulse run sleep 0 h = (h, False)"
| "wait_for_pulse run sleep (Suc n) h =
     (case probe_pulse run h of
        (h1, True) \<Rightarrow> (h1, True)
      | (h1, False) \<Rightarrow> (if \<not> sleep h1 then (h1, False) else wait_for_pulse run sleep n h1))"

datatype pulse_error = RestartFails | PulseNotReady | MicSourceFails

definition ensure_android :: "runner \<Rightarrow> (command list \<Rightarrow> bool) \<Rightarrow> command list \<Rightarrow> command list \<times> pulse_error option" where
  "ensure_android run sleep h =
     (let first = (case probe_pulse run h of (h1, True) \<Rightarrow> ensure_mic run h1 | (h1, False) \<Rightarrow> (h1, False)) in
      if snd first then (fst first, None)
      else case restart_pulse run sleep (fst first) of
          (h2, False) \<Rightarrow> (h2, Some RestartFails)
        | (h2, True) \<Rightarrow>
            (case wait_for_pulse run sleep 10 h2 of
               (h3, False) \<Rightarrow> (h3, Some PulseNotReady)
             | (h3, True) \<Rightarrow> (case ensure_mic run h3 of (h4, ok) \<Rightarrow> (h4, if ok then None else Some MicSourceFails))))"

subsection \<open>Routes\<close>

datatype route_error = AndroidErr pulse_error | PulseUnavailable | ModuleIndexErr | EchoUnavailable | UnloadErr

text \<open>A route: with echo cancellation, and the module it has loaded (-1: none), or direct.\<close>

datatype route = EchoRoute speech_config int | DirectRoute speech_config

definition new_voice_route :: "speech_config \<Rightarrow> route" where
  "new_voice_route s = (if echo_cancel_disabled s then DirectRoute s else EchoRoute s (-1))"

definition aec_source :: string where "aec_source = ''maven_echocancel_source''"
definition aec_sink :: string where "aec_sink = ''maven_echocancel_sink''"

definition load_echo :: "string \<Rightarrow> command" where
  "load_echo method = [''pactl'', ''load-module'', ''module-echo-cancel'', ''source_name='' @ aec_source, ''sink_name='' @ aec_sink,
     ''aec_method='' @ method]"

definition unload :: "int \<Rightarrow> command" where "unload i = [''pactl'', ''unload-module'', show_int i]"

text \<open>The loop over the methods: the module that was loaded.\<close>

fun try_methods :: "runner \<Rightarrow> string list \<Rightarrow> command list \<Rightarrow> command list \<times> (route_error + int)" where
  "try_methods run [] h = (h, Inl EchoUnavailable)"
| "try_methods run (m # ms) h =
     (case run_cmd run (load_echo m) h of
        (h1, Inl _) \<Rightarrow> try_methods run ms h1
      | (h1, Inr out) \<Rightarrow> (h1, case parse_module_index out of None \<Rightarrow> Inl ModuleIndexErr | Some i \<Rightarrow> Inr i))"

fun ensure_route ::
  "bool \<Rightarrow> runner \<Rightarrow> (command list \<Rightarrow> bool) \<Rightarrow> command list \<Rightarrow> route \<Rightarrow> command list \<times> route \<times> route_error option" where
  "ensure_route android run sleep h (DirectRoute s) =
     (if \<not> android then (h, DirectRoute s, None)
      else case ensure_android run sleep h of (h', e) \<Rightarrow> (h', DirectRoute s, map_option AndroidErr e))"
| "ensure_route android run sleep h (EchoRoute s m) =
     (case (if android then ensure_android run sleep h else (h, None)) of
        (h1, Some e) \<Rightarrow> (h1, EchoRoute s m, Some (AndroidErr e))
      | (h1, None) \<Rightarrow>
          (case run_cmd run list_sources h1 of
             (h2, Inl _) \<Rightarrow> (h2, EchoRoute s m, Some PulseUnavailable)
           | (h2, Inr out) \<Rightarrow>
               (if source_present out aec_source then (h2, EchoRoute s m, None)
                else case try_methods run [''webrtc'', ''speex''] h2 of
                    (h3, Inl e) \<Rightarrow> (h3, EchoRoute s m, Some e)
                  | (h3, Inr i) \<Rightarrow> (h3, EchoRoute s i, None))))"

fun teardown_route :: "runner \<Rightarrow> command list \<Rightarrow> route \<Rightarrow> command list \<times> route \<times> route_error option" where
  "teardown_route run h (DirectRoute s) = (h, DirectRoute s, None)"
| "teardown_route run h (EchoRoute s m) =
     (if m < 0 then (h, EchoRoute s m, None)
      else case run_cmd run (unload m) h of (h', r) \<Rightarrow> (h', EchoRoute s (-1), if is_err r then Some UnloadErr else None))"

fun capture_of :: "route \<Rightarrow> string \<times> string list" where
  "capture_of (DirectRoute s) = capture_command s"
| "capture_of (EchoRoute s m) = (case capture_command s of (c, args) \<Rightarrow> (c, append_device args aec_source))"

fun playback_of :: "route \<Rightarrow> string \<times> string list" where
  "playback_of (DirectRoute s) = playback_command s"
| "playback_of (EchoRoute s m) = (case playback_command s of (c, args) \<Rightarrow> (c, append_device args aec_sink))"

subsection \<open>Bounds\<close>

text \<open>Waiting for PulseAudio probes it ten times at most and runs nothing else.\<close>

lemma wait_probes:
  "\<exists>k \<le> n. fst (wait_for_pulse run sleep n h) = h @ replicate k pulse_info"
proof (induction n arbitrary: h)
  case (Suc n)
  obtain k where k: "k \<le> n" "fst (wait_for_pulse run sleep n (h @ [pulse_info])) = (h @ [pulse_info]) @ replicate k pulse_info"
    using Suc.IH [of "h @ [pulse_info]"] by blast
  have one: "fst (probe_pulse run h) = h @ [pulse_info]" by (simp add: probe_pulse_def run_cmd_def Let_def)
  show ?case
  proof (cases "snd (probe_pulse run h) \<or> \<not> sleep (h @ [pulse_info])")
    case True
    then have "fst (wait_for_pulse run sleep (Suc n) h) = h @ replicate 1 pulse_info"
      using one by (cases "probe_pulse run h") (auto split: bool.split)
    then show ?thesis by (intro exI [of _ 1]) simp
  next
    case False
    then have "fst (wait_for_pulse run sleep (Suc n) h) = h @ replicate (Suc k) pulse_info"
      using one k(2) by (cases "probe_pulse run h") auto
    then show ?thesis using k(1) by (intro exI [of _ "Suc k"]) simp
  qed
qed simp

subsection \<open>Modules\<close>

lemma try_methods_loads:
  assumes "try_methods run ms h = (h', r)"
  shows "\<exists>cs. h' = h @ cs \<and> set cs \<subseteq> load_echo ` set ms
    \<and> (\<forall>i. r = Inr i \<longrightarrow> cs \<noteq> [] \<and> snd (run h') \<and> parse_module_index (fst (run h')) = Some i)"
  using assms
proof (induction ms arbitrary: h)
  case (Cons m ms)
  show ?case
  proof (cases "snd (run (h @ [load_echo m]))")
    case True
    then show ?thesis
      using Cons.prems by (intro exI [of _ "[load_echo m]"]) (auto simp: run_cmd_def Let_def split: prod.splits option.splits)
  next
    case False
    then have "try_methods run ms (h @ [load_echo m]) = (h', r)"
      using Cons.prems by (auto simp: run_cmd_def Let_def split: prod.splits)
    then obtain cs where "h' = (h @ [load_echo m]) @ cs \<and> set cs \<subseteq> load_echo ` set ms
        \<and> (\<forall>i. r = Inr i \<longrightarrow> cs \<noteq> [] \<and> snd (run h') \<and> parse_module_index (fst (run h')) = Some i)"
      using Cons.IH by blast
    then show ?thesis by (intro exI [of _ "load_echo m # cs"]) auto
  qed
qed auto

text \<open>A fresh route that is set up and torn down off Android unloads the module it has loaded, and nothing if the source was
  there before: what others have loaded stays.\<close>

lemma route_unloads_its_module:
  assumes "ensure_route False run sleep h (EchoRoute s (-1)) = (h1, r1, None)" and "teardown_route run h1 r1 = (h2, r2, e)"
  shows "if source_present (fst (run (h @ [list_sources]))) aec_source then h2 = h1 \<and> e = None
    else (\<exists>i. snd (run h1) \<and> parse_module_index (fst (run h1)) = Some i \<and> h2 = (if i < 0 then h1 else h1 @ [unload i]))"
proof -
  let ?h = "h @ [list_sources]"
  have ok: "snd (run ?h)" using assms(1) by (auto simp: run_cmd_def Let_def split: prod.splits if_splits)
  show ?thesis
  proof (cases "source_present (fst (run ?h)) aec_source")
    case True
    then have "h1 = ?h \<and> r1 = EchoRoute s (-1)" using assms(1) ok by (auto simp: run_cmd_def Let_def split: prod.splits)
    then show ?thesis using True assms(2) by auto
  next
    case False
    obtain h' r where t: "try_methods run [''webrtc'', ''speex''] ?h = (h', r)" by fastforce
    obtain i where i: "r = Inr i" "h1 = h'" "r1 = EchoRoute s i"
      using assms(1) ok False t by (cases r) (auto simp: run_cmd_def Let_def split: prod.splits)
    have "snd (run h1) \<and> parse_module_index (fst (run h1)) = Some i"
      using try_methods_loads [OF t] i by blast
    moreover have "h2 = (if i < 0 then h1 else h1 @ [unload i])"
      using assms(2) i(3) by (auto simp: run_cmd_def Let_def split: if_splits)
    ultimately show ?thesis using False by auto
  qed
qed

text \<open>A module whose number cannot be read has been loaded, and is not unloaded.\<close>

lemma unreadable_index_leaks:
  assumes "snd (run (h @ [list_sources]))" and "\<not> source_present (fst (run (h @ [list_sources]))) aec_source"
    and "run (h @ [list_sources, load_echo ''webrtc'']) = (''?'', True)"
  shows "ensure_route False run sleep h (EchoRoute s (-1)) = (h @ [list_sources, load_echo ''webrtc''], EchoRoute s (-1), Some ModuleIndexErr)"
    and "teardown_route run h' (EchoRoute s (-1)) = (h', EchoRoute s (-1), None)"
proof -
  have "parse_module_index ''?'' = None" by code_simp
  then show "ensure_route False run sleep h (EchoRoute s (-1)) = (h @ [list_sources, load_echo ''webrtc''], EchoRoute s (-1), Some ModuleIndexErr)"
    using assms by (auto simp: run_cmd_def Let_def split: prod.splits)
qed simp

end
