(* ===== verification/ConfigWatch.thy ===== *)
theory ConfigWatch
  imports Prelude
begin

text \<open>
  \<open>internal/kernel/config/watch.go\<close>: the signal after the configuration file has changed. The events of the directory come
  with their times and the base of their name; a timer that is due fires before an event at the same time is handled.
\<close>

datatype fs_op = FsWrite | FsCreate | FsRename | FsRemove | FsChmod

record fs_event =
  fe_time :: instant
  fe_name :: string
  fe_base :: string
  fe_ops :: "fs_op list"

definition reload_debounce :: "duration \<Rightarrow> duration" where
  "reload_debounce d = (if d \<le> 0 then 800 * millisecond else d)"

definition relevant :: "string \<Rightarrow> fs_event \<Rightarrow> bool" where
  "relevant base e \<longleftrightarrow> fe_name e \<noteq> [] \<and> fe_base e = base \<and> list_ex (\<lambda>op. op \<noteq> FsChmod) (fe_ops e)"

text \<open>The times at which a signal is given, from when the timer, if there is one, is due.\<close>

fun watch_run :: "duration \<Rightarrow> string \<Rightarrow> instant option \<Rightarrow> fs_event list \<Rightarrow> instant list" where
  "watch_run d base timer [] = (case timer of None \<Rightarrow> [] | Some t \<Rightarrow> [t])"
| "watch_run d base timer (e # es) =
     (if \<not> relevant base e then watch_run d base timer es
      else (case timer of None \<Rightarrow> [] | Some t \<Rightarrow> if t \<le> fe_time e then [t] else [])
        @ watch_run d base (Some (fe_time e + d)) es)"

text \<open>The channel of one signal: those that come while one waits are one.\<close>

fun signals_read :: "bool \<Rightarrow> bool list \<Rightarrow> nat" where
  "signals_read pending [] = 0"
| "signals_read pending (True # xs) = signals_read True xs"
| "signals_read pending (False # xs) = (if pending then Suc (signals_read False xs) else signals_read False xs)"

definition change_times :: "string \<Rightarrow> fs_event list \<Rightarrow> instant list" where
  "change_times base es = map fe_time (filter (relevant base) es)"

text \<open>The last changes of the bursts: those that no other follows within the delay.\<close>

fun burst_ends :: "duration \<Rightarrow> instant list \<Rightarrow> instant list" where
  "burst_ends d [] = []"
| "burst_ends d [t] = [t]"
| "burst_ends d (t # u # ts) = (if t + d \<le> u then [t] else []) @ burst_ends d (u # ts)"

lemma watch_run_from:
  "watch_run d base (Some (t + d)) es = map (\<lambda>t. t + d) (burst_ends d (t # change_times base es))"
  by (induction es arbitrary: t) (auto simp: change_times_def)

text \<open>One signal for each burst of changes, and it comes the delay after the last of them.\<close>

lemma watch_signals: "watch_run d base None es = map (\<lambda>t. t + d) (burst_ends d (change_times base es))"
proof (induction es)
  case (Cons e es)
  show ?case
  proof (cases "relevant base e")
    case True
    then show ?thesis using watch_run_from [of d base "fe_time e" es] by (simp add: change_times_def)
  qed (use Cons in \<open>simp add: change_times_def\<close>)
qed (simp add: change_times_def)

lemma burst_ends_spec:
  assumes "sorted_wrt (<) ts"
  shows "set (burst_ends d ts) = {t \<in> set ts. \<forall>u \<in> set ts. t < u \<longrightarrow> t + d \<le> u}"
  using assms
proof (induction d ts rule: burst_ends.induct)
  case (3 d t u ts)
  have lt: "t < u" "\<forall>v \<in> set ts. u < v" "\<forall>v \<in> set (u # ts). t < v" using "3.prems" by auto
  have IH: "set (burst_ends d (u # ts)) = {t \<in> set (u # ts). \<forall>v \<in> set (u # ts). t < v \<longrightarrow> t + d \<le> v}"
    using 3 by simp
  have first: "(\<forall>v \<in> set (t # u # ts). t < v \<longrightarrow> t + d \<le> v) \<longleftrightarrow> t + d \<le> u" using lt by fastforce
  have rest: "(\<forall>v \<in> set (t # u # ts). x < v \<longrightarrow> x + d \<le> v) \<longleftrightarrow> (\<forall>v \<in> set (u # ts). x < v \<longrightarrow> x + d \<le> v)"
    if "x \<in> set (u # ts)" for x using that lt(3) by fastforce
  show ?case
  proof (rule set_eqI)
    fix x
    show "x \<in> set (burst_ends d (t # u # ts)) \<longleftrightarrow> x \<in> {t' \<in> set (t # u # ts). \<forall>v \<in> set (t # u # ts). t' < v \<longrightarrow> t' + d \<le> v}"
    proof (cases "x = t")
      case True
      then have "x \<notin> set (u # ts)" using lt(3) by auto
      then have "x \<notin> set (burst_ends d (u # ts))" using IH by blast
      then show ?thesis using True first by auto
    next
      case False
      then have "x \<in> set (burst_ends d (t # u # ts)) \<longleftrightarrow> x \<in> set (burst_ends d (u # ts))" by simp
      then show ?thesis using IH rest False by auto
    qed
  qed
qed auto

text \<open>The last change is always followed by a signal.\<close>

lemma burst_ends_last: "ts \<noteq> [] \<Longrightarrow> last ts \<in> set (burst_ends d ts)"
  by (induction d ts rule: burst_ends.induct) auto

end
