(* ===== verification/Terminal.thy ===== *)
theory Terminal
  imports GoStrings StringUtil WakeGate
begin

text \<open>
  \<open>internal/modality/terminal\<close> and \<open>internal/modality/voice\<close>: the conversation in a terminal. The lines that are typed, how
  each write goes and how playing and synthesis end are arguments.
\<close>

subsection \<open>The keyboard\<close>

text \<open>\<open>Listen\<close> on the lines so far, and whether standard input has ended: the events, and whether the source has ended.\<close>

fun keyboard :: "string list \<Rightarrow> bool \<Rightarrow> voice_event list \<times> bool" where
  "keyboard [] eof = ([], eof)"
| "keyboard (l # ls) eof =
     (let t = trim_space l in
      if t = [] then keyboard ls eof
      else if t = ''exit'' \<or> t = ''quit'' then ([], True)
      else case keyboard ls eof of (evs, e) \<Rightarrow> (Utterance t # evs, e))"

text \<open>\<open>fanIn\<close> of \<open>internal/kernel/converse\<close> closes its events, and with that ends the conversation, when all its sources have ended.\<close>

definition sources_ended :: "bool list \<Rightarrow> bool" where "sources_ended es = list_all (\<lambda>e. e) es"

subsection \<open>The screen\<close>

definition small_arrow :: string where "small_arrow = encode_rune 9656"

definition user_label :: string where "user_label = ''you '' @ small_arrow @ '' ''"
definition maven_label :: string where "maven_label = ''maven '' @ small_arrow @ '' ''"

text \<open>What \<open>Render\<close> sees, each with whether the writes it leads to go through (the label, the text).\<close>

datatype screen_signal = ScreenCancelled bool | ScreenEnds bool | ScreenDelta string bool bool

datatype screen_result = ScreenWaits | ScreenDone | ScreenCtxErr | ScreenWriteErr

fun screen_render :: "string \<Rightarrow> bool \<Rightarrow> screen_signal list \<Rightarrow> string \<times> screen_result" where
  "screen_render label prefixed [] = ([], ScreenWaits)"
| "screen_render label prefixed (ScreenCancelled ok # sigs) = (if prefixed \<and> ok then [newline] else [], ScreenCtxErr)"
| "screen_render label prefixed (ScreenEnds ok # sigs) = (if ok then ([newline], ScreenDone) else ([], ScreenWriteErr))"
| "screen_render label prefixed (ScreenDelta t lok tok # sigs) =
     (let pre = (if \<not> prefixed \<and> label \<noteq> [] then [newline] @ label else []) in
      if pre \<noteq> [] \<and> \<not> lok then ([], ScreenWriteErr)
      else if \<not> tok then (pre, ScreenWriteErr)
      else case screen_render label (prefixed \<or> label \<noteq> []) sigs of (out, r) \<Rightarrow> (pre @ t @ out, r))"

text \<open>\<open>TerminalSink\<close>: the prompt comes back after a reply that was rendered whole.\<close>

definition terminal_render :: "screen_signal list \<Rightarrow> string \<times> screen_result" where
  "terminal_render sigs =
     (case screen_render maven_label False sigs of
        (out, ScreenDone) \<Rightarrow> (out @ [newline] @ user_label, ScreenDone)
      | (out, r) \<Rightarrow> (out, r))"

text \<open>\<open>voiceLine\<close>: what is written for the events of a voice source, which are passed on.\<close>

definition voice_lines :: "voice_event list \<Rightarrow> string" where
  "voice_lines evs =
     concat (map (\<lambda>ev. case ev of Utterance t \<Rightarrow> if t = [] then [] else [CHR 0x0D] @ user_label @ t @ [newline] | _ \<Rightarrow> []) evs)"

subsection \<open>Speech\<close>

text \<open>\<open>Sink.Render\<close>: an error of the context first, then one of the synthesis that is no cancellation, then one of playing.\<close>

datatype speech_result = SpeechOk | SpeechCtxErr | SpeechSynthErr | SpeechPlayErr

definition speech_result_of :: "bool \<Rightarrow> bool option \<Rightarrow> bool \<Rightarrow> speech_result" where
  "speech_result_of ctxDone synth playFails =
     (if ctxDone then SpeechCtxErr
      else if synth = Some False then SpeechSynthErr
      else if playFails then SpeechPlayErr else SpeechOk)"

subsection \<open>What is shown\<close>

text \<open>A reply that is rendered to its end is shown whole, after one label, and before the next prompt.\<close>

lemma screen_done:
  assumes "screen_render label prefixed sigs = (out, ScreenDone)" and "label \<noteq> []"
  shows "\<exists>ts rest. sigs = map (\<lambda>(t, l). ScreenDelta t l True) ts @ ScreenEnds True # rest
    \<and> out = (if ts = [] \<or> prefixed then [] else [newline] @ label) @ concat (map fst ts) @ [newline]"
  using assms
proof (induction label prefixed sigs arbitrary: out rule: screen_render.induct)
  case (3 label prefixed ok sigs)
  then show ?case by (intro exI [of _ "[] :: (string \<times> bool) list"] exI [of _ sigs]) (auto split: if_splits)
next
  case (4 label prefixed t lok tok sigs)
  obtain out' where r: "screen_render label True sigs = (out', ScreenDone)" and tok: tok
    and o: "out = (if prefixed then [] else [newline] @ label) @ t @ out'"
    using "4.prems" by (auto simp: Let_def split: if_splits prod.splits)
  have "\<exists>ts rest. sigs = map (\<lambda>(t, l). ScreenDelta t l True) ts @ ScreenEnds True # rest
      \<and> out' = (if ts = [] \<or> True then [] else [newline] @ label) @ concat (map fst ts) @ [newline]"
  proof -
    have p: "(prefixed \<or> label \<noteq> []) = True" using "4.prems"(2) by simp
    show ?thesis using "4.IH" [OF refl _ _ _ "4.prems"(2)] r tok "4.prems" unfolding p by (auto simp: Let_def split: if_splits)
  qed
  then obtain ts rest where "sigs = map (\<lambda>(t, l). ScreenDelta t l True) ts @ ScreenEnds True # rest" "out' = concat (map fst ts) @ [newline]"
    by auto
  then show ?case using o tok by (intro exI [of _ "(t, lok) # ts"] exI [of _ rest]) auto
qed simp_all

text \<open>A reply that was cut off does not bring the prompt back.\<close>

lemma prompt_after_whole_reply: "snd (terminal_render sigs) = ScreenDone \<longleftrightarrow> snd (screen_render maven_label False sigs) = ScreenDone"
  by (auto simp: terminal_render_def split: prod.splits screen_result.splits)

text \<open>The words to leave end the keyboard but not a conversation that also listens to a microphone.\<close>

lemma exit_keeps_voice: "snd (keyboard [''exit''] False) \<and> \<not> sources_ended [snd (keyboard [''exit''] False), False]"
proof -
  have "trim_space ''exit'' = ''exit''" by code_simp
  then show ?thesis by (simp add: sources_ended_def)
qed

text \<open>What is typed after them is not heard, and what was typed before is.\<close>

lemma keyboard_until_exit:
  assumes "list_all (\<lambda>l. trim_space l \<noteq> ''exit'' \<and> trim_space l \<noteq> ''quit'') ls"
  shows "keyboard (ls @ [''exit''] @ rest) eof = (map Utterance (filter (\<lambda>t. t \<noteq> []) (map trim_space ls)), True)"
proof -
  have t: "trim_space ''exit'' = ''exit''" by code_simp
  show ?thesis using assms by (induction ls) (simp_all add: t Let_def)
qed

end
