(* ===== verification/Host.thy ===== *)
theory Host
  imports Gateway SessionRouter Wecom Feishu Matrix Whatsapp Web Telegram Delegate VoiceIO MemoryHost Skills
begin

text \<open>
  \<open>internal/gateway/{wire,gateway,lifecycle}.go\<close>: the sixteen plugins of the gateway, its construction, and \<open>Run\<close> from
  the start of the plugins to \<open>Shutdown\<close>, as a step relation in which turns and reloads interleave.
\<close>

subsection \<open>The plugins\<close>

text \<open>What the plugins are given from outside: the handle of a value a plugin makes for a configuration, the proxies
  (\<open>ClientFromProxy\<close> takes it; the scheme it has), how the WhatsApp store and the Matrix store open, the Matrix
  client library, the skill files, the handlers of the cron commands, and the memory directory with the text of an error in
  reading it.\<close>

record plugin_env =
  pe_handle :: "string \<Rightarrow> config \<Rightarrow> nat"
  pe_proxy :: "string \<Rightarrow> bool"
  pe_scheme :: "string \<Rightarrow> string option"
  pe_whatsapp :: "bool \<times> bool \<times> bool"
  pe_matrix_client :: "string \<Rightarrow> string \<Rightarrow> string \<Rightarrow> bool"
  pe_matrix_disk :: "bool \<times> string \<times> state_io \<times> state_file"
  pe_yaml :: "string \<Rightarrow> skill_meta option"
  pe_skills :: "string \<Rightarrow> skills_dir"
  pe_cron_handler :: "string \<Rightarrow> plugin_handler"
  pe_memory :: "config \<Rightarrow> mem_dir \<times> string"

definition plain_plugin :: "string \<Rightarrow> plugin" where
  "plain_plugin name = \<lparr>pl_name = name, pl_channels = None, pl_tools = None, pl_skills = None, pl_triggers = None,
     pl_slashes = None, pl_tts = None, pl_stt = None, pl_events = False, pl_journal = False, pl_memory = False\<rparr>"

text \<open>A channel plugin: each channel made has the name of the plugin.\<close>

definition channel_plugin :: "plugin_env \<Rightarrow> string \<Rightarrow> (config option \<Rightarrow> 'c list) \<Rightarrow> plugin" where
  "channel_plugin pe name mk =
     (plain_plugin name)\<lparr>pl_channels := Some (\<lambda>c. map (\<lambda>_. Some (name, pe_handle pe name c)) (mk (Some c)))\<rparr>"

definition wecom_channels :: "(string \<Rightarrow> bool) \<Rightarrow> config option \<Rightarrow> wecom_channel list" where
  "wecom_channels proxy cfg = (case cfg of
       None \<Rightarrow> []
     | Some c \<Rightarrow>
         (let w = ch_wecom (c_channels c) in
          if \<not> wc_enabled w then [] else if \<not> proxy (wc_proxy w) then [] else [new_wecom_channel w]))"

definition host_matrix_channels :: "plugin_env \<Rightarrow> config option \<Rightarrow> matrix_channel list" where
  "host_matrix_channels pe cfg = (case pe_matrix_disk pe of (mkdir, uuid, io, f) \<Rightarrow>
     snd (matrix_channels (pe_matrix_client pe) mkdir uuid io cfg f))"

text \<open>The commands of the cron plugin, which has a scheduler whenever it is asked for them.\<close>

definition cron_descriptions :: "(string \<times> string) list" where
  "cron_descriptions =
     [(''cron-add'', ''Schedule a persisted cron job. Exactly one of --expr (cron with seconds, six fields), ''
         @ ''--in (duration from now, e.g. 1m), or --at-ms (Unix ms). When the job runs, the agent executes with --message. ''
         @ ''To deliver the reply back to this chat: --deliver_to_incoming_chat true (no --channel or --to needed). ''
         @ ''To deliver to a specific chat: --deliver true --channel telegram --to <chat_id>.''),
      (''cron-list'', ''List persisted cron jobs (id, name, schedule, delivery).''),
      (''jobs'', ''List persisted cron jobs (alias for /cron-list).''),
      (''cron-remove'', ''Remove a persisted cron job by id (see /cron-list).'')]"

definition cron_slashes :: "(string \<Rightarrow> plugin_handler) \<Rightarrow> nat option \<Rightarrow> (slash_definition \<times> plugin_handler) list" where
  "cron_slashes handler svc = (case svc of
       None \<Rightarrow> []
     | Some _ \<Rightarrow> map (\<lambda>(n, d). (\<lparr>sd_name = n, sd_description = d\<rparr>, handler n)) cron_descriptions)"

definition cron_host_plugin :: "plugin_env \<Rightarrow> plugin" where
  "cron_host_plugin pe =
     (plain_plugin ''cron'')\<lparr>
       pl_triggers := Some (\<lambda>_. [CronTrigger]),
       pl_tools := Some (\<lambda>c. map (\<lambda>n. pe_handle pe n c) [''cron-schedule'', ''cron-list'', ''cron-remove'']),
       pl_slashes := Some (\<lambda>_. cron_slashes (pe_cron_handler pe) (Some 0))\<rparr>"

definition heartbeat_plugin :: "plugin_env \<Rightarrow> plugin" where
  "heartbeat_plugin pe = (plain_plugin ''heartbeat'')\<lparr>pl_triggers := Some (\<lambda>c. [OtherTrigger (pe_handle pe ''heartbeat'' c)])\<rparr>"

definition consolidate_plugin :: "plugin_env \<Rightarrow> plugin" where
  "consolidate_plugin pe =
     (plain_plugin ''mem-consolidate'')\<lparr>
       pl_triggers := Some (\<lambda>c. if mc_enabled (c_mem_consolidate c) then [OtherTrigger (pe_handle pe ''mem-consolidate'' c)] else [])\<rparr>"

definition acp_plugin :: "plugin_env \<Rightarrow> plugin" where
  "acp_plugin pe = (plain_plugin ''acp'')\<lparr>pl_tools := Some (\<lambda>c. map (\<lambda>_. pe_handle pe ''DelegateTask'' c) (acp_tools (Some c)))\<rparr>"

definition skills_plugin :: "plugin_env \<Rightarrow> plugin" where
  "skills_plugin pe =
     (plain_plugin ''skills-file'')\<lparr>
       pl_skills := Some (\<lambda>c. map (\<lambda>_. pe_handle pe ''skills-file'' c) (plugin_skills (pe_yaml pe) (pe_skills pe) (Some c)))\<rparr>"

definition voice_plugin ::
  "plugin_env \<Rightarrow> string \<Rightarrow> (config \<Rightarrow> tts_service option) \<Rightarrow> (config \<Rightarrow> stt_service option) option \<Rightarrow> plugin" where
  "voice_plugin pe name tts stt =
     (plain_plugin name)\<lparr>pl_tts := Some (\<lambda>c. map_option (\<lambda>_. pe_handle pe name c) (tts c)),
       pl_stt := map_option (\<lambda>f c. map_option (\<lambda>_. pe_handle pe name c) (f c)) stt\<rparr>"

text \<open>The memory plugin: its three tools, its command and the journal of turns.\<close>

definition memory_slash_handler :: "mem_dir \<times> string \<Rightarrow> plugin_handler" where
  "memory_slash_handler d _ _ = (case slash_memory True (fst d) of
       Inl _ \<Rightarrow> Inl (snd d)
     | Inr out \<Rightarrow> Inr \<lparr>pr_command = [], pr_output = out, pr_metadata = []\<rparr>)"

definition memory_slashes :: "plugin_env \<Rightarrow> config \<Rightarrow> (slash_definition \<times> plugin_handler) list" where
  "memory_slashes pe c =
     [(\<lparr>sd_name = ''memory'', sd_description = ''Show current long-term memory (MEMORY.md).''\<rparr>, memory_slash_handler (pe_memory pe c))]"

definition memory_tools :: "plugin_env \<Rightarrow> config \<Rightarrow> nat list" where
  "memory_tools pe c = map (\<lambda>n. pe_handle pe n c) [''remember'', ''memory_search'', ''memory_get'']"

definition memory_host_plugin :: "plugin_env \<Rightarrow> plugin" where
  "memory_host_plugin pe =
     (plain_plugin ''memory-file'')\<lparr>pl_tools := Some (memory_tools pe), pl_slashes := Some (memory_slashes pe),
       pl_events := True, pl_journal := True, pl_memory := True\<rparr>"

definition host_plugins :: "plugin_env \<Rightarrow> plugin list" where
  "host_plugins pe =
     [channel_plugin pe ''telegram'' telegram_channels,
      channel_plugin pe ''feishu'' (feishu_channels (pe_proxy pe)),
      channel_plugin pe ''wecom'' (wecom_channels (pe_proxy pe)),
      channel_plugin pe ''whatsapp'' (case pe_whatsapp pe of (dir, store, device) \<Rightarrow> whatsapp_channels dir store device),
      channel_plugin pe ''matrix'' (host_matrix_channels pe),
      channel_plugin pe ''web'' (plugin_web_channels True),
      cron_host_plugin pe,
      heartbeat_plugin pe,
      consolidate_plugin pe,
      acp_plugin pe,
      skills_plugin pe,
      voice_plugin pe ''cartesia'' (cartesia_tts (pe_scheme pe)) None,
      voice_plugin pe ''deepgram'' (deepgram_tts (pe_scheme pe)) (Some (deepgram_stt (pe_scheme pe))),
      voice_plugin pe ''elevenlabs'' (eleven_tts (pe_scheme pe)) None,
      voice_plugin pe ''openai'' (openai_tts (pe_scheme pe)) None,
      memory_host_plugin pe]"

subsection \<open>Wiring\<close>

datatype host_error =
    LoggerRequired
  | RouterErr router_error
  | SessionStoreErr
  | CronEnsureErr cron_error
  | BuiltinErr slash_error
  | PluginSlashErr slash_error
  | MemoryRegistryErr
  | PluginsStartErr string
  | InitialApplyErr apply_error

datatype runtime_factory = DefaultFactory | GivenFactory nat

text \<open>\<open>Options\<close>, what is found on disk, and the level of the logger.\<close>

record host_options =
  ho_logger :: bool
  ho_factory :: "nat option"
  ho_signals :: bool

record host_disk =
  hd_home :: string
  hd_router :: router_file
  hd_store :: bool
  hd_jobs :: cron_file

record core_deps =
  co_cfg :: config
  co_bus :: "nat bus"
  co_sessions :: router
  co_store_dir :: string
  co_factory :: runtime_factory

definition router_path :: "config \<Rightarrow> string" where
  "router_path cfg = join_path [ac_workspace (c_agent cfg), ''.maven'', ''session-router.json'']"

definition cron_jobs_path :: "config \<Rightarrow> string" where
  "cron_jobs_path cfg = join_path [ac_workspace (c_agent cfg), ''.maven'', ''cron'', ''jobs.json'']"

definition wire_core :: "config \<Rightarrow> host_options \<Rightarrow> host_disk \<Rightarrow> host_error + core_deps" where
  "wire_core cfg opts d =
     (if \<not> ho_logger opts then Inl LoggerRequired
      else case new_router (router_path cfg) (hd_router d) of
          Inl e \<Rightarrow> Inl (RouterErr e)
        | Inr router \<Rightarrow>
            (if \<not> hd_store d then Inl SessionStoreErr
             else Inr \<lparr>co_cfg = cfg, co_bus = new_bus 100, co_sessions = router,
               co_store_dir = join_path [config_dir (hd_home d), ''sessions''],
               co_factory = (case ho_factory opts of None \<Rightarrow> DefaultFactory | Some f \<Rightarrow> GivenFactory f)\<rparr>))"

record plane_deps =
  pd_plugins :: registry
  pd_cron :: cron_plugin
  pd_mgr :: channel_manager
  pd_slashes :: slash_registry
  pd_lock :: lock_state
  pd_memory :: "plugin list"

definition wire_planes :: "plugin_env \<Rightarrow> cron_file \<Rightarrow> core_deps \<Rightarrow> host_error + plane_deps" where
  "wire_planes pe jobs core =
     (let cfg = co_cfg core; plugins = Some (host_plugins pe) in
      case ensure_service True (new_cron_plugin (gc_max_runs (c_gateway cfg)) jobs) of
        (_, Some e) \<Rightarrow> Inl (CronEnsureErr e)
      | (cp, None) \<Rightarrow>
          (case builtins of
             Inl e \<Rightarrow> Inl (BuiltinErr e)
           | Inr r \<Rightarrow>
               (case register_plugin_commands r (registry_slashes plugins (Some cfg)) of
                  (_, Some e) \<Rightarrow> Inl (PluginSlashErr e)
                | (r1, None) \<Rightarrow>
                    (case new_memory_registry [memory_host_plugin pe] of
                       None \<Rightarrow> Inl MemoryRegistryErr
                     | Some mem \<Rightarrow>
                         Inr \<lparr>pd_plugins = plugins, pd_cron = cp, pd_mgr = new_manager, pd_slashes = r1,
                           pd_lock = new_lock None (ac_workspace (c_agent cfg)), pd_memory = mem\<rparr>))))"

text \<open>\<open>NewWithOptions\<close>; the commands of the first registry are those of the cron plugin's first scheduler.\<close>

definition new_gateway :: "plugin_env \<Rightarrow> log_level \<Rightarrow> config \<Rightarrow> host_options \<Rightarrow> host_disk \<Rightarrow> host_error + gateway" where
  "new_gateway pe level cfg opts d =
     bind_res (wire_core cfg opts d) (\<lambda>core.
     bind_res (wire_planes pe (hd_jobs d) core) (\<lambda>planes.
       Inr \<lparr>gw_cfg = co_cfg core, gw_level = level, gw_plugins = pd_plugins planes, gw_cron = pd_cron planes, gw_triggers = [],
         gw_mgr = pd_mgr planes, gw_bus = co_bus core, gw_lock = pd_lock planes, gw_slashes = Some (pd_slashes planes),
         gw_slash_cron = slash_service (pd_cron planes), gw_hook = False, gw_journals = [], gw_reload = False,
         gw_unused = []\<rparr>))"

subsection \<open>Run\<close>

datatype host_phase = Wired | Running bool | Returned "host_error option"

record host =
  hs_phase :: host_phase
  hs_gw :: gateway

text \<open>\<open>startOk\<close> tells which plugins start. A running host remembers whether it watches the configuration file. A reload
  returns once no turn holds the runtime: a step in which it would wait is not there until the turns have ended.\<close>

inductive host_step :: "(string \<Rightarrow> bool) \<Rightarrow> host \<Rightarrow> host \<Rightarrow> bool" where
  plugin_fails: "hs_phase h = Wired \<Longrightarrow> registry_start startOk (gw_plugins (hs_gw h)) = (called, Some n)
    \<Longrightarrow> host_step startOk h (h\<lparr>hs_phase := Returned (Some (PluginsStartErr n))\<rparr>)"
| apply_fails: "hs_phase h = Wired \<Longrightarrow> registry_start startOk (gw_plugins (hs_gw h)) = (called, None)
    \<Longrightarrow> gateway_apply env (gw_cfg (hs_gw h)) (hs_gw h) = Some (g', Some e)
    \<Longrightarrow> host_step startOk h \<lparr>hs_phase = Returned (Some (InitialApplyErr e)), hs_gw = g'\<rparr>"
| comes_up: "hs_phase h = Wired \<Longrightarrow> registry_start startOk (gw_plugins (hs_gw h)) = (called, None)
    \<Longrightarrow> gateway_apply env (gw_cfg (hs_gw h)) (hs_gw h) = Some (g', None)
    \<Longrightarrow> host_step startOk h \<lparr>hs_phase = Running (gc_hot_reload (c_gateway (gw_cfg g'))), hs_gw = g'\<rparr>"
| turn_starts: "hs_phase h = Running w
    \<Longrightarrow> host_step startOk h (h\<lparr>hs_gw := (hs_gw h)\<lparr>gw_lock := begin_turn i (gw_lock (hs_gw h))\<rparr>\<rparr>)"
| turn_over: "hs_phase h = Running w
    \<Longrightarrow> host_step startOk h (h\<lparr>hs_gw := (hs_gw h)\<lparr>gw_lock := end_turn i (gw_lock (hs_gw h))\<rparr>\<rparr>)"
| turn_streams: "hs_phase h = Running w
    \<Longrightarrow> host_step startOk h (h\<lparr>hs_gw := (hs_gw h)\<lparr>gw_lock := return_stream i (gw_lock (hs_gw h))\<rparr>\<rparr>)"
| asks_reload: "hs_phase h = Running w \<Longrightarrow> host_step startOk h (h\<lparr>hs_gw := request_reload (hs_gw h)\<rparr>)"
| file_changed: "hs_phase h = Running True \<Longrightarrow> reload_from_config env loaded (hs_gw h) = Some g'
    \<Longrightarrow> host_step startOk h (h\<lparr>hs_gw := g'\<rparr>)"
| reload_asked: "hs_phase h = Running w \<Longrightarrow> gw_reload (hs_gw h)
    \<Longrightarrow> reload_from_config env loaded ((hs_gw h)\<lparr>gw_reload := False\<rparr>) = Some g'
    \<Longrightarrow> host_step startOk h (h\<lparr>hs_gw := g'\<rparr>)"
| host_stops: "hs_phase h = Running w \<Longrightarrow> gateway_shutdown stopOk (hs_gw h) = Some (g', called)
    \<Longrightarrow> host_step startOk h \<lparr>hs_phase = Returned None, hs_gw = g'\<rparr>"

inductive host_steps :: "(string \<Rightarrow> bool) \<Rightarrow> host \<Rightarrow> host \<Rightarrow> bool" where
  host_refl: "host_steps startOk h h"
| host_then: "host_steps startOk a b \<Longrightarrow> host_step startOk b c \<Longrightarrow> host_steps startOk a c"

definition new_host :: "gateway \<Rightarrow> host" where "new_host g = \<lparr>hs_phase = Wired, hs_gw = g\<rparr>"

subsection \<open>Which channels there are\<close>

definition channel_names :: "string list" where
  "channel_names = [''telegram'', ''feishu'', ''wecom'', ''whatsapp'', ''matrix'', ''web'']"

text \<open>The channel is enabled and its constructor succeeds.\<close>

definition channel_made :: "plugin_env \<Rightarrow> config \<Rightarrow> string \<Rightarrow> bool" where
  "channel_made pe c n =
     (let chs = c_channels c in
      if n = ''telegram'' then tg_enabled (ch_telegram chs)
      else if n = ''feishu'' then fs_enabled (ch_feishu chs) \<and> pe_proxy pe (fs_proxy (ch_feishu chs))
      else if n = ''wecom'' then wc_enabled (ch_wecom chs) \<and> pe_proxy pe (wc_proxy (ch_wecom chs))
      else if n = ''whatsapp'' then wa_enabled (ch_whatsapp chs) \<and> (case pe_whatsapp pe of (d, s, v) \<Rightarrow> d \<and> s \<and> v)
      else if n = ''matrix'' then host_matrix_channels pe (Some c) \<noteq> []
      else n = ''web'' \<and> wb_enabled (ch_web chs))"

lemmas channel_constructors = telegram_channels_def feishu_channels_def wecom_channels_def whatsapp_channels_def
  plugin_web_channels_def new_feishu_channel_def new_whatsapp_def

lemma channel_of_plugin:
  "map (\<lambda>_. y) (telegram_channels (Some c)) = (if channel_made pe c ''telegram'' then [y] else [])"
  "map (\<lambda>_. y) (feishu_channels (pe_proxy pe) (Some c)) = (if channel_made pe c ''feishu'' then [y] else [])"
  "map (\<lambda>_. y) (wecom_channels (pe_proxy pe) (Some c)) = (if channel_made pe c ''wecom'' then [y] else [])"
  "pe_whatsapp pe = (dir, store, device)
    \<Longrightarrow> map (\<lambda>_. y) (whatsapp_channels dir store device (Some c)) = (if channel_made pe c ''whatsapp'' then [y] else [])"
  "map (\<lambda>_. y) (host_matrix_channels pe (Some c)) = (if channel_made pe c ''matrix'' then [y] else [])"
  "map (\<lambda>_. y) (plugin_web_channels True (Some c)) = (if channel_made pe c ''web'' then [y] else [])"
  by (simp_all add: channel_made_def channel_constructors Let_def)
    (auto simp: host_matrix_channels_def matrix_channels_def split: prod.split sum.split)

text \<open>The channels of the host: the enabled ones that can be made, in the order of the plugins.\<close>

lemma host_channels:
  "registry_channels (Some (host_plugins pe)) (Some c)
     = map (\<lambda>n. Some (n, pe_handle pe n c)) (filter (channel_made pe c) channel_names)"
proof -
  obtain dir store device where w: "pe_whatsapp pe = (dir, store, device)" by (metis prod_cases3)
  show ?thesis
    by (simp add: registry_channels_def collect_def host_plugins_def channel_plugin_def plain_plugin_def cron_host_plugin_def
        heartbeat_plugin_def consolidate_plugin_def acp_plugin_def skills_plugin_def voice_plugin_def memory_host_plugin_def
        w channel_of_plugin [where pe = pe] channel_names_def)
qed

lemma collect_distinct:
  "distinct (map fst out @ ns) \<Longrightarrow> [] \<notin> set ns
    \<Longrightarrow> collect_channels out (map (\<lambda>n. Some (n, h n)) ns) = Inr (out @ map (\<lambda>n. (n, h n)) ns)"
  by (induction ns arbitrary: out) auto

text \<open>The names never clash, so the channel manager takes them.\<close>

lemma host_channels_collected:
  "channels_from_registry (Some (registry_channels (Some (host_plugins pe)) (Some c)))
     = Inr (map (\<lambda>n. (n, pe_handle pe n c)) (filter (channel_made pe c) channel_names))"
proof -
  have "distinct (filter (channel_made pe c) channel_names)" "[] \<notin> set (filter (channel_made pe c) channel_names)"
    by (simp_all add: channel_names_def)
  with collect_distinct [of "[]"] show ?thesis by (simp add: channels_from_registry_def host_channels)
qed

lemma channel_names_plain: "list_all plain_name channel_names"
  by code_simp

lemma host_channels_plain:
  "\<forall>nx. channels_from_registry (Some (registry_channels (Some (host_plugins pe)) (Some c))) = Inr nx
     \<longrightarrow> (\<forall>p \<in> set nx. plain_name (fst p))"
  using channel_names_plain by (auto simp: host_channels_collected list_all_iff)

subsection \<open>The slash commands\<close>

text \<open>A command whose name is in its normal form and new is taken.\<close>

lemma register_new:
  "to_lower (trim_space (sd_name d)) = sd_name d \<Longrightarrow> valid_name (sd_name d) \<Longrightarrow> sd_name d \<notin> fst ` set r
    \<Longrightarrow> register_command (Some r) d (Some h) = Inr (r @ [(sd_name d, d, h)])"
  by (cases d) (auto simp: register_command_def Let_def valid_name_def map_put_new map_of_eq_None_iff)

definition normal_name :: "string \<Rightarrow> bool" where
  "normal_name n \<longleftrightarrow> to_lower (trim_space n) = n \<and> valid_name n"

lemma register_plugin_new:
  "list_all (\<lambda>c. normal_name (sd_name (fst c))) cmds \<Longrightarrow> distinct (map fst r @ map (\<lambda>c. sd_name (fst c)) cmds)
    \<Longrightarrow> register_plugin_commands r cmds = (r @ map (\<lambda>c. (sd_name (fst c), fst c, plugin_slash_handler (snd c))) cmds, None)"
proof (induction r cmds rule: register_plugin_commands.induct)
  case (2 r d h cmds)
  then have "register_command (Some r) d (Some (plugin_slash_handler h)) = Inr (r @ [(sd_name d, d, plugin_slash_handler h)])"
    by (intro register_new) (auto simp: normal_name_def)
  with 2 show ?case by simp
qed simp

lemma host_slashes: "registry_slashes (Some (host_plugins pe)) (Some c)
    = cron_slashes (pe_cron_handler pe) (Some 0) @ memory_slashes pe c"
  by (simp add: registry_slashes_def collect_def host_plugins_def channel_plugin_def plain_plugin_def cron_host_plugin_def
        heartbeat_plugin_def consolidate_plugin_def acp_plugin_def skills_plugin_def voice_plugin_def memory_host_plugin_def)

lemma slash_names_normal:
  "list_all normal_name [''compact'', ''cron-add'', ''cron-list'', ''jobs'', ''cron-remove'', ''memory'', ''reload'', ''status'']"
  by code_simp

text \<open>The commands of the running gateway, in the order of registration: registering them never fails.\<close>

lemma builtins_normal: "builtins = Inr [(''compact'', \<lparr>sd_name = ''compact'',
        sd_description = ''Compress the current conversation into a fresh continuation context.''\<rparr>, handle_compact)]"
proof -
  have "normal_name ''compact''" using slash_names_normal by simp
  then show ?thesis by (simp add: builtins_def register_new normal_name_def new_slash_registry_def)
qed

lemma plugin_commands_registered:
  "builtins = Inr r \<Longrightarrow> register_plugin_commands r (cron_slashes handlers (Some 0) @ memory_slashes pe c)
     = (r @ map (\<lambda>c. (sd_name (fst c), fst c, plugin_slash_handler (snd c))) (cron_slashes handlers (Some 0) @ memory_slashes pe c), None)"
  using slash_names_normal
  by (intro register_plugin_new) (auto simp: builtins_normal cron_slashes_def cron_descriptions_def memory_slashes_def)

lemma host_gateway_slashes:
  assumes "gw_plugins g = Some (host_plugins pe)"
  shows "\<exists>r. gateway_slashes env cfg g = Inr r
    \<and> map fst r = [''compact'', ''cron-add'', ''cron-list'', ''jobs'', ''cron-remove'', ''memory'', ''reload'', ''status'']"
proof -
  obtain r0 where b: "builtins = Inr r0" and r0: "map fst r0 = [''compact'']" by (simp add: builtins_normal)
  let ?r1 = "r0 @ map (\<lambda>c. (sd_name (fst c), fst c, plugin_slash_handler (snd c)))
      (cron_slashes (pe_cron_handler pe) (Some 0) @ memory_slashes pe cfg)"
  have n1: "map fst ?r1 = [''compact'', ''cron-add'', ''cron-list'', ''jobs'', ''cron-remove'', ''memory'']"
    by (simp add: r0 cron_slashes_def cron_descriptions_def memory_slashes_def)
  have "fst ` set ?r1 = set (map fst ?r1)" by (simp only: set_map)
  then have s1: "''reload'' \<notin> fst ` set ?r1" "''status'' \<notin> fst ` set ?r1" by (simp_all only: n1) simp_all
  have n: "normal_name ''reload''" "normal_name ''status''" using slash_names_normal by simp_all
  show ?thesis
    using plugin_commands_registered [OF b, of "pe_cron_handler pe" pe cfg] n s1 n1
    by (simp add: gateway_slashes_def b assms host_slashes register_gateway_slashes_def register_new normal_name_def)
qed

subsection \<open>What every state of the host keeps\<close>

text \<open>The bus delivers to the running channels, and every runtime that has been in use is closed or is the current one.\<close>

definition runtimes_kept :: "lock_state \<Rightarrow> bool" where
  "runtimes_kept l \<longleftrightarrow> ls_old l = [] \<and> (\<forall>n \<in> set (ls_used l). ls_rt l = Some n \<or> n \<in> set (ls_closed l))"

definition gateway_inv :: "plugin_env \<Rightarrow> gateway \<Rightarrow> bool" where
  "gateway_inv pe g \<longleftrightarrow> gw_plugins g = Some (host_plugins pe) \<and> wired (gw_mgr g) (gw_bus g) \<and> runtimes_kept (gw_lock g)"

lemma set_slashes_wired [simp]: "wired (set_pipeline_slashes d m) b = wired m b"
  by (simp add: wired_def set_pipeline_slashes_def get_channel_def)

lemma prepare_inv:
  assumes "apply_prepare env cfg g = Some (g', r)" and "gateway_inv pe g"
  shows "gateway_inv pe g'"
  using prepare_frame [OF assms(1)] assms(2) by (auto simp: gateway_inv_def live_part_def)

lemma pipeline_inv:
  assumes "reload_pipeline env cfg rt r g = Some (g', e)" and "gateway_inv pe g"
  shows "gateway_inv pe g'"
proof -
  obtain m b tr e' where a: "manager_apply (Some (validate_channels (ae_url env) (c_channels cfg) = []))
      (Some (registry_channels (gw_plugins g) (Some cfg))) (ae_takes_slashes env) (ae_channel_ok env)
      (set_pipeline_slashes (command_definitions (Some r)) (gw_mgr g)) (gw_bus g) = (m, b, tr, e')"
    by (metis prod_cases4)
  have "wired m b"
    using assms(2) host_channels_plain by (intro apply_wired [OF _ a]) (auto simp: gateway_inv_def)
  then show ?thesis
    using assms a
    by (cases e')
      (auto simp: reload_pipeline_def gateway_inv_def runtimes_kept_def reload_runtime_def swap_runtime_def close_taken_def
        split: if_splits option.splits)
qed

lemma start_triggers_inv:
  assumes "start_triggers env g = Some (g', e)" and "gateway_inv pe g"
  shows "gateway_inv pe g'"
proof -
  obtain g1 where g1: "stop_triggers g = Some g1" using assms(1) by (auto simp: start_triggers_def split: option.splits)
  have "gw_mgr g' = gw_mgr g \<and> gw_bus g' = gw_bus g"
    using assms(1) g1 stop_triggers_frame [OF g1]
    by (auto simp: start_triggers_def split: option.splits prod.splits sum.splits)
  with start_triggers_frame [OF assms(1)] assms(2) show ?thesis by (simp add: gateway_inv_def live_part_def)
qed

lemma apply_inv:
  assumes "gateway_apply env cfg g = Some (g', e)" and "gateway_inv pe g"
  shows "gateway_inv pe g'"
proof -
  obtain g1 r where p: "apply_prepare env cfg g = Some (g1, r)"
    using assms(1) by (auto simp: gateway_apply_def split: option.splits)
  note i1 = prepare_inv [OF p assms(2)]
  show ?thesis
  proof (cases r)
    case (Inl x)
    then show ?thesis using assms(1) p i1 by (simp add: gateway_apply_def)
  next
    case (Inr y)
    obtain rt reg where y: "r = Inr (rt, reg)" using Inr by (cases y) simp
    then obtain g2 e2 where q: "reload_pipeline env cfg rt reg g1 = Some (g2, e2)"
      using assms(1) p by (auto simp: gateway_apply_def split: option.splits)
    note i2 = pipeline_inv [OF q i1]
    then have "gateway_inv pe (wire_post_action_hooks (g2\<lparr>gw_cfg := cfg\<rparr>))"
      by (simp add: gateway_inv_def wire_post_action_hooks_def)
    then show ?thesis
      using assms(1) p y q i2 start_triggers_inv by (cases e2) (auto simp: gateway_apply_def)
  qed
qed

lemma reload_inv: "reload_from_config env loaded g = Some g' \<Longrightarrow> gateway_inv pe g \<Longrightarrow> gateway_inv pe g'"
  by (auto simp: reload_from_config_def split: sum.splits dest: apply_inv)

lemma turn_frames [simp]:
  "runtimes_kept (begin_turn i l) = runtimes_kept l" "runtimes_kept (end_turn i l) = runtimes_kept l"
  "runtimes_kept (return_stream i l) = runtimes_kept l"
  by (simp_all add: runtimes_kept_def begin_turn_def end_turn_def return_stream_def)

definition stopped_clean :: "gateway \<Rightarrow> bool" where
  "stopped_clean g \<longleftrightarrow> gw_triggers g = [] \<and> cm_channels (gw_mgr g) = [] \<and> (\<forall>k. bus_subscriber (gw_bus g) k = None)
     \<and> b_closed (gw_bus g) \<and> ls_rt (gw_lock g) = None \<and> set (ls_used (gw_lock g)) \<subseteq> set (ls_closed (gw_lock g))"

lemma shutdown_clean:
  assumes "gateway_shutdown ok g = Some (g', called)" and "gateway_inv pe g"
  shows "stopped_clean g' \<and> gateway_inv pe g'"
proof -
  note s = shutdown_stops_all [OF assms(1)]
  have w: "wired (gw_mgr g) (gw_bus g)" and l: "runtimes_kept (gw_lock g)" using assms(2) by (simp_all add: gateway_inv_def)
  obtain g1 where g1: "stop_triggers g = Some g1" using assms(1) by (auto simp: gateway_shutdown_def split: option.splits)
  obtain m b tr where m: "manager_stop_all (gw_mgr g1) (gw_bus g1) = (m, b, tr)" by (metis prod_cases3)
  have f: "gw_lock g1 = gw_lock g" "gw_plugins g1 = gw_plugins g" using stop_triggers_frame [OF g1] by (simp_all add: live_part_def)
  obtain t where t: "take_runtime (gw_lock g) = Some t" "gw_lock g' = close_taken t" "gw_plugins g' = gw_plugins g"
    using assms(1) g1 m f by (auto simp: gateway_shutdown_def)
  have "runtimes_kept (gw_lock g')" "set (ls_used (gw_lock g')) \<subseteq> set (ls_closed (gw_lock g'))"
    using t l by (auto simp: take_runtime_def swap_runtime_def close_taken_def runtimes_kept_def split: if_splits option.splits)
  with s [OF w] t(3) assms(2) show ?thesis by (auto simp: stopped_clean_def gateway_inv_def wired_def get_channel_def)
qed

definition host_inv :: "plugin_env \<Rightarrow> host \<Rightarrow> bool" where
  "host_inv pe h \<longleftrightarrow> gateway_inv pe (hs_gw h) \<and> (hs_phase h = Returned None \<longrightarrow> stopped_clean (hs_gw h))"

lemma host_step_inv: "host_step startOk h h' \<Longrightarrow> host_inv pe h \<Longrightarrow> host_inv pe h'"
proof (induction rule: host_step.induct)
  case (host_stops h w stopOk g' called)
  then show ?case using shutdown_clean by (simp add: host_inv_def)
next
  case (reload_asked h w env loaded g')
  have "gateway_inv pe ((hs_gw h)\<lparr>gw_reload := False\<rparr>)" using reload_asked.prems by (simp add: host_inv_def gateway_inv_def)
  with reload_inv [OF reload_asked.hyps(3)] show ?case using reload_asked.hyps(1) by (simp add: host_inv_def)
qed (auto simp: host_inv_def request_reload_def gateway_inv_def dest: apply_inv reload_inv)

lemma host_steps_inv: "host_steps startOk h h' \<Longrightarrow> host_inv pe h \<Longrightarrow> host_inv pe h'"
  by (induction rule: host_steps.induct) (auto dest: host_step_inv)

lemma new_gateway_inv:
  assumes "new_gateway pe level cfg opts d = Inr g"
  shows "gateway_inv pe g"
proof -
  obtain core where c: "wire_core cfg opts d = Inr core" using assms by (auto simp: new_gateway_def bind_res_def split: sum.splits)
  have cb: "co_bus core = new_bus 100" using c by (auto simp: wire_core_def split: if_splits sum.splits)
  obtain planes where p: "wire_planes pe (hd_jobs d) core = Inr planes"
    using assms c by (auto simp: new_gateway_def bind_res_def split: sum.splits)
  have "pd_plugins planes = Some (host_plugins pe) \<and> pd_mgr planes = new_manager
      \<and> pd_lock planes = new_lock None (ac_workspace (c_agent (co_cfg core)))"
    using p by (auto simp: wire_planes_def Let_def split: prod.splits option.splits sum.splits)
  then show ?thesis
    using assms c p cb wired_start [of 100]
    by (auto simp: new_gateway_def gateway_inv_def runtimes_kept_def new_lock_def)
qed


subsection \<open>When the gateway does not come up\<close>

text \<open>What stops the construction: the logger, the file of the session router, the directory of the histories.\<close>

lemma planes_wired: "\<exists>p. wire_planes pe jobs core = Inr p \<and> pd_plugins p = Some (host_plugins pe)
    \<and> map fst (pd_slashes p) = [''compact'', ''cron-add'', ''cron-list'', ''jobs'', ''cron-remove'', ''memory'']"
proof -
  obtain r where b: "builtins = Inr r" and r: "map fst r = [''compact'']" by (simp add: builtins_normal)
  show ?thesis
    using plugin_commands_registered [OF b, of "pe_cron_handler pe" pe "co_cfg core"] r
    by (simp add: wire_planes_def ensure_service_def new_cron_plugin_def new_service_def Let_def b host_slashes
        new_memory_registry_def cron_slashes_def cron_descriptions_def memory_slashes_def)
qed

lemma new_gateway_fails:
  "(case new_gateway pe level cfg opts d of Inl e \<Rightarrow> Some e | Inr _ \<Rightarrow> None)
     = (if \<not> ho_logger opts then Some LoggerRequired
        else case new_router (router_path cfg) (hd_router d) of
            Inl e \<Rightarrow> Some (RouterErr e)
          | Inr _ \<Rightarrow> if hd_store d then None else Some SessionStoreErr)"
proof (cases "wire_core cfg opts d")
  case (Inl e)
  then show ?thesis by (auto simp: new_gateway_def wire_core_def split: if_splits sum.splits)
next
  case (Inr core)
  obtain p where "wire_planes pe (hd_jobs d) core = Inr p" using planes_wired by blast
  with Inr show ?thesis by (auto simp: new_gateway_def wire_core_def split: if_splits sum.splits)
qed

text \<open>An \<open>Apply\<close> never fails over names that clash or are empty.\<close>

definition outside_cause :: "apply_error \<Rightarrow> bool" where
  "outside_cause e = (case e of
       WorkspaceChange \<Rightarrow> True | BadLogLevel _ \<Rightarrow> True | SystemPromptErr \<Rightarrow> True | RuntimeErr \<Rightarrow> True | TriggerErr _ \<Rightarrow> True
     | ChannelsErr x \<Rightarrow> (x = InvalidChannels \<or> (\<exists>n \<in> set channel_names. x = ChannelStart n))
     | CronServiceErr _ \<Rightarrow> False | SlashErr _ \<Rightarrow> False)"

lemma ensure_cron_ok: "ensure_cron g = (g', e) \<Longrightarrow> e = None"
  by (auto simp: ensure_cron_def ensure_service_def new_service_def split: option.splits prod.splits)

lemma prepare_outside:
  assumes "apply_prepare env cfg g = Some (g', Inl e)" and "gateway_inv pe g"
  shows "outside_cause e"
proof (cases "validate_reload cfg g \<and> (\<exists>l. parse_log_level (c_log_level cfg) = Inr l)")
  case False
  then show ?thesis using assms(1) by (auto simp: apply_prepare_def outside_cause_def split: if_splits sum.splits)
next
  case True
  then obtain l where l: "validate_reload cfg g" "parse_log_level (c_log_level cfg) = Inr l" by blast
  with assms(1) obtain g1 where g1: "stop_triggers (g\<lparr>gw_level := l\<rparr>) = Some g1"
    by (auto simp: apply_prepare_def split: option.splits)
  obtain g2 x where g2: "ensure_cron g1 = (g2, x)" by fastforce
  have x: "x = None" using g2 by (rule ensure_cron_ok)
  have "gw_plugins g2 = Some (host_plugins pe)"
    using stop_triggers_frame [OF g1] ensure_cron_frame [OF g2] assms(2) by (simp add: live_part_def gateway_inv_def)
  from host_gateway_slashes [OF this, of env cfg] obtain r where "gateway_slashes env cfg g2 = Inr r" by blast
  then show ?thesis
    using assms(1) l g1 g2 x by (auto simp: apply_prepare_def outside_cause_def split: option.splits)
qed

lemma start_all_error: "start_all ok chs = (tr, Some e) \<Longrightarrow> \<exists>n \<in> fst ` set chs. e = ChannelStart n"
  by (cases "filter (\<lambda>p. \<not> ok (snd p)) chs") (auto simp: start_all_def dest: filter_eq_ConsD)

lemma manager_outside:
  assumes "manager_apply (Some v) (Some (registry_channels (Some (host_plugins pe)) (Some cfg))) ts ok m b = (m', b', tr, e)"
  shows "(case e of
      None \<Rightarrow> cm_channels m' = map (\<lambda>n. (n, pe_handle pe n cfg)) (filter (channel_made pe cfg) channel_names)
    | Some x \<Rightarrow> x = InvalidChannels \<or> (\<exists>n \<in> set channel_names. x = ChannelStart n))"
proof (cases v)
  case False
  then show ?thesis using assms by (auto simp: manager_apply_def)
next
  case True
  let ?nx = "map (\<lambda>n. (n, pe_handle pe n cfg)) (filter (channel_made pe cfg) channel_names)"
  obtain st x where s: "start_all ok ?nx = (st, x)" by fastforce
  then have "e = x \<and> cm_channels m' = ?nx"
    using assms True by (auto simp: manager_apply_def host_channels_collected Let_def)
  then show ?thesis using s start_all_error [of ok ?nx st] by (auto split: option.split)
qed

lemma pipeline_outside:
  assumes "reload_pipeline env cfg rt r g = Some (g', e)" and "gw_plugins g = Some (host_plugins pe)"
  shows "(case e of
      None \<Rightarrow> cm_channels (gw_mgr g') = map (\<lambda>n. (n, pe_handle pe n cfg)) (filter (channel_made pe cfg) channel_names)
    | Some x \<Rightarrow> outside_cause x)"
proof -
  obtain m b tr e' where a: "manager_apply (Some (validate_channels (ae_url env) (c_channels cfg) = []))
      (Some (registry_channels (gw_plugins g) (Some cfg))) (ae_takes_slashes env) (ae_channel_ok env)
      (set_pipeline_slashes (command_definitions (Some r)) (gw_mgr g)) (gw_bus g) = (m, b, tr, e')"
    by (metis prod_cases4)
  note o = manager_outside [OF a [unfolded assms(2)]]
  show ?thesis
  proof (cases e')
    case None
    then have "e = None \<and> gw_mgr g' = m" using assms(1) a by (auto simp: reload_pipeline_def)
    then show ?thesis using o None by simp
  next
    case (Some x)
    then have "e = Some (ChannelsErr x)" using assms(1) a by (auto simp: reload_pipeline_def)
    then show ?thesis using o Some by (auto simp: outside_cause_def)
  qed
qed

lemma apply_outside:
  assumes "gateway_apply env cfg g = Some (g', e)" and "gateway_inv pe g"
  shows "(case e of
      None \<Rightarrow> cm_channels (gw_mgr g') = map (\<lambda>n. (n, pe_handle pe n cfg)) (filter (channel_made pe cfg) channel_names)
    | Some x \<Rightarrow> outside_cause x)"
proof -
  obtain g1 r where p: "apply_prepare env cfg g = Some (g1, r)"
    using assms(1) by (auto simp: gateway_apply_def split: option.splits)
  show ?thesis
  proof (cases r)
    case (Inl x)
    then show ?thesis using assms(1) p prepare_outside [OF _ assms(2)] by (auto simp: gateway_apply_def)
  next
    case (Inr y)
    obtain rt reg where y: "r = Inr (rt, reg)" using Inr by (cases y) simp
    then obtain g2 e2 where q: "reload_pipeline env cfg rt reg g1 = Some (g2, e2)"
      using assms(1) p by (auto simp: gateway_apply_def split: option.splits)
    have "gw_plugins g1 = Some (host_plugins pe)" using prepare_inv [OF p assms(2)] by (simp add: gateway_inv_def)
    note o = pipeline_outside [OF q this]
    show ?thesis
    proof (cases e2)
      case (Some x)
      then show ?thesis using assms(1) p y q o by (auto simp: gateway_apply_def)
    next
      case None
      let ?g3 = "wire_post_action_hooks (g2\<lparr>gw_cfg := cfg\<rparr>)"
      have s: "start_triggers env ?g3 = Some (g', e)" using assms(1) p y q None by (simp add: gateway_apply_def)
      then obtain g4 where g4: "stop_triggers ?g3 = Some g4" by (auto simp: start_triggers_def split: option.splits)
      have "gw_mgr g' = gw_mgr g2"
        using s g4 stop_triggers_frame [OF g4]
        by (auto simp: start_triggers_def wire_post_action_hooks_def split: option.splits prod.splits sum.splits)
      moreover have "\<forall>x. e = Some x \<longrightarrow> outside_cause x" using start_triggers_frame [OF s] by (auto simp: outside_cause_def)
      ultimately show ?thesis using o None by (auto split: option.split)
    qed
  qed
qed

text \<open>C14: what a reload of the running host brings: if it succeeds, the channels that run are exactly those the new
  configuration enables and whose constructors succeed, each subscribed to the bus under its name and nothing else
  subscribed; if it fails, then for a cause outside - the workspace, the log level, the prompt files, the runtime,
  settings of channels, a channel or trigger that does not start - never because commands or channels of the sixteen
  plugins clash.\<close>

theorem reload_brings_channels:
  assumes "new_gateway pe level cfg0 opts d = Inr g0" and "host_steps startOk (new_host g0) h"
    and "gateway_apply env cfg (hs_gw h) = Some (g', e)"
  shows "(case e of
      None \<Rightarrow> cm_channels (gw_mgr g') = map (\<lambda>n. (n, pe_handle pe n cfg)) (filter (channel_made pe cfg) channel_names)
        \<and> (\<forall>k. bus_subscriber (gw_bus g') k
             = (if k \<in> set channel_names \<and> channel_made pe cfg k then Some (pe_handle pe k cfg) else None))
    | Some x \<Rightarrow> outside_cause x)"
proof -
  have "host_inv pe (new_host g0)" using new_gateway_inv [OF assms(1)] by (simp add: host_inv_def new_host_def)
  from host_steps_inv [OF assms(2) this] have i: "gateway_inv pe (hs_gw h)" by (simp add: host_inv_def)
  have w: "wired (gw_mgr g') (gw_bus g')" using apply_inv [OF assms(3) i] by (simp add: gateway_inv_def)
  have m: "map_of (map (\<lambda>n. (n, f n)) ns) k = (if k \<in> set ns then Some (f k) else None)" for f :: "string \<Rightarrow> nat" and ns k
    by (induction ns) auto
  show ?thesis
    using apply_outside [OF assms(3) i] w by (cases e) (auto simp: wired_def get_channel_def m)
qed

subsection \<open>A host that comes up and stops\<close>

definition demo_plugins :: plugin_env where
  "demo_plugins = \<lparr>pe_handle = (\<lambda>n _. length n), pe_proxy = (\<lambda>_. True), pe_scheme = (\<lambda>_. None), pe_whatsapp = (True, True, True),
     pe_matrix_client = (\<lambda>_ _ _. True), pe_matrix_disk = (True, [], StateStored, NoStateFile), pe_yaml = (\<lambda>_. None),
     pe_skills = (\<lambda>_. NoSkillsDir), pe_cron_handler = (\<lambda>_ _ _. Inl []), pe_memory = (\<lambda>_. (DirMissing, []))\<rparr>"

definition demo_options :: host_options where
  "demo_options = \<lparr>ho_logger = True, ho_factory = None, ho_signals = True\<rparr>"

definition bare_disk :: host_disk where
  "bare_disk = \<lparr>hd_home = ''/h'', hd_router = FileAbsent, hd_store = True, hd_jobs = CronAbsent\<rparr>"

definition web_config_on :: config where
  "web_config_on = (default_config ''/h'')\<lparr>c_channels := (c_channels (default_config ''/h''))
     \<lparr>ch_web := (ch_web (c_channels (default_config ''/h'')))\<lparr>wb_enabled := True\<rparr>\<rparr>\<rparr>"

definition demo_gateway :: gateway where
  "demo_gateway = (case new_gateway demo_plugins LevelInfo web_config_on demo_options bare_disk of Inr g \<Rightarrow> g | Inl _ \<Rightarrow> hb_gateway)"

lemma demo_made: "new_gateway demo_plugins LevelInfo web_config_on demo_options bare_disk = Inr demo_gateway"
proof -
  have "\<not> is_err (new_router (router_path web_config_on) (hd_router bare_disk))" by code_simp
  then have "(case new_gateway demo_plugins LevelInfo web_config_on demo_options bare_disk of Inl e \<Rightarrow> Some e | Inr _ \<Rightarrow> None) = None"
    by (simp add: new_gateway_fails demo_options_def bare_disk_def is_err_def split: sum.splits)
  then show ?thesis by (simp add: demo_gateway_def split: sum.splits)
qed

lemma new_gateway_fields:
  assumes "new_gateway pe level cfg opts d = Inr g"
  shows "gw_cfg g = cfg \<and> gw_triggers g = [] \<and> gw_mgr g = new_manager \<and> gw_bus g = new_bus 100
    \<and> gw_lock g = new_lock None (ac_workspace (c_agent cfg)) \<and> gw_unused g = []
    \<and> gw_cron g = fst (ensure_service True (new_cron_plugin (gc_max_runs (c_gateway cfg)) (hd_jobs d)))"
  using assms
  by (auto simp: new_gateway_def bind_res_def wire_core_def wire_planes_def Let_def split: if_splits sum.splits prod.splits option.splits)

text \<open>What an \<open>Apply\<close> to a gateway without triggers does when nothing outside fails.\<close>

lemma apply_fresh:
  assumes "gw_plugins g = Some (host_plugins pe)" and "gw_triggers g = []" and "ls_turns (gw_lock g) = []"
    and "cp_svc (gw_cron g) \<noteq> None" and "validate_reload cfg g" and "\<not> is_err (parse_log_level (c_log_level cfg))"
    and "build_sys_prompt (ae_agents env) (ae_soul env) (ae_memory env) \<noteq> None" and "ae_runtime env = Some rt"
    and "validate_channels (ae_url env) (c_channels cfg) = []" and "\<And>h. ae_channel_ok env h"
  shows "\<exists>g3. gateway_apply env cfg g = start_triggers env g3 \<and> gw_plugins g3 = gw_plugins g \<and> gw_cfg g3 = cfg
    \<and> gw_cron g3 = gw_cron g \<and> gw_triggers g3 = [] \<and> ls_rt (gw_lock g3) = Some rt \<and> ls_turns (gw_lock g3) = []
    \<and> (ls_rt (gw_lock g) = None \<longrightarrow> ls_closed (gw_lock g3) = ls_old (gw_lock g) @ ls_closed (gw_lock g))
    \<and> b_closed (gw_bus g3) = b_closed (gw_bus g)
    \<and> cm_channels (gw_mgr g3) = map (\<lambda>n. (n, pe_handle pe n cfg)) (filter (channel_made pe cfg) channel_names)"
proof -
  obtain l where l: "parse_log_level (c_log_level cfg) = Inr l" using assms(6) by (cases "parse_log_level (c_log_level cfg)") (auto simp: is_err_def)
  let ?g1 = "g\<lparr>gw_level := l, gw_triggers := []\<rparr>"
  have st: "stop_triggers (g\<lparr>gw_level := l\<rparr>) = Some ?g1" using assms(2) by (simp add: stop_triggers_def)
  have "ensure_cron ?g1 = (?g1, None)"
    using assms(4) by (cases "find_by_name (gw_plugins g) ''cron''") (auto simp: ensure_cron_def ensure_service_def)
  moreover obtain r where r: "gateway_slashes env cfg ?g1 = Inr r" using host_gateway_slashes [of ?g1 pe env cfg] assms(1) by auto
  ultimately have p: "apply_prepare env cfg g = Some (?g1, Inr (rt, r))"
    using assms(5,7,8) l st by (auto simp: apply_prepare_def)
  let ?nx = "map (\<lambda>n. (n, pe_handle pe n cfg)) (filter (channel_made pe cfg) channel_names)"
  have sa: "start_all (ae_channel_ok env) ?nx = (map (\<lambda>p. ChannelStarted (snd p)) ?nx, None)"
    using assms(10) by (simp add: start_all_def)
  have cl1: "b_closed (set_outbound_subscriber n v b) = b_closed b" for n v and b :: "nat bus"
    by (cases v) (simp_all add: set_outbound_subscriber_def Let_def)
  have cl: "b_closed (foldl (\<lambda>b p. set_outbound_subscriber (fst p) (v p) b) b xs) = b_closed b" for v xs and b :: "nat bus"
    by (induction xs arbitrary: b) (simp_all add: cl1)
  obtain m b tr e where a: "manager_apply (Some (validate_channels (ae_url env) (c_channels cfg) = []))
      (Some (registry_channels (gw_plugins g) (Some cfg))) (ae_takes_slashes env) (ae_channel_ok env)
      (set_pipeline_slashes (command_definitions (Some r)) (gw_mgr g)) (gw_bus g) = (m, b, tr, e)"
    by (metis prod_cases4)
  then have m: "cm_channels m = ?nx" "b_closed b = b_closed (gw_bus g)" "e = None"
    using assms(1,9) sa by (auto simp: manager_apply_def host_channels_collected Let_def cl)
  obtain lk where lk: "reload_runtime True rt (ac_workspace (c_agent cfg)) (gw_lock g) = Some lk"
      "ls_rt lk = Some rt" "ls_turns lk = []" "ls_rt (gw_lock g) = None \<longrightarrow> ls_old lk = ls_old (gw_lock g)" "ls_closed lk = ls_closed (gw_lock g)"
    using assms(3) by (simp add: reload_runtime_def swap_runtime_def)
  let ?g2 = "?g1\<lparr>gw_mgr := m, gw_bus := b, gw_lock := close_taken lk, gw_slashes := Some r, gw_slash_cron := slash_service (gw_cron g)\<rparr>"
  have "reload_pipeline env cfg rt r ?g1 = Some (?g2, None)"
    using a m(3) lk(1) by (simp add: reload_pipeline_def)
  then have "gateway_apply env cfg g = start_triggers env (wire_post_action_hooks (?g2\<lparr>gw_cfg := cfg\<rparr>))"
    using p by (simp add: gateway_apply_def)
  then show ?thesis
    using m lk by (intro exI [of _ "wire_post_action_hooks (?g2\<lparr>gw_cfg := cfg\<rparr>)"]) (simp add: wire_post_action_hooks_def close_taken_def)
qed

lemma demo_facts: "\<not> is_err (parse_log_level (c_log_level web_config_on))"
    "validate_channels (ae_url (hb_env ReadMissing)) (c_channels web_config_on) = []"
    "filter (channel_made demo_plugins web_config_on) channel_names = [''web'']"
proof -
  show "\<not> is_err (parse_log_level (c_log_level web_config_on))" by code_simp
  show "validate_channels (ae_url (hb_env ReadMissing)) (c_channels web_config_on) = []" by code_simp
  show "filter (channel_made demo_plugins web_config_on) channel_names = [''web'']"
    by (simp add: channel_names_def channel_made_def web_config_on_def default_config_def host_matrix_channels_def
        matrix_channels_def demo_plugins_def)
qed

text \<open>The environment of the demonstration; \<open>ok\<close> tells whether the triggers other than cron start.\<close>

definition demo_env :: "bool \<Rightarrow> gateway_env" where
  "demo_env ok = (hb_env ReadMissing)\<lparr>ae_trigger_ok := (\<lambda>_. ok)\<rparr>"

lemma demo_env_fields [simp]: "ae_agents (demo_env ok) = ReadMissing" "ae_soul (demo_env ok) = ReadMissing" "ae_memory (demo_env ok) = []"
    "ae_runtime (demo_env ok) = Some 2" "ae_url (demo_env ok) = ae_url (hb_env ReadMissing)" "ae_channel_ok (demo_env ok) h"
    "ae_gronx (demo_env ok) = plain_gronx" "ae_now (demo_env ok) = 7" "ae_io (demo_env ok) = AtomicOk" "ae_trigger_ok (demo_env ok) h = ok"
  by (simp_all add: demo_env_def hb_env_def)

lemma demo_triggers: "registry_triggers (Some (host_plugins demo_plugins)) (Some web_config_on) = [CronTrigger, OtherTrigger 9]"
  by (simp add: registry_triggers_def collect_def host_plugins_def channel_plugin_def plain_plugin_def cron_host_plugin_def
        heartbeat_plugin_def consolidate_plugin_def acp_plugin_def skills_plugin_def voice_plugin_def memory_host_plugin_def
        demo_plugins_def web_config_on_def default_config_def)

definition demo_cron :: cron_plugin where
  "demo_cron = fst (ensure_service True (new_cron_plugin (gc_max_runs (c_gateway web_config_on)) CronAbsent))"

text \<open>The scheduler starts, and stops again.\<close>

lemma demo_loop: "\<exists>cp cp'. start_loop plain_gronx 7 AtomicOk True demo_cron = Some (cp, None) \<and> stop_loop cp = Some cp'"
proof -
  have "(case start_loop plain_gronx 7 AtomicOk True demo_cron of
      Some (cp, None) \<Rightarrow> (case stop_loop cp of None \<Rightarrow> False | Some _ \<Rightarrow> True) | _ \<Rightarrow> False)" by code_simp
  then show ?thesis by (auto split: option.splits prod.splits)
qed

lemma demo_apply: "\<exists>g e. gateway_apply (demo_env ok) web_config_on demo_gateway = Some (g, e) \<and> (e = None \<longleftrightarrow> ok)
    \<and> gw_cfg g = web_config_on \<and> cm_channels (gw_mgr g) = [(''web'', 3)] \<and> \<not> b_closed (gw_bus g) \<and> ls_rt (gw_lock g) = Some 2
    \<and> ls_closed (gw_lock g) = [] \<and> ls_turns (gw_lock g) = [] \<and> stop_triggers g \<noteq> None"
proof -
  note f = new_gateway_fields [OF demo_made]
  have pl: "gw_plugins demo_gateway = Some (host_plugins demo_plugins)" using new_gateway_inv [OF demo_made] by (simp add: gateway_inv_def)
  have cr: "gw_cron demo_gateway = demo_cron" using f by (simp add: demo_cron_def bare_disk_def)
  have svc: "cp_svc demo_cron \<noteq> None"
    by (simp add: demo_cron_def ensure_service_def new_cron_plugin_def new_service_def add_service_def)
  have hnd: "pe_handle demo_plugins n c = length n" for n c by (simp add: demo_plugins_def)
  obtain g3 where g3: "gateway_apply (demo_env ok) web_config_on demo_gateway = start_triggers (demo_env ok) g3"
    and f3: "gw_plugins g3 = Some (host_plugins demo_plugins)" "gw_cfg g3 = web_config_on" "gw_cron g3 = demo_cron" "gw_triggers g3 = []"
      "ls_rt (gw_lock g3) = Some 2" "ls_turns (gw_lock g3) = []" "ls_closed (gw_lock g3) = []" "\<not> b_closed (gw_bus g3)"
      "cm_channels (gw_mgr g3) = [(''web'', 3)]"
    using apply_fresh [of demo_gateway demo_plugins web_config_on "demo_env ok" 2] f pl cr svc demo_facts
    by (auto simp: new_lock_def validate_reload_def build_sys_prompt_def build_template_def template_part_def new_bus_def hnd)
  obtain cp cp' where cp: "start_loop plain_gronx 7 AtomicOk True demo_cron = Some (cp, None)" "stop_loop cp = Some cp'"
    using demo_loop by blast
  have st: "stop_triggers g3 = Some (g3\<lparr>gw_triggers := []\<rparr>)" using f3(4) by (simp add: stop_triggers_def)
  have "start_triggers (demo_env ok) g3 = Some (if ok then (g3\<lparr>gw_cron := cp, gw_triggers := [CronTrigger, OtherTrigger 9]\<rparr>, None)
      else (g3\<lparr>gw_cron := cp', gw_triggers := []\<rparr>, Some (TriggerErr (OtherTrigger 9))))"
    using f3(1-4) cp st demo_triggers by (simp add: start_triggers_def start_trigger_def)
  moreover have "stop_triggers (g3\<lparr>gw_cron := cp, gw_triggers := [CronTrigger, OtherTrigger 9]\<rparr>) \<noteq> None"
      "stop_triggers (g3\<lparr>gw_cron := cp', gw_triggers := []\<rparr>) \<noteq> None"
    using cp(2) by (simp_all add: stop_triggers_def)
  ultimately show ?thesis using g3 f3(2,5-9) by (cases ok) simp_all
qed

lemma demo_starts: "registry_start (\<lambda>_. True) (gw_plugins demo_gateway) = (map pl_name (host_plugins demo_plugins), None)"
  using new_gateway_inv [OF demo_made] by (simp add: gateway_inv_def registry_start_def host_plugins_def)

lemma demo_step:
  assumes "gateway_apply (demo_env ok) web_config_on demo_gateway = Some (g, e)"
  shows "host_steps (\<lambda>_. True) (new_host demo_gateway)
    \<lparr>hs_phase = (case e of None \<Rightarrow> Running (gc_hot_reload (c_gateway (gw_cfg g))) | Some x \<Rightarrow> Returned (Some (InitialApplyErr x))), hs_gw = g\<rparr>"
  using assms comes_up [of "new_host demo_gateway" "\<lambda>_. True"] apply_fails [of "new_host demo_gateway" "\<lambda>_. True"] demo_starts
    new_gateway_fields [OF demo_made] host_refl
  by (cases e) (auto intro!: host_then [OF host_refl] simp: new_host_def)

theorem reload_brings_channels_witness:
  "\<exists>g. gateway_apply (demo_env True) web_config_on demo_gateway = Some (g, None) \<and> bus_subscriber (gw_bus g) ''web'' = Some 3
    \<and> bus_subscriber (gw_bus g) ''matrix'' = None"
proof -
  obtain g where g: "gateway_apply (demo_env True) web_config_on demo_gateway = Some (g, None)" using demo_apply [of True] by auto
  have h: "hs_gw (new_host demo_gateway) = demo_gateway" by (simp add: new_host_def)
  have p: "pe_handle demo_plugins n c = length n" for n c by (simp add: demo_plugins_def)
  have n: "k \<in> set channel_names \<and> channel_made demo_plugins web_config_on k \<longleftrightarrow> k = ''web''" for k
    using arg_cong [OF demo_facts(3), of "\<lambda>xs. k \<in> set xs"] by (simp only: set_filter) simp
  have g2: "gateway_apply (demo_env True) web_config_on (hs_gw (new_host demo_gateway)) = Some (g, None)" using g h by simp
  from reload_brings_channels [OF demo_made host_refl g2] g n p show ?thesis by simp
qed


text \<open>When the first \<open>Apply\<close> fails, \<open>Run\<close> returns without \<open>Shutdown\<close>: here a trigger does not start, and the channel that
  was started before it stays up, with the bus open and the runtime never closed.\<close>

lemma failed_start_leaves_channels:
  "\<exists>h. host_steps (\<lambda>_. True) (new_host demo_gateway) h \<and> (\<exists>e. hs_phase h = Returned (Some (InitialApplyErr e)))
    \<and> cm_channels (gw_mgr (hs_gw h)) = [(''web'', 3)] \<and> \<not> b_closed (gw_bus (hs_gw h)) \<and> ls_rt (gw_lock (hs_gw h)) = Some 2
    \<and> ls_closed (gw_lock (hs_gw h)) = []"
proof -
  obtain g e where g: "gateway_apply (demo_env False) web_config_on demo_gateway = Some (g, Some e)"
    "cm_channels (gw_mgr g) = [(''web'', 3)]" "\<not> b_closed (gw_bus g)" "ls_rt (gw_lock g) = Some 2" "ls_closed (gw_lock g) = []"
    using demo_apply [of False] by auto
  show ?thesis using demo_step [OF g(1)] g(2-) by (intro exI conjI) auto
qed

subsection \<open>What a reload of the channels forgets\<close>

text \<open>A reload makes the WeCom channel anew, before it waits for the running turns: whatever reply such a turn then has, the new
  channel knows no address to send it to; and a message that WeCom sends again is taken for a new one.\<close>

lemma reload_forgets_replies:
  "snd (wecom_send env now answers alive msg (new_wecom_channel cfg)) = ChatIdRequired
   \<or> snd (wecom_send env now answers alive msg (new_wecom_channel cfg)) = ResponseUrlUnknown"
  by (auto simp: wecom_send_def new_wecom_channel_def new_reply_cache_def reply_get_def Let_def split: prod.splits option.splits)

lemma reload_forgets_messages:
  "snd (message_seen now m (wn_msgs (new_wecom_channel cfg))) = False"
  by (auto simp: message_seen_def new_wecom_channel_def new_msg_cache_def seen_def Let_def split: prod.splits option.splits)

end
