(* ===== verification/AudioProcess.thy ===== *)
theory AudioProcess
  imports Web
begin

text \<open>
  \<open>internal/modality/audio/exec.go\<close>: the processes that record and play raw audio, as step relations of the process, the
  goroutine that reads or writes its pipe, and the channel.
\<close>

subsection \<open>Capture\<close>

datatype audio_error = CommandEmpty | PipeErr | StartErr

text \<open>\<open>Capture\<close> up to the goroutine; a nil receiver has no command.\<close>

definition capture_start :: "string option \<Rightarrow> bool \<Rightarrow> bool \<Rightarrow> audio_error option" where
  "capture_start cmd pipe start =
     (case cmd of
        None \<Rightarrow> Some CommandEmpty
      | Some c \<Rightarrow> if c = [] then Some CommandEmpty else if \<not> pipe then Some PipeErr else if \<not> start then Some StartErr else None)"

text \<open>The bytes in the pipe, the piece that was read and waits for the channel, the channel, and what its reader has
  received; \<open>ec_written\<close> is all the process has written.\<close>

record capture =
  ec_written :: string
  ec_pipe :: string
  ec_open :: bool
  ec_piece :: "string option"
  ec_out :: "string list"
  ec_got :: "string list"
  ec_ended :: bool
  ec_ctx :: bool
  ec_failed :: bool

definition new_capture :: capture where
  "new_capture = \<lparr>ec_written = [], ec_pipe = [], ec_open = True, ec_piece = None, ec_out = [], ec_got = [], ec_ended = False,
     ec_ctx = False, ec_failed = False\<rparr>"

inductive capture_step :: "capture \<Rightarrow> capture \<Rightarrow> bool" where
  process_writes: "ec_open s \<Longrightarrow> capture_step s (s\<lparr>ec_written := ec_written s @ d, ec_pipe := ec_pipe s @ d\<rparr>)"
| process_exits: "capture_step s (s\<lparr>ec_open := False\<rparr>)"
| ctx_over: "capture_step s (s\<lparr>ec_ctx := True\<rparr>)"
| pipe_read: "\<not> ec_ended s \<Longrightarrow> ec_piece s = None \<Longrightarrow> 0 < n \<Longrightarrow> n \<le> 4096 \<Longrightarrow> n \<le> length (ec_pipe s)
    \<Longrightarrow> capture_step s (s\<lparr>ec_piece := Some (take n (ec_pipe s)), ec_pipe := drop n (ec_pipe s)\<rparr>)"
| pipe_eof: "\<not> ec_ended s \<Longrightarrow> ec_piece s = None \<Longrightarrow> ec_pipe s = [] \<Longrightarrow> \<not> ec_open s \<Longrightarrow> capture_step s (s\<lparr>ec_ended := True\<rparr>)"
| pipe_fails: "\<not> ec_ended s \<Longrightarrow> ec_piece s = None \<Longrightarrow> capture_step s (s\<lparr>ec_ended := True, ec_failed := True\<rparr>)"
| piece_sent: "\<not> ec_ended s \<Longrightarrow> ec_piece s = Some p \<Longrightarrow> length (ec_out s) < 32
    \<Longrightarrow> capture_step s (s\<lparr>ec_piece := None, ec_out := ec_out s @ [p]\<rparr>)"
| piece_dropped: "\<not> ec_ended s \<Longrightarrow> ec_piece s = Some p \<Longrightarrow> ec_ctx s \<Longrightarrow> capture_step s (s\<lparr>ec_ended := True, ec_open := False\<rparr>)"
| piece_taken: "ec_out s = p # ps \<Longrightarrow> capture_step s (s\<lparr>ec_out := ps, ec_got := ec_got s @ [p]\<rparr>)"

inductive_cases capture_step_elim: "capture_step s t"

text \<open>\<open>terminateProcess\<close>: the signals of a process that ends \<open>after\<close> so many milliseconds, if it does.\<close>

datatype process_signal = SigTerm | SigKill

definition terminate_process :: "bool \<Rightarrow> nat option \<Rightarrow> process_signal list" where
  "terminate_process isNil after =
     (if isNil then []
      else SigTerm # (case after of Some ms \<Rightarrow> if ms < 300 then [] else [SigKill] | None \<Rightarrow> [SigKill]))"

definition capture_inv :: "capture \<Rightarrow> bool" where
  "capture_inv s \<longleftrightarrow>
     concat (ec_got s @ ec_out s) @ (case ec_piece s of None \<Rightarrow> [] | Some p \<Rightarrow> p) @ ec_pipe s = ec_written s
     \<and> list_all (\<lambda>p. p \<noteq> [] \<and> length p \<le> 4096) (ec_got s @ ec_out s)
     \<and> (\<forall>p. ec_piece s = Some p \<longrightarrow> p \<noteq> [] \<and> length p \<le> 4096)
     \<and> length (ec_out s) \<le> 32
     \<and> (ec_ended s \<and> \<not> ec_ctx s \<and> \<not> ec_failed s \<longrightarrow> ec_piece s = None \<and> ec_pipe s = [] \<and> \<not> ec_open s)"

lemma capture_step_inv: "capture_step s t \<Longrightarrow> capture_inv s \<Longrightarrow> capture_inv t"
proof (induction rule: capture_step.induct)
  case (pipe_read s n)
  moreover have "ec_pipe s \<noteq> []" using pipe_read.hyps by auto
  ultimately show ?case by (auto simp: capture_inv_def)
qed (auto simp: capture_inv_def split: option.splits)

text \<open>The recorder loses nothing: what its consumer has received and what waits in the channel are, in order, the
  beginning of what the process wrote - all of it once the channel is closed, unless the context ended or the pipe could
  not be read -, in pieces of 1 to 4096 bytes of which at most 32 wait.\<close>

theorem capture_loses_nothing:
  assumes "capture_step\<^sup>*\<^sup>* new_capture s"
  shows "prefix (concat (ec_got s @ ec_out s)) (ec_written s)
    \<and> (ec_ended s \<and> \<not> ec_ctx s \<and> \<not> ec_failed s \<longrightarrow> concat (ec_got s @ ec_out s) = ec_written s)
    \<and> list_all (\<lambda>p. p \<noteq> [] \<and> length p \<le> 4096) (ec_got s @ ec_out s) \<and> length (ec_out s) \<le> 32"
proof -
  have "capture_inv s"
    using assms by (induction rule: rtranclp_induct) (auto simp: new_capture_def capture_inv_def dest: capture_step_inv)
  then have "concat (ec_got s @ ec_out s) @ (case ec_piece s of None \<Rightarrow> [] | Some p \<Rightarrow> p) @ ec_pipe s = ec_written s"
    and r: "list_all (\<lambda>p. p \<noteq> [] \<and> length p \<le> 4096) (ec_got s @ ec_out s)" "length (ec_out s) \<le> 32"
      "ec_ended s \<and> \<not> ec_ctx s \<and> \<not> ec_failed s \<longrightarrow> ec_piece s = None \<and> ec_pipe s = []"
    by (auto simp: capture_inv_def)
  then show ?thesis unfolding prefix_def by (metis append_Nil2 option.case(1))
qed

theorem capture_loses_nothing_witness:
  "\<exists>s. capture_step\<^sup>*\<^sup>* new_capture s \<and> ec_ended s \<and> ec_got s = [''ab'', ''c''] \<and> concat (ec_got s @ ec_out s) = ec_written s"
proof -
  let ?s1 = "new_capture\<lparr>ec_written := ''abc'', ec_pipe := ''abc''\<rparr>"
  let ?s2 = "?s1\<lparr>ec_open := False\<rparr>"
  let ?s3 = "?s2\<lparr>ec_piece := Some ''ab'', ec_pipe := ''c''\<rparr>"
  let ?s4 = "?s3\<lparr>ec_piece := None, ec_out := [''ab'']\<rparr>"
  let ?s5 = "?s4\<lparr>ec_out := [], ec_got := [''ab'']\<rparr>"
  let ?s6 = "?s5\<lparr>ec_piece := Some ''c'', ec_pipe := []\<rparr>"
  let ?s7 = "?s6\<lparr>ec_piece := None, ec_out := [''c'']\<rparr>"
  let ?s8 = "?s7\<lparr>ec_out := [], ec_got := [''ab'', ''c'']\<rparr>"
  let ?s9 = "?s8\<lparr>ec_ended := True\<rparr>"
  have "capture_step new_capture ?s1" using process_writes [of new_capture "''abc''"] by (simp add: new_capture_def)
  moreover have "capture_step ?s1 ?s2" by (rule process_exits)
  moreover have "capture_step ?s2 ?s3" using pipe_read [of ?s2 2] by (simp add: new_capture_def numeral_2_eq_2)
  moreover have "capture_step ?s3 ?s4" using piece_sent [of ?s3 "''ab''"] by (simp add: new_capture_def)
  moreover have "capture_step ?s4 ?s5" using piece_taken [of ?s4 "''ab''" "[]"] by (simp add: new_capture_def)
  moreover have "capture_step ?s5 ?s6" using pipe_read [of ?s5 1] by (simp add: new_capture_def)
  moreover have "capture_step ?s6 ?s7" using piece_sent [of ?s6 "''c''"] by (simp add: new_capture_def)
  moreover have "capture_step ?s7 ?s8" using piece_taken [of ?s7 "''c''" "[]"] by (simp add: new_capture_def)
  moreover have "capture_step ?s8 ?s9" using pipe_eof [of ?s8] by (simp add: new_capture_def)
  ultimately have r: "capture_step\<^sup>*\<^sup>* new_capture ?s9" by (meson rtranclp.rtrancl_into_rtrancl rtranclp.rtrancl_refl)
  from capture_loses_nothing [OF r] have "concat (ec_got ?s9 @ ec_out ?s9) = ec_written ?s9" by (simp add: new_capture_def)
  then show ?thesis using r by (intro exI [of _ ?s9] conjI) simp_all
qed

subsection \<open>Playback\<close>

datatype pipe_writer = PipeWriting | PipeClosed | PipeBroken

text \<open>The chunks that have been sent for playing and those still in the channel, the bytes in the input of the player,
  and the status the player has ended with.\<close>

record playback =
  py_sent :: "string list"
  py_queue :: "string list"
  py_closed :: bool
  py_ctx :: bool
  py_stdin :: string
  py_writer :: pipe_writer
  py_exit :: "bool option"

definition new_playback :: playback where
  "new_playback = \<lparr>py_sent = [], py_queue = [], py_closed = False, py_ctx = False, py_stdin = [], py_writer = PipeWriting, py_exit = None\<rparr>"

inductive play_step :: "playback \<Rightarrow> playback \<Rightarrow> bool" where
  chunk_comes: "\<not> py_closed s \<Longrightarrow> play_step s (s\<lparr>py_sent := py_sent s @ [c], py_queue := py_queue s @ [c]\<rparr>)"
| chunks_end: "play_step s (s\<lparr>py_closed := True\<rparr>)"
| play_cancelled: "play_step s (s\<lparr>py_ctx := True\<rparr>)"
| player_exits: "py_exit s = None \<Longrightarrow> play_step s (s\<lparr>py_exit := Some ok\<rparr>)"
| chunk_written: "py_writer s = PipeWriting \<Longrightarrow> py_queue s = c # cs \<Longrightarrow> play_step s (s\<lparr>py_queue := cs, py_stdin := py_stdin s @ c\<rparr>)"
| chunk_refused: "py_writer s = PipeWriting \<Longrightarrow> py_queue s = c # cs \<Longrightarrow> c \<noteq> [] \<Longrightarrow> n < length c
    \<Longrightarrow> play_step s (s\<lparr>py_queue := cs, py_stdin := py_stdin s @ take n c, py_writer := PipeBroken\<rparr>)"
| input_closed: "py_writer s = PipeWriting \<Longrightarrow> py_queue s = [] \<Longrightarrow> py_closed s \<Longrightarrow> play_step s (s\<lparr>py_writer := PipeClosed\<rparr>)"
| input_cancelled: "py_writer s = PipeWriting \<Longrightarrow> py_ctx s \<Longrightarrow> play_step s (s\<lparr>py_writer := PipeClosed\<rparr>)"

inductive_cases play_step_elim: "play_step s t"

datatype play_result = PlayOk | PlayWriteErr | PlayCtxErr | PlayExitErr

text \<open>The end of \<open>Play\<close>, when the writer is done and the process has been waited for.\<close>

definition play_result_of :: "playback \<Rightarrow> play_result option" where
  "play_result_of s =
     (case (py_writer s, py_exit s) of
        (PipeWriting, _) \<Rightarrow> None
      | (_, None) \<Rightarrow> None
      | (PipeBroken, Some _) \<Rightarrow> Some PlayWriteErr
      | (PipeClosed, Some ok) \<Rightarrow> Some (if py_ctx s then PlayCtxErr else if ok then PlayOk else PlayExitErr))"

definition play_inv :: "playback \<Rightarrow> bool" where
  "play_inv s \<longleftrightarrow>
     (py_writer s \<noteq> PipeBroken \<longrightarrow> py_stdin s @ concat (py_queue s) = concat (py_sent s))
     \<and> prefix (py_stdin s) (concat (py_sent s))
     \<and> (py_writer s = PipeClosed \<and> \<not> py_ctx s \<longrightarrow> py_queue s = [] \<and> py_closed s)"

lemma play_step_inv: "play_step s t \<Longrightarrow> play_inv s \<Longrightarrow> play_inv t"
proof (induction rule: play_step.induct)
  case (chunk_refused s c cs n)
  then have e: "py_stdin s @ c @ concat cs = concat (py_sent s)" by (simp add: play_inv_def)
  then have "concat (py_sent s) = (py_stdin s @ take n c) @ (drop n c @ concat cs)"
    using append_take_drop_id [of n c] by (metis append_assoc)
  then have "prefix (py_stdin s @ take n c) (concat (py_sent s))" by (metis prefixI)
  then show ?case by (simp add: play_inv_def)
next
  case (chunk_written s c cs)
  then have e: "concat (py_sent s) = (py_stdin s @ c) @ concat cs" by (simp add: play_inv_def)
  show ?case using chunk_written unfolding play_inv_def by (simp add: e)
qed (auto simp: play_inv_def append_assoc [symmetric] prefix_append simp del: append_assoc)

text \<open>If \<open>Play\<close> reports no error, the player was given every byte of the reply, in order, before its input was closed;
  whatever it reports, the player was given a beginning of the reply and nothing else.\<close>

theorem play_ok_complete:
  assumes "play_step\<^sup>*\<^sup>* new_playback s"
  shows "prefix (py_stdin s) (concat (py_sent s))
    \<and> (play_result_of s = Some PlayOk \<longrightarrow> py_stdin s = concat (py_sent s) \<and> py_closed s)"
proof -
  have i: "play_inv s"
    using assms by (induction rule: rtranclp_induct) (auto simp: new_playback_def play_inv_def dest: play_step_inv)
  have "py_writer s = PipeClosed \<and> \<not> py_ctx s" if "play_result_of s = Some PlayOk"
    using that by (auto simp: play_result_of_def split: pipe_writer.splits option.splits if_splits)
  with i show ?thesis by (auto simp: play_inv_def)
qed

theorem play_ok_complete_witness:
  "\<exists>s. play_step\<^sup>*\<^sup>* new_playback s \<and> play_result_of s = Some PlayOk \<and> py_stdin s = ''ab''"
proof -
  let ?s1 = "new_playback\<lparr>py_sent := [''ab''], py_queue := [''ab'']\<rparr>"
  let ?s2 = "?s1\<lparr>py_closed := True\<rparr>"
  let ?s3 = "?s2\<lparr>py_queue := [], py_stdin := ''ab''\<rparr>"
  let ?s4 = "?s3\<lparr>py_writer := PipeClosed\<rparr>"
  let ?s5 = "?s4\<lparr>py_exit := Some True\<rparr>"
  have "play_step new_playback ?s1" using chunk_comes [of new_playback "''ab''"] by (simp add: new_playback_def)
  moreover have "play_step ?s1 ?s2" by (rule chunks_end)
  moreover have "play_step ?s2 ?s3" using chunk_written [of ?s2 "''ab''" "[]"] by (simp add: new_playback_def)
  moreover have "play_step ?s3 ?s4" using input_closed [of ?s3] by (simp add: new_playback_def)
  moreover have "play_step ?s4 ?s5" using player_exits [of ?s4 True] by (simp add: new_playback_def)
  ultimately have r: "play_step\<^sup>*\<^sup>* new_playback ?s5" by (meson rtranclp.rtrancl_into_rtrancl rtranclp.rtrancl_refl)
  have "play_result_of ?s5 = Some PlayOk" by (simp add: play_result_of_def new_playback_def)
  with play_ok_complete [OF r] have "py_stdin ?s5 = concat (py_sent ?s5)" by blast
  then show ?thesis using r \<open>play_result_of ?s5 = Some PlayOk\<close> by (intro exI [of _ ?s5] conjI) (simp_all add: new_playback_def)
qed

text \<open>A player that dies: the writer has returned, so nobody reads the audio any more, and the reply of more than sixteen
  pieces keeps the wait of the sink for the synthesis from ending, while the context lives.\<close>

lemma dead_player_blocks_reply:
  assumes "play_step\<^sup>*\<^sup>* s t" and "py_writer s = PipeBroken"
    and "(unread_synth False)\<^sup>*\<^sup>* (buffered, left, False) u" and "16 < buffered + left" and "buffered \<le> 16"
  shows "py_stdin t = py_stdin s \<and> prefix (py_queue s) (py_queue t) \<and> \<not> snd (snd u)"
proof -
  have "py_writer t = PipeBroken \<and> py_stdin t = py_stdin s \<and> prefix (py_queue s) (py_queue t)"
    using assms(1)
  proof (induction rule: rtranclp_induct)
    case (step y z)
    then show ?case by (auto elim!: play_step_elim)
  qed (simp add: assms(2))
  then show ?thesis using slow_client_blocks_render [OF assms(3-5)] by simp
qed

end
