(* ===== verification/AgentCommand.thy ===== *)
theory AgentCommand
  imports Host Cli AudioRoute Terminal TaskTool
begin

text \<open>
  \<open>cmd/maven/main.go\<close>, the commands \<open>agent\<close> and \<open>gateway\<close>, and \<open>internal/kernel/agent/sdk_runtime.go\<close>: how the agent runtime is
  made, one message or a conversation, and what is released on every way out. The agent library (\<open>api.New\<close>, \<open>Run\<close>), standard
  output and the conversation itself are arguments.
\<close>

subsection \<open>The runtime\<close>

text \<open>The key, the address, the model and the limit of tokens.\<close>

datatype model_provider =
    OpenAIProvider string string string int
  | AnthropicProvider string string string int

definition provider_for_model :: "config \<Rightarrow> string \<Rightarrow> model_provider" where
  "provider_for_model cfg override =
     (let name = (if trim_space override = [] then ac_model (c_agent cfg) else override); p = c_provider cfg;
          mk = (if pc_type p = ''openai'' then OpenAIProvider else AnthropicProvider) in
      mk (pc_api_key p) (pc_base_url p) name (ac_max_tokens (c_agent cfg)))"

definition new_provider :: "config \<Rightarrow> model_provider" where "new_provider cfg = provider_for_model cfg []"

record sdk_options =
  so_root :: string
  so_model :: model_provider
  so_prompt :: string
  so_iterations :: int
  so_mcp :: "string list"
  so_compact :: auto_compact_config
  so_skills :: "skill_reg list"
  so_tools :: "string list"
  so_store :: bool

text \<open>\<open>RuntimeHolder\<close>: nil, or the runtime that was set.\<close>

type_synonym holder = "nat option option"

definition holder_set :: "nat \<Rightarrow> holder \<Rightarrow> holder" where
  "holder_set rt h = (case h of None \<Rightarrow> None | Some _ \<Rightarrow> Some (Some rt))"

definition holder_get :: "holder \<Rightarrow> nat option" where "holder_get h = (case h of None \<Rightarrow> None | Some rt \<Rightarrow> rt)"

definition task_tools :: "config \<Rightarrow> holder \<Rightarrow> string list" where
  "task_tools cfg h = (if \<not> tc_task_enabled (c_tools cfg) \<or> h = None then [] else [''Task''])"

definition sdk_options_of :: "config \<Rightarrow> string \<Rightarrow> skill_reg list \<Rightarrow> string list \<Rightarrow> bool \<Rightarrow> holder \<Rightarrow> sdk_options" where
  "sdk_options_of cfg sysPrompt skillRegs pluginTools store h =
     \<lparr>so_root = ac_workspace (c_agent cfg), so_model = new_provider cfg, so_prompt = sysPrompt,
      so_iterations = ac_max_tool_iterations (c_agent cfg), so_mcp = c_mcp_servers cfg, so_compact = c_auto_compact cfg,
      so_skills = skillRegs, so_tools = pluginTools @ task_tools cfg h, so_store = store\<rparr>"

text \<open>\<open>NewSDKRuntime\<close>: the runtime, and the holder of its Task tool. \<open>create\<close> is \<open>api.New\<close>.\<close>

definition new_sdk_runtime ::
  "(sdk_options \<Rightarrow> nat option) \<Rightarrow> config \<Rightarrow> string \<Rightarrow> skill_reg list \<Rightarrow> string list \<Rightarrow> bool \<Rightarrow> (nat \<times> holder) option" where
  "new_sdk_runtime create cfg sysPrompt skillRegs pluginTools store =
     (let h = Some None in
      map_option (\<lambda>rt. (rt, holder_set rt h)) (create (sdk_options_of cfg sysPrompt skillRegs pluginTools store h)))"

datatype agent_error = ApiKeyNotSet | AgentPromptErr | CreateRuntimeErr

definition load_runtime_skills :: "(string \<Rightarrow> skill_meta option) \<Rightarrow> (string \<Rightarrow> skills_dir) \<Rightarrow> config \<Rightarrow> skill_reg list" where
  "load_runtime_skills yaml fs cfg =
     (if \<not> sc_enabled (c_skills cfg) then []
      else let dir = resolve_skills_dir cfg in
        case load_skills yaml dir (fs (trim_space dir)) of Inl _ \<Rightarrow> [] | Inr regs \<Rightarrow> regs)"

definition default_agent_runtime ::
  "(sdk_options \<Rightarrow> nat option) \<Rightarrow> (string \<Rightarrow> skill_meta option) \<Rightarrow> (string \<Rightarrow> skills_dir) \<Rightarrow> read_result \<Rightarrow> read_result \<Rightarrow> mem_dir
    \<Rightarrow> config \<Rightarrow> agent_error + nat \<times> holder" where
  "default_agent_runtime create yaml fs agents soul mem cfg =
     (if pc_api_key (c_provider cfg) = [] then Inl ApiKeyNotSet
      else case build_sys_prompt agents soul (memory_context mem) of
          None \<Rightarrow> Inl AgentPromptErr
        | Some p \<Rightarrow>
            (case new_sdk_runtime create cfg p (load_runtime_skills yaml fs cfg) [] False of
               None \<Rightarrow> Inl CreateRuntimeErr | Some rt \<Rightarrow> Inr rt))"

text \<open>The Task tool of a runtime is never without one: past its other guards it runs on the runtime it belongs to.\<close>

lemma task_tool_ready:
  assumes "new_sdk_runtime create cfg p regs tools store = Some (rt, h)"
  shows "holder_get h = Some rt \<and> (''Task'' \<in> set (task_tools cfg h) \<longleftrightarrow> tc_task_enabled (c_tools cfg))
    \<and> snd (task_execute sprint builtin ok (map_option run (holder_get h)) uuid ctx params) \<noteq> Inl TaskRuntimeNotReady"
  using assms
  by (auto simp: new_sdk_runtime_def holder_set_def holder_get_def task_tools_def task_execute_def Let_def
      split: option.splits run_result.splits)

subsection \<open>The agent command\<close>

text \<open>What a conversation is given: nothing but the terminal, or a voice as well.\<close>

record voice_setup =
  vs_stt :: stt_service
  vs_tts :: tts_service
  vs_capture :: "string \<times> string list"
  vs_playback :: "string \<times> string list"
  vs_wake :: string
  vs_window :: duration

datatype agent_end =
    AgentConfigErr config_error
  | AgentFactoryErr agent_error
  | AgentRunErr string
  | AgentPrintErr
  | AgentRouteErr route_error
  | AgentSttErr speech_error
  | AgentTtsErr speech_error
  | AgentTalked bool
  | AgentAnswered

record agent_env =
  av_loaded :: "config_error + config"
  av_factory :: "config \<Rightarrow> agent_error + nat \<times> holder"
  av_message :: string
  av_voice :: bool
  av_wake :: string
  av_run :: "string \<Rightarrow> string \<Rightarrow> run_result"
  av_print :: bool
  av_android :: bool
  av_runner :: runner
  av_sleep :: "command list \<Rightarrow> bool"
  av_scheme :: "string \<Rightarrow> string option"
  av_converse :: "voice_setup option \<Rightarrow> bool"

text \<open>How the command ends, what it prints, the commands it runs for the audio, the turns it runs outside the conversation,
  the conversation it has, and the runtimes it closes.\<close>

record agent_outcome =
  go_end :: agent_end
  go_out :: string
  go_cmds :: "command list"
  go_runs :: "(string \<times> string) list"
  go_talk :: "voice_setup option option"
  go_closed :: "nat list"

definition agent_fails :: "agent_end \<Rightarrow> agent_outcome" where
  "agent_fails e = \<lparr>go_end = e, go_out = [], go_cmds = [], go_runs = [], go_talk = None, go_closed = []\<rparr>"

definition agent_banner :: string where "agent_banner = ''maven agent (type '' @ [CHR 0x27] @ ''exit'' @ [CHR 0x27] @ '' to quit)'' @ [newline]"

definition single_message :: "agent_env \<Rightarrow> agent_outcome" where
  "single_message env =
     (let o0 = (agent_fails AgentAnswered)\<lparr>go_runs := [(av_message env, ''cli'')]\<rparr> in
      case av_run env (av_message env) ''cli'' of
        RunFailed e \<Rightarrow> o0\<lparr>go_end := AgentRunErr e\<rparr>
      | RunNoResult \<Rightarrow> o0
      | RunOutput t \<Rightarrow> (if av_print env then o0\<lparr>go_out := t @ [newline]\<rparr> else o0\<lparr>go_end := AgentPrintErr\<rparr>))"

definition set_up_voice :: "agent_env \<Rightarrow> config \<Rightarrow> route \<Rightarrow> agent_end + voice_setup" where
  "set_up_voice env cfg r =
     (case new_stt (Some (cli_stt (av_scheme env))) (Some cfg) of
        Inl e \<Rightarrow> Inl (AgentSttErr e)
      | Inr stt \<Rightarrow>
          (case new_tts (Some (cli_tts (av_scheme env))) (Some cfg) of
             Inl e \<Rightarrow> Inl (AgentTtsErr e)
           | Inr tts \<Rightarrow>
               Inr \<lparr>vs_stt = stt, vs_tts = tts, vs_capture = capture_of r, vs_playback = playback_of r,
                 vs_wake = (if av_wake env = [] then sp_wake_phrase (c_speech cfg) else av_wake env),
                 vs_window = wake_window (c_speech cfg)\<rparr>))"

text \<open>The conversation, on the route if there is a voice.\<close>

definition talk :: "agent_env \<Rightarrow> config \<Rightarrow> route option \<Rightarrow> agent_outcome" where
  "talk env cfg r =
     (if \<not> av_print env then agent_fails AgentPrintErr
      else let o0 = (agent_fails AgentAnswered)\<lparr>go_out := agent_banner @ [newline] @ user_label\<rparr> in
        case (case r of None \<Rightarrow> Inr None | Some r \<Rightarrow> (case set_up_voice env cfg r of Inl e \<Rightarrow> Inl e | Inr v \<Rightarrow> Inr (Some v))) of
          Inl e \<Rightarrow> o0\<lparr>go_end := e\<rparr>
        | Inr v \<Rightarrow> o0\<lparr>go_end := AgentTalked (av_converse env v), go_talk := Some v\<rparr>)"

text \<open>The deferred \<open>Teardown\<close> comes only once \<open>Ensure\<close> has succeeded; the deferred \<open>Close\<close> of the runtime in any case.\<close>

definition repl_mode :: "agent_env \<Rightarrow> config \<Rightarrow> agent_outcome" where
  "repl_mode env cfg =
     (if \<not> av_voice env then talk env cfg None
      else case ensure_route (av_android env) (av_runner env) (av_sleep env) [] (new_voice_route (c_speech cfg)) of
          (h, _, Some e) \<Rightarrow> (agent_fails (AgentRouteErr e))\<lparr>go_cmds := h\<rparr>
        | (h, r, None) \<Rightarrow> (talk env cfg (Some r))\<lparr>go_cmds := fst (teardown_route (av_runner env) h r)\<rparr>)"

definition run_agent :: "agent_env \<Rightarrow> agent_outcome" where
  "run_agent env =
     (case av_loaded env of
        Inl e \<Rightarrow> agent_fails (AgentConfigErr e)
      | Inr cfg \<Rightarrow>
          (case av_factory env cfg of
             Inl e \<Rightarrow> agent_fails (AgentFactoryErr e)
           | Inr (rt, _) \<Rightarrow>
               (if av_message env \<noteq> [] then single_message env else repl_mode env cfg)\<lparr>go_closed := [rt]\<rparr>))"

text \<open>Standard input as lines; a line of 64 KiB or more ends it, and the error of the scanner is not looked at.\<close>

definition typed_lines :: "string \<Rightarrow> string list" where "typed_lines stdin = fst (scan_lines 65536 stdin)"

subsection \<open>The gateway command\<close>

datatype gateway_command_error =
    GatewayConfigErr config_error
  | GatewayInvalid "config_error list"
  | GatewayCreateErr host_error

definition run_gateway ::
  "plugin_env \<Rightarrow> (string \<Rightarrow> (string \<times> string) option) \<Rightarrow> log_level \<Rightarrow> host_options \<Rightarrow> host_disk \<Rightarrow> config_error + config
    \<Rightarrow> gateway_command_error + host" where
  "run_gateway pe url level opts d loaded =
     (case loaded of
        Inl e \<Rightarrow> Inl (GatewayConfigErr e)
      | Inr cfg \<Rightarrow>
          (if validate_config url cfg \<noteq> [] then Inl (GatewayInvalid (validate_config url cfg))
           else case new_gateway pe level cfg opts d of Inl e \<Rightarrow> Inl (GatewayCreateErr e) | Inr g \<Rightarrow> Inr (new_host g)))"

subsection \<open>What is released\<close>

text \<open>Whatever happens once the agent command has its runtime - the turn fails, standard output is gone, the audio
  cannot be set up, a speech service is missing, the conversation ends -, the runtime is closed, exactly once; a message
  given on the command line is run once, in the session of the command line, and touches no audio; and an echo module
  that was loaded for the conversation is unloaded by the last command that is run.\<close>

theorem agent_command_cleans_up:
  assumes "av_loaded env = Inr cfg" and "av_factory env cfg = Inr (rt, hold)"
  shows "go_closed (run_agent env) = [rt]
    \<and> (av_message env \<noteq> [] \<longrightarrow> go_runs (run_agent env) = [(av_message env, ''cli'')] \<and> go_cmds (run_agent env) = []
        \<and> go_talk (run_agent env) = None)
    \<and> (av_message env = [] \<longrightarrow> go_runs (run_agent env) = [] \<and> (go_talk (run_agent env) \<noteq> None \<longrightarrow> av_print env)
        \<and> (av_voice env \<longrightarrow>
            (case ensure_route (av_android env) (av_runner env) (av_sleep env) [] (new_voice_route (c_speech cfg)) of
               (cmds, r, Some e) \<Rightarrow> go_end (run_agent env) = AgentRouteErr e \<and> go_cmds (run_agent env) = cmds
                 \<and> go_talk (run_agent env) = None
             | (cmds, EchoRoute s i, None) \<Rightarrow> go_cmds (run_agent env) = (if 0 \<le> i then cmds @ [unload i] else cmds)
             | (cmds, DirectRoute s, None) \<Rightarrow> go_cmds (run_agent env) = cmds)))"
proof -
  have t: "go_runs (talk env cfg r) = [] \<and> (go_talk (talk env cfg r) \<noteq> None \<longrightarrow> av_print env) \<and> go_cmds (talk env cfg r) = []" for r
    by (auto simp: talk_def agent_fails_def Let_def split: sum.splits)
  have s: "go_runs (single_message env) = [(av_message env, ''cli'')] \<and> go_cmds (single_message env) = []
      \<and> go_talk (single_message env) = None"
    by (simp add: single_message_def agent_fails_def Let_def split: run_result.split)
  have run: "run_agent env = (if av_message env \<noteq> [] then single_message env else repl_mode env cfg)\<lparr>go_closed := [rt]\<rparr>"
    using assms by (simp add: run_agent_def)
  obtain cmds r e where en: "ensure_route (av_android env) (av_runner env) (av_sleep env) [] (new_voice_route (c_speech cfg)) = (cmds, r, e)"
    by (metis prod_cases3)
  have m: "go_runs (repl_mode env cfg) = [] \<and> (go_talk (repl_mode env cfg) \<noteq> None \<longrightarrow> av_print env)"
    using t en by (cases e) (auto simp: repl_mode_def agent_fails_def)
  have v: "av_voice env \<Longrightarrow> (case e of
        Some x \<Rightarrow> go_end (repl_mode env cfg) = AgentRouteErr x \<and> go_cmds (repl_mode env cfg) = cmds \<and> go_talk (repl_mode env cfg) = None
      | None \<Rightarrow> go_cmds (repl_mode env cfg) = (case r of EchoRoute s i \<Rightarrow> if 0 \<le> i then cmds @ [unload i] else cmds | DirectRoute s \<Rightarrow> cmds))"
    using en by (cases e; cases r) (auto simp: repl_mode_def agent_fails_def run_cmd_def Let_def)
  show ?thesis
    using s m v by (cases e; cases r) (auto simp: run en)
qed

definition voice_agent :: "string \<Rightarrow> agent_env" where
  "voice_agent msg = \<lparr>av_loaded = Inr (default_config ''/h''), av_factory = (\<lambda>_. Inr (7, Some (Some 7))), av_message = msg, av_voice = True,
     av_wake = [], av_run = (\<lambda>p s. RunOutput p), av_print = True, av_android = False,
     av_runner = (\<lambda>h. if last h = list_sources then ([], True) else (''5'', True)), av_sleep = (\<lambda>_. True), av_scheme = (\<lambda>_. None),
     av_converse = (\<lambda>_. False)\<rparr>"

theorem agent_command_cleans_up_witness:
  "go_closed (run_agent (voice_agent [])) = [7] \<and> go_cmds (run_agent (voice_agent [])) = [list_sources, load_echo ''webrtc'', unload 5]"
proof -
  have l: "av_loaded (voice_agent []) = Inr (default_config ''/h'')" "av_factory (voice_agent []) (default_config ''/h'') = Inr (7, Some (Some 7))"
    by (simp_all add: voice_agent_def)
  have e: "\<not> echo_cancel_disabled (c_speech (default_config ''/h''))" by code_simp
  have p: "parse_module_index ''5'' = Some 5" and n: "\<not> source_present [] aec_source" by (code_simp, code_simp)
  have "load_echo ''webrtc'' \<noteq> list_sources" by (simp add: load_echo_def list_sources_def)
  then have "ensure_route (av_android (voice_agent [])) (av_runner (voice_agent [])) (av_sleep (voice_agent [])) []
      (new_voice_route (c_speech (default_config ''/h''))) = ([list_sources, load_echo ''webrtc''], EchoRoute (c_speech (default_config ''/h'')) 5, None)"
    using e p n by (simp add: voice_agent_def new_voice_route_def run_cmd_def Let_def)
  with agent_command_cleans_up [OF l] show ?thesis by (simp add: voice_agent_def)
qed

text \<open>After a line of 64 KiB nothing that is typed is heard any more, and the conversation ends as if the input had ended.\<close>

lemma long_line_ends_input:
  assumes "line_ok 65536 a" and "newline \<notin> set l" and "65536 \<le> length l"
  shows "typed_lines (a @ newline # l @ newline # rest) = [a]
    \<and> keyboard (typed_lines (a @ newline # l @ newline # rest)) True = keyboard [a] True"
proof -
  have "index_of [newline] (l @ newline # rest) = Some (length l)" using assms(2) by (rule index_of_newline)
  then have "scan_lines 65536 (l @ newline # rest) = ([], True)"
    using assms(3) by (subst scan_lines.simps) auto
  then have "typed_lines (a @ newline # l @ newline # rest) = [a]"
    by (simp add: typed_lines_def scan_lines_cons [OF assms(1)])
  then show ?thesis by simp
qed

text \<open>The gateway command runs with a valid configuration, and in the state that every run keeps.\<close>

lemma gateway_command_valid:
  "run_gateway pe url level opts d loaded = Inr h
     \<Longrightarrow> \<exists>cfg. loaded = Inr cfg \<and> validate_config url cfg = [] \<and> host_inv pe h"
  by (auto simp: run_gateway_def new_host_def host_inv_def split: sum.splits if_splits dest: new_gateway_inv)

end
