(* ===== verification/MessageFlow.thy ===== *)
theory MessageFlow
  imports Pipeline ChannelManager CronRuns
begin

text \<open>
  How the parts interact: channels, bus, pipeline loop (\<open>kernel/pipeline/pipeline.go\<close>, \<open>Run\<close>), the deliveries of scheduled jobs
  (\<open>trigger/cron/deliver.go\<close>) and the reloads that replace the channels, composed as one step relation. A handled message
  has its effects one at a time, so that everything else interleaves with them; a publication may wait for the bus.
\<close>

subsection \<open>The composed system\<close>

text \<open>The bus, the channels, the sessions; the message the loop is at with the effects it still has to have, and the call
  in which it waits. What has been published for scheduled jobs, the replies the loop has published, each with its message,
  and the streams it has handed to channels, with their messages, are remembered.\<close>

record flow =
  fl_bus :: "nat bus"
  fl_mgr :: channel_manager
  fl_posts :: post_state
  fl_work :: "(inbound_message \<times> effect list) option"
  fl_call :: "nat option"
  fl_scheduled :: "outbound_message list"
  fl_replies :: "(inbound_message \<times> outbound_message) list"
  fl_streams :: "(inbound_message \<times> string) list"

definition new_flow :: "int \<Rightarrow> post_state \<Rightarrow> flow" where
  "new_flow n posts = \<lparr>fl_bus = new_bus n, fl_mgr = new_manager, fl_posts = posts, fl_work = None, fl_call = None,
     fl_scheduled = [], fl_replies = [], fl_streams = []\<rparr>"

text \<open>\<open>admits\<close> are the messages the channels let through.\<close>

inductive flow_step :: "(inbound_message \<Rightarrow> bool) \<Rightarrow> flow \<Rightarrow> flow \<Rightarrow> bool" for admits :: "inbound_message \<Rightarrow> bool" where
  hears: "admits im \<Longrightarrow> \<not> pid_used pid (fl_bus s)
    \<Longrightarrow> flow_step admits s (s\<lparr>fl_bus := publish_start pid (InItem im) (fl_bus s)\<rparr>)"
| job_delivers: "after_successful_run True reactive job out = [(c, to, t)] \<Longrightarrow> \<not> pid_used pid (fl_bus s)
    \<Longrightarrow> flow_step admits s (s\<lparr>fl_bus := publish_start pid (OutItem (reply_to c to t None)) (fl_bus s),
          fl_scheduled := fl_scheduled s @ [reply_to c to t None]\<rparr>)"
| call_cancelled: "select_ctx_done pid err (fl_bus s) = Some b \<Longrightarrow> flow_step admits s (s\<lparr>fl_bus := b\<rparr>)"
| call_refused: "select_bus_done pid (fl_bus s) = Some b \<Longrightarrow> flow_step admits s (s\<lparr>fl_bus := b\<rparr>)"
| call_accepted: "select_send pid (fl_bus s) = Some b \<Longrightarrow> flow_step admits s (s\<lparr>fl_bus := b\<rparr>)"
| bus_closes: "flow_step admits s (s\<lparr>fl_bus := close_start (fl_bus s)\<rparr>)"
| bus_closed: "close_finish (fl_bus s) = Some b \<Longrightarrow> flow_step admits s (s\<lparr>fl_bus := b\<rparr>)"
| takes_message: "fl_work s = None \<Longrightarrow> receive_inbound (fl_bus s) = Some (InItem im, b)
    \<Longrightarrow> handle_message env ctx (fl_posts s) im = (ps, effs)
    \<Longrightarrow> flow_step admits s (s\<lparr>fl_bus := b, fl_posts := ps, fl_work := Some (im, effs)\<rparr>)"
| has_effect: "fl_work s = Some (im, e # es) \<Longrightarrow> \<not> is_publish e \<Longrightarrow> \<forall>chat meta evs. e \<noteq> SendStream chat meta evs
    \<Longrightarrow> flow_step admits s (s\<lparr>fl_work := Some (im, es)\<rparr>)"
| hands_stream: "fl_work s = Some (im, SendStream chat meta evs # es)
    \<Longrightarrow> flow_step admits s (s\<lparr>fl_work := Some (im, es),
          fl_streams := fl_streams s @ [(im, chat)]\<rparr>)"
| publishes_reply: "fl_work s = Some (im, Publish m r # es) \<Longrightarrow> fl_call s = None \<Longrightarrow> \<not> pid_used pid (fl_bus s)
    \<Longrightarrow> flow_step admits s (s\<lparr>fl_bus := publish_start pid (OutItem m) (fl_bus s), fl_call := Some pid,
          fl_replies := fl_replies s @ [(im, m)]\<rparr>)"
| reply_published: "fl_work s = Some (im, Publish m r # es) \<Longrightarrow> fl_call s = Some pid \<Longrightarrow> (pid, r) \<in> set (b_results (fl_bus s))
    \<Longrightarrow> flow_step admits s (s\<lparr>fl_work := Some (im, es), fl_call := None\<rparr>)"
| message_over: "fl_work s = Some (im, []) \<Longrightarrow> flow_step admits s (s\<lparr>fl_work := None\<rparr>)"
| dispatches: "dispatch_outbound res (fl_bus s) = Some b \<Longrightarrow> flow_step admits s (s\<lparr>fl_bus := b\<rparr>)"
| reloads_channels: "manager_apply cfg reg ts ok (fl_mgr s) (fl_bus s) = (m, b, tr, e)
    \<Longrightarrow> \<forall>nx. channels_from_registry reg = Inr nx \<longrightarrow> (\<forall>p \<in> set nx. plain_name (fst p))
    \<Longrightarrow> flow_step admits s (s\<lparr>fl_mgr := m, fl_bus := b\<rparr>)"

inductive flow_steps :: "(inbound_message \<Rightarrow> bool) \<Rightarrow> flow \<Rightarrow> flow \<Rightarrow> bool" for admits :: "inbound_message \<Rightarrow> bool" where
  flow_refl: "flow_steps admits s s"
| flow_then: "flow_steps admits a b \<Longrightarrow> flow_step admits b c \<Longrightarrow> flow_steps admits a c"

subsection \<open>Where a message on the bus comes from\<close>

definition heard_of :: "(inbound_message \<Rightarrow> bool) \<Rightarrow> inbound_message \<Rightarrow> bool" where
  "heard_of admits im \<longleftrightarrow> (\<exists>im0. admits im0 \<and> normalize_inbound im0 = Inr im)"

definition from_outside :: "flow \<Rightarrow> outbound_message \<Rightarrow> bool" where
  "from_outside s om \<longleftrightarrow> (\<exists>om0 \<in> set (fl_scheduled s). normalize_outbound om0 = Inr om)"

definition is_reply :: "flow \<Rightarrow> outbound_message \<Rightarrow> bool" where
  "is_reply s om \<longleftrightarrow> (\<exists>p \<in> set (fl_replies s). om_channel om = im_channel (fst p) \<and> om_chat_id om = im_chat_id (fst p)
     \<and> normalize_outbound (snd p) = Inr om)"

definition item_ok :: "(inbound_message \<Rightarrow> bool) \<Rightarrow> flow \<Rightarrow> bus_item \<Rightarrow> bool" where
  "item_ok admits s it = (case it of InItem im \<Rightarrow> heard_of admits im | OutItem om \<Rightarrow> from_outside s om \<or> is_reply s om)"

text \<open>Every item the bus holds or has held.\<close>

definition bus_items :: "nat bus \<Rightarrow> bus_item set" where
  "bus_items b = snd ` set (b_pending b) \<union> set (b_inbound b) \<union> set (b_outbound b) \<union> (\<lambda>d. OutItem (snd d)) ` set (b_delivered b)
     \<union> set (b_received b)"

definition taken :: "nat bus \<Rightarrow> inbound_message list" where
  "taken b = concat (map (\<lambda>it. case it of InItem im \<Rightarrow> [im] | OutItem _ \<Rightarrow> []) (b_received b))"

definition work_ok :: "flow \<Rightarrow> bool" where
  "work_ok s = (case fl_work s of
      None \<Rightarrow> fl_call s = None
    | Some (im, es) \<Rightarrow> im \<in> set (taken (fl_bus s)) \<and> replies_of im (publishes es)
        \<and> (\<forall>chat meta evs. SendStream chat meta evs \<in> set es \<longrightarrow> chat = im_chat_id im)
        \<and> (fl_call s \<noteq> None \<longrightarrow> (\<exists>m r es'. es = Publish m r # es')))"

definition open_replies :: "flow \<Rightarrow> nat" where
  "open_replies s = (case fl_work s of None \<Rightarrow> 0 | Some (_, es) \<Rightarrow> if fl_call s = None then length (publishes es) else 0)"

definition logs_ok :: "flow \<Rightarrow> bool" where
  "logs_ok s \<longleftrightarrow>
     (\<forall>p \<in> set (fl_replies s). fst p \<in> set (taken (fl_bus s)) \<and> om_channel (snd p) = im_channel (fst p)
        \<and> om_chat_id (snd p) = im_chat_id (fst p))
     \<and> (\<forall>p \<in> set (fl_streams s). fst p \<in> set (taken (fl_bus s)) \<and> snd p = im_chat_id (fst p))"

definition items_ok :: "(inbound_message \<Rightarrow> bool) \<Rightarrow> flow \<Rightarrow> bool" where
  "items_ok admits s \<longleftrightarrow> (\<forall>it \<in> bus_items (fl_bus s). item_ok admits s it)"

definition count_ok :: "flow \<Rightarrow> bool" where
  "count_ok s \<longleftrightarrow> length (fl_replies s) + open_replies s \<le> length (taken (fl_bus s))"

definition flow_inv :: "(inbound_message \<Rightarrow> bool) \<Rightarrow> flow \<Rightarrow> bool" where
  "flow_inv admits s \<longleftrightarrow> items_ok admits s \<and> work_ok s \<and> wired (fl_mgr s) (fl_bus s) \<and> logs_ok s \<and> count_ok s"

subsection \<open>What the operations of the bus keep\<close>

lemma start_frame:
  "b_subs (publish_start pid it b) = b_subs b" "b_received (publish_start pid it b) = b_received b"
  "b_inbound (publish_start pid it b) = b_inbound b" "b_outbound (publish_start pid it b) = b_outbound b"
  "b_delivered (publish_start pid it b) = b_delivered b"
  by (simp_all add: publish_start_def bus_ops split: sum.split)

lemma start_items: "x \<in> bus_items (publish_start pid it b) \<Longrightarrow> x \<in> bus_items b \<or> normalize_item it = Inr x"
proof -
  have "snd ` set (b_pending (publish_start pid it b)) \<subseteq> snd ` set (b_pending b) \<union> {x. normalize_item it = Inr x}"
    by (auto simp: publish_start_def bus_ops split: sum.splits if_splits)
  then show "x \<in> bus_items (publish_start pid it b) \<Longrightarrow> ?thesis" by (auto simp: bus_items_def start_frame)
qed

text \<open>An operation that moves items and brings none.\<close>

definition moves_only :: "nat bus \<Rightarrow> nat bus \<Rightarrow> bool" where
  "moves_only b b' \<longleftrightarrow> b_subs b' = b_subs b \<and> bus_items b' \<subseteq> bus_items b \<and> set (taken b) \<subseteq> set (taken b')
     \<and> length (taken b) \<le> length (taken b')"

lemma leave_pending: "snd ` set (filter (\<lambda>p. fst p \<noteq> pid) ps) \<subseteq> snd ` set ps"
  by auto

lemma pending_item: "map_of (b_pending b) pid = Some it \<Longrightarrow> it \<in> bus_items b"
  by (auto simp: bus_items_def dest!: map_of_SomeD intro: rev_image_eqI)

lemma ctx_moves: "select_ctx_done pid err b = Some b' \<Longrightarrow> moves_only b b'"
  by (auto simp: select_ctx_done_def moves_only_def bus_items_def taken_def bus_ops split: option.splits)

lemma done_moves: "select_bus_done pid b = Some b' \<Longrightarrow> moves_only b b'"
  by (auto simp: select_bus_done_def moves_only_def bus_items_def taken_def bus_ops split: option.splits if_splits)

lemma send_moves:
  assumes "select_send pid b = Some b'"
  shows "moves_only b b'"
proof -
  obtain it where it: "map_of (b_pending b) pid = Some it"
    and b': "b' = publish_return pid None (leave_select pid (enqueue it b)\<lparr>b_accepted := b_accepted b @ [(pid, it)]\<rparr>)"
    using assms by (auto simp: select_send_def split: option.splits if_splits)
  have "it \<in> snd ` set (b_pending b)" using map_of_SomeD [OF it] by force
  then show ?thesis
    unfolding b' using leave_pending [of pid "b_pending b"]
    by (cases it) (auto simp: moves_only_def bus_items_def taken_def bus_ops enqueue_def item_stream_def)
qed

lemma close_moves: "moves_only b (close_start b)" "close_finish b = Some b' \<Longrightarrow> moves_only b b'"
  by (auto simp: moves_only_def bus_items_def taken_def close_start_def close_finish_def split: if_splits)

lemma dispatch_moves:
  assumes "dispatch_outbound res b = Some b'"
  shows "moves_only b b'"
proof -
  obtain it rest where o: "b_outbound b = it # rest" using assms by (auto simp: dispatch_outbound_def split: list.splits)
  obtain d x e p where b': "b' = b\<lparr>b_outbound := rest, b_received := b_received b @ [it], b_delivered := d, b_dropped := x,
      b_events := e, b_pulses := p\<rparr>"
    using dispatch_frame [OF assms o] by blast
  have d: "set (b_delivered b') \<subseteq> set (b_delivered b) \<union> {(h, m). it = OutItem m}"
    using assms
    by (auto simp: dispatch_outbound_def o report_delivery_failure_def Let_def split: bus_item.splits option.splits callback_result.splits)
  have "b_subs b' = b_subs b" "b_pending b' = b_pending b" "b_inbound b' = b_inbound b" "b_outbound b' = rest"
      "b_received b' = b_received b @ [it]"
    by (simp_all add: b')
  then show ?thesis using o d by (auto simp: moves_only_def bus_items_def taken_def)
qed

lemma receive_frame:
  assumes "receive_inbound b = Some (it, b')"
  shows "moves_only b b' \<and> it \<in> bus_items b \<and> taken b' = taken b @ (case it of InItem im \<Rightarrow> [im] | OutItem _ \<Rightarrow> [])"
  using assms by (auto simp: receive_inbound_def moves_only_def bus_items_def taken_def split: list.splits)

lemma subscribe_frame:
  "b_received (set_outbound_subscriber c v b) = b_received b" "b_inbound (set_outbound_subscriber c v b) = b_inbound b"
  "bus_items (set_outbound_subscriber c v b) = bus_items b"
  by (cases v; simp add: set_outbound_subscriber_def Let_def bus_items_def)+

lemma manager_frame:
  assumes "manager_apply cfg reg ts ok m b = (m', b', tr, e)"
  shows "b_received b' = b_received b \<and> b_inbound b' = b_inbound b \<and> bus_items b' = bus_items b"
proof -
  have f: "b_received (foldl (\<lambda>b p. set_outbound_subscriber (fst p) (v p) b) b xs) = b_received b
      \<and> b_inbound (foldl (\<lambda>b p. set_outbound_subscriber (fst p) (v p) b) b xs) = b_inbound b
      \<and> bus_items (foldl (\<lambda>b p. set_outbound_subscriber (fst p) (v p) b) b xs) = bus_items b" for v xs and b :: "nat bus"
    by (induction xs arbitrary: b) (simp_all add: subscribe_frame)
  show ?thesis
    using assms by (auto simp: manager_apply_def Let_def f split: option.splits bool.splits sum.splits prod.splits)
qed

subsection \<open>Streams go to the chat of their message\<close>

lemma send_error_no_stream: "SendStream c m e \<notin> set (send_error env ch chat t cause)"
  by (auto simp: send_error_def publish_effect_def plain_event_def Let_def split: option.splits)

lemma before_no_stream: "SendStream c m e \<notin> set (turn_start_event msg # preprocess_effects ch msg)"
  by (auto simp: turn_start_event_def plain_event_def dest: preprocess_shape)

lemma builtin_no_stream: "handle_builtin_effects env ps msg = (ps', effs, handled) \<Longrightarrow> SendStream c m e \<notin> set effs"
  using send_error_no_stream
  by (auto simp: handle_builtin_effects_def publish_effect_def plain_event_def Let_def split: prod.splits sum.splits option.splits if_splits)

lemma sync_no_stream: "run_sync_turn env ps ctx msg key so plan = (ps', effs, err) \<Longrightarrow> SendStream c m e \<notin> set effs"
  by (auto simp: run_sync_turn_def publish_effect_def plain_event_def turn_completed_effect_def Let_def
      split: prod.splits sum.splits option.splits if_splits agent_result.splits)

lemma stream_turn_chat:
  "run_stream_turn env ctx msg key meta plan = (effs, err) \<Longrightarrow> SendStream c m e \<in> set effs \<Longrightarrow> c = im_chat_id msg"
  by (auto simp: run_stream_turn_def report_stream_failed_def plain_event_def turn_completed_effect_def Let_def
      split: sum.splits option.splits if_splits)

lemma handle_stream_chat:
  assumes "handle_message env ctx ps msg = (ps', effs)" and "SendStream c m e \<in> set effs"
  shows "c = im_chat_id msg"
  using assms before_no_stream [of c m e msg "pv_channel env (im_channel msg)"] send_error_no_stream [of c m e env]
  by (auto simp: handle_message_def publish_effect_def Let_def
      dest: builtin_no_stream [of _ _ _ _ _ _ c m e] sync_no_stream [of _ _ _ _ _ _ _ _ _ _ c m e] stream_turn_chat
      split: prod.splits sum.splits option.splits if_splits bool.splits)

subsection \<open>The invariant\<close>

lemma normal_in: "normalize_item (InItem im0) = Inr it \<Longrightarrow> \<exists>im. it = InItem im \<and> normalize_inbound im0 = Inr im"
  by (auto simp: normalize_item_def split: sum.splits)

lemma normal_out: "normalize_item (OutItem om0) = Inr it \<Longrightarrow> \<exists>om. it = OutItem om \<and> normalize_outbound om0 = Inr om"
  by (auto simp: normalize_item_def split: sum.splits)

lemma normal_out_fields: "normalize_outbound m = Inr om \<Longrightarrow> om_channel om = trim_space (om_channel m) \<and> om_chat_id om = trim_space (om_chat_id m)"
  by (auto simp: normalize_outbound_def Let_def split: if_splits)

lemma heard_trimmed: "heard_of admits im \<Longrightarrow> trim_space (im_channel im) = im_channel im \<and> trim_space (im_chat_id im) = im_chat_id im"
  by (auto simp: heard_of_def normalize_inbound_def Let_def split: if_splits)

lemma taken_item: "im \<in> set (taken b) \<Longrightarrow> InItem im \<in> bus_items b"
  by (auto simp: taken_def bus_items_def split: bus_item.splits)

lemma taken_heard: "flow_inv admits s \<Longrightarrow> im \<in> set (taken (fl_bus s)) \<Longrightarrow> heard_of admits im"
  using taken_item by (fastforce simp: flow_inv_def items_ok_def item_ok_def)

lemma item_ok_cong:
  "fl_scheduled s' = fl_scheduled s \<Longrightarrow> fl_replies s' = fl_replies s \<Longrightarrow> item_ok admits s' it = item_ok admits s it"
  by (simp add: item_ok_def from_outside_def is_reply_def split: bus_item.split)

lemma work_mono:
  assumes "work_ok s" and "set (taken (fl_bus s)) \<subseteq> set (taken b)"
  shows "work_ok (s\<lparr>fl_bus := b\<rparr>)"
proof (cases "fl_work s")
  case (Some w)
  then show ?thesis using assms by (cases w) (auto simp: work_ok_def)
qed (use assms in \<open>simp add: work_ok_def\<close>)

lemma logs_mono: "logs_ok s \<Longrightarrow> set (taken (fl_bus s)) \<subseteq> set (taken b) \<Longrightarrow> logs_ok (s\<lparr>fl_bus := b\<rparr>)"
  by (auto simp: logs_ok_def)

lemma count_mono: "count_ok s \<Longrightarrow> length (taken (fl_bus s)) \<le> length (taken b) \<Longrightarrow> count_ok (s\<lparr>fl_bus := b\<rparr>)"
  by (cases "fl_work s") (auto simp: count_ok_def open_replies_def)

lemma wired_subs: "b_subs b' = b_subs b \<Longrightarrow> wired m b' = wired m b"
  by (simp add: wired_def bus_subscriber_def)

text \<open>A step of the bus alone that takes nothing back and brings only items that may be there.\<close>

lemma bus_change_inv:
  assumes "flow_inv admits s" and "b_subs b = b_subs (fl_bus s)" and "set (taken (fl_bus s)) \<subseteq> set (taken b)"
    and "length (taken (fl_bus s)) \<le> length (taken b)"
    and "\<And>x. x \<in> bus_items b \<Longrightarrow> x \<in> bus_items (fl_bus s) \<or> item_ok admits s x"
  shows "flow_inv admits (s\<lparr>fl_bus := b\<rparr>)"
proof -
  have i: "items_ok admits s" "work_ok s" "wired (fl_mgr s) (fl_bus s)" "logs_ok s" "count_ok s"
    using assms(1) by (simp_all add: flow_inv_def)
  have "items_ok admits (s\<lparr>fl_bus := b\<rparr>)"
    unfolding items_ok_def
  proof
    fix x assume "x \<in> bus_items (fl_bus (s\<lparr>fl_bus := b\<rparr>))"
    then have "item_ok admits s x" using assms(5) [of x] i(1) by (auto simp: items_ok_def)
    then show "item_ok admits (s\<lparr>fl_bus := b\<rparr>) x" using item_ok_cong [of "s\<lparr>fl_bus := b\<rparr>" s] by simp
  qed
  moreover have "wired (fl_mgr (s\<lparr>fl_bus := b\<rparr>)) (fl_bus (s\<lparr>fl_bus := b\<rparr>))" using i(3) wired_subs [OF assms(2)] by simp
  ultimately show ?thesis
    using work_mono [OF i(2) assms(3)] logs_mono [OF i(4) assms(3)] count_mono [OF i(5) assms(4)] by (simp add: flow_inv_def)
qed

lemma moves_inv: "flow_inv admits s \<Longrightarrow> moves_only (fl_bus s) b \<Longrightarrow> flow_inv admits (s\<lparr>fl_bus := b\<rparr>)"
  by (rule bus_change_inv) (auto simp: moves_only_def)

lemma flow_start_inv:
  assumes "flow_inv admits s" and "\<And>x. normalize_item it = Inr x \<Longrightarrow> item_ok admits s x"
  shows "flow_inv admits (s\<lparr>fl_bus := publish_start pid it (fl_bus s)\<rparr>)"
proof -
  have t: "taken (publish_start pid it (fl_bus s)) = taken (fl_bus s)" by (simp add: taken_def start_frame)
  show ?thesis
    by (rule bus_change_inv [OF assms(1)]) (auto simp: t start_frame(1) assms(2) dest!: start_items)
qed

text \<open>A step of the loop: the bus stays.\<close>

lemma loop_inv:
  assumes "flow_inv admits s" and "fl_bus t = fl_bus s" and "fl_mgr t = fl_mgr s"
    and "\<And>x. item_ok admits s x \<Longrightarrow> item_ok admits t x" and "work_ok t" and "logs_ok t" and "count_ok t"
  shows "flow_inv admits t"
  using assms by (auto simp: flow_inv_def items_ok_def)

lemma reply_count: "replies_of im ps \<Longrightarrow> length ps \<le> 1"
  by (auto simp: replies_of_def)

lemma publish_head: "replies_of im (publishes (Publish m r # es))
    \<Longrightarrow> publishes es = [] \<and> om_channel m = im_channel im \<and> om_chat_id m = im_chat_id im"
  by (auto simp: replies_of_def publishes_def)

lemma more_logged:
  "set (fl_scheduled s) \<subseteq> set (fl_scheduled t) \<Longrightarrow> set (fl_replies s) \<subseteq> set (fl_replies t) \<Longrightarrow> item_ok admits s x \<Longrightarrow> item_ok admits t x"
  by (auto simp: item_ok_def from_outside_def is_reply_def split: bus_item.splits)

lemma flow_parts: "flow_inv admits s \<Longrightarrow> work_ok s \<and> logs_ok s \<and> count_ok s"
  by (simp add: flow_inv_def)

lemma scheduled_frame:
  "work_ok (s\<lparr>fl_scheduled := ms\<rparr>) = work_ok s" "logs_ok (s\<lparr>fl_scheduled := ms\<rparr>) = logs_ok s"
  "count_ok (s\<lparr>fl_scheduled := ms\<rparr>) = count_ok s"
  by (cases "fl_work s"; simp add: work_ok_def logs_ok_def count_ok_def open_replies_def)+

lemma at_work:
  assumes "work_ok s" and "fl_work s = Some (im, es)"
  shows "im \<in> set (taken (fl_bus s)) \<and> replies_of im (publishes es)
    \<and> (\<forall>chat meta evs. SendStream chat meta evs \<in> set es \<longrightarrow> chat = im_chat_id im)
    \<and> (fl_call s \<noteq> None \<longrightarrow> (\<exists>m r es'. es = Publish m r # es'))"
  using assms by (simp add: work_ok_def)

text \<open>The loop is done with an effect.\<close>

lemma effect_done:
  assumes "flow_inv admits s" and "fl_work s = Some (im, e # es)"
    and "publishes es = publishes (e # es) \<and> fl_call s = None \<or> publishes es = []"
    and "list_all (\<lambda>p. fst p = im \<and> snd p = im_chat_id im) xs"
  shows "flow_inv admits (s\<lparr>fl_work := Some (im, es), fl_call := None, fl_streams := fl_streams s @ xs\<rparr>)"
proof -
  let ?t = "s\<lparr>fl_work := Some (im, es), fl_call := None, fl_streams := fl_streams s @ xs\<rparr>"
  note q = flow_parts [OF assms(1)]
  have a: "im \<in> set (taken (fl_bus s))" "replies_of im (publishes (e # es))"
      "\<forall>chat meta evs. SendStream chat meta evs \<in> set (e # es) \<longrightarrow> chat = im_chat_id im"
    using at_work [OF _ assms(2)] q by blast+
  have r: "replies_of im (publishes es)" using a(2) assms(3) by auto
  have w: "work_ok ?t" using a(1,3) r by (auto simp: work_ok_def)
  have l: "logs_ok ?t" using q a(1) assms(4) by (auto simp: logs_ok_def list_all_iff)
  have "length (fl_replies s) + length (publishes es) \<le> length (taken (fl_bus s))"
    using q assms(2,3) by (auto simp: count_ok_def open_replies_def split: if_splits)
  then have c: "count_ok ?t" by (simp add: count_ok_def open_replies_def)
  show ?thesis by (rule loop_inv [OF assms(1) _ _ _ w l c]) (simp_all add: more_logged [of s])
qed

lemma flow_step_inv:
  assumes "flow_step admits s t" and "flow_inv admits s"
  shows "flow_inv admits t"
  using assms
proof (induction rule: flow_step.induct)
  case (hears im pid s)
  have "item_ok admits s x" if x: "normalize_item (InItem im) = Inr x" for x
    using normal_in [OF x] hears.hyps(1) by (auto simp: item_ok_def heard_of_def)
  then show ?case using flow_start_inv [OF hears.prems] by blast
next
  case (job_delivers reactive job out c to t pid s)
  let ?s = "s\<lparr>fl_scheduled := fl_scheduled s @ [reply_to c to t None]\<rparr>"
  have i: "flow_inv admits ?s"
    by (rule loop_inv [OF job_delivers.prems])
      (use flow_parts [OF job_delivers.prems] in \<open>auto simp: scheduled_frame intro: more_logged [of s]\<close>)
  have "item_ok admits ?s x" if x: "normalize_item (OutItem (reply_to c to t None)) = Inr x" for x
    using normal_out [OF x] by (auto simp: item_ok_def from_outside_def)
  then have "flow_inv admits (?s\<lparr>fl_bus := publish_start pid (OutItem (reply_to c to t None)) (fl_bus ?s)\<rparr>)"
    by (rule flow_start_inv [OF i])
  moreover have "?s\<lparr>fl_bus := publish_start pid (OutItem (reply_to c to t None)) (fl_bus ?s)\<rparr>
      = s\<lparr>fl_bus := publish_start pid (OutItem (reply_to c to t None)) (fl_bus s), fl_scheduled := fl_scheduled s @ [reply_to c to t None]\<rparr>"
    by simp
  ultimately show ?case by (simp only:)
next
  case (call_cancelled pid err s b)
  then show ?case using ctx_moves moves_inv by blast
next
  case (call_refused pid s b)
  then show ?case using done_moves moves_inv by blast
next
  case (call_accepted pid s b)
  then show ?case using send_moves moves_inv by blast
next
  case (bus_closes s)
  then show ?case using close_moves(1) moves_inv by blast
next
  case (bus_closed s b)
  then show ?case using close_moves(2) moves_inv by blast
next
  case (takes_message s im b env ctx ps effs)
  have r: "moves_only (fl_bus s) b" "taken b = taken (fl_bus s) @ [im]" using receive_frame [OF takes_message.hyps(2)] by auto
  have i: "flow_inv admits (s\<lparr>fl_bus := b\<rparr>)" using moves_inv [OF takes_message.prems r(1)] .
  have c: "replies_of im (publishes effs)" using handle_counts [OF takes_message.hyps(3)] by blast
  have w: "fl_call s = None" "length (fl_replies s) \<le> length (taken (fl_bus s))"
    using flow_parts [OF takes_message.prems] takes_message.hyps(1) by (simp_all add: work_ok_def count_ok_def)
  show ?case
    by (rule loop_inv [OF i])
      (use flow_parts [OF i] c w r(2) reply_count [OF c] handle_stream_chat [OF takes_message.hyps(3)]
        in \<open>auto simp: work_ok_def logs_ok_def count_ok_def open_replies_def intro: more_logged [of "s\<lparr>fl_bus := b\<rparr>"]\<close>)
next
  case (has_effect s im e es)
  have p: "publishes es = publishes (e # es)" using has_effect.hyps(2) by (simp add: publishes_def)
  have w: "fl_call s = None"
    using at_work [OF _ has_effect.hyps(1)] flow_parts [OF has_effect.prems] has_effect.hyps(2) by auto
  have "s\<lparr>fl_work := Some (im, es), fl_call := None, fl_streams := fl_streams s @ []\<rparr> = s\<lparr>fl_work := Some (im, es)\<rparr>"
    using w by simp
  moreover have "flow_inv admits (s\<lparr>fl_work := Some (im, es), fl_call := None, fl_streams := fl_streams s @ []\<rparr>)"
    using p w by (intro effect_done [OF has_effect.prems has_effect.hyps(1)]) auto
  ultimately show ?case by (simp only:)
next
  case (hands_stream s im chat meta evs es)
  note q = flow_parts [OF hands_stream.prems]
  have p: "publishes es = publishes (SendStream chat meta evs # es)" by (simp add: publishes_def)
  have w: "fl_call s = None" and c: "chat = im_chat_id im" using at_work [OF _ hands_stream.hyps] q by auto
  have e: "s\<lparr>fl_work := Some (im, es), fl_call := None, fl_streams := fl_streams s @ [(im, chat)]\<rparr>
      = s\<lparr>fl_work := Some (im, es), fl_streams := fl_streams s @ [(im, chat)]\<rparr>"
    using w by simp
  have "flow_inv admits (s\<lparr>fl_work := Some (im, es), fl_call := None, fl_streams := fl_streams s @ [(im, chat)]\<rparr>)"
    using p w c by (intro effect_done [OF hands_stream.prems hands_stream.hyps]) auto
  then show ?case unfolding e .
next
  case (publishes_reply s im m r es pid)
  note q = flow_parts [OF publishes_reply.prems]
  have a: "im \<in> set (taken (fl_bus s))" "replies_of im (publishes (Publish m r # es))"
      "\<forall>chat meta evs. SendStream chat meta evs \<in> set (Publish m r # es) \<longrightarrow> chat = im_chat_id im"
    using at_work [OF _ publishes_reply.hyps(1)] q by blast+
  note h = publish_head [OF a(2)]
  have o: "length (fl_replies s) + 1 \<le> length (taken (fl_bus s))"
    using q publishes_reply.hyps(1,2) by (simp add: count_ok_def open_replies_def publishes_def)
  let ?s = "s\<lparr>fl_replies := fl_replies s @ [(im, m)], fl_call := Some pid\<rparr>"
  have i: "flow_inv admits ?s"
    by (rule loop_inv [OF publishes_reply.prems])
      (use q a h o publishes_reply.hyps(1)
        in \<open>auto simp: work_ok_def logs_ok_def count_ok_def open_replies_def intro: more_logged [of s]\<close>)
  have t: "trim_space (im_channel im) = im_channel im \<and> trim_space (im_chat_id im) = im_chat_id im"
    using heard_trimmed [OF taken_heard [OF publishes_reply.prems a(1)]] .
  have "item_ok admits ?s x" if x: "normalize_item (OutItem m) = Inr x" for x
    using normal_out [OF x] normal_out_fields [of m] h t by (auto simp: item_ok_def is_reply_def)
  then have "flow_inv admits (?s\<lparr>fl_bus := publish_start pid (OutItem m) (fl_bus ?s)\<rparr>)"
    by (rule flow_start_inv [OF i])
  moreover have "?s\<lparr>fl_bus := publish_start pid (OutItem m) (fl_bus ?s)\<rparr>
      = s\<lparr>fl_bus := publish_start pid (OutItem m) (fl_bus s), fl_call := Some pid, fl_replies := fl_replies s @ [(im, m)]\<rparr>"
    by simp
  ultimately show ?case by (simp only:)
next
  case (reply_published s im m r es pid)
  have h: "publishes es = []"
    using at_work [OF _ reply_published.hyps(1)] flow_parts [OF reply_published.prems] publish_head by blast
  have e: "s\<lparr>fl_work := Some (im, es), fl_call := None, fl_streams := fl_streams s @ []\<rparr> = s\<lparr>fl_work := Some (im, es), fl_call := None\<rparr>"
    by simp
  have "flow_inv admits (s\<lparr>fl_work := Some (im, es), fl_call := None, fl_streams := fl_streams s @ []\<rparr>)"
    using h by (intro effect_done [OF reply_published.prems reply_published.hyps(1)]) auto
  then show ?case unfolding e .
next
  case (message_over s im)
  note q = flow_parts [OF message_over.prems]
  have w: "fl_call s = None" using at_work [OF _ message_over.hyps] q by auto
  show ?case
    by (rule loop_inv [OF message_over.prems])
      (use q w in \<open>auto simp: work_ok_def logs_ok_def count_ok_def open_replies_def intro: more_logged [of s]\<close>)
next
  case (dispatches res s b)
  then show ?case using dispatch_moves moves_inv by blast
next
  case (reloads_channels cfg reg ts ok s m b tr e)
  have f: "b_received b = b_received (fl_bus s)" "bus_items b = bus_items (fl_bus s)"
    using manager_frame [OF reloads_channels.hyps(1)] by simp_all
  have t: "taken b = taken (fl_bus s)" by (simp add: taken_def f)
  have w: "wired m b"
    using reloads_channels.prems by (intro apply_wired [OF _ reloads_channels.hyps]) (simp add: flow_inv_def)
  have "items_ok admits (s\<lparr>fl_mgr := m, fl_bus := b\<rparr>)"
    using reloads_channels.prems f(2) item_ok_cong [of "s\<lparr>fl_mgr := m, fl_bus := b\<rparr>" s] by (simp add: flow_inv_def items_ok_def)
  then show ?case
    using flow_parts [OF reloads_channels.prems] w t
    by (auto simp: flow_inv_def work_ok_def logs_ok_def count_ok_def open_replies_def split: option.splits)
qed

lemma new_flow_inv: "flow_inv admits (new_flow n posts)"
  using wired_start [of n]
  by (simp add: flow_inv_def items_ok_def logs_ok_def count_ok_def new_flow_def work_ok_def open_replies_def taken_def bus_items_def
      new_bus_def)

lemma flow_steps_inv: "flow_steps admits s t \<Longrightarrow> flow_inv admits s \<Longrightarrow> flow_inv admits t"
  by (induction rule: flow_steps.induct) (auto dest: flow_step_inv)


subsection \<open>A message and its reply\<close>

definition fresh_msg :: inbound_message where
  "fresh_msg = sample_msg\<lparr>im_hints := (im_hints sample_msg)\<lparr>rh_builtin_command := ''new''\<rparr>\<rparr>"

definition fresh_reply :: outbound_message where
  "fresh_reply = reply_to ''web'' ''1'' fresh_session_reply (im_transport_meta fresh_msg)"

definition web_apply :: "channel_manager \<times> nat bus \<times> channel_event list \<times> manager_error option" where
  "web_apply = manager_apply (Some True) (Some [Some (''web'', 1)]) (\<lambda>_. True) (\<lambda>_. True) new_manager (new_bus 4)"

definition bus_up :: "nat bus" where "bus_up = fst (snd web_apply)"
definition bus_called :: "nat bus" where "bus_called = publish_start 1 (InItem fresh_msg) bus_up"
definition bus_heard :: "nat bus" where "bus_heard = the (select_send 1 bus_called)"
definition bus_taken :: "nat bus" where "bus_taken = snd (the (receive_inbound bus_heard))"
definition bus_answered :: "nat bus" where "bus_answered = publish_start 2 (OutItem fresh_reply) bus_taken"
definition bus_sent :: "nat bus" where "bus_sent = the (select_send 2 bus_answered)"
definition bus_done :: "nat bus" where "bus_done = the (dispatch_outbound CallbackOk bus_sent)"

lemma bus_up_is: "bus_up = set_outbound_subscriber ''web'' (Some 1) (new_bus 4)"
  by code_simp

lemma demo_items: "normalize_item (InItem fresh_msg) = Inr (InItem fresh_msg)" "normalize_item (OutItem fresh_reply) = Inr (OutItem fresh_reply)"
  "om_channel fresh_reply = ''web''" "trim_space ''web'' = ''web''"
  by (code_simp, code_simp, code_simp, code_simp)

lemmas bus_runs = bus_up_is bus_called_def bus_heard_def bus_taken_def bus_answered_def bus_sent_def bus_done_def
  publish_start_def select_send_def receive_inbound_def new_bus_def set_outbound_subscriber_def demo_items pid_used_def bus_ops
  item_stream_def b_queue_def enqueue_def leave_select_def publish_return_def map_put_def dispatch_outbound_def bus_subscriber_def

lemma demo_bus_steps:
  "\<not> pid_used 1 bus_up" "select_send 1 bus_called = Some bus_heard" "receive_inbound bus_heard = Some (InItem fresh_msg, bus_taken)"
  "\<not> pid_used 2 bus_taken" "select_send 2 bus_answered = Some bus_sent" "(2, None) \<in> set (b_results bus_sent)"
  "dispatch_outbound CallbackOk bus_sent = Some bus_done" "b_delivered bus_done = [(1, fresh_reply)]"
  by (simp_all add: bus_runs)

lemma fresh_command: "trim_space (rh_builtin_command (im_hints fresh_msg)) = ''new''"
  by code_simp

lemma fresh_route: "trim_space (stable_route_key fresh_msg) \<noteq> []"
  by code_simp

lemma fresh_builtin: "snd (handle_builtin sample_post fresh_msg nanos sha IoOk) = (True, None)"
  using fresh_command fresh_route
  by (simp add: handle_builtin_def rotate_def sample_post_def persist_def Let_def split: prod.splits sum.splits)

lemma demo_handled: "snd (handle_message sample_env None sample_post fresh_msg) = [Publish fresh_reply None]"
proof -
  obtain p where "handle_builtin sample_post fresh_msg (pe_nanos (pv_post sample_env)) (pe_sha (pv_post sample_env)) IoOk = (p, True, None)"
    using fresh_builtin by (metis prod.collapse)
  then show ?thesis
    by (simp add: handle_message_def handle_builtin_effects_def sample_env_def publish_effect_def fresh_reply_def
        fresh_msg_def sample_msg_def)
qed

lemma demo_registry: "channels_from_registry (Some [Some (''web'', 1)]) = Inr [(''web'', 1)]" "plain_name ''web''"
  by (simp add: channels_from_registry_def, code_simp)


end
