(* ===== verification/StreamCopy.thy ===== *)
theory StreamCopy
  imports Pipeline
begin

text \<open>
  \<open>collectStreamOutput\<close> of \<open>kernel/pipeline/pipeline.go\<close>: the goroutine that stands between the stream of the agent and
  \<open>SendStream\<close> and collects the text, as steps that interleave with the reader. The pipeline's model uses its outcome,
  \<open>collect_text\<close>; here it is shown to be the outcome, for a reader that reads on.
\<close>

subsection \<open>The goroutine and its reader\<close>

text \<open>Events to come, the one in hand, the channel with its capacity, the text collected, whether the channel is closed;
  what the reader has got, whether it still reads, and whether it has seen the end.\<close>

record copying =
  cy_in :: "stream_event list"
  cy_hand :: "stream_event option"
  cy_out :: "stream_event list"
  cy_cap :: nat
  cy_text :: string
  cy_closed :: bool
  cy_got :: "stream_event list"
  cy_reading :: bool
  cy_end :: bool

definition collect_stream :: "nat \<Rightarrow> stream_event list \<Rightarrow> copying" where
  "collect_stream cap evs = \<lparr>cy_in = evs, cy_hand = None, cy_out = [], cy_cap = cap, cy_text = [], cy_closed = False,
     cy_got = [], cy_reading = True, cy_end = False\<rparr>"

inductive copy_step :: "copying \<Rightarrow> copying \<Rightarrow> bool" where
  takes: "cy_hand s = None \<Longrightarrow> cy_in s = e # es
    \<Longrightarrow> copy_step s (s\<lparr>cy_in := es, cy_hand := Some e, cy_text := cy_text s @ collect_text [e]\<rparr>)"
| sends: "cy_hand s = Some e \<Longrightarrow> length (cy_out s) < cy_cap s \<Longrightarrow> copy_step s (s\<lparr>cy_hand := None, cy_out := cy_out s @ [e]\<rparr>)"
| hands_over: "cy_hand s = Some e \<Longrightarrow> cy_reading s \<Longrightarrow> cy_out s = []
    \<Longrightarrow> copy_step s (s\<lparr>cy_hand := None, cy_got := cy_got s @ [e]\<rparr>)"
| closes_copy: "cy_hand s = None \<Longrightarrow> cy_in s = [] \<Longrightarrow> \<not> cy_closed s \<Longrightarrow> copy_step s (s\<lparr>cy_closed := True\<rparr>)"
| reads: "cy_reading s \<Longrightarrow> cy_out s = e # es \<Longrightarrow> copy_step s (s\<lparr>cy_out := es, cy_got := cy_got s @ [e]\<rparr>)"
| sees_end: "cy_reading s \<Longrightarrow> cy_closed s \<Longrightarrow> cy_out s = [] \<Longrightarrow> copy_step s (s\<lparr>cy_reading := False, cy_end := True\<rparr>)"
| gives_up: "cy_reading s \<Longrightarrow> copy_step s (s\<lparr>cy_reading := False\<rparr>)"

inductive copy_steps :: "copying \<Rightarrow> copying \<Rightarrow> bool" where
  copy_refl: "copy_steps s s"
| copy_then: "copy_step a b \<Longrightarrow> copy_steps b c \<Longrightarrow> copy_steps a c"

subsection \<open>Nothing is lost or changed\<close>

lemma collect_append: "collect_text (xs @ ys) = collect_text xs @ collect_text ys"
  by (induction xs rule: collect_text.induct) simp_all

definition copy_inv :: "stream_event list \<Rightarrow> copying \<Rightarrow> bool" where
  "copy_inv evs s \<longleftrightarrow>
     (let held = cy_got s @ cy_out s @ (case cy_hand s of None \<Rightarrow> [] | Some e \<Rightarrow> [e]) in
      held @ cy_in s = evs \<and> cy_text s = collect_text held)
     \<and> (cy_closed s \<longrightarrow> cy_hand s = None \<and> cy_in s = []) \<and> (cy_end s \<longrightarrow> cy_closed s \<and> cy_out s = [])"

lemma copy_step_inv: "copy_step s t \<Longrightarrow> copy_inv evs s \<Longrightarrow> copy_inv evs t"
  by (induction rule: copy_step.induct) (auto simp: copy_inv_def Let_def collect_append)

lemma copy_steps_inv: "copy_steps s t \<Longrightarrow> copy_inv evs s \<Longrightarrow> copy_inv evs t"
  by (induction rule: copy_steps.induct) (auto intro: copy_step_inv)

lemma collect_start: "copy_inv evs (collect_stream cap evs)"
  by (simp add: copy_inv_def collect_stream_def)

text \<open>C38: a reader that reads until the channel is closed has got every event of the agent, in order, whatever the capacity and
  however the two goroutines interleave, and the text collected by then is that of all of them - what is remembered of the turn -
  while a reader that gives up has got a prefix.\<close>

theorem collector_transparent:
  assumes "copy_steps (collect_stream cap evs) s"
  shows "(cy_end s \<longrightarrow> cy_got s = evs \<and> cy_text s = collect_text evs) \<and> (\<exists>rest. cy_got s @ rest = evs)"
proof -
  have "copy_inv evs s" using copy_steps_inv [OF assms collect_start] .
  then show ?thesis by (auto simp: copy_inv_def Let_def)
qed

subsection \<open>A reader that reads on is served\<close>

definition copy_left :: "copying \<Rightarrow> nat" where
  "copy_left s = 3 * length (cy_in s) + (case cy_hand s of None \<Rightarrow> 0 | Some _ \<Rightarrow> 2) + length (cy_out s) + (if cy_closed s then 0 else 1)"

lemma reader_moves:
  assumes "cy_reading s" "\<not> (cy_closed s \<and> cy_out s = [])"
  shows "\<exists>t. copy_step s t \<and> cy_reading t \<and> copy_left t < copy_left s"
proof (cases "cy_out s")
  case (Cons e es)
  show ?thesis by (rule exI, rule conjI, rule reads [OF assms(1) Cons]) (simp add: copy_left_def Cons assms(1))
next
  case out: Nil
  show ?thesis
  proof (cases "cy_hand s")
    case (Some e)
    show ?thesis by (rule exI, rule conjI, rule hands_over [OF Some assms(1) out]) (simp add: copy_left_def Some assms(1))
  next
    case hand: None
    show ?thesis
    proof (cases "cy_in s")
      case (Cons e es)
      show ?thesis by (rule exI, rule conjI, rule takes [OF hand Cons]) (simp add: copy_left_def hand Cons assms(1))
    next
      case Nil
      have "\<not> cy_closed s" using assms(2) out by simp
      from closes_copy [OF hand Nil this] show ?thesis
        by (intro exI [of _ "s\<lparr>cy_closed := True\<rparr>"] conjI) (simp_all add: copy_left_def assms(1) \<open>\<not> cy_closed s\<close>)
    qed
  qed
qed

text \<open>The goroutine never stands in the way of such a reader: the end comes.\<close>

lemma reader_served: "cy_reading s \<Longrightarrow> \<exists>t. copy_steps s t \<and> cy_end t"
proof (induction "copy_left s" arbitrary: s rule: less_induct)
  case less
  show ?case
  proof (cases "cy_closed s \<and> cy_out s = []")
    case True
    then have "copy_step s (s\<lparr>cy_reading := False, cy_end := True\<rparr>)" using sees_end less.prems by blast
    from copy_then [OF this copy_refl] show ?thesis
      by (intro exI [of _ "s\<lparr>cy_reading := False, cy_end := True\<rparr>"] conjI) simp_all
  next
    case False
    then obtain t where "copy_step s t" "cy_reading t" "copy_left t < copy_left s" using reader_moves less.prems by blast
    then show ?thesis using less.hyps copy_then by blast
  qed
qed

theorem collector_transparent_witness:
  "\<exists>s. copy_steps (collect_stream 1 [DeltaText ''a'', OtherEvent 7, DeltaText ''b'']) s \<and> cy_end s
    \<and> cy_text s = ''ab''"
proof -
  have "cy_reading (collect_stream 1 [DeltaText ''a'', OtherEvent 7, DeltaText ''b''])" by (simp add: collect_stream_def)
  from reader_served [OF this] obtain s
    where s: "copy_steps (collect_stream 1 [DeltaText ''a'', OtherEvent 7, DeltaText ''b'']) s" "cy_end s" by blast
  with collector_transparent [OF s(1)] show ?thesis by (intro exI [of _ s]) simp
qed

subsection \<open>A reader that gives up\<close>

lemma copy_trans: "copy_steps a b \<Longrightarrow> copy_steps b c \<Longrightarrow> copy_steps a c"
  by (induction rule: copy_steps.induct) (auto intro: copy_then)

lemma fills_up:
  "cy_hand s = None \<Longrightarrow> cy_in s = es @ rest \<Longrightarrow> length (cy_out s) + length es \<le> cy_cap s
    \<Longrightarrow> copy_steps s (s\<lparr>cy_in := rest, cy_out := cy_out s @ es, cy_text := cy_text s @ collect_text es\<rparr>)"
proof (induction es arbitrary: s)
  case Nil
  have "s = s\<lparr>cy_in := rest, cy_out := cy_out s @ [], cy_text := cy_text s @ collect_text []\<rparr>" using Nil(2) by simp
  then show ?case using copy_refl by metis
next
  case (Cons e es)
  let ?t = "s\<lparr>cy_in := es @ rest, cy_hand := Some e, cy_text := cy_text s @ collect_text [e]\<rparr>"
  let ?u = "?t\<lparr>cy_hand := None, cy_out := cy_out ?t @ [e]\<rparr>"
  have "copy_step s ?t" "copy_step ?t ?u" using takes [OF Cons.prems(1), of e "es @ rest"] sends [of ?t e] Cons.prems by simp_all
  moreover have "copy_steps ?u (?u\<lparr>cy_in := rest, cy_out := cy_out ?u @ es, cy_text := cy_text ?u @ collect_text es\<rparr>)"
    using Cons.prems by (intro Cons.IH) simp_all
  moreover have "?u\<lparr>cy_in := rest, cy_out := cy_out ?u @ es, cy_text := cy_text ?u @ collect_text es\<rparr>
      = s\<lparr>cy_in := rest, cy_out := cy_out s @ e # es, cy_text := cy_text s @ collect_text (e # es)\<rparr>"
    using Cons.prems(1) collect_append [of "[e]" es] by simp
  ultimately show ?case by (simp only:) (rule copy_then, assumption, rule copy_then)
qed

text \<open>When \<open>SendStream\<close> gives up (a write fails, the turn is cancelled) with more events to come than the channel holds, the
  goroutine comes to stand still with one of them in hand: no step is left, the channel is not closed, and the events after
  it are never taken from the agent.\<close>

lemma abandoned_stream_stuck:
  assumes "cap < length evs"
  shows "\<exists>s. copy_steps (collect_stream cap evs) s \<and> (\<forall>t. \<not> copy_step s t) \<and> \<not> cy_closed s \<and> cy_in s = drop (Suc cap) evs"
proof -
  let ?s = "(collect_stream cap evs)\<lparr>cy_reading := False\<rparr>"
  let ?f = "?s\<lparr>cy_in := drop cap evs, cy_out := cy_out ?s @ take cap evs, cy_text := cy_text ?s @ collect_text (take cap evs)\<rparr>"
  let ?g = "?f\<lparr>cy_in := drop (Suc cap) evs, cy_hand := Some (evs ! cap), cy_text := cy_text ?f @ collect_text [evs ! cap]\<rparr>"
  have 1: "copy_step (collect_stream cap evs) ?s" by (rule gives_up) (simp add: collect_stream_def)
  have 2: "copy_steps ?s ?f" by (rule fills_up) (simp_all add: collect_stream_def)
  have 3: "copy_step ?f ?g"
    by (rule takes) (use assms in \<open>simp_all add: collect_stream_def Cons_nth_drop_Suc\<close>)
  have "copy_steps (collect_stream cap evs) ?g"
    using copy_then [OF 1 copy_trans [OF 2 copy_then [OF 3 copy_refl]]] .
  moreover have "\<not> copy_step ?g t" for t
    using assms by (auto simp: collect_stream_def elim: copy_step.cases)
  moreover have "\<not> cy_closed ?g" "cy_in ?g = drop (Suc cap) evs" by (simp_all add: collect_stream_def)
  ultimately show ?thesis by blast
qed

end
