(* ===== verification/Listening.thy ===== *)
theory Listening
  imports Web Feishu Wecom
begin

text \<open>
  The listening of the channels with a server of their own: \<open>Start\<close> and \<open>Stop\<close> of \<open>plugins/channel/feishu/feishu.go\<close>,
  \<open>wecom/wecom.go\<close> and \<open>web/http.go\<close>. \<open>Start\<close> leaves \<open>ListenAndServe\<close> to a goroutine and returns; the goroutines are the
  steps, between which channels start and stop. A port is held from the call of \<open>Listen\<close> on, but \<open>Close\<close> only closes a
  listener that \<open>Serve\<close> has taken over.
\<close>

subsection \<open>Servers\<close>

datatype listen_state = NotYet | Bound | Serving | Refused | Over

record server =
  sr_port :: int
  sr_shut :: bool
  sr_state :: listen_state

definition new_server :: "int \<Rightarrow> server" where "new_server port = \<lparr>sr_port = port, sr_shut = False, sr_state = NotYet\<rparr>"

definition holds_port :: "server \<Rightarrow> bool" where "holds_port s \<longleftrightarrow> sr_state s = Bound \<or> sr_state s = Serving"

text \<open>\<open>foreign\<close> are the ports that other programs hold.\<close>

definition port_taken :: "int list \<Rightarrow> server list \<Rightarrow> int \<Rightarrow> bool" where
  "port_taken foreign srvs p \<longleftrightarrow> p \<in> set foreign \<or> list_ex (\<lambda>s. holds_port s \<and> sr_port s = p) srvs"

text \<open>The next step of \<open>ListenAndServe\<close>; \<open>Refused\<close> is the error that is logged.\<close>

definition advance :: "int list \<Rightarrow> server list \<Rightarrow> server \<Rightarrow> server option" where
  "advance foreign srvs s =
     (case sr_state s of
        NotYet \<Rightarrow> Some (s\<lparr>sr_state := (if sr_shut s then Over else if port_taken foreign srvs (sr_port s) then Refused else Bound)\<rparr>)
      | Bound \<Rightarrow> Some (s\<lparr>sr_state := (if sr_shut s then Over else Serving)\<rparr>)
      | _ \<Rightarrow> None)"

definition close_server :: "server \<Rightarrow> server" where
  "close_server s = s\<lparr>sr_shut := True, sr_state := (if sr_state s = Serving then Over else sr_state s)\<rparr>"

subsection \<open>Start and Stop\<close>

definition wecom_port :: "wecom_config \<Rightarrow> int" where
  "wecom_port cfg = (if wc_port cfg = 0 then 9886 else wc_port cfg)"

text \<open>The server of a channel and whether \<open>Start\<close> reports an error.\<close>

definition feishu_start :: "feishu_config \<Rightarrow> server list \<Rightarrow> server list \<times> bool" where
  "feishu_start cfg srvs = (srvs @ [new_server (feishu_port cfg)], False)"

definition wecom_start :: "wecom_config \<Rightarrow> server list \<Rightarrow> server list \<times> bool" where
  "wecom_start cfg srvs = (srvs @ [new_server (wecom_port cfg)], False)"

definition web_start :: "web_channel \<Rightarrow> server list \<Rightarrow> server list \<times> bool" where
  "web_start w srvs = (srvs @ [new_server (wl_port w)], False)"

text \<open>The address the server of the web channel listens on.\<close>

definition web_address :: "web_channel \<Rightarrow> string" where "web_address w = '':'' @ show_int (wl_port w)"

text \<open>\<open>Stop\<close> of a channel whose server is the \<open>i\<close>-th; for Feishu and WeCom the end of the context does the same. \<open>Shutdown\<close> of the
  web channel's server also waits for the requests, which changes nothing here.\<close>

definition feishu_stop :: "nat \<Rightarrow> server list \<Rightarrow> server list" where "feishu_stop i srvs = srvs[i := close_server (srvs ! i)]"

definition wecom_stop :: "nat \<Rightarrow> server list \<Rightarrow> server list" where "wecom_stop i srvs = srvs[i := close_server (srvs ! i)]"

definition web_shutdown :: "nat \<Rightarrow> server list \<Rightarrow> server list" where "web_shutdown i srvs = srvs[i := close_server (srvs ! i)]"

inductive net_step :: "int list \<Rightarrow> server list \<Rightarrow> server list \<Rightarrow> bool" for foreign where
  advances: "i < length srvs \<Longrightarrow> advance foreign srvs (srvs ! i) = Some s \<Longrightarrow> net_step foreign srvs (srvs[i := s])"

inductive net_steps :: "int list \<Rightarrow> server list \<Rightarrow> server list \<Rightarrow> bool" for foreign where
  net_refl: "net_steps foreign a a"
| net_then: "net_steps foreign a b \<Longrightarrow> net_step foreign b c \<Longrightarrow> net_steps foreign a c"

inductive net_run :: "int list \<Rightarrow> server list \<Rightarrow> bool" for foreign where
  no_server: "net_run foreign []"
| goes_on: "net_run foreign srvs \<Longrightarrow> net_step foreign srvs srvs' \<Longrightarrow> net_run foreign srvs'"
| feishu_starts: "net_run foreign srvs \<Longrightarrow> net_run foreign (fst (feishu_start fcfg srvs))"
| wecom_starts: "net_run foreign srvs \<Longrightarrow> net_run foreign (fst (wecom_start wcfg srvs))"
| web_starts: "net_run foreign srvs \<Longrightarrow> net_run foreign (fst (web_start w srvs))"
| feishu_stops: "net_run foreign srvs \<Longrightarrow> i < length srvs \<Longrightarrow> net_run foreign (feishu_stop i srvs)"
| wecom_stops: "net_run foreign srvs \<Longrightarrow> i < length srvs \<Longrightarrow> net_run foreign (wecom_stop i srvs)"
| web_stops: "net_run foreign srvs \<Longrightarrow> i < length srvs \<Longrightarrow> net_run foreign (web_shutdown i srvs)"

text \<open>No goroutine has a step left.\<close>

definition settled :: "server list \<Rightarrow> bool" where
  "settled srvs \<longleftrightarrow> list_all (\<lambda>s. sr_state s \<noteq> NotYet \<and> sr_state s \<noteq> Bound) srvs"

lemma settled_nth: "settled srvs \<longleftrightarrow> (\<forall>i < length srvs. advance foreign srvs (srvs ! i) = None)"
  by (auto simp: settled_def list_all_length advance_def split: listen_state.splits)

lemma net_step_length: "net_step foreign a b \<Longrightarrow> length b = length a"
  by (auto elim: net_step.cases)

text \<open>The goroutines come to an end, whatever they find.\<close>

definition steps_left :: "server \<Rightarrow> nat" where
  "steps_left s = (case sr_state s of NotYet \<Rightarrow> 2 | Bound \<Rightarrow> 1 | _ \<Rightarrow> 0)"

lemma advance_less: "advance foreign srvs s = Some s' \<Longrightarrow> steps_left s' < steps_left s"
  by (auto simp: advance_def steps_left_def split: listen_state.splits if_splits)

lemma sum_update_less:
  "i < length xs \<Longrightarrow> (f y :: nat) < f (xs ! i) \<Longrightarrow> sum_list (map f (xs[i := y])) < sum_list (map f xs)"
  by (induction xs arbitrary: i) (auto simp: nth_Cons split: nat.splits)

lemma net_step_less: "net_step foreign a b \<Longrightarrow> sum_list (map steps_left b) < sum_list (map steps_left a)"
  by (auto elim!: net_step.cases intro: sum_update_less advance_less)

lemma net_first: "net_steps foreign b c \<Longrightarrow> net_step foreign a b \<Longrightarrow> net_steps foreign a c"
  by (induction rule: net_steps.induct) (blast intro: net_steps.intros)+

lemma servers_settle: "\<exists>srvs'. net_steps foreign srvs srvs' \<and> settled srvs'"
proof (induction "sum_list (map steps_left srvs)" arbitrary: srvs rule: less_induct)
  case less
  show ?case
  proof (cases "settled srvs")
    case False
    then obtain i s where "i < length srvs" "advance foreign srvs (srvs ! i) = Some s" by (auto simp: settled_nth [of _ foreign])
    then have st: "net_step foreign srvs (srvs[i := s])" by (rule advances)
    from less [OF net_step_less [OF st]] show ?thesis using net_first [OF _ st] by blast
  qed (blast intro: net_refl)
qed

subsection \<open>One server for a port\<close>

definition ports_ok :: "int list \<Rightarrow> server list \<Rightarrow> bool" where
  "ports_ok foreign srvs \<longleftrightarrow>
     (\<forall>i < length srvs. \<forall>j < length srvs. holds_port (srvs ! i) \<and> holds_port (srvs ! j) \<and> sr_port (srvs ! i) = sr_port (srvs ! j) \<longrightarrow> i = j)
     \<and> (\<forall>i < length srvs. holds_port (srvs ! i) \<longrightarrow> sr_port (srvs ! i) \<notin> set foreign)"

lemma port_taken_nth:
  "port_taken foreign srvs p \<longleftrightarrow> p \<in> set foreign \<or> (\<exists>i < length srvs. holds_port (srvs ! i) \<and> sr_port (srvs ! i) = p)"
  by (auto simp: port_taken_def list_ex_length)

lemma ports_ok_update:
  assumes "ports_ok foreign srvs" "i < length srvs" "sr_port s = sr_port (srvs ! i)"
    "holds_port s \<Longrightarrow> \<not> holds_port (srvs ! i) \<Longrightarrow> \<not> port_taken foreign srvs (sr_port s)"
  shows "ports_ok foreign (srvs[i := s])"
proof -
  have alone: "j = i" if "holds_port s" "j < length srvs" "holds_port (srvs ! j)" "sr_port (srvs ! j) = sr_port s" for j
    using assms that by (cases "holds_port (srvs ! i)") (auto simp: ports_ok_def port_taken_nth)
  have "sr_port s \<notin> set foreign" if "holds_port s"
    using assms that by (cases "holds_port (srvs ! i)") (auto simp: ports_ok_def port_taken_nth)
  moreover have "k = j" if "k < length srvs" "j < length srvs" "holds_port (srvs[i := s] ! k)" "holds_port (srvs[i := s] ! j)"
    "sr_port (srvs[i := s] ! k) = sr_port (srvs[i := s] ! j)" for k j
  proof (cases "k = i")
    case True
    have "j = i" if "j \<noteq> i"
      using alone [of j] that \<open>j < length srvs\<close> \<open>holds_port (srvs[i := s] ! j)\<close> \<open>holds_port (srvs[i := s] ! k)\<close>
        \<open>sr_port (srvs[i := s] ! k) = sr_port (srvs[i := s] ! j)\<close> True assms(2) by simp
    then show ?thesis using True by blast
  next
    case k: False
    show ?thesis
    proof (cases "j = i")
      case True
      then show ?thesis using alone [of k] that k assms(2) by simp
    next
      case False
      then have "holds_port (srvs ! k)" "holds_port (srvs ! j)" "sr_port (srvs ! k) = sr_port (srvs ! j)" using that k by auto
      then show ?thesis using assms(1) that(1,2) unfolding ports_ok_def by blast
    qed
  qed
  moreover have "sr_port (srvs[i := s] ! k) \<notin> set foreign" if "k < length srvs" "holds_port (srvs[i := s] ! k)" for k
    using that calculation(1) assms(1,2) by (cases "k = i") (simp_all add: ports_ok_def)
  ultimately show ?thesis unfolding ports_ok_def length_list_update by blast
qed

lemma advance_port: "advance foreign srvs s = Some s' \<Longrightarrow> sr_port s' = sr_port s \<and> sr_shut s' = sr_shut s"
  by (auto simp: advance_def split: listen_state.splits)

lemma advance_takes:
  "advance foreign srvs s = Some s' \<Longrightarrow> holds_port s' \<Longrightarrow> \<not> holds_port s \<Longrightarrow> \<not> port_taken foreign srvs (sr_port s')"
  by (auto simp: advance_def holds_port_def split: listen_state.splits if_splits)

lemma net_step_ports: "net_step foreign a b \<Longrightarrow> ports_ok foreign a \<Longrightarrow> ports_ok foreign b"
  by (auto elim!: net_step.cases intro!: ports_ok_update dest: advance_port advance_takes)

lemma start_ports: "ports_ok foreign srvs \<Longrightarrow> ports_ok foreign (srvs @ [new_server p])"
  by (auto simp: ports_ok_def nth_append holds_port_def new_server_def less_Suc_eq)

lemma stop_ports: "ports_ok foreign srvs \<Longrightarrow> i < length srvs \<Longrightarrow> ports_ok foreign (srvs[i := close_server (srvs ! i)])"
  by (rule ports_ok_update) (auto simp: close_server_def holds_port_def split: if_splits)

text \<open>However the channels start and stop, no two servers hold one port, nor one that another program holds.\<close>

lemma one_server_per_port: "net_run foreign srvs \<Longrightarrow> ports_ok foreign srvs"
proof (induction rule: net_run.induct)
  case no_server
  show ?case by (simp add: ports_ok_def)
qed (auto simp: feishu_start_def wecom_start_def web_start_def feishu_stop_def wecom_stop_def web_shutdown_def intro: net_step_ports start_ports stop_ports)

subsection \<open>A reload finds the ports free\<close>

definition new_serve :: "nat \<Rightarrow> int list \<Rightarrow> server list \<Rightarrow> bool" where
  "new_serve n ports srvs \<longleftrightarrow> length srvs = n + length ports
     \<and> (\<forall>i < n. sr_state (srvs ! i) = Over \<or> sr_state (srvs ! i) = Refused)
     \<and> (\<forall>j < length ports. sr_port (srvs ! (n + j)) = ports ! j \<and> \<not> sr_shut (srvs ! (n + j))
          \<and> sr_state (srvs ! (n + j)) \<in> {NotYet, Bound, Serving})"

lemma new_serve_free:
  assumes "new_serve n ports srvs" "distinct ports" "set ports \<inter> set foreign = {}" "j < length ports" "sr_state (srvs ! (n + j)) = NotYet"
  shows "\<not> port_taken foreign srvs (ports ! j)"
proof
  assume "port_taken foreign srvs (ports ! j)"
  then obtain i where i: "i < length srvs" "holds_port (srvs ! i)" "sr_port (srvs ! i) = ports ! j"
    using assms(3,4) by (auto simp: port_taken_nth dest: nth_mem)
  then have "\<not> i < n" using assms(1) by (auto simp: new_serve_def holds_port_def)
  then obtain k where k: "i = n + k" "k < length ports" using i(1) assms(1) by (auto simp: new_serve_def not_less le_iff_add)
  then have "ports ! k = ports ! j" using i(3) assms(1) by (simp add: new_serve_def)
  then have "k = j" using assms(2,4) k(2) by (simp add: nth_eq_iff_index_eq)
  then show False using i(2) k(1) assms(5) by (simp add: holds_port_def)
qed

lemma new_serve_step:
  assumes "net_step foreign a b" "new_serve n ports a" "distinct ports" "set ports \<inter> set foreign = {}"
  shows "new_serve n ports b"
  using assms(1)
proof cases
  case (advances i s)
  have "\<not> i < n" using assms(2) advances(3) by (auto simp: new_serve_def advance_def split: listen_state.splits)
  then obtain j where j: "i = n + j" "j < length ports"
    using advances(2) assms(2) by (auto simp: new_serve_def not_less le_iff_add)
  then have f: "sr_state (a ! i) = NotYet \<Longrightarrow> \<not> port_taken foreign a (sr_port (a ! i))" and u: "\<not> sr_shut (a ! i)"
    and p: "sr_port (a ! i) = ports ! j"
    using new_serve_free [OF assms(2-4)] assms(2) by (auto simp: new_serve_def)
  have "sr_port s = ports ! j" "\<not> sr_shut s" "sr_state s \<in> {NotYet, Bound, Serving}"
    using advances(3) f u p by (auto simp: advance_def split: listen_state.splits)
  then show ?thesis using assms(2) j advances by (auto simp: new_serve_def nth_list_update)
qed



subsection \<open>What Start does not report\<close>

text \<open>Two channels on one port: both starts report success, and only one of the two ever listens.\<close>

lemma taken_port_unnoticed:
  assumes "wl_port w = wecom_port cfg"
  shows "\<not> snd (web_start w srvs) \<and> \<not> snd (wecom_start cfg (fst (web_start w srvs)))
    \<and> (net_run foreign t \<and> i < length t \<and> j < length t \<and> i \<noteq> j \<and> sr_port (t ! i) = wl_port w \<and> sr_port (t ! j) = wecom_port cfg
        \<longrightarrow> \<not> (sr_state (t ! i) = Serving \<and> sr_state (t ! j) = Serving))"
  using assms one_server_per_port [of foreign t]
  by (auto simp: web_start_def wecom_start_def ports_ok_def holds_port_def)

text \<open>A channel that is replaced while its server has the port but does not serve yet: \<open>Close\<close> does not free the port, and
  the new channel does not get it, though nobody holds it in the end.\<close>

lemma early_reload_loses_port:
  "\<exists>srvs. net_steps [] (map close_server [\<lparr>sr_port = p, sr_shut = False, sr_state = Bound\<rparr>] @ [new_server p]) srvs
    \<and> map sr_state srvs = [Over, Refused]"
proof -
  let ?a = "[\<lparr>sr_port = p, sr_shut = True, sr_state = Bound\<rparr>, new_server p]"
  have 1: "net_step [] ?a (?a[1 := (new_server p)\<lparr>sr_state := Refused\<rparr>])"
    by (intro advances) (simp_all add: advance_def new_server_def port_taken_def holds_port_def)
  let ?b = "?a[1 := (new_server p)\<lparr>sr_state := Refused\<rparr>]"
  have 2: "net_step [] ?b (?b[0 := \<lparr>sr_port = p, sr_shut = True, sr_state = Over\<rparr>])"
    by (intro advances) (simp_all add: advance_def)
  have "net_steps [] ?a (?b[0 := \<lparr>sr_port = p, sr_shut = True, sr_state = Over\<rparr>])"
    using net_then [OF net_then [OF net_refl 1] 2] .
  moreover have "map sr_state (?b[0 := \<lparr>sr_port = p, sr_shut = True, sr_state = Over\<rparr>]) = [Over, Refused]" by simp
  moreover have "map close_server [\<lparr>sr_port = p, sr_shut = False, sr_state = Bound\<rparr>] @ [new_server p] = ?a"
    by (simp add: close_server_def)
  ultimately show ?thesis by (simp only:) (rule exI, rule conjI)
qed

text \<open>The host of the gateway's configuration has no part in the address: the web channel listens on every interface.\<close>

lemma host_not_bound: "web_address (new_web_channel runner cfg (gw\<lparr>gc_host := h\<rparr>)) = web_address (new_web_channel runner cfg gw)"
  by (simp add: web_address_def new_web_channel_def)

text \<open>The port is the one of the configuration a reload brings.\<close>

lemma port_of_reload: "p \<noteq> 0 \<Longrightarrow> wl_port (new_web_channel runner cfg (gw\<lparr>gc_port := p\<rparr>)) = p"
  by (simp add: new_web_channel_def)

end
