(* ===== verification/Consolidation.thy ===== *)
theory Consolidation
  imports Heartbeat
begin

text \<open>
  The life of the memory consolidation, \<open>plugins/trigger/memconsolidate/plugin.go\<close>: the interval fixed when the plugin is
  made, \<open>Start\<close> with its loop and lane, and \<open>Stop\<close>, which cancels and does not wait. A loop is a \<open>service\<close> of \<open>Heartbeat\<close>.
\<close>

subsection \<open>The plugin\<close>

record consolidation =
  cn_interval :: duration
  cn_loops :: service_plugin

definition new_consolidation :: "int \<Rightarrow> consolidation" where
  "new_consolidation hours = \<lparr>cn_interval = consolidate_interval hours, cn_loops = new_service_plugin\<rparr>"

definition consolidate_start :: "consolidation \<Rightarrow> consolidation \<times> bool" where
  "consolidate_start c =
     (let p = cancel_current (cn_loops c) in
      (c\<lparr>cn_loops := p\<lparr>sp_services := sp_services p @ [new_loop_service], sp_cancel := Some (length (sp_services p))\<rparr>\<rparr>, False))"

inductive consolidate_step :: "consolidation \<Rightarrow> consolidation \<Rightarrow> bool" where
  loop_goes_on: "i < length (sp_services (cn_loops c)) \<Longrightarrow> service_step (sp_services (cn_loops c) ! i) s
    \<Longrightarrow> consolidate_step c (c\<lparr>cn_loops := (cn_loops c)\<lparr>sp_services := (sp_services (cn_loops c))[i := s]\<rparr>\<rparr>)"
| consolidation_starts: "consolidate_step c (fst (consolidate_start c))"
| consolidation_stops: "consolidate_step c (c\<lparr>cn_loops := consolidate_stop (cn_loops c)\<rparr>)"

inductive consolidate_steps :: "consolidation \<Rightarrow> consolidation \<Rightarrow> bool" where
  consolidate_refl: "consolidate_steps c c"
| consolidate_then: "consolidate_steps a b \<Longrightarrow> consolidate_step b c \<Longrightarrow> consolidate_steps a c"

subsection \<open>Passes\<close>

lemma cancel_all_inv: "\<forall>s \<in> set (sp_services p). service_inv s \<Longrightarrow> \<forall>s \<in> set (sp_services (cancel_current p)). service_inv s"
proof (cases "sp_cancel p")
  case (Some i)
  assume a: "\<forall>s \<in> set (sp_services p). service_inv s"
  then have "i < length (sp_services p) \<Longrightarrow> service_inv (service_cancel (sp_services p ! i))" using cancel_keeps(1) by simp
  then have "service_inv ((sp_services p)[i := service_cancel (sp_services p ! i)] ! k)" if "k < length (sp_services p)" for k
    using a that by (cases "k = i") simp_all
  then show ?thesis using Some by (simp add: cancel_current_def all_set_conv_all_nth)
qed (simp add: cancel_current_def)

lemma consolidate_step_inv:
  "consolidate_step a b \<Longrightarrow> \<forall>s \<in> set (sp_services (cn_loops a)). service_inv s \<Longrightarrow> \<forall>s \<in> set (sp_services (cn_loops b)). service_inv s"
proof (induction rule: consolidate_step.induct)
  case (loop_goes_on i c s)
  then have "service_inv s" using service_step_inv by simp
  then show ?case using loop_goes_on.prems by (auto dest!: set_update_subset_insert [THEN subsetD])
next
  case (consolidation_starts c)
  then show ?case using new_service_inv cancel_all_inv [of "cn_loops c"] by (auto simp: consolidate_start_def Let_def)
next
  case (consolidation_stops c)
  then show ?case using cancel_all_inv [of "cn_loops c"] by (simp add: consolidate_stop_def)
qed

text \<open>The passes of one loop do not overlap, and the interval is the one the plugin was made with, whatever configuration a
  later start belongs to.\<close>

lemma passes_of_a_loop:
  assumes "consolidate_steps (new_consolidation hours) c"
  shows "cn_interval c = consolidate_interval hours \<and> (\<forall>s \<in> set (sp_services (cn_loops c)). length (sv_fires s) \<le> 1)"
proof -
  have "consolidate_steps a b \<Longrightarrow> cn_interval a = consolidate_interval hours \<Longrightarrow> \<forall>s \<in> set (sp_services (cn_loops a)). service_inv s
      \<Longrightarrow> cn_interval b = consolidate_interval hours \<and> (\<forall>s \<in> set (sp_services (cn_loops b)). service_inv s)" for a b
  proof (induction rule: consolidate_steps.induct)
    case (consolidate_then a b c)
    then show ?case using consolidate_step_inv [OF consolidate_then.hyps(2)]
      by (auto elim!: consolidate_step.cases simp: consolidate_start_def Let_def)
  qed simp
  from this [OF assms] show ?thesis by (simp add: new_consolidation_def new_service_plugin_def service_inv_def)
qed

text \<open>The passes of two loops do: \<open>Stop\<close> returns while a pass is running, and the loop that the reload then starts fires
  the next one beside it. \<open>heartbeat_stops\<close> shows that the heartbeat waits.\<close>

definition fired_loop :: "bool \<Rightarrow> service" where
  "fired_loop over = \<lparr>sv_done = over, sv_loop = LoopRunning, sv_lane = True, sv_fires = [Executing]\<rparr>"

lemma loop_fires:
  assumes "consolidate_steps a c" "i < length (sp_services (cn_loops c))" "sp_services (cn_loops c) ! i = new_loop_service"
  shows "consolidate_steps a (c\<lparr>cn_loops := (cn_loops c)\<lparr>sp_services := (sp_services (cn_loops c))[i := fired_loop False]\<rparr>\<rparr>)"
proof -
  let ?w = "\<lparr>sv_done = False, sv_loop = LoopRunning, sv_lane = False, sv_fires = []\<rparr>"
  let ?c1 = "c\<lparr>cn_loops := (cn_loops c)\<lparr>sp_services := (sp_services (cn_loops c))[i := ?w]\<rparr>\<rparr>"
  have "consolidate_steps a ?c1"
    by (rule consolidate_then [OF assms(1) loop_goes_on]) (use assms(2,3) in \<open>simp_all add: begins loop_begin_def new_loop_service_def\<close>)
  then have "consolidate_steps a (?c1\<lparr>cn_loops := (cn_loops ?c1)\<lparr>sp_services := (sp_services (cn_loops ?c1))[i := fired_loop False]\<rparr>\<rparr>)"
    by (rule consolidate_then [OF _ loop_goes_on]) (use assms(2) in \<open>simp_all add: ticks service_tick_def fired_loop_def\<close>)
  then show ?thesis by simp
qed

lemma passes_overlap:
  "\<exists>c. consolidate_steps (new_consolidation 24) c \<and> sp_services (cn_loops c) = [fired_loop True, fired_loop False]"
proof -
  let ?c0 = "new_consolidation 24"
  let ?c1 = "fst (consolidate_start ?c0)"
  have 1: "consolidate_steps ?c0 ?c1" by (rule consolidate_then [OF consolidate_refl consolidation_starts])
  have s1: "sp_services (cn_loops ?c1) = [new_loop_service]" "sp_cancel (cn_loops ?c1) = Some 0"
    by (simp_all add: consolidate_start_def new_consolidation_def new_service_plugin_def cancel_current_def)
  let ?c2 = "?c1\<lparr>cn_loops := (cn_loops ?c1)\<lparr>sp_services := (sp_services (cn_loops ?c1))[0 := fired_loop False]\<rparr>\<rparr>"
  have 2: "consolidate_steps ?c0 ?c2" by (rule loop_fires [OF 1]) (simp_all add: s1)
  let ?c3 = "?c2\<lparr>cn_loops := consolidate_stop (cn_loops ?c2)\<rparr>"
  have 3: "consolidate_steps ?c0 ?c3" by (rule consolidate_then [OF 2 consolidation_stops])
  have s3: "sp_services (cn_loops ?c3) = [fired_loop True]" "sp_cancel (cn_loops ?c3) = None"
    by (simp_all add: consolidate_stop_def cancel_current_def s1 fired_loop_def service_cancel_def)
  have "sp_services (cn_loops (fst (consolidate_start ?c3))) = [fired_loop True, new_loop_service]"
    using s3 by (simp add: consolidate_start_def cancel_current_def Let_def)
  with consolidate_then [OF 3 consolidation_starts]
  obtain c4 where 4: "consolidate_steps ?c0 c4" and s4: "sp_services (cn_loops c4) = [fired_loop True, new_loop_service]" by blast
  have 5: "consolidate_steps ?c0 (c4\<lparr>cn_loops := (cn_loops c4)\<lparr>sp_services := (sp_services (cn_loops c4))[1 := fired_loop False]\<rparr>\<rparr>)"
    by (rule loop_fires [OF 4]) (simp_all add: s4)
  show ?thesis by (rule exI, rule conjI, rule 5) (simp add: s4)
qed

end
