(* ===== verification/Spec2Isabelle.thy ===== *)
theory Spec2Isabelle
  imports VoiceVad Speech WakeGate Gateway ConfigSave Wecom Feishu Matrix Whatsapp Web MemoryHost Heartbeat Telegram Delegate Cli
    VoiceIO AudioRoute ConfigWatch Terminal Host AudioProcess AgentCommand MessageFlow StreamCopy Listening Consolidation
begin

text \<open>
  Maven: a verification development of a gateway between chat networks and an agent (the Go module under \<open>src/\<close>).

  \<^bold>\<open>The program.\<close> A channel (a chat transport) turns what arrives into inbound messages and publishes them on the message bus.
  The pipeline reads them one at a time: it runs slash commands, resolves the session of the chat, runs the agent, and
  publishes the reply on the bus, which hands it to the channel the message came from. Triggers (cron jobs, the heartbeat, the
  consolidation of memory) run turns without a message. The gateway owns all of these and replaces them when the configuration
  is reloaded, which waits for the running turns. The agent itself (\<open>ageneral-agents-go\<close>), the chat libraries, HTTP, YAML and the
  cryptographic primitives are third-party code: they are arguments of the definitions that use them.

  \<^bold>\<open>Vocabulary.\<close> \<open>Prelude\<close>: 64-bit integers, durations, results, lists. \<open>GoStrings\<close> and \<open>Unicode_Case\<close>: strings as bytes,
  UTF-8, \<open>strings\<close>, \<open>strconv\<close>. \<open>Paths\<close>: \<open>path/filepath\<close> on Unix, with the walks through a directory tree. A Go map is the
  list of its entries; where the order of iteration matters it is an argument. Times are nanoseconds. An error is a value.

  \<^bold>\<open>Kernel\<close> (\<open>internal/kernel\<close>). \<open>StringUtil\<close>: \<open>stringutil\<close>. \<open>SessionId\<close>: \<open>sessionid\<close>. \<open>SessionRouter\<close>: \<open>session\<close>, the override of
  a route's session and the history files. \<open>TurnCtx\<close>: \<open>turnctx\<close>, the identity of a turn on its context. \<open>TaskTool\<close>: \<open>task\<close>, the
  nested agent. \<open>Events\<close>: \<open>events\<close>, the fan-out. \<open>SlashCommand\<close>: \<open>slash\<close>, lexer, parser and registry. \<open>MessageBus\<close>: \<open>bus\<close>, its
  queues and the interleavings of publishers, readers and \<open>Close\<close> as a step relation. \<open>PostAction\<close>: \<open>agent/postaction\<close>.
  \<open>Pipeline\<close>: \<open>pipeline\<close>, one message from the bus to the reply. \<open>StreamCopy\<close>: the goroutine that copies a stream. \<open>TurnLock\<close>: its
  \<open>RWMutex\<close>, refined to the calls that wait. \<open>MessageFlow\<close>: channels, bus, loop, deliveries and reloads as one step relation.
  \<open>ChannelManager\<close>: \<open>channels/manager\<close>. \<open>Webhook\<close>: \<open>channels/webhook\<close> and \<open>channels/allowlist\<close>. \<open>Config\<close>, \<open>ConfigLoad\<close>,
  \<open>ConfigSave\<close>: \<open>config\<close>. \<open>PluginHost\<close>: \<open>plugin\<close>, with the cron plugin that registers there. \<open>MemoryHost\<close>: \<open>memory\<close> and
  \<open>prompt\<close>. \<open>VoiceVad\<close>, \<open>Speech\<close>, \<open>WakeGate\<close>, \<open>VoiceIO\<close>: \<open>voice\<close> and \<open>converse\<close>, \<open>VoiceIO\<close> with the services of \<open>plugins/voice\<close>.
  \<open>ConfigWatch\<close>: the signal after a change of the configuration file.

  \<^bold>\<open>Gateway\<close> (\<open>internal/gateway\<close>): \<open>Gateway\<close>, one state record that \<open>Apply\<close>, \<open>Reload\<close> and \<open>Shutdown\<close> map to the next, and
  \<open>Host\<close>: the plugins, the wiring and \<open>Run\<close>. \<^bold>\<open>Programs\<close>: \<open>Cli\<close> (\<open>cmd/maven\<close>, \<open>version\<close>) and \<open>AgentCommand\<close> (the agent and
  gateway commands, with \<open>agent/sdk_runtime.go\<close>); \<open>Terminal\<close>, \<open>AudioRoute\<close> and \<open>AudioProcess\<close> (\<open>modality\<close>).

  \<^bold>\<open>Plugins\<close> (\<open>internal/plugins\<close>). \<open>CronSchedule\<close>, \<open>CronService\<close>, \<open>CronRuns\<close>, \<open>CronCommands\<close>: \<open>trigger/cron\<close>, the jobs, the
  timer and the runs as steps. \<open>Heartbeat\<close> and \<open>Consolidation\<close>: \<open>trigger/heartbeat\<close> and \<open>trigger/memconsolidate\<close>. \<open>Journal\<close>: \<open>memory/file\<close>.
  \<open>Skills\<close>: \<open>skill/file\<close>. \<open>Delegate\<close>: \<open>tool/acp\<close>. The channels: \<open>TelegramHtml\<close>, \<open>TelegramSend\<close>, \<open>TelegramCommands\<close>, \<open>Telegram\<close>;
  \<open>WecomCrypto\<close>, \<open>Wecom\<close>; \<open>Feishu\<close>; \<open>Matrix\<close>; \<open>Whatsapp\<close>; \<open>WebSession\<close>, \<open>Web\<close>. \<open>Listening\<close>: the servers
  of Feishu, WeCom and the web channel, and the ports they get.

  \<^bold>\<open>Interfaces.\<close> Four locales state what one part relies on in another: \<open>route_override\<close> (a router, interpreted on the session
  router), \<open>outbound_publisher\<close> (what cron delivery and the reply need of a bus, interpreted on the message bus),
  \<open>subscriber_table\<close> (what the channel manager needs of the bus), and \<open>guarded_channel\<close> (what the bus may assume of a channel,
  interpreted on the steps of WeCom, Feishu, Matrix, WhatsApp and Web; \<open>channels_admit_only\<close> below puts them together).

  \<^bold>\<open>What the lemmas show.\<close> Bus and pipeline: messages leave in the order they came, a closed bus takes none, \<open>Close\<close> can
  finish, a message has one reply and one run, a reload drains the running turns, and where a nested turn deadlocks with it.
  Together (\<open>MessageFlow\<close>): whatever is delivered answers a message that was let in, or a job asked for it.
  Host: which channels a reload brings, that the commands of the plugins never clash, and that a run leaves nothing behind.
  Sessions: rotation, the round trips of identifiers and histories, and the conversations of the HTTP endpoint. Cron: due jobs
  run, runs of a job do not overlap, jobs survive a restart, output goes where it was asked to. Channels: who is heard, what
  is sent and in which pieces, what is written to disk and where. Memory and files: what is remembered is read again, no path
  leaves its directory, the prompt is bounded. Voice: the loops return, chunking does not matter, the gate is silent until
  it is woken, one turn at a time, and where the goroutines of the
  transcription and the microphone panic or hang. Command line: onboarding changes nothing that is there. Configuration: loading and saving are inverse and the loaded values are in range.
  Each property has an identifier in the text before it; lemmas named in the texts show where the code does not keep one.

  \<^bold>\<open>Bounds.\<close> Recursions are structural or have a proved measure; a loop that may not end is a step
  relation, or its result is \<open>None\<close> when it does not end (\<open>vad_push\<close>), and that it ends is proved. The limits are those of the code: 4000-byte pieces for
  Telegram, 32,000 for Matrix, 500 responses of thirty minutes for the web sessions, and the queue of the bus, whose size is a parameter.

  \<^bold>\<open>Not modelled.\<close> Logging and health reports, the schemas of the tools, the retry loop of the Matrix synchronisation and the
  login of WhatsApp by a QR code (both inside the libraries), the setting up of the file watcher, the stream hooks of the bus
  that no code installs, and the test doubles: they are input and output, or glue around the libraries named above. Memory exhaustion and panics of the runtime other than those written out are not
  modelled either.
\<close>

text \<open>C16: whatever arrives, and in any order, each of these transports publishes messages of its own channel only, and only from
  senders its allow list admits: WeCom, Feishu, Matrix (also only in rooms that are allowed, and not its own), WhatsApp (which
  may name a sender with its device), and the browsers.\<close>

theorem channels_admit_only:
  "list_all (\<lambda>im. im_channel im = ''wecom'' \<and> im_sender_id im \<noteq> [] \<and> allow_id (wn_allow wecom) (im_sender_id im))
     (channel_run wecom_step wecom callbacks)
   \<and> list_all (\<lambda>im. im_channel im = ''feishu'' \<and> allow_id (fn_allow feishu) (im_sender_id im))
       (channel_run feishu_step feishu webhooks)
   \<and> list_all (\<lambda>im. im_channel im = ''matrix'' \<and> im_sender_id im \<noteq> mh_user matrix \<and> allow_id (mh_allow matrix) (im_sender_id im)
         \<and> is_room_allowed matrix (im_chat_id im)) (channel_run matrix_step matrix events)
   \<and> list_all (\<lambda>im. im_channel im = ''whatsapp'' \<and> whatsapp_admits whatsapp im) (channel_run whatsapp_step whatsapp messages)
   \<and> list_all (\<lambda>im. im_channel im = ''web'' \<and> allow_id (wl_allow web) (im_sender_id im) \<and> im_chat_id im = im_sender_id im)
       (channel_run web_step web inputs)"
  using wecom_guard.run_all_admitted [of wecom callbacks] feishu_guard.run_all_admitted [of feishu webhooks]
    matrix_guard.run_all_admitted [of matrix events] whatsapp_guard.run_all_admitted [of whatsapp messages]
    web_guard.run_all_admitted [of web inputs]
  by (simp add: wecom_admits_def feishu_admits_def matrix_admits_def web_admits_def)

end
